(* ===== verification/Ledger_Prelude.thy ===== *)
theory Ledger_Prelude
  imports Main "HOL-Library.Char_ord" "HOL-Library.List_Lexorder" "HOL-Library.Signed_Division"
begin

text \<open>
  Shared vocabulary of the development: results of fallible operations, Go's decimal
  printing of integers, and generic facts on lists and strings.

  A Go string is a sequence of bytes, and so is an Isabelle \<^typ>\<open>string\<close> (a list of
  8-bit characters); \<open><\<close> on strings is the bytewise lexicographic order of Go, given by
  the theory \<open>List_Lexorder\<close>.  A function of the code that returns a value and an error
  is a function into a sum: \<open>Inl\<close> the error, \<open>Inr\<close> the value.
\<close>

section \<open>Results\<close>

named_theorems result_simps \<open>unfolding of the result combinators\<close>
named_theorems result_elims \<open>inversion of successful results\<close>

definition bindR :: "'e + 'a \<Rightarrow> ('a \<Rightarrow> 'e + 'b) \<Rightarrow> 'e + 'b" where
  "bindR m f = (case m of Inl e \<Rightarrow> Inl e | Inr x \<Rightarrow> f x)"

lemma bindR_Inl [simp]: "bindR (Inl e) f = Inl e"
  by (simp add: bindR_def)

lemma bindR_Inr [simp]: "bindR (Inr x) f = f x"
  by (simp add: bindR_def)

lemma bindR_eq_Inr_iff [result_simps]:
  "bindR m f = Inr y \<longleftrightarrow> (\<exists>x. m = Inr x \<and> f x = Inr y)"
  by (cases m) auto

lemma bindR_eq_Inl_iff [result_simps]:
  "bindR m f = Inl e \<longleftrightarrow> m = Inl e \<or> (\<exists>x. m = Inr x \<and> f x = Inl e)"
  by (cases m) auto

lemma bindR_InrE [result_elims, elim]:
  assumes "bindR m f = Inr y"
  obtains x where "m = Inr x" "f x = Inr y"
  using assms by (auto simp: bindR_eq_Inr_iff)

lemma bindR_assoc: "bindR (bindR m f) g = bindR m (\<lambda>x. bindR (f x) g)"
  by (cases m) auto

definition isOk :: "'e + 'a \<Rightarrow> bool" where
  "isOk m = (case m of Inl _ \<Rightarrow> False | Inr _ \<Rightarrow> True)"

lemma isOk_simps [simp]: "isOk (Inr x)" "\<not> isOk (Inl e)"
  by (simp_all add: isOk_def)

lemma isOk_iff: "isOk m \<longleftrightarrow> (\<exists>x. m = Inr x)"
  by (cases m) auto

text \<open>A loop that returns on the first error.\<close>

fun mapR :: "('a \<Rightarrow> 'e + 'b) \<Rightarrow> 'a list \<Rightarrow> 'e + 'b list" where
  "mapR f [] = Inr []"
| "mapR f (x # xs) = bindR (f x) (\<lambda>y. bindR (mapR f xs) (\<lambda>ys. Inr (y # ys)))"

lemma mapR_Inr_iff: "mapR f xs = Inr ys \<longleftrightarrow> list_all2 (\<lambda>x y. f x = Inr y) xs ys"
  by (induction xs arbitrary: ys) (auto simp: bindR_eq_Inr_iff list_all2_Cons1)

text \<open>A loop that threads a state and returns on the first error.\<close>

fun foldR :: "('s \<Rightarrow> 'a \<Rightarrow> 'e + 's) \<Rightarrow> 's \<Rightarrow> 'a list \<Rightarrow> 'e + 's" where
  "foldR f s [] = Inr s"
| "foldR f s (x # xs) = bindR (f s x) (\<lambda>s'. foldR f s' xs)"

lemma foldR_append: "foldR f s (xs @ ys) = bindR (foldR f s xs) (\<lambda>s'. foldR f s' ys)"
  by (induction xs arbitrary: s) (simp_all add: bindR_assoc)

lemma foldR_snoc_Inr_iff:
  "foldR f s (xs @ [x]) = Inr s'' \<longleftrightarrow> (\<exists>s'. foldR f s xs = Inr s' \<and> f s' x = Inr s'')"
  by (auto simp: foldR_append bindR_eq_Inr_iff)

text \<open>
  Insertion of fresh keys: the loops that fill a Go map and fail on a key already there.  The
  failing key is the error.
\<close>

fun put_all :: "('k \<times> 'v) list \<Rightarrow> ('k \<rightharpoonup> 'v) \<Rightarrow> 'k + ('k \<rightharpoonup> 'v)" where
  "put_all [] m = Inr m"
| "put_all ((k, v) # ps) m = (if m k \<noteq> None then Inl k else put_all ps (m(k \<mapsto> v)))"

lemma put_all_Inr_iff:
  "put_all ps m = Inr m' \<longleftrightarrow>
    distinct (map fst ps) \<and> fst ` set ps \<inter> dom m = {} \<and> m' = m ++ map_of ps"
proof (induction ps m rule: put_all.induct)
  case (1 m)
  then show ?case by auto
next
  case (2 k v ps m)
  have "k \<notin> fst ` set ps \<Longrightarrow> m(k \<mapsto> v) ++ map_of ps = m ++ map_of ((k, v) # ps)"
  proof -
    assume "k \<notin> fst ` set ps"
    then have "map_of ps k = None" by (simp add: map_of_eq_None_iff)
    then show ?thesis by (auto simp: map_add_def fun_eq_iff split: option.split)
  qed
  note eq = this
  show ?case
  proof (cases "m k = None")
    case True
    have "fst ` set ps \<inter> dom (m(k \<mapsto> v)) = {} \<longleftrightarrow> k \<notin> fst ` set ps \<and> fst ` set ps \<inter> dom m = {}" by auto
    moreover have "k \<notin> dom m" using True by auto
    ultimately show ?thesis using 2 [OF _] True eq by (auto simp del: fun_upd_apply)
  next
    case False
    then show ?thesis by auto
  qed
qed

lemma put_all_ok_iff: "isOk (put_all ps m) \<longleftrightarrow> distinct (map fst ps) \<and> fst ` set ps \<inter> dom m = {}"
  by (auto simp: isOk_iff put_all_Inr_iff)

text \<open>The positions of a list of identifiers.\<close>

definition with_positions :: "'k list \<Rightarrow> ('k \<times> nat) list" where
  "with_positions ids = zip ids [0..<length ids]"

lemma map_fst_with_positions [simp]: "map fst (with_positions ids) = ids"
  by (simp add: with_positions_def)

lemma fst_set_with_positions [simp]: "fst ` set (with_positions ids) = set ids"
  using map_fst_with_positions [of ids] by (metis set_map)

lemma map_of_with_positions:
  "distinct ids \<Longrightarrow> map_of (with_positions ids) k = Some i \<longleftrightarrow> i < length ids \<and> ids ! i = k"
  by (auto simp: with_positions_def set_zip)

section \<open>Characters and decimal digits\<close>

definition is_digit :: "char \<Rightarrow> bool" where
  "is_digit c \<longleftrightarrow> CHR ''0'' \<le> c \<and> c \<le> CHR ''9''"

definition is_digit19 :: "char \<Rightarrow> bool" where
  "is_digit19 c \<longleftrightarrow> CHR ''1'' \<le> c \<and> c \<le> CHR ''9''"

definition digit_val :: "char \<Rightarrow> nat" where
  "digit_val c = of_char c - 48"

definition digit_char :: "nat \<Rightarrow> char" where
  "digit_char n = char_of (48 + n)"

text \<open>\<open>digits_value\<close> reads a digit string base ten, most significant digit first.\<close>

definition digits_value :: "string \<Rightarrow> nat" where
  "digits_value s = foldl (\<lambda>a c. 10 * a + digit_val c) 0 s"

text \<open>The base-ten spelling of \<open>strconv.Itoa\<close> and \<open>big.Int.String\<close>.\<close>

fun nat_string :: "nat \<Rightarrow> string" where
  "nat_string n = (if n < 10 then [digit_char n] else nat_string (n div 10) @ [digit_char (n mod 10)])"

declare nat_string.simps [simp del]

definition int_string :: "int \<Rightarrow> string" where
  "int_string i = (if i < 0 then CHR ''-'' # nat_string (nat (- i)) else nat_string (nat i))"

lemma is_digit_iff: "is_digit c \<longleftrightarrow> 48 \<le> (of_char c :: nat) \<and> (of_char c :: nat) \<le> 57"
  by (simp add: is_digit_def less_eq_char_def)

lemma is_digit19_iff: "is_digit19 c \<longleftrightarrow> is_digit c \<and> c \<noteq> CHR ''0''"
proof -
  have "(of_char c :: nat) = 48 \<longleftrightarrow> c = CHR ''0''"
    using of_char_eq_iff [of c "CHR ''0''", where 'a = nat] by simp
  then show ?thesis
    by (auto simp: is_digit19_def is_digit_def less_eq_char_def)
qed

lemma digit19_digit: "is_digit19 c \<Longrightarrow> is_digit c"
  by (simp add: is_digit19_iff)

lemma digit_val_less: "is_digit c \<Longrightarrow> digit_val c < 10"
  by (auto simp: is_digit_iff digit_val_def)

lemma digit_val_pos: "is_digit19 c \<Longrightarrow> 0 < digit_val c"
  by (auto simp: is_digit19_def less_eq_char_def digit_val_def)

lemma digit_char_val [simp]: "is_digit c \<Longrightarrow> digit_char (digit_val c) = c"
  by (simp add: is_digit_iff digit_char_def digit_val_def)

lemma digit_val_char [simp]: "n < 10 \<Longrightarrow> digit_val (digit_char n) = n"
  by (simp add: digit_char_def digit_val_def of_char_of take_bit_eq_mod)

lemma is_digit_char [simp]: "n < 10 \<Longrightarrow> is_digit (digit_char n)"
  by (simp add: is_digit_iff digit_char_def of_char_of take_bit_eq_mod)

lemma digit_char_0 [simp]: "digit_char 0 = CHR ''0''"
proof -
  have "char_of (of_char (CHR ''0'') :: nat) = CHR ''0''" by (rule char_of_char)
  then show ?thesis by (simp add: digit_char_def)
qed

lemma digit_char_eq_0_iff [simp]: "n < 10 \<Longrightarrow> digit_char n = CHR ''0'' \<longleftrightarrow> n = 0"
  by (metis digit_char_0 digit_val_char zero_less_numeral)

lemma digits_value_Nil [simp]: "digits_value [] = 0"
  by (simp add: digits_value_def)

lemma digits_value_snoc [simp]: "digits_value (s @ [c]) = 10 * digits_value s + digit_val c"
  by (simp add: digits_value_def)

lemma digits_value_append: "digits_value (s @ t) = digits_value s * 10 ^ length t + digits_value t"
proof (induction t rule: rev_induct)
  case Nil
  show ?case by simp
next
  case (snoc c t)
  have "digits_value (s @ t @ [c]) = digits_value ((s @ t) @ [c])" by simp
  also have "\<dots> = 10 * digits_value (s @ t) + digit_val c" by (rule digits_value_snoc)
  finally show ?case using snoc.IH by (simp add: algebra_simps)
qed

lemma digits_value_Cons: "digits_value (c # s) = digit_val c * 10 ^ length s + digits_value s"
  using digits_value_append [of "[c]" s] by (simp add: digits_value_def)

lemma digits_value_zeros [simp]: "digits_value (replicate n CHR ''0'') = 0"
  by (induction n) (simp_all add: digits_value_Cons digit_val_def)

lemma digits_value_less: "list_all is_digit s \<Longrightarrow> digits_value s < 10 ^ length s"
proof (induction s rule: rev_induct)
  case Nil
  show ?case by simp
next
  case (snoc c s)
  then have "digits_value s + 1 \<le> 10 ^ length s" "digit_val c < 10"
    by (auto simp: digit_val_less)
  then have "10 * digits_value s + digit_val c < 10 * (digits_value s + 1)" by simp
  also have "\<dots> \<le> 10 * 10 ^ length s"
    using \<open>digits_value s + 1 \<le> 10 ^ length s\<close> by (rule mult_le_mono2)
  finally show ?case by simp
qed

lemma nat_string_ne [simp]: "nat_string n \<noteq> []"
  by (subst nat_string.simps) simp

lemma nat_string_digits: "list_all is_digit (nat_string n)"
proof (induction n rule: nat_string.induct)
  case (1 n)
  then show ?case by (subst nat_string.simps) simp
qed

lemma digits_value_nat_string [simp]: "digits_value (nat_string n) = n"
proof (induction n rule: nat_string.induct)
  case (1 n)
  show ?case
  proof (cases "n < 10")
    case True
    then show ?thesis by (subst nat_string.simps) (simp add: digits_value_Cons)
  next
    case False
    with 1 show ?thesis by (subst nat_string.simps) simp
  qed
qed

lemma nat_string_length: "v < 10 ^ n \<Longrightarrow> 0 < n \<Longrightarrow> length (nat_string v) \<le> n"
proof (induction v arbitrary: n rule: nat_string.induct)
  case (1 v)
  show ?case
  proof (cases "v < 10")
    case True
    with 1 show ?thesis by (subst nat_string.simps) simp
  next
    case False
    then obtain k where k: "n = Suc k" "0 < k" using 1 by (cases n; cases "n - 1") auto
    with 1 have "v div 10 < 10 ^ k" by auto
    with "1.IH" [OF False] k False show ?thesis by (subst nat_string.simps) simp
  qed
qed

lemma nat_string_inj [simp]: "nat_string m = nat_string n \<longleftrightarrow> m = n"
  by (metis digits_value_nat_string)

lemma nat_string_hd: "0 < n \<Longrightarrow> is_digit19 (hd (nat_string n))"
proof (induction n rule: nat_string.induct)
  case (1 n)
  show ?case
  proof (cases "n < 10")
    case True
    with 1 show ?thesis by (subst nat_string.simps) (simp add: is_digit19_iff)
  next
    case False
    with 1 show ?thesis by (subst nat_string.simps) (simp add: hd_append)
  qed
qed

text \<open>The printer inverts the reader on numerals without leading zeros.\<close>

lemma nat_string_digits_value:
  "s \<noteq> [] \<Longrightarrow> list_all is_digit s \<Longrightarrow> is_digit19 (hd s) \<Longrightarrow> nat_string (digits_value s) = s"
proof (induction s rule: rev_induct)
  case Nil
  then show ?case by simp
next
  case (snoc c s)
  show ?case
  proof (cases "s = []")
    case True
    with snoc.prems show ?thesis
      by (subst nat_string.simps) (simp add: digits_value_Cons digit_val_less)
  next
    case False
    with snoc have IH: "nat_string (digits_value s) = s" and c: "is_digit c" by auto
    have "0 < digits_value s"
    proof (rule ccontr)
      assume "\<not> 0 < digits_value s"
      with IH have "s = nat_string 0" by simp
      then have "hd s = CHR ''0''" by (subst (asm) nat_string.simps) simp
      with snoc.prems False show False by (simp add: is_digit19_iff)
    qed
    with IH c show ?thesis
      by (subst nat_string.simps) (simp add: digit_val_less)
  qed
qed

section \<open>Integers and quoting\<close>

text \<open>
  Go's \<open>/\<close> and \<open>%\<close> on integers (and \<open>big.Int.Quo\<close>, \<open>big.Int.Rem\<close>) truncate towards
  zero: they are \<open>sdiv\<close> and \<open>smod\<close> of the theory \<open>Signed_Division\<close>.
\<close>

lemma smod_eq_0_iff: "a smod b = 0 \<longleftrightarrow> b dvd (a :: int)"
proof -
  have "a smod b = 0 \<longleftrightarrow> \<bar>a\<bar> mod \<bar>b\<bar> = 0"
    by (cases "a = 0") (auto simp: signed_modulo_int_def signed_divide_int_def minus_mult_div_eq_mod
      algebra_simps sgn_if split: if_splits)
  then show ?thesis by (simp add: mod_eq_0_iff_dvd)
qed

lemma sdiv_exact: "b dvd a \<Longrightarrow> b \<noteq> 0 \<Longrightarrow> a sdiv b = a div (b :: int)"
proof -
  assume "b dvd a" and b: "b \<noteq> 0"
  then obtain k where a: "a = b * k" by blast
  have "a sdiv b = sgn (b * k) * sgn b * (\<bar>b * k\<bar> div \<bar>b\<bar>)"
    by (simp add: a signed_divide_int_def)
  also have "\<dots> = (sgn b * sgn b) * (sgn k * \<bar>k\<bar>)"
    using b by (simp add: abs_mult sgn_mult)
  also have "\<dots> = k"
    using b by (simp add: sgn_mult_abs sgn_if)
  finally show "a sdiv b = a div b" using a b by simp
qed

text \<open>Three-way comparison, the shape of every \<open>Cmp\<close> of the code.\<close>

definition cmp3 :: "'a::linorder \<Rightarrow> 'a \<Rightarrow> int" where
  "cmp3 a b = (if a < b then -1 else if b < a then 1 else 0)"

lemma cmp3_simps [simp]:
  "cmp3 a b < 0 \<longleftrightarrow> a < b" "0 < cmp3 a b \<longleftrightarrow> b < a" "cmp3 a b = 0 \<longleftrightarrow> a = b"
  "cmp3 a b \<le> 0 \<longleftrightarrow> a \<le> b" "0 \<le> cmp3 a b \<longleftrightarrow> b \<le> a"
  by (auto simp: cmp3_def)

lemma cmp3_swap: "cmp3 b a = - cmp3 a b"
  by (auto simp: cmp3_def)

text \<open>
  The \<open>%q\<close> verb: a double-quoted string with Go escapes.  Bytes above 127 are copied; the
  library escapes those that start no printable rune.
\<close>

definition hex_digit :: "nat \<Rightarrow> char" where
  "hex_digit n = (if n < 10 then digit_char n else char_of (87 + n))"

definition quote_char :: "char \<Rightarrow> string" where
  "quote_char c =
     (let n = (of_char c :: nat) in
      if n = 34 \<or> n = 92 then [char_of (92::nat), c]
      else if n = 7 then [char_of (92::nat), CHR ''a'']
      else if n = 8 then [char_of (92::nat), CHR ''b'']
      else if n = 12 then [char_of (92::nat), CHR ''f'']
      else if n = 10 then [char_of (92::nat), CHR ''n'']
      else if n = 13 then [char_of (92::nat), CHR ''r'']
      else if n = 9 then [char_of (92::nat), CHR ''t'']
      else if n = 11 then [char_of (92::nat), CHR ''v'']
      else if n < 32 \<or> n = 127 then [char_of (92::nat), CHR ''x'', hex_digit (n div 16), hex_digit (n mod 16)]
      else [c])"

definition go_quote :: "string \<Rightarrow> string" where
  "go_quote s = [char_of (34::nat)] @ concat (map quote_char s) @ [char_of (34::nat)]"

section \<open>Lists\<close>

text \<open>
  \<open>dup_positions\<close> lists the positions whose element occurred earlier: the shape of every
  uniqueness loop over a Go map of seen keys.
\<close>

fun dup_positions_from :: "nat \<Rightarrow> 'a set \<Rightarrow> 'a list \<Rightarrow> nat list" where
  "dup_positions_from i seen [] = []"
| "dup_positions_from i seen (x # xs) =
     (if x \<in> seen then [i] else []) @ dup_positions_from (Suc i) (insert x seen) xs"

lemma dup_positions_from_Nil_iff:
  "dup_positions_from i seen xs = [] \<longleftrightarrow> distinct xs \<and> set xs \<inter> seen = {}"
  by (induction xs arbitrary: i seen) auto

fun find_index :: "('a \<Rightarrow> bool) \<Rightarrow> 'a list \<Rightarrow> nat option" where
  "find_index P [] = None"
| "find_index P (x # xs) = (if P x then Some 0 else map_option Suc (find_index P xs))"

lemma find_index_None_iff: "find_index P xs = None \<longleftrightarrow> (\<forall>x\<in>set xs. \<not> P x)"
  by (induction xs) auto

lemma find_index_SomeD:
  "find_index P xs = Some i \<Longrightarrow> i < length xs \<and> P (xs ! i) \<and> (\<forall>j<i. \<not> P (xs ! j))"
proof (induction xs arbitrary: i)
  case Nil
  then show ?case by simp
next
  case (Cons x xs)
  show ?case
  proof (cases "P x")
    case True
    with Cons.prems show ?thesis by simp
  next
    case False
    with Cons.prems obtain k where k: "find_index P xs = Some k" "i = Suc k" by auto
    with Cons.IH [OF k(1)] False show ?thesis
      by (auto simp: nth_Cons split: nat.splits)
  qed
qed

end
