(* ===== verification/App_Errors.thy ===== *)
theory App_Errors
  imports Ledger_Prelude
begin

text \<open>
  \<open>internal/app/errors.go\<close>: the typed application error every service returns, the search for
  it in a chain of wrapped errors, and the exit code of the command line.  Error codes are the
  strings of the code.  An error is an application error, or an error of another package that
  may wrap a cause.  The free-form details of an error are not modelled.
\<close>

type_synonym error_code = string

abbreviation "CodeUsage \<equiv> ''usage''"
abbreviation "CodeInvalidData \<equiv> ''invalid_data''"
abbreviation "CodeUnsupportedSchemaVersion \<equiv> ''unsupported_schema_version''"
abbreviation "CodeNotFound \<equiv> ''not_found''"
abbreviation "CodeConflict \<equiv> ''conflict''"
abbreviation "CodeVerification \<equiv> ''verification''"
abbreviation "CodeIO \<equiv> ''io''"
abbreviation "CodeNetwork \<equiv> ''network''"
abbreviation "CodeNetworkDisabled \<equiv> ''network_disabled''"
abbreviation "CodePending \<equiv> ''pending''"
abbreviation "CodeIncomplete \<equiv> ''incomplete''"
abbreviation "CodeUnavailable \<equiv> ''unavailable''"
abbreviation "CodeInternal \<equiv> ''internal''"
abbreviation "CodeInterrupted \<equiv> ''interrupted''"

datatype go_error =
    AppError (Code: error_code) (Message: string) (Cause: "go_error option")
  | PlainError (Text: string) (Wrapped: "go_error option")

definition Error :: "go_error \<Rightarrow> string" where
  "Error e = (case e of AppError _ m _ \<Rightarrow> m | PlainError t _ \<Rightarrow> t)"

definition Unwrap :: "go_error \<Rightarrow> go_error option" where
  "Unwrap e = (case e of AppError _ _ c \<Rightarrow> c | PlainError _ w \<Rightarrow> w)"

definition validErrorCode :: "error_code \<Rightarrow> bool" where
  "validErrorCode code \<longleftrightarrow> code \<in>
     {CodeUsage, CodeInvalidData, CodeUnsupportedSchemaVersion, CodeNotFound, CodeConflict,
      CodeVerification, CodeIO, CodeNetwork, CodeNetworkDisabled, CodePending, CodeIncomplete,
      CodeUnavailable, CodeInternal, CodeInterrupted}"

definition defaultErrorMessage :: "error_code \<Rightarrow> string" where
  "defaultErrorMessage code =
     (if code = CodeUsage then ''command input is not valid''
      else if code = CodeInvalidData then ''ledger data is not valid''
      else if code = CodeUnsupportedSchemaVersion then ''ledger schema version is not supported''
      else if code = CodeNotFound then ''requested item was not found''
      else if code = CodeConflict then ''operation conflicts with existing state''
      else if code = CodeVerification then ''verification failed''
      else if code = CodeIO then ''file operation failed''
      else if code = CodeNetwork then ''network operation failed''
      else if code = CodeNetworkDisabled then ''network access is disabled''
      else if code = CodePending then ''operation is still pending''
      else if code = CodeIncomplete then ''required verification is incomplete''
      else if code = CodeUnavailable then ''operation is not available in this release''
      else if code = CodeInterrupted then ''operation was interrupted''
      else ''internal error'')"

definition NewError :: "error_code \<Rightarrow> string \<Rightarrow> go_error option \<Rightarrow> go_error" where
  "NewError code message cause =
     (let code = (if \<not> validErrorCode code then CodeInternal else code);
          message = (if message = [] then defaultErrorMessage code else message)
      in AppError code message cause)"

text \<open>\<open>errors.As\<close> with a target of type \<open>*Error\<close>: the first application error of the chain.\<close>

fun errors_As :: "go_error option \<Rightarrow> go_error option" where
  "errors_As None = None"
| "errors_As (Some (AppError c m w)) = Some (AppError c m w)"
| "errors_As (Some (PlainError t w)) = errors_As w"

definition ErrorCodeOf :: "go_error option \<Rightarrow> error_code" where
  "ErrorCodeOf err =
     (case errors_As err of
        Some (AppError c _ _) \<Rightarrow> if validErrorCode c then c else CodeInternal
      | _ \<Rightarrow> CodeInternal)"

definition ExitCodeOf :: "go_error option \<Rightarrow> int" where
  "ExitCodeOf err =
     (let code = ErrorCodeOf err in
      if code = CodeUsage then 2
      else if code = CodeInvalidData \<or> code = CodeUnsupportedSchemaVersion then 3
      else if code = CodeNotFound then 4
      else if code = CodeConflict then 5
      else if code = CodeVerification then 6
      else if code = CodeIO then 7
      else if code = CodeNetwork \<or> code = CodeNetworkDisabled then 8
      else if code = CodePending \<or> code = CodeIncomplete then 9
      else if code = CodeUnavailable then 10
      else if code = CodeInterrupted then 130
      else 1)"

lemma errors_As_AppError: "errors_As e = Some a \<Longrightarrow> \<exists>c m w. a = AppError c m w"
  by (induction e rule: errors_As.induct) auto

lemma validErrorCode_ErrorCodeOf: "validErrorCode (ErrorCodeOf e)"
  by (auto simp: ErrorCodeOf_def validErrorCode_def split: option.split go_error.split)

lemma ErrorCodeOf_NewError [simp]:
  "ErrorCodeOf (Some (NewError code m cause)) = (if validErrorCode code then code else CodeInternal)"
proof -
  have "validErrorCode CodeInternal" by (simp add: validErrorCode_def)
  then show ?thesis by (simp add: NewError_def ErrorCodeOf_def Let_def)
qed

lemma ErrorCodeOf_wrap [simp]: "ErrorCodeOf (Some (PlainError t w)) = ErrorCodeOf w"
  by (simp add: ErrorCodeOf_def)

lemma ErrorCodeOf_None [simp]: "ErrorCodeOf None = CodeInternal"
  by (simp add: ErrorCodeOf_def)

lemma NewError_message_ne: "Error (NewError code m cause) \<noteq> []"
  by (simp add: NewError_def Error_def Let_def defaultErrorMessage_def)

text \<open>
  The exit code of an error is one of the documented ones, never zero, and two errors share
  an exit code only when their codes belong to the same family (the invalid-data, network
  and pending pairs); wrapping an application error in other errors does not change it.
\<close>

theorem exit_codes_separate_error_codes:
  "ExitCodeOf e \<in> {1..10} \<union> {130} \<and>
   (ExitCodeOf e = ExitCodeOf e' \<longleftrightarrow>
      (ErrorCodeOf e = ErrorCodeOf e' \<or>
       {ErrorCodeOf e, ErrorCodeOf e'} = {CodeInvalidData, CodeUnsupportedSchemaVersion} \<or>
       {ErrorCodeOf e, ErrorCodeOf e'} = {CodeNetwork, CodeNetworkDisabled} \<or>
       {ErrorCodeOf e, ErrorCodeOf e'} = {CodePending, CodeIncomplete})) \<and>
   ExitCodeOf (Some (PlainError t e)) = ExitCodeOf e"
proof -
  have v: "validErrorCode (ErrorCodeOf e)" "validErrorCode (ErrorCodeOf e')"
    by (rule validErrorCode_ErrorCodeOf)+
  show ?thesis
    using v unfolding ExitCodeOf_def validErrorCode_def Let_def
    by (elim insertE emptyE) (simp_all add: doubleton_eq_iff)
qed

end
