(* ===== verification/Go_Regexp.thy ===== *)
theory Go_Regexp
  imports Ledger_Prelude
begin

text \<open>
  The part of Go's \<open>regexp\<close> package the code uses: anchored patterns matched against a
  whole string.  A pattern is a regular expression over byte classes; \<open>matches\<close> runs
  it by derivatives, and \<open>lang\<close> is the set of strings it denotes.
\<close>

datatype regexp =
    Eps
  | Class "(char \<times> char) list"
  | Seq regexp regexp
  | Alt regexp regexp
  | Star regexp
  | Never

abbreviation Lit :: "char \<Rightarrow> regexp" where "Lit c \<equiv> Class [(c, c)]"
abbreviation Opt :: "regexp \<Rightarrow> regexp" where "Opt r \<equiv> Alt r Eps"
abbreviation Plus :: "regexp \<Rightarrow> regexp" where "Plus r \<equiv> Seq r (Star r)"

fun Str :: "string \<Rightarrow> regexp" where
  "Str [] = Eps"
| "Str (c # cs) = Seq (Lit c) (Str cs)"

fun Rep :: "nat \<Rightarrow> regexp \<Rightarrow> regexp" where
  "Rep 0 r = Eps"
| "Rep (Suc n) r = Seq r (Rep n r)"

definition in_class :: "(char \<times> char) list \<Rightarrow> char \<Rightarrow> bool" where
  "in_class rs c \<longleftrightarrow> (\<exists>(lo, hi) \<in> set rs. lo \<le> c \<and> c \<le> hi)"

fun nullable :: "regexp \<Rightarrow> bool" where
  "nullable Eps = True"
| "nullable (Class _) = False"
| "nullable (Seq r s) = (nullable r \<and> nullable s)"
| "nullable (Alt r s) = (nullable r \<or> nullable s)"
| "nullable (Star r) = True"
| "nullable Never = False"

fun deriv :: "char \<Rightarrow> regexp \<Rightarrow> regexp" where
  "deriv c Eps = Never"
| "deriv c (Class rs) = (if in_class rs c then Eps else Never)"
| "deriv c (Seq r s) = (if nullable r then Alt (Seq (deriv c r) s) (deriv c s) else Seq (deriv c r) s)"
| "deriv c (Alt r s) = Alt (deriv c r) (deriv c s)"
| "deriv c (Star r) = Seq (deriv c r) (Star r)"
| "deriv c Never = Never"

definition matches :: "regexp \<Rightarrow> string \<Rightarrow> bool" where
  "matches r s = nullable (foldl (\<lambda>q c. deriv c q) r s)"

section \<open>Denotation\<close>

fun lang :: "regexp \<Rightarrow> string set" where
  "lang Eps = {[]}"
| "lang (Class rs) = {[c] | c. in_class rs c}"
| "lang (Seq r s) = {x @ y | x y. x \<in> lang r \<and> y \<in> lang s}"
| "lang (Alt r s) = lang r \<union> lang s"
| "lang (Star r) = {concat ws | ws. set ws \<subseteq> lang r}"
| "lang Never = {}"

lemma nullable_lang: "nullable r \<longleftrightarrow> [] \<in> lang r"
  by (induction r) (auto intro: exI [of _ "[]"])

lemma Star_ConsE:
  assumes "set ws \<subseteq> L" and "concat ws = c # s"
  obtains w vs where "c # w \<in> L" "set vs \<subseteq> L" "s = w @ concat vs"
  using assms
proof (induction ws)
  case Nil
  then show ?case by simp
next
  case (Cons v ws)
  show ?case
  proof (cases v)
    case Nil
    with Cons show ?thesis by simp
  next
    case (Cons a w)
    with Cons.prems show ?thesis by auto
  qed
qed

lemma lang_deriv: "s \<in> lang (deriv c r) \<longleftrightarrow> c # s \<in> lang r"
proof (induction r arbitrary: s)
  case (Seq q r)
  have split: "c # s \<in> lang (Seq q r) \<longleftrightarrow>
      (\<exists>x y. s = x @ y \<and> c # x \<in> lang q \<and> y \<in> lang r) \<or> ([] \<in> lang q \<and> c # s \<in> lang r)"
    by (auto simp: Cons_eq_append_conv)
  with Seq show ?case by (auto simp: nullable_lang)
next
  case (Star r)
  show ?case
  proof
    assume "s \<in> lang (deriv c (Star r))"
    then obtain x ws where "s = x @ concat ws" "c # x \<in> lang r" "set ws \<subseteq> lang r"
      using Star by auto
    then have "c # s = concat ((c # x) # ws)" "set ((c # x) # ws) \<subseteq> lang r" by auto
    then show "c # s \<in> lang (Star r)" unfolding lang.simps by blast
  next
    assume "c # s \<in> lang (Star r)"
    then obtain ws where ws: "set ws \<subseteq> lang r" "concat ws = c # s" by auto
    from Star_ConsE [OF this] obtain w vs
      where "c # w \<in> lang r" "set vs \<subseteq> lang r" "s = w @ concat vs" by blast
    with Star show "s \<in> lang (deriv c (Star r))" by auto
  qed
qed auto

theorem matches_lang: "matches r s \<longleftrightarrow> s \<in> lang r"
proof -
  have "nullable (foldl (\<lambda>q c. deriv c q) r s) \<longleftrightarrow> s \<in> lang r"
    by (induction s arbitrary: r) (auto simp: nullable_lang lang_deriv)
  then show ?thesis by (simp add: matches_def)
qed

text \<open>The shapes the patterns of the code are made of.\<close>

lemma concat_singletons: "set ws \<subseteq> {[c] | c. P c} \<Longrightarrow> list_all P (concat ws)"
  by (induction ws) auto

lemma lang_Star_Class: "lang (Star (Class rs)) = {s. list_all (in_class rs) s}"
proof (intro set_eqI iffI)
  fix s
  assume "s \<in> lang (Star (Class rs))"
  then obtain ws where s: "s = concat ws" and ws: "set ws \<subseteq> {[c] | c. in_class rs c}"
    unfolding lang.simps by blast
  from concat_singletons [OF ws] s show "s \<in> {s. list_all (in_class rs) s}" by simp
next
  fix s
  assume "s \<in> {s. list_all (in_class rs) s}"
  then have "set (map (\<lambda>c. [c]) s) \<subseteq> lang (Class rs)"
    by (auto simp: list_all_iff)
  moreover have "s = concat (map (\<lambda>c. [c]) s)" by (induction s) auto
  ultimately show "s \<in> lang (Star (Class rs))" unfolding lang.simps by blast
qed

lemma in_class_single: "in_class [(c, c)] = (\<lambda>d. d = c)"
  by (rule ext) (auto simp: in_class_def)

lemma lang_Str [simp]: "lang (Str w) = {w}"
  by (induction w) (simp_all add: in_class_single)

lemma lang_Seq_Class:
  "s \<in> lang (Seq (Class rs) r) \<longleftrightarrow> (case s of [] \<Rightarrow> False | c # t \<Rightarrow> in_class rs c \<and> t \<in> lang r)"
proof (cases s)
  case Nil
  then show ?thesis by auto
next
  case (Cons c t)
  have "s \<in> lang (Seq (Class rs) r) \<longleftrightarrow> t \<in> lang (deriv c (Seq (Class rs) r))"
    by (simp only: lang_deriv Cons)
  then show ?thesis by (simp add: Cons)
qed

lemma lang_Rep_Class: "lang (Rep n (Class rs)) = {s. length s = n \<and> list_all (in_class rs) s}"
proof (induction n)
  case 0
  show ?case by auto
next
  case (Suc n)
  have "s \<in> lang (Rep (Suc n) (Class rs)) \<longleftrightarrow> length s = Suc n \<and> list_all (in_class rs) s" for s
    unfolding Rep.simps lang_Seq_Class Suc by (auto split: list.split)
  then show ?case by blast
qed

lemma in_class_digit: "in_class [(CHR ''0'', CHR ''9'')] = is_digit"
  by (auto simp: in_class_def is_digit_def)

lemma in_class_digit19: "in_class [(CHR ''1'', CHR ''9'')] = is_digit19"
  by (auto simp: in_class_def is_digit19_def)

lemmas regexp_shapes =
  matches_lang lang_Star_Class lang_Rep_Class in_class_digit in_class_digit19 in_class_single

end
