(* ===== verification/Exact_Decimal.thy ===== *)
theory Exact_Decimal
  imports Complex_Main Go_Regexp
begin

text \<open>
  \<open>internal/exact/decimal.go\<close>: exact decimal arithmetic.  A decimal is an integer
  coefficient and a number of fractional digits; \<open>dec_val\<close> is the rational it denotes.
  The lemmas show that every operation is exact on those rationals, that results are in
  lowest form, and that parsing and printing are inverse to each other.
\<close>

section \<open>Definitions\<close>

definition MaxDecimalLength :: nat where "MaxDecimalLength = 128"

record decimal =
  coefficient :: int
  scale :: nat

abbreviation D09 :: regexp where "D09 \<equiv> Class [(CHR ''0'', CHR ''9'')]"
abbreviation D19 :: regexp where "D19 \<equiv> Class [(CHR ''1'', CHR ''9'')]"

definition canonicalDecimalPattern :: regexp where
  "canonicalDecimalPattern =
     Alt (Lit CHR ''0'')
    (Alt (Seq (Opt (Lit CHR ''-'')) (Seq D19 (Star D09)))
         (Seq (Opt (Lit CHR ''-''))
           (Seq (Alt (Lit CHR ''0'') (Seq D19 (Star D09)))
             (Seq (Lit CHR ''.'') (Seq (Star D09) D19)))))"

text \<open>The loop of \<open>newDecimal\<close> that drops trailing zeros of the fraction.\<close>

fun drop_zeros :: "int \<Rightarrow> nat \<Rightarrow> int \<times> nat" where
  "drop_zeros v 0 = (v, 0)"
| "drop_zeros v (Suc n) = (if v smod 10 \<noteq> 0 then (v, Suc n) else drop_zeros (v sdiv 10) n)"

definition newDecimal :: "int \<Rightarrow> nat \<Rightarrow> decimal" where
  "newDecimal c s =
     (if c = 0 then \<lparr>coefficient = 0, scale = 0\<rparr>
      else case drop_zeros c s of (v, n) \<Rightarrow> \<lparr>coefficient = v, scale = n\<rparr>)"

text \<open>\<open>big.Int.SetString(digits, 10)\<close> on an unsigned numeral.\<close>

definition big_SetString :: "string \<Rightarrow> int option" where
  "big_SetString digits =
     (if digits \<noteq> [] \<and> list_all is_digit digits then Some (int (digits_value digits)) else None)"

definition split_point :: "string \<Rightarrow> string \<times> string option" where
  "split_point s =
     (takeWhile (\<lambda>c. c \<noteq> CHR ''.'') s,
      case dropWhile (\<lambda>c. c \<noteq> CHR ''.'') s of [] \<Rightarrow> None | _ # t \<Rightarrow> Some t)"

definition ParseDecimal :: "string \<Rightarrow> string + decimal" where
  "ParseDecimal value =
     (if length value = 0 \<or> length value > MaxDecimalLength \<or> \<not> matches canonicalDecimalPattern value
      then Inl (go_quote value @ '' is not a canonical decimal string'')
      else
        let negative = (case value of [] \<Rightarrow> False | c # _ \<Rightarrow> c = CHR ''-'');
            unsigned = (if negative then tl value else value);
            (whole, fraction) = split_point unsigned;
            digits = whole @ (case fraction of None \<Rightarrow> [] | Some f \<Rightarrow> f);
            s = (case fraction of None \<Rightarrow> 0 | Some f \<Rightarrow> length f)
        in case big_SetString digits of
             None \<Rightarrow> Inl (''parse decimal '' @ go_quote value)
           | Some c \<Rightarrow> Inr (newDecimal (if negative then - c else c) s))"

definition Zero :: decimal where "Zero = newDecimal 0 0"
definition One :: decimal where "One = newDecimal 1 0"

definition scaleCoefficient :: "decimal \<Rightarrow> nat \<Rightarrow> int" where
  "scaleCoefficient d s =
     (if s > scale d then coefficient d * 10 ^ (s - scale d) else coefficient d)"

definition aligned :: "decimal \<Rightarrow> decimal \<Rightarrow> int \<times> int" where
  "aligned l r =
     (let s = max (scale l) (scale r) in (scaleCoefficient l s, scaleCoefficient r s))"

definition Cmp :: "decimal \<Rightarrow> decimal \<Rightarrow> int" where
  "Cmp d other = (case aligned d other of (l, r) \<Rightarrow> cmp3 l r)"

definition Add :: "decimal \<Rightarrow> decimal \<Rightarrow> decimal" where
  "Add d other = (case aligned d other of (l, r) \<Rightarrow> newDecimal (l + r) (max (scale d) (scale other)))"

definition Sub :: "decimal \<Rightarrow> decimal \<Rightarrow> decimal" where
  "Sub d other = (case aligned d other of (l, r) \<Rightarrow> newDecimal (l - r) (max (scale d) (scale other)))"

definition Sum :: "decimal list \<Rightarrow> decimal" where
  "Sum values = foldl Add Zero values"

definition Sign :: "decimal \<Rightarrow> int" where
  "Sign d = sgn (coefficient d)"

definition FractionalDigits :: "decimal \<Rightarrow> nat" where
  "FractionalDigits d = scale d"

definition dec_String :: "decimal \<Rightarrow> string" where
  "dec_String d =
     (let negative = coefficient d < 0;
          ds = nat_string (nat \<bar>coefficient d\<bar>);
          digits =
            (if scale d > 0 then
               let padded = (if length ds \<le> scale d
                             then replicate (scale d - length ds + 1) CHR ''0'' @ ds else ds);
                   position = length padded - scale d
               in take position padded @ CHR ''.'' # drop position padded
             else ds)
      in if negative then CHR ''-'' # digits else digits)"

definition ParseProbability :: "string \<Rightarrow> string + decimal" where
  "ParseProbability value = bindR (ParseDecimal value) (\<lambda>d.
     if scale d > 18 then Inl ''probability has more than 18 fractional digits''
     else if Cmp d Zero < 0 \<or> Cmp d One > 0 then Inl ''probability must be in [0,1]''
     else Inr d)"

definition ParseOpenProbability :: "string \<Rightarrow> string + decimal" where
  "ParseOpenProbability value = bindR (ParseProbability value) (\<lambda>d.
     if Cmp d Zero \<le> 0 \<or> Cmp d One \<ge> 0 then Inl ''probability must be strictly between 0 and 1''
     else Inr d)"

definition InRange :: "decimal \<Rightarrow> decimal option \<Rightarrow> bool \<Rightarrow> decimal option \<Rightarrow> bool \<Rightarrow> bool" where
  "InRange value lower lowerInclusive upper upperInclusive =
     ((case lower of None \<Rightarrow> True
       | Some l \<Rightarrow> (let c = Cmp value l in \<not> (c < 0 \<or> (c = 0 \<and> \<not> lowerInclusive)))) \<and>
      (case upper of None \<Rightarrow> True
       | Some u \<Rightarrow> (let c = Cmp value u in \<not> (c > 0 \<or> (c = 0 \<and> \<not> upperInclusive)))))"

definition Aligns :: "decimal \<Rightarrow> decimal \<Rightarrow> decimal \<Rightarrow> bool" where
  "Aligns value origin step =
     (if Sign step \<le> 0 then False
      else case aligned (Sub value origin) step of (l, r) \<Rightarrow> l smod r = 0)"


section \<open>Exactness\<close>

definition dec_val :: "decimal \<Rightarrow> rat" where
  "dec_val d = of_int (coefficient d) / 10 ^ scale d"

text \<open>Lowest form: zero has scale zero, and a fraction does not end in zero.\<close>

definition normal :: "decimal \<Rightarrow> bool" where
  "normal d \<longleftrightarrow> (coefficient d = 0 \<longrightarrow> scale d = 0) \<and> (0 < scale d \<longrightarrow> \<not> 10 dvd coefficient d)"

lemma drop_zeros_val:
  "drop_zeros v n = (w, m) \<Longrightarrow> (of_int w / 10 ^ m :: rat) = of_int v / 10 ^ n \<and> m \<le> n \<and> (v \<noteq> 0 \<longrightarrow> w \<noteq> 0)
    \<and> (0 < m \<longrightarrow> \<not> 10 dvd w)"
proof (induction v n arbitrary: w m rule: drop_zeros.induct)
  case (1 v)
  then show ?case by simp
next
  case (2 v n)
  show ?case
  proof (cases "v smod 10 = 0")
    case True
    then obtain k where v: "v = 10 * k" by (auto simp: smod_eq_0_iff)
    with True 2 have "(of_int w / 10 ^ m :: rat) = of_int k / 10 ^ n \<and> m \<le> n \<and> (k \<noteq> 0 \<longrightarrow> w \<noteq> 0)
        \<and> (0 < m \<longrightarrow> \<not> 10 dvd w)"
      by (simp add: sdiv_exact)
    with v show ?thesis by auto
  next
    case False
    with "2.prems" show ?thesis by (auto simp: smod_eq_0_iff)
  qed
qed

lemma newDecimal_val [simp]: "dec_val (newDecimal c s) = of_int c / 10 ^ s"
  using drop_zeros_val [of c s]
  by (auto simp: newDecimal_def dec_val_def split: prod.split)

lemma newDecimal_normal [simp]: "normal (newDecimal c s)"
  using drop_zeros_val [of c s]
  by (auto simp: newDecimal_def normal_def split: prod.split)

lemma newDecimal_id: "normal d \<Longrightarrow> newDecimal (coefficient d) (scale d) = d"
  by (cases "scale d") (auto simp: newDecimal_def normal_def smod_eq_0_iff)

lemma Zero_val [simp]: "dec_val Zero = 0"
  by (simp add: Zero_def)

lemma One_val [simp]: "dec_val One = 1"
  by (simp add: One_def)

lemma normal_Zero [simp]: "normal Zero" and normal_One [simp]: "normal One"
  by (simp_all add: Zero_def One_def)

lemma scaleCoefficient_val: "scale d \<le> s \<Longrightarrow> (of_int (scaleCoefficient d s) :: rat) = dec_val d * 10 ^ s"
  by (auto simp: scaleCoefficient_def dec_val_def power_add [symmetric] field_simps)

lemma aligned_val:
  assumes "aligned a b = (l, r)"
  shows "(of_int l :: rat) = dec_val a * 10 ^ max (scale a) (scale b)"
    and "(of_int r :: rat) = dec_val b * 10 ^ max (scale a) (scale b)"
  using assms by (auto simp: aligned_def Let_def scaleCoefficient_val)

lemma Add_val: "dec_val (Add a b) = dec_val a + dec_val b"
  by (auto simp: Add_def aligned_val add_divide_distrib split: prod.split)

lemma Sub_val: "dec_val (Sub a b) = dec_val a - dec_val b"
  by (auto simp: Sub_def aligned_val diff_divide_distrib split: prod.split)

lemma Add_normal [simp]: "normal (Add a b)" and Sub_normal [simp]: "normal (Sub a b)"
  by (auto simp: Add_def Sub_def split: prod.split)

lemma foldl_Add_val: "dec_val (foldl Add d ds) = dec_val d + (\<Sum>x\<leftarrow>ds. dec_val x)"
  by (induction ds arbitrary: d) (simp_all add: Add_val add.assoc)

lemma Sum_val: "dec_val (Sum ds) = (\<Sum>x\<leftarrow>ds. dec_val x)"
  by (simp add: Sum_def foldl_Add_val)

lemma Cmp_val: "Cmp a b = cmp3 (dec_val a) (dec_val b)"
proof -
  obtain l r where lr: "aligned a b = (l, r)" by fastforce
  have pos: "(0 :: rat) < 10 ^ max (scale a) (scale b)" by simp
  have "l < r \<longleftrightarrow> dec_val a < dec_val b"
    using aligned_val [OF lr] mult_less_cancel_right_pos [OF pos, of "dec_val a" "dec_val b"]
    by (metis of_int_less_iff)
  moreover have "r < l \<longleftrightarrow> dec_val b < dec_val a"
    using aligned_val [OF lr] mult_less_cancel_right_pos [OF pos, of "dec_val b" "dec_val a"]
    by (metis of_int_less_iff)
  ultimately show ?thesis by (simp add: Cmp_def lr cmp3_def)
qed

lemma Sign_val: "of_int (Sign d) = sgn (dec_val d)"
  by (simp add: Sign_def dec_val_def sgn_if zero_less_divide_iff)

lemma Sign_pos_iff: "Sign d \<le> 0 \<longleftrightarrow> dec_val d \<le> 0"
proof -
  have "\<not> (10 :: rat) ^ scale d \<le> 0" by (simp add: not_le)
  then show ?thesis by (simp add: Sign_def dec_val_def sgn_if divide_le_0_iff not_less)
qed

lemma InRange_val:
  "InRange v lo li hi ui \<longleftrightarrow>
     (\<forall>l. lo = Some l \<longrightarrow> dec_val l < dec_val v \<or> (li \<and> dec_val l = dec_val v)) \<and>
     (\<forall>u. hi = Some u \<longrightarrow> dec_val v < dec_val u \<or> (ui \<and> dec_val v = dec_val u))"
  by (auto simp: InRange_def Cmp_val Let_def split: option.split)

text \<open>Alignment: the value is a whole number of steps away from the origin.\<close>

lemma Aligns_val:
  "Aligns v o' s \<longleftrightarrow> 0 < dec_val s \<and> (\<exists>k::int. dec_val v = dec_val o' + of_int k * dec_val s)"
proof (cases "Sign s \<le> 0")
  case True
  then show ?thesis by (simp add: Aligns_def Sign_pos_iff)
next
  case False
  then have pos: "0 < dec_val s" by (simp add: Sign_pos_iff)
  obtain l r where lr: "aligned (Sub v o') s = (l, r)" by fastforce
  let ?m = "10 ^ max (scale (Sub v o')) (scale s) :: rat"
  have "Aligns v o' s \<longleftrightarrow> r dvd l"
    using False by (simp add: Aligns_def lr smod_eq_0_iff)
  also have "\<dots> \<longleftrightarrow> (\<exists>k. l = k * r)" by (auto simp: dvd_def mult.commute)
  also have "\<dots> \<longleftrightarrow> (\<exists>k::int. (of_int l :: rat) = of_int k * of_int r)"
    by (metis of_int_eq_iff of_int_mult)
  also have "\<dots> \<longleftrightarrow> (\<exists>k::int. dec_val v - dec_val o' = of_int k * dec_val s)"
    by (simp add: aligned_val [OF lr] Sub_val)
  also have "\<dots> \<longleftrightarrow> (\<exists>k::int. dec_val v = dec_val o' + of_int k * dec_val s)"
    by (simp add: algebra_simps)
  finally show ?thesis using pos by simp
qed

text \<open>A number has one lowest form.\<close>

lemma normal_inj:
  assumes "normal a" "normal b" "dec_val a = dec_val b"
  shows "a = b"
proof -
  have eq: "coefficient a * 10 ^ scale b = coefficient b * 10 ^ scale a"
  proof -
    have "(of_int (coefficient a * 10 ^ scale b) :: rat) = of_int (coefficient b * 10 ^ scale a)"
      using assms(3) by (simp add: dec_val_def field_simps)
    then show ?thesis by (simp only: of_int_eq_iff)
  qed
  have "\<not> scale a < scale b"
  proof
    assume less: "scale a < scale b"
    then obtain k where k: "scale b = scale a + Suc k" using less_imp_Suc_add by force
    with eq have "coefficient b = coefficient a * 10 * 10 ^ k" by (simp add: power_add)
    then have "10 dvd coefficient b" by simp
    with less assms(2) show False by (simp add: normal_def)
  qed
  moreover have "\<not> scale b < scale a"
  proof
    assume less: "scale b < scale a"
    then obtain k where k: "scale a = scale b + Suc k" using less_imp_Suc_add by force
    with eq have "coefficient a = coefficient b * 10 * 10 ^ k" by (simp add: power_add)
    then have "10 dvd coefficient a" by simp
    with less assms(1) show False by (simp add: normal_def)
  qed
  ultimately have "scale a = scale b" by simp
  with eq show ?thesis by simp
qed

section \<open>Parsing and printing\<close>

definition whole_part :: "string \<Rightarrow> bool" where
  "whole_part w \<longleftrightarrow> w = ''0'' \<or> (w \<noteq> [] \<and> is_digit19 (hd w) \<and> list_all is_digit (tl w))"

definition fraction_part :: "string \<Rightarrow> bool" where
  "fraction_part f \<longleftrightarrow> f = [] \<or> (list_all is_digit (butlast f) \<and> is_digit19 (last f))"

definition spelled :: "bool \<Rightarrow> string \<Rightarrow> string \<Rightarrow> string" where
  "spelled neg w f = (if neg then ''-'' else []) @ w @ (if f = [] then [] else CHR ''.'' # f)"

lemma lang_D19_digits: "lang (Seq D19 (Star D09)) = {w. w \<noteq> [] \<and> is_digit19 (hd w) \<and> list_all is_digit (tl w)}"
proof (rule set_eqI)
  fix w
  show "w \<in> lang (Seq D19 (Star D09)) \<longleftrightarrow> w \<in> {w. w \<noteq> [] \<and> is_digit19 (hd w) \<and> list_all is_digit (tl w)}"
    by (cases w) (simp_all add: lang_Seq_Class lang_Star_Class in_class_digit in_class_digit19 del: lang.simps)
qed

lemma lang_digits_D19:
  "lang (Seq (Star D09) D19) = {f. f \<noteq> [] \<and> list_all is_digit (butlast f) \<and> is_digit19 (last f)}"
proof (rule set_eqI)
  fix f
  have "f \<in> lang (Seq (Star D09) D19) \<longleftrightarrow> (\<exists>x c. f = x @ [c] \<and> list_all is_digit x \<and> is_digit19 c)"
    unfolding lang.simps(3) lang_Star_Class by (auto simp: in_class_digit in_class_digit19)
  then show "f \<in> lang (Seq (Star D09) D19) \<longleftrightarrow>
      f \<in> {f. f \<noteq> [] \<and> list_all is_digit (butlast f) \<and> is_digit19 (last f)}"
    by (cases f rule: rev_cases) auto
qed

lemma lang_sign: "s \<in> lang (Seq (Opt (Lit CHR ''-'')) r) \<longleftrightarrow> (\<exists>neg w. s = (if neg then ''-'' else []) @ w \<and> w \<in> lang r)"
proof -
  have "s \<in> lang (Seq (Opt (Lit CHR ''-'')) r) \<longleftrightarrow>
      (\<exists>w. s = ''-'' @ w \<and> w \<in> lang r) \<or> (\<exists>w. s = [] @ w \<and> w \<in> lang r)"
    by (simp add: in_class_single) (metis append_Cons append_Nil)
  then show ?thesis by (simp only: ex_bool_eq if_True if_False)
qed

lemma lang_point: "s \<in> lang (Seq q (Seq (Lit CHR ''.'') r)) \<longleftrightarrow> (\<exists>w f. s = w @ CHR ''.'' # f \<and> w \<in> lang q \<and> f \<in> lang r)"
  by (auto simp: in_class_single)

lemma lang_whole: "w \<in> lang (Alt (Lit CHR ''0'') (Seq D19 (Star D09))) \<longleftrightarrow> whole_part w"
  by (simp only: lang.simps(4) Un_iff lang_D19_digits) (auto simp: whole_part_def in_class_single)

lemma canonicalDecimalPattern_iff:
  "matches canonicalDecimalPattern s \<longleftrightarrow>
     (\<exists>neg w f. s = spelled neg w f \<and> whole_part w \<and> fraction_part f \<and> \<not> (neg \<and> w = ''0'' \<and> f = []))"
    (is "?m \<longleftrightarrow> ?s")
proof -
  have m: "?m \<longleftrightarrow> s = ''0''
      \<or> (\<exists>neg w. s = (if neg then ''-'' else []) @ w \<and> w \<noteq> [] \<and> is_digit19 (hd w) \<and> list_all is_digit (tl w))
      \<or> (\<exists>neg w f. s = (if neg then ''-'' else []) @ w @ CHR ''.'' # f \<and> whole_part w
           \<and> f \<noteq> [] \<and> list_all is_digit (butlast f) \<and> is_digit19 (last f))"
    unfolding canonicalDecimalPattern_def matches_lang lang.simps(4) Un_iff lang_sign lang_point
      lang_D19_digits lang_digits_D19 lang_whole [unfolded lang.simps(4) Un_iff lang_D19_digits]
    by (auto simp: in_class_single)
  show ?thesis
  proof
    assume ?m
    then consider "s = ''0''"
      | neg w where "s = (if neg then ''-'' else []) @ w" "w \<noteq> []" "is_digit19 (hd w)" "list_all is_digit (tl w)"
      | neg w f where "s = (if neg then ''-'' else []) @ w @ CHR ''.'' # f" "whole_part w"
          "f \<noteq> []" "list_all is_digit (butlast f)" "is_digit19 (last f)"
      unfolding m by blast
    then show ?s
    proof cases
      case 1
      then have "s = spelled False ''0'' []" by (simp add: spelled_def)
      then show ?thesis by (force simp: whole_part_def fraction_part_def)
    next
      case 2
      then have "s = spelled neg w []" "whole_part w" "w \<noteq> ''0''"
        by (auto simp: spelled_def whole_part_def is_digit19_iff)
      then show ?thesis by (force simp: fraction_part_def)
    next
      case 3
      then have "s = spelled neg w f" "fraction_part f" by (auto simp: spelled_def fraction_part_def)
      with 3 show ?thesis by blast
    qed
  next
    assume ?s
    then obtain neg w f where s: "s = spelled neg w f" "whole_part w" "fraction_part f" "\<not> (neg \<and> w = ''0'' \<and> f = [])"
      by blast
    show ?m
    proof (cases "f = []")
      case True
      with s show ?thesis unfolding m by (auto simp: spelled_def whole_part_def)
    next
      case False
      with s have "s = (if neg then ''-'' else []) @ w @ CHR ''.'' # f" "list_all is_digit (butlast f)" "is_digit19 (last f)"
        by (auto simp: spelled_def fraction_part_def)
      with False s(2) show ?thesis unfolding m by blast
    qed
  qed
qed

lemma whole_part_digits: "whole_part w \<Longrightarrow> w \<noteq> [] \<and> list_all is_digit w"
  by (cases w) (auto simp: whole_part_def is_digit19_iff is_digit_iff)

lemma fraction_part_digits: "fraction_part f \<Longrightarrow> list_all is_digit f"
  by (cases f rule: rev_cases) (auto simp: fraction_part_def is_digit19_iff)

lemma digit_not_sign: "is_digit c \<Longrightarrow> c \<noteq> CHR ''-'' \<and> c \<noteq> CHR ''.''"
  by (auto simp: is_digit_def less_eq_char_def)

lemma split_point_spelled:
  assumes "list_all is_digit w"
  shows "split_point (w @ (if f = [] then [] else CHR ''.'' # f)) = (w, if f = [] then None else Some f)"
proof -
  have "\<forall>c\<in>set w. c \<noteq> CHR ''.''" using assms by (auto simp: list_all_iff dest: digit_not_sign)
  then show ?thesis by (simp add: split_point_def)
qed

lemma ParseDecimal_spelled:
  assumes w: "whole_part w" and f: "fraction_part f" and z: "\<not> (neg \<and> w = ''0'' \<and> f = [])"
    and len: "length (spelled neg w f) \<le> MaxDecimalLength"
  shows "ParseDecimal (spelled neg w f) =
    Inr (newDecimal ((if neg then - 1 else 1) * int (digits_value (w @ f))) (length f))"
proof -
  note wd = whole_part_digits [OF w] and fd = fraction_part_digits [OF f]
  have m: "matches canonicalDecimalPattern (spelled neg w f)"
    unfolding canonicalDecimalPattern_iff using w f z by blast
  obtain c w' where cw: "w = c # w'" using wd by (cases w) auto
  have neg: "(case spelled neg w f of [] \<Rightarrow> False | c # _ \<Rightarrow> c = CHR ''-'') = neg"
    using wd by (auto simp: spelled_def cw dest: digit_not_sign)
  have uns: "(if neg then tl (spelled neg w f) else spelled neg w f) = w @ (if f = [] then [] else CHR ''.'' # f)"
    by (simp add: spelled_def)
  have ne: "length (spelled neg w f) \<noteq> 0" by (simp add: spelled_def cw)
  show ?thesis
    unfolding ParseDecimal_def Let_def neg uns
    using m ne len wd fd by (auto simp: split_point_spelled big_SetString_def)
qed

lemma ParseDecimal_InrE:
  assumes "ParseDecimal s = Inr d"
  obtains neg w f where "s = spelled neg w f" "whole_part w" "fraction_part f" "\<not> (neg \<and> w = ''0'' \<and> f = [])"
    "length s \<le> MaxDecimalLength"
    "d = newDecimal ((if neg then - 1 else 1) * int (digits_value (w @ f))) (length f)"
proof -
  from assms have "matches canonicalDecimalPattern s" and len: "length s \<le> MaxDecimalLength"
    by (auto simp: ParseDecimal_def split: if_splits)
  then obtain neg w f where *: "s = spelled neg w f" "whole_part w" "fraction_part f" "\<not> (neg \<and> w = ''0'' \<and> f = [])"
    unfolding canonicalDecimalPattern_iff by blast
  with ParseDecimal_spelled [OF *(2-4)] assms len that show ?thesis by simp
qed

text \<open>The coefficient read from a canonical spelling is already in lowest form.\<close>

lemma spelled_normal:
  assumes "whole_part w" "fraction_part f"
  shows "normal \<lparr>coefficient = (if neg then - 1 else 1) * int (digits_value (w @ f)), scale = length f\<rparr>"
proof (cases f rule: rev_cases)
  case Nil
  then show ?thesis by (simp add: normal_def)
next
  case (snoc g c)
  then have c: "is_digit19 c" using assms by (simp add: fraction_part_def)
  have v: "digits_value (w @ f) = 10 * digits_value (w @ g) + digit_val c"
    using digits_value_snoc [of "w @ g" c] snoc by simp
  have "0 < digit_val c" "digit_val c < 10"
    using c by (auto simp: digit_val_pos digit_val_less digit19_digit)
  then have "\<not> 10 dvd digits_value (w @ f)" "digits_value (w @ f) \<noteq> 0" unfolding v by presburger+
  then have "\<not> (10 :: int) dvd int (digits_value (w @ f))"
    by (metis int_dvd_int_iff of_nat_numeral)
  with \<open>digits_value (w @ f) \<noteq> 0\<close> show ?thesis
    by (auto simp: normal_def)
qed

lemma ParseDecimal_normal: "ParseDecimal s = Inr d \<Longrightarrow> normal d"
  by (elim ParseDecimal_InrE) simp

lemma nat_string_whole:
  assumes "whole_part w"
  shows "nat_string (digits_value w) = w"
proof (cases "w = ''0''")
  case True
  then show ?thesis by (subst nat_string.simps) (simp add: digits_value_Cons digit_val_def)
next
  case False
  with assms whole_part_digits [OF assms] show ?thesis
    by (intro nat_string_digits_value) (auto simp: whole_part_def)
qed

text \<open>The digits of a spelling, as \<open>String\<close> rebuilds them from the coefficient.\<close>

lemma strip_leading_zeros:
  assumes "list_all is_digit s"
  obtains k t where "s = replicate k CHR ''0'' @ t" "t = [] \<or> is_digit19 (hd t)"
proof -
  have "\<exists>k t. s = replicate k CHR ''0'' @ t \<and> (t = [] \<or> is_digit19 (hd t))"
    using assms
  proof (induction s)
    case Nil
    show ?case by (intro exI [of _ 0]) simp
  next
    case (Cons c s)
    show ?case
    proof (cases "c = CHR ''0''")
      case True
      from Cons obtain k t where "s = replicate k CHR ''0'' @ t \<and> (t = [] \<or> is_digit19 (hd t))" by auto
      with True show ?thesis by (intro exI [of _ "Suc k"] exI [of _ t]) simp
    next
      case False
      with Cons.prems show ?thesis
        by (intro exI [of _ 0] exI [of _ "c # s"]) (simp add: is_digit19_iff)
    qed
  qed
  with that show thesis by blast
qed

lemma digits_value_leading_zeros [simp]: "digits_value (replicate k CHR ''0'' @ t) = digits_value t"
  by (simp add: digits_value_append)

lemma pad_digits:
  assumes w: "whole_part w" and f: "fraction_part f" and ne: "f \<noteq> []"
  defines "ds \<equiv> nat_string (digits_value (w @ f))"
  shows "(if length ds \<le> length f then replicate (length f - length ds + 1) CHR ''0'' @ ds else ds) = w @ f"
proof (cases "w = ''0''")
  case False
  with w have "is_digit19 (hd (w @ f))" "w @ f \<noteq> []" by (auto simp: whole_part_def)
  moreover have "list_all is_digit (w @ f)"
    using whole_part_digits [OF w] fraction_part_digits [OF f] by simp
  ultimately have "ds = w @ f" unfolding ds_def by (intro nat_string_digits_value) auto
  with whole_part_digits [OF w] show ?thesis by (auto simp: Suc_le_eq)
next
  case True
  obtain k t where kt: "f = replicate k CHR ''0'' @ t" "t = [] \<or> is_digit19 (hd t)"
    using strip_leading_zeros [OF fraction_part_digits [OF f]] by blast
  have t: "t \<noteq> []"
  proof
    assume "t = []"
    with kt ne have "last f = CHR ''0''" by (auto simp: last_replicate)
    with f ne show False by (auto simp: fraction_part_def is_digit19_iff)
  qed
  have td: "list_all is_digit t" using fraction_part_digits [OF f] kt by (simp add: list_all_iff)
  have "w @ f = replicate (Suc k) CHR ''0'' @ t" using True kt by simp
  then have "digits_value (w @ f) = digits_value t" by (simp only: digits_value_leading_zeros)
  with t td kt have "ds = t" unfolding ds_def by (simp add: nat_string_digits_value)
  with kt True show ?thesis by (simp add: replicate_append_same)
qed

lemma dec_String_spelled:
  assumes w: "whole_part w" and f: "fraction_part f" and z: "\<not> (neg \<and> w = ''0'' \<and> f = [])"
  shows "dec_String \<lparr>coefficient = (if neg then - 1 else 1) * int (digits_value (w @ f)), scale = length f\<rparr>
    = spelled neg w f" (is "dec_String ?d = _")
proof -
  have "digits_value (w @ f) \<noteq> 0" if neg
  proof
    assume 0: "digits_value (w @ f) = 0"
    show False
    proof (cases "f = []")
      case True
      with 0 nat_string_whole [OF w] have "w = nat_string 0" by simp
      then have "w = ''0''" by (subst (asm) nat_string.simps) simp
      with z that True show False by simp
    next
      case False
      then have "0 < digits_value f"
        using f by (cases f rule: rev_cases) (auto simp: fraction_part_def digit_val_pos)
      with 0 show False by (simp add: digits_value_append)
    qed
  qed
  then have neg: "coefficient ?d < 0 \<longleftrightarrow> neg" by auto
  have abs: "nat \<bar>coefficient ?d\<bar> = digits_value (w @ f)" by auto
  show ?thesis
  proof (cases "f = []")
    case True
    with abs nat_string_whole [OF w] show ?thesis
      unfolding dec_String_def Let_def neg by (simp add: spelled_def)
  next
    case False
    then have s: "0 < scale ?d" "scale ?d = length f" by simp_all
    show ?thesis
      unfolding dec_String_def Let_def neg abs s(2) pad_digits [OF w f False]
      using False by (simp add: spelled_def)
  qed
qed

text \<open>Parsing is injective and printing inverts it.\<close>

lemma dec_String_Parse: "ParseDecimal s = Inr d \<Longrightarrow> dec_String d = s"
  by (elim ParseDecimal_InrE)
    (metis dec_String_spelled newDecimal_id spelled_normal decimal.select_convs)

text \<open>Every decimal in lowest form has a canonical spelling.\<close>

lemma normal_spelled:
  assumes "normal d"
  obtains neg w f where "whole_part w" "fraction_part f" "\<not> (neg \<and> w = ''0'' \<and> f = [])"
    "d = \<lparr>coefficient = (if neg then - 1 else 1) * int (digits_value (w @ f)), scale = length f\<rparr>"
proof -
  define n where "n = nat \<bar>coefficient d\<bar>"
  define neg where "neg = (coefficient d < 0)"
  define ds where "ds = nat_string n"
  define p where "p = (if length ds \<le> scale d then replicate (scale d - length ds + 1) CHR ''0'' @ ds else ds)"
  define w f where "w = take (length p - scale d) p" and "f = drop (length p - scale d) p"
  have p1: "w @ f = p" "length p > scale d" by (auto simp: w_def f_def p_def)
  have "list_all is_digit (replicate k CHR ''0'')" for k
    by (auto simp: list_all_iff is_digit_iff)
  then have p2: "digits_value p = n" "list_all is_digit p"
    by (simp_all add: p_def ds_def nat_string_digits digits_value_Cons digit_val_def is_digit_iff
        del: replicate.simps)
  note p = p1 p2
  have lf: "length f = scale d" using p(2) by (simp add: f_def)
  have c: "coefficient d = (if neg then - 1 else 1) * int (digits_value (w @ f))"
    using p by (auto simp: neg_def n_def)
  have "fraction_part f"
  proof (cases f rule: rev_cases)
    case Nil
    then show ?thesis by (simp add: fraction_part_def)
  next
    case (snoc g x)
    have "\<not> 10 dvd coefficient d" using assms lf snoc by (simp add: normal_def)
    then have "\<not> 10 dvd n" unfolding n_def by (simp add: nat_abs_dvd_iff)
    moreover have "n = 10 * digits_value (w @ g) + digit_val x"
      using p(1,3) snoc by (metis append_assoc digits_value_snoc)
    ultimately have "digit_val x \<noteq> 0" by (intro notI) simp
    moreover have "list_all is_digit (w @ g @ [x])" using p(1,4) snoc by simp
    ultimately show ?thesis
      using snoc by (auto simp: fraction_part_def is_digit19_iff digit_val_def)
  qed
  moreover have "whole_part w"
  proof (cases "n = 0")
    case True
    with assms have "scale d = 0" by (auto simp: normal_def n_def)
    moreover have "ds = ''0''" unfolding ds_def True by (subst nat_string.simps) simp
    ultimately show ?thesis by (simp add: w_def p_def whole_part_def)
  next
    case False
    show ?thesis
    proof (cases "length ds \<le> scale d")
      case True
      then show ?thesis by (simp add: w_def p_def whole_part_def)
    next
      case False
      then obtain x xs where w: "w = x # xs" by (cases w) (auto simp: w_def p_def)
      have "p = ds" using False by (simp add: p_def)
      with w p(1) have "hd ds = x" by (metis append_Cons list.sel(1))
      with nat_string_hd [of n] \<open>n \<noteq> 0\<close> have "is_digit19 x" by (simp add: ds_def)
      moreover have "list_all is_digit (w @ f)" using p(1,4) by simp
      ultimately show ?thesis using w by (simp add: whole_part_def)
    qed
  qed
  moreover have "\<not> (neg \<and> w = ''0'' \<and> f = [])"
    using p(3) p(1) by (auto simp: neg_def n_def digits_value_Cons digit_val_def)
  moreover have "d = \<lparr>coefficient = (if neg then - 1 else 1) * int (digits_value (w @ f)), scale = length f\<rparr>"
    using c lf by simp
  ultimately show thesis using that by blast
qed

lemma Parse_dec_String:
  assumes "normal d" "length (dec_String d) \<le> MaxDecimalLength"
  shows "ParseDecimal (dec_String d) = Inr d"
proof -
  obtain neg w f where *: "whole_part w" "fraction_part f" "\<not> (neg \<and> w = ''0'' \<and> f = [])"
    and d: "d = \<lparr>coefficient = (if neg then - 1 else 1) * int (digits_value (w @ f)), scale = length f\<rparr>"
    using normal_spelled [OF assms(1)] by blast
  have s: "dec_String d = spelled neg w f" using dec_String_spelled [OF *] d by simp
  show ?thesis
    using ParseDecimal_spelled [OF *] assms newDecimal_id [OF assms(1)] unfolding s by (simp add: d)
qed

section \<open>Probabilities\<close>

lemma ParseProbability_Inr_iff [result_simps]:
  "ParseProbability s = Inr d \<longleftrightarrow>
     ParseDecimal s = Inr d \<and> scale d \<le> 18 \<and> 0 \<le> dec_val d \<and> dec_val d \<le> 1"
  by (auto simp: ParseProbability_def bindR_eq_Inr_iff Cmp_val not_less split: if_splits)

lemma ParseOpenProbability_Inr_iff [result_simps]:
  "ParseOpenProbability s = Inr d \<longleftrightarrow>
     ParseDecimal s = Inr d \<and> scale d \<le> 18 \<and> 0 < dec_val d \<and> dec_val d < 1"
  by (auto simp: ParseOpenProbability_def bindR_eq_Inr_iff ParseProbability_Inr_iff Cmp_val not_le
      split: if_splits)

section \<open>Properties\<close>

text \<open>
  C36: arithmetic on decimals is exact.  \<open>Add\<close>, \<open>Sub\<close> and \<open>Sum\<close> compute the rational
  sum and difference, \<open>Cmp\<close> is the order of the rationals, and results are in lowest form.
\<close>

theorem decimal_arithmetic_exact:
  "dec_val (Add a b) = dec_val a + dec_val b \<and> dec_val (Sub a b) = dec_val a - dec_val b \<and>
   dec_val (Sum ds) = (\<Sum>x\<leftarrow>ds. dec_val x) \<and> Cmp a b = cmp3 (dec_val a) (dec_val b) \<and>
   normal (Add a b) \<and> normal (Sub a b)"
  by (simp add: Add_val Sub_val Sum_val Cmp_val)

text \<open>
  C37: the parser accepts exactly the printed forms of decimals in lowest form that are at most
  128 bytes long, and inverts the printer on them; so a value has one accepted spelling.
\<close>

theorem ParseDecimal_iff_printed:
  "ParseDecimal s = Inr d \<longleftrightarrow> normal d \<and> s = dec_String d \<and> length (dec_String d) \<le> MaxDecimalLength"
proof
  assume "ParseDecimal s = Inr d"
  moreover from this have "length s \<le> MaxDecimalLength" by (elim ParseDecimal_InrE) simp
  ultimately show "normal d \<and> s = dec_String d \<and> length (dec_String d) \<le> MaxDecimalLength"
    by (simp add: ParseDecimal_normal dec_String_Parse)
qed (simp add: Parse_dec_String)

text \<open>
  \<open>Aligns\<close> holds exactly when the step is positive and the value is a whole number of steps
  away from the origin.
\<close>

theorem Aligns_iff_multiple:
  "Aligns v origin step \<longleftrightarrow>
     0 < dec_val step \<and> (\<exists>k::int. dec_val v = dec_val origin + of_int k * dec_val step)"
  by (rule Aligns_val)

end
