(* ===== verification/Go_Time.thy ===== *)
theory Go_Time
  imports Exact_Decimal
begin

text \<open>
  Dates and timestamps: \<open>ParseDate\<close>, \<open>ParseTimestamp\<close> and the step parsers of
  \<open>internal/ledger/domain_semantics.go\<close>, with the part of Go's \<open>time.Parse\<close> they run.
  An instant is an integer number of nanoseconds since the Unix epoch.  \<open>time.Parse\<close> with the
  layout \<open>RFC3339Nano\<close> falls back from its strict fast path to the general parser, which
  checks the fields in order and admits offsets up to 24 hours and 60 minutes; a fraction is
  cut to nine digits.
\<close>

section \<open>Calendar\<close>

definition is_leap :: "nat \<Rightarrow> bool" where
  "is_leap y \<longleftrightarrow> y mod 4 = 0 \<and> (y mod 100 \<noteq> 0 \<or> y mod 400 = 0)"

definition days_in :: "nat \<Rightarrow> nat \<Rightarrow> nat" where
  "days_in m y =
     (if m = 2 then (if is_leap y then 29 else 28)
      else if m \<in> {4, 6, 9, 11} then 30 else 31)"

text \<open>Days since 1970-01-01 in the proleptic Gregorian calendar.\<close>

definition days_before_month :: "nat \<Rightarrow> nat \<Rightarrow> nat" where
  "days_before_month m y = (\<Sum>i\<leftarrow>[1..<m]. days_in i y)"

definition epoch_days :: "nat \<Rightarrow> nat \<Rightarrow> nat \<Rightarrow> int" where
  "epoch_days y m d =
     (let p = int y - 1 in
      365 * p + p div 4 - p div 100 + p div 400 + int (days_before_month m y) + int d - 1 - 719162)"

abbreviation nanos_per_second :: int where "nanos_per_second \<equiv> 1000000000"

text \<open>\<open>Time.Unix\<close> and \<open>Time.Nanosecond\<close>; \<open>IsZero\<close> holds of 0001-01-01T00:00:00Z only.\<close>

type_synonym instant = int

definition Unix :: "instant \<Rightarrow> int" where "Unix t = t div nanos_per_second"
definition Nanosecond :: "instant \<Rightarrow> int" where "Nanosecond t = t mod nanos_per_second"
definition zero_time :: instant where "zero_time = epoch_days 1 1 1 * 86400 * nanos_per_second"
definition IsZero :: "instant \<Rightarrow> bool" where "IsZero t \<longleftrightarrow> t = zero_time"

section \<open>Parsing\<close>

definition datePattern :: regexp where
  "datePattern = Seq (Rep 4 D09) (Seq (Lit CHR ''-'') (Seq (Rep 2 D09) (Seq (Lit CHR ''-'') (Rep 2 D09))))"

definition timestampPattern :: regexp where
  "timestampPattern =
     Seq (Rep 4 D09) (Seq (Lit CHR ''-'') (Seq (Rep 2 D09) (Seq (Lit CHR ''-'') (Seq (Rep 2 D09)
    (Seq (Lit CHR ''T'') (Seq (Rep 2 D09) (Seq (Lit CHR '':'') (Seq (Rep 2 D09) (Seq (Lit CHR '':'') (Seq (Rep 2 D09)
    (Seq (Opt (Seq (Lit CHR ''.'') (Plus D09)))
         (Alt (Lit CHR ''Z'')
              (Seq (Class [(CHR ''+'', CHR ''+''), (CHR ''-'', CHR ''-'')])
                (Seq (Rep 2 D09) (Seq (Lit CHR '':'') (Rep 2 D09))))))))))))))))"

text \<open>The digits of \<open>s\<close> from position \<open>i\<close>, \<open>n\<close> of them, as a number.\<close>

definition field :: "nat \<Rightarrow> nat \<Rightarrow> string \<Rightarrow> nat" where
  "field i n s = digits_value (take n (drop i s))"

text \<open>\<open>Time.Format(time.DateOnly)\<close> for the years 0 to 9999.\<close>

definition pad :: "nat \<Rightarrow> nat \<Rightarrow> string" where
  "pad n v = (let s = nat_string v in replicate (n - length s) CHR ''0'' @ s)"

definition format_date :: "nat \<Rightarrow> nat \<Rightarrow> nat \<Rightarrow> string" where
  "format_date y m d = pad 4 y @ ''-'' @ pad 2 m @ ''-'' @ pad 2 d"

definition ParseDate :: "string \<Rightarrow> string + instant" where
  "ParseDate value =
     (let y = field 0 4 value; m = field 5 2 value; d = field 8 2 value in
      if matches datePattern value \<and> 1 \<le> m \<and> m \<le> 12 \<and> 1 \<le> d \<and> d \<le> days_in m y
         \<and> format_date y m d = value
      then Inr (epoch_days y m d * 86400 * nanos_per_second)
      else Inl (go_quote value @ '' is not a valid YYYY-MM-DD date''))"

text \<open>\<open>parseNanoseconds\<close>: at most nine digits, scaled to nanoseconds.\<close>

definition fraction_nanos :: "string \<Rightarrow> nat" where
  "fraction_nanos f = (let g = take 9 f in digits_value g * 10 ^ (9 - length g))"

text \<open>The fraction and the zone of a string of the shape of \<open>timestampPattern\<close>.\<close>

definition ts_fraction :: "string \<Rightarrow> string" where
  "ts_fraction s =
     (let rest = drop 19 s in
      if rest \<noteq> [] \<and> hd rest = CHR ''.'' then takeWhile is_digit (tl rest) else [])"

definition ts_zone :: "string \<Rightarrow> string" where
  "ts_zone s =
     (let rest = drop 19 s; f = ts_fraction s in if f = [] then rest else drop (Suc (length f)) rest)"

definition zone_offset :: "string \<Rightarrow> string + int" where
  "zone_offset zone =
     (if zone \<noteq> [] \<and> hd zone = CHR ''Z'' then Inr 0
      else
        let zh = field 1 2 zone; zm = field 4 2 zone in
        if 60 < zm then Inl ''time zone offset minute''
        else if 24 < zh then Inl ''time zone offset hour''
        else Inr ((if hd zone = CHR ''-'' then - 1 else 1) * (int zh * 3600 + int zm * 60)))"

text \<open>The general parser of \<open>time.Parse\<close> on a string of that shape.\<close>

definition time_Parse_RFC3339Nano :: "string \<Rightarrow> string + instant" where
  "time_Parse_RFC3339Nano s =
     (let out_of_range = (\<lambda>what. Inl (''parsing time '' @ go_quote s @ '': '' @ what @ '' out of range''));
          y = field 0 4 s; mo = field 5 2 s; d = field 8 2 s;
          h = field 11 2 s; mi = field 14 2 s; sec = field 17 2 s
      in if mo < 1 \<or> 12 < mo then out_of_range ''month''
         else if 24 \<le> h then out_of_range ''hour''
         else if 60 \<le> mi then out_of_range ''minute''
         else if 60 \<le> sec then out_of_range ''second''
         else case zone_offset (ts_zone s) of
           Inl what \<Rightarrow> out_of_range what
         | Inr offset \<Rightarrow>
             if d < 1 \<or> days_in mo y < d then out_of_range ''day''
             else Inr ((epoch_days y mo d * 86400 + int h * 3600 + int mi * 60 + int sec - offset)
                         * nanos_per_second + int (fraction_nanos (ts_fraction s))))"

definition ParseTimestamp :: "string \<Rightarrow> string + instant" where
  "ParseTimestamp value =
     (if \<not> matches timestampPattern value
      then Inl (go_quote value @ '' is not an RFC 3339 timestamp with seconds and an explicit offset'')
      else case time_Parse_RFC3339Nano value of
             Inl e \<Rightarrow> Inl (go_quote value @ '' is not a valid RFC 3339 timestamp: '' @ e)
           | Inr t \<Rightarrow> Inr t)"

section \<open>Steps\<close>

text \<open>
  \<open>parsePositiveStep\<close>: the capture group of the two patterns is what stands between the
  prefix and the one-letter suffix; \<open>strconv.ParseInt\<close> fails above the 64-bit maximum.
\<close>

definition dateStepPattern :: regexp where
  "dateStepPattern = Seq (Lit CHR ''P'') (Seq D19 (Seq (Star D09) (Lit CHR ''D'')))"

definition datetimeStepPattern :: regexp where
  "datetimeStepPattern = Seq (Lit CHR ''P'') (Seq (Lit CHR ''T'') (Seq D19 (Seq (Star D09) (Lit CHR ''S''))))"

definition max_int64 :: int where "max_int64 = 9223372036854775807"

definition parsePositiveStep :: "string \<Rightarrow> regexp \<Rightarrow> nat \<Rightarrow> string \<Rightarrow> string + int" where
  "parsePositiveStep value pattern prefix expected =
     (if \<not> matches pattern value then Inl (''step must use '' @ expected @ '' with a positive integer'')
      else
        let amount = int (digits_value (butlast (drop prefix value))) in
        if amount > max_int64 \<or> amount \<le> 0
        then Inl (''step must use '' @ expected @ '' with a bounded positive integer'')
        else Inr amount)"

definition ParseDayStep :: "string \<Rightarrow> string + int" where
  "ParseDayStep value = parsePositiveStep value dateStepPattern 1 ''P<n>D''"

definition ParseSecondStep :: "string \<Rightarrow> string + int" where
  "ParseSecondStep value = parsePositiveStep value datetimeStepPattern 2 ''PT<n>S''"

definition instantNanos :: "instant \<Rightarrow> int" where
  "instantNanos value = Unix value * nanos_per_second + Nanosecond value"

definition instantAligns :: "instant \<Rightarrow> instant \<Rightarrow> int \<Rightarrow> bool" where
  "instantAligns value origin stepSeconds =
     ((instantNanos value - instantNanos origin) smod (stepSeconds * nanos_per_second) = 0)"

section \<open>Calendar order\<close>

lemma days_before_month_Suc: "1 \<le> m \<Longrightarrow> days_before_month (Suc m) y = days_before_month m y + days_in m y"
  by (simp add: days_before_month_def)

lemma days_before_month_mono: "1 \<le> m \<Longrightarrow> m < m' \<Longrightarrow> days_before_month m y + days_in m y \<le> days_before_month m' y"
proof (induction m' arbitrary: m)
  case 0
  then show ?case by simp
next
  case (Suc k)
  show ?case
  proof (cases "m = k")
    case True
    with Suc show ?thesis by (simp add: days_before_month_Suc)
  next
    case False
    with Suc.prems have "m < k" by simp
    with Suc.IH [of m] Suc.prems have "days_before_month m y + days_in m y \<le> days_before_month k y" by simp
    moreover have "days_before_month k y \<le> days_before_month (Suc k) y"
      using Suc.prems False by (simp add: days_before_month_Suc)
    ultimately show ?thesis by simp
  qed
qed

lemma year_length: "days_before_month 13 y = (if is_leap y then 366 else 365)"
  by (simp add: days_before_month_def upt_rec [of _ 13] days_in_def)

lemma month_end: "1 \<le> m \<Longrightarrow> m \<le> 12 \<Longrightarrow> days_before_month m y + days_in m y \<le> 366"
  using days_before_month_mono [of m 13 y] year_length [of y] by (auto split: if_splits)

lemma div_step:
  assumes "0 < (n :: int)"
  shows "x div n = (x - 1) div n + (if n dvd x then 1 else 0)"
proof (cases "n dvd x")
  case True
  then obtain k where k: "x = n * k" by blast
  have "(x - 1) div n = k - 1"
    using assms k by (intro int_div_pos_eq [of _ _ _ "n - 1"]) (simp_all add: algebra_simps)
  with k assms show ?thesis by simp
next
  case False
  then have ne: "x mod n \<noteq> 0" by (simp add: dvd_eq_mod_eq_0)
  have "0 \<le> x mod n" "x mod n < n" using assms by simp_all
  with ne have "(x - 1) div n = x div n"
    by (intro int_div_pos_eq [of _ _ _ "x mod n - 1"]) (simp_all add: algebra_simps)
  with False show ?thesis by simp
qed

lemma leap_count:
  assumes "q4 = a4 + (if A then 1 else 0)" "q1 = a1 + (if B then 1 else 0)"
    "q400 = a400 + (if C then 1 else 0)" "C \<Longrightarrow> B" "B \<Longrightarrow> A"
  shows "365 * x + q4 - q1 + q400 - 719162 =
    365 * (x - 1) + a4 - a1 + a400 - 719162 + int (if A \<and> (\<not> B \<or> C) then 366 else 365)"
  using assms by (cases A; cases B; cases C; simp)

lemma year_step: "epoch_days (Suc y) 1 1 = epoch_days y 1 1 + int (days_before_month 13 y)"
proof -
  have l: "(4 dvd int y) = (y mod 4 = 0)" "(100 dvd int y) = (y mod 100 = 0)" "(400 dvd int y) = (y mod 400 = 0)"
    using int_dvd_int_iff [of 4 y] int_dvd_int_iff [of 100 y] int_dvd_int_iff [of 400 y]
    by (simp_all add: dvd_eq_mod_eq_0)
  have "(100 :: nat) dvd 400" "(4 :: nat) dvd 100" by simp_all
  then have i: "400 dvd y \<Longrightarrow> 100 dvd y" "100 dvd y \<Longrightarrow> 4 dvd y" using dvd_trans by blast+
  have 1: "epoch_days (Suc y) 1 1 = 365 * int y + int y div 4 - int y div 100 + int y div 400 - 719162"
    by (simp add: epoch_days_def Let_def days_before_month_def)
  have 2: "epoch_days y 1 1 =
      365 * (int y - 1) + (int y - 1) div 4 - (int y - 1) div 100 + (int y - 1) div 400 - 719162"
    by (simp add: epoch_days_def Let_def days_before_month_def)
  show ?thesis
    unfolding 1 2 year_length is_leap_def
    by (rule leap_count [OF div_step [of 4 "int y", unfolded l] div_step [of 100 "int y", unfolded l]
      div_step [of 400 "int y", unfolded l] i [unfolded dvd_eq_mod_eq_0]])
      simp_all
qed

lemma year_mono:
  assumes "y < y'"
  shows "epoch_days y 1 1 + int (days_before_month 13 y) \<le> epoch_days y' 1 1"
  using assms
proof (induction y')
  case 0
  then show ?case by simp
next
  case (Suc k)
  show ?case
  proof (cases "y = k")
    case True
    then show ?thesis by (simp only: year_step)
  next
    case False
    with Suc show ?thesis using year_step [of k] by simp
  qed
qed

definition valid_date :: "nat \<Rightarrow> nat \<Rightarrow> nat \<Rightarrow> bool" where
  "valid_date y m d \<longleftrightarrow> 1 \<le> m \<and> m \<le> 12 \<and> 1 \<le> d \<and> d \<le> days_in m y"

lemma epoch_days_split: "epoch_days y m d = epoch_days y 1 1 + int (days_before_month m y) + int d - 1"
  by (simp add: epoch_days_def Let_def days_before_month_def)

lemma epoch_days_less:
  assumes v: "valid_date y m d" "valid_date y' m' d'"
    and less: "y < y' \<or> y = y' \<and> (m < m' \<or> m = m' \<and> d < d')"
  shows "epoch_days y m d < epoch_days y' m' d'"
  using less
proof (elim disjE conjE)
  assume "y < y'"
  moreover have "days_before_month m y + d \<le> days_before_month 13 y"
    using days_before_month_mono [of m 13 y] v by (simp add: valid_date_def)
  ultimately show ?thesis
    using year_mono [of y y'] v epoch_days_split [of y m d] epoch_days_split [of y' m' d']
    by (simp add: valid_date_def)
next
  assume "y = y'" "m < m'"
  with v show ?thesis
    using days_before_month_mono [of m m' y] epoch_days_split [of y m d] epoch_days_split [of y m' d']
    by (simp add: valid_date_def)
next
  assume "y = y'" "m = m'" "d < d'"
  then show ?thesis by (simp add: epoch_days_def Let_def)
qed

lemma epoch_days_less_iff:
  assumes "valid_date y m d" "valid_date y' m' d'"
  shows "epoch_days y m d < epoch_days y' m' d' \<longleftrightarrow> y < y' \<or> y = y' \<and> (m < m' \<or> m = m' \<and> d < d')"
  using epoch_days_less [OF assms] epoch_days_less [OF assms(2,1)]
  by (metis linorder_neqE_nat order_less_asym order_less_irrefl)

section \<open>Date strings\<close>

lemma append_less_append:
  fixes u v :: string
  shows "length u = length v \<Longrightarrow> u @ x < v @ y \<longleftrightarrow> u < v \<or> u = v \<and> x < y"
  by (induction u v rule: list_induct2) auto

lemma digit_val_less_iff: "is_digit c \<Longrightarrow> is_digit d \<Longrightarrow> digit_val c < digit_val d \<longleftrightarrow> c < d"
  by (auto simp: is_digit_iff digit_val_def less_char_def)

lemma digits_value_less_iff:
  "length u = length v \<Longrightarrow> list_all is_digit u \<Longrightarrow> list_all is_digit v \<Longrightarrow>
    digits_value u < digits_value v \<longleftrightarrow> u < v"
proof (induction u v rule: list_induct2)
  case Nil
  show ?case by simp
next
  case (Cons c u d v)
  have lt: "digit_val a * 10 ^ length w + digits_value w < digit_val b * 10 ^ length w"
    if "digit_val a < digit_val b" "list_all is_digit w" for a b w
  proof -
    have "digit_val a * 10 ^ length w + digits_value w < Suc (digit_val a) * 10 ^ length w"
      using digits_value_less [OF that(2)] by simp
    also have "\<dots> \<le> digit_val b * 10 ^ length w" using that(1) by (intro mult_le_mono1) simp
    finally show ?thesis .
  qed
  from Cons.prems have cd: "is_digit c" "is_digit d" by simp_all
  consider "c < d" | "c = d" | "d < c" by force
  then show ?case
  proof cases
    case 1
    then show ?thesis
      using lt [of c d u] Cons digit_val_less_iff [OF cd] by (simp add: digits_value_Cons)
  next
    case 2
    with Cons show ?thesis by (simp add: digits_value_Cons)
  next
    case 3
    then show ?thesis
      using lt [of d c v] Cons digit_val_less_iff [OF cd(2,1)]
      by (auto simp: digits_value_Cons dest: order.asym)
  qed
qed

lemma pad_digit:
  assumes "v < 10 ^ n" "0 < n"
  shows "length (pad n v) = n" "list_all is_digit (pad n v)" "digits_value (pad n v) = v"
  using nat_string_length [OF assms] nat_string_digits [of v]
  by (simp_all add: pad_def Let_def digits_value_append)
    (auto simp: list_all_iff is_digit_iff)

lemma pad_less_iff: "v < 10 ^ n \<Longrightarrow> w < 10 ^ n \<Longrightarrow> 0 < n \<Longrightarrow> pad n v < pad n w \<longleftrightarrow> v < w"
  using pad_digit [of v n] pad_digit [of w n] by (simp flip: digits_value_less_iff)

lemma pad_inj: "v < 10 ^ n \<Longrightarrow> w < 10 ^ n \<Longrightarrow> 0 < n \<Longrightarrow> pad n v = pad n w \<longleftrightarrow> v = w"
  using pad_digit(3) [of v n] pad_digit(3) [of w n] by metis

lemma days_in_less: "days_in m y < 32"
  by (simp add: days_in_def)

lemma valid_date_bounds: "valid_date y m d \<Longrightarrow> m < 10 ^ 2 \<and> d < 10 ^ 2"
  using days_in_less [of m y] by (simp add: valid_date_def)

lemma format_date_less_iff:
  assumes "valid_date y m d" "valid_date y' m' d'" "y < 10 ^ 4" "y' < 10 ^ 4"
  shows "format_date y m d < format_date y' m' d' \<longleftrightarrow> y < y' \<or> y = y' \<and> (m < m' \<or> m = m' \<and> d < d')"
  using assms valid_date_bounds [OF assms(1)] valid_date_bounds [OF assms(2)]
  by (simp add: format_date_def append_less_append pad_digit pad_less_iff pad_inj)

lemma format_date_fields:
  assumes "valid_date y m d" "y < 10 ^ 4"
  shows "field 0 4 (format_date y m d) = y" "field 5 2 (format_date y m d) = m"
    "field 8 2 (format_date y m d) = d" "matches datePattern (format_date y m d)"
proof -
  note b = valid_date_bounds [OF assms(1)]
  show "field 0 4 (format_date y m d) = y" "field 5 2 (format_date y m d) = m"
    "field 8 2 (format_date y m d) = d"
    using pad_digit [of y 4] pad_digit [of m 2] pad_digit [of d 2] b assms(2)
    by (simp_all add: format_date_def field_def)
  have "pad 4 y \<in> lang (Rep 4 D09)" "pad 2 m \<in> lang (Rep 2 D09)" "pad 2 d \<in> lang (Rep 2 D09)"
    using pad_digit [of y 4] pad_digit [of m 2] pad_digit [of d 2] b assms(2)
    by (simp_all add: lang_Rep_Class in_class_digit)
  moreover have "''-'' \<in> lang (Lit CHR ''-'')" by (simp add: in_class_single)
  ultimately show "matches datePattern (format_date y m d)"
    unfolding datePattern_def matches_lang format_date_def lang.simps(3) by blast
qed

lemma ParseDate_Inr_iff:
  "ParseDate s = Inr t \<longleftrightarrow>
     (\<exists>y m d. valid_date y m d \<and> y < 10 ^ 4 \<and> s = format_date y m d
        \<and> t = epoch_days y m d * 86400 * nanos_per_second)"
proof
  assume p: "ParseDate s = Inr t"
  let ?y = "field 0 4 s" and ?m = "field 5 2 s" and ?d = "field 8 2 s"
  from p have "matches datePattern s" by (auto simp: ParseDate_def Let_def split: if_splits)
  then obtain u v where "s = u @ v" "length u = 4" "list_all is_digit u"
    unfolding datePattern_def matches_lang lang.simps(3) lang_Rep_Class in_class_digit by blast
  then have "?y < 10 ^ 4" using digits_value_less [of u] by (simp add: field_def)
  with p show "\<exists>y m d. valid_date y m d \<and> y < 10 ^ 4 \<and> s = format_date y m d
      \<and> t = epoch_days y m d * 86400 * nanos_per_second"
    by (intro exI [of _ ?y] exI [of _ ?m] exI [of _ ?d])
      (auto simp: ParseDate_def Let_def valid_date_def split: if_splits)
next
  assume "\<exists>y m d. valid_date y m d \<and> y < 10 ^ 4 \<and> s = format_date y m d
    \<and> t = epoch_days y m d * 86400 * nanos_per_second"
  then obtain y m d where *: "valid_date y m d" "y < 10 ^ 4" "s = format_date y m d"
    "t = epoch_days y m d * 86400 * nanos_per_second" by blast
  from format_date_fields [OF *(1,2)] * show "ParseDate s = Inr t"
    by (simp add: ParseDate_def Let_def valid_date_def)
qed

lemma ParseDate_less: "ParseDate a = Inr s \<Longrightarrow> ParseDate b = Inr t \<Longrightarrow> s < t \<longleftrightarrow> a < b"
  unfolding ParseDate_Inr_iff by (auto simp: epoch_days_less_iff format_date_less_iff)

lemma ParseDate_inj: "ParseDate a = Inr t \<Longrightarrow> ParseDate b = Inr t \<Longrightarrow> a = b"
  using ParseDate_less [of a t b t] ParseDate_less [of b t a t] by auto

text \<open>
  Among accepted dates, the order of the strings is the order of the instants; two accepted
  dates denote the same instant only when they are the same string.
\<close>

theorem ParseDate_order:
  assumes "ParseDate a = Inr s" and "ParseDate b = Inr t"
  shows "(s < t \<longleftrightarrow> a < b) \<and> (s = t \<longleftrightarrow> a = b) \<and> 86400 * nanos_per_second dvd t"
proof -
  have "s = t \<longleftrightarrow> a = b"
    using ParseDate_inj [of a s b] assms by auto
  moreover have "86400 * nanos_per_second dvd t"
    using assms(2) unfolding ParseDate_Inr_iff by auto
  ultimately show ?thesis using ParseDate_less [OF assms] by simp
qed

lemma ParseDate_eq:
  "valid_date y m d \<Longrightarrow> y < 10 ^ 4 \<Longrightarrow> s = format_date y m d \<Longrightarrow>
    ParseDate s = Inr (epoch_days y m d * 86400 * nanos_per_second)"
  unfolding ParseDate_Inr_iff by blast

lemmas date_evals = ParseDate_eq valid_date_def days_in_def is_leap_def

theorem ParseDate_order_witness:
  "\<exists>s t. ParseDate ''2024-02-29'' = Inr s \<and> ParseDate ''2024-03-01'' = Inr t \<and> s < t"
proof -
  have "format_date 2024 2 29 = ''2024-02-29''" "format_date 2024 3 1 = ''2024-03-01''" by code_simp+
  then obtain s t where st: "ParseDate ''2024-02-29'' = Inr s" "ParseDate ''2024-03-01'' = Inr t"
    using ParseDate_eq [of 2024 2 29] ParseDate_eq [of 2024 3 1] by (simp add: valid_date_def days_in_def is_leap_def)
  with ParseDate_order [OF st] show ?thesis by simp
qed

section \<open>Timestamps and steps\<close>

lemma epoch_days_bounds:
  assumes "valid_date y m d" "y < 10 ^ 4"
  shows "- 719528 \<le> epoch_days y m d" "epoch_days y m d \<le> 2932896"
proof -
  have 0: "epoch_days 0 1 1 = - 719528" by (simp add: epoch_days_def days_before_month_def)
  have 9: "epoch_days 9999 12 31 = 2932896"
    by (simp add: epoch_days_def days_before_month_def upt_rec [of _ 12] days_in_def is_leap_def)
  have v: "valid_date 0 1 1" "valid_date 9999 12 31" by (simp_all add: valid_date_def days_in_def)
  show "- 719528 \<le> epoch_days y m d"
    using epoch_days_less_iff [OF assms(1) v(1)] assms(1) 0 by (auto simp: valid_date_def not_less)
  have "d \<le> 31" using assms(1) days_in_less [of m y] by (simp add: valid_date_def)
  then show "epoch_days y m d \<le> 2932896"
    using epoch_days_less_iff [OF v(2) assms(1)] assms 9 by (auto simp: valid_date_def not_less)
qed

lemma fraction_nanos_less: "list_all is_digit f \<Longrightarrow> fraction_nanos f < 10 ^ 9"
proof -
  assume f: "list_all is_digit f"
  let ?g = "take 9 f"
  have "list_all is_digit ?g" using f by (auto simp: list_all_iff dest: in_set_takeD)
  then have "digits_value ?g * 10 ^ (9 - length ?g) < 10 ^ length ?g * 10 ^ (9 - length ?g)"
    using digits_value_less [of ?g] by simp
  also have "\<dots> = 10 ^ 9" by (simp flip: power_add)
  finally show ?thesis by (simp add: fraction_nanos_def Let_def)
qed

lemma zone_offset_bounds:
  assumes "zone_offset z = Inr ofs"
  shows "- 90000 \<le> ofs \<and> ofs \<le> 90000"
proof (cases "z \<noteq> [] \<and> hd z = CHR ''Z''")
  case True
  with assms show ?thesis by (simp add: zone_offset_def)
next
  case False
  then have "field 1 2 z \<le> 24" "field 4 2 z \<le> 60"
    "ofs = (if hd z = CHR ''-'' then - 1 else 1) * (int (field 1 2 z) * 3600 + int (field 4 2 z) * 60)"
    using assms unfolding zone_offset_def if_not_P [OF False] Let_def by (auto split: if_splits)
  then show ?thesis by (simp split: if_split)
qed

lemma time_Parse_Inr:
  assumes "time_Parse_RFC3339Nano s = Inr t"
  obtains ofs where "zone_offset (ts_zone s) = Inr ofs"
    "valid_date (field 0 4 s) (field 5 2 s) (field 8 2 s)"
    "field 11 2 s < 24" "field 14 2 s < 60" "field 17 2 s < 60"
    "t = (epoch_days (field 0 4 s) (field 5 2 s) (field 8 2 s) * 86400 + int (field 11 2 s) * 3600
        + int (field 14 2 s) * 60 + int (field 17 2 s) - ofs) * nanos_per_second
        + int (fraction_nanos (ts_fraction s))"
  using assms unfolding time_Parse_RFC3339Nano_def Let_def valid_date_def
  by (auto split: if_splits sum.splits)

lemma ts_fraction_digits: "list_all is_digit (ts_fraction s)"
  by (auto simp: ts_fraction_def Let_def list_all_iff dest: set_takeWhileD)

lemma time_Parse_bounds:
  assumes p: "time_Parse_RFC3339Nano s = Inr t" and y: "field 0 4 s < 10 ^ 4"
  shows "- 719530 * 86400 \<le> Unix t \<and> Unix t \<le> 2932899 * 86400"
  using p
proof (rule time_Parse_Inr)
  fix ofs
  let ?days = "epoch_days (field 0 4 s) (field 5 2 s) (field 8 2 s)"
  assume z: "zone_offset (ts_zone s) = Inr ofs" and v: "valid_date (field 0 4 s) (field 5 2 s) (field 8 2 s)"
    and hms: "field 11 2 s < 24" "field 14 2 s < 60" "field 17 2 s < 60"
    and t: "t = (?days * 86400 + int (field 11 2 s) * 3600
        + int (field 14 2 s) * 60 + int (field 17 2 s) - ofs) * nanos_per_second
        + int (fraction_nanos (ts_fraction s))"
  have "Unix t = ?days * 86400 + int (field 11 2 s) * 3600 + int (field 14 2 s) * 60 + int (field 17 2 s) - ofs"
    unfolding Unix_def t using fraction_nanos_less [OF ts_fraction_digits [of s]] by simp
  then show ?thesis
    using epoch_days_bounds [OF v y] hms zone_offset_bounds [OF z] by linarith
qed

lemma timestampPattern_year:
  assumes "matches timestampPattern s"
  shows "field 0 4 s < 10 ^ 4"
proof -
  from assms obtain u v where "s = u @ v" "length u = 4" "list_all is_digit u"
    unfolding timestampPattern_def matches_lang lang.simps(3) [of "Rep 4 D09"] lang_Rep_Class in_class_digit
    by blast
  then show ?thesis using digits_value_less [of u] by (simp add: field_def)
qed

lemma instantNanos_id [simp]: "instantNanos t = t"
  by (simp add: instantNanos_def Unix_def Nanosecond_def)

lemma instantAligns_iff:
  "instantAligns v o' n \<longleftrightarrow> (\<exists>k. v = o' + k * (n * nanos_per_second))"
proof -
  have "instantAligns v o' n \<longleftrightarrow> n * nanos_per_second dvd v - o'"
    by (simp add: instantAligns_def smod_eq_0_iff)
  also have "\<dots> \<longleftrightarrow> (\<exists>k. v = o' + k * (n * nanos_per_second))"
    by (auto simp: dvd_def algebra_simps)
  finally show ?thesis .
qed

text \<open>Every accepted timestamp is spelled out of its fields.\<close>

type_synonym zone = "(bool \<times> nat \<times> nat) option"

definition valid_zone :: "zone \<Rightarrow> bool" where
  "valid_zone z = (case z of None \<Rightarrow> True | Some (_, h, m) \<Rightarrow> h \<le> 24 \<and> m \<le> 60)"

definition zone_string :: "zone \<Rightarrow> string" where
  "zone_string z = (case z of None \<Rightarrow> ''Z''
     | Some (neg, h, m) \<Rightarrow> (if neg then CHR ''-'' else CHR ''+'') # pad 2 h @ CHR '':'' # pad 2 m)"

definition zone_seconds :: "zone \<Rightarrow> int" where
  "zone_seconds z = (case z of None \<Rightarrow> 0
     | Some (neg, h, m) \<Rightarrow> (if neg then - 1 else 1) * (int h * 3600 + int m * 60))"

definition clock_string :: "nat \<Rightarrow> nat \<Rightarrow> nat \<Rightarrow> string" where
  "clock_string h mi sec = pad 2 h @ '':'' @ pad 2 mi @ '':'' @ pad 2 sec"

definition fraction_string :: "string \<Rightarrow> string" where
  "fraction_string f = (if f = [] then [] else CHR ''.'' # f)"

lemma digits_value_inj:
  "length u = length v \<Longrightarrow> list_all is_digit u \<Longrightarrow> list_all is_digit v \<Longrightarrow> digits_value u = digits_value v \<Longrightarrow> u = v"
  using digits_value_less_iff [of u v] digits_value_less_iff [of v u] by force

lemma pad_digits_value:
  assumes "list_all is_digit u" "length u = n" "0 < n"
  shows "pad n (digits_value u) = u"
  using assms pad_digit [of "digits_value u" n] digits_value_less [of u] by (intro digits_value_inj) auto

lemma lang_digit_field: "u \<in> lang (Rep n D09) \<longleftrightarrow> length u = n \<and> list_all is_digit u"
  by (simp add: lang_Rep_Class in_class_digit)

lemma lang_field_iff: "0 < n \<Longrightarrow> u \<in> lang (Rep n D09) \<longleftrightarrow> (\<exists>v < 10 ^ n. u = pad n v)"
  unfolding lang_digit_field by (metis digits_value_less pad_digit(1,2) pad_digits_value)

lemma lang_sep: "s \<in> lang (Seq q (Seq (Lit c) r)) \<longleftrightarrow> (\<exists>u v. s = u @ c # v \<and> u \<in> lang q \<and> v \<in> lang r)"
  by (auto simp: in_class_single)

lemma lang_fraction:
  "u \<in> lang (Opt (Seq (Lit CHR ''.'') (Plus D09))) \<longleftrightarrow> (\<exists>f. u = fraction_string f \<and> list_all is_digit f)"
proof -
  have "u \<in> lang (Seq (Lit CHR ''.'') (Plus D09)) \<longleftrightarrow> (\<exists>f. u = CHR ''.'' # f \<and> f \<noteq> [] \<and> list_all is_digit f)"
    by (cases u; cases "tl u") (simp_all add: lang_Seq_Class lang_Star_Class in_class_digit in_class_single
        del: lang.simps(3,5))
  then show ?thesis unfolding lang.simps(4) lang.simps(1) fraction_string_def by auto
qed

lemma lang_zone:
  "u \<in> lang (Alt (Lit CHR ''Z'') (Seq (Class [(CHR ''+'', CHR ''+''), (CHR ''-'', CHR ''-'')])
      (Seq (Rep 2 D09) (Seq (Lit CHR '':'') (Rep 2 D09)))))
    \<longleftrightarrow> (\<exists>z. u = zone_string z \<and> (case z of None \<Rightarrow> True | Some (_, h, m) \<Rightarrow> h < 100 \<and> m < 100))"
proof -
  have c: "in_class [(CHR ''+'', CHR ''+''), (CHR ''-'', CHR ''-'')] c \<longleftrightarrow> c = CHR ''+'' \<or> c = CHR ''-''" for c
    by (auto simp: in_class_def)
  have "u \<in> lang (Seq (Class [(CHR ''+'', CHR ''+''), (CHR ''-'', CHR ''-'')])
      (Seq (Rep 2 D09) (Seq (Lit CHR '':'') (Rep 2 D09))))
    \<longleftrightarrow> (\<exists>neg h m. u = (if neg then CHR ''-'' else CHR ''+'') # pad 2 h @ CHR '':'' # pad 2 m \<and> h < 100 \<and> m < 100)"
    unfolding lang_Seq_Class lang_sep lang_field_iff [OF zero_less_numeral] c
    by (auto split: list.split)
  then show ?thesis
    unfolding lang.simps(4) Un_iff
    by (simp add: in_class_single zone_string_def split_option_ex split_paired_Ex del: lang.simps(3))
qed

lemma lang_field_sep:
  assumes "0 < n"
  shows "s \<in> lang (Seq (Rep n D09) (Seq (Lit c) r)) \<longleftrightarrow>
    (\<exists>v w. s = pad n v @ c # w \<and> v < 10 ^ n \<and> w \<in> lang r)"
  unfolding lang_sep lang_field_iff [OF assms] by blast

lemma timestampPattern_iff:
  "matches timestampPattern s \<longleftrightarrow>
     (\<exists>y mo d h mi sec f z. s = format_date y mo d @ CHR ''T'' # clock_string h mi sec @ fraction_string f @ zone_string z
        \<and> y < 10 ^ 4 \<and> mo < 10 ^ 2 \<and> d < 10 ^ 2 \<and> h < 10 ^ 2 \<and> mi < 10 ^ 2 \<and> sec < 10 ^ 2
        \<and> list_all is_digit f \<and> (case z of None \<Rightarrow> True | Some (_, zh, zm) \<Rightarrow> zh < 100 \<and> zm < 100))"
proof -
  have tail: "s \<in> lang (Seq (Rep 2 D09) (Seq q r)) \<longleftrightarrow>
      (\<exists>v u w. s = pad 2 v @ u @ w \<and> v < 10 ^ 2 \<and> u \<in> lang q \<and> w \<in> lang r)" for s q r
    unfolding lang.simps(3) [of "Rep 2 D09"] lang.simps(3) [of q] lang_field_iff [OF zero_less_numeral] by blast
  have "matches timestampPattern s \<longleftrightarrow>
     (\<exists>y w1. s = pad 4 y @ CHR ''-'' # w1 \<and> y < 10 ^ 4 \<and>
     (\<exists>mo w2. w1 = pad 2 mo @ CHR ''-'' # w2 \<and> mo < 10 ^ 2 \<and>
     (\<exists>d w3. w2 = pad 2 d @ CHR ''T'' # w3 \<and> d < 10 ^ 2 \<and>
     (\<exists>h w4. w3 = pad 2 h @ CHR '':'' # w4 \<and> h < 10 ^ 2 \<and>
     (\<exists>mi w5. w4 = pad 2 mi @ CHR '':'' # w5 \<and> mi < 10 ^ 2 \<and>
     (\<exists>sec u w6. w5 = pad 2 sec @ u @ w6 \<and> sec < 10 ^ 2 \<and>
       (\<exists>f. u = fraction_string f \<and> list_all is_digit f) \<and>
       (\<exists>z. w6 = zone_string z \<and> (case z of None \<Rightarrow> True | Some (_, zh, zm) \<Rightarrow> zh < 100 \<and> zm < 100))))))))"
    unfolding matches_lang timestampPattern_def lang_field_sep [OF zero_less_numeral] tail lang_fraction lang_zone ..
  also have "\<dots> \<longleftrightarrow> (\<exists>y mo d h mi sec f z. s = pad 4 y @ CHR ''-'' # pad 2 mo @ CHR ''-'' # pad 2 d @
        CHR ''T'' # pad 2 h @ CHR '':'' # pad 2 mi @ CHR '':'' # pad 2 sec @ fraction_string f @ zone_string z
        \<and> y < 10 ^ 4 \<and> mo < 10 ^ 2 \<and> d < 10 ^ 2 \<and> h < 10 ^ 2 \<and> mi < 10 ^ 2 \<and> sec < 10 ^ 2
        \<and> list_all is_digit f \<and> (case z of None \<Rightarrow> True | Some (_, zh, zm) \<Rightarrow> zh < 100 \<and> zm < 100))"
    (is "?l \<longleftrightarrow> ?r")
  proof
    assume ?l
    then show ?r by (elim exE conjE) (hypsubst, intro exI conjI, rule refl, assumption+)
  next
    assume ?r
    then show ?l by (elim exE conjE) (hypsubst, intro exI conjI; (rule refl | assumption))
  qed
  finally show ?thesis by (simp add: format_date_def clock_string_def)
qed

lemma timestamp_fields:
  assumes "y < 10 ^ 4" "mo < 10 ^ 2" "d < 10 ^ 2" "h < 10 ^ 2" "mi < 10 ^ 2" "sec < 10 ^ 2" "list_all is_digit f"
    and s: "s = format_date y mo d @ CHR ''T'' # clock_string h mi sec @ fraction_string f @ zone_string z"
  shows "field 0 4 s = y" "field 5 2 s = mo" "field 8 2 s = d" "field 11 2 s = h" "field 14 2 s = mi"
    "field 17 2 s = sec" "ts_fraction s = f" "ts_zone s = zone_string z"
proof -
  note p = pad_digit [of y 4] pad_digit [of mo 2] pad_digit [of d 2] pad_digit [of h 2] pad_digit [of mi 2]
    pad_digit [of sec 2]
  show "field 0 4 s = y" "field 5 2 s = mo" "field 8 2 s = d" "field 11 2 s = h" "field 14 2 s = mi"
    "field 17 2 s = sec"
    using assms p unfolding s by (simp_all add: format_date_def clock_string_def field_def)
  have rest: "drop 19 s = fraction_string f @ zone_string z"
    using assms p unfolding s by (simp add: format_date_def clock_string_def)
  obtain c zs where z: "zone_string z = c # zs" "c = CHR ''Z'' \<or> c = CHR ''-'' \<or> c = CHR ''+''"
    by (cases z) (auto simp: zone_string_def split: prod.split)
  then have "\<not> is_digit c" "c \<noteq> CHR ''.''" by (auto simp: is_digit_iff)
  then show "ts_fraction s = f"
    using assms(7) unfolding ts_fraction_def rest
    by (simp add: fraction_string_def z takeWhile_append list_all_iff)
  then show "ts_zone s = zone_string z"
    unfolding ts_zone_def rest by (simp add: fraction_string_def)
qed

lemma zone_offset_string:
  assumes "case z of None \<Rightarrow> True | Some (_, h, m) \<Rightarrow> h < 100 \<and> m < 100"
  shows "zone_offset (zone_string z) = Inr ofs \<longleftrightarrow> valid_zone z \<and> ofs = zone_seconds z"
proof (cases z)
  case None
  then show ?thesis by (auto simp: zone_offset_def zone_string_def valid_zone_def zone_seconds_def)
next
  case (Some x)
  then obtain neg h m where z: "z = Some (neg, h, m)" by (cases x) auto
  with assms have hm: "h < 10 ^ 2" "m < 10 ^ 2" by simp_all
  have "field 1 2 (zone_string z) = h" "field 4 2 (zone_string z) = m"
    using pad_digit [OF hm(1)] pad_digit [OF hm(2)] by (simp_all add: z zone_string_def field_def)
  moreover have "hd (zone_string z) = (if neg then CHR ''-'' else CHR ''+'')" by (simp add: z zone_string_def)
  ultimately show ?thesis
    by (auto simp: zone_offset_def Let_def valid_zone_def zone_seconds_def z)
qed

definition timestamp_value :: "nat \<Rightarrow> nat \<Rightarrow> nat \<Rightarrow> nat \<Rightarrow> nat \<Rightarrow> nat \<Rightarrow> string \<Rightarrow> zone \<Rightarrow> instant" where
  "timestamp_value y mo d h mi sec f z =
     (epoch_days y mo d * 86400 + int h * 3600 + int mi * 60 + int sec - zone_seconds z) * nanos_per_second
       + int (fraction_nanos f)"

definition timestamp_string :: "nat \<Rightarrow> nat \<Rightarrow> nat \<Rightarrow> nat \<Rightarrow> nat \<Rightarrow> nat \<Rightarrow> string \<Rightarrow> zone \<Rightarrow> string" where
  "timestamp_string y mo d h mi sec f z =
     format_date y mo d @ CHR ''T'' # clock_string h mi sec @ fraction_string f @ zone_string z"

lemma ParseTimestamp_string:
  assumes "y < 10 ^ 4" "mo < 10 ^ 2" "d < 10 ^ 2" "h < 10 ^ 2" "mi < 10 ^ 2" "sec < 10 ^ 2" "list_all is_digit f"
    and z: "case z of None \<Rightarrow> True | Some (_, zh, zm) \<Rightarrow> zh < 100 \<and> zm < 100"
  shows "ParseTimestamp (timestamp_string y mo d h mi sec f z) = Inr t \<longleftrightarrow>
    valid_date y mo d \<and> h < 24 \<and> mi < 60 \<and> sec < 60 \<and> valid_zone z
      \<and> t = timestamp_value y mo d h mi sec f z"
proof -
  have m: "matches timestampPattern (timestamp_string y mo d h mi sec f z)"
    unfolding timestampPattern_iff timestamp_string_def using assms by blast
  note fs = timestamp_fields [OF assms(1-7) timestamp_string_def]
  note zo = zone_offset_string [OF z]
  have head: "ParseTimestamp (timestamp_string y mo d h mi sec f z) = Inr t \<longleftrightarrow>
      (1 \<le> mo \<and> mo \<le> 12 \<and> h < 24 \<and> mi < 60 \<and> sec < 60 \<and>
        (\<exists>ofs. zone_offset (zone_string z) = Inr ofs \<and> 1 \<le> d \<and> d \<le> days_in mo y \<and>
          t = (epoch_days y mo d * 86400 + int h * 3600 + int mi * 60 + int sec - ofs) * nanos_per_second
                + int (fraction_nanos f)))"
    using m by (auto simp: ParseTimestamp_def time_Parse_RFC3339Nano_def Let_def fs not_le not_less
        split: if_splits sum.splits)
  show ?thesis
    unfolding head zo valid_date_def timestamp_value_def by blast
qed

lemma ParseTimestamp_seconds:
  assumes "ParseTimestamp s = Inr t"
  shows "- 719530 * 86400 \<le> Unix t \<and> Unix t \<le> 2932899 * 86400"
proof -
  from assms have "matches timestampPattern s" "time_Parse_RFC3339Nano s = Inr t"
    by (auto simp: ParseTimestamp_def split: if_splits sum.splits)
  then show ?thesis using time_Parse_bounds timestampPattern_year by blast
qed

lemma lang_Seq_assoc: "lang (Seq a (Seq b c)) = lang (Seq (Seq a b) c)"
  unfolding lang.simps(3) by (auto simp del: append_assoc simp flip: append_assoc) (metis append_assoc)+

lemma lang_snoc: "s \<in> lang (Seq r (Lit c)) \<longleftrightarrow> (\<exists>w. s = w @ [c] \<and> w \<in> lang r)"
  by (simp add: in_class_single)

lemma lang_cons: "s \<in> lang (Seq (Lit c) r) \<longleftrightarrow> (\<exists>w. s = c # w \<and> w \<in> lang r)"
  by (cases s) (auto simp: in_class_single)

lemma lang_numeral: "s \<in> lang (Seq D19 (Seq (Star D09) (Lit c))) \<longleftrightarrow>
    (\<exists>w. s = w @ [c] \<and> w \<noteq> [] \<and> is_digit19 (hd w) \<and> list_all is_digit (tl w))"
  unfolding lang_Seq_assoc lang_snoc lang_D19_digits by simp

lemma parse_numeral:
  "(w \<noteq> [] \<and> is_digit19 (hd w) \<and> list_all is_digit (tl w)) \<longleftrightarrow>
    (0 < digits_value w \<and> w = nat_string (digits_value w))"
proof
  assume w: "w \<noteq> [] \<and> is_digit19 (hd w) \<and> list_all is_digit (tl w)"
  then have "list_all is_digit w" by (cases w) (auto simp: digit19_digit)
  with w have "w = nat_string (digits_value w)" by (simp add: nat_string_digits_value)
  moreover have "0 < digits_value w"
    using w by (cases w) (auto simp: digits_value_Cons digit_val_pos)
  ultimately show "0 < digits_value w \<and> w = nat_string (digits_value w)" by simp
next
  assume w: "0 < digits_value w \<and> w = nat_string (digits_value w)"
  with nat_string_hd [of "digits_value w"] nat_string_digits [of "digits_value w"]
  show "w \<noteq> [] \<and> is_digit19 (hd w) \<and> list_all is_digit (tl w)"
    by (cases w) auto
qed

lemma parsePositiveStep_iff:
  assumes "\<And>s. matches pat s \<longleftrightarrow> (\<exists>w. s = pre @ w @ [c] \<and> w \<noteq> [] \<and> is_digit19 (hd w) \<and> list_all is_digit (tl w))"
  shows "parsePositiveStep s pat (length pre) e = Inr n \<longleftrightarrow>
    1 \<le> n \<and> n \<le> max_int64 \<and> s = pre @ nat_string (nat n) @ [c]"
proof
  assume p: "parsePositiveStep s pat (length pre) e = Inr n"
  then have "matches pat s" by (auto simp: parsePositiveStep_def split: if_splits)
  then obtain w where w: "s = pre @ w @ [c]" "0 < digits_value w" "w = nat_string (digits_value w)"
    unfolding assms parse_numeral by blast
  with p have "n = int (digits_value w)" "n \<le> max_int64"
    by (auto simp: parsePositiveStep_def Let_def split: if_splits)
  with w show "1 \<le> n \<and> n \<le> max_int64 \<and> s = pre @ nat_string (nat n) @ [c]" by simp
next
  assume n: "1 \<le> n \<and> n \<le> max_int64 \<and> s = pre @ nat_string (nat n) @ [c]"
  then have "matches pat s"
    unfolding assms parse_numeral by (intro exI [of _ "nat_string (nat n)"]) simp
  with n show "parsePositiveStep s pat (length pre) e = Inr n"
    by (simp add: parsePositiveStep_def Let_def)
qed

lemma ParseDayStep_iff: "ParseDayStep s = Inr n \<longleftrightarrow> 1 \<le> n \<and> n \<le> max_int64 \<and> s = ''P'' @ nat_string (nat n) @ ''D''"
proof -
  have "matches dateStepPattern s \<longleftrightarrow> (\<exists>w. s = ''P'' @ w @ ''D'' \<and> w \<noteq> [] \<and> is_digit19 (hd w) \<and> list_all is_digit (tl w))" for s
    unfolding matches_lang dateStepPattern_def lang_cons lang_numeral by auto
  from parsePositiveStep_iff [OF this] show ?thesis by (simp add: ParseDayStep_def)
qed

lemma ParseSecondStep_iff: "ParseSecondStep s = Inr n \<longleftrightarrow> 1 \<le> n \<and> n \<le> max_int64 \<and> s = ''PT'' @ nat_string (nat n) @ ''S''"
proof -
  have "matches datetimeStepPattern s \<longleftrightarrow> (\<exists>w. s = ''PT'' @ w @ ''S'' \<and> w \<noteq> [] \<and> is_digit19 (hd w) \<and> list_all is_digit (tl w))" for s
    unfolding matches_lang datetimeStepPattern_def lang_cons lang_numeral by auto
  from parsePositiveStep_iff [OF this] show ?thesis by (simp add: ParseSecondStep_def numeral_2_eq_2)
qed

text \<open>
  C38: \<open>ParseTimestamp\<close> accepts exactly the strings spelled out of a valid calendar date, a time of
  day, an optional fraction and a zone of at most 24 hours and 60 minutes, and its value is the
  instant these fields denote.
\<close>

theorem ParseTimestamp_iff_spelled:
  "ParseTimestamp s = Inr t \<longleftrightarrow>
     (\<exists>y mo d h mi sec f z. s = timestamp_string y mo d h mi sec f z \<and> y < 10 ^ 4 \<and> valid_date y mo d
        \<and> h < 24 \<and> mi < 60 \<and> sec < 60 \<and> list_all is_digit f \<and> valid_zone z
        \<and> t = timestamp_value y mo d h mi sec f z)" (is "?l \<longleftrightarrow> ?r")
proof
  assume p: ?l
  then have "matches timestampPattern s" by (auto simp: ParseTimestamp_def split: if_splits)
  then obtain y mo d h mi sec f z where s: "s = timestamp_string y mo d h mi sec f z"
    and b: "y < 10 ^ 4" "mo < 10 ^ 2" "d < 10 ^ 2" "h < 10 ^ 2" "mi < 10 ^ 2" "sec < 10 ^ 2" "list_all is_digit f"
      "case z of None \<Rightarrow> True | Some (_, zh, zm) \<Rightarrow> zh < 100 \<and> zm < 100"
    unfolding timestampPattern_iff timestamp_string_def by blast
  from p b(1,7) show ?r unfolding s ParseTimestamp_string [OF b] by blast
next
  assume ?r
  then obtain y mo d h mi sec f z where s: "s = timestamp_string y mo d h mi sec f z" "y < 10 ^ 4"
    "valid_date y mo d" "h < 24" "mi < 60" "sec < 60" "list_all is_digit f" "valid_zone z"
    "t = timestamp_value y mo d h mi sec f z" by blast
  moreover have "case z of None \<Rightarrow> True | Some (_, zh, zm) \<Rightarrow> zh < 100 \<and> zm < 100"
    using s(8) by (auto simp: valid_zone_def split: option.splits)
  ultimately show ?l
    using valid_date_bounds [OF s(3)] by (simp add: ParseTimestamp_string)
qed

text \<open>
  Day and second steps are exactly the printed forms of the positive 64-bit integers, and
  each such integer round-trips.
\<close>

theorem steps_roundtrip:
  "(ParseDayStep s = Inr n \<longleftrightarrow> 1 \<le> n \<and> n \<le> max_int64 \<and> s = ''P'' @ nat_string (nat n) @ ''D'') \<and>
   (ParseSecondStep s = Inr n \<longleftrightarrow> 1 \<le> n \<and> n \<le> max_int64 \<and> s = ''PT'' @ nat_string (nat n) @ ''S'')"
  by (simp only: ParseDayStep_iff ParseSecondStep_iff)

end
