(* ===== verification/Ledger_Model.thy ===== *)
theory Ledger_Model
  imports Ledger_Prelude
begin

text \<open>
  The data model: \<open>internal/ledger/model.go\<close>, \<open>domain.go\<close>, \<open>question.go\<close>, \<open>forecast.go\<close> and
  \<open>evidence.go\<close>, with the lookups and counts of \<open>helpers.go\<close>.  The named string types of the
  code (identifiers, timestamps, decimals, enumerations) are strings and their constants are
  abbreviations; a pointer is an option, a slice a list.  A union struct (one pointer per
  variant) is a record of options, so a value with no variant or with two is a value of the model
  as it is of the code, and the order of the code's \<open>switch\<close> is kept.  The map of platforms is an
  association list with distinct keys.  Field names carry a prefix of their record.
\<close>

type_synonym slug = string
type_synonym timestamp = string
type_synonym relative_path = string

section \<open>Common records\<close>

record digest =
  dg_Algorithm :: string
  dg_Value :: string

record artifact_snapshot =
  as_ArtifactPath :: relative_path
  as_MediaType :: string
  as_Digest :: digest

record importer =
  im_Name :: string
  im_Version :: string

record provenance =
  pv_Platform :: slug
  pv_RemoteObjectID :: string
  pv_RemoteObjectVersion :: "string option"
  pv_URL :: "string option"
  pv_SourceCreatedAt :: "timestamp option"
  pv_SourceUpdatedAt :: "timestamp option"
  pv_RetrievedAt :: timestamp
  pv_Snapshot :: "artifact_snapshot option"
  pv_Importer :: "importer option"

record scalar_value =
  sv_Boolean :: "bool option"
  sv_String :: "string option"

section \<open>Forecaster, publication and platforms\<close>

record publication =
  pb_History :: string
  pb_RepositoryURL :: string
  pb_DefaultBranch :: string
  pb_LedgerPath :: relative_path

record contact =
  co_Email :: "string option"
  co_Website :: "string option"

record profile =
  pr_Service :: string
  pr_Username :: "string option"
  pr_URL :: string

record member =
  mb_ID :: slug
  mb_Name :: string
  mb_Role :: "string option"
  mb_Profiles :: "profile list option"

abbreviation "ForecasterIndividual \<equiv> ''individual''"
abbreviation "ForecasterTeam \<equiv> ''team''"

record forecaster =
  fc_ID :: slug
  fc_Kind :: string
  fc_Name :: string
  fc_Contact :: "contact option"
  fc_Profiles :: "profile list option"
  fc_Members :: "member list option"

record platform_account =
  pa_Username :: "string option"
  pa_UserID :: "string option"
  pa_ProfileURL :: "string option"

record platform =
  pl_Name :: string
  pl_Kind :: string
  pl_URL :: "string option"
  pl_Account :: "platform_account option"

section \<open>Outcome spaces and domains\<close>

type_synonym outcome_kind = string

abbreviation "OutcomeBinary \<equiv> ''binary''"
abbreviation "OutcomeCategorical \<equiv> ''categorical''"
abbreviation "OutcomeOrdinal \<equiv> ''ordinal''"
abbreviation "OutcomeNumeric \<equiv> ''numeric''"
abbreviation "OutcomeDate \<equiv> ''date''"
abbreviation "OutcomeDatetime \<equiv> ''datetime''"

record option_entry =
  op_ID :: slug
  op_Label :: string
  op_Description :: "string option"

record option_set =
  os_ID :: slug
  os_Version :: int
  os_Options :: "option_entry list"

record set_ref =
  rf_ID :: slug
  rf_Version :: int

record unit_spec =
  un_Name :: string
  un_Symbol :: "string option"
  un_UCUMCode :: "string option"

record bound =
  bd_Value :: string
  bd_Inclusive :: bool

record bounds =
  bs_Lower :: "bound option"
  bs_Upper :: "bound option"

record bin =
  bi_ID :: slug
  bi_Label :: "string option"
  bi_Lower :: string
  bi_Upper :: string
  bi_LowerInclusive :: bool
  bi_UpperInclusive :: bool

record bin_set =
  bt_ID :: slug
  bt_Version :: int
  bt_Bins :: "bin list"

abbreviation "ValuesContinuous \<equiv> ''continuous''"
abbreviation "ValuesStep \<equiv> ''step''"
abbreviation "ValuesAllowed \<equiv> ''allowed_values''"

record continuous_values =
  cv_Kind :: string

record step_values =
  st_Kind :: string
  st_Step :: string
  st_Origin :: "string option"

record allowed_values =
  av_Kind :: string
  av_Values :: "string list"

record values_policy =
  vp_Continuous :: "continuous_values option"
  vp_Step :: "step_values option"
  vp_Allowed :: "allowed_values option"

record binary_domain =
  bn_Kind :: outcome_kind

record option_domain =
  od_Kind :: outcome_kind
  od_OptionSet :: option_set

text \<open>Date and datetime domains have the same fields; a numeric domain adds two.\<close>

record scalar_domain =
  sd_Kind :: outcome_kind
  sd_Bounds :: "bounds option"
  sd_Values :: values_policy
  sd_BinSets :: "bin_set list option"

record numeric_domain = scalar_domain +
  nd_ElicitationScale :: "string option"
  nd_Unit :: "unit_spec option"

record domain =
  dm_Binary :: "binary_domain option"
  dm_Categorical :: "option_domain option"
  dm_Ordinal :: "option_domain option"
  dm_Numeric :: "numeric_domain option"
  dm_Date :: "scalar_domain option"
  dm_Datetime :: "scalar_domain option"

record outcome_space =
  oc_Kind :: outcome_kind

record question_revision =
  qr_ID :: slug
  qr_EffectiveAt :: timestamp
  qr_RecordedAt :: timestamp
  qr_Title :: string
  qr_ResolutionCriteria :: string
  qr_ForecastingOpensAt :: "timestamp option"
  qr_ExpectedResolutionAt :: timestamp
  qr_OutcomeSpace :: outcome_space
  qr_Domain :: domain
  qr_Provenance :: "provenance option"

section \<open>Forecast representations\<close>

type_synonym representation_kind = string

abbreviation "RepresentationProbability \<equiv> ''probability''"
abbreviation "RepresentationPMF \<equiv> ''pmf''"
abbreviation "RepresentationBinnedPMF \<equiv> ''binned_pmf''"
abbreviation "RepresentationQuantiles \<equiv> ''quantiles''"
abbreviation "RepresentationCDF \<equiv> ''cdf''"
abbreviation "RepresentationPoint \<equiv> ''point''"
abbreviation "RepresentationCredibleIntervals \<equiv> ''credible_intervals''"

record probability_representation =
  rp_Kind :: representation_kind
  rp_Outcome :: bool
  rp_Probability :: string

record pmf_entry =
  pe_OptionID :: slug
  pe_Probability :: string

record pmf_representation =
  pm_Kind :: representation_kind
  pm_OptionSetRef :: set_ref
  pm_Entries :: "pmf_entry list"

record binned_pmf_entry =
  be_BinID :: slug
  be_Probability :: string

record binned_pmf_representation =
  bp_Kind :: representation_kind
  bp_BinSetRef :: set_ref
  bp_Entries :: "binned_pmf_entry list"
  bp_LeftTailProbability :: string
  bp_RightTailProbability :: string

record quantile_point =
  qp_Level :: string
  qp_Value :: scalar_value

record quantiles_representation =
  qn_Kind :: representation_kind
  qn_Interpolation :: string
  qn_Points :: "quantile_point list"

record cdf_point =
  cp_Value :: scalar_value
  cp_Probability :: string

record cdf_representation =
  cd_Kind :: representation_kind
  cd_Interpolation :: string
  cd_Points :: "cdf_point list"
  cd_LeftTailProbability :: string
  cd_RightTailProbability :: string

record point_representation =
  pt_Kind :: representation_kind
  pt_Statistic :: string
  pt_Value :: scalar_value

record credible_interval =
  ci_Coverage :: string
  ci_IntervalKind :: string
  ci_Lower :: scalar_value
  ci_Upper :: scalar_value

record credible_intervals_representation =
  cr_Kind :: representation_kind
  cr_Intervals :: "credible_interval list"

record forecast_representation =
  fr_Probability :: "probability_representation option"
  fr_PMF :: "pmf_representation option"
  fr_BinnedPMF :: "binned_pmf_representation option"
  fr_Quantiles :: "quantiles_representation option"
  fr_CDF :: "cdf_representation option"
  fr_Point :: "point_representation option"
  fr_CredibleIntervals :: "credible_intervals_representation option"

section \<open>Evidence and commitments\<close>

abbreviation "RFC3161Pending \<equiv> ''pending''"
abbreviation "RFC3161Verified \<equiv> ''verified''"
abbreviation "IntegrityUnanchored \<equiv> ''unanchored''"
abbreviation "IntegrityRetained \<equiv> ''retained''"
abbreviation "IntegrityPending \<equiv> ''pending''"
abbreviation "IntegrityVerified \<equiv> ''verified''"
abbreviation "IntegrityFailed \<equiv> ''failed''"

text \<open>\<open>ForecastTarget\<close> and \<open>LifecycleTarget\<close> have the same fields.\<close>

record target =
  tg_Scope :: string
  tg_Canonicalization :: string
  tg_ArtifactPath :: relative_path
  tg_Digest :: digest

record rfc3161_timestamp =
  ts_Type :: string
  ts_RequestPath :: relative_path
  ts_ResponsePath :: relative_path
  ts_TSAURL :: string
  ts_HashAlgorithm :: string
  ts_State :: string
  ts_GenTime :: "timestamp option"
  ts_PolicyOID :: "string option"
  ts_SerialNumber :: "string option"
  ts_CABundlePath :: "relative_path option"

record external_anchor =
  ea_Kind :: string
  ea_Value :: string
  ea_ObservedAt :: "timestamp option"

record unanchored_integrity =
  ui_Status :: string
  ui_Note :: "string option"

record retained_integrity =
  ri_Status :: string
  ri_Target :: target

record pending_integrity =
  pi_Status :: string
  pi_Target :: target
  pi_Timestamps :: "rfc3161_timestamp list"
  pi_ExternalAnchors :: "external_anchor list option"

record verified_integrity =
  vi_Status :: string
  vi_Target :: target
  vi_Timestamps :: "rfc3161_timestamp list"
  vi_VerifiedAt :: timestamp
  vi_ExternalAnchors :: "external_anchor list option"

record failed_integrity =
  fi_Status :: string
  fi_FailureReason :: string
  fi_Target :: "target option"
  fi_Timestamps :: "rfc3161_timestamp list option"

text \<open>The variants of \<open>LifecycleIntegrity\<close> have the fields of those of \<open>Integrity\<close>.\<close>

record lifecycle_integrity =
  li_Retained :: "retained_integrity option"
  li_Pending :: "pending_integrity option"
  li_Verified :: "verified_integrity option"
  li_Failed :: "failed_integrity option"

record integrity =
  in_Unanchored :: "unanchored_integrity option"
  in_Retained :: "retained_integrity option"
  in_Pending :: "pending_integrity option"
  in_Verified :: "verified_integrity option"
  in_Failed :: "failed_integrity option"

record encryption =
  en_Algorithm :: string
  en_Nonce :: string
  en_Ciphertext :: string

record sealed_commitment =
  sc_Scheme :: string
  sc_CommitmentHash :: digest
  sc_Encryption :: encryption
  sc_KeyHint :: string

record revealed_commitment = sealed_commitment +
  rc_RevealedAt :: timestamp
  rc_RevealedKey :: string

record commitment =
  cm_Sealed :: "sealed_commitment option"
  cm_Revealed :: "revealed_commitment option"

section \<open>Forecasts\<close>

abbreviation "VisibilityPublic \<equiv> ''public''"
abbreviation "VisibilitySealed \<equiv> ''sealed''"
abbreviation "VisibilityRevealed \<equiv> ''revealed''"
abbreviation "LifecycleWithdrawn \<equiv> ''withdrawn''"
abbreviation "LifecycleExpired \<equiv> ''expired''"
abbreviation "LifecycleReaffirmed \<equiv> ''reaffirmed''"

record lifecycle_event =
  le_ID :: slug
  le_Type :: string
  le_EffectiveAt :: timestamp
  le_RecordedAt :: timestamp
  le_Reason :: "string option"
  le_Provenance :: "provenance option"

record activity_checkpoint =
  ac_ID :: slug
  ac_HeadEventID :: slug
  ac_RecordedAt :: timestamp
  ac_Integrity :: lifecycle_integrity

record forecast =
  fo_ID :: slug
  fo_QuestionRevisionID :: slug
  fo_ForecastedAt :: timestamp
  fo_RecordedAt :: timestamp
  fo_Visibility :: string
  fo_Representations :: "forecast_representation list option"
  fo_Rationale :: "string option"
  fo_KeyFactors :: "string list option"
  fo_Comment :: "string option"
  fo_PublicNote :: "string option"
  fo_SupersedesForecastID :: "slug option"
  fo_Provenance :: "provenance option"
  fo_LifecycleEvents :: "lifecycle_event list option"
  fo_ActivityCheckpoints :: "activity_checkpoint list option"
  fo_Commitment :: "commitment option"
  fo_Integrity :: integrity

section \<open>Questions, relationships and the ledger\<close>

abbreviation "QuestionOpen \<equiv> ''open''"
abbreviation "QuestionClosed \<equiv> ''closed''"
abbreviation "QuestionAwaitingResolution \<equiv> ''awaiting_resolution''"
abbreviation "QuestionResolved \<equiv> ''resolved''"
abbreviation "QuestionAmbiguous \<equiv> ''ambiguous''"
abbreviation "QuestionVoid \<equiv> ''void''"
abbreviation "QuestionDisputed \<equiv> ''disputed''"
abbreviation "QuestionNotApplicable \<equiv> ''not_applicable''"

record resolution_source =
  rs_Title :: string
  rs_Publisher :: "string option"
  rs_URL :: string
  rs_PublishedAt :: "timestamp option"
  rs_RetrievedAt :: timestamp
  rs_ContentDigest :: "digest option"

record resolved_resolution =
  rr_Status :: string
  rr_QuestionRevisionID :: slug
  rr_Outcome :: scalar_value
  rr_OutcomeKnownAt :: timestamp
  rr_RecordedAt :: timestamp
  rr_Sources :: "resolution_source list"
  rr_Notes :: "string option"

record unresolved_resolution =
  ur_Status :: string
  ur_Reason :: string
  ur_RecordedAt :: timestamp
  ur_Sources :: "resolution_source list option"

record not_applicable_resolution =
  na_Status :: string
  na_RelationshipID :: slug
  na_Reason :: string
  na_RecordedAt :: timestamp

record resolution =
  rn_Resolved :: "resolved_resolution option"
  rn_Unresolved :: "unresolved_resolution option"
  rn_NotApplicable :: "not_applicable_resolution option"

record question =
  qu_ID :: slug
  qu_Status :: string
  qu_CreatedAt :: timestamp
  qu_CurrentRevisionID :: slug
  qu_Revisions :: "question_revision list"
  qu_Tags :: "slug list option"
  qu_Notes :: "string option"
  qu_Forecasts :: "forecast list"
  qu_Resolution :: "resolution option"

record group =
  gr_ID :: slug
  gr_Title :: string
  gr_Description :: "string option"

abbreviation "RelationshipGroupMembership \<equiv> ''group_membership''"
abbreviation "RelationshipConditional \<equiv> ''conditional''"

record group_membership =
  gm_ID :: slug
  gm_Kind :: string
  gm_GroupID :: slug
  gm_QuestionID :: slug

record conditional_relationship =
  cl_ID :: slug
  cl_Kind :: string
  cl_ParentQuestionID :: slug
  cl_ParentQuestionRevisionID :: slug
  cl_ParentOutcome :: scalar_value
  cl_ChildQuestionID :: slug

record relationship =
  rl_GroupMembership :: "group_membership option"
  rl_Conditional :: "conditional_relationship option"

record ledger =
  lg_Schema :: "string option"
  lg_SchemaVersion :: string
  lg_LedgerID :: slug
  lg_Title :: "string option"
  lg_Description :: "string option"
  lg_CreatedAt :: timestamp
  lg_DefaultTimezone :: string
  lg_Forecaster :: forecaster
  lg_Publication :: "publication option"
  lg_Platforms :: "(slug \<times> platform) list"
  lg_Groups :: "group list option"
  lg_Relationships :: "relationship list option"
  lg_Questions :: "question list"

end
