(* ===== verification/Domain_Semantics.thy ===== *)
theory Domain_Semantics
  imports Go_Time Ledger_Model
begin

text \<open>
  \<open>internal/ledger/domain_semantics.go\<close> and the variant selectors of \<open>helpers.go\<close>: parsing and
  comparing the scalars of an outcome space, membership of a scalar in a domain, and the
  validation of a domain's bounds and values policy.  A check of the code that returns a flag and
  a reason returns the same pair here.  The lemmas relate membership to the set a domain
  denotes (\<open>domain_member\<close>) and show that a validated list of allowed values is strictly
  increasing and inside the domain.
\<close>

section \<open>Variant selectors\<close>

definition Domain_Kind :: "domain \<Rightarrow> outcome_kind option" where
  "Domain_Kind d =
     (if dm_Binary d \<noteq> None then Some OutcomeBinary
      else if dm_Categorical d \<noteq> None then Some OutcomeCategorical
      else if dm_Ordinal d \<noteq> None then Some OutcomeOrdinal
      else if dm_Numeric d \<noteq> None then Some OutcomeNumeric
      else if dm_Date d \<noteq> None then Some OutcomeDate
      else if dm_Datetime d \<noteq> None then Some OutcomeDatetime
      else None)"

definition Representation_Kind :: "forecast_representation \<Rightarrow> representation_kind option" where
  "Representation_Kind r =
     (if fr_Probability r \<noteq> None then Some RepresentationProbability
      else if fr_PMF r \<noteq> None then Some RepresentationPMF
      else if fr_BinnedPMF r \<noteq> None then Some RepresentationBinnedPMF
      else if fr_Quantiles r \<noteq> None then Some RepresentationQuantiles
      else if fr_CDF r \<noteq> None then Some RepresentationCDF
      else if fr_Point r \<noteq> None then Some RepresentationPoint
      else if fr_CredibleIntervals r \<noteq> None then Some RepresentationCredibleIntervals
      else None)"

section \<open>Scalars\<close>

record parsed_scalar =
  ps_kind :: outcome_kind
  ps_boolean :: bool
  ps_text :: string
  ps_decimal :: decimal
  ps_instant :: instant

definition empty_scalar :: "outcome_kind \<Rightarrow> parsed_scalar" where
  "empty_scalar kind = \<lparr>ps_kind = kind, ps_boolean = False, ps_text = [],
     ps_decimal = \<lparr>coefficient = 0, scale = 0\<rparr>, ps_instant = zero_time\<rparr>"

definition parseTextScalar :: "outcome_kind \<Rightarrow> string \<Rightarrow> string + parsed_scalar" where
  "parseTextScalar kind value =
     (let result = (empty_scalar kind)\<lparr>ps_text := value\<rparr> in
      if kind = OutcomeCategorical \<or> kind = OutcomeOrdinal then
        (if value = [] then Inl ''must be a non-empty option ID'' else Inr result)
      else if kind = OutcomeNumeric then
        (case ParseDecimal value of
           Inl _ \<Rightarrow> Inl ''must be a canonical decimal string''
         | Inr d \<Rightarrow> Inr (result\<lparr>ps_decimal := d\<rparr>))
      else if kind = OutcomeDate then
        bindR (ParseDate value) (\<lambda>t. Inr (result\<lparr>ps_instant := t\<rparr>))
      else if kind = OutcomeDatetime then
        bindR (ParseTimestamp value) (\<lambda>t. Inr (result\<lparr>ps_instant := t\<rparr>))
      else Inl (''unsupported text scalar kind '' @ go_quote kind))"

definition parseScalarValue :: "scalar_value \<Rightarrow> outcome_kind \<Rightarrow> string + parsed_scalar" where
  "parseScalarValue value kind =
     (if kind = OutcomeBinary then
        (case (sv_Boolean value, sv_String value) of
           (Some b, None) \<Rightarrow> Inr ((empty_scalar kind)\<lparr>ps_boolean := b\<rparr>)
         | _ \<Rightarrow> Inl ''must be a boolean'')
      else
        (case (sv_String value, sv_Boolean value) of
           (Some s, None) \<Rightarrow> parseTextScalar kind s
         | _ \<Rightarrow> Inl ''must be a string''))"

definition compareParsed :: "parsed_scalar \<Rightarrow> parsed_scalar \<Rightarrow> int" where
  "compareParsed left right =
     (if ps_kind left = OutcomeNumeric then Cmp (ps_decimal left) (ps_decimal right)
      else if ps_kind left = OutcomeDate \<or> ps_kind left = OutcomeDatetime
        then cmp3 (ps_instant left) (ps_instant right)
      else cmp3 (ps_text left) (ps_text right))"

definition CompareScalarStrings :: "outcome_kind \<Rightarrow> string \<Rightarrow> string \<Rightarrow> string + int" where
  "CompareScalarStrings kind left right =
     bindR (parseTextScalar kind left) (\<lambda>l.
     bindR (parseTextScalar kind right) (\<lambda>r. Inr (compareParsed l r)))"

definition CompareScalars :: "outcome_kind \<Rightarrow> scalar_value \<Rightarrow> scalar_value \<Rightarrow> string + int" where
  "CompareScalars kind left right =
     bindR (parseScalarValue left kind) (\<lambda>l.
     bindR (parseScalarValue right kind) (\<lambda>r. Inr (compareParsed l r)))"

section \<open>Membership\<close>

fun optionMember_in :: "string \<Rightarrow> option_entry list \<Rightarrow> bool" where
  "optionMember_in value [] = False"
| "optionMember_in value (o' # os) = (if op_ID o' = value then True else optionMember_in value os)"

definition optionMember :: "string \<Rightarrow> option_set \<Rightarrow> bool" where
  "optionMember value options = optionMember_in value (os_Options options)"

definition checkBounds :: "parsed_scalar \<Rightarrow> bounds option \<Rightarrow> bool \<times> string" where
  "checkBounds value bounds =
     (case bounds of
        None \<Rightarrow> (True, [])
      | Some b \<Rightarrow>
          let upper_check =
            (case bs_Upper b of
               None \<Rightarrow> (True, [])
             | Some u \<Rightarrow>
                 (case parseTextScalar (ps_kind value) (bd_Value u) of
                    Inl e \<Rightarrow> (False, ''invalid upper bound: '' @ e)
                  | Inr upper \<Rightarrow>
                      let c = compareParsed value upper in
                      if c > 0 \<or> (c = 0 \<and> \<not> bd_Inclusive u)
                      then (False, ''is above the domain upper bound'') else (True, [])))
          in case bs_Lower b of
               None \<Rightarrow> upper_check
             | Some l \<Rightarrow>
                 (case parseTextScalar (ps_kind value) (bd_Value l) of
                    Inl e \<Rightarrow> (False, ''invalid lower bound: '' @ e)
                  | Inr lower \<Rightarrow>
                      let c = compareParsed value lower in
                      if c < 0 \<or> (c = 0 \<and> \<not> bd_Inclusive l)
                      then (False, ''is below the domain lower bound'') else upper_check))"

definition numericInDomain :: "parsed_scalar \<Rightarrow> numeric_domain \<Rightarrow> bool \<times> string" where
  "numericInDomain value domain =
     (case checkBounds value (sd_Bounds domain) of
        (False, reason) \<Rightarrow> (False, reason)
      | (True, _) \<Rightarrow>
        let policy = sd_Values domain in
        if vp_Continuous policy \<noteq> None then (True, [])
        else case vp_Allowed policy of
          Some a \<Rightarrow> if ps_text value \<in> set (av_Values a) then (True, [])
                    else (False, ''is not in domain.values.allowed_values'')
        | None \<Rightarrow>
        case vp_Step policy of
          None \<Rightarrow> (False, ''domain values policy has no variant'')
        | Some s \<Rightarrow>
            (case ParseDecimal (st_Step s) of
               Inl _ \<Rightarrow> (False, ''domain step must be positive'')
             | Inr step \<Rightarrow>
                 if Sign step \<le> 0 then (False, ''domain step must be positive'')
                 else
                   (case (case st_Origin s of None \<Rightarrow> Inr Zero | Some o' \<Rightarrow> ParseDecimal o') of
                      Inl _ \<Rightarrow> (False, ''domain step origin must be a canonical decimal'')
                    | Inr origin \<Rightarrow>
                        if \<not> Aligns (ps_decimal value) origin step
                        then (False, ''does not align with the domain step'') else (True, []))))"

definition dateInDomain :: "parsed_scalar \<Rightarrow> scalar_domain \<Rightarrow> bool \<times> string" where
  "dateInDomain value domain =
     (case checkBounds value (sd_Bounds domain) of
        (False, reason) \<Rightarrow> (False, reason)
      | (True, _) \<Rightarrow>
        let policy = sd_Values domain in
        if vp_Continuous policy \<noteq> None then (True, [])
        else case vp_Allowed policy of
          Some a \<Rightarrow> if ps_text value \<in> set (av_Values a) then (True, [])
                    else (False, ''is not in domain.values.allowed_values'')
        | None \<Rightarrow>
        case vp_Step policy of
          None \<Rightarrow> (False, ''domain values policy has no variant'')
        | Some s \<Rightarrow>
            (case ParseDayStep (st_Step s) of
               Inl e \<Rightarrow> (False, e)
             | Inr step \<Rightarrow>
                 (case (case st_Origin s of None \<Rightarrow> Inr 0 | Some o' \<Rightarrow> ParseDate o') of
                    Inl e \<Rightarrow> (False, e)
                  | Inr origin \<Rightarrow>
                      let elapsedDays = (Unix (ps_instant value) - Unix origin) sdiv 86400 in
                      if elapsedDays smod step \<noteq> 0
                      then (False, ''does not align with the domain step'') else (True, []))))"

definition datetimeInDomain :: "parsed_scalar \<Rightarrow> scalar_domain \<Rightarrow> bool \<times> string" where
  "datetimeInDomain value domain =
     (case checkBounds value (sd_Bounds domain) of
        (False, reason) \<Rightarrow> (False, reason)
      | (True, _) \<Rightarrow>
        let policy = sd_Values domain in
        if vp_Continuous policy \<noteq> None then (True, [])
        else case vp_Allowed policy of
          Some a \<Rightarrow> if ps_text value \<in> set (av_Values a) then (True, [])
                    else (False, ''is not in domain.values.allowed_values'')
        | None \<Rightarrow>
        case vp_Step policy of
          None \<Rightarrow> (False, ''domain values policy has no variant'')
        | Some s \<Rightarrow>
            (case ParseSecondStep (st_Step s) of
               Inl e \<Rightarrow> (False, e)
             | Inr step \<Rightarrow>
                 (case (case st_Origin s of None \<Rightarrow> Inr 0 | Some o' \<Rightarrow> ParseTimestamp o') of
                    Inl e \<Rightarrow> (False, e)
                  | Inr origin \<Rightarrow>
                      if \<not> instantAligns (ps_instant value) origin step
                      then (False, ''does not align with the domain step'') else (True, []))))"

definition ScalarInDomain :: "scalar_value \<Rightarrow> domain \<Rightarrow> bool \<times> string" where
  "ScalarInDomain value domain =
     (case Domain_Kind domain of
        None \<Rightarrow> (False, ''domain has no variant'')
      | Some kind \<Rightarrow>
        (case parseScalarValue value kind of
           Inl e \<Rightarrow> (False, e)
         | Inr parsed \<Rightarrow>
             if kind = OutcomeBinary then (True, [])
             else if kind = OutcomeCategorical then
               (optionMember (ps_text parsed) (od_OptionSet (the (dm_Categorical domain))),
                ''must reference an option in the bound option set'')
             else if kind = OutcomeOrdinal then
               (optionMember (ps_text parsed) (od_OptionSet (the (dm_Ordinal domain))),
                ''must reference an option in the bound option set'')
             else if kind = OutcomeNumeric then numericInDomain parsed (the (dm_Numeric domain))
             else if kind = OutcomeDate then dateInDomain parsed (the (dm_Date domain))
             else if kind = OutcomeDatetime then datetimeInDomain parsed (the (dm_Datetime domain))
             else (False, ''unsupported domain kind'')))"

section \<open>Validation of a domain\<close>

definition validateBounds :: "outcome_kind \<Rightarrow> bounds option \<Rightarrow> string + unit" where
  "validateBounds kind bounds =
     (case bounds of
        None \<Rightarrow> Inr ()
      | Some b \<Rightarrow>
        (case (bs_Lower b, bs_Upper b) of
           (Some l, Some u) \<Rightarrow>
             (case parseTextScalar kind (bd_Value l) of
                Inl e \<Rightarrow> Inl (''invalid lower bound: '' @ e)
              | Inr lower \<Rightarrow>
                (case parseTextScalar kind (bd_Value u) of
                   Inl e \<Rightarrow> Inl (''invalid upper bound: '' @ e)
                 | Inr upper \<Rightarrow>
                     let c = compareParsed lower upper in
                     if c > 0 \<or> (c = 0 \<and> \<not> (bd_Inclusive l \<and> bd_Inclusive u))
                     then Inl ''bounds describe an empty domain'' else Inr ()))
         | _ \<Rightarrow> Inr ()))"

fun validateAllowed_from ::
  "outcome_kind \<Rightarrow> (string \<Rightarrow> bool \<times> string) \<Rightarrow> parsed_scalar option \<Rightarrow> string list \<Rightarrow> string + unit" where
  "validateAllowed_from kind membership previous [] = Inr ()"
| "validateAllowed_from kind membership previous (value # values) =
     bindR (parseTextScalar kind value) (\<lambda>parsed.
       if (case previous of None \<Rightarrow> False | Some p \<Rightarrow> compareParsed p parsed \<ge> 0)
       then Inl ''allowed values must be unique and sorted''
       else case membership value of
              (False, reason) \<Rightarrow> Inl reason
            | (True, _) \<Rightarrow> validateAllowed_from kind membership (Some parsed) values)"

definition validateAllowed :: "outcome_kind \<Rightarrow> string list \<Rightarrow> (string \<Rightarrow> bool \<times> string) \<Rightarrow> string + unit" where
  "validateAllowed kind values membership = validateAllowed_from kind membership None values"

text \<open>The membership closure the three policy checks pass to \<open>validateAllowed\<close>.\<close>

definition bounds_membership :: "outcome_kind \<Rightarrow> bounds option \<Rightarrow> string \<Rightarrow> bool \<times> string" where
  "bounds_membership kind bounds value =
     (case parseTextScalar kind value of
        Inl e \<Rightarrow> (False, e)
      | Inr parsed \<Rightarrow> checkBounds parsed bounds)"

definition validateNumericPolicy :: "values_policy \<Rightarrow> bounds option \<Rightarrow> string + unit" where
  "validateNumericPolicy policy bounds =
     (if vp_Continuous policy \<noteq> None then Inr ()
      else case vp_Step policy of
        Some s \<Rightarrow>
          (case ParseDecimal (st_Step s) of
             Inl _ \<Rightarrow> Inl ''numeric step must be a positive canonical decimal''
           | Inr step \<Rightarrow>
               if Sign step \<le> 0 then Inl ''numeric step must be a positive canonical decimal''
               else (case st_Origin s of
                       None \<Rightarrow> Inr ()
                     | Some o' \<Rightarrow> bindR (ParseDecimal o') (\<lambda>_. Inr ())))
      | None \<Rightarrow>
        (case vp_Allowed policy of
           Some a \<Rightarrow> validateAllowed OutcomeNumeric (av_Values a) (bounds_membership OutcomeNumeric bounds)
         | None \<Rightarrow> Inl ''numeric values policy has no variant''))"

definition validateDatePolicy :: "values_policy \<Rightarrow> bounds option \<Rightarrow> string + unit" where
  "validateDatePolicy policy bounds =
     (if vp_Continuous policy \<noteq> None then Inr ()
      else case vp_Step policy of
        Some s \<Rightarrow>
          bindR (ParseDayStep (st_Step s)) (\<lambda>_.
            case st_Origin s of None \<Rightarrow> Inr () | Some o' \<Rightarrow> bindR (ParseDate o') (\<lambda>_. Inr ()))
      | None \<Rightarrow>
        (case vp_Allowed policy of
           Some a \<Rightarrow> validateAllowed OutcomeDate (av_Values a) (bounds_membership OutcomeDate bounds)
         | None \<Rightarrow> Inl ''date values policy has no variant''))"

definition validateDatetimePolicy :: "values_policy \<Rightarrow> bounds option \<Rightarrow> string + unit" where
  "validateDatetimePolicy policy bounds =
     (if vp_Continuous policy \<noteq> None then Inr ()
      else case vp_Step policy of
        Some s \<Rightarrow>
          bindR (ParseSecondStep (st_Step s)) (\<lambda>_.
            case st_Origin s of None \<Rightarrow> Inr () | Some o' \<Rightarrow> bindR (ParseTimestamp o') (\<lambda>_. Inr ()))
      | None \<Rightarrow>
        (case vp_Allowed policy of
           Some a \<Rightarrow> validateAllowed OutcomeDatetime (av_Values a) (bounds_membership OutcomeDatetime bounds)
         | None \<Rightarrow> Inl ''datetime values policy has no variant''))"

definition ValidateDomainScalars :: "domain \<Rightarrow> string + unit" where
  "ValidateDomainScalars domain =
     (case Domain_Kind domain of
        None \<Rightarrow> Inl ''domain has no variant''
      | Some kind \<Rightarrow>
          if kind = OutcomeBinary \<or> kind = OutcomeCategorical \<or> kind = OutcomeOrdinal then Inr ()
          else if kind = OutcomeNumeric then
            (let d = the (dm_Numeric domain) in
             bindR (validateBounds kind (sd_Bounds d)) (\<lambda>_. validateNumericPolicy (sd_Values d) (sd_Bounds d)))
          else if kind = OutcomeDate then
            (let d = the (dm_Date domain) in
             bindR (validateBounds kind (sd_Bounds d)) (\<lambda>_. validateDatePolicy (sd_Values d) (sd_Bounds d)))
          else if kind = OutcomeDatetime then
            (let d = the (dm_Datetime domain) in
             bindR (validateBounds kind (sd_Bounds d)) (\<lambda>_. validateDatetimePolicy (sd_Values d) (sd_Bounds d)))
          else Inl (''unsupported domain kind '' @ go_quote kind))"

section \<open>Three-way comparison\<close>

text \<open>
  The contract of a comparison: on the values it accepts it is a total preorder.  A scan that
  checks each neighbouring pair then orders the whole list.
\<close>

locale three_way =
  fixes ok :: "'a \<Rightarrow> bool" and cmp :: "'a \<Rightarrow> 'a \<Rightarrow> int"
  assumes swap: "ok x \<Longrightarrow> ok y \<Longrightarrow> cmp y x = - cmp x y"
    and le_trans: "ok x \<Longrightarrow> ok y \<Longrightarrow> ok z \<Longrightarrow> cmp x y \<le> 0 \<Longrightarrow> cmp y z \<le> 0 \<Longrightarrow> cmp x z \<le> 0"
begin

lemma refl: "ok x \<Longrightarrow> cmp x x = 0"
  using swap [of x x] by simp

lemma less_trans: "ok x \<Longrightarrow> ok y \<Longrightarrow> ok z \<Longrightarrow> cmp x y < 0 \<Longrightarrow> cmp y z < 0 \<Longrightarrow> cmp x z < 0"
  using le_trans [of x y z] le_trans [of y z x] swap [of x z] swap [of x y] swap [of y z] by force

lemma neighbours_sorted:
  assumes "list_all ok xs" "\<And>i. Suc i < length xs \<Longrightarrow> cmp (xs ! i) (xs ! Suc i) < 0"
  shows "i < j \<Longrightarrow> j < length xs \<Longrightarrow> cmp (xs ! i) (xs ! j) < 0"
proof (induction j)
  case 0
  then show ?case by simp
next
  case (Suc j)
  from assms(1) Suc.prems have o: "ok (xs ! i)" "ok (xs ! j)" "ok (xs ! Suc j)"
    by (simp_all add: list_all_length)
  show ?case
  proof (cases "i = j")
    case True
    with assms(2) Suc.prems show ?thesis by simp
  next
    case False
    with Suc have "cmp (xs ! i) (xs ! j) < 0" by simp
    with less_trans [OF o] assms(2) [of j] Suc.prems show ?thesis by simp
  qed
qed

lemma neighbours_distinct:
  assumes "list_all ok xs" "\<And>i. Suc i < length xs \<Longrightarrow> cmp (xs ! i) (xs ! Suc i) < 0"
  shows "distinct xs"
proof -
  have "xs ! i \<noteq> xs ! j" if "i < j" "j < length xs" for i j
    using neighbours_sorted [OF assms that] refl [of "xs ! i"] assms(1) that
    by (auto simp: list_all_length)
  then show ?thesis by (metis distinct_conv_nth linorder_neqE_nat)
qed

end

lemma cmp3_key_contract:
  fixes f :: "'a \<Rightarrow> 'k::linorder"
  shows "three_way (\<lambda>_. True) (\<lambda>x y. cmp3 (f x) (f y))"
proof
  show "cmp3 (f y) (f x) = - cmp3 (f x) (f y)" for x y by (rule cmp3_swap)
qed simp

interpretation decimal_cmp: three_way "\<lambda>_. True" Cmp
  using cmp3_key_contract [of dec_val] by (simp add: Cmp_val [abs_def])

text \<open>Scalars of one kind are compared by a linear order on what they denote.\<close>

lemma compareParsed_cases:
  obtains "\<And>p q. ps_kind p = k \<Longrightarrow> compareParsed p q = cmp3 (dec_val (ps_decimal p)) (dec_val (ps_decimal q))"
  | "\<And>p q. ps_kind p = k \<Longrightarrow> compareParsed p q = cmp3 (ps_instant p) (ps_instant q)"
  | "\<And>p q. ps_kind p = k \<Longrightarrow> compareParsed p q = cmp3 (ps_text p) (ps_text q)"
proof (cases "k = OutcomeNumeric")
  case True
  with that(1) show thesis by (simp add: compareParsed_def Cmp_val)
next
  case False
  with that(2,3) show thesis by (cases "k = OutcomeDate \<or> k = OutcomeDatetime") (auto simp: compareParsed_def)
qed

interpretation scalar_cmp: three_way "\<lambda>p::parsed_scalar. ps_kind p = k" compareParsed for k
proof
  fix x y :: parsed_scalar assume "ps_kind x = k" "ps_kind y = k"
  then show "compareParsed y x = - compareParsed x y"
    by (cases rule: compareParsed_cases [of k]) (simp_all add: cmp3_swap [symmetric])
next
  fix x y z :: parsed_scalar assume "ps_kind x = k" "ps_kind y = k" "ps_kind z = k" "compareParsed x y \<le> 0" "compareParsed y z \<le> 0"
  then show "compareParsed x z \<le> 0"
    by (cases rule: compareParsed_cases [of k]) (auto intro: order_trans)
qed

lemma parseTextScalar_kind: "parseTextScalar k s = Inr p \<Longrightarrow> ps_kind p = k \<and> ps_text p = s"
  by (auto simp: parseTextScalar_def empty_scalar_def Let_def bindR_eq_Inr_iff split: if_splits sum.splits)

lemma parseTextScalar_numeric:
  "parseTextScalar OutcomeNumeric s = Inr p \<longleftrightarrow>
    (\<exists>d. ParseDecimal s = Inr d \<and> p = (empty_scalar OutcomeNumeric)\<lparr>ps_text := s, ps_decimal := d\<rparr>)"
  by (auto simp: parseTextScalar_def Let_def split: sum.splits)

lemma parseTextScalar_date:
  "parseTextScalar OutcomeDate s = Inr p \<longleftrightarrow>
    (\<exists>d. ParseDate s = Inr d \<and> p = (empty_scalar OutcomeDate)\<lparr>ps_text := s, ps_instant := d\<rparr>)"
  by (auto simp: parseTextScalar_def Let_def bindR_eq_Inr_iff)

lemma parseTextScalar_datetime:
  "parseTextScalar OutcomeDatetime s = Inr p \<longleftrightarrow>
    (\<exists>d. ParseTimestamp s = Inr d \<and> p = (empty_scalar OutcomeDatetime)\<lparr>ps_text := s, ps_instant := d\<rparr>)"
  by (auto simp: parseTextScalar_def Let_def bindR_eq_Inr_iff)

lemma parseTextScalar_option:
  "k = OutcomeCategorical \<or> k = OutcomeOrdinal \<Longrightarrow>
    parseTextScalar k s = Inr p \<longleftrightarrow> s \<noteq> [] \<and> p = (empty_scalar k)\<lparr>ps_text := s\<rparr>"
  by (auto simp: parseTextScalar_def Let_def)

lemma parseScalarValue_text:
  "k \<noteq> OutcomeBinary \<Longrightarrow> parseScalarValue v k = Inr p \<longleftrightarrow>
    (\<exists>s. v = \<lparr>sv_Boolean = None, sv_String = Some s\<rparr> \<and> parseTextScalar k s = Inr p)"
  by (cases v) (auto simp: parseScalarValue_def split: option.splits)

lemma parseScalarValue_binary:
  "parseScalarValue v OutcomeBinary = Inr p \<longleftrightarrow>
    (\<exists>b. v = \<lparr>sv_Boolean = Some b, sv_String = None\<rparr> \<and> p = (empty_scalar OutcomeBinary)\<lparr>ps_boolean := b\<rparr>)"
  by (cases v) (auto simp: parseScalarValue_def split: option.splits)

section \<open>What a domain denotes\<close>

text \<open>
  The specification of membership: an interval and a values policy over the rationals or the
  instants.  \<open>rd\<close> reads a bound; an unreadable bound admits nothing.
\<close>

definition read :: "('e + 'a) \<Rightarrow> ('a \<Rightarrow> 'b) \<Rightarrow> 'b option" where
  "read r f = (case r of Inl _ \<Rightarrow> None | Inr x \<Rightarrow> Some (f x))"

definition interval_ok :: "(string \<Rightarrow> 'x::linorder option) \<Rightarrow> bounds option \<Rightarrow> 'x \<Rightarrow> bool" where
  "interval_ok rd b x \<longleftrightarrow>
     (\<forall>bs. b = Some bs \<longrightarrow>
        (\<forall>l. bs_Lower bs = Some l \<longrightarrow> (\<exists>y. rd (bd_Value l) = Some y \<and> (y < x \<or> bd_Inclusive l \<and> y = x))) \<and>
        (\<forall>u. bs_Upper bs = Some u \<longrightarrow> (\<exists>y. rd (bd_Value u) = Some y \<and> (x < y \<or> bd_Inclusive u \<and> y = x))))"

definition policy_ok :: "(step_values \<Rightarrow> 'x \<Rightarrow> bool) \<Rightarrow> values_policy \<Rightarrow> string \<Rightarrow> 'x \<Rightarrow> bool" where
  "policy_ok multiple p s x \<longleftrightarrow>
     vp_Continuous p \<noteq> None \<or>
     (\<exists>a. vp_Allowed p = Some a \<and> s \<in> set (av_Values a)) \<or>
     (\<exists>st. vp_Allowed p = None \<and> vp_Step p = Some st \<and> multiple st x)"

definition decimal_multiple :: "step_values \<Rightarrow> rat \<Rightarrow> bool" where
  "decimal_multiple st x \<longleftrightarrow>
     (\<exists>step origin. ParseDecimal (st_Step st) = Inr step \<and> 0 < dec_val step \<and>
        (case st_Origin st of None \<Rightarrow> Inr Zero | Some o' \<Rightarrow> ParseDecimal o') = Inr origin \<and>
        (\<exists>k::int. x = dec_val origin + of_int k * dec_val step))"

definition instant_multiple ::
  "(string \<Rightarrow> string + int) \<Rightarrow> int \<Rightarrow> (string \<Rightarrow> string + instant) \<Rightarrow> step_values \<Rightarrow> instant \<Rightarrow> bool" where
  "instant_multiple parse_step nanos parse st x \<longleftrightarrow>
     (\<exists>step origin. parse_step (st_Step st) = Inr step \<and>
        (case st_Origin st of None \<Rightarrow> Inr 0 | Some o' \<Rightarrow> parse o') = Inr origin \<and>
        (\<exists>k. x = origin + k * (step * nanos)))"

abbreviation read_decimal :: "string \<Rightarrow> rat option" where "read_decimal s \<equiv> read (ParseDecimal s) dec_val"
abbreviation read_date :: "string \<Rightarrow> instant option" where "read_date s \<equiv> read (ParseDate s) id"
abbreviation read_timestamp :: "string \<Rightarrow> instant option" where "read_timestamp s \<equiv> read (ParseTimestamp s) id"

abbreviation nanos_per_day :: int where "nanos_per_day \<equiv> 86400000000000"

definition domain_member :: "domain \<Rightarrow> scalar_value \<Rightarrow> bool" where
  "domain_member d v \<longleftrightarrow>
     (case Domain_Kind d of
        None \<Rightarrow> False
      | Some k \<Rightarrow>
          if k = OutcomeBinary then (\<exists>b. v = \<lparr>sv_Boolean = Some b, sv_String = None\<rparr>)
          else \<exists>s. v = \<lparr>sv_Boolean = None, sv_String = Some s\<rparr> \<and>
            (if k = OutcomeCategorical then
               s \<noteq> [] \<and> s \<in> op_ID ` set (os_Options (od_OptionSet (the (dm_Categorical d))))
             else if k = OutcomeOrdinal then
               s \<noteq> [] \<and> s \<in> op_ID ` set (os_Options (od_OptionSet (the (dm_Ordinal d))))
             else if k = OutcomeNumeric then
               \<exists>x. read_decimal s = Some x \<and> interval_ok read_decimal (sd_Bounds (the (dm_Numeric d))) x
                 \<and> policy_ok decimal_multiple (sd_Values (the (dm_Numeric d))) s x
             else if k = OutcomeDate then
               \<exists>x. read_date s = Some x \<and> interval_ok read_date (sd_Bounds (the (dm_Date d))) x
                 \<and> policy_ok (instant_multiple ParseDayStep nanos_per_day ParseDate)
                     (sd_Values (the (dm_Date d))) s x
             else
               \<exists>x. read_timestamp s = Some x \<and> interval_ok read_timestamp (sd_Bounds (the (dm_Datetime d))) x
                 \<and> policy_ok (instant_multiple ParseSecondStep nanos_per_second ParseTimestamp)
                     (sd_Values (the (dm_Datetime d))) s x))"

lemma optionMember_iff: "optionMember s os \<longleftrightarrow> s \<in> op_ID ` set (os_Options os)"
proof -
  have "optionMember_in s xs \<longleftrightarrow> s \<in> op_ID ` set xs" for xs by (induction xs) auto
  then show ?thesis by (simp add: optionMember_def)
qed

lemma checkBounds_iff:
  assumes parse: "\<And>s. read (parseTextScalar (ps_kind p) s) val = rd s"
    and cmp: "\<And>q. ps_kind q = ps_kind p \<Longrightarrow> compareParsed p q = cmp3 (val p) (val q)"
  shows "fst (checkBounds p b) \<longleftrightarrow> interval_ok rd b (val p)"
proof -
  have rd: "rd s = (case parseTextScalar (ps_kind p) s of Inl _ \<Rightarrow> None | Inr q \<Rightarrow> Some (val q))" for s
    using parse [of s] by (simp add: read_def)
  have c: "parseTextScalar (ps_kind p) s = Inr q \<Longrightarrow> compareParsed p q = cmp3 (val p) (val q)" for s q
    by (intro cmp) (simp add: parseTextScalar_kind)
  show ?thesis
    unfolding checkBounds_def interval_ok_def Let_def rd
    by (auto simp: c not_less split: option.splits sum.splits)
qed

lemma numericInDomain_iff:
  assumes k: "ps_kind p = OutcomeNumeric"
  shows "fst (numericInDomain p d) \<longleftrightarrow>
    interval_ok read_decimal (sd_Bounds d) (dec_val (ps_decimal p)) \<and>
    policy_ok decimal_multiple (sd_Values d) (ps_text p) (dec_val (ps_decimal p))"
proof -
  have "fst (checkBounds p (sd_Bounds d)) \<longleftrightarrow> interval_ok read_decimal (sd_Bounds d) (dec_val (ps_decimal p))"
    by (rule checkBounds_iff [of p "\<lambda>q. dec_val (ps_decimal q)"])
      (auto simp: k read_def compareParsed_def Cmp_val parseTextScalar_def Let_def split: sum.splits)
  then show ?thesis
    by (auto simp: numericInDomain_def policy_ok_def decimal_multiple_def Let_def Sign_pos_iff Aligns_val not_le
        split: prod.splits bool.splits option.splits sum.splits if_splits)
qed

lemma mult_step: "n \<noteq> 0 \<Longrightarrow> a * n = b * n + k * (s * n) \<longleftrightarrow> a = b + k * (s :: int)"
proof -
  assume n: "n \<noteq> 0"
  have "b * n + k * (s * n) = (b + k * s) * n" by (simp add: algebra_simps)
  then show ?thesis by (simp only: mult_right_cancel [OF n])
qed

lemma date_step:
  assumes "nanos_per_day dvd v" "nanos_per_day dvd o'"
  shows "((Unix v - Unix o') sdiv 86400) smod step = 0 \<longleftrightarrow> (\<exists>k. v = o' + k * (step * nanos_per_day))"
proof -
  from assms obtain a b where a: "v = a * nanos_per_day" and b: "o' = b * nanos_per_day"
    by (metis dvd_def mult.commute)
  have "Unix v - Unix o' = 86400 * (a - b)" by (simp add: a b Unix_def)
  then have "(Unix v - Unix o') sdiv 86400 = a - b" by (simp add: sdiv_exact)
  then have "((Unix v - Unix o') sdiv 86400) smod step = 0 \<longleftrightarrow> step dvd a - b" by (simp add: smod_eq_0_iff)
  also have "\<dots> \<longleftrightarrow> (\<exists>k. a = b + k * step)" by (auto simp: dvd_def algebra_simps)
  also have "\<dots> \<longleftrightarrow> (\<exists>k. v = o' + k * (step * nanos_per_day))"
  proof -
    have "v = o' + k * (step * nanos_per_day) \<longleftrightarrow> a = b + k * step" for k
      unfolding a b by (rule mult_step) simp
    then show ?thesis by simp
  qed
  finally show ?thesis .
qed

lemma ParseDate_days: "ParseDate s = Inr t \<Longrightarrow> nanos_per_day dvd t"
  by (auto simp: ParseDate_Inr_iff)

lemma dateInDomain_iff:
  assumes k: "ps_kind p = OutcomeDate" and days: "nanos_per_day dvd ps_instant p"
  shows "fst (dateInDomain p d) \<longleftrightarrow>
    interval_ok read_date (sd_Bounds d) (ps_instant p) \<and>
    policy_ok (instant_multiple ParseDayStep nanos_per_day ParseDate) (sd_Values d) (ps_text p) (ps_instant p)"
proof -
  have "fst (checkBounds p (sd_Bounds d)) \<longleftrightarrow> interval_ok read_date (sd_Bounds d) (ps_instant p)"
    by (rule checkBounds_iff)
      (auto simp: k read_def compareParsed_def parseTextScalar_def Let_def split: sum.splits)
  moreover have "instant_multiple ParseDayStep nanos_per_day ParseDate st (ps_instant p) \<longleftrightarrow>
      (\<exists>step origin. ParseDayStep (st_Step st) = Inr step \<and>
        (case st_Origin st of None \<Rightarrow> Inr 0 | Some o' \<Rightarrow> ParseDate o') = Inr origin \<and>
        ((Unix (ps_instant p) - Unix origin) sdiv 86400) smod step = 0)" for st
    using date_step [OF days] ParseDate_days
    by (auto simp: instant_multiple_def split: option.splits)
  ultimately show ?thesis
    unfolding policy_ok_def
    by (auto simp: dateInDomain_def Let_def
        split: prod.splits bool.splits option.splits sum.splits if_splits)
qed

lemma datetimeInDomain_iff:
  assumes k: "ps_kind p = OutcomeDatetime"
  shows "fst (datetimeInDomain p d) \<longleftrightarrow>
    interval_ok read_timestamp (sd_Bounds d) (ps_instant p) \<and>
    policy_ok (instant_multiple ParseSecondStep nanos_per_second ParseTimestamp) (sd_Values d) (ps_text p) (ps_instant p)"
proof -
  have "fst (checkBounds p (sd_Bounds d)) \<longleftrightarrow> interval_ok read_timestamp (sd_Bounds d) (ps_instant p)"
    by (rule checkBounds_iff)
      (auto simp: k read_def compareParsed_def parseTextScalar_def Let_def split: sum.splits)
  then show ?thesis
    unfolding policy_ok_def
    by (auto simp: datetimeInDomain_def instant_multiple_def instantAligns_iff Let_def
        split: prod.splits bool.splits option.splits sum.splits if_splits)
qed

lemma Domain_Kind_cases:
  "Domain_Kind d = Some k \<Longrightarrow>
    k \<in> {OutcomeBinary, OutcomeCategorical, OutcomeOrdinal, OutcomeNumeric, OutcomeDate, OutcomeDatetime}"
  by (auto simp: Domain_Kind_def split: if_splits)

lemma read_Some_iff: "read r f = Some y \<longleftrightarrow> (\<exists>x. r = Inr x \<and> y = f x)"
  by (auto simp: read_def split: sum.splits)

definition scalar_check :: "outcome_kind \<Rightarrow> domain \<Rightarrow> parsed_scalar \<Rightarrow> bool" where
  "scalar_check k d p \<longleftrightarrow>
     (if k = OutcomeCategorical then optionMember (ps_text p) (od_OptionSet (the (dm_Categorical d)))
      else if k = OutcomeOrdinal then optionMember (ps_text p) (od_OptionSet (the (dm_Ordinal d)))
      else if k = OutcomeNumeric then fst (numericInDomain p (the (dm_Numeric d)))
      else if k = OutcomeDate then fst (dateInDomain p (the (dm_Date d)))
      else if k = OutcomeDatetime then fst (datetimeInDomain p (the (dm_Datetime d)))
      else False)"

lemma ScalarInDomain_text:
  assumes k: "Domain_Kind d = Some k" "k \<noteq> OutcomeBinary"
  shows "fst (ScalarInDomain v d) \<longleftrightarrow>
    (\<exists>s. v = \<lparr>sv_Boolean = None, sv_String = Some s\<rparr> \<and> (\<exists>p. parseTextScalar k s = Inr p \<and> scalar_check k d p))"
proof -
  have "fst (ScalarInDomain v d) \<longleftrightarrow> (\<exists>p. parseScalarValue v k = Inr p \<and> scalar_check k d p)"
    using k by (cases "parseScalarValue v k") (simp_all add: ScalarInDomain_def scalar_check_def)
  then show ?thesis unfolding parseScalarValue_text [OF k(2)] by blast
qed

text \<open>
  C39: \<open>ScalarInDomain\<close> accepts exactly the scalars the domain denotes: booleans, identifiers of
  the option set, or numbers and instants inside the bounds that satisfy the values policy,
  where a step policy means a whole number of steps from the origin.
\<close>

theorem ScalarInDomain_iff_member: "fst (ScalarInDomain v d) \<longleftrightarrow> domain_member d v"
proof (cases "Domain_Kind d")
  case None
  then show ?thesis by (simp add: ScalarInDomain_def domain_member_def)
next
  case (Some k)
  from Domain_Kind_cases [OF this] consider
    "k = OutcomeBinary" | "k = OutcomeCategorical \<or> k = OutcomeOrdinal" | "k = OutcomeNumeric"
    | "k = OutcomeDate" | "k = OutcomeDatetime" by (elim insertE emptyE) simp_all
  then show ?thesis
  proof cases
    case 1
    show ?thesis
    proof -
      have "fst (ScalarInDomain v d) \<longleftrightarrow> isOk (parseScalarValue v OutcomeBinary)"
        using Some 1 by (cases "parseScalarValue v OutcomeBinary") (auto simp: ScalarInDomain_def)
      also have "\<dots> \<longleftrightarrow> (\<exists>b. v = \<lparr>sv_Boolean = Some b, sv_String = None\<rparr>)"
        unfolding isOk_iff parseScalarValue_binary by blast
      finally show ?thesis using Some 1 by (simp add: domain_member_def)
    qed
  next
    case 2
    then have k: "k \<noteq> OutcomeBinary" by auto
    from 2 show ?thesis
    proof
      assume c: "k = OutcomeCategorical"
      show ?thesis
        unfolding ScalarInDomain_text [OF Some k, unfolded c] domain_member_def Some [unfolded c]
        by (auto simp: scalar_check_def parseTextScalar_option empty_scalar_def optionMember_iff)
    next
      assume c: "k = OutcomeOrdinal"
      show ?thesis
        unfolding ScalarInDomain_text [OF Some k, unfolded c] domain_member_def Some [unfolded c]
        by (auto simp: scalar_check_def parseTextScalar_option empty_scalar_def optionMember_iff)
    qed
  next
    case 3
    then have k: "k \<noteq> OutcomeBinary" by auto
    show ?thesis
      unfolding ScalarInDomain_text [OF Some k, unfolded 3] domain_member_def Some [unfolded 3]
      by (auto simp: scalar_check_def parseTextScalar_numeric read_Some_iff numericInDomain_iff empty_scalar_def)
  next
    case 4
    then have k: "k \<noteq> OutcomeBinary" by auto
    show ?thesis
      unfolding ScalarInDomain_text [OF Some k, unfolded 4] domain_member_def Some [unfolded 4]
      by (auto simp: scalar_check_def parseTextScalar_date read_Some_iff dateInDomain_iff empty_scalar_def ParseDate_days)
  next
    case 5
    then have k: "k \<noteq> OutcomeBinary" by auto
    show ?thesis
      unfolding ScalarInDomain_text [OF Some k, unfolded 5] domain_member_def Some [unfolded 5]
      by (auto simp: scalar_check_def parseTextScalar_datetime read_Some_iff datetimeInDomain_iff empty_scalar_def)
  qed
qed

section \<open>Validated domains\<close>

lemma validateAllowed_from_ok:
  "validateAllowed_from k m prev vs = Inr () \<Longrightarrow>
    \<exists>ps. list_all2 (\<lambda>s p. parseTextScalar k s = Inr p \<and> fst (m s)) vs ps \<and>
      successively (\<lambda>p q. compareParsed p q < 0) (case prev of None \<Rightarrow> ps | Some p \<Rightarrow> p # ps)"
proof (induction k m prev vs rule: validateAllowed_from.induct)
  case (1 k m prev)
  then show ?case by (auto split: option.split)
next
  case (2 k m prev v vs)
  then obtain p where p: "parseTextScalar k v = Inr p" "fst (m v)" "\<And>q. prev = Some q \<Longrightarrow> compareParsed q p < 0"
    "validateAllowed_from k m (Some p) vs = Inr ()"
    by (cases "m v") (auto simp: bindR_eq_Inr_iff split: if_splits bool.splits option.splits)
  moreover from p have "m v = (True, snd (m v))" by (cases "m v") auto
  ultimately obtain ps where "list_all2 (\<lambda>s p. parseTextScalar k s = Inr p \<and> fst (m s)) vs ps"
    "successively (\<lambda>p q. compareParsed p q < 0) (p # ps)"
    using "2.IH" [of p "True" "snd (m v)"] p(3) by (fastforce split: option.splits)
  with p show ?case by (intro exI [of _ "p # ps"]) (auto split: option.split)
qed

lemma compareParsed_minus: "compareParsed p q < 0 \<Longrightarrow> compareParsed p q = - 1"
  by (cases rule: compareParsed_cases [of "ps_kind p"]) (auto simp: cmp3_def split: if_splits)

lemma validateAllowed_sorted:
  assumes "validateAllowed k vs m = Inr ()"
  shows "distinct vs \<and> sorted_wrt (\<lambda>x y. CompareScalarStrings k x y = Inr (- 1)) vs \<and> (\<forall>s\<in>set vs. fst (m s))"
proof -
  obtain ps where ps: "list_all2 (\<lambda>s p. parseTextScalar k s = Inr p \<and> fst (m s)) vs ps"
    and chain: "successively (\<lambda>p q. compareParsed p q < 0) ps"
    using validateAllowed_from_ok [of k m None vs] assms by (auto simp: validateAllowed_def)
  have len: "length ps = length vs" using ps by (simp add: list_all2_lengthD)
  have nth: "parseTextScalar k (vs ! i) = Inr (ps ! i)" "fst (m (vs ! i))" if "i < length vs" for i
    using ps that by (auto dest: list_all2_nthD)
  have ok: "list_all (\<lambda>p. ps_kind p = k) ps"
    using nth(1) len by (auto simp: list_all_length dest: parseTextScalar_kind)
  have lt: "compareParsed (ps ! i) (ps ! j) < 0" if "i < j" "j < length ps" for i j
    using scalar_cmp.neighbours_sorted [OF ok _ that] successively_nth [OF chain] by blast
  have sorted: "CompareScalarStrings k (vs ! i) (vs ! j) = Inr (- 1)" if "i < j" "j < length vs" for i j
    using lt [of i j] that len nth(1) [of i] nth(1) [of j]
    by (simp add: CompareScalarStrings_def compareParsed_minus)
  moreover have "vs ! i \<noteq> vs ! j" if "i < j" "j < length vs" for i j
  proof
    assume "vs ! i = vs ! j"
    with that nth(1) [of i] nth(1) [of j] have "ps ! i = ps ! j" by simp
    with lt [of i j] that len scalar_cmp.refl [of "ps ! j" "ps_kind (ps ! j)"] show False by simp
  qed
  ultimately show ?thesis
    using nth(2) by (auto simp: sorted_wrt_iff_nth_less in_set_conv_nth distinct_conv_nth) (metis linorder_neqE_nat)
qed

definition domain_scalar :: "domain \<Rightarrow> (bounds option \<times> values_policy) option" where
  "domain_scalar d =
     (case Domain_Kind d of
        None \<Rightarrow> None
      | Some k \<Rightarrow>
          if k = OutcomeNumeric then Some (sd_Bounds (the (dm_Numeric d)), sd_Values (the (dm_Numeric d)))
          else if k = OutcomeDate then Some (sd_Bounds (the (dm_Date d)), sd_Values (the (dm_Date d)))
          else if k = OutcomeDatetime then Some (sd_Bounds (the (dm_Datetime d)), sd_Values (the (dm_Datetime d)))
          else None)"

abbreviation text_scalar :: "string \<Rightarrow> scalar_value" where
  "text_scalar s \<equiv> \<lparr>sv_Boolean = None, sv_String = Some s\<rparr>"

lemma domain_scalar_kind:
  assumes "domain_scalar d = Some (b, p)"
  obtains k where "Domain_Kind d = Some k" "k \<noteq> OutcomeBinary"
    "k = OutcomeNumeric \<or> k = OutcomeDate \<or> k = OutcomeDatetime"
  using assms by (auto simp: domain_scalar_def split: option.splits if_splits)

lemma allowed_scalar_check:
  assumes d: "domain_scalar d = Some (b, p)" and k: "Domain_Kind d = Some k"
    and a: "vp_Continuous p = None" "vp_Allowed p = Some a"
    and q: "parseTextScalar k s = Inr q" "fst (checkBounds q b)" "s \<in> set (av_Values a)"
  shows "scalar_check k d q"
proof -
  from parseTextScalar_kind [OF q(1)] have "ps_text q = s" by simp
  with d k a q(2,3) show ?thesis
    by (auto simp: domain_scalar_def scalar_check_def numericInDomain_def dateInDomain_def datetimeInDomain_def
        split: if_splits prod.splits bool.splits)
qed

text \<open>
  When a domain passes \<open>ValidateDomainScalars\<close> and its policy is a list of allowed values, the
  list is strictly increasing in the order of the domain, without repetition, and every listed
  value is accepted by \<open>ScalarInDomain\<close>.
\<close>

theorem allowed_values_sorted_members:
  assumes valid: "ValidateDomainScalars d = Inr ()" and d: "domain_scalar d = Some (b, p)"
    and a: "vp_Continuous p = None" "vp_Step p = None" "vp_Allowed p = Some a"
  shows "distinct (av_Values a) \<and>
    sorted_wrt (\<lambda>x y. CompareScalarStrings (the (Domain_Kind d)) x y = Inr (- 1)) (av_Values a) \<and>
    (\<forall>s\<in>set (av_Values a). fst (ScalarInDomain (text_scalar s) d))"
proof -
  obtain k where k: "Domain_Kind d = Some k" "k \<noteq> OutcomeBinary"
    "k = OutcomeNumeric \<or> k = OutcomeDate \<or> k = OutcomeDatetime"
    using domain_scalar_kind [OF d] .
  from valid k d a have "validateAllowed k (av_Values a) (bounds_membership k b) = Inr ()"
    by (auto simp: ValidateDomainScalars_def domain_scalar_def bindR_eq_Inr_iff validateNumericPolicy_def
        validateDatePolicy_def validateDatetimePolicy_def Let_def)
  note s = validateAllowed_sorted [OF this]
  have "fst (ScalarInDomain (text_scalar v) d)" if v: "v \<in> set (av_Values a)" for v
  proof -
    from s v have "fst (bounds_membership k b v)" by blast
    then obtain q where "parseTextScalar k v = Inr q" "fst (checkBounds q b)"
      by (auto simp: bounds_membership_def split: sum.splits)
    with allowed_scalar_check [OF d k(1) a(1,3) this v] show ?thesis
      unfolding ScalarInDomain_text [OF k(1,2)] by blast
  qed
  with s k(1) show ?thesis by simp
qed

definition halves_domain :: domain where
  "halves_domain =
     \<lparr>dm_Binary = None, dm_Categorical = None, dm_Ordinal = None,
      dm_Numeric = Some \<lparr>sd_Kind = OutcomeNumeric,
        sd_Bounds = Some \<lparr>bs_Lower = Some \<lparr>bd_Value = ''0'', bd_Inclusive = False\<rparr>, bs_Upper = None\<rparr>,
        sd_Values = \<lparr>vp_Continuous = None, vp_Step = None,
          vp_Allowed = Some \<lparr>av_Kind = ValuesAllowed, av_Values = [''0.5'', ''2'', ''10'']\<rparr>\<rparr>,
        sd_BinSets = None, nd_ElicitationScale = None, nd_Unit = None\<rparr>,
      dm_Date = None, dm_Datetime = None\<rparr>"

theorem allowed_values_sorted_members_witness:
  "fst (ScalarInDomain (text_scalar ''2'') halves_domain)"
proof -
  have "ValidateDomainScalars halves_domain = Inr ()" by code_simp
  then show ?thesis
    using allowed_values_sorted_members [of halves_domain
        "Some \<lparr>bs_Lower = Some \<lparr>bd_Value = ''0'', bd_Inclusive = False\<rparr>, bs_Upper = None\<rparr>"
        "sd_Values (the (dm_Numeric halves_domain))" "\<lparr>av_Kind = ValuesAllowed, av_Values = [''0.5'', ''2'', ''10'']\<rparr>"]
    by (simp add: halves_domain_def domain_scalar_def Domain_Kind_def)
qed

lemma CompareScalarStrings_Inr:
  "CompareScalarStrings k a b = Inr c \<longleftrightarrow>
    (\<exists>p q. parseTextScalar k a = Inr p \<and> parseTextScalar k b = Inr q \<and> c = compareParsed p q)"
  by (auto simp: CompareScalarStrings_def bindR_eq_Inr_iff)

lemma ParseDecimal_inj: "ParseDecimal a = Inr c \<Longrightarrow> ParseDecimal b = Inr d \<Longrightarrow> dec_val c = dec_val d \<Longrightarrow> a = b"
  by (metis ParseDecimal_normal dec_String_Parse normal_inj)

lemma parseTextScalar_kinds:
  "parseTextScalar k s = Inr p \<Longrightarrow>
    k \<in> {OutcomeCategorical, OutcomeOrdinal, OutcomeNumeric, OutcomeDate, OutcomeDatetime}"
  by (rule ccontr) (simp add: parseTextScalar_def Let_def)

lemma parseTextScalar_same:
  assumes "parseTextScalar k a = Inr p" "parseTextScalar k b = Inr q" "compareParsed p q = 0" "k \<noteq> OutcomeDatetime"
  shows "a = b"
proof -
  consider "k = OutcomeCategorical \<or> k = OutcomeOrdinal" | "k = OutcomeNumeric" | "k = OutcomeDate"
    using parseTextScalar_kinds [OF assms(1)] assms(4) by (elim insertE emptyE) simp_all
  then show ?thesis
  proof cases
    case 1
    with assms show ?thesis by (auto simp: parseTextScalar_option compareParsed_def empty_scalar_def)
  next
    case 2
    with assms show ?thesis
      by (auto simp: parseTextScalar_numeric compareParsed_def empty_scalar_def Cmp_val intro: ParseDecimal_inj)
  next
    case 3
    with assms have "\<exists>t. ParseDate a = Inr t \<and> ParseDate b = Inr t"
      by (auto simp: parseTextScalar_date compareParsed_def empty_scalar_def)
    then show ?thesis by (blast intro: ParseDate_inj)
  qed
qed

text \<open>
  C40: on the strings a kind accepts, \<open>CompareScalarStrings\<close> is a total preorder, and
  outside datetimes (where one instant has many spellings) only equal strings compare equal.
\<close>

theorem CompareScalarStrings_total_order:
  assumes "CompareScalarStrings k a b = Inr c" and "CompareScalarStrings k b e = Inr c'"
  shows "CompareScalarStrings k b a = Inr (- c) \<and>
    (c = 0 \<and> k \<noteq> OutcomeDatetime \<longrightarrow> a = b) \<and>
    (c \<le> 0 \<and> c' \<le> 0 \<longrightarrow> (\<exists>c''\<le>0. CompareScalarStrings k a e = Inr c''))"
proof -
  from assms obtain p q r where p: "parseTextScalar k a = Inr p" "parseTextScalar k b = Inr q"
    "parseTextScalar k e = Inr r" "c = compareParsed p q" "c' = compareParsed q r"
    by (auto simp: CompareScalarStrings_Inr)
  then have "ps_kind p = k" "ps_kind q = k" "ps_kind r = k" by (auto dest: parseTextScalar_kind)
  with scalar_cmp.swap [of p k q] scalar_cmp.le_trans [of p k q r] p parseTextScalar_same [OF p(1,2)]
  show ?thesis by (auto simp: CompareScalarStrings_Inr)
qed

theorem CompareScalarStrings_total_order_witness:
  "CompareScalarStrings OutcomeNumeric ''2'' ''1.5'' = Inr 1"
proof -
  have "CompareScalarStrings OutcomeNumeric ''1.5'' ''2'' = Inr (- 1)"
    "CompareScalarStrings OutcomeNumeric ''2'' ''10'' = Inr (- 1)" by code_simp+
  from CompareScalarStrings_total_order [OF this] show ?thesis by simp
qed

end
