(* ===== verification/Representation_Checks.thy ===== *)
theory Representation_Checks
  imports Domain_Semantics
begin

text \<open>
  The representation checks of \<open>internal/validation/semantic.go\<close>: probability mass functions,
  binned mass functions, quantiles, cumulative distributions, points and credible intervals
  against the domain of the bound revision.  A method of the validator that appends issues is a
  function that returns the issues it appends, in order; a method that also returns a value
  returns it with the issues.  The lemmas show what a representation without issues satisfies.
\<close>

section \<open>Issues\<close>

record semantic_issue =
  si_Layer :: string
  si_Code :: string
  si_Pointer :: string
  si_Message :: string

definition add :: "string \<Rightarrow> string \<Rightarrow> string \<Rightarrow> semantic_issue list" where
  "add code pointer message =
     [\<lparr>si_Layer = ''semantic'', si_Code = code, si_Pointer = pointer, si_Message = message\<rparr>]"

lemma add_ne [simp]: "add c p m \<noteq> []"
  by (simp add: add_def)

definition issue_if :: "bool \<Rightarrow> string \<Rightarrow> string \<Rightarrow> string \<Rightarrow> semantic_issue list" where
  "issue_if b code pointer message = (if b then add code pointer message else [])"

lemma issue_if_Nil_iff [simp]: "issue_if b c p m = [] \<longleftrightarrow> \<not> b"
  by (simp add: issue_if_def)

text \<open>\<open>fmt.Sprintf("%s/%d", pointer, index)\<close> and its relatives.\<close>

definition at_index :: "string \<Rightarrow> nat \<Rightarrow> string" where
  "at_index pointer i = pointer @ ''/'' @ nat_string i"

definition uniqueSlugs :: "slug list \<Rightarrow> string \<Rightarrow> string \<Rightarrow> semantic_issue list" where
  "uniqueSlugs values pointer code =
     concat (map (\<lambda>i. add code (at_index pointer i) ''ID is duplicated'') (dup_positions_from 0 {} values))"

lemma uniqueSlugs_Nil_iff [simp]: "uniqueSlugs vs p c = [] \<longleftrightarrow> distinct vs"
proof -
  have "uniqueSlugs vs p c = [] \<longleftrightarrow> dup_positions_from 0 {} vs = []"
    by (auto simp: uniqueSlugs_def add_def)
  then show ?thesis by (simp add: dup_positions_from_Nil_iff)
qed

definition uniqueRepresentationKinds :: "representation_kind list \<Rightarrow> string \<Rightarrow> semantic_issue list" where
  "uniqueRepresentationKinds values pointer =
     concat (map (\<lambda>i. add ''semantic.duplicate_representation_kind'' (at_index pointer i)
                        ''representation kind is duplicated'')
       (dup_positions_from 0 {} values))"

lemma uniqueRepresentationKinds_Nil_iff [simp]: "uniqueRepresentationKinds vs p = [] \<longleftrightarrow> distinct vs"
proof -
  have "uniqueRepresentationKinds vs p = [] \<longleftrightarrow> dup_positions_from 0 {} vs = []"
    by (auto simp: uniqueRepresentationKinds_def add_def)
  then show ?thesis by (simp add: dup_positions_from_Nil_iff)
qed

section \<open>Probabilities\<close>

definition parseProbability :: "string \<Rightarrow> string \<Rightarrow> bool \<Rightarrow> decimal option \<times> semantic_issue list" where
  "parseProbability value pointer open_interval =
     (case (if open_interval then ParseOpenProbability value else ParseProbability value) of
        Inl e \<Rightarrow> (None, add ''semantic.probability'' pointer e)
      | Inr d \<Rightarrow> (Some d, []))"

definition parseOpenProbability :: "string \<Rightarrow> string \<Rightarrow> decimal option \<times> semantic_issue list" where
  "parseOpenProbability value pointer =
     (case ParseOpenProbability value of
        Inl e \<Rightarrow> (None, add ''semantic.open_probability'' pointer e)
      | Inr d \<Rightarrow> (Some d, []))"

fun sum_from :: "nat \<Rightarrow> string \<Rightarrow> decimal \<Rightarrow> bool \<Rightarrow> string list \<Rightarrow> (decimal \<times> bool) \<times> semantic_issue list" where
  "sum_from i pointer tot valid [] = ((tot, valid), [])"
| "sum_from i pointer tot valid (v # vs) =
     (case parseProbability v (at_index pointer i) False of
        (None, is) \<Rightarrow> (case sum_from (Suc i) pointer tot False vs of (r, is') \<Rightarrow> (r, is @ is'))
      | (Some d, is) \<Rightarrow> (case sum_from (Suc i) pointer (Add tot d) valid vs of (r, is') \<Rightarrow> (r, is @ is')))"

definition sumProbabilities :: "string list \<Rightarrow> string \<Rightarrow> (decimal \<times> bool) \<times> semantic_issue list" where
  "sumProbabilities values pointer = sum_from 0 pointer Zero True values"

definition sameSlugSet :: "slug set \<Rightarrow> slug set \<Rightarrow> bool" where
  "sameSlugSet left right = (if card left \<noteq> card right then False else left \<subseteq> right)"

lemma sameSlugSet_iff: "finite b \<Longrightarrow> sameSlugSet a b \<longleftrightarrow> a = b"
  using card_subset_eq [of b a] by (auto simp: sameSlugSet_def)

section \<open>Mass functions\<close>

definition duplicate_entries :: "slug list \<Rightarrow> (nat \<Rightarrow> semantic_issue list) \<Rightarrow> semantic_issue list" where
  "duplicate_entries ids issue = concat (map issue (dup_positions_from 0 {} ids))"

definition validatePMF :: "pmf_representation \<Rightarrow> domain \<Rightarrow> string \<Rightarrow> semantic_issue list" where
  "validatePMF value domain pointer =
     (let optionSet =
        (case dm_Categorical domain of
           Some c \<Rightarrow> Some (od_OptionSet c)
         | None \<Rightarrow> (case dm_Ordinal domain of Some o' \<Rightarrow> Some (od_OptionSet o') | None \<Rightarrow> None))
      in case optionSet of
           None \<Rightarrow> []
         | Some os \<Rightarrow>
             let ids = map pe_OptionID (pm_Entries value);
                 expected = set (map op_ID (os_Options os));
                 summed = sumProbabilities (map pe_Probability (pm_Entries value)) (pointer @ ''/entries'');
                 tot = fst (fst summed); ok = snd (fst summed)
             in issue_if (rf_ID (pm_OptionSetRef value) \<noteq> os_ID os \<or> rf_Version (pm_OptionSetRef value) \<noteq> os_Version os)
                  ''semantic.option_set_ref'' (pointer @ ''/option_set_ref'')
                  ''must bind the exact question option-set version''
              @ duplicate_entries ids (\<lambda>i. add ''semantic.duplicate_pmf_option''
                  (at_index (pointer @ ''/entries'') i @ ''/option_id'') ''option appears more than once'')
              @ issue_if (\<not> sameSlugSet (set ids) expected)
                  ''semantic.pmf_coverage'' (pointer @ ''/entries'') ''must cover every option exactly once''
              @ snd summed
              @ issue_if (ok \<and> Cmp tot One \<noteq> 0)
                  ''semantic.probability_sum'' (pointer @ ''/entries'')
                  (''probabilities sum to '' @ dec_String tot @ '', not 1''))"

definition binSummary :: "bin list \<Rightarrow> slug list \<times> string \<times> string" where
  "binSummary bins =
     (if bins = [] then ([], [], [])
      else (map bi_ID bins, bi_Lower (hd bins), bi_Upper (last bins)))"

definition boundStrings :: "bounds option \<Rightarrow> string option \<times> string option" where
  "boundStrings bounds =
     (case bounds of
        None \<Rightarrow> (None, None)
      | Some b \<Rightarrow> (map_option bd_Value (bs_Lower b), map_option bd_Value (bs_Upper b)))"

fun find_bin_set :: "set_ref \<Rightarrow> bin_set list \<Rightarrow> bin_set option" where
  "find_bin_set reference [] = None"
| "find_bin_set reference (s # ss) =
     (if bt_ID s = rf_ID reference \<and> bt_Version s = rf_Version reference then Some s
      else find_bin_set reference ss)"

record found_bins =
  fb_IDs :: "slug list"
  fb_FirstLower :: string
  fb_LastUpper :: string
  fb_LowerBound :: "string option"
  fb_UpperBound :: "string option"

definition found_in :: "bounds option \<Rightarrow> bin_set list option \<Rightarrow> set_ref \<Rightarrow> found_bins option" where
  "found_in bounds sets reference =
     (case sets of
        None \<Rightarrow> None
      | Some ss \<Rightarrow>
          (case find_bin_set reference ss of
             None \<Rightarrow> None
           | Some s \<Rightarrow>
               (case binSummary (bt_Bins s) of (ids, firstLower, lastUpper) \<Rightarrow>
                case boundStrings bounds of (lower, upper) \<Rightarrow>
                  Some \<lparr>fb_IDs = ids, fb_FirstLower = firstLower, fb_LastUpper = lastUpper,
                        fb_LowerBound = lower, fb_UpperBound = upper\<rparr>)))"

definition findBinSet :: "domain \<Rightarrow> set_ref \<Rightarrow> found_bins option" where
  "findBinSet domain reference =
     (case dm_Numeric domain of
        Some d \<Rightarrow> found_in (sd_Bounds d) (sd_BinSets d) reference
      | None \<Rightarrow>
        (case dm_Date domain of
           Some d \<Rightarrow> found_in (sd_Bounds d) (sd_BinSets d) reference
         | None \<Rightarrow>
           (case dm_Datetime domain of
              Some d \<Rightarrow> found_in (sd_Bounds d) (sd_BinSets d) reference
            | None \<Rightarrow> None)))"

definition tail_at_bound :: "string option \<Rightarrow> string \<Rightarrow> string \<Rightarrow> string \<Rightarrow> string \<Rightarrow> string \<Rightarrow> semantic_issue list" where
  "tail_at_bound bnd edge probability pointer code message =
     (if bnd = Some edge
      then (case parseProbability probability pointer False of
              (None, is) \<Rightarrow> is
            | (Some d, is) \<Rightarrow> is @ issue_if (Cmp d Zero \<noteq> 0) code pointer message)
      else [])"

definition validateBinnedPMF :: "binned_pmf_representation \<Rightarrow> domain \<Rightarrow> string \<Rightarrow> semantic_issue list" where
  "validateBinnedPMF value domain pointer =
     (case findBinSet domain (bp_BinSetRef value) of
        None \<Rightarrow> add ''semantic.bin_set_ref'' (pointer @ ''/bin_set_ref'') ''must bind an existing exact bin-set version''
      | Some found \<Rightarrow>
          let ids = map be_BinID (bp_Entries value);
              summed = sumProbabilities (map be_Probability (bp_Entries value)
                       @ [bp_LeftTailProbability value, bp_RightTailProbability value]) pointer;
              tot = fst (fst summed); ok = snd (fst summed)
          in duplicate_entries ids (\<lambda>i. add ''semantic.duplicate_binned_pmf_bin''
               (at_index (pointer @ ''/entries'') i @ ''/bin_id'') ''bin appears more than once'')
           @ issue_if (\<not> sameSlugSet (set ids) (set (fb_IDs found)))
               ''semantic.binned_pmf_coverage'' (pointer @ ''/entries'') ''must cover every bin exactly once''
           @ snd summed
           @ issue_if (ok \<and> Cmp tot One \<noteq> 0) ''semantic.binned_probability_sum'' pointer
               (''bin and tail probabilities sum to '' @ dec_String tot @ '', not 1'')
           @ tail_at_bound (fb_LowerBound found) (fb_FirstLower found) (bp_LeftTailProbability value)
               (pointer @ ''/left_tail_probability'') ''semantic.left_tail_at_bound''
               ''must be 0 when bins start at the domain bound''
           @ tail_at_bound (fb_UpperBound found) (fb_LastUpper found) (bp_RightTailProbability value)
               (pointer @ ''/right_tail_probability'') ''semantic.right_tail_at_bound''
               ''must be 0 when bins end at the domain bound'')"

section \<open>Quantiles and distributions\<close>

definition domain_kind_or_empty :: "domain \<Rightarrow> outcome_kind" where
  "domain_kind_or_empty domain = (case Domain_Kind domain of None \<Rightarrow> [] | Some k \<Rightarrow> k)"

text \<open>A comparison that counts only when it succeeds.\<close>

definition compared :: "(int \<Rightarrow> bool) \<Rightarrow> string + int \<Rightarrow> bool" where
  "compared P r = (case r of Inl _ \<Rightarrow> False | Inr c \<Rightarrow> P c)"

fun quantile_points ::
  "domain \<Rightarrow> string \<Rightarrow> nat \<Rightarrow> decimal option \<Rightarrow> scalar_value option \<Rightarrow> quantile_point list \<Rightarrow> semantic_issue list" where
  "quantile_points domain pointer i previousLevel previousValue [] = []"
| "quantile_points domain pointer i previousLevel previousValue (point # points) =
     (let pp = at_index (pointer @ ''/points'') i;
          (level, level_issues) = parseOpenProbability (qp_Level point) (pp @ ''/level'');
          (member, reason) = ScalarInDomain (qp_Value point) domain
      in level_issues
         @ (case (level, previousLevel) of
              (Some l, Some p) \<Rightarrow> issue_if (Cmp l p \<le> 0) ''semantic.quantile_level_order'' (pointer @ ''/points'')
                                   ''quantile levels must be strictly increasing''
            | _ \<Rightarrow> [])
         @ (if \<not> member then add ''semantic.quantile_domain'' (pp @ ''/value'') reason
            else case previousValue of
                   None \<Rightarrow> []
                 | Some p \<Rightarrow> issue_if (compared (\<lambda>c. c > 0) (CompareScalars (domain_kind_or_empty domain) p (qp_Value point)))
                               ''semantic.quantile_value_order'' (pointer @ ''/points'') ''quantile values must be non-decreasing'')
         @ quantile_points domain pointer (Suc i) (if level = None then previousLevel else level)
             (Some (qp_Value point)) points)"

definition validateQuantiles :: "quantiles_representation \<Rightarrow> domain \<Rightarrow> string \<Rightarrow> semantic_issue list" where
  "validateQuantiles value domain pointer = quantile_points domain pointer 0 None None (qn_Points value)"

text \<open>The loop of \<open>validateCDF\<close>; it also returns the parsed probability of every point.\<close>

fun cdf_points ::
  "domain \<Rightarrow> string \<Rightarrow> nat \<Rightarrow> scalar_value option \<Rightarrow> decimal option \<Rightarrow> cdf_point list
    \<Rightarrow> decimal option list \<times> semantic_issue list" where
  "cdf_points domain pointer i previousValue previousProbability [] = ([], [])"
| "cdf_points domain pointer i previousValue previousProbability (point # points) =
     (let pp = at_index (pointer @ ''/points'') i;
          (member, reason) = ScalarInDomain (cp_Value point) domain;
          (probability, probability_issues) = parseProbability (cp_Probability point) (pp @ ''/probability'') False;
          (probabilities, issues) =
            cdf_points domain pointer (Suc i) (Some (cp_Value point))
              (if probability = None then previousProbability else probability) points
      in (probability # probabilities,
          (if \<not> member then add ''semantic.cdf_domain'' (pp @ ''/value'') reason
           else case previousValue of
                  None \<Rightarrow> []
                | Some p \<Rightarrow> issue_if (compared (\<lambda>c. c \<ge> 0) (CompareScalars (domain_kind_or_empty domain) p (cp_Value point)))
                              ''semantic.cdf_value_order'' (pointer @ ''/points'') ''CDF values must be strictly increasing'')
          @ probability_issues
          @ (case (probability, previousProbability) of
               (Some q, Some p) \<Rightarrow> issue_if (Cmp q p < 0) ''semantic.cdf_probability_order'' (pointer @ ''/points'')
                                    ''CDF probabilities must be non-decreasing''
             | _ \<Rightarrow> [])
          @ issues))"

definition validateCDF :: "cdf_representation \<Rightarrow> domain \<Rightarrow> string \<Rightarrow> semantic_issue list" where
  "validateCDF value domain pointer =
     (let (probabilities, issues) = cdf_points domain pointer 0 None None (cd_Points value);
          (left, left_issues) = parseProbability (cd_LeftTailProbability value) (pointer @ ''/left_tail_probability'') False;
          (right, right_issues) = parseProbability (cd_RightTailProbability value) (pointer @ ''/right_tail_probability'') False
      in issues @ left_issues @ right_issues
         @ (if probabilities = [] then []
            else case (left, hd probabilities) of
                   (Some l, Some p) \<Rightarrow> issue_if (Cmp l p > 0) ''semantic.cdf_left_tail'' (pointer @ ''/left_tail_probability'')
                                        ''must not exceed the first CDF probability''
                 | _ \<Rightarrow> [])
         @ (if probabilities = [] then []
            else case (right, last probabilities) of
                   (Some r, Some p) \<Rightarrow> issue_if (Cmp (Add p r) One \<noteq> 0) ''semantic.cdf_right_tail'' pointer
                                        ''last CDF probability plus right tail probability must equal 1''
                 | _ \<Rightarrow> []))"

section \<open>Points and intervals\<close>

definition validatePoint :: "point_representation \<Rightarrow> domain \<Rightarrow> string \<Rightarrow> semantic_issue list" where
  "validatePoint value domain pointer =
     (let kind = domain_kind_or_empty domain; (member, reason) = ScalarInDomain (pt_Value value) domain
      in issue_if (pt_Statistic value = ''mean'' \<and> kind \<noteq> OutcomeNumeric \<and> kind \<noteq> OutcomeDate \<and> kind \<noteq> OutcomeDatetime)
           ''semantic.point_statistic'' (pointer @ ''/statistic'')
           ''mean is only defined for numeric, date, or datetime outcomes''
       @ issue_if (pt_Statistic value = ''mode'' \<and> kind = OutcomeBinary \<and> sv_Boolean (pt_Value value) = None)
           ''semantic.binary_mode'' (pointer @ ''/value'') ''binary mode must be boolean''
       @ issue_if (\<not> member) ''semantic.point_domain'' (pointer @ ''/value'') reason)"

fun interval_issues ::
  "domain \<Rightarrow> string \<Rightarrow> nat \<Rightarrow> string set \<Rightarrow> credible_interval list \<Rightarrow> semantic_issue list" where
  "interval_issues domain pointer i seen [] = []"
| "interval_issues domain pointer i seen (interval # intervals) =
     (let ip = at_index (pointer @ ''/intervals'') i;
          (lowerOK, lowerReason) = ScalarInDomain (ci_Lower interval) domain;
          (upperOK, upperReason) = ScalarInDomain (ci_Upper interval) domain
      in issue_if (ci_Coverage interval \<in> seen) ''semantic.duplicate_interval_coverage'' (ip @ ''/coverage'')
           ''coverage is duplicated''
       @ snd (parseOpenProbability (ci_Coverage interval) (ip @ ''/coverage''))
       @ issue_if (\<not> lowerOK) ''semantic.interval_lower_domain'' (ip @ ''/lower'') lowerReason
       @ issue_if (\<not> upperOK) ''semantic.interval_upper_domain'' (ip @ ''/upper'') upperReason
       @ issue_if (lowerOK \<and> upperOK \<and>
             compared (\<lambda>c. c > 0) (CompareScalars (domain_kind_or_empty domain) (ci_Lower interval) (ci_Upper interval)))
           ''semantic.interval_order'' ip ''lower must not exceed upper''
       @ interval_issues domain pointer (Suc i) (insert (ci_Coverage interval) seen) intervals)"

definition validateCredibleIntervals :: "credible_intervals_representation \<Rightarrow> domain \<Rightarrow> string \<Rightarrow> semantic_issue list" where
  "validateCredibleIntervals value domain pointer = interval_issues domain pointer 0 {} (cr_Intervals value)"

text \<open>The table of compatible kinds.\<close>

definition representation_allowed :: "outcome_kind \<Rightarrow> representation_kind \<Rightarrow> bool" where
  "representation_allowed k r =
     (if k = OutcomeBinary then r \<in> {RepresentationProbability, RepresentationPoint}
      else if k = OutcomeCategorical \<or> k = OutcomeOrdinal then r \<in> {RepresentationPMF, RepresentationPoint}
      else if k = OutcomeNumeric \<or> k = OutcomeDate \<or> k = OutcomeDatetime then
        r \<in> {RepresentationBinnedPMF, RepresentationQuantiles, RepresentationCDF, RepresentationPoint,
             RepresentationCredibleIntervals}
      else False)"

definition validateRepresentation :: "forecast_representation \<Rightarrow> domain \<Rightarrow> string \<Rightarrow> semantic_issue list" where
  "validateRepresentation rep domain pointer =
     (case (Domain_Kind domain, Representation_Kind rep) of
        (Some domainKind, Some representationKind) \<Rightarrow>
          if \<not> representation_allowed domainKind representationKind
          then add ''semantic.representation_domain'' pointer
                 (go_quote representationKind @ '' is incompatible with '' @ go_quote domainKind @ '' outcome space'')
          else
            (case fr_Probability rep of
               Some p \<Rightarrow>
                 issue_if (rp_Outcome p \<noteq> True) ''semantic.probability_outcome'' (pointer @ ''/outcome'')
                   ''probability outcome must be true''
                 @ snd (parseProbability (rp_Probability p) (pointer @ ''/probability'') False)
             | None \<Rightarrow>
            (case fr_PMF rep of Some p \<Rightarrow> validatePMF p domain pointer | None \<Rightarrow>
            (case fr_BinnedPMF rep of Some p \<Rightarrow> validateBinnedPMF p domain pointer | None \<Rightarrow>
            (case fr_Quantiles rep of Some p \<Rightarrow> validateQuantiles p domain pointer | None \<Rightarrow>
            (case fr_CDF rep of Some p \<Rightarrow> validateCDF p domain pointer | None \<Rightarrow>
            (case fr_Point rep of Some p \<Rightarrow> validatePoint p domain pointer | None \<Rightarrow>
            (case fr_CredibleIntervals rep of Some p \<Rightarrow> validateCredibleIntervals p domain pointer
             | None \<Rightarrow> [])))))))
      | _ \<Rightarrow> [])"

section \<open>Representations without issues\<close>

definition opt_cons :: "'a option \<Rightarrow> 'a list \<Rightarrow> 'a list" where
  "opt_cons x xs = (case x of None \<Rightarrow> xs | Some y \<Rightarrow> y # xs)"

lemma opt_cons_simps [simp]: "opt_cons None xs = xs" "opt_cons (Some x) xs = x # xs"
  by (simp_all add: opt_cons_def)

lemma successively_opt_cons:
  "successively R (opt_cons p (x # xs)) \<longleftrightarrow> (\<forall>q. p = Some q \<longrightarrow> R q x) \<and> successively R (x # xs)"
  by (cases p) simp_all

lemma parseProbability_issues [simp]:
  "snd (parseProbability v p False) = [] \<longleftrightarrow> (\<exists>d. ParseProbability v = Inr d)"
  by (auto simp: parseProbability_def split: sum.split)

lemma parseProbability_Some: "ParseProbability v = Inr d \<Longrightarrow> parseProbability v p False = (Some d, [])"
  by (simp add: parseProbability_def)

lemma parseOpenProbability_issues [simp]:
  "snd (parseOpenProbability v p) = [] \<longleftrightarrow> (\<exists>d. ParseOpenProbability v = Inr d)"
  by (auto simp: parseOpenProbability_def split: sum.split)

lemma parseOpenProbability_Some: "ParseOpenProbability v = Inr d \<Longrightarrow> parseOpenProbability v p = (Some d, [])"
  by (simp add: parseOpenProbability_def)

lemma sum_from_issues:
  "snd (sum_from i p t b vs) = [] \<longleftrightarrow> (\<forall>v\<in>set vs. \<exists>d. ParseProbability v = Inr d)"
  by (induction vs arbitrary: i t b)
    (auto simp: parseProbability_def split: sum.split prod.split)

lemma sum_from_value:
  "list_all2 (\<lambda>v d. ParseProbability v = Inr d) vs ds \<Longrightarrow>
    snd (fst (sum_from i p t b vs)) = b \<and> dec_val (fst (fst (sum_from i p t b vs))) = dec_val t + (\<Sum>d\<leftarrow>ds. dec_val d)"
proof (induction vs ds arbitrary: i t rule: list_all2_induct)
  case Nil
  show ?case by simp
next
  case (Cons v vs d ds)
  from Cons.IH [of "Suc i" "Add t d"] Cons.hyps show ?case
    by (auto simp: parseProbability_Some Add_val split: prod.split)
qed

lemma all_parse_iff: "(\<forall>v\<in>set vs. \<exists>d. P v = Inr d) \<longleftrightarrow> (\<exists>ds. list_all2 (\<lambda>v d. P v = Inr d) vs ds)"
  by (induction vs) (auto simp: list_all2_Cons1)

lemma list_all2_fun: "list_all2 (\<lambda>v d. P v = Inr d) vs ds \<Longrightarrow> list_all2 (\<lambda>v d. P v = Inr d) vs es \<Longrightarrow> ds = es"
  by (induction vs arbitrary: ds es) (auto simp: list_all2_Cons1)

text \<open>A list of probability strings that denotes a distribution.\<close>

definition sums_to_one :: "string list \<Rightarrow> bool" where
  "sums_to_one vs \<longleftrightarrow>
     (\<exists>ds. list_all2 (\<lambda>v d. ParseProbability v = Inr d) vs ds \<and> (\<Sum>d\<leftarrow>ds. dec_val d) = 1)"

lemma sumProbabilities_one:
  "snd (sumProbabilities vs p) = [] \<and>
    \<not> (snd (fst (sumProbabilities vs p)) \<and> Cmp (fst (fst (sumProbabilities vs p))) One \<noteq> 0) \<longleftrightarrow> sums_to_one vs"
proof (cases "\<exists>ds. list_all2 (\<lambda>v d. ParseProbability v = Inr d) vs ds")
  case True
  then obtain ds where ds: "list_all2 (\<lambda>v d. ParseProbability v = Inr d) vs ds" by blast
  have one: "sums_to_one vs \<longleftrightarrow> (\<Sum>d\<leftarrow>ds. dec_val d) = 1"
    unfolding sums_to_one_def using ds list_all2_fun [OF ds] by blast
  have "snd (sumProbabilities vs p) = []"
    unfolding sumProbabilities_def sum_from_issues all_parse_iff using True by blast
  with sum_from_value [OF ds, of 0 p Zero True] show ?thesis
    unfolding one sumProbabilities_def by (simp add: Cmp_val)
next
  case False
  then show ?thesis
    by (auto simp: sumProbabilities_def sum_from_issues all_parse_iff sums_to_one_def)
qed

lemma duplicate_entries_Nil_iff:
  "(\<And>i. f i \<noteq> []) \<Longrightarrow> duplicate_entries ids f = [] \<longleftrightarrow> distinct ids"
  using dup_positions_from_Nil_iff [of 0 "{}" ids] by (cases "dup_positions_from 0 {} ids") (auto simp: duplicate_entries_def)

text \<open>The option set a mass function is checked against.\<close>

definition domain_options :: "domain \<Rightarrow> option_set option" where
  "domain_options d =
     (case dm_Categorical d of Some c \<Rightarrow> Some (od_OptionSet c) | None \<Rightarrow> map_option od_OptionSet (dm_Ordinal d))"

text \<open>
  C29: a mass function passes the validator exactly when it binds the option set of the question,
  names every option exactly once, and its probabilities are in the unit interval and sum to
  exactly one.
\<close>

theorem validatePMF_iff_distribution:
  "validatePMF v d p = [] \<longleftrightarrow>
     (case domain_options d of
        None \<Rightarrow> True
      | Some os \<Rightarrow>
          rf_ID (pm_OptionSetRef v) = os_ID os \<and> rf_Version (pm_OptionSetRef v) = os_Version os \<and>
          distinct (map pe_OptionID (pm_Entries v)) \<and>
          set (map pe_OptionID (pm_Entries v)) = set (map op_ID (os_Options os)) \<and>
          sums_to_one (map pe_Probability (pm_Entries v)))"
proof (cases "domain_options d")
  case None
  then show ?thesis by (auto simp: validatePMF_def domain_options_def split: option.splits)
next
  case (Some os)
  have os: "(case dm_Categorical d of Some c \<Rightarrow> Some (od_OptionSet c)
     | None \<Rightarrow> (case dm_Ordinal d of Some o' \<Rightarrow> Some (od_OptionSet o') | None \<Rightarrow> None)) = Some os"
    using Some by (auto simp: domain_options_def split: option.splits)
  show ?thesis
    unfolding Some option.case validatePMF_def os Let_def append_is_Nil_conv issue_if_Nil_iff
      sumProbabilities_one [symmetric, of _ "p @ ''/entries''"]
    using sameSlugSet_iff [of "set (map op_ID (os_Options os))" "set (map pe_OptionID (pm_Entries v))"]
    by (auto simp: duplicate_entries_Nil_iff)
qed

section \<open>Ordered representations\<close>

text \<open>Two scalars of a kind in non-decreasing, or in strictly increasing, order.\<close>

definition scalar_le :: "outcome_kind \<Rightarrow> scalar_value \<Rightarrow> scalar_value \<Rightarrow> bool" where
  "scalar_le k a b \<longleftrightarrow> (\<exists>c\<le>0. CompareScalars k a b = Inr c)"

definition scalar_less :: "outcome_kind \<Rightarrow> scalar_value \<Rightarrow> scalar_value \<Rightarrow> bool" where
  "scalar_less k a b \<longleftrightarrow> (\<exists>c<0. CompareScalars k a b = Inr c)"

lemma CompareScalars_Inr:
  "CompareScalars k a b = Inr c \<longleftrightarrow>
    (\<exists>p q. parseScalarValue a k = Inr p \<and> parseScalarValue b k = Inr q \<and> c = compareParsed p q)"
  by (auto simp: CompareScalars_def bindR_eq_Inr_iff)

lemma parseScalarValue_kind: "parseScalarValue v k = Inr p \<Longrightarrow> ps_kind p = k"
  by (auto simp: parseScalarValue_def empty_scalar_def dest: parseTextScalar_kind split: if_splits option.splits)

lemma scalar_less_trans:
  assumes "scalar_less k a b" "scalar_less k b c"
  shows "scalar_less k a c"
proof -
  from assms obtain p q r where p: "parseScalarValue a k = Inr p" "parseScalarValue b k = Inr q"
    "parseScalarValue c k = Inr r" "compareParsed p q < 0" "compareParsed q r < 0"
    by (auto simp: scalar_less_def CompareScalars_Inr)
  from p(1-3) have "ps_kind p = k" "ps_kind q = k" "ps_kind r = k" by (auto dest: parseScalarValue_kind)
  from scalar_cmp.less_trans [OF this p(4,5)] p show ?thesis
    by (auto simp: scalar_less_def CompareScalars_Inr)
qed

lemma scalar_le_trans:
  assumes "scalar_le k a b" "scalar_le k b c"
  shows "scalar_le k a c"
proof -
  from assms obtain p q r where p: "parseScalarValue a k = Inr p" "parseScalarValue b k = Inr q"
    "parseScalarValue c k = Inr r" "compareParsed p q \<le> 0" "compareParsed q r \<le> 0"
    by (auto simp: scalar_le_def CompareScalars_Inr)
  from p(1-3) have "ps_kind p = k" "ps_kind q = k" "ps_kind r = k" by (auto dest: parseScalarValue_kind)
  from scalar_cmp.le_trans [OF this p(4,5)] p show ?thesis
    by (auto simp: scalar_le_def CompareScalars_Inr)
qed

lemma member_parses:
  assumes "fst (ScalarInDomain v d)" "Domain_Kind d = Some k"
  shows "\<exists>p. parseScalarValue v k = Inr p"
  using assms by (auto simp: ScalarInDomain_def split: sum.splits)

lemma compared_members:
  assumes "fst (ScalarInDomain a d)" "fst (ScalarInDomain b d)" "Domain_Kind d = Some k"
  shows "compared (\<lambda>c. c > 0) (CompareScalars k a b) \<longleftrightarrow> \<not> scalar_le k a b"
    and "compared (\<lambda>c. c \<ge> 0) (CompareScalars k a b) \<longleftrightarrow> \<not> scalar_less k a b"
proof -
  from member_parses [OF assms(1,3)] member_parses [OF assms(2,3)]
  obtain c where "CompareScalars k a b = Inr c" by (auto simp: CompareScalars_def)
  then show "compared (\<lambda>c. c > 0) (CompareScalars k a b) \<longleftrightarrow> \<not> scalar_le k a b"
    "compared (\<lambda>c. c \<ge> 0) (CompareScalars k a b) \<longleftrightarrow> \<not> scalar_less k a b"
    by (auto simp: compared_def scalar_le_def scalar_less_def)
qed

lemma successively_parsed:
  "(\<exists>ls. list_all2 (\<lambda>x l. f x = Inr l) (x # xs) ls \<and> successively R (opt_cons p ls)) \<longleftrightarrow>
    (\<exists>l. f x = Inr l \<and> (\<forall>q. p = Some q \<longrightarrow> R q l) \<and>
      (\<exists>ls. list_all2 (\<lambda>x l. f x = Inr l) xs ls \<and> successively R (opt_cons (Some l) ls)))"
proof -
  have "(\<exists>ls. list_all2 (\<lambda>x l. f x = Inr l) (x # xs) ls \<and> successively R (opt_cons p ls)) \<longleftrightarrow>
      (\<exists>l ls. f x = Inr l \<and> list_all2 (\<lambda>x l. f x = Inr l) xs ls \<and> successively R (opt_cons p (l # ls)))"
    unfolding list_all2_Cons1 by blast
  then show ?thesis unfolding successively_opt_cons [of _ p] by auto
qed

lemma quantile_points_Nil_iff:
  assumes k: "Domain_Kind d = Some k" and pv: "\<forall>v. pv = Some v \<longrightarrow> fst (ScalarInDomain v d)"
  shows "quantile_points d p i pl pv pts = [] \<longleftrightarrow>
    (\<exists>ls. list_all2 (\<lambda>pt l. ParseOpenProbability (qp_Level pt) = Inr l) pts ls \<and>
      successively (\<lambda>a b. dec_val a < dec_val b) (opt_cons pl ls)) \<and>
    (\<forall>pt\<in>set pts. fst (ScalarInDomain (qp_Value pt) d)) \<and>
    successively (scalar_le k) (opt_cons pv (map qp_Value pts))"
  using pv
proof (induction pts arbitrary: i pl pv)
  case Nil
  then show ?case by (cases pl; cases pv) auto
next
  case (Cons pt pts)
  have kk: "domain_kind_or_empty d = k" using k by (simp add: domain_kind_or_empty_def)
  obtain member reason where m: "ScalarInDomain (qp_Value pt) d = (member, reason)" by fastforce
  show ?case
  proof (cases "ParseOpenProbability (qp_Level pt)")
    case (Inl e)
    then show ?thesis
      by (auto simp: Let_def parseOpenProbability_def list_all2_Cons1 split: prod.splits)
  next
    case (Inr l)
    show ?thesis
    proof (cases member)
      case False
      with m show ?thesis by (auto simp: Let_def split: prod.splits)
    next
      case True
      with m have mem: "fst (ScalarInDomain (qp_Value pt) d)" by simp
      have head: "quantile_points d p i pl pv (pt # pts) = [] \<longleftrightarrow>
          (\<forall>q. pl = Some q \<longrightarrow> dec_val q < dec_val l) \<and> (\<forall>v. pv = Some v \<longrightarrow> scalar_le k v (qp_Value pt)) \<and>
          quantile_points d p (Suc i) (Some l) (Some (qp_Value pt)) pts = []"
        using compared_members(1) [OF _ mem k] Cons.prems True m
        by (cases pl; cases pv) (auto simp: Let_def parseOpenProbability_Some [OF Inr] Cmp_val kk)
      have IH: "quantile_points d p (Suc i) (Some l) (Some (qp_Value pt)) pts = [] \<longleftrightarrow>
          (\<exists>ls. list_all2 (\<lambda>pt l. ParseOpenProbability (qp_Level pt) = Inr l) pts ls \<and>
            successively (\<lambda>a b. dec_val a < dec_val b) (opt_cons (Some l) ls)) \<and>
          (\<forall>pt\<in>set pts. fst (ScalarInDomain (qp_Value pt) d)) \<and>
          successively (scalar_le k) (opt_cons (Some (qp_Value pt)) (map qp_Value pts))"
        by (rule Cons.IH) (simp add: mem)
      show ?thesis
        unfolding head IH successively_parsed list.map successively_opt_cons [of _ pv]
        using mem Inr by auto
    qed
  qed
qed

lemma dec_sorted: "successively (\<lambda>a b. dec_val a < dec_val b) ls \<longleftrightarrow> sorted_wrt (\<lambda>a b. dec_val a < dec_val b) ls"
  "successively (\<lambda>a b. dec_val a \<le> dec_val b) ls \<longleftrightarrow> sorted_wrt (\<lambda>a b. dec_val a \<le> dec_val b) ls"
  by (intro successively_conv_sorted_wrt transpI; simp)+

lemma scalars_sorted: "successively (scalar_le k) vs \<longleftrightarrow> sorted_wrt (scalar_le k) vs"
  "successively (scalar_less k) vs \<longleftrightarrow> sorted_wrt (scalar_less k) vs"
  by (intro successively_conv_sorted_wrt transpI; blast intro: scalar_le_trans scalar_less_trans)+

text \<open>
  C30: quantiles pass the validator exactly when their levels are strictly increasing numbers
  strictly between 0 and 1, and their values are members of the domain in non-decreasing order.
\<close>

theorem validateQuantiles_iff_ordered:
  assumes "Domain_Kind d = Some k"
  shows "validateQuantiles q d p = [] \<longleftrightarrow>
    (\<exists>ls. list_all2 (\<lambda>pt l. ParseOpenProbability (qp_Level pt) = Inr l) (qn_Points q) ls \<and>
      sorted_wrt (\<lambda>a b. dec_val a < dec_val b) ls) \<and>
    (\<forall>pt\<in>set (qn_Points q). fst (ScalarInDomain (qp_Value pt) d)) \<and>
    sorted_wrt (scalar_le k) (map qp_Value (qn_Points q))"
  unfolding validateQuantiles_def quantile_points_Nil_iff [OF assms, of None, simplified]
  by (simp add: dec_sorted scalars_sorted)

lemma cdf_probabilities:
  "list_all2 (\<lambda>pt q. ParseProbability (cp_Probability pt) = Inr q) pts ps \<Longrightarrow>
    fst (cdf_points d p i pv pp pts) = map Some ps"
proof (induction pts ps arbitrary: i pv pp rule: list_all2_induct)
  case Nil
  show ?case by simp
next
  case (Cons pt pts q ps)
  then show ?case by (simp add: Let_def parseProbability_Some split: prod.split) (metis fst_conv)
qed

lemma cdf_points_Nil_iff:
  assumes k: "Domain_Kind d = Some k" and pv: "\<forall>v. pv = Some v \<longrightarrow> fst (ScalarInDomain v d)"
  shows "snd (cdf_points d p i pv pp pts) = [] \<longleftrightarrow>
    (\<exists>ps. list_all2 (\<lambda>pt q. ParseProbability (cp_Probability pt) = Inr q) pts ps \<and>
      successively (\<lambda>a b. dec_val a \<le> dec_val b) (opt_cons pp ps)) \<and>
    (\<forall>pt\<in>set pts. fst (ScalarInDomain (cp_Value pt) d)) \<and>
    successively (scalar_less k) (opt_cons pv (map cp_Value pts))"
  using pv
proof (induction pts arbitrary: i pp pv)
  case Nil
  then show ?case by (cases pp; cases pv) auto
next
  case (Cons pt pts)
  have kk: "domain_kind_or_empty d = k" using k by (simp add: domain_kind_or_empty_def)
  obtain member reason where m: "ScalarInDomain (cp_Value pt) d = (member, reason)" by fastforce
  show ?case
  proof (cases "ParseProbability (cp_Probability pt)")
    case (Inl e)
    then show ?thesis
      by (auto simp: Let_def parseProbability_def list_all2_Cons1 split: prod.splits)
  next
    case (Inr q)
    show ?thesis
    proof (cases member)
      case False
      with m show ?thesis by (auto simp: Let_def split: prod.splits)
    next
      case True
      with m have mem: "fst (ScalarInDomain (cp_Value pt) d)" by simp
      have head: "snd (cdf_points d p i pv pp (pt # pts)) = [] \<longleftrightarrow>
          (\<forall>a. pp = Some a \<longrightarrow> dec_val a \<le> dec_val q) \<and> (\<forall>v. pv = Some v \<longrightarrow> scalar_less k v (cp_Value pt)) \<and>
          snd (cdf_points d p (Suc i) (Some (cp_Value pt)) (Some q) pts) = []"
        using compared_members(2) [OF _ mem k] Cons.prems True m
        by (cases pp; cases pv; cases "cdf_points d p (Suc i) (Some (cp_Value pt)) (Some q) pts")
          (auto simp: Let_def parseProbability_Some [OF Inr] Cmp_val kk)
      have IH: "snd (cdf_points d p (Suc i) (Some (cp_Value pt)) (Some q) pts) = [] \<longleftrightarrow>
          (\<exists>ps. list_all2 (\<lambda>pt q. ParseProbability (cp_Probability pt) = Inr q) pts ps \<and>
            successively (\<lambda>a b. dec_val a \<le> dec_val b) (opt_cons (Some q) ps)) \<and>
          (\<forall>pt\<in>set pts. fst (ScalarInDomain (cp_Value pt) d)) \<and>
          successively (scalar_less k) (opt_cons (Some (cp_Value pt)) (map cp_Value pts))"
        by (rule Cons.IH) (simp add: mem)
      show ?thesis
        unfolding head IH successively_parsed list.map successively_opt_cons [of _ pv]
        using mem Inr by auto
    qed
  qed
qed

definition cdf_monotone :: "cdf_representation \<Rightarrow> bool" where
  "cdf_monotone c \<longleftrightarrow>
     (\<exists>ps l r. list_all2 (\<lambda>pt q. ParseProbability (cp_Probability pt) = Inr q) (cd_Points c) ps \<and>
        sorted_wrt (\<lambda>a b. dec_val a \<le> dec_val b) ps \<and>
        ParseProbability (cd_LeftTailProbability c) = Inr l \<and> ParseProbability (cd_RightTailProbability c) = Inr r \<and>
        (ps \<noteq> [] \<longrightarrow> dec_val l \<le> dec_val (hd ps) \<and> dec_val (last ps) + dec_val r = 1))"

text \<open>
  C31: a cumulative distribution passes the validator exactly when its points are members of the
  domain in strictly increasing order, its probabilities are non-decreasing in the unit interval,
  the left tail does not exceed the first of them, and the right tail completes the last to one.
\<close>

theorem validateCDF_iff_monotone:
  assumes k: "Domain_Kind d = Some k"
  shows "validateCDF c d p = [] \<longleftrightarrow>
    cdf_monotone c \<and> (\<forall>pt\<in>set (cd_Points c). fst (ScalarInDomain (cp_Value pt) d)) \<and>
    sorted_wrt (scalar_less k) (map cp_Value (cd_Points c))"
proof -
  let ?run = "cdf_points d p 0 None None (cd_Points c)"
  let ?l = "parseProbability (cd_LeftTailProbability c) (p @ ''/left_tail_probability'') False"
  let ?r = "parseProbability (cd_RightTailProbability c) (p @ ''/right_tail_probability'') False"
  have issues: "snd ?run = [] \<longleftrightarrow>
      (\<exists>ps. list_all2 (\<lambda>pt q. ParseProbability (cp_Probability pt) = Inr q) (cd_Points c) ps \<and>
        sorted_wrt (\<lambda>a b. dec_val a \<le> dec_val b) ps) \<and>
      (\<forall>pt\<in>set (cd_Points c). fst (ScalarInDomain (cp_Value pt) d)) \<and>
      sorted_wrt (scalar_less k) (map cp_Value (cd_Points c))"
    unfolding cdf_points_Nil_iff [OF k, of None, simplified] by (simp add: dec_sorted scalars_sorted)
  show ?thesis
  proof (cases "snd ?run = [] \<and> snd ?l = [] \<and> snd ?r = []")
    case False
    moreover have "validateCDF c d p = [] \<Longrightarrow> snd ?run = [] \<and> snd ?l = [] \<and> snd ?r = []"
      by (simp add: validateCDF_def Let_def case_prod_beta del: parseProbability_issues)
    moreover have "cdf_monotone c \<and> (\<forall>pt\<in>set (cd_Points c). fst (ScalarInDomain (cp_Value pt) d)) \<and>
        sorted_wrt (scalar_less k) (map cp_Value (cd_Points c)) \<Longrightarrow> snd ?run = [] \<and> snd ?l = [] \<and> snd ?r = []"
      unfolding issues cdf_monotone_def by auto
    ultimately show ?thesis by blast
  next
    case True
    then obtain ps l r where ps: "list_all2 (\<lambda>pt q. ParseProbability (cp_Probability pt) = Inr q) (cd_Points c) ps"
      and sorted: "sorted_wrt (\<lambda>a b. dec_val a \<le> dec_val b) ps"
      and l: "ParseProbability (cd_LeftTailProbability c) = Inr l"
      and r: "ParseProbability (cd_RightTailProbability c) = Inr r"
      and rest: "\<forall>pt\<in>set (cd_Points c). fst (ScalarInDomain (cp_Value pt) d)"
        "sorted_wrt (scalar_less k) (map cp_Value (cd_Points c))"
      unfolding issues by auto
    have unique: "ps' = ps" if "list_all2 (\<lambda>pt q. ParseProbability (cp_Probability pt) = Inr q) (cd_Points c) ps'" for ps'
      using list_all2_fun [of "\<lambda>pt. ParseProbability (cp_Probability pt)"] ps that by blast
    have "cdf_monotone c \<longleftrightarrow> (ps \<noteq> [] \<longrightarrow> dec_val l \<le> dec_val (hd ps) \<and> dec_val (last ps) + dec_val r = 1)"
    proof
      assume "cdf_monotone c"
      then obtain ps' where "list_all2 (\<lambda>pt q. ParseProbability (cp_Probability pt) = Inr q) (cd_Points c) ps'"
        "ps' \<noteq> [] \<longrightarrow> dec_val l \<le> dec_val (hd ps') \<and> dec_val (last ps') + dec_val r = 1"
        unfolding cdf_monotone_def l r by auto
      with unique show "ps \<noteq> [] \<longrightarrow> dec_val l \<le> dec_val (hd ps) \<and> dec_val (last ps) + dec_val r = 1" by blast
    next
      assume "ps \<noteq> [] \<longrightarrow> dec_val l \<le> dec_val (hd ps) \<and> dec_val (last ps) + dec_val r = 1"
      with ps sorted l r show "cdf_monotone c" unfolding cdf_monotone_def by blast
    qed
    moreover have "validateCDF c d p = [] \<longleftrightarrow> (ps \<noteq> [] \<longrightarrow> dec_val l \<le> dec_val (hd ps) \<and> dec_val (last ps) + dec_val r = 1)"
      using True by (cases "ps = []")
        (simp_all add: validateCDF_def Let_def case_prod_beta cdf_probabilities [OF ps] parseProbability_Some [OF l]
          parseProbability_Some [OF r] hd_map last_map Cmp_val Add_val not_less)
    ultimately show ?thesis using rest by blast
  qed
qed

lemma interval_issues_Nil_iff:
  assumes k: "Domain_Kind d = Some k"
  shows "interval_issues d p i seen is = [] \<longleftrightarrow>
    distinct (map ci_Coverage is) \<and> set (map ci_Coverage is) \<inter> seen = {} \<and>
    (\<forall>iv\<in>set is. (\<exists>c. ParseOpenProbability (ci_Coverage iv) = Inr c) \<and> fst (ScalarInDomain (ci_Lower iv) d) \<and>
       fst (ScalarInDomain (ci_Upper iv) d) \<and> scalar_le k (ci_Lower iv) (ci_Upper iv))"
proof (induction "is" arbitrary: i seen)
  case Nil
  show ?case by simp
next
  case (Cons iv "is")
  have kk: "domain_kind_or_empty d = k" using k by (simp add: domain_kind_or_empty_def)
  show ?case
    using Cons [of "Suc i" "insert (ci_Coverage iv) seen"] compared_members(1) [OF _ _ k, of "ci_Lower iv" "ci_Upper iv"]
    by (auto simp: Let_def kk split: prod.splits)
qed

text \<open>
  C32: credible intervals pass the validator exactly when their coverages are distinct numbers
  strictly between 0 and 1 and each interval has two members of the domain in order.
\<close>

theorem validateCredibleIntervals_iff:
  assumes "Domain_Kind d = Some k"
  shows "validateCredibleIntervals v d p = [] \<longleftrightarrow>
    distinct (map ci_Coverage (cr_Intervals v)) \<and>
    (\<forall>iv\<in>set (cr_Intervals v). (\<exists>c. ParseOpenProbability (ci_Coverage iv) = Inr c) \<and>
       fst (ScalarInDomain (ci_Lower iv) d) \<and> fst (ScalarInDomain (ci_Upper iv) d) \<and>
       scalar_le k (ci_Lower iv) (ci_Upper iv))"
  by (simp add: validateCredibleIntervals_def interval_issues_Nil_iff [OF assms])

section \<open>Concrete representations\<close>

definition real_line :: domain where
  "real_line =
     \<lparr>dm_Binary = None, dm_Categorical = None, dm_Ordinal = None,
      dm_Numeric = Some \<lparr>sd_Kind = OutcomeNumeric, sd_Bounds = None,
        sd_Values = \<lparr>vp_Continuous = Some \<lparr>cv_Kind = ValuesContinuous\<rparr>, vp_Step = None, vp_Allowed = None\<rparr>,
        sd_BinSets = None, nd_ElicitationScale = None, nd_Unit = None\<rparr>,
      dm_Date = None, dm_Datetime = None\<rparr>"

lemma real_line_kind: "Domain_Kind real_line = Some OutcomeNumeric"
  by (simp add: real_line_def Domain_Kind_def)

theorem validateQuantiles_iff_ordered_witness:
  "scalar_le OutcomeNumeric (text_scalar ''-1'') (text_scalar ''2.5'')"
proof -
  let ?q = "\<lparr>qn_Kind = RepresentationQuantiles, qn_Interpolation = ''none'', qn_Points =
      [\<lparr>qp_Level = ''0.1'', qp_Value = text_scalar ''-1''\<rparr>, \<lparr>qp_Level = ''0.9'', qp_Value = text_scalar ''2.5''\<rparr>]\<rparr>"
  have "validateQuantiles ?q real_line ''/q'' = []" by code_simp
  with validateQuantiles_iff_ordered [OF real_line_kind, of ?q "''/q''"] show ?thesis by simp
qed

theorem validateCDF_iff_monotone_witness:
  "scalar_less OutcomeNumeric (text_scalar ''0'') (text_scalar ''1'')"
proof -
  let ?c = "\<lparr>cd_Kind = RepresentationCDF, cd_Interpolation = ''linear'', cd_Points =
      [\<lparr>cp_Value = text_scalar ''0'', cp_Probability = ''0.25''\<rparr>, \<lparr>cp_Value = text_scalar ''1'', cp_Probability = ''0.75''\<rparr>],
      cd_LeftTailProbability = ''0.25'', cd_RightTailProbability = ''0.25''\<rparr>"
  have "validateCDF ?c real_line ''/c'' = []" by code_simp
  with validateCDF_iff_monotone [OF real_line_kind, of ?c "''/c''"] show ?thesis by simp
qed

theorem validateCredibleIntervals_iff_witness:
  "fst (ScalarInDomain (text_scalar ''3'') real_line)"
proof -
  let ?v = "\<lparr>cr_Kind = RepresentationCredibleIntervals, cr_Intervals =
      [\<lparr>ci_Coverage = ''0.9'', ci_IntervalKind = ''central'', ci_Lower = text_scalar ''1'', ci_Upper = text_scalar ''3''\<rparr>]\<rparr>"
  have "validateCredibleIntervals ?v real_line ''/i'' = []" by code_simp
  with validateCredibleIntervals_iff [OF real_line_kind, of ?v "''/i''"] show ?thesis by simp
qed

end
