(* ===== verification/Conditional_Graph.thy ===== *)
theory Conditional_Graph
  imports Ledger_Prelude
begin

text \<open>
  \<open>conditionalCycle\<close> of \<open>internal/validation/semantic.go\<close>: the depth-first search that looks for a
  cycle among the conditional relationships.  A graph is an association list from a node to its
  children; the code visits the keys of a Go map in an unspecified order, here in the order of
  the list.  The search is proved to terminate and to answer exactly whether the graph has a
  cycle, so the answer does not depend on that order.
\<close>

type_synonym 'n graph = "('n \<times> 'n list) list"

definition children :: "'n graph \<Rightarrow> 'n \<Rightarrow> 'n list" where
  "children g n = (case map_of g n of None \<Rightarrow> [] | Some cs \<Rightarrow> cs)"

definition nodes :: "'n graph \<Rightarrow> 'n set" where
  "nodes g = fst ` set g"

lemma finite_nodes [simp]: "finite (nodes g)"
  by (simp add: nodes_def)

lemma children_outside: "n \<notin> nodes g \<Longrightarrow> children g n = []"
  by (simp add: children_def nodes_def map_of_eq_None_iff [THEN iffD2])

text \<open>
  \<open>visit\<close> and the loop over the children.  \<open>visiting\<close> is the set of nodes marked true; the code
  unmarks a node when it leaves it, so the callee's marks are those of the caller.  The result
  is the answer and the set of visited nodes.
\<close>

function (sequential) visit :: "'n graph \<Rightarrow> 'n set \<Rightarrow> 'n set \<Rightarrow> 'n \<Rightarrow> bool \<times> 'n set"
  and visit_children :: "'n graph \<Rightarrow> 'n set \<Rightarrow> 'n set \<Rightarrow> 'n list \<Rightarrow> bool \<times> 'n set" where
  "visit g visiting visited node =
     (if node \<in> visiting then (True, visited)
      else if node \<in> visited then (False, visited)
      else
        (case visit_children g (insert node visiting) visited (children g node) of
           (True, visited') \<Rightarrow> (True, visited')
         | (False, visited') \<Rightarrow> (False, insert node visited')))"
| "visit_children g visiting visited [] = (False, visited)"
| "visit_children g visiting visited (child # rest) =
     (case visit g visiting visited child of
        (True, visited') \<Rightarrow> (True, visited')
      | (False, visited') \<Rightarrow> visit_children g visiting visited' rest)"
  by pat_completeness auto

termination
proof (relation "measures
    [case_sum (\<lambda>(g, S, V, n). card (nodes g - S)) (\<lambda>(g, S, V, ns). card (nodes g - S)),
     case_sum (\<lambda>(g, S, V, n). 1) (\<lambda>(g, S, V, ns). 2 * length ns)]")
  fix g :: "'n graph" and S V :: "'n set" and n
  assume n: "n \<notin> S"
  show "(Inr (g, insert n S, V, children g n), Inl (g, S, V, n)) \<in> measures
    [case_sum (\<lambda>(g, S, V, n). card (nodes g - S)) (\<lambda>(g, S, V, ns). card (nodes g - S)),
     case_sum (\<lambda>(g, S, V, n). 1) (\<lambda>(g, S, V, ns). 2 * length ns)]"
  proof (cases "n \<in> nodes g")
    case True
    with n have "nodes g - insert n S \<subset> nodes g - S" by blast
    then have "card (nodes g - insert n S) < card (nodes g - S)" by (intro psubset_card_mono) simp_all
    then show ?thesis by simp
  next
    case False
    then have "nodes g - insert n S = nodes g - S" by blast
    with children_outside [OF False] show ?thesis by simp
  qed
qed simp_all

declare visit.simps [simp del] visit_children.simps [simp del]

fun visit_all :: "'n graph \<Rightarrow> 'n set \<Rightarrow> 'n list \<Rightarrow> bool" where
  "visit_all g visited [] = False"
| "visit_all g visited (node # rest) =
     (if node \<in> visited then visit_all g visited rest
      else (case visit g {} visited node of
              (True, _) \<Rightarrow> True
            | (False, visited') \<Rightarrow> visit_all g visited' rest))"

definition conditionalCycle :: "'n graph \<Rightarrow> bool" where
  "conditionalCycle g = visit_all g {} (map fst g)"

section \<open>Correctness\<close>

definition edges :: "'n graph \<Rightarrow> ('n \<times> 'n) set" where
  "edges g = {(a, b). b \<in> set (children g a)}"

definition cyclic :: "'n graph \<Rightarrow> bool" where
  "cyclic g \<longleftrightarrow> (\<exists>n. (n, n) \<in> (edges g)\<^sup>+)"

lemma visit_sound:
  "fst (visit g S V n) \<Longrightarrow> \<forall>s\<in>S. (s, n) \<in> (edges g)\<^sup>+ \<Longrightarrow> cyclic g"
  "fst (visit_children g S V ns) \<Longrightarrow> \<forall>s\<in>S. \<forall>c\<in>set ns. (s, c) \<in> (edges g)\<^sup>+ \<Longrightarrow> cyclic g"
proof (induction g S V n and g S V ns rule: visit_visit_children.induct)
  case (1 g S V n)
  show ?case
  proof (cases "n \<in> S")
    case True
    with 1(3) show ?thesis by (auto simp: cyclic_def)
  next
    case False
    with 1(2) have V: "n \<notin> V" and f: "fst (visit_children g (insert n S) V (children g n))"
      by (auto simp: visit.simps [of g S V n] split: prod.splits bool.splits if_splits)
    have "\<forall>s\<in>insert n S. \<forall>c\<in>set (children g n). (s, c) \<in> (edges g)\<^sup>+"
      using 1(3) by (auto simp: edges_def intro: trancl_into_trancl)
    with 1(1) [OF False V f] show ?thesis .
  qed
next
  case (2 g S V)
  then show ?case by (simp add: visit_children.simps)
next
  case (3 g S V c ns)
  then show ?case
    by (cases "visit g S V c")
      (auto simp: visit_children.simps(2) [of g S V c ns] split: bool.splits)
qed

text \<open>A set of visited nodes is closed under children and on no cycle.\<close>

definition settled :: "'n graph \<Rightarrow> 'n set \<Rightarrow> bool" where
  "settled g V \<longleftrightarrow> (\<forall>v\<in>V. set (children g v) \<subseteq> V \<and> (v, v) \<notin> (edges g)\<^sup>+)"

lemma settled_closed: "(v, w) \<in> (edges g)\<^sup>+ \<Longrightarrow> settled g V \<Longrightarrow> v \<in> V \<Longrightarrow> w \<in> V"
  by (induction rule: trancl_induct) (auto simp: settled_def edges_def)

lemma settled_insert:
  assumes V: "settled g V" and c: "set (children g n) \<subseteq> V" and n: "n \<notin> V"
  shows "settled g (insert n V)"
proof -
  have "(n, n) \<notin> (edges g)\<^sup>+"
  proof
    assume "(n, n) \<in> (edges g)\<^sup>+"
    then obtain m where "(n, m) \<in> edges g" "(m, n) \<in> (edges g)\<^sup>*" by (blast dest: tranclD)
    moreover from this c have "m \<in> V" by (auto simp: edges_def)
    ultimately have "n \<in> V" using settled_closed [OF _ V] by (auto simp: rtrancl_eq_or_trancl)
    with n show False by simp
  qed
  with V c show ?thesis by (auto simp: settled_def)
qed

lemma visit_complete:
  "visit g S V n = (False, V') \<Longrightarrow> settled g V \<Longrightarrow> V \<inter> S = {} \<Longrightarrow>
    settled g V' \<and> V \<subseteq> V' \<and> n \<in> V' \<and> V' \<inter> S = {}"
  "visit_children g S V ns = (False, V') \<Longrightarrow> settled g V \<Longrightarrow> V \<inter> S = {} \<Longrightarrow>
    settled g V' \<and> V \<subseteq> V' \<and> set ns \<subseteq> V' \<and> V' \<inter> S = {}"
proof (induction g S V n and g S V ns arbitrary: V' and V' rule: visit_visit_children.induct)
  case (1 g S V n)
  from 1(2) have S: "n \<notin> S" by (auto simp: visit.simps [of g S V n] split: if_splits)
  show ?case
  proof (cases "n \<in> V")
    case True
    with 1(2) S have "V' = V" by (simp add: visit.simps [of g S V n])
    with 1(3,4) True show ?thesis by simp
  next
    case False
    with 1(2) S obtain U where U: "visit_children g (insert n S) V (children g n) = (False, U)" "V' = insert n U"
      by (auto simp: visit.simps [of g S V n] split: prod.splits bool.splits)
    from 1(1) [OF S False U(1) 1(3)] 1(4) False
    have "settled g U" "V \<subseteq> U" "set (children g n) \<subseteq> U" "U \<inter> insert n S = {}" by auto
    with settled_insert [of g U n] S U(2) show ?thesis by auto
  qed
next
  case (2 g S V)
  then show ?case by (simp add: visit_children.simps)
next
  case (3 g S V c ns)
  from 3(3) obtain U where U: "visit g S V c = (False, U)" "visit_children g S U ns = (False, V')"
    by (auto simp: visit_children.simps(2) [of g S V c ns] split: prod.splits bool.splits)
  from 3(1) [OF U(1) 3(4,5)] have "settled g U" "V \<subseteq> U" "c \<in> U" "U \<inter> S = {}" by auto
  with 3(2) [OF U(1) [symmetric] _ U(2)] show ?case by auto
qed

lemma visit_all_iff:
  "settled g V \<Longrightarrow> visit_all g V ns \<Longrightarrow> cyclic g"
  "settled g V \<Longrightarrow> \<not> visit_all g V ns \<Longrightarrow> \<exists>U. settled g U \<and> V \<subseteq> U \<and> set ns \<subseteq> U"
proof (induction g V ns rule: visit_all.induct)
  case (2 g V n ns)
  {
    case 1
    then show ?case
      using 2 visit_sound(1) [of g "{}" V n] visit_complete(1) [of g "{}" V n]
      by (cases "visit g {} V n") (auto split: if_splits bool.splits)
  next
    case 2
    show ?case
    proof (cases "n \<in> V")
      case True
      with 2(2) have "\<not> visit_all g V ns" by simp
      from "2.IH"(2) [OF True 2(1) this] True show ?thesis by auto
    next
      case False
      with 2(2) obtain U where U: "visit g {} V n = (False, U)" "\<not> visit_all g U ns"
        by (auto split: prod.splits bool.splits)
      from visit_complete(1) [OF U(1) 2(1)] have U': "settled g U" "V \<subseteq> U" "n \<in> U" by auto
      from "2.IH"(4) [OF False U(1) [symmetric] refl U'(1) U(2)] U' show ?thesis by auto
    qed
  }
qed auto

lemma conditionalCycle_correct: "conditionalCycle g \<longleftrightarrow> cyclic g"
proof
  assume "conditionalCycle g"
  then show "cyclic g"
    unfolding conditionalCycle_def by (rule visit_all_iff(1) [rotated]) (simp add: settled_def)
next
  assume c: "cyclic g"
  show "conditionalCycle g"
  proof (rule ccontr)
    assume "\<not> conditionalCycle g"
    then obtain U where U: "settled g U" "fst ` set g \<subseteq> U"
      using visit_all_iff(2) [of g "{}" "map fst g"] by (auto simp: conditionalCycle_def settled_def)
    from c obtain n where n: "(n, n) \<in> (edges g)\<^sup>+" by (auto simp: cyclic_def)
    then obtain m where "(n, m) \<in> edges g" by (blast dest: tranclD)
    then have "children g n \<noteq> []" by (auto simp: edges_def)
    then have "n \<in> nodes g" by (metis children_outside)
    with U n show False by (auto simp: settled_def nodes_def)
  qed
qed

text \<open>
  C27: the search terminates on every graph and answers true exactly when the conditional
  relationships contain a cycle; so the order in which the nodes are tried does not matter.
\<close>

theorem conditionalCycle_iff_cyclic:
  "(conditionalCycle g \<longleftrightarrow> cyclic g) \<and> (map_of g' = map_of g \<longrightarrow> conditionalCycle g' = conditionalCycle g)"
proof -
  have "map_of g' = map_of g \<Longrightarrow> edges g' = edges g" by (simp add: edges_def children_def)
  then show ?thesis by (simp add: conditionalCycle_correct cyclic_def)
qed

text \<open>The property on a concrete pair of graphs: a chain, and the chain closed to a cycle.\<close>

theorem conditionalCycle_iff_cyclic_witness:
  "\<not> cyclic [(''a'', [''b'']), (''b'', [''c'']), (''c'', [])] \<and> cyclic [(''a'', [''b'']), (''b'', [''a''])]"
proof -
  have "\<not> conditionalCycle [(''a'', [''b'']), (''b'', [''c'']), (''c'', [])]"
    "conditionalCycle [(''a'', [''b'']), (''b'', [''a''])]" by code_simp+
  then show ?thesis by (simp only: conditionalCycle_iff_cyclic simp_thms)
qed

end
