(* ===== verification/Example_Ledger.thy ===== *)
theory Example_Ledger
  imports Ledger_Model
begin

text \<open>
  A small concrete ledger on which the witnesses evaluate the theorems of the other theories:
  one binary question with one revision and two public forecasts, the second superseding the
  first.
\<close>

definition binary_domain_example :: domain where
  "binary_domain_example =
     \<lparr>dm_Binary = Some \<lparr>bn_Kind = OutcomeBinary\<rparr>, dm_Categorical = None, dm_Ordinal = None,
      dm_Numeric = None, dm_Date = None, dm_Datetime = None\<rparr>"

definition example_revision :: question_revision where
  "example_revision =
     \<lparr>qr_ID = ''r1'', qr_EffectiveAt = ''2024-01-01T00:00:00Z'', qr_RecordedAt = ''2024-01-01T00:00:00Z'',
      qr_Title = ''Rain'', qr_ResolutionCriteria = ''It rains'', qr_ForecastingOpensAt = None,
      qr_ExpectedResolutionAt = ''2024-12-31T00:00:00Z'', qr_OutcomeSpace = \<lparr>oc_Kind = OutcomeBinary\<rparr>,
      qr_Domain = binary_domain_example, qr_Provenance = None\<rparr>"

definition example_integrity :: integrity where
  "example_integrity =
     \<lparr>in_Unanchored = Some \<lparr>ui_Status = IntegrityUnanchored, ui_Note = None\<rparr>,
      in_Retained = None, in_Pending = None, in_Verified = None, in_Failed = None\<rparr>"

definition probability_example :: "string \<Rightarrow> forecast_representation" where
  "probability_example p =
     \<lparr>fr_Probability = Some \<lparr>rp_Kind = RepresentationProbability, rp_Outcome = True, rp_Probability = p\<rparr>,
      fr_PMF = None, fr_BinnedPMF = None, fr_Quantiles = None, fr_CDF = None, fr_Point = None,
      fr_CredibleIntervals = None\<rparr>"

definition example_forecast :: "slug \<Rightarrow> timestamp \<Rightarrow> slug option \<Rightarrow> forecast" where
  "example_forecast i at supersedes =
     \<lparr>fo_ID = i, fo_QuestionRevisionID = ''r1'', fo_ForecastedAt = at, fo_RecordedAt = at,
      fo_Visibility = VisibilityPublic, fo_Representations = Some [probability_example ''0.5''],
      fo_Rationale = None, fo_KeyFactors = None, fo_Comment = None, fo_PublicNote = None,
      fo_SupersedesForecastID = supersedes, fo_Provenance = None, fo_LifecycleEvents = None,
      fo_ActivityCheckpoints = None, fo_Commitment = None, fo_Integrity = example_integrity\<rparr>"

definition example_question :: question where
  "example_question =
     \<lparr>qu_ID = ''q1'', qu_Status = QuestionOpen, qu_CreatedAt = ''2024-01-01T00:00:00Z'',
      qu_CurrentRevisionID = ''r1'', qu_Revisions = [example_revision], qu_Tags = None, qu_Notes = None,
      qu_Forecasts = [example_forecast ''f1'' ''2024-02-01T00:00:00Z'' None,
                      example_forecast ''f2'' ''2024-03-01T00:00:00Z'' (Some ''f1'')],
      qu_Resolution = None\<rparr>"

definition example_ledger :: ledger where
  "example_ledger =
     \<lparr>lg_Schema = None, lg_SchemaVersion = ''2.0.0'', lg_LedgerID = ''example'', lg_Title = None,
      lg_Description = None, lg_CreatedAt = ''2024-01-01T00:00:00Z'', lg_DefaultTimezone = ''UTC'',
      lg_Forecaster = \<lparr>fc_ID = ''me'', fc_Kind = ForecasterIndividual, fc_Name = ''Me'', fc_Contact = None,
        fc_Profiles = None, fc_Members = None\<rparr>,
      lg_Publication = None, lg_Platforms = [], lg_Groups = None, lg_Relationships = None,
      lg_Questions = [example_question]\<rparr>"

lemmas example_defs =
  example_ledger_def example_question_def example_forecast_def example_revision_def

end
