(* ===== verification/Ledger_Index.thy ===== *)
theory Ledger_Index
  imports Example_Ledger
begin

text \<open>
  \<open>internal/ledger/index.go\<close>: the lookup snapshot of a ledger, built in the order of the code
  with its nine error codes, and the lookups and counts of \<open>helpers.go\<close>.  Go maps are partial
  functions.  The lemmas show for which ledgers the construction succeeds, and that every
  position and every supersession link it records is right.
\<close>

section \<open>Lookups on the model\<close>

fun find_revision :: "slug \<Rightarrow> question_revision list \<Rightarrow> question_revision option" where
  "find_revision i [] = None"
| "find_revision i (r # rs) = (if qr_ID r = i then Some r else find_revision i rs)"

definition Question_Revision :: "question \<Rightarrow> slug \<Rightarrow> question_revision option" where
  "Question_Revision q i = find_revision i (qu_Revisions q)"

definition CurrentRevision :: "question \<Rightarrow> question_revision option" where
  "CurrentRevision q = Question_Revision q (qu_CurrentRevisionID q)"

fun find_forecast :: "slug \<Rightarrow> forecast list \<Rightarrow> forecast option" where
  "find_forecast i [] = None"
| "find_forecast i (f # fs) = (if fo_ID f = i then Some f else find_forecast i fs)"

definition Question_Forecast :: "question \<Rightarrow> slug \<Rightarrow> forecast option" where
  "Question_Forecast q i = find_forecast i (qu_Forecasts q)"

record counts =
  ct_Groups :: nat
  ct_Relationships :: nat
  ct_Questions :: nat
  ct_Revisions :: nat
  ct_Forecasts :: nat
  ct_Representations :: nat
  ct_LifecycleEvents :: nat

definition count_forecast :: "counts \<Rightarrow> forecast \<Rightarrow> counts" where
  "count_forecast c f =
     c\<lparr>ct_Representations := ct_Representations c + (case fo_Representations f of None \<Rightarrow> 0 | Some rs \<Rightarrow> length rs),
       ct_LifecycleEvents := ct_LifecycleEvents c + (case fo_LifecycleEvents f of None \<Rightarrow> 0 | Some es \<Rightarrow> length es)\<rparr>"

definition count_question :: "counts \<Rightarrow> question \<Rightarrow> counts" where
  "count_question c q =
     foldl count_forecast
       (c\<lparr>ct_Revisions := ct_Revisions c + length (qu_Revisions q),
          ct_Forecasts := ct_Forecasts c + length (qu_Forecasts q)\<rparr>)
       (qu_Forecasts q)"

definition SummaryCounts :: "ledger option \<Rightarrow> counts" where
  "SummaryCounts model =
     (case model of
        None \<Rightarrow> \<lparr>ct_Groups = 0, ct_Relationships = 0, ct_Questions = 0, ct_Revisions = 0, ct_Forecasts = 0,
                 ct_Representations = 0, ct_LifecycleEvents = 0\<rparr>
      | Some m \<Rightarrow>
          foldl count_question
            \<lparr>ct_Groups = (case lg_Groups m of None \<Rightarrow> 0 | Some gs \<Rightarrow> length gs),
             ct_Relationships = (case lg_Relationships m of None \<Rightarrow> 0 | Some rs \<Rightarrow> length rs),
             ct_Questions = length (lg_Questions m), ct_Revisions = 0, ct_Forecasts = 0,
             ct_Representations = 0, ct_LifecycleEvents = 0\<rparr>
            (lg_Questions m))"

section \<open>The index\<close>

text \<open>The codes of \<open>IndexError\<close>; \<open>IndexNilLedger\<close> stands for the plain error on a nil ledger.\<close>

datatype index_error_code =
    IndexDuplicateQuestion
  | IndexDuplicateRevision
  | IndexUnknownCurrentRevision
  | IndexDuplicateForecast
  | IndexUnknownSuperseded
  | IndexCrossQuestionLink
  | IndexForwardLink
  | IndexDuplicateGroup
  | IndexDuplicateRelationship
  | IndexNilLedger

record index_error =
  ie_Code :: index_error_code
  ie_QuestionID :: slug
  ie_RevisionID :: slug
  ie_ForecastID :: slug
  ie_Reference :: slug

record forecast_location =
  fl_QuestionIndex :: nat
  fl_ForecastIndex :: nat
  fl_QuestionID :: slug
  fl_ForecastID :: slug

record revision_location =
  rv_QuestionIndex :: nat
  rv_RevisionIndex :: nat
  rv_QuestionID :: slug
  rv_RevisionID :: slug

record index =
  ix_PlatformIDs :: "slug set"
  ix_GroupPositions :: "slug \<rightharpoonup> nat"
  ix_RelationshipPositions :: "slug \<rightharpoonup> nat"
  ix_QuestionPositions :: "slug \<rightharpoonup> nat"
  ix_QuestionRevisionPositions :: "slug \<rightharpoonup> (slug \<rightharpoonup> nat)"
  ix_ForecastLocations :: "slug \<rightharpoonup> forecast_location"
  ix_QuestionForecastIDs :: "slug \<rightharpoonup> slug list"
  ix_PlatformQuestionIDs :: "slug \<rightharpoonup> slug list"
  ix_PlatformForecastIDs :: "slug \<rightharpoonup> slug list"
  ix_Supersedes :: "slug \<rightharpoonup> slug"
  ix_SupersededBy :: "slug \<rightharpoonup> slug list"

definition relationshipID :: "relationship \<Rightarrow> slug" where
  "relationshipID r =
     (case rl_GroupMembership r of
        Some g \<Rightarrow> gm_ID g
      | None \<Rightarrow> (case rl_Conditional r of Some c \<Rightarrow> cl_ID c | None \<Rightarrow> []))"

text \<open>A missing key of a Go map reads as the nil slice.\<close>

definition slice_at :: "(slug \<rightharpoonup> slug list) \<Rightarrow> slug \<Rightarrow> slug list" where
  "slice_at m k = (case m k of None \<Rightarrow> [] | Some vs \<Rightarrow> vs)"

definition append_at :: "(slug \<rightharpoonup> slug list) \<Rightarrow> slug \<Rightarrow> slug \<Rightarrow> (slug \<rightharpoonup> slug list)" where
  "append_at m k v = m(k \<mapsto> slice_at m k @ [v])"

definition appendUnique :: "(slug \<rightharpoonup> slug list) \<Rightarrow> slug \<Rightarrow> slug \<Rightarrow> (slug \<rightharpoonup> slug list)" where
  "appendUnique m k v = (if v \<in> set (slice_at m k) then m else append_at m k v)"

definition error_at :: "index_error_code \<Rightarrow> slug \<Rightarrow> slug \<Rightarrow> slug \<Rightarrow> slug \<Rightarrow> index_error" where
  "error_at code q r f reference = \<lparr>ie_Code = code, ie_QuestionID = q, ie_RevisionID = r, ie_ForecastID = f, ie_Reference = reference\<rparr>"

definition index_groups :: "group list option \<Rightarrow> index \<Rightarrow> index_error + index" where
  "index_groups groups ix =
     (case groups of
        None \<Rightarrow> Inr ix
      | Some gs \<Rightarrow>
          (case put_all (with_positions (map gr_ID gs)) (ix_GroupPositions ix) of
             Inl k \<Rightarrow> Inl (error_at IndexDuplicateGroup [] [] [] k)
           | Inr m \<Rightarrow> Inr (ix\<lparr>ix_GroupPositions := m\<rparr>)))"

definition index_relationships :: "relationship list option \<Rightarrow> index \<Rightarrow> index_error + index" where
  "index_relationships relationships ix =
     (case relationships of
        None \<Rightarrow> Inr ix
      | Some rs \<Rightarrow>
          (case put_all (with_positions (map relationshipID rs)) (ix_RelationshipPositions ix) of
             Inl k \<Rightarrow> Inl (error_at IndexDuplicateRelationship [] [] [] k)
           | Inr m \<Rightarrow> Inr (ix\<lparr>ix_RelationshipPositions := m\<rparr>)))"

definition location_pairs :: "nat \<Rightarrow> question \<Rightarrow> (slug \<times> forecast_location) list" where
  "location_pairs qp q =
     map (\<lambda>(i, p). (i, \<lparr>fl_QuestionIndex = qp, fl_ForecastIndex = p, fl_QuestionID = qu_ID q, fl_ForecastID = i\<rparr>))
       (with_positions (map fo_ID (qu_Forecasts q)))"

text \<open>The provenance loops: one \<open>appendUnique\<close> per record that has a provenance.\<close>

definition collect_platforms ::
  "('a \<Rightarrow> provenance option) \<Rightarrow> ('a \<Rightarrow> slug) \<Rightarrow> (slug \<rightharpoonup> slug list) \<Rightarrow> 'a list \<Rightarrow> (slug \<rightharpoonup> slug list)" where
  "collect_platforms prov key m xs =
     foldl (\<lambda>m x. case prov x of None \<Rightarrow> m | Some p \<Rightarrow> appendUnique m (pv_Platform p) (key x)) m xs"

text \<open>The body of the first loop over the questions.\<close>

definition index_question :: "index \<Rightarrow> nat \<times> question \<Rightarrow> index_error + index" where
  "index_question ix = (\<lambda>(qp, q).
     let qid = qu_ID q in
     if ix_QuestionPositions ix qid \<noteq> None then Inl (error_at IndexDuplicateQuestion qid [] [] [])
     else
       (case put_all (with_positions (map qr_ID (qu_Revisions q))) Map.empty of
          Inl r \<Rightarrow> Inl (error_at IndexDuplicateRevision qid r [] [])
        | Inr revisions \<Rightarrow>
            if revisions (qu_CurrentRevisionID q) = None
            then Inl (error_at IndexUnknownCurrentRevision qid [] [] (qu_CurrentRevisionID q))
            else
              (case put_all (location_pairs qp q) (ix_ForecastLocations ix) of
                 Inl f \<Rightarrow> Inl (error_at IndexDuplicateForecast qid [] f [])
               | Inr locations \<Rightarrow>
                   Inr (ix\<lparr>ix_QuestionPositions := (ix_QuestionPositions ix)(qid \<mapsto> qp),
                           ix_PlatformQuestionIDs :=
                             collect_platforms qr_Provenance (\<lambda>_. qid) (ix_PlatformQuestionIDs ix) (qu_Revisions q),
                           ix_QuestionRevisionPositions := (ix_QuestionRevisionPositions ix)(qid \<mapsto> revisions),
                           ix_ForecastLocations := locations,
                           ix_QuestionForecastIDs :=
                             foldl (\<lambda>m f. append_at m qid (fo_ID f)) (ix_QuestionForecastIDs ix) (qu_Forecasts q),
                           ix_PlatformForecastIDs :=
                             collect_platforms fo_Provenance fo_ID (ix_PlatformForecastIDs ix) (qu_Forecasts q)\<rparr>))))"

text \<open>The body of the second pass: one forecast of one question.\<close>

definition index_link :: "question \<Rightarrow> index \<Rightarrow> nat \<times> forecast \<Rightarrow> index_error + index" where
  "index_link q ix = (\<lambda>(fp, f).
     case fo_SupersedesForecastID f of
       None \<Rightarrow> Inr ix
     | Some reference \<Rightarrow>
         (case ix_ForecastLocations ix reference of
            None \<Rightarrow> Inl (error_at IndexUnknownSuperseded (qu_ID q) [] (fo_ID f) reference)
          | Some loc \<Rightarrow>
              if fl_QuestionID loc \<noteq> qu_ID q
              then Inl (error_at IndexCrossQuestionLink (qu_ID q) [] (fo_ID f) reference)
              else if fl_ForecastIndex loc \<ge> fp
              then Inl (error_at IndexForwardLink (qu_ID q) [] (fo_ID f) reference)
              else Inr (ix\<lparr>ix_Supersedes := (ix_Supersedes ix)(fo_ID f \<mapsto> reference),
                           ix_SupersededBy := append_at (ix_SupersededBy ix) reference (fo_ID f)\<rparr>)))"

definition index_links :: "index \<Rightarrow> question \<Rightarrow> index_error + index" where
  "index_links ix q = foldR (index_link q) ix (enumerate 0 (qu_Forecasts q))"

definition sort_slices :: "(slug \<rightharpoonup> slug list) \<Rightarrow> (slug \<rightharpoonup> slug list)" where
  "sort_slices m = (\<lambda>k. map_option sort (m k))"

definition empty_index :: index where
  "empty_index = \<lparr>ix_PlatformIDs = {}, ix_GroupPositions = Map.empty, ix_RelationshipPositions = Map.empty,
     ix_QuestionPositions = Map.empty, ix_QuestionRevisionPositions = Map.empty,
     ix_ForecastLocations = Map.empty, ix_QuestionForecastIDs = Map.empty,
     ix_PlatformQuestionIDs = Map.empty, ix_PlatformForecastIDs = Map.empty,
     ix_Supersedes = Map.empty, ix_SupersededBy = Map.empty\<rparr>"

definition BuildIndex :: "ledger option \<Rightarrow> index_error + index" where
  "BuildIndex model =
     (case model of
        None \<Rightarrow> Inl (error_at IndexNilLedger [] [] [] [])
      | Some m \<Rightarrow>
          bindR (index_groups (lg_Groups m) (empty_index\<lparr>ix_PlatformIDs := fst ` set (lg_Platforms m)\<rparr>)) (\<lambda>ix.
          bindR (index_relationships (lg_Relationships m) ix) (\<lambda>ix.
          bindR (foldR index_question ix (enumerate 0 (lg_Questions m))) (\<lambda>ix.
          bindR (foldR index_links ix (lg_Questions m)) (\<lambda>ix.
          Inr (ix\<lparr>ix_PlatformQuestionIDs := sort_slices (ix_PlatformQuestionIDs ix),
                  ix_PlatformForecastIDs := sort_slices (ix_PlatformForecastIDs ix),
                  ix_SupersededBy := sort_slices (ix_SupersededBy ix)\<rparr>))))))"

definition Index_Question :: "index \<Rightarrow> slug \<Rightarrow> nat option" where
  "Index_Question ix i = ix_QuestionPositions ix i"

definition Index_Revision :: "index \<Rightarrow> slug \<Rightarrow> slug \<Rightarrow> revision_location option" where
  "Index_Revision ix questionID revisionID =
     (case ix_QuestionPositions ix questionID of
        None \<Rightarrow> None
      | Some qp \<Rightarrow>
          (case ix_QuestionRevisionPositions ix questionID of
             None \<Rightarrow> None
           | Some revisions \<Rightarrow>
               (case revisions revisionID of
                  None \<Rightarrow> None
                | Some rp \<Rightarrow> Some \<lparr>rv_QuestionIndex = qp, rv_RevisionIndex = rp,
                                  rv_QuestionID = questionID, rv_RevisionID = revisionID\<rparr>)))"

definition Index_Forecast :: "index \<Rightarrow> slug \<Rightarrow> forecast_location option" where
  "Index_Forecast ix i = ix_ForecastLocations ix i"

section \<open>The first pass\<close>

text \<open>What a ledger must satisfy for its index to exist.\<close>

definition wf_questions :: "question list \<Rightarrow> bool" where
  "wf_questions qs \<longleftrightarrow>
     distinct (map qu_ID qs) \<and>
     (\<forall>q\<in>set qs. distinct (map qr_ID (qu_Revisions q)) \<and> qu_CurrentRevisionID q \<in> qr_ID ` set (qu_Revisions q)) \<and>
     distinct (concat (map (\<lambda>q. map fo_ID (qu_Forecasts q)) qs))"

definition wf_links :: "question list \<Rightarrow> bool" where
  "wf_links qs \<longleftrightarrow>
     (\<forall>q\<in>set qs. \<forall>fp<length (qu_Forecasts q). \<forall>r.
        fo_SupersedesForecastID (qu_Forecasts q ! fp) = Some r \<longrightarrow> (\<exists>i<fp. fo_ID (qu_Forecasts q ! i) = r))"

definition wf_index :: "ledger \<Rightarrow> bool" where
  "wf_index m \<longleftrightarrow>
     (\<forall>gs. lg_Groups m = Some gs \<longrightarrow> distinct (map gr_ID gs)) \<and>
     (\<forall>rs. lg_Relationships m = Some rs \<longrightarrow> distinct (map relationshipID rs)) \<and>
     wf_questions (lg_Questions m) \<and> wf_links (lg_Questions m)"

definition located :: "question list \<Rightarrow> slug \<Rightarrow> forecast_location \<Rightarrow> bool" where
  "located qs k loc \<longleftrightarrow>
     (\<exists>qp fp. qp < length qs \<and> fp < length (qu_Forecasts (qs ! qp)) \<and> fo_ID (qu_Forecasts (qs ! qp) ! fp) = k \<and>
        loc = \<lparr>fl_QuestionIndex = qp, fl_ForecastIndex = fp, fl_QuestionID = qu_ID (qs ! qp), fl_ForecastID = k\<rparr>)"

text \<open>The invariant of the loop over the questions, \<open>qs\<close> those already seen.\<close>

definition index_inv :: "question list \<Rightarrow> index \<Rightarrow> bool" where
  "index_inv qs ix \<longleftrightarrow>
     (\<forall>k p. ix_QuestionPositions ix k = Some p \<longleftrightarrow> p < length qs \<and> qu_ID (qs ! p) = k) \<and>
     (\<forall>k rs. ix_QuestionRevisionPositions ix k = Some rs \<longleftrightarrow>
        (\<exists>p<length qs. qu_ID (qs ! p) = k \<and> rs = map_of (with_positions (map qr_ID (qu_Revisions (qs ! p)))))) \<and>
     (\<forall>k loc. ix_ForecastLocations ix k = Some loc \<longleftrightarrow> located qs k loc)"

lemma index_inv_QuestionPositions:
  assumes "index_inv qs ix"
  shows "ix_QuestionPositions ix k = None \<longleftrightarrow> k \<notin> qu_ID ` set qs"
proof -
  have pos: "ix_QuestionPositions ix k = Some p \<longleftrightarrow> p < length qs \<and> qu_ID (qs ! p) = k" for p
    using assms unfolding index_inv_def by blast
  have "k \<in> qu_ID ` set qs \<longleftrightarrow> (\<exists>p<length qs. qu_ID (qs ! p) = k)"
    by (auto simp: set_conv_nth)
  with pos show ?thesis by (cases "ix_QuestionPositions ix k") auto
qed

lemma index_inv_ForecastLocations:
  "index_inv qs ix \<Longrightarrow> dom (ix_ForecastLocations ix) = set (concat (map (\<lambda>q. map fo_ID (qu_Forecasts q)) qs))"
proof (rule set_eqI)
  fix k
  assume "index_inv qs ix"
  then have "k \<in> dom (ix_ForecastLocations ix) \<longleftrightarrow> (\<exists>loc. located qs k loc)"
    by (simp add: index_inv_def dom_def)
  also have "\<dots> \<longleftrightarrow> (\<exists>q\<in>set qs. \<exists>f\<in>set (qu_Forecasts q). fo_ID f = k)"
    unfolding located_def by (auto simp: in_set_conv_nth) (metis nth_mem)+
  finally show "k \<in> dom (ix_ForecastLocations ix) \<longleftrightarrow> k \<in> set (concat (map (\<lambda>q. map fo_ID (qu_Forecasts q)) qs))"
    by auto
qed

lemma length_location_pairs [simp]: "length (location_pairs qp q) = length (qu_Forecasts q)"
  by (simp add: location_pairs_def with_positions_def)

lemma nth_location_pairs [simp]:
  "fp < length (qu_Forecasts q) \<Longrightarrow> location_pairs qp q ! fp =
    (fo_ID (qu_Forecasts q ! fp),
     \<lparr>fl_QuestionIndex = qp, fl_ForecastIndex = fp, fl_QuestionID = qu_ID q, fl_ForecastID = fo_ID (qu_Forecasts q ! fp)\<rparr>)"
  by (simp add: location_pairs_def with_positions_def)

lemma map_fst_location_pairs [simp]: "map fst (location_pairs qp q) = map fo_ID (qu_Forecasts q)"
  by (rule nth_equalityI) simp_all

lemma fst_set_location_pairs [simp]: "fst ` set (location_pairs qp q) = fo_ID ` set (qu_Forecasts q)"
  using map_fst_location_pairs [of qp q] by (metis set_map)

lemma map_of_location_pairs:
  assumes "distinct (map fo_ID (qu_Forecasts q))"
  shows "map_of (location_pairs qp q) k = Some loc \<longleftrightarrow>
    (\<exists>fp<length (qu_Forecasts q). fo_ID (qu_Forecasts q ! fp) = k \<and>
      loc = \<lparr>fl_QuestionIndex = qp, fl_ForecastIndex = fp, fl_QuestionID = qu_ID q, fl_ForecastID = k\<rparr>)"
proof -
  have "map_of (location_pairs qp q) k = Some loc \<longleftrightarrow> (k, loc) \<in> set (location_pairs qp q)"
    using assms by (simp add: map_of_eq_Some_iff)
  then show ?thesis
    by (auto simp: in_set_conv_nth)
qed

lemma index_question_ok:
  assumes inv: "index_inv qs ix"
  shows "isOk (index_question ix (length qs, q)) \<longleftrightarrow>
    qu_ID q \<notin> qu_ID ` set qs \<and> distinct (map qr_ID (qu_Revisions q)) \<and>
    qu_CurrentRevisionID q \<in> qr_ID ` set (qu_Revisions q) \<and> distinct (map fo_ID (qu_Forecasts q)) \<and>
    fo_ID ` set (qu_Forecasts q) \<inter> set (concat (map (\<lambda>q. map fo_ID (qu_Forecasts q)) qs)) = {}"
proof -
  let ?revs = "put_all (with_positions (map qr_ID (qu_Revisions q))) Map.empty"
  let ?locs = "put_all (location_pairs (length qs) q) (ix_ForecastLocations ix)"
  have locs: "isOk ?locs \<longleftrightarrow> distinct (map fo_ID (qu_Forecasts q)) \<and>
      fo_ID ` set (qu_Forecasts q) \<inter> set (concat (map (\<lambda>q. map fo_ID (qu_Forecasts q)) qs)) = {}"
    unfolding put_all_ok_iff index_inv_ForecastLocations [OF inv] by simp
  have new: "ix_QuestionPositions ix (qu_ID q) = None \<longleftrightarrow> qu_ID q \<notin> qu_ID ` set qs"
    by (rule index_inv_QuestionPositions [OF inv])
  have main: "isOk (index_question ix (length qs, q)) \<longleftrightarrow> ix_QuestionPositions ix (qu_ID q) = None \<and>
      (\<exists>revs. ?revs = Inr revs \<and> revs (qu_CurrentRevisionID q) \<noteq> None) \<and> isOk ?locs"
    by (auto simp: index_question_def Let_def split: sum.split)
  have revs: "(\<exists>revs. ?revs = Inr revs \<and> revs (qu_CurrentRevisionID q) \<noteq> None) \<longleftrightarrow>
      distinct (map qr_ID (qu_Revisions q)) \<and> qu_CurrentRevisionID q \<in> qr_ID ` set (qu_Revisions q)"
    unfolding put_all_Inr_iff by (simp add: map_of_eq_None_iff del: not_None_eq)
  show ?thesis unfolding main new revs locs by blast
qed

lemma index_question_inv:
  assumes inv: "index_inv qs ix" and step: "index_question ix (length qs, q) = Inr ix'"
  shows "index_inv (qs @ [q]) ix'"
proof -
  from step obtain rs locs where rs: "put_all (with_positions (map qr_ID (qu_Revisions q))) Map.empty = Inr rs"
    and locs: "put_all (location_pairs (length qs) q) (ix_ForecastLocations ix) = Inr locs"
    and new: "ix_QuestionPositions ix (qu_ID q) = None"
    and ix': "ix_QuestionPositions ix' = (ix_QuestionPositions ix)(qu_ID q \<mapsto> length qs)"
      "ix_QuestionRevisionPositions ix' = (ix_QuestionRevisionPositions ix)(qu_ID q \<mapsto> rs)"
      "ix_ForecastLocations ix' = locs"
    by (auto simp: index_question_def Let_def split: if_splits sum.splits)
  have fresh: "\<And>p. p < length qs \<Longrightarrow> qu_ID (qs ! p) \<noteq> qu_ID q"
    using new unfolding index_inv_QuestionPositions [OF inv] by (metis image_eqI nth_mem)
  have rs': "rs = map_of (with_positions (map qr_ID (qu_Revisions q)))" using rs by (simp add: put_all_Inr_iff)
  have l: "distinct (map fo_ID (qu_Forecasts q))" "locs = ix_ForecastLocations ix ++ map_of (location_pairs (length qs) q)"
    "fo_ID ` set (qu_Forecasts q) \<inter> dom (ix_ForecastLocations ix) = {}"
    using locs by (simp_all add: put_all_Inr_iff)
  have snoc: "located (qs @ [q]) k loc \<longleftrightarrow> located qs k loc \<or>
      (\<exists>fp<length (qu_Forecasts q). fo_ID (qu_Forecasts q ! fp) = k \<and>
        loc = \<lparr>fl_QuestionIndex = length qs, fl_ForecastIndex = fp, fl_QuestionID = qu_ID q, fl_ForecastID = k\<rparr>)" for k loc
    unfolding located_def by (auto simp: nth_append less_Suc_eq)
  have disj: "map_of (location_pairs (length qs) q) k = None" if "ix_ForecastLocations ix k = Some loc" for k loc
    using l(3) that by (auto simp: map_of_eq_None_iff)
  have "locs k = Some loc \<longleftrightarrow> ix_ForecastLocations ix k = Some loc \<or> map_of (location_pairs (length qs) q) k = Some loc" for k loc
    using disj [of k] unfolding l(2) by (auto simp: map_add_Some_iff)
  then have "locs k = Some loc \<longleftrightarrow> located (qs @ [q]) k loc" for k loc
    using inv unfolding snoc map_of_location_pairs [OF l(1)] by (simp add: index_inv_def)
  moreover have "ix_QuestionPositions ix' k = Some p \<longleftrightarrow> p < length (qs @ [q]) \<and> qu_ID ((qs @ [q]) ! p) = k" for k p
    using inv fresh unfolding ix' index_inv_def by (auto simp: nth_append less_Suc_eq)
  moreover
  have "ix_QuestionRevisionPositions ix' k = Some r \<longleftrightarrow> (\<exists>p<length (qs @ [q]). qu_ID ((qs @ [q]) ! p) = k
      \<and> r = map_of (with_positions (map qr_ID (qu_Revisions ((qs @ [q]) ! p)))))" for k r
    using inv fresh rs' unfolding ix' index_inv_def by (auto simp: nth_append less_Suc_eq)
  ultimately show ?thesis unfolding index_inv_def ix'(3) by blast
qed

lemma enumerate_snoc: "enumerate 0 (xs @ [x]) = enumerate 0 xs @ [(length xs, x)]"
  by (simp add: enumerate_append_eq)

lemma wf_questions_snoc:
  "wf_questions (qs @ [q]) \<longleftrightarrow> wf_questions qs \<and> qu_ID q \<notin> qu_ID ` set qs \<and>
    distinct (map qr_ID (qu_Revisions q)) \<and> qu_CurrentRevisionID q \<in> qr_ID ` set (qu_Revisions q) \<and>
    distinct (map fo_ID (qu_Forecasts q)) \<and>
    fo_ID ` set (qu_Forecasts q) \<inter> set (concat (map (\<lambda>q. map fo_ID (qu_Forecasts q)) qs)) = {}"
  by (simp add: wf_questions_def) blast

definition links_empty :: "index \<Rightarrow> bool" where
  "links_empty ix \<longleftrightarrow> ix_Supersedes ix = Map.empty \<and> ix_SupersededBy ix = Map.empty"

lemma index_question_links: "index_question ix x = Inr ix' \<Longrightarrow> links_empty ix \<Longrightarrow> links_empty ix'"
  by (auto simp: index_question_def links_empty_def Let_def split: if_splits sum.splits prod.splits)

lemma index_questions:
  assumes "index_inv [] ix0" "links_empty ix0"
  shows "isOk (foldR index_question ix0 (enumerate 0 qs)) \<longleftrightarrow> wf_questions qs" (is ?ok)
    and "foldR index_question ix0 (enumerate 0 qs) = Inr ix \<Longrightarrow> index_inv qs ix \<and> links_empty ix" (is "_ \<Longrightarrow> ?inv")
proof -
  have "(isOk (foldR index_question ix0 (enumerate 0 qs)) \<longleftrightarrow> wf_questions qs) \<and>
    (\<forall>ix. foldR index_question ix0 (enumerate 0 qs) = Inr ix \<longrightarrow> index_inv qs ix \<and> links_empty ix)"
  proof (induction qs rule: rev_induct)
    case Nil
    with assms show ?case by (simp add: wf_questions_def)
  next
    case (snoc q qs)
    show ?case
    proof (cases "foldR index_question ix0 (enumerate 0 qs)")
      case (Inl e)
      with snoc show ?thesis
        by (simp add: enumerate_snoc foldR_append wf_questions_snoc)
    next
      case (Inr ix1)
      with snoc have inv: "index_inv qs ix1" and le: "links_empty ix1" and wf: "wf_questions qs" by auto
      have step: "foldR index_question ix0 (enumerate 0 (qs @ [q])) = index_question ix1 (length qs, q)"
        using Inr by (simp add: enumerate_snoc foldR_append) (cases "index_question ix1 (length qs, q)"; simp)
      show ?thesis
        unfolding step index_question_ok [OF inv] wf_questions_snoc
        using wf index_question_inv [OF inv] index_question_links [OF _ le] by auto
    qed
  qed
  then show ?ok "foldR index_question ix0 (enumerate 0 qs) = Inr ix \<Longrightarrow> ?inv" by blast+
qed

section \<open>The supersession pass\<close>

text \<open>The forecasts of a ledger with their question and position, in the order of the pass.\<close>

definition all_links :: "question list \<Rightarrow> (question \<times> nat \<times> forecast) list" where
  "all_links qs = concat (map (\<lambda>q. map (Pair q) (enumerate 0 (qu_Forecasts q))) qs)"

abbreviation forecasts_of :: "question list \<Rightarrow> forecast list" where
  "forecasts_of qs \<equiv> concat (map qu_Forecasts qs)"

definition link_ok :: "(slug \<rightharpoonup> forecast_location) \<Rightarrow> question \<times> nat \<times> forecast \<Rightarrow> bool" where
  "link_ok locs = (\<lambda>(q, fp, f). \<forall>r. fo_SupersedesForecastID f = Some r \<longrightarrow>
     (\<exists>loc. locs r = Some loc \<and> fl_QuestionID loc = qu_ID q \<and> fl_ForecastIndex loc < fp))"

definition link_update :: "index \<Rightarrow> forecast \<Rightarrow> index" where
  "link_update ix f =
     (case fo_SupersedesForecastID f of
        None \<Rightarrow> ix
      | Some r \<Rightarrow> ix\<lparr>ix_Supersedes := (ix_Supersedes ix)(fo_ID f \<mapsto> r),
                     ix_SupersededBy := append_at (ix_SupersededBy ix) r (fo_ID f)\<rparr>)"

lemma index_link_cases:
  "isOk (index_link q ix (fp, f)) \<longleftrightarrow> link_ok (ix_ForecastLocations ix) (q, fp, f)"
  "index_link q ix (fp, f) = Inr ix' \<Longrightarrow> ix' = link_update ix f"
  by (auto simp: index_link_def link_ok_def link_update_def not_le split: option.splits if_splits)

lemma link_update_keeps [simp]:
  "ix_ForecastLocations (link_update ix f) = ix_ForecastLocations ix"
  "ix_QuestionPositions (link_update ix f) = ix_QuestionPositions ix"
  "ix_QuestionRevisionPositions (link_update ix f) = ix_QuestionRevisionPositions ix"
  by (simp_all add: link_update_def split: option.split)

lemma index_links_flat:
  "foldR index_links ix qs = foldR (\<lambda>ix (q, x). index_link q ix x) ix (all_links qs)"
proof (induction qs arbitrary: ix)
  case Nil
  show ?case by (simp add: all_links_def)
next
  case (Cons q qs)
  have "foldR (\<lambda>ix (q, x). index_link q ix x) ix (map (Pair q) xs) = foldR (index_link q) ix xs" for ix xs
    by (induction xs arbitrary: ix) simp_all
  with Cons show ?case by (simp add: all_links_def foldR_append index_links_def)
qed

lemma foldR_links:
  "isOk (foldR (\<lambda>ix (q, x). index_link q ix x) ix xs) \<longleftrightarrow> (\<forall>x\<in>set xs. link_ok (ix_ForecastLocations ix) x)"
  "foldR (\<lambda>ix (q, x). index_link q ix x) ix xs = Inr ix' \<Longrightarrow> ix' = foldl link_update ix (map (snd \<circ> snd) xs)"
proof (induction xs arbitrary: ix)
  case (Cons x xs)
  obtain q fp f where x: "x = (q, fp, f)" by (cases x)
  {
    case 1
    show ?case
      using index_link_cases(1) [of q ix fp f] index_link_cases(2) [of q ix fp f] Cons(1) [of "link_update ix f"]
      by (cases "index_link q ix (fp, f)") (auto simp: x)
  next
    case 2
    then show ?case
      using index_link_cases(2) [of q ix fp f] Cons(2) [of "link_update ix f"]
      by (auto simp: x bindR_eq_Inr_iff)
  }
qed simp_all

lemma all_links_forecasts: "map (snd \<circ> snd) (all_links qs) = forecasts_of qs"
  by (induction qs) (simp_all add: all_links_def comp_def)

lemma set_all_links: "x \<in> set (all_links qs) \<longleftrightarrow>
    (\<exists>q\<in>set qs. \<exists>fp<length (qu_Forecasts q). x = (q, fp, qu_Forecasts q ! fp))"
  by (auto simp: all_links_def in_set_enumerate_eq image_iff)

lemma links_ok_iff:
  assumes inv: "index_inv qs ix" and d: "distinct (map qu_ID qs)"
  shows "(\<forall>x\<in>set (all_links qs). link_ok (ix_ForecastLocations ix) x) \<longleftrightarrow> wf_links qs"
proof -
  have loc: "(\<exists>loc. ix_ForecastLocations ix r = Some loc \<and> fl_QuestionID loc = qu_ID q \<and> fl_ForecastIndex loc < fp)
      \<longleftrightarrow> (\<exists>i<fp. fo_ID (qu_Forecasts q ! i) = r)"
    if q: "q \<in> set qs" and fp: "fp < length (qu_Forecasts q)" for q fp r
  proof -
    have same: "qs ! p = q" if "p < length qs" "qu_ID (qs ! p) = qu_ID q" for p
      using d q that by (metis distinct_map inj_on_def nth_mem)
    obtain p where p: "p < length qs" "qs ! p = q" using q by (auto simp: in_set_conv_nth)
    have l: "ix_ForecastLocations ix r = Some loc \<longleftrightarrow> located qs r loc" for loc
      using inv by (simp add: index_inv_def)
    show ?thesis
    proof
      assume "\<exists>loc. ix_ForecastLocations ix r = Some loc \<and> fl_QuestionID loc = qu_ID q \<and> fl_ForecastIndex loc < fp"
      then obtain qp i where "qp < length qs" "fo_ID (qu_Forecasts (qs ! qp) ! i) = r" "qu_ID (qs ! qp) = qu_ID q" "i < fp"
        unfolding l located_def by auto
      with same show "\<exists>i<fp. fo_ID (qu_Forecasts q ! i) = r" by metis
    next
      assume "\<exists>i<fp. fo_ID (qu_Forecasts q ! i) = r"
      then obtain i where "i < fp" "fo_ID (qu_Forecasts q ! i) = r" by blast
      with p fp show "\<exists>loc. ix_ForecastLocations ix r = Some loc \<and> fl_QuestionID loc = qu_ID q \<and> fl_ForecastIndex loc < fp"
        unfolding l located_def
        by (intro exI [of _ "\<lparr>fl_QuestionIndex = p, fl_ForecastIndex = i, fl_QuestionID = qu_ID q, fl_ForecastID = r\<rparr>"]) auto
    qed
  qed
  show ?thesis
    unfolding wf_links_def link_ok_def using loc by (auto simp: set_all_links Ball_def)
qed

lemma link_updates_keep [simp]:
  "ix_ForecastLocations (foldl link_update ix fs) = ix_ForecastLocations ix"
  "ix_QuestionPositions (foldl link_update ix fs) = ix_QuestionPositions ix"
  "ix_QuestionRevisionPositions (foldl link_update ix fs) = ix_QuestionRevisionPositions ix"
  by (induction fs arbitrary: ix) simp_all

lemma Supersedes_updates:
  "distinct (map fo_ID fs) \<Longrightarrow> ix_Supersedes ix = Map.empty \<Longrightarrow>
    ix_Supersedes (foldl link_update ix fs) k = Some r \<longleftrightarrow>
      (\<exists>f\<in>set fs. fo_ID f = k \<and> fo_SupersedesForecastID f = Some r)"
proof (induction fs rule: rev_induct)
  case Nil
  then show ?case by simp
next
  case (snoc f fs)
  then have "fo_ID f \<notin> fo_ID ` set fs" by simp
  then have new: "\<forall>g\<in>set fs. fo_ID g \<noteq> fo_ID f" by (metis image_eqI)
  have u: "ix_Supersedes (link_update i f) =
      (case fo_SupersedesForecastID f of None \<Rightarrow> ix_Supersedes i | Some r \<Rightarrow> (ix_Supersedes i)(fo_ID f \<mapsto> r))" for i
    by (simp add: link_update_def split: option.split)
  from snoc have IH: "ix_Supersedes (foldl link_update ix fs) k = Some r \<longleftrightarrow>
      (\<exists>f\<in>set fs. fo_ID f = k \<and> fo_SupersedesForecastID f = Some r)" by simp
  show ?case
    using new IH by (cases "fo_SupersedesForecastID f") (auto simp: u)
qed

lemma slice_at_append: "slice_at (append_at m k v) r = slice_at m r @ (if r = k then [v] else [])"
  by (simp add: append_at_def slice_at_def)

lemma SupersededBy_updates:
  "slice_at (ix_SupersededBy (foldl link_update ix fs)) r =
    slice_at (ix_SupersededBy ix) r @ map fo_ID (filter (\<lambda>f. fo_SupersedesForecastID f = Some r) fs)"
  by (induction fs arbitrary: ix) (auto simp: link_update_def slice_at_append split: option.split)

lemma slice_at_sort: "slice_at (sort_slices m) k = sort (slice_at m k)"
  by (simp add: slice_at_def sort_slices_def split: option.split)

section \<open>The whole construction\<close>

definition index_start :: "ledger \<Rightarrow> index_error + index" where
  "index_start m =
     bindR (index_groups (lg_Groups m) (empty_index\<lparr>ix_PlatformIDs := fst ` set (lg_Platforms m)\<rparr>))
       (index_relationships (lg_Relationships m))"

lemma index_start_ok:
  "isOk (index_start m) \<longleftrightarrow>
     (\<forall>gs. lg_Groups m = Some gs \<longrightarrow> distinct (map gr_ID gs)) \<and>
     (\<forall>rs. lg_Relationships m = Some rs \<longrightarrow> distinct (map relationshipID rs))"
proof -
  have g: "isOk (index_groups g ix) \<longleftrightarrow> (\<forall>gs. g = Some gs \<longrightarrow> distinct (map gr_ID gs))"
    if "ix_GroupPositions ix = Map.empty" for g ix
    using put_all_ok_iff [of "with_positions (map gr_ID (the g))" Map.empty] that
    by (cases g; cases "put_all (with_positions (map gr_ID (the g))) Map.empty") (auto simp: index_groups_def)
  have r: "isOk (index_relationships r ix) \<longleftrightarrow> (\<forall>rs. r = Some rs \<longrightarrow> distinct (map relationshipID rs))"
    if "ix_RelationshipPositions ix = Map.empty" for r ix
    using put_all_ok_iff [of "with_positions (map relationshipID (the r))" Map.empty] that
    by (cases r; cases "put_all (with_positions (map relationshipID (the r))) Map.empty") (auto simp: index_relationships_def)
  let ?ix0 = "empty_index\<lparr>ix_PlatformIDs := fst ` set (lg_Platforms m)\<rparr>"
  have g0: "isOk (index_groups (lg_Groups m) ?ix0) \<longleftrightarrow> (\<forall>gs. lg_Groups m = Some gs \<longrightarrow> distinct (map gr_ID gs))"
    by (rule g) (simp add: empty_index_def)
  show ?thesis
  proof (cases "index_groups (lg_Groups m) ?ix0")
    case (Inl e)
    with g0 show ?thesis by (simp add: index_start_def)
  next
    case (Inr ix1)
    then have "ix_RelationshipPositions ix1 = Map.empty"
      by (auto simp: index_groups_def empty_index_def split: option.splits sum.splits)
    from r [OF this] g0 Inr show ?thesis by (simp add: index_start_def)
  qed
qed

lemma index_start_inv: "index_start m = Inr ix \<Longrightarrow> index_inv [] ix \<and> links_empty ix"
proof -
  have g: "index_groups g i = Inr i' \<Longrightarrow> index_inv [] i \<and> links_empty i \<Longrightarrow> index_inv [] i' \<and> links_empty i'" for g i i'
    by (auto simp: index_groups_def index_inv_def links_empty_def split: option.splits sum.splits)
  have r: "index_relationships g i = Inr i' \<Longrightarrow> index_inv [] i \<and> links_empty i \<Longrightarrow> index_inv [] i' \<and> links_empty i'" for g i i'
    by (auto simp: index_relationships_def index_inv_def links_empty_def split: option.splits sum.splits)
  have "index_inv [] (empty_index\<lparr>ix_PlatformIDs := P\<rparr>) \<and> links_empty (empty_index\<lparr>ix_PlatformIDs := P\<rparr>)" for P
    by (simp add: empty_index_def index_inv_def links_empty_def located_def)
  then show "index_start m = Inr ix \<Longrightarrow> index_inv [] ix \<and> links_empty ix"
    unfolding index_start_def bindR_eq_Inr_iff using g r by blast
qed

lemma BuildIndex_split:
  "BuildIndex (Some m) =
     bindR (index_start m) (\<lambda>ix.
     bindR (foldR index_question ix (enumerate 0 (lg_Questions m))) (\<lambda>ix.
     bindR (foldR index_links ix (lg_Questions m)) (\<lambda>ix.
     Inr (ix\<lparr>ix_PlatformQuestionIDs := sort_slices (ix_PlatformQuestionIDs ix),
             ix_PlatformForecastIDs := sort_slices (ix_PlatformForecastIDs ix),
             ix_SupersededBy := sort_slices (ix_SupersededBy ix)\<rparr>))))"
  by (simp add: BuildIndex_def index_start_def bindR_assoc)

lemma BuildIndex_ok_iff: "isOk (BuildIndex (Some m)) \<longleftrightarrow> wf_index m"
proof (cases "index_start m")
  case (Inl e)
  with index_start_ok [of m] show ?thesis by (auto simp: BuildIndex_split wf_index_def)
next
  case (Inr ix)
  note start = index_start_inv [OF Inr]
  note qs = index_questions [OF start [THEN conjunct1] start [THEN conjunct2], of "lg_Questions m"]
  have s: "(\<forall>gs. lg_Groups m = Some gs \<longrightarrow> distinct (map gr_ID gs)) \<and>
     (\<forall>rs. lg_Relationships m = Some rs \<longrightarrow> distinct (map relationshipID rs))"
    using index_start_ok [of m] Inr by simp
  show ?thesis
  proof (cases "foldR index_question ix (enumerate 0 (lg_Questions m))")
    case (Inl e)
    with qs(1) Inr show ?thesis by (simp add: BuildIndex_split wf_index_def)
  next
    case I: (Inr ix1)
    from qs(2) [OF I] have inv: "index_inv (lg_Questions m) ix1" by simp
    from qs(1) I have wf: "wf_questions (lg_Questions m)" by simp
    then have d: "distinct (map qu_ID (lg_Questions m))" by (simp add: wf_questions_def)
    have l: "isOk (foldR index_links ix1 (lg_Questions m)) \<longleftrightarrow> wf_links (lg_Questions m)"
      unfolding index_links_flat foldR_links(1) links_ok_iff [OF inv d] ..
    have "isOk (BuildIndex (Some m)) \<longleftrightarrow> isOk (foldR index_links ix1 (lg_Questions m))"
      by (cases "foldR index_links ix1 (lg_Questions m)") (simp_all add: BuildIndex_split Inr I)
    with l wf s show ?thesis by (simp add: wf_index_def)
  qed
qed

lemma BuildIndex_InrE:
  assumes "BuildIndex (Some m) = Inr ix"
  obtains ix1 where "index_inv (lg_Questions m) ix1" "links_empty ix1" "wf_index m"
    "ix_QuestionPositions ix = ix_QuestionPositions ix1"
    "ix_QuestionRevisionPositions ix = ix_QuestionRevisionPositions ix1"
    "ix_ForecastLocations ix = ix_ForecastLocations ix1"
    "ix_Supersedes ix = ix_Supersedes (foldl link_update ix1 (forecasts_of (lg_Questions m)))"
    "ix_SupersededBy ix = sort_slices (ix_SupersededBy (foldl link_update ix1 (forecasts_of (lg_Questions m))))"
proof -
  have wf: "wf_index m" using BuildIndex_ok_iff [of m] assms by simp
  from assms obtain ix0 ix1 ix2 where s: "index_start m = Inr ix0"
    and q: "foldR index_question ix0 (enumerate 0 (lg_Questions m)) = Inr ix1"
    and l: "foldR index_links ix1 (lg_Questions m) = Inr ix2"
    and ix: "ix = ix2\<lparr>ix_PlatformQuestionIDs := sort_slices (ix_PlatformQuestionIDs ix2),
             ix_PlatformForecastIDs := sort_slices (ix_PlatformForecastIDs ix2),
             ix_SupersededBy := sort_slices (ix_SupersededBy ix2)\<rparr>"
    by (auto simp: BuildIndex_split bindR_eq_Inr_iff)
  from index_start_inv [OF s] index_questions(2) [OF _ _ q]
  have inv: "index_inv (lg_Questions m) ix1" "links_empty ix1" by auto
  have "ix2 = foldl link_update ix1 (forecasts_of (lg_Questions m))"
    using foldR_links(2) [OF l [unfolded index_links_flat]] by (simp only: all_links_forecasts)
  with inv wf ix that show thesis by simp
qed

text \<open>
  C25: an index exists exactly for the ledgers whose group, relationship, question and forecast
  identifiers are distinct, whose questions have distinct revisions and a current one among
  them, and in which each supersession refers to an earlier forecast of the same question.
\<close>

theorem BuildIndex_succeeds_iff: "(\<exists>ix. BuildIndex (Some m) = Inr ix) \<longleftrightarrow> wf_index m"
  using BuildIndex_ok_iff [of m] by (simp add: isOk_iff)

text \<open>
  C26: the lookups of an index are exact.  A question, a revision of a question or a forecast is
  found at a position exactly when the ledger has it there.
\<close>

theorem BuildIndex_lookups:
  assumes "BuildIndex (Some m) = Inr ix"
  shows "(Index_Question ix k = Some p \<longleftrightarrow> p < length (lg_Questions m) \<and> qu_ID (lg_Questions m ! p) = k) \<and>
    (Index_Revision ix k r = Some loc \<longleftrightarrow>
      (\<exists>qp rp. qp < length (lg_Questions m) \<and> qu_ID (lg_Questions m ! qp) = k \<and>
         rp < length (qu_Revisions (lg_Questions m ! qp)) \<and> qr_ID (qu_Revisions (lg_Questions m ! qp) ! rp) = r \<and>
         loc = \<lparr>rv_QuestionIndex = qp, rv_RevisionIndex = rp, rv_QuestionID = k, rv_RevisionID = r\<rparr>)) \<and>
    (Index_Forecast ix f = Some floc \<longleftrightarrow> located (lg_Questions m) f floc)"
proof -
  let ?qs = "lg_Questions m"
  obtain ix1 where inv: "index_inv ?qs ix1" and wf: "wf_index m"
    and eq: "ix_QuestionPositions ix = ix_QuestionPositions ix1"
      "ix_QuestionRevisionPositions ix = ix_QuestionRevisionPositions ix1"
      "ix_ForecastLocations ix = ix_ForecastLocations ix1"
    using BuildIndex_InrE [OF assms] .
  have q: "ix_QuestionPositions ix k = Some p \<longleftrightarrow> p < length ?qs \<and> qu_ID (?qs ! p) = k" for k p
    using inv by (simp add: index_inv_def eq)
  have rv: "ix_QuestionRevisionPositions ix k = Some rs \<longleftrightarrow>
      (\<exists>p<length ?qs. qu_ID (?qs ! p) = k \<and> rs = map_of (with_positions (map qr_ID (qu_Revisions (?qs ! p)))))" for k rs
    using inv by (simp add: index_inv_def eq)
  have d: "distinct (map qr_ID (qu_Revisions (?qs ! p)))" if "p < length ?qs" for p
    using wf that by (auto simp: wf_index_def wf_questions_def)
  have dq: "p = p'" if "p < length ?qs" "p' < length ?qs" "qu_ID (?qs ! p) = qu_ID (?qs ! p')" for p p'
    using wf that nth_eq_iff_index_eq [of "map qu_ID ?qs" p p'] by (auto simp: wf_index_def wf_questions_def)
  have "Index_Revision ix k r = Some loc \<longleftrightarrow>
      (\<exists>qp rs rp. ix_QuestionPositions ix k = Some qp \<and> ix_QuestionRevisionPositions ix k = Some rs \<and> rs r = Some rp \<and>
         loc = \<lparr>rv_QuestionIndex = qp, rv_RevisionIndex = rp, rv_QuestionID = k, rv_RevisionID = r\<rparr>)"
    by (auto simp: Index_Revision_def split: option.split)
  also have "\<dots> \<longleftrightarrow> (\<exists>qp rp. qp < length ?qs \<and> qu_ID (?qs ! qp) = k \<and>
         map_of (with_positions (map qr_ID (qu_Revisions (?qs ! qp)))) r = Some rp \<and>
         loc = \<lparr>rv_QuestionIndex = qp, rv_RevisionIndex = rp, rv_QuestionID = k, rv_RevisionID = r\<rparr>)"
    unfolding q rv using dq by metis
  also have "\<dots> \<longleftrightarrow> (\<exists>qp rp. qp < length ?qs \<and> qu_ID (?qs ! qp) = k \<and>
         rp < length (qu_Revisions (?qs ! qp)) \<and> qr_ID (qu_Revisions (?qs ! qp) ! rp) = r \<and>
         loc = \<lparr>rv_QuestionIndex = qp, rv_RevisionIndex = rp, rv_QuestionID = k, rv_RevisionID = r\<rparr>)"
  proof -
    have "map_of (with_positions (map qr_ID (qu_Revisions (?qs ! qp)))) r = Some rp \<longleftrightarrow>
        rp < length (qu_Revisions (?qs ! qp)) \<and> qr_ID (qu_Revisions (?qs ! qp) ! rp) = r"
      if "qp < length ?qs" for qp rp
      using map_of_with_positions [OF d [OF that]] by auto
    then show ?thesis by blast
  qed
  finally have rev: "Index_Revision ix k r = Some loc \<longleftrightarrow> \<dots>" .
  have "Index_Forecast ix f = Some floc \<longleftrightarrow> located ?qs f floc"
    using inv by (simp add: Index_Forecast_def eq index_inv_def)
  with q rev show ?thesis by (simp add: Index_Question_def)
qed

lemma example_index: "\<exists>ix. BuildIndex (Some example_ledger) = Inr ix"
  using BuildIndex_ok_iff [of example_ledger]
  by (simp add: isOk_iff wf_index_def wf_questions_def wf_links_def example_defs less_Suc_eq)

theorem BuildIndex_lookups_witness:
  "\<exists>ix :: index. Index_Question ix ''q1'' = Some 0 \<and> Index_Question ix ''q2'' \<noteq> Some 0"
proof -
  obtain ix where ix: "BuildIndex (Some example_ledger) = Inr ix" using example_index by blast
  show ?thesis
    using BuildIndex_lookups [OF ix, of "''q1''" 0] BuildIndex_lookups [OF ix, of "''q2''" 0]
    by (intro exI [of _ ix]) (simp add: example_defs)
qed

text \<open>
  Supersession in an index goes strictly backwards inside one question, records exactly the
  links of the ledger, and \<open>SupersededBy\<close> is its sorted inverse.
\<close>

theorem BuildIndex_supersession:
  assumes "BuildIndex (Some m) = Inr ix"
  shows "(ix_Supersedes ix k = Some r \<longleftrightarrow>
      (\<exists>f\<in>set (forecasts_of (lg_Questions m)). fo_ID f = k \<and> fo_SupersedesForecastID f = Some r)) \<and>
    (ix_Supersedes ix k = Some r \<longrightarrow>
      (\<exists>qp i j. i < j \<and> located (lg_Questions m) k
           \<lparr>fl_QuestionIndex = qp, fl_ForecastIndex = j, fl_QuestionID = qu_ID (lg_Questions m ! qp), fl_ForecastID = k\<rparr> \<and>
         located (lg_Questions m) r
           \<lparr>fl_QuestionIndex = qp, fl_ForecastIndex = i, fl_QuestionID = qu_ID (lg_Questions m ! qp), fl_ForecastID = r\<rparr>)) \<and>
    (k \<in> set (slice_at (ix_SupersededBy ix) r) \<longleftrightarrow> ix_Supersedes ix k = Some r) \<and>
    sorted (slice_at (ix_SupersededBy ix) r)"
proof -
  let ?qs = "lg_Questions m" and ?fs = "forecasts_of (lg_Questions m)"
  obtain ix1 where le: "links_empty ix1" and wf: "wf_index m"
    and eq: "ix_Supersedes ix = ix_Supersedes (foldl link_update ix1 ?fs)"
      "ix_SupersededBy ix = sort_slices (ix_SupersededBy (foldl link_update ix1 ?fs))"
    using BuildIndex_InrE [OF assms] .
  have d: "distinct (map fo_ID ?fs)" using wf by (simp add: wf_index_def wf_questions_def map_concat comp_def)
  have s: "ix_Supersedes ix k = Some r \<longleftrightarrow> (\<exists>f\<in>set ?fs. fo_ID f = k \<and> fo_SupersedesForecastID f = Some r)"
    unfolding eq using d le by (intro Supersedes_updates) (simp_all add: links_empty_def)
  have by_eq: "slice_at (ix_SupersededBy ix) r = sort (map fo_ID (filter (\<lambda>f. fo_SupersedesForecastID f = Some r) ?fs))"
    using le by (simp add: eq slice_at_sort SupersededBy_updates links_empty_def) (simp add: slice_at_def)
  have "\<exists>qp i j. i < j \<and> located ?qs k
           \<lparr>fl_QuestionIndex = qp, fl_ForecastIndex = j, fl_QuestionID = qu_ID (?qs ! qp), fl_ForecastID = k\<rparr> \<and>
         located ?qs r
           \<lparr>fl_QuestionIndex = qp, fl_ForecastIndex = i, fl_QuestionID = qu_ID (?qs ! qp), fl_ForecastID = r\<rparr>"
    if "ix_Supersedes ix k = Some r"
  proof -
    from that obtain q f where "q \<in> set ?qs" "f \<in> set (qu_Forecasts q)" "fo_ID f = k" "fo_SupersedesForecastID f = Some r"
      unfolding s by auto
    then obtain qp j where qp: "qp < length ?qs" "j < length (qu_Forecasts (?qs ! qp))"
      "fo_ID (qu_Forecasts (?qs ! qp) ! j) = k" "fo_SupersedesForecastID (qu_Forecasts (?qs ! qp) ! j) = Some r"
      by (metis in_set_conv_nth)
    with wf obtain i where "i < j" "fo_ID (qu_Forecasts (?qs ! qp) ! i) = r"
      unfolding wf_index_def wf_links_def by (metis nth_mem)
    with qp show ?thesis unfolding located_def by (intro exI [of _ qp] exI [of _ i] exI [of _ j]) auto
  qed
  with s by_eq show ?thesis by auto
qed

theorem BuildIndex_supersession_witness:
  "\<exists>ix :: index. ix_Supersedes ix ''f2'' = Some ''f1'' \<and> ix_Supersedes ix ''f1'' \<noteq> Some ''f2''"
proof -
  obtain ix where ix: "BuildIndex (Some example_ledger) = Inr ix" using example_index by blast
  show ?thesis
    using BuildIndex_supersession [OF ix, of "''f2''" "''f1''"] BuildIndex_supersession [OF ix, of "''f1''" "''f2''"]
    by (intro exI [of _ ix]) (simp add: example_defs)
qed

end
