(* ===== verification/Go_Bytes.thy ===== *)
theory Go_Bytes
  imports Ledger_Prelude
begin

text \<open>
  The byte-level parts of the Go library the code uses on strings: hexadecimal coding
  (\<open>encoding/hex\<close>), UTF-8 decoding (\<open>unicode/utf8\<close>) and \<open>fs.ValidPath\<close>.
\<close>

section \<open>Hexadecimal\<close>

definition hex_value :: "char \<Rightarrow> nat option" where
  "hex_value c =
     (let n = (of_char c :: nat) in
      if 48 \<le> n \<and> n \<le> 57 then Some (n - 48)
      else if 97 \<le> n \<and> n \<le> 102 then Some (n - 87)
      else if 65 \<le> n \<and> n \<le> 70 then Some (n - 55)
      else None)"

fun hex_DecodeString :: "string \<Rightarrow> string option" where
  "hex_DecodeString [] = Some []"
| "hex_DecodeString [_] = None"
| "hex_DecodeString (a # b # s) =
     (case (hex_value a, hex_value b, hex_DecodeString s) of
        (Some x, Some y, Some t) \<Rightarrow> Some (char_of (16 * x + y) # t)
      | _ \<Rightarrow> None)"

fun hex_EncodeToString :: "string \<Rightarrow> string" where
  "hex_EncodeToString [] = []"
| "hex_EncodeToString (c # s) =
     (let n = (of_char c :: nat) in hex_digit (n div 16) # hex_digit (n mod 16) # hex_EncodeToString s)"

lemma hex_value_digit [simp]: "n < 16 \<Longrightarrow> hex_value (hex_digit n) = Some n"
  by (auto simp: hex_value_def hex_digit_def digit_char_def of_char_of take_bit_eq_mod Let_def)

lemma hex_roundtrip [simp]: "hex_DecodeString (hex_EncodeToString s) = Some s"
proof (induction s)
  case Nil
  show ?case by simp
next
  case (Cons c s)
  have c: "(of_char c :: nat) < 256" by (rule nat_of_char_less_256)
  have "char_of (16 * (of_char c div 16) + of_char c mod 16 :: nat) = c"
    by (simp add: mult_div_mod_eq)
  moreover have "of_char c div 16 < (16 :: nat)" using c by (simp add: less_mult_imp_div_less)
  ultimately show ?case using Cons by (simp add: Let_def)
qed

lemma hex_EncodeToString_length [simp]: "length (hex_EncodeToString s) = 2 * length s"
  by (induction s) (simp_all add: Let_def)

lemma hex_EncodeToString_inj [simp]: "hex_EncodeToString s = hex_EncodeToString t \<longleftrightarrow> s = t"
  by (metis hex_roundtrip option.inject)

lemma hex_DecodeString_length: "hex_DecodeString s = Some t \<Longrightarrow> length s = 2 * length t"
  by (induction s arbitrary: t rule: hex_DecodeString.induct) (auto split: option.splits)

definition validHex :: "nat \<Rightarrow> string \<Rightarrow> bool" where
  "validHex n s =
     (case hex_DecodeString s of None \<Rightarrow> False | Some d \<Rightarrow> length d = n \<and> s = hex_EncodeToString d)"

lemma validHex_iff: "validHex n s \<longleftrightarrow> (\<exists>d. length d = n \<and> s = hex_EncodeToString d)"
  by (auto simp: validHex_def split: option.splits)

section \<open>UTF-8\<close>

abbreviation byte :: "char \<Rightarrow> nat" where "byte c \<equiv> of_char c"

definition is_cont :: "char \<Rightarrow> bool" where
  "is_cont c \<longleftrightarrow> 128 \<le> byte c \<and> byte c < 192"

text \<open>
  The runes of a valid string; no overlong forms, no surrogates, nothing above U+10FFFF, as
  the tables of \<open>unicode/utf8\<close> have it.
\<close>

fun utf8_decode :: "string \<Rightarrow> nat list option" where
  "utf8_decode [] = Some []"
| "utf8_decode (a # s) =
     (if byte a < 128 then map_option ((#) (byte a)) (utf8_decode s)
      else case s of
        [] \<Rightarrow> None
      | b # s1 \<Rightarrow>
          if 194 \<le> byte a \<and> byte a < 224 \<and> is_cont b
          then map_option ((#) ((byte a - 192) * 64 + (byte b - 128))) (utf8_decode s1)
          else case s1 of
            [] \<Rightarrow> None
          | c # s2 \<Rightarrow>
              if 224 \<le> byte a \<and> byte a < 240 \<and> is_cont b \<and> is_cont c
                 \<and> (byte a = 224 \<longrightarrow> 160 \<le> byte b) \<and> (byte a = 237 \<longrightarrow> byte b < 160)
              then map_option ((#) ((byte a - 224) * 4096 + (byte b - 128) * 64 + (byte c - 128))) (utf8_decode s2)
              else case s2 of
                [] \<Rightarrow> None
              | d # s3 \<Rightarrow>
                  if 240 \<le> byte a \<and> byte a < 245 \<and> is_cont b \<and> is_cont c \<and> is_cont d
                     \<and> (byte a = 240 \<longrightarrow> 144 \<le> byte b) \<and> (byte a = 244 \<longrightarrow> byte b < 144)
                  then map_option ((#) ((byte a - 240) * 262144 + (byte b - 128) * 4096 + (byte c - 128) * 64 + (byte d - 128)))
                         (utf8_decode s3)
                  else None)"

definition utf8_valid :: "string \<Rightarrow> bool" where
  "utf8_valid s \<longleftrightarrow> utf8_decode s \<noteq> None"

text \<open>The first offset where \<open>utf8.DecodeRune\<close> meets a byte that begins no rune.\<close>

fun firstInvalidUTF8 :: "string \<Rightarrow> nat" where
  "firstInvalidUTF8 [] = 0"
| "firstInvalidUTF8 (a # s) =
     (if utf8_decode [a] \<noteq> None then Suc (firstInvalidUTF8 s)
      else if 2 \<le> length (a # s) \<and> utf8_decode [a, s ! 0] \<noteq> None then 2 + firstInvalidUTF8 (drop 1 s)
      else if 3 \<le> length (a # s) \<and> utf8_decode [a, s ! 0, s ! 1] \<noteq> None then 3 + firstInvalidUTF8 (drop 2 s)
      else if 4 \<le> length (a # s) \<and> utf8_decode [a, s ! 0, s ! 1, s ! 2] \<noteq> None then 4 + firstInvalidUTF8 (drop 3 s)
      else 0)"

text \<open>The encoding, the inverse of the decoding.\<close>

definition utf8_encode :: "nat \<Rightarrow> string" where
  "utf8_encode r =
     (if r < 128 then [char_of r]
      else if r < 2048 then [char_of (192 + r div 64), char_of (128 + r mod 64)]
      else if r < 65536
      then [char_of (224 + r div 4096), char_of (128 + r div 64 mod 64), char_of (128 + r mod 64)]
      else [char_of (240 + r div 262144), char_of (128 + r div 4096 mod 64),
            char_of (128 + r div 64 mod 64), char_of (128 + r mod 64)])"

lemma byte_split:
  assumes "k \<le> byte c"
  obtains x where "byte c = k + x" "c = char_of (k + x)" "byte c - k = x"
  using assms that [of "byte c - k"] by simp

lemma utf8_encode1: "byte a < 128 \<Longrightarrow> utf8_encode (byte a) = [a]"
  by (simp add: utf8_encode_def)

lemma utf8_encode2:
  assumes "194 \<le> byte a" "byte a < 224" "is_cont b"
  shows "utf8_encode ((byte a - 192) * 64 + (byte b - 128)) = [a, b]"
proof -
  from assms have "192 \<le> byte a" "128 \<le> byte b" by (auto simp: is_cont_def)
  then obtain x y where x: "byte a = 192 + x" "a = char_of (192 + x)" and y: "byte b = 128 + y" "b = char_of (128 + y)"
    by (metis byte_split)
  from assms x(1) y(1) have "2 \<le> x" "x < 32" "y < 64" by (auto simp: is_cont_def)
  moreover from this have "(x * 64 + y) div 64 = x" "(x * 64 + y) mod 64 = y" "\<not> x * 64 + y < 128" "x * 64 + y < 2048" by auto
  ultimately show ?thesis unfolding utf8_encode_def x(1) y(1) using x(2) y(2) by simp
qed

lemma base64 [simp]: "z < 64 \<Longrightarrow> (q * 64 + z) div 64 = q" "z < 64 \<Longrightarrow> (q * 64 + z) mod 64 = (z :: nat)"
  by simp_all

lemma div_4096: "(n::nat) div 4096 = n div 64 div 64" "(n::nat) div 262144 = n div 64 div 64 div 64"
  by (simp_all add: div_mult2_eq [symmetric])

lemma utf8_encode3:
  assumes "224 \<le> byte a" "byte a < 240" "is_cont b" "is_cont c" "byte a = 224 \<longrightarrow> 160 \<le> byte b"
  shows "utf8_encode ((byte a - 224) * 4096 + (byte b - 128) * 64 + (byte c - 128)) = [a, b, c]"
proof -
  from assms have "128 \<le> byte b" "128 \<le> byte c" by (auto simp: is_cont_def)
  with assms(1) obtain x y z where x: "byte a = 224 + x" "a = char_of (224 + x)"
    and y: "byte b = 128 + y" "b = char_of (128 + y)" and z: "byte c = 128 + z" "c = char_of (128 + z)"
    by (metis byte_split)
  from assms x(1) y(1) z(1) have b: "x < 16" "y < 64" "z < 64" "x = 0 \<longrightarrow> 32 \<le> y" by (auto simp: is_cont_def)
  let ?n = "x * 4096 + y * 64 + z"
  have n: "?n = (x * 64 + y) * 64 + z" by simp
  have "?n div 64 = x * 64 + y" "?n mod 64 = z" using b unfolding n by (simp_all only: base64)
  moreover from this have "?n div 4096 = x" using b by (simp only: div_4096 base64)
  moreover have "\<not> ?n < 128" "\<not> ?n < 2048" "?n < 65536" using b by (cases "x = 0"; linarith)+
  ultimately show ?thesis unfolding utf8_encode_def x(1) y(1) z(1) diff_add_inverse
    using x(2) y(2) z(2) b by (simp only: if_False if_True base64)
qed

lemma utf8_encode4:
  assumes "240 \<le> byte a" "byte a < 245" "is_cont b" "is_cont c" "is_cont d" "byte a = 240 \<longrightarrow> 144 \<le> byte b"
  shows "utf8_encode ((byte a - 240) * 262144 + (byte b - 128) * 4096 + (byte c - 128) * 64 + (byte d - 128)) = [a, b, c, d]"
proof -
  from assms have "128 \<le> byte b" "128 \<le> byte c" "128 \<le> byte d" by (auto simp: is_cont_def)
  with assms(1) obtain x y z w where x: "byte a = 240 + x" "a = char_of (240 + x)"
    and y: "byte b = 128 + y" "b = char_of (128 + y)" and z: "byte c = 128 + z" "c = char_of (128 + z)"
    and w: "byte d = 128 + w" "d = char_of (128 + w)"
    by (metis byte_split)
  from assms x(1) y(1) z(1) w(1) have b: "x < 5" "y < 64" "z < 64" "w < 64" "x = 0 \<longrightarrow> 16 \<le> y" by (auto simp: is_cont_def)
  let ?n = "x * 262144 + y * 4096 + z * 64 + w"
  have n: "?n = ((x * 64 + y) * 64 + z) * 64 + w" by simp
  have m: "x * 262144 + y * 4096 + z * 64 + w = ?n" by simp
  have "?n div 64 = (x * 64 + y) * 64 + z" "?n mod 64 = w" using b unfolding n by (simp_all only: base64)
  moreover from this have "?n div 4096 = x * 64 + y" "?n div 262144 = x" using b by (simp_all only: div_4096 base64)
  moreover have "\<not> ?n < 128" "\<not> ?n < 2048" "\<not> ?n < 65536" using b by (cases "x = 0"; linarith)+
  ultimately show ?thesis unfolding utf8_encode_def x(1) y(1) z(1) w(1) diff_add_inverse
    using x(2) y(2) z(2) w(2) b by (simp only: if_False if_True base64)
qed

text \<open>Decoding takes off the encoding of the first rune.\<close>

lemma utf8_decode_step:
  assumes "utf8_decode (a # s) = Some rs"
  obtains r rs' t where "rs = r # rs'" "a # s = utf8_encode r @ t" "utf8_decode t = Some rs'" "r < 1114112"
    "length t \<le> length s" "\<And>t' us. utf8_decode t' = Some us \<Longrightarrow> utf8_decode (utf8_encode r @ t') = Some (r # us)"
    "r < 128 \<or> (\<forall>c\<in>set (utf8_encode r). 128 \<le> byte c)"
proof (cases "byte a < 128")
  case True
  with assms that [of "byte a" _ s] show thesis by (auto simp: utf8_encode1)
next
  case a: False
  then obtain b s1 where s: "s = b # s1" using assms by (cases s) auto
  show thesis
  proof (cases "194 \<le> byte a \<and> byte a < 224 \<and> is_cont b")
    case True
    let ?r = "(byte a - 192) * 64 + (byte b - 128)"
    obtain rs' where "rs = ?r # rs'" "utf8_decode s1 = Some rs'" using True a assms by (auto simp: s)
    moreover have "?r < 1114112" using True by (simp add: is_cont_def) linarith
    moreover have e: "utf8_encode ?r = [a, b]" using True by (intro utf8_encode2) simp_all
    moreover have "utf8_decode (utf8_encode ?r @ t') = Some (?r # us)" if "utf8_decode t' = Some us" for t' us
      unfolding e using True a that by simp
    moreover have "\<forall>c\<in>set (utf8_encode ?r). 128 \<le> byte c" unfolding e using True by (simp add: is_cont_def)
    ultimately show thesis using that [of ?r rs' s1] by (simp add: s)
  next
    case ab: False
    then obtain c s2 where s1: "s1 = c # s2" using assms a s by (cases s1) auto
    show thesis
    proof (cases "224 \<le> byte a \<and> byte a < 240 \<and> is_cont b \<and> is_cont c
                 \<and> (byte a = 224 \<longrightarrow> 160 \<le> byte b) \<and> (byte a = 237 \<longrightarrow> byte b < 160)")
      case True
      let ?r = "(byte a - 224) * 4096 + (byte b - 128) * 64 + (byte c - 128)"
      obtain rs' where "rs = ?r # rs'" "utf8_decode s2 = Some rs'"
        using a ab True assms by (auto simp: s s1)
      moreover have "?r < 1114112" using True by (simp add: is_cont_def) linarith
      moreover have e: "utf8_encode ?r = [a, b, c]" using True by (intro utf8_encode3) simp_all
      moreover have "utf8_decode (utf8_encode ?r @ t') = Some (?r # us)" if "utf8_decode t' = Some us" for t' us
        unfolding e using True a ab that by simp
      moreover have "\<forall>c\<in>set (utf8_encode ?r). 128 \<le> byte c" unfolding e using True by (simp add: is_cont_def)
      ultimately show thesis using that [of ?r rs' s2] by (simp add: s s1)
    next
      case abc: False
      then obtain d s3 where s2: "s2 = d # s3" using assms a ab s s1 by (cases s2) auto
      have d: "240 \<le> byte a \<and> byte a < 245 \<and> is_cont b \<and> is_cont c \<and> is_cont d
                     \<and> (byte a = 240 \<longrightarrow> 144 \<le> byte b) \<and> (byte a = 244 \<longrightarrow> byte b < 144)"
        using a ab abc assms unfolding s s1 s2 utf8_decode.simps list.case by (simp only: if_False split: if_splits) simp_all
      let ?r = "(byte a - 240) * 262144 + (byte b - 128) * 4096 + (byte c - 128) * 64 + (byte d - 128)"
      obtain rs' where "rs = ?r # rs'" "utf8_decode s3 = Some rs'"
        using a ab abc d assms unfolding s s1 s2 utf8_decode.simps list.case by (simp only: if_False if_True) auto
      moreover have "?r < 1114112" using d by (cases "byte a = 244") (simp_all add: is_cont_def, linarith+)
      moreover have e: "utf8_encode ?r = [a, b, c, d]" using d by (intro utf8_encode4) simp_all
      moreover have "utf8_decode (utf8_encode ?r @ t') = Some (?r # us)" if "utf8_decode t' = Some us" for t' us
        unfolding e append.simps utf8_decode.simps list.case using a ab abc d that by (simp only: if_False if_True) simp
      moreover have "\<forall>c\<in>set (utf8_encode ?r). 128 \<le> byte c" unfolding e using d by (simp add: is_cont_def)
      ultimately show thesis using that [of ?r rs' s3] by (simp add: s s1 s2)
    qed
  qed
qed

declare utf8_decode.simps(2) [simp del]

lemma utf8_encode_decode: "utf8_decode s = Some rs \<Longrightarrow> concat (map utf8_encode rs) = s"
proof (induction s arbitrary: rs rule: length_induct)
  case (1 s)
  show ?case
  proof (cases s)
    case Nil
    with "1.prems" show ?thesis by simp
  next
    case (Cons a s')
    with "1.prems" obtain r rs' t where step: "rs = r # rs'" "a # s' = utf8_encode r @ t" "utf8_decode t = Some rs'"
      "length t \<le> length s'" by (metis utf8_decode_step)
    have "concat (map utf8_encode rs') = t"
      by (rule "1.IH" [rule_format, OF _ step(3)]) (use step(4) Cons in simp)
    with step Cons show ?thesis by simp
  qed
qed

lemma utf8_decode_inj: "utf8_decode s = Some rs \<Longrightarrow> utf8_decode t = Some rs \<Longrightarrow> s = t"
  using utf8_encode_decode by blast

lemma utf8_decode_append:
  "utf8_decode s = Some rs \<Longrightarrow> utf8_decode t = Some us \<Longrightarrow> utf8_decode (s @ t) = Some (rs @ us)"
proof (induction s arbitrary: rs rule: length_induct)
  case (1 s)
  show ?case
  proof (cases s)
    case Nil
    with "1.prems" show ?thesis by simp
  next
    case (Cons a s')
    with "1.prems" obtain r rs' s2 where step: "rs = r # rs'" "a # s' = utf8_encode r @ s2" "utf8_decode s2 = Some rs'"
      "length s2 \<le> length s'" "\<And>t' us. utf8_decode t' = Some us \<Longrightarrow> utf8_decode (utf8_encode r @ t') = Some (r # us)"
      by (metis utf8_decode_step)
    have "utf8_decode (s2 @ t) = Some (rs' @ us)"
      by (rule "1.IH" [rule_format, OF _ step(3) "1.prems"(2)]) (use step(4) Cons in simp)
    from step(5) [OF this] step(1,2) Cons show ?thesis by simp
  qed
qed

lemma utf8_valid_append: "utf8_valid s \<Longrightarrow> utf8_valid t \<Longrightarrow> utf8_valid (s @ t)"
  using utf8_decode_append by (fastforce simp: utf8_valid_def)

lemma utf8_valid_ascii: "\<forall>c\<in>set s. byte c < 128 \<Longrightarrow> utf8_valid s"
  by (induction s) (auto simp: utf8_valid_def utf8_decode.simps(2))

section \<open>Slash-separated paths\<close>

text \<open>\<open>strings.Split(s, sep)\<close> for a one-byte separator.\<close>

fun split_on :: "char \<Rightarrow> string \<Rightarrow> string list" where
  "split_on c [] = [[]]"
| "split_on c (x # xs) =
     (if x = c then [] # split_on c xs
      else case split_on c xs of [] \<Rightarrow> [[x]] | w # ws \<Rightarrow> (x # w) # ws)"

lemma split_on_ne [simp]: "split_on c s \<noteq> []"
  by (cases s) (auto split: list.split)

definition fs_ValidPath :: "string \<Rightarrow> bool" where
  "fs_ValidPath name \<longleftrightarrow>
     utf8_valid name \<and>
     (name = ''.'' \<or> list_all (\<lambda>e. e \<noteq> [] \<and> e \<noteq> ''.'' \<and> e \<noteq> ''..'') (split_on CHR ''/'' name))"

lemma split_on_join:
  "ws \<noteq> [] \<Longrightarrow> list_all (\<lambda>w. c \<notin> set w) ws \<Longrightarrow> split_on c (concat (map (\<lambda>w. w @ [c]) (butlast ws)) @ last ws) = ws"
proof (induction ws)
  case Nil
  then show ?case by simp
next
  case (Cons w ws)
  have pre: "split_on c (u @ c # t) = u # split_on c t" if "c \<notin> set u" for u t
    using that by (induction u) auto
  have last: "split_on c u = [u]" if "c \<notin> set u" for u
    using that by (induction u) auto
  show ?case
  proof (cases "ws = []")
    case True
    with Cons.prems last show ?thesis by simp
  next
    case False
    with Cons pre show ?thesis by simp
  qed
qed

end
