(* ===== verification/Semantic_Validation.thy ===== *)
theory Semantic_Validation
  imports Representation_Checks Conditional_Graph Ledger_Index Go_Bytes
begin

text \<open>
  \<open>ValidateSemantics\<close> of \<open>internal/validation/semantic.go\<close>: the checks of the root, the
  questions with their revisions, forecasts, lifecycle events, checkpoints, integrity and
  resolution, the relationships, and the final sort.  What these checks ask of other packages is
  an argument, the environment: the time-zone database, the artifact tree, SHA-256, the target
  digests of \<open>internal/target\<close> and the reveal of \<open>internal/forecastcrypto\<close>.
\<close>

section \<open>Environment\<close>

record private_bundle =
  bu_Representations :: "forecast_representation list option"
  bu_Rationale :: "string option"
  bu_KeyFactors :: "string list option"
  bu_Comment :: "string option"

record env =
  ev_KnownTimezone :: "string \<Rightarrow> bool"
  ev_Artifacts :: "(string \<Rightarrow> string option) option"
  ev_Sha256 :: "string \<Rightarrow> string"
  ev_ForecastDigest :: "question \<Rightarrow> forecast \<Rightarrow> string option"
  ev_LifecycleDigest :: "question \<Rightarrow> forecast \<Rightarrow> slug \<Rightarrow> string option"
  ev_Reveal :: "slug \<Rightarrow> slug \<Rightarrow> slug \<Rightarrow> revealed_commitment \<Rightarrow> private_bundle option"

abbreviation "ForecastEnvelopeSchema \<equiv> ''forecast-envelope/v3''"
abbreviation "LifecycleSchema \<equiv> ''forecast-lifecycle/v2''"
abbreviation "Canonicalization \<equiv> ''RFC8785''"

text \<open>A loop over a slice with a state and the position, collecting issues.\<close>

fun scan :: "('s \<Rightarrow> nat \<Rightarrow> 'a \<Rightarrow> 's \<times> 'b list) \<Rightarrow> 's \<Rightarrow> nat \<Rightarrow> 'a list \<Rightarrow> 'b list" where
  "scan f s i [] = []"
| "scan f s i (x # xs) = (case f s i x of (s', is) \<Rightarrow> is @ scan f s' (Suc i) xs)"

section \<open>Artifacts, provenance and integrity\<close>

definition equalBytes :: "string \<Rightarrow> string \<Rightarrow> bool" where
  "equalBytes left right \<longleftrightarrow> length left = length right \<and> list_all2 (=) left right"

definition validateArtifact :: "env \<Rightarrow> relative_path \<Rightarrow> digest \<Rightarrow> string \<Rightarrow> semantic_issue list" where
  "validateArtifact env path digest pointer =
     (case ev_Artifacts env of
        None \<Rightarrow> []
      | Some artifacts \<Rightarrow>
          if \<not> fs_ValidPath path \<or> path = ''.''
          then add ''semantic.artifact_path'' (pointer @ ''/artifact_path'') ''artifact path is not a confined relative path''
          else
            (case artifacts path of
               None \<Rightarrow> add ''semantic.artifact_missing'' (pointer @ ''/artifact_path'') ''artifact cannot be read''
             | Some data \<Rightarrow>
                 let actual = ev_Sha256 env data in
                 issue_if (case hex_DecodeString (dg_Value digest) of
                             None \<Rightarrow> True
                           | Some expected \<Rightarrow> length expected \<noteq> 32 \<or> \<not> equalBytes actual expected)
                   ''semantic.artifact_digest'' (pointer @ ''/digest/value'') ''artifact digest does not match''))"

definition validateProvenance :: "env \<Rightarrow> slug set \<Rightarrow> provenance \<Rightarrow> string \<Rightarrow> semantic_issue list" where
  "validateProvenance env platforms value pointer =
     issue_if (pv_Platform value \<notin> platforms) ''semantic.unknown_platform'' (pointer @ ''/platform'')
       ''provenance references an unknown platform''
     @ (case pv_Snapshot value of
          None \<Rightarrow> []
        | Some s \<Rightarrow> validateArtifact env (as_ArtifactPath s) (as_Digest s) (pointer @ ''/snapshot''))"

definition optional_provenance :: "env \<Rightarrow> slug set \<Rightarrow> provenance option \<Rightarrow> string \<Rightarrow> semantic_issue list" where
  "optional_provenance env platforms value pointer =
     (case value of None \<Rightarrow> [] | Some p \<Rightarrow> validateProvenance env platforms p (pointer @ ''/provenance''))"

definition integrity_target :: "integrity \<Rightarrow> target option" where
  "integrity_target value =
     (case in_Retained value of Some r \<Rightarrow> Some (ri_Target r) | None \<Rightarrow>
     (case in_Pending value of Some p \<Rightarrow> Some (pi_Target p) | None \<Rightarrow>
     (case in_Verified value of Some x \<Rightarrow> Some (vi_Target x) | None \<Rightarrow>
     (case in_Failed value of Some f \<Rightarrow> fi_Target f | None \<Rightarrow> None))))"

definition lifecycle_target :: "lifecycle_integrity \<Rightarrow> target option" where
  "lifecycle_target value =
     (case li_Retained value of Some r \<Rightarrow> Some (ri_Target r) | None \<Rightarrow>
     (case li_Pending value of Some p \<Rightarrow> Some (pi_Target p) | None \<Rightarrow>
     (case li_Verified value of Some x \<Rightarrow> Some (vi_Target x) | None \<Rightarrow>
     (case li_Failed value of Some f \<Rightarrow> fi_Target f | None \<Rightarrow> None))))"

definition validateIntegrity :: "env \<Rightarrow> question \<Rightarrow> forecast \<Rightarrow> integrity \<Rightarrow> string \<Rightarrow> semantic_issue list" where
  "validateIntegrity env question forecast value pointer =
     (case integrity_target value of
        None \<Rightarrow> []
      | Some t \<Rightarrow>
          issue_if (tg_Scope t \<noteq> ForecastEnvelopeSchema) ''semantic.forecast_target_scope''
            (pointer @ ''/target/scope'') (''must be '' @ ForecastEnvelopeSchema)
          @ issue_if (tg_Canonicalization t \<noteq> Canonicalization) ''semantic.forecast_target_canonicalization''
              (pointer @ ''/target/canonicalization'') (''must be '' @ Canonicalization)
          @ (case ev_ForecastDigest env question forecast of
               None \<Rightarrow> []
             | Some expected \<Rightarrow>
                 issue_if (dg_Algorithm (tg_Digest t) \<noteq> ''sha-256'' \<or> dg_Value (tg_Digest t) \<noteq> expected)
                   ''semantic.forecast_target_digest'' (pointer @ ''/target/digest/value'')
                   (''does not match the canonical '' @ ForecastEnvelopeSchema @ '' target''))
          @ validateArtifact env (tg_ArtifactPath t) (tg_Digest t) (pointer @ ''/target''))"

definition validateLifecycleIntegrity ::
  "env \<Rightarrow> question \<Rightarrow> forecast \<Rightarrow> lifecycle_integrity \<Rightarrow> slug \<Rightarrow> string \<Rightarrow> semantic_issue list" where
  "validateLifecycleIntegrity env question forecast value headEventID pointer =
     (case lifecycle_target value of
        None \<Rightarrow> []
      | Some t \<Rightarrow>
          issue_if (tg_Scope t \<noteq> LifecycleSchema) ''semantic.activity_target_scope''
            (pointer @ ''/target/scope'') (''must be '' @ LifecycleSchema)
          @ issue_if (tg_Canonicalization t \<noteq> Canonicalization) ''semantic.activity_target_canonicalization''
              (pointer @ ''/target/canonicalization'') (''must be '' @ Canonicalization)
          @ (case ev_LifecycleDigest env question forecast headEventID of
               None \<Rightarrow> []
             | Some expected \<Rightarrow>
                 issue_if (dg_Algorithm (tg_Digest t) \<noteq> ''sha-256'' \<or> dg_Value (tg_Digest t) \<noteq> expected)
                   ''semantic.activity_target_digest'' (pointer @ ''/target/digest/value'')
                   (''does not match the canonical '' @ LifecycleSchema @ '' target''))
          @ validateArtifact env (tg_ArtifactPath t) (tg_Digest t) (pointer @ ''/target''))"

definition validateReveal :: "env \<Rightarrow> slug \<Rightarrow> forecast \<Rightarrow> string \<Rightarrow> semantic_issue list" where
  "validateReveal env questionID forecast pointer =
     (case (if fo_Visibility forecast \<noteq> VisibilityRevealed then None
            else Option.bind (fo_Commitment forecast) cm_Revealed) of
        None \<Rightarrow> []
      | Some commitment \<Rightarrow>
          (case ev_Reveal env questionID (fo_QuestionRevisionID forecast) (fo_ID forecast) commitment of
             None \<Rightarrow> add ''semantic.reveal_verification'' (pointer @ ''/commitment'') ''revealed commitment verification failed''
           | Some bundle \<Rightarrow>
               concat (map (\<lambda>(name, same). issue_if (\<not> same) ''semantic.revealed_mirror'' (pointer @ ''/'' @ name)
                                            ''does not match the decrypted sealed bundle'')
                 [(''representations'', fo_Representations forecast = bu_Representations bundle),
                  (''rationale'', fo_Rationale forecast = bu_Rationale bundle),
                  (''key_factors'', fo_KeyFactors forecast = bu_KeyFactors bundle),
                  (''comment'', fo_Comment forecast = bu_Comment bundle)])))"

section \<open>Lifecycle\<close>

text \<open>\<open>previous.IsZero()\<close> stands for "no previous event"; the state starts at the zero time.\<close>

definition after_previous :: "instant \<Rightarrow> bool \<Rightarrow> bool" where
  "after_previous previous b \<longleftrightarrow> \<not> IsZero previous \<and> b"

record lifecycle_state =
  ls_Active :: bool
  ls_Effective :: instant
  ls_Recorded :: instant

definition lifecycle_event_issues ::
  "env \<Rightarrow> slug set \<Rightarrow> string + instant \<Rightarrow> string + instant \<Rightarrow> string
    \<Rightarrow> lifecycle_state \<Rightarrow> nat \<Rightarrow> lifecycle_event \<Rightarrow> lifecycle_state \<times> semantic_issue list" where
  "lifecycle_event_issues env platforms forecasted forecastRecorded pointer s i event =
     (let ep = at_index pointer i;
          (s1, times) =
            (case (ParseTimestamp (le_EffectiveAt event), ParseTimestamp (le_RecordedAt event)) of
               (Inr effective, Inr recorded) \<Rightarrow>
                 (s\<lparr>ls_Effective := effective, ls_Recorded := recorded\<rparr>,
                  issue_if (case forecasted of Inr f \<Rightarrow> effective < f | Inl _ \<Rightarrow> False)
                    ''semantic.lifecycle_forecast_chronology'' (ep @ ''/effective_at'') ''must not precede forecast.forecasted_at''
                  @ issue_if (recorded < effective)
                      ''semantic.lifecycle_chronology'' (ep @ ''/recorded_at'') ''must not precede effective_at''
                  @ issue_if (case forecastRecorded of Inr f \<Rightarrow> recorded < f | Inl _ \<Rightarrow> False)
                      ''semantic.lifecycle_forecast_chronology'' (ep @ ''/recorded_at'') ''must not precede forecast.recorded_at''
                  @ issue_if (after_previous (ls_Effective s) (effective < ls_Effective s))
                      ''semantic.lifecycle_effective_order'' ep ''events must be ordered by effective_at''
                  @ issue_if (after_previous (ls_Recorded s) (recorded < ls_Recorded s))
                      ''semantic.lifecycle_recorded_order'' ep ''events must be append-only ordered by recorded_at'')
             | _ \<Rightarrow> (s, []));
          (s2, transition) =
            (if le_Type event = LifecycleWithdrawn \<or> le_Type event = LifecycleExpired then
               (s1\<lparr>ls_Active := False\<rparr>,
                issue_if (\<not> ls_Active s1) ''semantic.lifecycle_transition'' (ep @ ''/type'') ''cannot deactivate an inactive forecast'')
             else if le_Type event = LifecycleReaffirmed then
               (s1\<lparr>ls_Active := True\<rparr>,
                issue_if (ls_Active s1) ''semantic.lifecycle_transition'' (ep @ ''/type'') ''cannot reaffirm an active forecast'')
             else (s1, []))
      in (s2, times @ transition @ optional_provenance env platforms (le_Provenance event) ep))"

definition validateLifecycleEvents :: "env \<Rightarrow> slug set \<Rightarrow> forecast \<Rightarrow> string \<Rightarrow> semantic_issue list" where
  "validateLifecycleEvents env platforms forecast pointer =
     (case fo_LifecycleEvents forecast of
        None \<Rightarrow> []
      | Some events \<Rightarrow>
          scan (lifecycle_event_issues env platforms (ParseTimestamp (fo_ForecastedAt forecast))
                  (ParseTimestamp (fo_RecordedAt forecast)) pointer)
            \<lparr>ls_Active = True, ls_Effective = zero_time, ls_Recorded = zero_time\<rparr> 0 events
          @ uniqueSlugs (map le_ID events) pointer ''semantic.duplicate_lifecycle_event_id'')"

text \<open>The map from event identifiers to positions; a later duplicate overwrites an earlier one.\<close>

definition event_indexes :: "lifecycle_event list option \<Rightarrow> (slug \<rightharpoonup> nat)" where
  "event_indexes events =
     (case events of None \<Rightarrow> Map.empty | Some es \<Rightarrow> map_of (rev (with_positions (map le_ID es))))"

record checkpoint_state =
  ks_Head :: "nat option"
  ks_Recorded :: instant

definition checkpoint_issues ::
  "env \<Rightarrow> question \<Rightarrow> forecast \<Rightarrow> string \<Rightarrow> checkpoint_state \<Rightarrow> nat \<Rightarrow> activity_checkpoint
    \<Rightarrow> checkpoint_state \<times> semantic_issue list" where
  "checkpoint_issues env question forecast pointer s i checkpoint =
     (let cp = at_index pointer i;
          (s', head) =
            (case event_indexes (fo_LifecycleEvents forecast) (ac_HeadEventID checkpoint) of
               None \<Rightarrow> (s, add ''semantic.activity_checkpoint_head'' (cp @ ''/head_event_id'') ''must reference a lifecycle event'')
             | Some headIndex \<Rightarrow>
                 let order = issue_if (case ks_Head s of None \<Rightarrow> False | Some h \<Rightarrow> headIndex \<le> h)
                               ''semantic.activity_checkpoint_order'' (cp @ ''/head_event_id'')
                               ''checkpoints must cover strictly increasing lifecycle prefixes'';
                     headRecorded = ParseTimestamp (le_RecordedAt (the (fo_LifecycleEvents forecast) ! headIndex));
                     (s1, times) =
                       (case ParseTimestamp (ac_RecordedAt checkpoint) of
                          Inl _ \<Rightarrow> (s, [])
                        | Inr recorded \<Rightarrow>
                            (s\<lparr>ks_Recorded := recorded\<rparr>,
                             issue_if (case headRecorded of Inr h \<Rightarrow> recorded < h | Inl _ \<Rightarrow> False)
                               ''semantic.activity_checkpoint_chronology'' (cp @ ''/recorded_at'')
                               ''must not precede the covered lifecycle head recorded_at''
                             @ issue_if (after_previous (ks_Recorded s) (recorded < ks_Recorded s))
                                 ''semantic.activity_checkpoint_order'' (cp @ ''/recorded_at'')
                                 ''checkpoints must be append-only ordered by recorded_at''))
                 in (s1\<lparr>ks_Head := Some headIndex\<rparr>, order @ times))
      in (s', head @ validateLifecycleIntegrity env question forecast (ac_Integrity checkpoint)
                       (ac_HeadEventID checkpoint) (cp @ ''/integrity'')))"

definition validateActivityCheckpoints :: "env \<Rightarrow> question \<Rightarrow> forecast \<Rightarrow> string \<Rightarrow> semantic_issue list" where
  "validateActivityCheckpoints env question forecast pointer =
     (case fo_ActivityCheckpoints forecast of
        None \<Rightarrow> []
      | Some checkpoints \<Rightarrow>
          scan (checkpoint_issues env question forecast pointer)
            \<lparr>ks_Head = None, ks_Recorded = zero_time\<rparr> 0 checkpoints
          @ uniqueSlugs (map ac_ID checkpoints) pointer ''semantic.duplicate_activity_checkpoint_id''
          @ uniqueSlugs (map ac_HeadEventID checkpoints) pointer ''semantic.duplicate_activity_checkpoint_head'')"

section \<open>Domains, revisions and forecasts\<close>

definition validateOptionSet :: "option_set \<Rightarrow> string \<Rightarrow> semantic_issue list" where
  "validateOptionSet optionSet pointer =
     uniqueSlugs (map op_ID (os_Options optionSet)) (pointer @ ''/options'') ''semantic.duplicate_option_id''"

definition bin_issues :: "outcome_kind \<Rightarrow> string \<Rightarrow> bin option \<Rightarrow> nat \<Rightarrow> bin \<Rightarrow> bin option \<times> semantic_issue list" where
  "bin_issues kind sp previous i b =
     (let bp = at_index (sp @ ''/bins'') i
      in (Some b,
          issue_if (\<not> compared (\<lambda>c. c < 0) (CompareScalarStrings kind (bi_Lower b) (bi_Upper b)))
            ''semantic.bin_bounds'' bp ''bin lower must be strictly less than upper''
          @ (case previous of
               None \<Rightarrow> []
             | Some p \<Rightarrow>
                 issue_if (\<not> compared (\<lambda>c. c = 0) (CompareScalarStrings kind (bi_Upper p) (bi_Lower b)))
                   ''semantic.bin_continuity'' bp ''bins must have neither gaps nor overlaps''
                 @ issue_if (bi_UpperInclusive p = bi_LowerInclusive b)
                     ''semantic.bin_inclusivity'' bp ''exactly one adjacent bin must include their shared boundary'')))"

definition bin_set_key :: "bin_set \<Rightarrow> string" where
  "bin_set_key s = bt_ID s @ [char_of (0::nat)] @ int_string (bt_Version s)"

definition bin_set_issues ::
  "outcome_kind \<Rightarrow> string \<Rightarrow> string set \<Rightarrow> nat \<Rightarrow> bin_set \<Rightarrow> string set \<times> semantic_issue list" where
  "bin_set_issues kind pointer seen i s =
     (let sp = at_index pointer i
      in (insert (bin_set_key s) seen,
          issue_if (bin_set_key s \<in> seen) ''semantic.duplicate_bin_set'' sp ''bin-set id and version are duplicated''
          @ scan (bin_issues kind sp) None 0 (bt_Bins s)
          @ uniqueSlugs (map bi_ID (bt_Bins s)) (sp @ ''/bins'') ''semantic.duplicate_bin_id''))"

definition validateBins :: "outcome_kind \<Rightarrow> bin_set list \<Rightarrow> string \<Rightarrow> semantic_issue list" where
  "validateBins kind sets pointer = scan (bin_set_issues kind pointer) {} 0 sets"

definition validateDomain :: "domain \<Rightarrow> string \<Rightarrow> semantic_issue list" where
  "validateDomain domain pointer =
     (case ValidateDomainScalars domain of
        Inl e \<Rightarrow> add ''semantic.domain_scalar'' pointer e
      | Inr _ \<Rightarrow> [])
     @ (case dm_Categorical domain of Some c \<Rightarrow> validateOptionSet (od_OptionSet c) (pointer @ ''/option_set'') | None \<Rightarrow>
       (case dm_Ordinal domain of Some o' \<Rightarrow> validateOptionSet (od_OptionSet o') (pointer @ ''/option_set'') | None \<Rightarrow>
       (case Option.bind (dm_Numeric domain) sd_BinSets of
          Some sets \<Rightarrow> validateBins OutcomeNumeric sets (pointer @ ''/bin_sets'') | None \<Rightarrow>
       (case Option.bind (dm_Date domain) sd_BinSets of
          Some sets \<Rightarrow> validateBins OutcomeDate sets (pointer @ ''/bin_sets'') | None \<Rightarrow>
       (case Option.bind (dm_Datetime domain) sd_BinSets of
          Some sets \<Rightarrow> validateBins OutcomeDatetime sets (pointer @ ''/bin_sets'') | None \<Rightarrow> [])))))"

record order_state =
  or_Effective :: instant
  or_Recorded :: instant

definition revision_issues ::
  "env \<Rightarrow> slug set \<Rightarrow> string \<Rightarrow> order_state \<Rightarrow> nat \<Rightarrow> question_revision \<Rightarrow> order_state \<times> semantic_issue list" where
  "revision_issues env platforms pointer s i revision =
     (let rp = at_index (pointer @ ''/revisions'') i;
          (s', times) =
            (case (ParseTimestamp (qr_EffectiveAt revision), ParseTimestamp (qr_RecordedAt revision)) of
               (Inr effective, Inr recorded) \<Rightarrow>
                 (\<lparr>or_Effective = effective, or_Recorded = recorded\<rparr>,
                  issue_if (recorded < effective)
                    ''semantic.revision_chronology'' (rp @ ''/recorded_at'') ''recorded_at must not precede effective_at''
                  @ issue_if (after_previous (or_Effective s) (\<not> effective > or_Effective s))
                      ''semantic.revision_effective_order'' rp ''revisions must be strictly ordered by effective_at''
                  @ issue_if (after_previous (or_Recorded s) (recorded < or_Recorded s))
                      ''semantic.revision_recorded_order'' rp ''revisions must be append-only ordered by recorded_at'')
             | _ \<Rightarrow> (s, []))
      in (s', times
              @ issue_if (Domain_Kind (qr_Domain revision) \<noteq> Some (oc_Kind (qr_OutcomeSpace revision)))
                  ''semantic.domain_kind'' (rp @ ''/domain/kind'') ''domain kind must match outcome_space.kind''
              @ validateDomain (qr_Domain revision) (rp @ ''/domain'')
              @ optional_provenance env platforms (qr_Provenance revision) rp))"

definition validateForecastAgainstRevision ::
  "forecast \<Rightarrow> question_revision \<Rightarrow> string \<Rightarrow> instant \<Rightarrow> instant \<times> semantic_issue list" where
  "validateForecastAgainstRevision forecast revision pointer previousRecorded =
     (let forecasted = ParseTimestamp (fo_ForecastedAt forecast);
          recorded = ParseTimestamp (fo_RecordedAt forecast);
          effective = ParseTimestamp (qr_EffectiveAt revision);
          (previous', times) =
            (case (forecasted, recorded) of
               (Inr f, Inr r) \<Rightarrow>
                 (r, issue_if (r < f) ''semantic.forecast_chronology'' (pointer @ ''/recorded_at'')
                       ''recorded_at must not precede forecasted_at''
                     @ issue_if (after_previous previousRecorded (r < previousRecorded)) ''semantic.forecast_order'' pointer
                         ''forecasts must be append-only ordered by recorded_at'')
             | _ \<Rightarrow> (previousRecorded, []))
      in (previous',
          times
          @ issue_if (case (forecasted, effective) of (Inr f, Inr e) \<Rightarrow> f < e | _ \<Rightarrow> False)
              ''semantic.forecast_revision_chronology'' (pointer @ ''/forecasted_at'')
              ''must not precede the bound revision effective_at''
          @ issue_if (case (forecasted, qr_ForecastingOpensAt revision) of
                        (Inr f, Some opensAt) \<Rightarrow> (case ParseTimestamp opensAt of Inr opens \<Rightarrow> f < opens | Inl _ \<Rightarrow> False)
                      | _ \<Rightarrow> False)
              ''semantic.forecasting_open'' (pointer @ ''/forecasted_at'') ''must not precede forecasting_opens_at''
          @ (case fo_Representations forecast of
               None \<Rightarrow> []
             | Some rs \<Rightarrow>
                 scan (\<lambda>(_::unit) i r. ((), validateRepresentation r (qr_Domain revision)
                                             (at_index (pointer @ ''/representations'') i))) () 0 rs
                 @ uniqueRepresentationKinds
                     (map (\<lambda>r. case Representation_Kind r of None \<Rightarrow> [] | Some k \<Rightarrow> k) rs)
                     (pointer @ ''/representations''))))"

record forecast_state =
  fs_Recorded :: instant
  fs_Seen :: "slug set"

definition forecast_issues ::
  "env \<Rightarrow> slug set \<Rightarrow> question \<Rightarrow> string \<Rightarrow> forecast_state \<Rightarrow> nat \<Rightarrow> forecast \<Rightarrow> forecast_state \<times> semantic_issue list" where
  "forecast_issues env platforms question pointer s i forecast =
     (let fp = at_index (pointer @ ''/forecasts'') i;
          (recorded, against) =
            (case find_revision (fo_QuestionRevisionID forecast) (qu_Revisions question) of
               None \<Rightarrow> (fs_Recorded s, add ''semantic.forecast_revision'' (fp @ ''/question_revision_id'')
                                        ''must reference a revision of this question'')
             | Some revision \<Rightarrow> validateForecastAgainstRevision forecast revision fp (fs_Recorded s))
      in (\<lparr>fs_Recorded = recorded, fs_Seen = insert (fo_ID forecast) (fs_Seen s)\<rparr>,
          against
          @ issue_if (case fo_SupersedesForecastID forecast of None \<Rightarrow> False | Some r \<Rightarrow> r \<notin> fs_Seen s)
              ''semantic.supersedes'' (fp @ ''/supersedes_forecast_id'') ''must reference an earlier forecast for this question''
          @ optional_provenance env platforms (fo_Provenance forecast) fp
          @ validateLifecycleEvents env platforms forecast (fp @ ''/lifecycle_events'')
          @ validateActivityCheckpoints env question forecast (fp @ ''/activity_checkpoints'')
          @ validateIntegrity env question forecast (fo_Integrity forecast) (fp @ ''/integrity'')
          @ validateReveal env (qu_ID question) forecast fp))"

section \<open>Resolutions\<close>

definition resolutionStatus :: "resolution \<Rightarrow> string" where
  "resolutionStatus value =
     (case rn_Resolved value of Some r \<Rightarrow> rr_Status r | None \<Rightarrow>
     (case rn_Unresolved value of Some u \<Rightarrow> ur_Status u | None \<Rightarrow>
     (case rn_NotApplicable value of Some n \<Rightarrow> na_Status n | None \<Rightarrow> [])))"

fun hasVerifiedTimestampBefore :: "rfc3161_timestamp list \<Rightarrow> instant \<Rightarrow> bool" where
  "hasVerifiedTimestampBefore [] known = False"
| "hasVerifiedTimestampBefore (v # vs) known =
     (if ts_State v \<noteq> RFC3161Verified then hasVerifiedTimestampBefore vs known
      else case ts_GenTime v of
        None \<Rightarrow> hasVerifiedTimestampBefore vs known
      | Some g \<Rightarrow>
          (case ParseTimestamp g of
             Inr t \<Rightarrow> if t < known then True else hasVerifiedTimestampBefore vs known
           | Inl _ \<Rightarrow> hasVerifiedTimestampBefore vs known))"

definition terminal :: "string \<Rightarrow> bool" where
  "terminal status \<longleftrightarrow> status \<in> {QuestionResolved, QuestionAmbiguous, QuestionVoid, QuestionDisputed, QuestionNotApplicable}"

definition validateResolution :: "question \<Rightarrow> string \<Rightarrow> semantic_issue list" where
  "validateResolution question pointer =
     (if \<not> terminal (qu_Status question)
      then issue_if (qu_Resolution question \<noteq> None) ''semantic.resolution_state'' (pointer @ ''/resolution'')
             ''nonterminal question must not have a resolution''
      else case qu_Resolution question of
        None \<Rightarrow> add ''semantic.resolution_state'' (pointer @ ''/resolution'') ''terminal question must have a resolution''
      | Some value \<Rightarrow>
          issue_if (resolutionStatus value \<noteq> qu_Status question) ''semantic.resolution_status''
            (pointer @ ''/resolution/status'') ''resolution status must match question.status''
          @ (case rn_Resolved value of
               None \<Rightarrow> []
             | Some resolution \<Rightarrow>
                 let known = ParseTimestamp (rr_OutcomeKnownAt resolution);
                     recorded = ParseTimestamp (rr_RecordedAt resolution)
                 in (case find_revision (rr_QuestionRevisionID resolution) (qu_Revisions question) of
                       None \<Rightarrow> add ''semantic.resolution_revision'' (pointer @ ''/resolution/question_revision_id'')
                                 ''unknown question revision''
                     | Some revision \<Rightarrow>
                         (case ScalarInDomain (rr_Outcome resolution) (qr_Domain revision) of (ok, reason) \<Rightarrow>
                            issue_if (\<not> ok) ''semantic.resolution_outcome'' (pointer @ ''/resolution/outcome'') reason))
                    @ issue_if (case (known, recorded) of (Inr k, Inr r) \<Rightarrow> r < k | _ \<Rightarrow> False)
                        ''semantic.resolution_chronology'' (pointer @ ''/resolution/recorded_at'') ''must not precede outcome_known_at''
                    @ (case known of
                         Inl _ \<Rightarrow> []
                       | Inr k \<Rightarrow>
                           scan (\<lambda>(_::unit) i f. ((),
                               case in_Verified (fo_Integrity f) of
                                 None \<Rightarrow> []
                               | Some x \<Rightarrow>
                                   issue_if (\<not> hasVerifiedTimestampBefore (vi_Timestamps x) k) ''semantic.timestamp_chronology''
                                     (at_index (pointer @ ''/forecasts'') i @ ''/integrity/timestamps'')
                                     ''must contain a verified RFC 3161 timestamp predating the known outcome''))
                             () 0 (qu_Forecasts question))))"

definition validateQuestion :: "env \<Rightarrow> slug set \<Rightarrow> nat \<Rightarrow> question \<Rightarrow> semantic_issue list" where
  "validateQuestion env platforms index question =
     (let pointer = at_index ''/questions'' index; revisions = qu_Revisions question
      in scan (revision_issues env platforms pointer) \<lparr>or_Effective = zero_time, or_Recorded = zero_time\<rparr> 0 revisions
         @ uniqueSlugs (map qr_ID revisions) (pointer @ ''/revisions'') ''semantic.duplicate_revision_id''
         @ (case find_index (\<lambda>r. qr_ID r = qu_CurrentRevisionID question) revisions of
              None \<Rightarrow> add ''semantic.current_revision'' (pointer @ ''/current_revision_id'')
                        ''current_revision_id must reference a question revision''
            | Some i \<Rightarrow> issue_if (revisions \<noteq> [] \<and> i \<noteq> length revisions - 1) ''semantic.current_revision_last''
                         (pointer @ ''/current_revision_id'') ''current_revision_id must reference the last revision'')
         @ scan (forecast_issues env platforms question pointer) \<lparr>fs_Recorded = zero_time, fs_Seen = {}\<rparr> 0 (qu_Forecasts question)
         @ validateResolution question pointer)"

section \<open>Relationships\<close>

fun find_question :: "slug \<Rightarrow> question list \<Rightarrow> question option" where
  "find_question i [] = None"
| "find_question i (q # qs) = (if qu_ID q = i then Some q else find_question i qs)"

definition membership_key :: "group_membership \<Rightarrow> string" where
  "membership_key m = gm_GroupID m @ [char_of (0::nat)] @ gm_QuestionID m"

definition group_ids :: "ledger \<Rightarrow> slug list" where
  "group_ids m = (case lg_Groups m of None \<Rightarrow> [] | Some gs \<Rightarrow> map gr_ID gs)"

definition relationship_issues ::
  "ledger \<Rightarrow> string set \<Rightarrow> nat \<Rightarrow> relationship \<Rightarrow> string set \<times> semantic_issue list" where
  "relationship_issues m seen i relationship =
     (let pointer = at_index ''/relationships'' i; questions = lg_Questions m in
      case rl_GroupMembership relationship of
        Some value \<Rightarrow>
          (insert (membership_key value) seen,
           issue_if (gm_GroupID value \<notin> set (group_ids m)) ''semantic.relationship_group'' (pointer @ ''/group_id'') ''unknown group''
           @ issue_if (find_question (gm_QuestionID value) questions = None) ''semantic.relationship_question''
               (pointer @ ''/question_id'') ''unknown question''
           @ issue_if (membership_key value \<in> seen) ''semantic.duplicate_membership'' pointer ''group membership is duplicated'')
      | None \<Rightarrow>
        (case rl_Conditional relationship of
           None \<Rightarrow> (seen, [])
         | Some value \<Rightarrow>
             let parent = find_question (cl_ParentQuestionID value) questions;
                 child = find_question (cl_ChildQuestionID value) questions
             in (seen,
                 issue_if (parent = None) ''semantic.relationship_parent'' (pointer @ ''/parent_question_id'') ''unknown question''
                 @ issue_if (child = None) ''semantic.relationship_child'' (pointer @ ''/child_question_id'') ''unknown question''
                 @ (case parent of
                      None \<Rightarrow> []
                    | Some p \<Rightarrow>
                        (case Question_Revision p (cl_ParentQuestionRevisionID value) of
                           None \<Rightarrow> add ''semantic.relationship_revision'' (pointer @ ''/parent_question_revision_id'')
                                     ''unknown parent revision''
                         | Some revision \<Rightarrow>
                             (case ScalarInDomain (cl_ParentOutcome value) (qr_Domain revision) of (ok, reason) \<Rightarrow>
                                issue_if (\<not> ok) ''semantic.relationship_outcome'' (pointer @ ''/parent_outcome'') reason))))))"

text \<open>The children the loop appends to the graph under the parent \<open>i\<close>.\<close>

definition conditional_children :: "ledger \<Rightarrow> relationship list \<Rightarrow> slug \<Rightarrow> slug list" where
  "conditional_children m rs i =
     concat (map (\<lambda>r.
       case (rl_GroupMembership r, rl_Conditional r) of
         (None, Some c) \<Rightarrow>
           if cl_ParentQuestionID c = i \<and> find_question (cl_ParentQuestionID c) (lg_Questions m) \<noteq> None
              \<and> find_question (cl_ChildQuestionID c) (lg_Questions m) \<noteq> None
           then [cl_ChildQuestionID c] else []
       | _ \<Rightarrow> []) rs)"

definition conditional_graph :: "ledger \<Rightarrow> relationship list \<Rightarrow> slug graph" where
  "conditional_graph m rs =
     map (\<lambda>i. (i, conditional_children m rs i)) (remdups (map qu_ID (lg_Questions m)))"

definition validateRelationships :: "ledger \<Rightarrow> semantic_issue list" where
  "validateRelationships m =
     (case lg_Groups m of
        None \<Rightarrow> []
      | Some gs \<Rightarrow> uniqueSlugs (map gr_ID gs) ''/groups'' ''semantic.duplicate_group_id'')
     @ (case lg_Relationships m of
          None \<Rightarrow> []
        | Some rs \<Rightarrow>
            scan (relationship_issues m) {} 0 rs
            @ uniqueSlugs (map relationshipID rs) ''/relationships'' ''semantic.duplicate_relationship_id''
            @ issue_if (conditionalCycle (conditional_graph m rs)) ''semantic.relationship_cycle'' ''/relationships''
                ''conditional relationships must be acyclic'')"

definition scalarEqual :: "scalar_value \<Rightarrow> scalar_value \<Rightarrow> bool" where
  "scalarEqual left right =
     (case (sv_Boolean left, sv_Boolean right) of
        (Some a, Some b) \<Rightarrow> a = b
      | _ \<Rightarrow>
        (case (sv_String left, sv_String right) of
           (Some a, Some b) \<Rightarrow> a = b
         | _ \<Rightarrow> False))"

text \<open>The conditional relationship with an identifier; a later duplicate wins.\<close>

fun find_conditional :: "slug \<Rightarrow> relationship list \<Rightarrow> conditional_relationship option" where
  "find_conditional i [] = None"
| "find_conditional i (r # rs) =
     (case find_conditional i rs of
        Some c \<Rightarrow> Some c
      | None \<Rightarrow> (case rl_Conditional r of
                   Some c \<Rightarrow> if cl_ID c = i then Some c else None
                 | None \<Rightarrow> None))"

definition not_applicable_issues :: "ledger \<Rightarrow> nat \<Rightarrow> question \<Rightarrow> semantic_issue list" where
  "not_applicable_issues m i question =
     (case Option.bind (qu_Resolution question) rn_NotApplicable of
        None \<Rightarrow> []
      | Some resolution \<Rightarrow>
          let pointer = at_index ''/questions'' i @ ''/resolution/relationship_id'' in
          (case find_conditional (na_RelationshipID resolution)
                  (case lg_Relationships m of None \<Rightarrow> [] | Some rs \<Rightarrow> rs) of
             None \<Rightarrow> add ''semantic.not_applicable_relationship'' pointer ''must reference a conditional relationship''
           | Some relationship \<Rightarrow>
               if cl_ChildQuestionID relationship \<noteq> qu_ID question
               then add ''semantic.not_applicable_child'' pointer
                      ''must reference a conditional relationship for this child question''
               else
                 (case find_question (cl_ParentQuestionID relationship) (lg_Questions m) of
                    None \<Rightarrow> []
                  | Some parent \<Rightarrow>
                      (case Option.bind (qu_Resolution parent) rn_Resolved of
                         None \<Rightarrow> []
                       | Some resolved \<Rightarrow>
                           issue_if (scalarEqual (rr_Outcome resolved) (cl_ParentOutcome relationship))
                             ''semantic.not_applicable_satisfied'' pointer
                             ''cannot be not_applicable when the parent outcome satisfies the condition''))))"

definition validateNotApplicableResolutions :: "ledger \<Rightarrow> semantic_issue list" where
  "validateNotApplicableResolutions m =
     scan (\<lambda>(_::unit) i q. ((), not_applicable_issues m i q)) () 0 (lg_Questions m)"

section \<open>The whole validation\<close>

definition validateRoot :: "env \<Rightarrow> ledger \<Rightarrow> semantic_issue list" where
  "validateRoot env m =
     issue_if (\<not> ev_KnownTimezone env (lg_DefaultTimezone m)) ''semantic.timezone'' ''/default_timezone''
       ''timezone is not a known IANA name''
     @ (case (fc_Kind (lg_Forecaster m) = ForecasterTeam, fc_Members (lg_Forecaster m)) of
          (True, Some ms) \<Rightarrow> uniqueSlugs (map mb_ID ms) ''/forecaster/members'' ''semantic.duplicate_member_id''
        | _ \<Rightarrow> [])
     @ uniqueSlugs (map qu_ID (lg_Questions m)) ''/questions'' ''semantic.duplicate_question_id''"

definition validate :: "env \<Rightarrow> ledger \<Rightarrow> semantic_issue list" where
  "validate env m =
     (let platforms = fst ` set (lg_Platforms m) in
      validateRoot env m
      @ scan (\<lambda>(_::unit) i q. ((), validateQuestion env platforms i q)) () 0 (lg_Questions m)
      @ uniqueSlugs (concat (map (\<lambda>q. map fo_ID (qu_Forecasts q)) (lg_Questions m))) ''/questions/*/forecasts''
          ''semantic.duplicate_forecast_id''
      @ validateRelationships m
      @ validateNotApplicableResolutions m)"

definition issue_key :: "semantic_issue \<Rightarrow> string list" where
  "issue_key i = [si_Pointer i, si_Code i, si_Message i]"

definition ValidateSemantics :: "env \<Rightarrow> ledger option \<Rightarrow> string + semantic_issue list" where
  "ValidateSemantics env model =
     (case model of
        None \<Rightarrow> Inl ''ledger is nil''
      | Some m \<Rightarrow> Inr (sort_key issue_key (validate env m)))"

end
