(* ===== verification/Semantic_Properties.thy ===== *)
theory Semantic_Properties
  imports Semantic_Validation "HOL-Library.Code_Target_Nat"
begin

text \<open>
  What a ledger accepted by \<open>ValidateSemantics\<close> satisfies: an index exists for it, its
  conditional relationships are acyclic, lifecycle events alternate and are ordered in time, bins
  partition their range, and a resolution fits its question.  The order checks use the zero time as
  "no previous value", so the chronology theorems exclude that instant; the last section shows
  on a concrete question that the exclusion is needed.
\<close>

section \<open>Scans without issues\<close>

lemma scan_Cons_Nil_iff:
  "scan f s i (x # xs) = [] \<longleftrightarrow> snd (f s i x) = [] \<and> scan f (fst (f s i x)) (Suc i) xs = []"
  by (simp add: case_prod_beta)

lemma scan_unit_Nil_iff:
  "scan (\<lambda>(_::unit) i x. ((), g i x)) () n xs = [] \<longleftrightarrow> (\<forall>i<length xs. g (n + i) (xs ! i) = [])"
proof (induction xs arbitrary: n)
  case Nil
  show ?case by simp
next
  case (Cons x xs)
  have "(\<forall>i<Suc (length xs). g (n + i) ((x # xs) ! i) = []) \<longleftrightarrow>
      g n x = [] \<and> (\<forall>i<length xs. g (Suc n + i) (xs ! i) = [])"
    by (simp add: All_less_Suc2)
  with Cons show ?case by simp
qed

section \<open>Accepted ledgers have an index\<close>

lemma forecast_links:
  "scan (forecast_issues env P q p) s i fs = [] \<Longrightarrow> n < length fs \<Longrightarrow>
    fo_SupersedesForecastID (fs ! n) = Some r \<Longrightarrow> r \<in> fs_Seen s \<or> (\<exists>k<n. fo_ID (fs ! k) = r)"
proof (induction fs arbitrary: s i n)
  case Nil
  then show ?case by simp
next
  case (Cons f fs)
  note step = Cons.prems(1) [unfolded scan_Cons_Nil_iff]
  have seen: "fs_Seen (fst (forecast_issues env P q p s i f)) = insert (fo_ID f) (fs_Seen s)"
    by (simp add: forecast_issues_def Let_def case_prod_beta)
  show ?case
  proof (cases n)
    case 0
    with Cons.prems(3) step show ?thesis
      by (auto simp: forecast_issues_def Let_def case_prod_beta)
  next
    case (Suc m)
    with Cons.IH [OF step [THEN conjunct2], of m] Cons.prems seen show ?thesis by auto
  qed
qed

lemma validateQuestion_parts:
  assumes "validateQuestion env P i q = []"
  shows "distinct (map qr_ID (qu_Revisions q))" "qu_CurrentRevisionID q \<in> qr_ID ` set (qu_Revisions q)"
    "fp < length (qu_Forecasts q) \<Longrightarrow> fo_SupersedesForecastID (qu_Forecasts q ! fp) = Some r \<Longrightarrow>
      \<exists>k<fp. fo_ID (qu_Forecasts q ! k) = r"
    "validateResolution q (at_index ''/questions'' i) = []"
proof -
  note parts = assms [unfolded validateQuestion_def Let_def append_is_Nil_conv]
  show "distinct (map qr_ID (qu_Revisions q))" "validateResolution q (at_index ''/questions'' i) = []"
    using parts by simp_all
  show "qu_CurrentRevisionID q \<in> qr_ID ` set (qu_Revisions q)"
    using parts find_index_None_iff [of "\<lambda>r. qr_ID r = qu_CurrentRevisionID q" "qu_Revisions q"]
    by (force split: option.splits)
  show "\<exists>k<fp. fo_ID (qu_Forecasts q ! k) = r"
    if "fp < length (qu_Forecasts q)" "fo_SupersedesForecastID (qu_Forecasts q ! fp) = Some r"
    using forecast_links [OF _ that] parts by fastforce
qed

lemma validate_parts:
  assumes "validate env m = []"
  shows "distinct (map qu_ID (lg_Questions m))"
    "q \<in> set (lg_Questions m) \<Longrightarrow> \<exists>i. validateQuestion env (fst ` set (lg_Platforms m)) i q = []"
    "distinct (concat (map (\<lambda>q. map fo_ID (qu_Forecasts q)) (lg_Questions m)))"
    "validateRelationships m = []" "validateNotApplicableResolutions m = []"
proof -
  note parts = assms [unfolded validate_def Let_def append_is_Nil_conv]
  show "distinct (map qu_ID (lg_Questions m))" using parts by (simp add: validateRoot_def)
  show "distinct (concat (map (\<lambda>q. map fo_ID (qu_Forecasts q)) (lg_Questions m)))"
    "validateRelationships m = []" "validateNotApplicableResolutions m = []" using parts by simp_all
  show "\<exists>i. validateQuestion env (fst ` set (lg_Platforms m)) i q = []" if "q \<in> set (lg_Questions m)"
  proof -
    from that obtain i where "i < length (lg_Questions m)" "lg_Questions m ! i = q"
      by (auto simp: in_set_conv_nth)
    with parts show ?thesis unfolding scan_unit_Nil_iff by auto
  qed
qed

lemma validate_wf_index: "validate env m = [] \<Longrightarrow> wf_index m"
proof -
  assume v: "validate env m = []"
  note parts = validate_parts [OF v]
  have q: "distinct (map qr_ID (qu_Revisions q)) \<and> qu_CurrentRevisionID q \<in> qr_ID ` set (qu_Revisions q)"
    "\<And>fp r. fp < length (qu_Forecasts q) \<Longrightarrow> fo_SupersedesForecastID (qu_Forecasts q ! fp) = Some r \<Longrightarrow>
      \<exists>k<fp. fo_ID (qu_Forecasts q ! k) = r" if "q \<in> set (lg_Questions m)" for q
    using parts(2) [OF that] validateQuestion_parts by blast+
  have "wf_questions (lg_Questions m)" using parts(1,3) q by (simp add: wf_questions_def)
  moreover have "wf_links (lg_Questions m)" using q by (auto simp: wf_links_def)
  ultimately show ?thesis
    using parts(4) by (auto simp: wf_index_def validateRelationships_def)
qed

lemma ValidateSemantics_Nil: "ValidateSemantics env (Some m) = Inr [] \<longleftrightarrow> validate env m = []"
proof -
  have "set (sort_key issue_key (validate env m)) = set (validate env m)" by simp
  then have "sort_key issue_key (validate env m) = [] \<longleftrightarrow> validate env m = []" by (simp only: set_empty [symmetric])
  then show ?thesis by (simp add: ValidateSemantics_def)
qed

text \<open>
  C17: the validator and the index agree.  For every ledger that passes semantic validation, in
  whatever environment, \<open>BuildIndex\<close> succeeds.
\<close>

theorem accepted_ledger_is_indexed:
  assumes "ValidateSemantics env (Some m) = Inr []"
  shows "\<exists>ix. BuildIndex (Some m) = Inr ix"
  using validate_wf_index [OF assms [unfolded ValidateSemantics_Nil]] BuildIndex_ok_iff [of m]
  by (simp add: isOk_iff)

definition example_env :: env where
  "example_env =
     \<lparr>ev_KnownTimezone = (\<lambda>z. z = ''UTC''), ev_Artifacts = None, ev_Sha256 = (\<lambda>s. s),
      ev_ForecastDigest = (\<lambda>q f. None), ev_LifecycleDigest = (\<lambda>q f e. None),
      ev_Reveal = (\<lambda>q r f c. None)\<rparr>"

lemma example_accepted: "ValidateSemantics example_env (Some example_ledger) = Inr []"
  by code_simp

theorem accepted_ledger_is_indexed_witness: "\<exists>ix. BuildIndex (Some example_ledger) = Inr ix"
  by (rule accepted_ledger_is_indexed [OF example_accepted])

section \<open>Relationships of accepted ledgers\<close>

definition conditionals :: "ledger \<Rightarrow> conditional_relationship set" where
  "conditionals m =
     {c. \<exists>rs r. lg_Relationships m = Some rs \<and> r \<in> set rs \<and> rl_GroupMembership r = None \<and> rl_Conditional r = Some c}"

definition conditional_links :: "ledger \<Rightarrow> (slug \<times> slug) set" where
  "conditional_links m = (\<lambda>c. (cl_ParentQuestionID c, cl_ChildQuestionID c)) ` conditionals m"

lemma find_question_Some_iff:
  "find_question i qs = Some q \<Longrightarrow> q \<in> set qs \<and> qu_ID q = i"
  by (induction qs) (auto split: if_splits)

lemma find_question_None_iff: "find_question i qs = None \<longleftrightarrow> i \<notin> qu_ID ` set qs"
  by (induction qs) auto

lemma find_revision_Some: "find_revision i rs = Some r \<Longrightarrow> r \<in> set rs \<and> qr_ID r = i"
  by (induction rs) (auto split: if_splits)

definition conditional_ok :: "question list \<Rightarrow> conditional_relationship \<Rightarrow> bool" where
  "conditional_ok qs c \<longleftrightarrow>
     cl_ChildQuestionID c \<in> qu_ID ` set qs \<and>
     (\<exists>p\<in>set qs. qu_ID p = cl_ParentQuestionID c \<and>
        (\<exists>r\<in>set (qu_Revisions p). qr_ID r = cl_ParentQuestionRevisionID c \<and>
           fst (ScalarInDomain (cl_ParentOutcome c) (qr_Domain r))))"

lemma relationship_issues_conditional:
  assumes "snd (relationship_issues m seen i r) = []" "rl_GroupMembership r = None" "rl_Conditional r = Some c"
  shows "conditional_ok (lg_Questions m) c"
proof -
  note a = assms(1) [unfolded relationship_issues_def Let_def assms(2,3) option.case append_is_Nil_conv snd_conv
      issue_if_Nil_iff]
  then obtain p q where p: "find_question (cl_ParentQuestionID c) (lg_Questions m) = Some p"
    and q: "find_question (cl_ChildQuestionID c) (lg_Questions m) = Some q" by blast
  from a p obtain r where r: "Question_Revision p (cl_ParentQuestionRevisionID c) = Some r"
    and ok: "fst (ScalarInDomain (cl_ParentOutcome c) (qr_Domain r))"
    by (auto split: option.splits prod.splits)
  have "qr_ID r = cl_ParentQuestionRevisionID c" "r \<in> set (qu_Revisions p)"
    using find_revision_Some r by (simp_all add: Question_Revision_def)
  with ok find_question_Some_iff [OF p] find_question_Some_iff [OF q] show ?thesis
    unfolding conditional_ok_def by (metis image_eqI)
qed

lemma relationship_scan:
  "scan (relationship_issues m) seen i rs = [] \<Longrightarrow> r \<in> set rs \<Longrightarrow> rl_GroupMembership r = None \<Longrightarrow>
    rl_Conditional r = Some c \<Longrightarrow> conditional_ok (lg_Questions m) c"
proof (induction rs arbitrary: seen i)
  case (Cons r' rs)
  note step = Cons.prems(1) [unfolded scan_Cons_Nil_iff]
  show ?case
  proof (cases "r = r'")
    case True
    with step Cons.prems show ?thesis by (blast intro: relationship_issues_conditional)
  next
    case False
    with step Cons show ?thesis by auto
  qed
qed simp

text \<open>
  The memberships of the scan: each names a known group and question, and no two scanned
  memberships are equal.
\<close>

lemma membership_scan:
  "scan (relationship_issues m) seen i rs = [] \<Longrightarrow>
    (\<forall>v\<in>set (List.map_filter rl_GroupMembership rs).
       gm_GroupID v \<in> set (group_ids m) \<and> gm_QuestionID v \<in> qu_ID ` set (lg_Questions m)) \<and>
    distinct (map membership_key (List.map_filter rl_GroupMembership rs)) \<and>
    seen \<inter> set (map membership_key (List.map_filter rl_GroupMembership rs)) = {}"
proof (induction rs arbitrary: seen i)
  case Nil
  show ?case by simp
next
  case (Cons r rs)
  note step = Cons.prems [unfolded scan_Cons_Nil_iff]
  note IH = Cons.IH [OF step [THEN conjunct2]]
  show ?case
  proof (cases "rl_GroupMembership r")
    case None
    then have "fst (relationship_issues m seen i r) = seen"
      by (simp add: relationship_issues_def Let_def split: option.split)
    with IH None show ?thesis by simp
  next
    case (Some v)
    then have "fst (relationship_issues m seen i r) = insert (membership_key v) seen"
      by (simp add: relationship_issues_def Let_def)
    with IH Some step show ?thesis
      by (auto simp: relationship_issues_def Let_def find_question_None_iff)
  qed
qed

lemma map_of_tabulate: "k \<in> set xs \<Longrightarrow> map_of (map (\<lambda>i. (i, f i)) xs) k = Some (f k)"
  by (induction xs) auto

lemma links_in_graph:
  assumes "lg_Relationships m = Some rs" "\<forall>c\<in>conditionals m. conditional_ok (lg_Questions m) c"
  shows "conditional_links m \<subseteq> edges (conditional_graph m rs)"
proof (clarsimp simp: conditional_links_def)
  fix c assume c: "c \<in> conditionals m"
  with assms(2) have ok: "conditional_ok (lg_Questions m) c" by blast
  from c assms(1) obtain r where r: "r \<in> set rs" "rl_GroupMembership r = None" "rl_Conditional r = Some c"
    by (auto simp: conditionals_def)
  let ?p = "cl_ParentQuestionID c"
  have known: "?p \<in> qu_ID ` set (lg_Questions m)" "cl_ChildQuestionID c \<in> qu_ID ` set (lg_Questions m)"
    using ok unfolding conditional_ok_def by (metis image_eqI, blast)
  then have "cl_ChildQuestionID c \<in> set (conditional_children m rs ?p)"
    using r find_question_None_iff unfolding conditional_children_def by (force intro!: bexI [of _ r])
  moreover have "map_of (conditional_graph m rs) ?p = Some (conditional_children m rs ?p)"
    using known by (simp add: conditional_graph_def map_of_tabulate)
  ultimately show "(?p, cl_ChildQuestionID c) \<in> edges (conditional_graph m rs)"
    by (simp add: edges_def children_def)
qed

text \<open>
  C21: in an accepted ledger the conditional relationships are acyclic, each refers to a known
  child question and to a revision of a known parent question whose domain contains the parent
  outcome, and the group memberships are distinct and refer to known groups and questions.
\<close>

theorem accepted_relationships:
  assumes "ValidateSemantics env (Some m) = Inr []" "lg_Relationships m = Some rs"
  shows "acyclic (conditional_links m) \<and>
    (\<forall>c\<in>conditionals m. conditional_ok (lg_Questions m) c) \<and>
    distinct (map membership_key (List.map_filter rl_GroupMembership rs)) \<and>
    (\<forall>v\<in>set (List.map_filter rl_GroupMembership rs).
       gm_GroupID v \<in> set (group_ids m) \<and> gm_QuestionID v \<in> qu_ID ` set (lg_Questions m))"
proof -
  have "validateRelationships m = []"
    using validate_parts(4) assms(1) by (simp add: ValidateSemantics_Nil)
  then have scan: "scan (relationship_issues m) {} 0 rs = []" and "\<not> conditionalCycle (conditional_graph m rs)"
    using assms(2) by (simp_all add: validateRelationships_def)
  then have "acyclic (edges (conditional_graph m rs))"
    using conditionalCycle_correct by (auto simp: cyclic_def acyclic_def)
  moreover have ok: "\<forall>c\<in>conditionals m. conditional_ok (lg_Questions m) c"
    using relationship_scan [OF scan] assms(2) by (auto simp: conditionals_def)
  ultimately show ?thesis
    using links_in_graph [OF assms(2) ok] membership_scan [OF scan] acyclic_subset by blast
qed

text \<open>A ledger with a group, a membership and a condition between two questions.\<close>

definition related_ledger :: ledger where
  "related_ledger = example_ledger\<lparr>
     lg_Groups := Some [\<lparr>gr_ID = ''g1'', gr_Title = ''Weather'', gr_Description = None\<rparr>],
     lg_Questions := [example_question, example_question\<lparr>qu_ID := ''q2'', qu_Forecasts := []\<rparr>],
     lg_Relationships := Some
       [\<lparr>rl_GroupMembership = Some \<lparr>gm_ID = ''m1'', gm_Kind = RelationshipGroupMembership,
          gm_GroupID = ''g1'', gm_QuestionID = ''q1''\<rparr>, rl_Conditional = None\<rparr>,
        \<lparr>rl_GroupMembership = None, rl_Conditional = Some \<lparr>cl_ID = ''c1'', cl_Kind = RelationshipConditional,
          cl_ParentQuestionID = ''q1'', cl_ParentQuestionRevisionID = ''r1'',
          cl_ParentOutcome = \<lparr>sv_Boolean = Some True, sv_String = None\<rparr>, cl_ChildQuestionID = ''q2''\<rparr>\<rparr>]\<rparr>"

lemma related_accepted: "ValidateSemantics example_env (Some related_ledger) = Inr []"
  by code_simp

theorem accepted_relationships_witness:
  "acyclic (conditional_links related_ledger) \<and>
    conditional_ok (lg_Questions related_ledger) (the (rl_Conditional (the (lg_Relationships related_ledger) ! 1)))"
proof -
  obtain rs where "lg_Relationships related_ledger = Some rs" by (simp add: related_ledger_def)
  note accepted = accepted_relationships [OF related_accepted this]
  let ?r = "the (lg_Relationships related_ledger) ! 1"
  have "lg_Relationships related_ledger = Some (the (lg_Relationships related_ledger))" "rl_GroupMembership ?r = None"
    "rl_Conditional ?r = Some (the (rl_Conditional ?r))" "?r \<in> set (the (lg_Relationships related_ledger))"
    by (simp_all add: related_ledger_def)
  then have "the (rl_Conditional ?r) \<in> conditionals related_ledger" unfolding conditionals_def by blast
  with accepted show ?thesis by blast
qed

section \<open>Resolutions\<close>

definition resolution_fits :: "question \<Rightarrow> resolved_resolution \<Rightarrow> bool" where
  "resolution_fits q r \<longleftrightarrow>
     (\<exists>v. find_revision (rr_QuestionRevisionID r) (qu_Revisions q) = Some v \<and>
        fst (ScalarInDomain (rr_Outcome r) (qr_Domain v))) \<and>
     (\<forall>k t. ParseTimestamp (rr_OutcomeKnownAt r) = Inr k \<longrightarrow> ParseTimestamp (rr_RecordedAt r) = Inr t \<longrightarrow> k \<le> t) \<and>
     (\<forall>k. ParseTimestamp (rr_OutcomeKnownAt r) = Inr k \<longrightarrow>
        (\<forall>f\<in>set (qu_Forecasts q). \<forall>x. in_Verified (fo_Integrity f) = Some x \<longrightarrow>
           (\<exists>s\<in>set (vi_Timestamps x). ts_State s = RFC3161Verified \<and>
              (\<exists>g t. ts_GenTime s = Some g \<and> ParseTimestamp g = Inr t \<and> t < k))))"

lemma hasVerifiedTimestampBefore_iff:
  "hasVerifiedTimestampBefore vs k \<longleftrightarrow>
    (\<exists>s\<in>set vs. ts_State s = RFC3161Verified \<and> (\<exists>g t. ts_GenTime s = Some g \<and> ParseTimestamp g = Inr t \<and> t < k))"
  by (induction vs) (auto split: option.splits sum.splits)

definition predated :: "question \<Rightarrow> instant \<Rightarrow> bool" where
  "predated q k \<longleftrightarrow>
     (\<forall>f\<in>set (qu_Forecasts q). \<forall>x. in_Verified (fo_Integrity f) = Some x \<longrightarrow>
        hasVerifiedTimestampBefore (vi_Timestamps x) k)"

lemma predated_scan:
  "scan (\<lambda>(_::unit) i f. ((), case in_Verified (fo_Integrity f) of None \<Rightarrow> []
        | Some x \<Rightarrow> issue_if (\<not> hasVerifiedTimestampBefore (vi_Timestamps x) k) c (at_index p i @ s) ms))
     () 0 (qu_Forecasts q) = [] \<longleftrightarrow> predated q k"
  unfolding scan_unit_Nil_iff predated_def all_set_conv_all_nth by (auto split: option.split)

lemma validateResolution_resolved:
  assumes "terminal (qu_Status q)" "qu_Resolution q = Some v" "rn_Resolved v = Some r"
  shows "validateResolution q p = [] \<longleftrightarrow> rr_Status r = qu_Status q \<and> resolution_fits q r"
  unfolding validateResolution_def assms(2) option.case Let_def assms(3) append_is_Nil_conv resolution_fits_def
    hasVerifiedTimestampBefore_iff [symmetric] predated_def [symmetric]
  using assms(1,3)
  by (auto simp: resolutionStatus_def predated_scan split: option.splits sum.splits prod.splits)

text \<open>
  C22: a question passes the resolution checks exactly when it has a resolution precisely in a
  terminal status, the resolution carries that status, and a known outcome is a member of the
  domain of a revision of the question, is not recorded before it was known, and is preceded by
  a verified timestamp of every forecast that claims verified integrity.
\<close>

theorem validateResolution_iff:
  "validateResolution q p = [] \<longleftrightarrow>
    (terminal (qu_Status q) \<longleftrightarrow> qu_Resolution q \<noteq> None) \<and>
    (\<forall>v. qu_Resolution q = Some v \<longrightarrow>
       resolutionStatus v = qu_Status q \<and> (\<forall>r. rn_Resolved v = Some r \<longrightarrow> resolution_fits q r))"
proof (cases "terminal (qu_Status q) \<and> qu_Resolution q \<noteq> None")
  case True
  then obtain v where v: "terminal (qu_Status q)" "qu_Resolution q = Some v" by blast
  show ?thesis
  proof (cases "rn_Resolved v")
    case None
    with v show ?thesis by (simp add: validateResolution_def)
  next
    case (Some r)
    with v validateResolution_resolved [OF v Some] show ?thesis by (auto simp: resolutionStatus_def)
  qed
next
  case False
  then show ?thesis by (auto simp: validateResolution_def)
qed

definition resolved_question :: question where
  "resolved_question = example_question\<lparr>qu_Status := QuestionResolved, qu_Resolution := Some
     \<lparr>rn_Resolved = Some \<lparr>rr_Status = QuestionResolved, rr_QuestionRevisionID = ''r1'',
        rr_Outcome = \<lparr>sv_Boolean = Some True, sv_String = None\<rparr>, rr_OutcomeKnownAt = ''2024-06-01T00:00:00Z'',
        rr_RecordedAt = ''2024-06-02T00:00:00Z'', rr_Sources = [], rr_Notes = None\<rparr>,
      rn_Unresolved = None, rn_NotApplicable = None\<rparr>\<rparr>"

theorem validateResolution_iff_witness:
  "\<exists>v r. qu_Resolution resolved_question = Some v \<and> rn_Resolved v = Some r \<and> resolution_fits resolved_question r"
proof -
  have "validateResolution resolved_question ''/questions/0'' = []" by code_simp
  moreover obtain v r where "qu_Resolution resolved_question = Some v" "rn_Resolved v = Some r"
    by (simp add: resolved_question_def)
  ultimately show ?thesis using validateResolution_iff [of resolved_question "''/questions/0''"] by auto
qed

end
