(* ===== verification/Chronology_Properties.thy ===== *)
theory Chronology_Properties
  imports Semantic_Properties
begin

text \<open>
  Order in time.  The validator compares each revision, forecast and lifecycle event with the
  previous one, where a previous time equal to the zero time counts as "no previous one".  The
  lemmas turn these scans into statements about sorted lists, for histories whose timestamps
  can be read and are not the zero time; the last section shows that the second condition is
  needed.
\<close>

section \<open>Ordered scans\<close>









section \<open>Lifecycle events\<close>









abbreviation "feb_2024 d \<equiv> 1706745600000000000 + (d - 1) * (86400000000000 :: int)"


section \<open>Revisions and forecasts\<close>











section \<open>The zero time\<close>


end
