(* ===== verification/Bin_Partitions.thy ===== *)
theory Bin_Partitions
  imports Chronology_Properties
begin

text \<open>
  Bin sets: the pairwise checks of \<open>validateBins\<close> make the bins of an accepted set a partition of
  the range from the first lower bound to the last upper bound, so that each value of the range
  falls into exactly one bin, with each shared boundary in exactly one of its two bins.
\<close>

definition above_lower :: "outcome_kind \<Rightarrow> bin \<Rightarrow> string \<Rightarrow> bool" where
  "above_lower k b v \<longleftrightarrow> compared (\<lambda>c. c < 0 \<or> c = 0 \<and> bi_LowerInclusive b) (CompareScalarStrings k (bi_Lower b) v)"

definition below_upper :: "outcome_kind \<Rightarrow> bin \<Rightarrow> string \<Rightarrow> bool" where
  "below_upper k b v \<longleftrightarrow> compared (\<lambda>c. c < 0 \<or> c = 0 \<and> bi_UpperInclusive b) (CompareScalarStrings k v (bi_Upper b))"

definition in_bin :: "outcome_kind \<Rightarrow> bin \<Rightarrow> string \<Rightarrow> bool" where
  "in_bin k b v \<longleftrightarrow> above_lower k b v \<and> below_upper k b v"

definition proper_bin :: "outcome_kind \<Rightarrow> bin \<Rightarrow> bool" where
  "proper_bin k b \<longleftrightarrow> compared (\<lambda>c. c < 0) (CompareScalarStrings k (bi_Lower b) (bi_Upper b))"

definition adjacent :: "outcome_kind \<Rightarrow> bin \<Rightarrow> bin \<Rightarrow> bool" where
  "adjacent k b c \<longleftrightarrow>
     compared (\<lambda>r. r = 0) (CompareScalarStrings k (bi_Upper b) (bi_Lower c)) \<and>
     bi_UpperInclusive b \<noteq> bi_LowerInclusive c"

lemma compared_parsed:
  "compared Q (CompareScalarStrings k a b) \<longleftrightarrow>
    (\<exists>x y. parseTextScalar k a = Inr x \<and> parseTextScalar k b = Inr y \<and> Q (compareParsed x y))"
  by (auto simp: compared_def CompareScalarStrings_def bindR_def split: sum.splits)

lemma adjacent_split:
  assumes "adjacent k b c" "isOk (parseTextScalar k v)"
  shows "above_lower k c v \<longleftrightarrow> \<not> below_upper k b v"
proof -
  from assms obtain u l x where p: "parseTextScalar k (bi_Upper b) = Inr u" "parseTextScalar k (bi_Lower c) = Inr l"
    "parseTextScalar k v = Inr x" and "compareParsed u l = 0" "bi_UpperInclusive b \<noteq> bi_LowerInclusive c"
    by (auto simp: adjacent_def compared_parsed isOk_iff)
  moreover have "ps_kind u = k" "ps_kind l = k" "ps_kind x = k" using p parseTextScalar_kind by blast+
  ultimately show ?thesis
    by (cases rule: compareParsed_cases [of k]) (auto simp: above_lower_def below_upper_def compared_parsed)
qed

lemma proper_split:
  assumes "proper_bin k b" "isOk (parseTextScalar k v)" "\<not> above_lower k b v"
  shows "below_upper k b v"
proof -
  from assms obtain u l x where p: "parseTextScalar k (bi_Upper b) = Inr u" "parseTextScalar k (bi_Lower b) = Inr l"
    "parseTextScalar k v = Inr x" and "compareParsed l u < 0"
    by (auto simp: proper_bin_def compared_parsed isOk_iff)
  moreover have "ps_kind u = k" "ps_kind l = k" "ps_kind x = k" using p parseTextScalar_kind by blast+
  ultimately show ?thesis using assms(3)
    by (cases rule: compareParsed_cases [of k]) (auto simp: above_lower_def below_upper_def compared_parsed)
qed

lemma bins_none:
  "successively (adjacent k) (b # bs) \<Longrightarrow> \<forall>c\<in>set (b # bs). proper_bin k c \<Longrightarrow>
    isOk (parseTextScalar k v) \<Longrightarrow> \<not> above_lower k b v \<Longrightarrow> filter (\<lambda>c. in_bin k c v) (b # bs) = []"
proof (induction bs arbitrary: b)
  case Nil
  then show ?case by (simp add: in_bin_def)
next
  case (Cons c bs)
  then have no: "\<not> above_lower k c v" using adjacent_split proper_split by (simp, blast)
  with Cons.prems Cons.IH [of c] have "filter (\<lambda>d. in_bin k d v) (c # bs) = []" by simp
  with Cons.prems(4) show ?case by (simp add: in_bin_def)
qed

lemma bins_one:
  "successively (adjacent k) (b # bs) \<Longrightarrow> \<forall>c\<in>set (b # bs). proper_bin k c \<Longrightarrow>
    isOk (parseTextScalar k v) \<Longrightarrow> above_lower k b v \<Longrightarrow>
    length (filter (\<lambda>c. in_bin k c v) (b # bs)) = (if below_upper k (List.last (b # bs)) v then 1 else 0)"
proof (induction bs arbitrary: b)
  case Nil
  then show ?case by (simp add: in_bin_def)
next
  case (Cons c bs)
  have adj: "adjacent k b c" and rest: "successively (adjacent k) (c # bs)" "\<forall>d\<in>set (c # bs). proper_bin k d"
    using Cons.prems by simp_all
  have last_under: "below_upper k (List.last (c # bs)) v" if "\<not> above_lower k c v"
    using rest that
  proof (induction bs arbitrary: c)
    case Nil
    then show ?case using proper_split Cons.prems(3) by simp
  next
    case (Cons d ds)
    then have "\<not> above_lower k d v" using adjacent_split proper_split \<open>isOk (parseTextScalar k v)\<close> by (simp, blast)
    with Cons show ?case by simp
  qed
  show ?case
  proof (cases "below_upper k b v")
    case True
    then have no: "\<not> above_lower k c v" using adjacent_split [OF adj Cons.prems(3)] by simp
    from bins_none [OF rest Cons.prems(3) no] last_under [OF no] True Cons.prems(4) show ?thesis
      by (simp add: in_bin_def)
  next
    case False
    then have yes: "above_lower k c v" using adjacent_split [OF adj Cons.prems(3)] by simp
    from Cons.IH [OF rest Cons.prems(3) yes] False show ?thesis by (simp add: in_bin_def)
  qed
qed

lemma bin_scan:
  "scan (bin_issues k sp) previous i bs = [] \<longleftrightarrow>
    (\<forall>b\<in>set bs. proper_bin k b) \<and> successively (adjacent k) (opt_cons previous bs)"
proof (induction bs arbitrary: previous i)
  case Nil
  show ?case by (cases previous) simp_all
next
  case (Cons b bs)
  have step: "fst (bin_issues k sp previous i b) = Some b" "snd (bin_issues k sp previous i b) = [] \<longleftrightarrow>
      proper_bin k b \<and> (\<forall>p. previous = Some p \<longrightarrow> adjacent k p b)"
    by (auto simp: bin_issues_def Let_def proper_bin_def adjacent_def split: option.splits)
  show ?case unfolding scan_Cons_Nil_iff step Cons.IH by (cases previous) auto
qed

lemma bin_set_scan: "scan (bin_set_issues k p) seen i sets = [] \<Longrightarrow> s \<in> set sets \<Longrightarrow> snd (bin_set_issues k p {} j s) = []"
proof (induction sets arbitrary: seen i)
  case (Cons s' sets)
  note split = Cons.prems(1) [unfolded scan_Cons_Nil_iff]
  show ?case
  proof (cases "s = s'")
    case True
    with split show ?thesis by (simp add: bin_set_issues_def Let_def bin_scan)
  qed (use Cons split in auto)
qed simp

text \<open>
  C24: the bins of an accepted set partition their range.  A readable value lies in exactly one
  bin when it lies between the first lower and the last upper bound, and in none otherwise.
\<close>

theorem accepted_bins_partition:
  assumes "validateBins k sets p = []" "s \<in> set sets" "bt_Bins s \<noteq> []" "isOk (parseTextScalar k v)"
  shows "length (filter (\<lambda>b. in_bin k b v) (bt_Bins s)) =
    (if above_lower k (hd (bt_Bins s)) v \<and> below_upper k (List.last (bt_Bins s)) v then 1 else 0)"
proof -
  obtain b bs where bs: "bt_Bins s = b # bs" using assms(3) by (cases "bt_Bins s") auto
  have "snd (bin_set_issues k p {} 0 s) = []"
    using assms(1,2) bin_set_scan by (simp add: validateBins_def)
  then have ok: "\<forall>c\<in>set (b # bs). proper_bin k c" "successively (adjacent k) (b # bs)"
    unfolding bin_set_issues_def Let_def bin_scan append_is_Nil_conv snd_conv opt_cons_simps bs by blast+
  show ?thesis
    using bins_none [OF ok(2,1) assms(4)] bins_one [OF ok(2,1) assms(4)] by (cases "above_lower k b v") (simp_all add: bs)
qed

definition unit_bins :: bin_set where
  "unit_bins = \<lparr>bt_ID = ''b'', bt_Version = 1, bt_Bins =
     [\<lparr>bi_ID = ''low'', bi_Label = None, bi_Lower = ''0'', bi_Upper = ''0.5'', bi_LowerInclusive = True, bi_UpperInclusive = False\<rparr>,
      \<lparr>bi_ID = ''high'', bi_Label = None, bi_Lower = ''0.5'', bi_Upper = ''1'', bi_LowerInclusive = True, bi_UpperInclusive = True\<rparr>]\<rparr>"

theorem accepted_bins_partition_witness:
  "length (filter (\<lambda>b. in_bin OutcomeNumeric b ''0.5'') (bt_Bins unit_bins)) = 1"
proof -
  have "validateBins OutcomeNumeric [unit_bins] ''/bin_sets'' = []" "isOk (parseTextScalar OutcomeNumeric ''0.5'')" by code_simp+
  moreover have "bt_Bins unit_bins \<noteq> []" "unit_bins \<in> set [unit_bins]" by (simp_all add: unit_bins_def)
  moreover have "above_lower OutcomeNumeric (hd (bt_Bins unit_bins)) ''0.5'' \<and> below_upper OutcomeNumeric (List.last (bt_Bins unit_bins)) ''0.5''"
    by code_simp
  ultimately show ?thesis using accepted_bins_partition by simp
qed

end
