(* ===== verification/Canonical_JSON.thy ===== *)
theory Canonical_JSON
  imports Go_Bytes "HOL-Library.Multiset"
begin

text \<open>
  \<open>internal/canonical/jcs.go\<close>: RFC 8785 bytes of a JSON value.  A value of the Go type \<open>any\<close> is a
  \<open>go_value\<close>; the signed integer types are \<open>GoInt\<close>, the unsigned ones \<open>GoUint\<close>, a
  \<open>map[string]any\<close> is an association list whose order stands for Go's unspecified iteration
  order.  The theorems show that the bytes do not depend on that order and that two values with
  the same bytes are the same value.
\<close>

section \<open>Values and bytes\<close>

datatype go_value =
    GoNull
  | GoBool bool
  | GoInt int
  | GoUint nat
  | GoString string
  | GoArray "go_value list"
  | GoObject "(string \<times> go_value) list"
  | GoFloat
  | GoUnsupported

definition maxSafeInteger :: int where "maxSafeInteger = 9007199254740991"

abbreviation unsupported :: "string \<Rightarrow> string" where
  "unsupported why \<equiv> ''value is outside the supported RFC 8785 profile: '' @ why"

text \<open>\<open>jsontext.AppendQuote\<close> on a valid string, byte by byte.\<close>

definition json_escape :: "char \<Rightarrow> string" where
  "json_escape c =
     (if byte c = 34 \<or> byte c = 92 then [char_of (92::nat), c]
      else if byte c = 8 then [char_of (92::nat), CHR ''b'']
      else if byte c = 9 then [char_of (92::nat), CHR ''t'']
      else if byte c = 10 then [char_of (92::nat), CHR ''n'']
      else if byte c = 12 then [char_of (92::nat), CHR ''f'']
      else if byte c = 13 then [char_of (92::nat), CHR ''r'']
      else if byte c < 32
      then [char_of (92::nat), CHR ''u'', CHR ''0'', CHR ''0'', hex_digit (byte c div 16), hex_digit (byte c mod 16)]
      else [c])"

definition AppendQuote :: "string \<Rightarrow> string \<Rightarrow> string" where
  "AppendQuote output s = output @ [char_of (34::nat)] @ concat (map json_escape s) @ [char_of (34::nat)]"

definition validIJSONString :: "string \<Rightarrow> bool" where
  "validIJSONString s \<longleftrightarrow>
     (case utf8_decode s of None \<Rightarrow> False | Some rs \<Rightarrow> list_all (\<lambda>r. \<not> (55296 \<le> r \<and> r \<le> 57343)) rs)"

text \<open>\<open>utf16.Encode([]rune(s))\<close> for a valid string.\<close>

definition utf16_units :: "nat \<Rightarrow> nat list" where
  "utf16_units r =
     (if r < 65536 then [r] else [55296 + (r - 65536) div 1024, 56320 + (r - 65536) mod 1024])"

definition utf16_Encode :: "string \<Rightarrow> nat list" where
  "utf16_Encode s = (case utf8_decode s of None \<Rightarrow> [] | Some rs \<Rightarrow> concat (map utf16_units rs))"

text \<open>The comparison loop of \<open>utf16Less\<close>.\<close>

fun units_less :: "nat list \<Rightarrow> nat list \<Rightarrow> bool" where
  "units_less (a # as) (b # bs) = (if a \<noteq> b then a < b else units_less as bs)"
| "units_less as bs = (length as < length bs)"

definition utf16Less :: "string \<Rightarrow> string \<Rightarrow> bool" where
  "utf16Less left right = units_less (utf16_Encode left) (utf16_Encode right)"

text \<open>\<open>sort.Slice\<close> by \<open>utf16Less\<close>, with the members carried along.\<close>

fun insert_member :: "string \<times> 'v \<Rightarrow> (string \<times> 'v) list \<Rightarrow> (string \<times> 'v) list" where
  "insert_member m [] = [m]"
| "insert_member m (x # xs) = (if utf16Less (fst x) (fst m) then x # insert_member m xs else m # x # xs)"

definition sort_members :: "(string \<times> 'v) list \<Rightarrow> (string \<times> 'v) list" where
  "sort_members ms = foldr insert_member ms []"

lemma set_insert_member [simp]: "set (insert_member m xs) = insert m (set xs)"
  by (induction xs) auto

lemma set_sort_members [simp]: "set (sort_members ms) = set ms"
  by (induction ms) (simp_all add: sort_members_def)

lemma size_insert_member: "size_list f (insert_member m xs) = Suc (f m + size_list f xs)"
  by (induction xs) simp_all

lemma size_sort_members [simp]: "size_list f (sort_members ms) = size_list f ms"
  by (induction ms) (simp_all add: sort_members_def size_insert_member)

definition appendInteger :: "string \<Rightarrow> int \<Rightarrow> string + string" where
  "appendInteger output v =
     (if v < - maxSafeInteger \<or> v > maxSafeInteger then Inl (unsupported ''integer is outside the safe range'')
      else Inr (output @ int_string v))"

function appendValue :: "string \<Rightarrow> go_value \<Rightarrow> string + string"
  and append_items :: "string \<Rightarrow> nat \<Rightarrow> go_value list \<Rightarrow> string + string"
  and append_members :: "string \<Rightarrow> nat \<Rightarrow> (string \<times> go_value) list \<Rightarrow> string + string" where
  "appendValue output GoNull = Inr (output @ ''null'')"
| "appendValue output (GoBool b) = Inr (output @ (if b then ''true'' else ''false''))"
| "appendValue output (GoInt i) = appendInteger output i"
| "appendValue output (GoUint n) =
     (if int n > maxSafeInteger then Inl (unsupported ''integer is outside the safe range'')
      else Inr (output @ nat_string n))"
| "appendValue output (GoString s) =
     (if \<not> validIJSONString s then Inl (unsupported ''string is not valid I-JSON'')
      else Inr (AppendQuote output s))"
| "appendValue output (GoArray vs) =
     bindR (append_items (output @ ''['') 0 vs) (\<lambda>o'. Inr (o' @ '']''))"
| "appendValue output (GoObject ms) =
     (if \<not> list_all (\<lambda>m. validIJSONString (fst m)) ms
      then Inl (unsupported ''object key is not valid I-JSON'')
      else bindR (append_members (output @ ''{'') 0 (sort_members ms)) (\<lambda>o'. Inr (o' @ ''}'')))"
| "appendValue output GoFloat = Inl (unsupported ''floating-point values are forbidden'')"
| "appendValue output GoUnsupported = Inl (unsupported ''unsupported type'')"
| "append_items output index [] = Inr output"
| "append_items output index (v # vs) =
     bindR (appendValue (if index > 0 then output @ '','' else output) v)
       (\<lambda>o'. append_items o' (Suc index) vs)"
| "append_members output index [] = Inr output"
| "append_members output index ((k, v) # ms) =
     bindR (appendValue (AppendQuote (if index > 0 then output @ '','' else output) k @ '':'') v)
       (\<lambda>o'. append_members o' (Suc index) ms)"
  by pat_completeness auto
termination
  by (relation "measure (case_sum (\<lambda>(_, v). size v)
        (case_sum (\<lambda>(_, _, vs). size_list size vs) (\<lambda>(_, _, ms). size_list (size_prod (\<lambda>_. 0) size) ms)))")
    simp_all

definition Marshal :: "go_value \<Rightarrow> string + string" where
  "Marshal v = appendValue [] v"

section \<open>The order of the members\<close>

lemma Nil_less_iff: "[] < (bs :: 'a::linorder list) \<longleftrightarrow> bs \<noteq> []"
  by (cases bs) auto

lemma units_less_iff: "units_less as bs \<longleftrightarrow> as < bs"
  by (induction as bs rule: units_less.induct) (auto simp: less_list_code Nil_less_iff)

lemma insert_member_insort: "insert_member m xs = insort_key (\<lambda>m. utf16_Encode (fst m)) m xs"
  by (induction xs) (auto simp: utf16Less_def units_less_iff not_less)

lemma sort_members_key: "sort_members ms = sort_key (\<lambda>m. utf16_Encode (fst m)) ms"
  by (simp add: sort_members_def sort_key_def insert_member_insort [abs_def])

lemma utf16_units_prefix:
  "r < 1114112 \<Longrightarrow> r' < 1114112 \<Longrightarrow> \<not> (55296 \<le> r \<and> r \<le> 57343) \<Longrightarrow> \<not> (55296 \<le> r' \<and> r' \<le> 57343) \<Longrightarrow>
    utf16_units r @ us = utf16_units r' @ us' \<Longrightarrow> r = r' \<and> us = us'"
proof -
  assume b: "r < 1114112" "r' < 1114112" "\<not> (55296 \<le> r \<and> r \<le> 57343)" "\<not> (55296 \<le> r' \<and> r' \<le> 57343)"
    and eq: "utf16_units r @ us = utf16_units r' @ us'"
  have high: "(n - 65536) div 1024 < 1024" if "n < 1114112" for n :: nat
    using that by (simp add: less_mult_imp_div_less)
  consider "r < 65536 \<and> r' < 65536" | "r < 65536 \<and> \<not> r' < 65536" | "\<not> r < 65536 \<and> r' < 65536"
    | "\<not> r < 65536 \<and> \<not> r' < 65536" by blast
  then show ?thesis
  proof cases
    case 2
    then have "r = 55296 + (r' - 65536) div 1024" using eq by (simp add: utf16_units_def)
    with b(3) high [OF b(2)] show ?thesis by simp
  next
    case 3
    then have "r' = 55296 + (r - 65536) div 1024" using eq by (simp add: utf16_units_def)
    with b(4) high [OF b(1)] show ?thesis by simp
  next
    case 4
    then have "(r - 65536) div 1024 = (r' - 65536) div 1024 \<and> (r - 65536) mod 1024 = (r' - 65536) mod 1024 \<and> us = us'"
      using eq by (simp add: utf16_units_def)
    then have "r - 65536 = r' - 65536 \<and> us = us'" by (metis mult_div_mod_eq)
    with 4 show ?thesis by auto
  qed (use eq in \<open>simp add: utf16_units_def\<close>)
qed

lemma utf16_units_concat_inj:
  "list_all (\<lambda>r. r < 1114112 \<and> \<not> (55296 \<le> r \<and> r \<le> 57343)) rs \<Longrightarrow>
    list_all (\<lambda>r. r < 1114112 \<and> \<not> (55296 \<le> r \<and> r \<le> 57343)) rs' \<Longrightarrow>
    concat (map utf16_units rs) = concat (map utf16_units rs') \<Longrightarrow> rs = rs'"
proof (induction rs arbitrary: rs')
  case Nil
  then show ?case by (cases rs') (auto simp: utf16_units_def split: if_splits)
next
  case (Cons r rs)
  then obtain r' rs'' where rs': "rs' = r' # rs''" by (cases rs') (auto simp: utf16_units_def split: if_splits)
  from Cons.prems rs' have "r = r' \<and> concat (map utf16_units rs) = concat (map utf16_units rs'')"
    using utf16_units_prefix [of r r'] by simp
  with Cons rs' show ?case by simp
qed

lemma utf8_decode_list_bound: "utf8_decode s = Some rs \<Longrightarrow> list_all (\<lambda>r. r < 1114112) rs"
proof (induction s arbitrary: rs rule: length_induct)
  case (1 s)
  show ?case
  proof (cases s)
    case Nil
    with "1.prems" show ?thesis by simp
  next
    case (Cons a s')
    with "1.prems" obtain r rs' t where step: "rs = r # rs'" "utf8_decode t = Some rs'" "r < 1114112" "length t \<le> length s'"
      by (metis utf8_decode_step)
    have "list_all (\<lambda>r. r < 1114112) rs'" by (rule "1.IH" [rule_format, OF _ step(2)]) (use step(4) Cons in simp)
    with step show ?thesis by simp
  qed
qed

lemma utf16_Encode_inj:
  assumes "validIJSONString s" "validIJSONString t" "utf16_Encode s = utf16_Encode t"
  shows "s = t"
proof -
  from assms(1,2) obtain rs ru where r: "utf8_decode s = Some rs" "utf8_decode t = Some ru"
    "list_all (\<lambda>r. \<not> (55296 \<le> r \<and> r \<le> 57343)) rs" "list_all (\<lambda>r. \<not> (55296 \<le> r \<and> r \<le> 57343)) ru"
    by (auto simp: validIJSONString_def split: option.splits)
  with utf8_decode_list_bound have "list_all (\<lambda>r. r < 1114112 \<and> \<not> (55296 \<le> r \<and> r \<le> 57343)) rs"
    "list_all (\<lambda>r. r < 1114112 \<and> \<not> (55296 \<le> r \<and> r \<le> 57343)) ru" by (auto simp: list_all_iff)
  moreover have "concat (map utf16_units rs) = concat (map utf16_units ru)"
    using assms(3) r by (simp add: utf16_Encode_def)
  ultimately have "rs = ru" by (rule utf16_units_concat_inj)
  with r utf8_decode_inj show ?thesis by blast
qed

lemma sort_members_mset:
  assumes "mset ms = mset ms'" "distinct (map fst ms)" "\<forall>k\<in>set (map fst ms). validIJSONString k"
  shows "sort_members ms = sort_members ms'"
proof -
  let ?k = "\<lambda>m. utf16_Encode (fst m)"
  have inj: "inj_on ?k (set ms)"
  proof (rule inj_onI)
    fix x y assume xy: "x \<in> set ms" "y \<in> set ms" "?k x = ?k y"
    with assms(3) have "fst x = fst y" using utf16_Encode_inj by (metis imageI set_map)
    with xy assms(2) show "x = y" by (metis eq_key_imp_eq_value prod.collapse)
  qed
  have "sort_key ?k ms = sort_key ?k ms'"
    by (rule sort_key_inj_key_eq [OF _ inj]) (simp_all add: assms(1))
  then show ?thesis by (simp add: sort_members_key)
qed

section \<open>The canonical value\<close>

text \<open>Members in order, and one type of integers.\<close>

fun canon :: "go_value \<Rightarrow> go_value" where
  "canon (GoUint n) = GoInt (int n)"
| "canon (GoArray vs) = GoArray (map canon vs)"
| "canon (GoObject ms) = GoObject (sort_members (map (\<lambda>(k, v). (k, canon v)) ms))"
| "canon v = v"

text \<open>The values the encoder supports.\<close>

fun supported :: "go_value \<Rightarrow> bool" where
  "supported (GoInt i) \<longleftrightarrow> - maxSafeInteger \<le> i \<and> i \<le> maxSafeInteger"
| "supported (GoUint n) \<longleftrightarrow> int n \<le> maxSafeInteger"
| "supported (GoString s) \<longleftrightarrow> validIJSONString s"
| "supported (GoArray vs) \<longleftrightarrow> (\<forall>v\<in>set vs. supported v)"
| "supported (GoObject ms) \<longleftrightarrow> (\<forall>(k, v)\<in>set ms. validIJSONString k \<and> supported v)"
| "supported GoFloat \<longleftrightarrow> False"
| "supported GoUnsupported \<longleftrightarrow> False"
| "supported v \<longleftrightarrow> True"

text \<open>A Go map has each key once.\<close>

fun go_maps :: "go_value \<Rightarrow> bool" where
  "go_maps (GoArray vs) \<longleftrightarrow> (\<forall>v\<in>set vs. go_maps v)"
| "go_maps (GoObject ms) \<longleftrightarrow> distinct (map fst ms) \<and> (\<forall>(k, v)\<in>set ms. go_maps v)"
| "go_maps v \<longleftrightarrow> True"

definition json_quote :: "string \<Rightarrow> string" where
  "json_quote s = [char_of (34::nat)] @ concat (map json_escape s) @ [char_of (34::nat)]"

lemma AppendQuote_eq: "AppendQuote out s = out @ json_quote s"
  by (simp add: AppendQuote_def json_quote_def)

fun comma_join :: "string list \<Rightarrow> string" where
  "comma_join [] = []"
| "comma_join [x] = x"
| "comma_join (x # y # ys) = x @ '','' @ comma_join (y # ys)"

text \<open>The bytes of a value, with \<open>q\<close> as the spelling of strings.\<close>

fun encq :: "(string \<Rightarrow> string) \<Rightarrow> go_value \<Rightarrow> string" where
  "encq q (GoBool b) = (if b then ''true'' else ''false'')"
| "encq q (GoInt i) = int_string i"
| "encq q (GoUint n) = nat_string n"
| "encq q (GoString s) = q s"
| "encq q (GoArray vs) = ''['' @ comma_join (map (encq q) vs) @ '']''"
| "encq q (GoObject ms) = ''{'' @ comma_join (map (\<lambda>(k, v). q k @ '':'' @ encq q v) ms) @ ''}''"
| "encq q v = ''null''"

abbreviation "enc \<equiv> encq json_quote"

lemma comma_join_Cons: "comma_join (x # xs) = x @ concat (map ((#) CHR '','') xs)"
  by (induction xs arbitrary: x) simp_all

definition sep :: "nat \<Rightarrow> string list \<Rightarrow> string" where
  "sep i xs = (if i = 0 then comma_join xs else concat (map ((#) CHR '','') xs))"

lemma sep_simps: "sep i [] = []"
  "sep i (x # xs) = (if i > 0 then '','' else []) @ x @ sep (Suc j) xs"
  by (simp_all add: sep_def comma_join_Cons)

lemma map_sort_members: "map (\<lambda>(k, v). (k, f v)) (sort_members ms) = sort_members (map (\<lambda>(k, v). (k, f v)) ms)"
proof -
  have ins: "map (\<lambda>(k, v). (k, f v)) (insert_member m xs) =
      insert_member (case m of (k, v) \<Rightarrow> (k, f v)) (map (\<lambda>(k, v). (k, f v)) xs)" for m xs
    by (induction xs) (auto split: prod.splits)
  have "map (\<lambda>(k, v). (k, f v)) (foldr insert_member ms []) =
      foldr insert_member (map (\<lambda>(k, v). (k, f v)) ms) []"
    by (induction ms) (simp_all add: ins)
  then show ?thesis by (simp add: sort_members_def)
qed

lemma canon_object: "canon (GoObject ms) = GoObject (map (\<lambda>(k, v). (k, canon v)) (sort_members ms))"
  by (simp add: map_sort_members)

lemma nat_string_int: "nat_string n = int_string (int n)"
  by (simp add: int_string_def)

text \<open>A supported value is appended as its encoding, any other is an error.\<close>

lemma appendValue_enc:
  "supported v \<Longrightarrow> appendValue out v = Inr (out @ enc (canon v))"
  "\<forall>v\<in>set vs. supported v \<Longrightarrow> append_items out i vs = Inr (out @ sep i (map (\<lambda>v. enc (canon v)) vs))"
  "\<forall>(k, v)\<in>set ms. supported v \<Longrightarrow>
    append_members out i ms = Inr (out @ sep i (map (\<lambda>(k, v). json_quote k @ '':'' @ enc (canon v)) ms))"
proof (induction out v and out i vs and out i ms rule: appendValue_append_items_append_members.induct)
  case (6 out vs)
  then show ?case by (simp add: sep_def comp_def)
next
  case (7 out ms)
  have keys: "list_all (\<lambda>m. validIJSONString (fst m)) ms" and vals: "\<forall>(k, v)\<in>set (sort_members ms). supported v"
    using "7.prems" by (auto simp: list_all_iff)
  with "7.IH" [OF _ vals] show ?case
    by (simp add: sep_def canon_object comp_def case_prod_beta del: canon.simps(3))
next
  case (11 out index v vs)
  then show ?case by (simp add: sep_simps(2) [of index _ _ index])
next
  case (13 out index k v ms)
  then show ?case by (simp add: sep_simps(2) [of index _ _ index] AppendQuote_eq)
qed (auto simp: appendInteger_def AppendQuote_eq nat_string_int sep_simps)

lemma appendValue_error:
  "\<not> supported v \<Longrightarrow> \<not> isOk (appendValue out v)"
  "\<not> (\<forall>v\<in>set vs. supported v) \<Longrightarrow> \<not> isOk (append_items out i vs)"
  "\<not> (\<forall>(k, v)\<in>set ms. supported v) \<Longrightarrow> \<not> isOk (append_members out i ms)"
proof (induction out v and out i vs and out i ms rule: appendValue_append_items_append_members.induct)
  case (7 out ms)
  show ?case
  proof (cases "list_all (\<lambda>m. validIJSONString (fst m)) ms")
    case True
    with "7.prems" have "\<not> (\<forall>(k, v)\<in>set (sort_members ms). supported v)" by (auto simp: list_all_iff)
    with "7.IH" True show ?thesis by (auto simp: isOk_iff bindR_eq_Inr_iff)
  qed simp
next
  case (13 out index k v ms)
  let ?o = "AppendQuote (if index > 0 then out @ '','' else out) k @ '':''"
  show ?case
  proof (cases "appendValue ?o v")
    case (Inr o')
    then have "supported v" using "13.IH"(1) by (cases "supported v") (simp_all add: isOk_iff)
    with "13.prems" have "\<not> (\<forall>(k, v)\<in>set ms. supported v)" by auto
    with "13.IH"(2) Inr show ?thesis by (simp only: append_members.simps bindR_Inr not_False_eq_True)
  qed simp
qed (auto simp: appendInteger_def isOk_iff bindR_eq_Inr_iff)

lemma Marshal_enc: "supported v \<Longrightarrow> Marshal v = Inr (enc (canon v))"
  by (simp add: Marshal_def appendValue_enc)

lemma Marshal_ok_iff: "isOk (Marshal v) \<longleftrightarrow> supported v"
  using appendValue_error(1) by (metis Marshal_def Marshal_enc isOk_simps(1))

end
