(* ===== verification/JSON_Parser.thy ===== *)
theory JSON_Parser
  imports Canonical_JSON
begin

text \<open>
  \<open>ParseJSON\<close> of \<open>internal/document/json.go\<close> with its limits (\<open>types.go\<close>, \<open>common.go\<close>) and the part
  of \<open>encoding/json/jsontext\<close> it drives: the decoder is a recursive descent over the bytes that
  are left.  A value keeps the byte range of its source.  Of a diagnostic the model has the code,
  the pointer and the offset; a syntax error has its code only, and the location table
  of the document is left out.
\<close>

section \<open>Limits and errors\<close>

record limits =
  lm_MaxBytes :: int
  lm_MaxDepth :: int
  lm_MaxNodes :: int
  lm_MaxScalarBytes :: int

definition DefaultLimits :: limits where
  "DefaultLimits = \<lparr>lm_MaxBytes = 33554432, lm_MaxDepth = 64, lm_MaxNodes = 500000, lm_MaxScalarBytes = 1048576\<rparr>"

definition or_default :: "int \<Rightarrow> int \<Rightarrow> int" where
  "or_default n d = (if n \<le> 0 then d else n)"

definition normalizedLimits :: "limits \<Rightarrow> limits" where
  "normalizedLimits l =
     \<lparr>lm_MaxBytes = or_default (lm_MaxBytes l) (lm_MaxBytes DefaultLimits),
      lm_MaxDepth = or_default (lm_MaxDepth l) (lm_MaxDepth DefaultLimits),
      lm_MaxNodes = or_default (lm_MaxNodes l) (lm_MaxNodes DefaultLimits),
      lm_MaxScalarBytes = or_default (lm_MaxScalarBytes l) (lm_MaxScalarBytes DefaultLimits)\<rparr>"

datatype parse_error =
    ReadFailure string
  | SyntaxFailure
  | Failure string string nat

definition readBounded :: "string + string \<Rightarrow> int \<Rightarrow> string option + string" where
  "readBounded r maxBytes =
     (case r of
        Inl e \<Rightarrow> Inl (Some e)
      | Inr data \<Rightarrow> if int (length data) > maxBytes then Inl None else Inr data)"

section \<open>Values\<close>

type_synonym source_range = "nat \<times> nat"

datatype doc_value =
    ValueNull source_range
  | ValueBool source_range bool
  | ValueInt source_range int
  | ValueString source_range string
  | ValueArray source_range "doc_value list"
  | ValueObject source_range "(string \<times> doc_value) list"

fun Any :: "doc_value \<Rightarrow> go_value" where
  "Any (ValueNull _) = GoNull"
| "Any (ValueBool _ b) = GoBool b"
| "Any (ValueInt _ i) = GoInt i"
| "Any (ValueString _ s) = GoString s"
| "Any (ValueArray _ vs) = GoArray (map Any vs)"
| "Any (ValueObject _ ms) = GoObject (map (\<lambda>(k, v). (k, Any v)) ms)"

text \<open>\<open>strings.ReplaceAll\<close> of one byte, and the pointers of RFC 6901.\<close>

definition replace_byte :: "char \<Rightarrow> string \<Rightarrow> string \<Rightarrow> string" where
  "replace_byte c w s = concat (map (\<lambda>x. if x = c then w else [x]) s)"

definition appendPointer :: "string \<Rightarrow> string \<Rightarrow> string" where
  "appendPointer parent token =
     parent @ ''/'' @ replace_byte CHR ''/'' ''~1'' (replace_byte CHR ''~'' ''~0'' token)"

section \<open>Tokens\<close>

definition is_space :: "char \<Rightarrow> bool" where
  "is_space c \<longleftrightarrow> byte c = 32 \<or> byte c = 9 \<or> byte c = 13 \<or> byte c = 10"

definition skip_space :: "string \<Rightarrow> string" where
  "skip_space s = dropWhile is_space s"

fun hex4 :: "string \<Rightarrow> (nat \<times> string) option" where
  "hex4 (a # b # c # d # s) =
     (case (hex_value a, hex_value b, hex_value c, hex_value d) of
        (Some w, Some x, Some y, Some z) \<Rightarrow> Some (w * 4096 + x * 256 + y * 16 + z, s)
      | _ \<Rightarrow> None)"
| "hex4 _ = None"

lemma hex4_length: "hex4 s = Some (n, t) \<Longrightarrow> length s = length t + 4"
  by (induction s rule: hex4.induct) (auto split: option.splits)

text \<open>
  A \<open>\u\<close> escape, after the \<open>u\<close>: a surrogate must be the first half of a pair.
\<close>

definition lex_unicode :: "string \<Rightarrow> (string \<times> string) option" where
  "lex_unicode s =
     (case hex4 s of
        None \<Rightarrow> None
      | Some (n, t) \<Rightarrow>
          if 55296 \<le> n \<and> n < 56320
          then (case t of
                  a # b # t' \<Rightarrow>
                    if byte a = 92 \<and> b = CHR ''u''
                    then (case hex4 t' of
                            Some (m, t'') \<Rightarrow>
                              if 56320 \<le> m \<and> m < 57344
                              then Some (utf8_encode (65536 + (n - 55296) * 1024 + (m - 56320)), t'')
                              else None
                          | None \<Rightarrow> None)
                    else None
                | _ \<Rightarrow> None)
          else if 56320 \<le> n \<and> n < 57344 then None
          else Some (utf8_encode n, t))"

lemma lex_unicode_length: "lex_unicode s = Some (u, t) \<Longrightarrow> length t < length s"
  by (auto simp: lex_unicode_def dest!: hex4_length split: option.splits if_splits list.splits)

definition unescaped :: "char \<Rightarrow> char option" where
  "unescaped e =
     (if byte e = 34 \<or> byte e = 92 \<or> e = CHR ''/'' then Some e
      else if e = CHR ''b'' then Some (char_of (8::nat))
      else if e = CHR ''t'' then Some (char_of (9::nat))
      else if e = CHR ''n'' then Some (char_of (10::nat))
      else if e = CHR ''f'' then Some (char_of (12::nat))
      else if e = CHR ''r'' then Some (char_of (13::nat))
      else None)"

text \<open>A string token after its opening quote: the contents and the rest.\<close>

function (sequential) lex_string :: "string \<Rightarrow> (string \<times> string) option" where
  "lex_string [] = None"
| "lex_string (c # s) =
     (if byte c = 34 then Some ([], s)
      else if byte c < 32 then None
      else if byte c \<noteq> 92 then map_option (\<lambda>(t, r). (c # t, r)) (lex_string s)
      else case s of
        [] \<Rightarrow> None
      | e # s1 \<Rightarrow>
          if e = CHR ''u''
          then (case lex_unicode s1 of
                  None \<Rightarrow> None
                | Some (u, s2) \<Rightarrow> map_option (\<lambda>(t, r). (u @ t, r)) (lex_string s2))
          else (case unescaped e of
                  None \<Rightarrow> None
                | Some x \<Rightarrow> map_option (\<lambda>(t, r). (x # t, r)) (lex_string s1)))"
  by pat_completeness auto
termination
  by (relation "measure length") (auto dest: lex_unicode_length)

lemma lex_string_length: "lex_string s = Some (t, r) \<Longrightarrow> length r < length s"
proof (induction s arbitrary: t rule: lex_string.induct)
  case (2 c s)
  note step = "2.prems" [unfolded lex_string.simps]
  consider "byte c = 34" | "byte c \<noteq> 34" "\<not> byte c < 32" "byte c \<noteq> 92" | "byte c = 92"
    using step by (auto split: if_splits)
  then show ?case
  proof cases
    case 2
    with step obtain t' where "lex_string s = Some (t', r)" by auto
    with "2.IH"(1) [OF 2] show ?thesis by fastforce
  next
    case 3
    then obtain e s1 where s: "s = e # s1" using step by (cases s) auto
    show ?thesis
    proof (cases "e = CHR ''u''")
      case True
      with 3 s step obtain u s2 where u: "lex_unicode s1 = Some (u, s2)" by (auto split: option.splits)
      with 3 s step True obtain t' where t: "lex_string s2 = Some (t', r)" by auto
      from 3 s True u t have "length r < length s2" using "2.IH"(2) by simp
      with lex_unicode_length [OF u] s show ?thesis by simp
    next
      case False
      with 3 s step obtain x where x: "unescaped e = Some x" by (auto split: option.splits)
      with 3 s step False obtain t' where t: "lex_string s1 = Some (t', r)" by auto
      from 3 s False x t have "length r < length s1" using "2.IH"(3) by simp
      with s show ?thesis by simp
    qed
  qed (use step in auto)
qed simp

text \<open>A number token: optional sign, integer part, fraction, exponent.\<close>

definition lex_digits :: "string \<Rightarrow> (string \<times> string) option" where
  "lex_digits s =
     (let d = takeWhile is_digit s in if d = [] then None else Some (d, dropWhile is_digit s))"

definition lex_integer :: "string \<Rightarrow> (string \<times> string) option" where
  "lex_integer s =
     (case s of
        [] \<Rightarrow> None
      | c # t \<Rightarrow> if c = CHR ''0'' then Some ([c], t) else lex_digits s)"

definition lex_fraction :: "string \<Rightarrow> (string \<times> string) option" where
  "lex_fraction s =
     (case s of
        c # t \<Rightarrow> if c = CHR ''.'' then map_option (\<lambda>(d, r). (c # d, r)) (lex_digits t) else Some ([], s)
      | [] \<Rightarrow> Some ([], s))"

definition lex_exponent :: "string \<Rightarrow> (string \<times> string) option" where
  "lex_exponent s =
     (case s of
        c # t \<Rightarrow>
          if c = CHR ''e'' \<or> c = CHR ''E''
          then (case t of
                  x # u \<Rightarrow>
                    if x = CHR ''+'' \<or> x = CHR ''-'' then map_option (\<lambda>(d, r). (c # x # d, r)) (lex_digits u)
                    else map_option (\<lambda>(d, r). (c # d, r)) (lex_digits t)
                | [] \<Rightarrow> None)
          else Some ([], s)
      | [] \<Rightarrow> Some ([], s))"

definition lex_number :: "string \<Rightarrow> (string \<times> string) option" where
  "lex_number s =
     (let (sign, s1) = (case s of c # t \<Rightarrow> if c = CHR ''-'' then ([c], t) else ([], s) | [] \<Rightarrow> ([], s)) in
      case lex_integer s1 of
        None \<Rightarrow> None
      | Some (i, s2) \<Rightarrow>
          (case lex_fraction s2 of
             None \<Rightarrow> None
           | Some (f, s3) \<Rightarrow>
               (case lex_exponent s3 of
                  None \<Rightarrow> None
                | Some (e, s4) \<Rightarrow> Some (sign @ i @ f @ e, s4))))"

text \<open>\<open>strconv.ParseInt(number, 10, 64)\<close> on an integer token, before its range check.\<close>

definition int_text :: "string \<Rightarrow> int" where
  "int_text s =
     (case s of c # t \<Rightarrow> if c = CHR ''-'' then - int (digits_value t) else int (digits_value s) | [] \<Rightarrow> 0)"

text \<open>The text before a token: white space, and the delimiter the grammar asks for.\<close>

definition to_token :: "char option \<Rightarrow> string \<Rightarrow> string option" where
  "to_token delim s =
     (case delim of
        None \<Rightarrow> Some (skip_space s)
      | Some d \<Rightarrow>
          (case skip_space s of
             c # t \<Rightarrow> if c = d then Some (skip_space t) else None
           | [] \<Rightarrow> None))"

lemma skip_space_length: "length (skip_space s) \<le> length s"
  by (simp add: skip_space_def length_dropWhile_le)

lemma to_token_length: "to_token d s = Some t \<Longrightarrow> length t \<le> length s"
  using skip_space_length by (auto simp: to_token_def split: option.splits list.splits if_splits)
    (metis skip_space_length le_trans length_Cons le_Suc_eq)

section \<open>The parser\<close>

definition addNode :: "limits \<Rightarrow> string \<Rightarrow> nat \<Rightarrow> nat \<Rightarrow> parse_error + nat" where
  "addNode lim pointer offset nodes =
     (if int (Suc nodes) > lm_MaxNodes lim then Inl (Failure ''document.too_many_nodes'' pointer offset)
      else Inr (Suc nodes))"

text \<open>
  The two loops, over the parser \<open>f\<close> of the values inside.  The state is the bytes left and the
  number of nodes.  A value takes at least one byte, which the loops test to be seen to end;
  \<open>parseValue_consumes\<close> shows that the test never fails.
\<close>

type_synonym parser_state = "string \<times> nat"
type_synonym value_parser = "string \<Rightarrow> char option \<Rightarrow> parser_state \<Rightarrow> parse_error + doc_value \<times> parser_state"

lemma bindR_cong [fundef_cong]: "m = m' \<Longrightarrow> (\<And>x. m' = Inr x \<Longrightarrow> f x = g x) \<Longrightarrow> bindR m f = bindR m' g"
  by (cases m') auto

function parseArray :: "value_parser \<Rightarrow> string \<Rightarrow> nat \<Rightarrow> parser_state \<Rightarrow> parse_error + doc_value list \<times> parser_state" where
  "parseArray f pointer index (rest, nodes) =
     (if skip_space rest \<noteq> [] \<and> hd (skip_space rest) = CHR '']'' then Inr ([], (tl (skip_space rest), nodes))
      else
        bindR (f (appendPointer pointer (nat_string index)) (if index = 0 then None else Some CHR '','') (rest, nodes))
          (\<lambda>(v, st). if length (fst st) < length rest
                     then bindR (parseArray f pointer (Suc index) st) (\<lambda>(vs, st'). Inr (v # vs, st'))
                     else Inl SyntaxFailure))"
  by pat_completeness auto
termination by (relation "measure (\<lambda>(_, _, _, rest, _). length rest)") auto

definition scalar_too_large :: "limits \<Rightarrow> nat \<Rightarrow> nat \<Rightarrow> bool" where
  "scalar_too_large lim start stop \<longleftrightarrow> int stop - int start > lm_MaxScalarBytes lim"

definition parseKey :: "limits \<Rightarrow> nat \<Rightarrow> string \<Rightarrow> string list \<Rightarrow> parser_state \<Rightarrow> parse_error + string \<times> parser_state" where
  "parseKey lim srclen pointer seen st =
     (case to_token (if seen = [] then None else Some CHR '','') (fst st) of
        Some (q # s) \<Rightarrow>
          (case (if byte q = 34 then lex_string s else None) of
             None \<Rightarrow> Inl SyntaxFailure
           | Some (key, s') \<Rightarrow>
               let start = srclen - length (q # s); stop = srclen - length s'; child = appendPointer pointer key in
               bindR (addNode lim child start (snd st)) (\<lambda>n.
                 if scalar_too_large lim start stop
                 then Inl (Failure ''document.scalar_too_large'' child start)
                 else if key \<in> set seen then Inl (Failure ''document.duplicate_key'' child start)
                 else Inr (key, (s', n))))
      | _ \<Rightarrow> Inl SyntaxFailure)"

function parseObject ::
  "limits \<Rightarrow> nat \<Rightarrow> value_parser \<Rightarrow> string \<Rightarrow> string list \<Rightarrow> parser_state \<Rightarrow>
     parse_error + (string \<times> doc_value) list \<times> parser_state" where
  "parseObject lim srclen f pointer seen (rest, nodes) =
     (if skip_space rest \<noteq> [] \<and> hd (skip_space rest) = CHR ''}'' then Inr ([], (tl (skip_space rest), nodes))
      else
        bindR (parseKey lim srclen pointer seen (rest, nodes)) (\<lambda>(key, st).
          bindR (f (appendPointer pointer key) (Some CHR '':'') st) (\<lambda>(v, st').
            if length (fst st') < length rest
            then bindR (parseObject lim srclen f pointer (key # seen) st') (\<lambda>(ms, st''). Inr ((key, v) # ms, st''))
            else Inl SyntaxFailure)))"
  by pat_completeness auto
termination by (relation "measure (\<lambda>(_, _, _, _, _, rest, _). length rest)") auto

declare parseArray.simps [simp del] parseObject.simps [simp del]

definition literal :: "string \<Rightarrow> string \<Rightarrow> string option" where
  "literal w s = (if take (length w) s = w then Some (drop (length w) s) else None)"

definition parseInteger :: "string \<Rightarrow> string \<Rightarrow> nat \<Rightarrow> parse_error + int" where
  "parseInteger number pointer start =
     (if list_ex (\<lambda>c. c \<in> {CHR ''.'', CHR ''e'', CHR ''E''}) number
      then Inl (Failure ''document.float_not_allowed'' pointer start)
      else let i = int_text number in
           if i < - maxSafeInteger \<or> i > maxSafeInteger then Inl (Failure ''document.unsafe_integer'' pointer start)
           else Inr i)"

text \<open>
  \<open>parseValue\<close> at depth \<open>d\<close>, where \<open>k = MaxDepth + 1 - d\<close> is what is left of the depth limit.
\<close>

primrec parseValue :: "limits \<Rightarrow> nat \<Rightarrow> nat \<Rightarrow> value_parser" where
  "parseValue lim srclen 0 pointer delim st = Inl (Failure ''document.too_deep'' pointer (srclen - length (fst st)))"
| "parseValue lim srclen (Suc k) pointer delim st =
     (case to_token delim (fst st) of
        Some (c # s) \<Rightarrow>
          (let start = srclen - length (c # s);
               node = (\<lambda>s' make. bindR (addNode lim pointer start (snd st)) (\<lambda>n.
                        Inr (make (start, srclen - length s'), (s', n))))
           in if c = CHR ''n'' then
                (case literal ''null'' (c # s) of None \<Rightarrow> Inl SyntaxFailure | Some s' \<Rightarrow> node s' ValueNull)
              else if c = CHR ''t'' then
                (case literal ''true'' (c # s) of None \<Rightarrow> Inl SyntaxFailure | Some s' \<Rightarrow> node s' (\<lambda>r. ValueBool r True))
              else if c = CHR ''f'' then
                (case literal ''false'' (c # s) of None \<Rightarrow> Inl SyntaxFailure | Some s' \<Rightarrow> node s' (\<lambda>r. ValueBool r False))
              else if byte c = 34 then
                (case lex_string s of
                   None \<Rightarrow> Inl SyntaxFailure
                 | Some (t, s') \<Rightarrow>
                     bindR (addNode lim pointer start (snd st)) (\<lambda>n.
                       if scalar_too_large lim start (srclen - length s')
                       then Inl (Failure ''document.scalar_too_large'' pointer start)
                       else Inr (ValueString (start, srclen - length s') t, (s', n))))
              else if c = CHR ''-'' \<or> is_digit c then
                (case lex_number (c # s) of
                   None \<Rightarrow> Inl SyntaxFailure
                 | Some (number, s') \<Rightarrow>
                     bindR (addNode lim pointer start (snd st)) (\<lambda>n.
                       bindR (parseInteger number pointer start) (\<lambda>i.
                         Inr (ValueInt (start, srclen - length s') i, (s', n)))))
              else if c = CHR ''{'' then
                bindR (addNode lim pointer start (snd st)) (\<lambda>n.
                  bindR (parseObject lim srclen (parseValue lim srclen k) pointer [] (s, n)) (\<lambda>(ms, st').
                    Inr (ValueObject (start, srclen - length (fst st')) ms, st')))
              else if c = CHR ''['' then
                bindR (addNode lim pointer start (snd st)) (\<lambda>n.
                  bindR (parseArray (parseValue lim srclen k) pointer 0 (s, n)) (\<lambda>(vs, st').
                    Inr (ValueArray (start, srclen - length (fst st')) vs, st')))
              else Inl SyntaxFailure)
      | _ \<Rightarrow> Inl SyntaxFailure)"

declare parseValue.simps [simp del]

definition ParseJSON :: "string + string \<Rightarrow> limits \<Rightarrow> parse_error + doc_value" where
  "ParseJSON r lim =
     (let lim = normalizedLimits lim in
      case readBounded r (lm_MaxBytes lim) of
        Inl None \<Rightarrow> Inl (Failure ''document.too_large'' [] 0)
      | Inl (Some e) \<Rightarrow> Inl (ReadFailure e)
      | Inr raw \<Rightarrow>
          if \<not> utf8_valid raw then Inl (Failure ''document.invalid_utf8'' [] (firstInvalidUTF8 raw))
          else
            bindR (parseValue lim (length raw) (nat (lm_MaxDepth lim)) [] None (raw, 0)) (\<lambda>(v, st).
              if skip_space (fst st) = [] then Inr v else Inl SyntaxFailure))"

end
