(* ===== verification/JSON_Roundtrip.thy ===== *)
theory JSON_Roundtrip
  imports JSON_Parser "HOL-Library.Code_Target_Nat"
begin

text \<open>
  The parser and the canonical encoder together: the parser reads back what the encoder writes,
  so the encoder is injective up to the order of members, and whatever the parser accepts is
  within its limits.
\<close>

section \<open>Tokens of canonical bytes\<close>

definition json_delim :: "string \<Rightarrow> bool" where
  "json_delim r \<longleftrightarrow> r = [] \<or> hd r \<in> {CHR '','', CHR '']'', CHR ''}'', CHR 0x0A}"

lemma byte_eq_char: "byte c = n \<Longrightarrow> c = char_of n"
  by (metis char_of_char)

lemma lex_string_escape:
  "lex_string (json_escape c @ s) = map_option (\<lambda>(t, r). (c # t, r)) (lex_string s)"
proof -
  consider (quote) "byte c = 34 \<or> byte c = 92" | (short) "byte c \<in> {8, 9, 10, 12, 13}"
    | (control) "byte c < 32" "byte c \<notin> {8, 9, 10, 12, 13}" | (plain) "32 \<le> byte c" "byte c \<noteq> 34" "byte c \<noteq> 92"
    by fastforce
  then show ?thesis
  proof cases
    case quote
    then have "unescaped c = Some c" "c \<noteq> CHR ''u''" by (auto simp: unescaped_def)
    with quote show ?thesis by (auto simp: json_escape_def of_char_of)
  next
    case short
    then have c: "c = char_of (byte c)" "byte c \<in> {8, 9, 10, 12, 13}" by simp_all
    then have "\<exists>x. json_escape c = [char_of (92::nat), x] \<and> x \<noteq> CHR ''u'' \<and> unescaped x = Some c"
      by (auto simp: json_escape_def unescaped_def dest!: byte_eq_char)
    then obtain x where "unescaped x = Some c" "x \<noteq> CHR ''u''" "json_escape c = [char_of (92::nat), x]" by blast
    then show ?thesis by (simp add: of_char_of)
  next
    case control
    let ?n = "byte c"
    have hex: "?n div 16 < 16" "?n mod 16 < 16" using control by auto
    have zero: "hex_value CHR ''0'' = Some 0" by (simp add: hex_value_def)
    have "lex_unicode ([CHR ''0'', CHR ''0'', hex_digit (?n div 16), hex_digit (?n mod 16)] @ s) = Some (utf8_encode ?n, s)"
      using control hex by (simp add: lex_unicode_def zero mult.commute)
    moreover have "utf8_encode ?n = [c]" using control by (simp add: utf8_encode1)
    ultimately show ?thesis using control by (simp add: json_escape_def of_char_of)
  qed (simp add: json_escape_def)
qed

lemma lex_string_quoted [simp]: "lex_string (concat (map json_escape s) @ char_of (34::nat) # r) = Some (s, r)"
  by (induction s) (simp_all add: lex_string_escape of_char_of)

lemma json_quote_Cons: "json_quote s = char_of (34::nat) # concat (map json_escape s) @ [char_of (34::nat)]"
  by (simp add: json_quote_def)

lemma takeWhile_digits: "json_delim r \<Longrightarrow> takeWhile is_digit (nat_string n @ r) = nat_string n \<and>
    dropWhile is_digit (nat_string n @ r) = r"
proof -
  assume r: "json_delim r"
  have "\<forall>x\<in>set (nat_string n). is_digit x" using nat_string_digits by (simp add: list_all_iff)
  moreover have "takeWhile is_digit r = []" "dropWhile is_digit r = r"
    using r by (cases r; force simp: json_delim_def is_digit_def)+
  ultimately show ?thesis by simp
qed

lemma nat_string_0: "nat_string 0 = ''0''"
  by (subst nat_string.simps) simp

lemma lex_integer_nat: "json_delim r \<Longrightarrow> lex_integer (nat_string n @ r) = Some (nat_string n, r)"
proof (cases "n = 0")
  case True
  then show ?thesis by (simp add: lex_integer_def nat_string_0)
next
  case False
  assume r: "json_delim r"
  have "hd (nat_string n) \<noteq> CHR ''0''" using nat_string_hd False by (simp add: is_digit19_iff)
  then obtain c t where "nat_string n = c # t" "c \<noteq> CHR ''0''" by (metis list.exhaust_sel nat_string_ne)
  with takeWhile_digits [OF r, of n] show ?thesis by (simp add: lex_integer_def lex_digits_def Let_def)
qed

lemma delim_no_tail: "json_delim r \<Longrightarrow> lex_fraction r = Some ([], r) \<and> lex_exponent r = Some ([], r)"
  by (auto simp: json_delim_def lex_fraction_def lex_exponent_def split: list.split)

lemma nat_string_no_sign: "nat_string n = c # t \<Longrightarrow> c \<noteq> CHR ''-''"
  using nat_string_digits [of n] by (auto simp: is_digit_def)

lemma lex_number_int: "json_delim r \<Longrightarrow> lex_number (int_string i @ r) = Some (int_string i, r)"
proof -
  assume r: "json_delim r"
  show ?thesis
  proof (cases "i < 0")
    case True
    with lex_integer_nat [OF r] delim_no_tail [OF r] show ?thesis by (simp add: lex_number_def int_string_def)
  next
    case False
    then obtain c t where c: "int_string i = c # t" "nat_string (nat i) = c # t"
      by (cases "nat_string (nat i)") (auto simp: int_string_def)
    have "lex_integer (c # t @ r) = Some (c # t, r)" using lex_integer_nat [OF r, of "nat i"] c by simp
    with nat_string_no_sign [OF c(2)] delim_no_tail [OF r] c(1) show ?thesis by (simp add: lex_number_def)
  qed
qed

lemma int_text_int_string [simp]: "int_text (int_string i) = i"
  using nat_string_no_sign [of "nat i"]
  by (cases "nat_string (nat i)") (auto simp: int_text_def int_string_def split: list.split dest: arg_cong [of _ _ digits_value])

lemma parseInteger_int_string:
  "- maxSafeInteger \<le> i \<Longrightarrow> i \<le> maxSafeInteger \<Longrightarrow> parseInteger (int_string i) p st = Inr i"
proof -
  have d: "list_all is_digit (nat_string n)" for n by (rule nat_string_digits)
  have "\<not> list_ex (\<lambda>c. c \<in> {CHR ''.'', CHR ''e'', CHR ''E''}) (nat_string n)" for n
    using d [of n] by (force simp: list_all_iff list_ex_iff is_digit_def)
  then have "\<not> list_ex (\<lambda>c. c \<in> {CHR ''.'', CHR ''e'', CHR ''E''}) (int_string i)"
    by (simp add: int_string_def)
  then show "- maxSafeInteger \<le> i \<Longrightarrow> i \<le> maxSafeInteger \<Longrightarrow> ?thesis" by (simp add: parseInteger_def Let_def)
qed

section \<open>What is within the limits\<close>

fun json_depth :: "go_value \<Rightarrow> nat" where
  "json_depth (GoArray vs) = Suc (foldr (\<lambda>v. max (json_depth v)) vs 0)"
| "json_depth (GoObject ms) = Suc (foldr (\<lambda>(k, v). max (json_depth v)) ms 0)"
| "json_depth v = 1"

fun json_nodes :: "go_value \<Rightarrow> nat" where
  "json_nodes (GoArray vs) = Suc (sum_list (map json_nodes vs))"
| "json_nodes (GoObject ms) = Suc (sum_list (map (\<lambda>(k, v). Suc (json_nodes v)) ms))"
| "json_nodes v = 1"

fun scalars_within :: "(string \<Rightarrow> string) \<Rightarrow> int \<Rightarrow> go_value \<Rightarrow> bool" where
  "scalars_within q n (GoString s) \<longleftrightarrow> int (length (q s)) \<le> n"
| "scalars_within q n (GoArray vs) \<longleftrightarrow> (\<forall>v\<in>set vs. scalars_within q n v)"
| "scalars_within q n (GoObject ms) \<longleftrightarrow> (\<forall>(k, v)\<in>set ms. int (length (q k)) \<le> n \<and> scalars_within q n v)"
| "scalars_within q n v \<longleftrightarrow> True"

lemma json_depth_pos: "0 < json_depth v"
  by (cases v) auto

lemma json_depth_le: "json_depth (GoArray vs) \<le> Suc k \<longleftrightarrow> (\<forall>v\<in>set vs. json_depth v \<le> k)"
  "json_depth (GoObject ms) \<le> Suc k \<longleftrightarrow> (\<forall>(k', v)\<in>set ms. json_depth v \<le> k)"
proof -
  show "json_depth (GoArray vs) \<le> Suc k \<longleftrightarrow> (\<forall>v\<in>set vs. json_depth v \<le> k)" by (induction vs) simp_all
  show "json_depth (GoObject ms) \<le> Suc k \<longleftrightarrow> (\<forall>(k', v)\<in>set ms. json_depth v \<le> k)" by (induction ms) auto
qed

section \<open>Parsing canonical bytes\<close>

text \<open>What a value begins with.\<close>

definition value_start :: "char \<Rightarrow> bool" where
  "value_start c \<longleftrightarrow> \<not> is_space c \<and> c \<notin> {CHR '','', CHR '':'', CHR '']'', CHR ''}''}"

lemma value_start_digit: "is_digit c \<Longrightarrow> value_start c"
  by (auto simp: value_start_def is_space_def is_digit_iff)

lemma skip_space_id: "\<not> is_space c \<Longrightarrow> skip_space (c # t) = c # t"
  by (simp add: skip_space_def)

lemma to_token_value:
  assumes "value_start c" "case d of None \<Rightarrow> pre = [] | Some x \<Rightarrow> pre = [x] \<and> \<not> is_space x"
  shows "to_token d (pre @ c # t) = Some (c # t)"
  using assms by (cases d) (simp_all add: to_token_def value_start_def skip_space_id)

lemma literal_append [simp]: "literal w (w @ r) = Some r"
  by (simp add: literal_def)

text \<open>The values the parser produces have no unsigned integers.\<close>

fun plain :: "go_value \<Rightarrow> bool" where
  "plain (GoUint n) \<longleftrightarrow> False"
| "plain (GoArray vs) \<longleftrightarrow> (\<forall>v\<in>set vs. plain v)"
| "plain (GoObject ms) \<longleftrightarrow> (\<forall>(k, v)\<in>set ms. plain v)"
| "plain v \<longleftrightarrow> True"

definition parsable :: "(string \<Rightarrow> string) \<Rightarrow> limits \<Rightarrow> nat \<Rightarrow> go_value \<Rightarrow> bool" where
  "parsable q lim k v \<longleftrightarrow>
     supported v \<and> plain v \<and> go_maps v \<and> json_depth v \<le> k \<and> scalars_within q (lm_MaxScalarBytes lim) v"

definition preceded :: "string \<Rightarrow> char option \<Rightarrow> bool" where
  "preceded pre d \<longleftrightarrow> (case d of None \<Rightarrow> pre = [] | Some x \<Rightarrow> pre = [x] \<and> \<not> is_space x)"

definition parses :: "(string \<Rightarrow> string) \<Rightarrow> limits \<Rightarrow> nat \<Rightarrow> value_parser \<Rightarrow> go_value \<Rightarrow> bool" where
  "parses q lim srclen f v \<longleftrightarrow>
     (\<forall>pre d ptr n r. preceded pre d \<longrightarrow> json_delim r \<longrightarrow> length (pre @ encq q v @ r) \<le> srclen \<longrightarrow>
        int (n + json_nodes v) \<le> lm_MaxNodes lim \<longrightarrow>
        (\<exists>w. f ptr d (pre @ encq q v @ r, n) = Inr (w, (r, n + json_nodes v)) \<and> Any w = v))"

lemma parsesD:
  "parses q lim srclen f v \<Longrightarrow> preceded pre d \<Longrightarrow> json_delim r \<Longrightarrow> length (pre @ encq q v @ r) \<le> srclen \<Longrightarrow>
    int (n + json_nodes v) \<le> lm_MaxNodes lim \<Longrightarrow>
    \<exists>w. f ptr d (pre @ encq q v @ r, n) = Inr (w, (r, n + json_nodes v)) \<and> Any w = v"
  by (auto simp: parses_def)

lemma sep_delim: "json_delim (sep (Suc i) xs @ '']'' @ r)" "json_delim (sep (Suc i) xs @ ''}'' @ r)"
  by (cases xs; simp add: sep_def json_delim_def)+

definition comma_if :: "nat \<Rightarrow> string" where "comma_if i = (if i = 0 then [] else '','')"

lemma sep_Cons: "sep i (x # xs) = comma_if i @ x @ sep (Suc i) xs"
  by (simp add: sep_def comma_if_def comma_join_Cons)

lemma preceded_comma: "preceded (comma_if i) (if i = 0 then None else Some CHR '','')"
  by (simp add: preceded_def comma_if_def is_space_def)

lemma comma_start:
  assumes "value_start c"
  shows "\<exists>c' t'. comma_if i @ c # t = c' # t' \<and> \<not> is_space c' \<and> c' \<noteq> CHR '']'' \<and> c' \<noteq> CHR ''}''"
  using assms by (auto simp: comma_if_def value_start_def is_space_def)

definition member_enc :: "(string \<Rightarrow> string) \<Rightarrow> string \<times> go_value \<Rightarrow> string" where
  "member_enc q m = q (fst m) @ '':'' @ encq q (snd m)"

lemma quote_start: "value_start (char_of (34::nat))"
  by code_simp

lemma enc_object: "encq q (GoObject ms) = ''{'' @ sep 0 (map (member_enc q) ms) @ ''}''"
proof -
  have "member_enc q = (\<lambda>(k, v). q k @ '':'' @ encq q v)" by (auto simp: fun_eq_iff member_enc_def)
  then show ?thesis by (simp add: sep_def)
qed

lemma enc_array: "encq q (GoArray vs) = ''['' @ sep 0 (map (encq q) vs) @ '']''"
  by (simp add: sep_def)

lemma token_chars:
  "\<not> is_digit CHR ''[''" "\<not> is_digit CHR ''{''" "char_of (34::nat) \<noteq> CHR ''n''" "char_of (34::nat) \<noteq> CHR ''t''"
  "char_of (34::nat) \<noteq> CHR ''f''"
  by code_simp+

lemma addNode_ok: "int (Suc n) \<le> lm_MaxNodes lim \<Longrightarrow> addNode lim p s n = Inr (Suc n)"
  by (simp add: addNode_def)

lemma parsable_parts:
  "parsable q lim (Suc k) (GoArray vs) \<Longrightarrow> v \<in> set vs \<Longrightarrow> parsable q lim k v"
  "parsable q lim (Suc k) (GoObject ms) \<Longrightarrow> (key, v) \<in> set ms \<Longrightarrow>
     parsable q lim k v \<and> validIJSONString key \<and> int (length (q key)) \<le> lm_MaxScalarBytes lim"
  by (auto simp: parsable_def json_depth_le simp del: json_depth.simps)

text \<open>
  What the decoder asks of the encoder's quotation: it starts with a quote and the string lexer
  reads the string back and stops behind it.
\<close>

locale json_quoting =
  fixes q :: "string \<Rightarrow> string"
  assumes opens: "\<exists>t. q s = char_of (34::nat) # t"
    and lexed: "validIJSONString s \<Longrightarrow> q s = char_of (34::nat) # t \<Longrightarrow> lex_string (t @ r) = Some (s, r)"
begin

lemma enc_start: "\<exists>c t. encq q v = c # t \<and> value_start c"
proof -
  have nat: "\<exists>c t. nat_string n = c # t \<and> value_start c" for n
    using nat_string_digits [of n] value_start_digit by (cases "nat_string n") auto
  have quote: "value_start (char_of (34::nat))" by code_simp
  have "value_start CHR ''n''" "value_start CHR ''t''" "value_start CHR ''f''" "value_start CHR ''-''"
    "value_start CHR ''[''" "value_start CHR ''{''" by code_simp+
  with nat quote show ?thesis using opens by (cases v) (auto simp: int_string_def, metis)
qed

lemma parseArray_enc:
  assumes "\<forall>v\<in>set vs. parses q lim srclen f v"
  shows "int (n + sum_list (map json_nodes vs)) \<le> lm_MaxNodes lim \<Longrightarrow>
    length (sep i (map (encq q) vs) @ '']'' @ r) \<le> srclen \<Longrightarrow>
    \<exists>ws. parseArray f ptr i (sep i (map (encq q) vs) @ '']'' @ r, n) = Inr (ws, (r, n + sum_list (map json_nodes vs))) \<and>
      map Any ws = vs"
  using assms
proof (induction vs arbitrary: i n)
  case Nil
  have "skip_space (CHR '']'' # r) = CHR '']'' # r" by (simp add: skip_space_id is_space_def)
  then show ?case by (subst parseArray.simps) (simp add: sep_def)
next
  case (Cons v vs)
  let ?r = "sep (Suc i) (map (encq q) vs) @ '']'' @ r"
  have rest: "sep i (map (encq q) (v # vs)) @ '']'' @ r = comma_if i @ encq q v @ ?r" by (simp add: sep_Cons)
  obtain c t where c: "encq q v = c # t" "value_start c" using enc_start by blast
  obtain c' t' where c': "comma_if i @ encq q v @ ?r = c' # t'" "\<not> is_space c'" "c' \<noteq> CHR '']''"
    using comma_start [OF c(2), of i "t @ ?r"] c(1) by auto
  obtain w where w: "f (appendPointer ptr (nat_string i)) (if i = 0 then None else Some CHR '','') (comma_if i @ encq q v @ ?r, n) =
      Inr (w, (?r, n + json_nodes v))" "Any w = v"
    using parsesD [OF _ preceded_comma sep_delim(1), of q lim srclen f v i i "map (encq q) vs" r n]
      Cons.prems rest by fastforce
  have "length ?r \<le> srclen" using Cons.prems(2) unfolding rest by simp
  then obtain ws where ws: "parseArray f ptr (Suc i) (?r, n + json_nodes v) =
      Inr (ws, (r, n + json_nodes v + sum_list (map json_nodes vs)))" "map Any ws = vs"
    using Cons.IH [of "n + json_nodes v" "Suc i"] Cons.prems by auto
  have "length ?r < length (comma_if i @ encq q v @ ?r)" using c by simp
  then have "length ?r < length (c' # t')" unfolding c'(1) .
  then have "parseArray f ptr i (comma_if i @ encq q v @ ?r, n) =
      Inr (w # ws, (r, n + json_nodes v + sum_list (map json_nodes vs)))"
    using w(1) ws(1) c' by (subst parseArray.simps) (simp add: skip_space_id)
  with w ws show ?case unfolding rest by simp
qed

lemma parseKey_enc:
  assumes "int (length (q k)) \<le> lm_MaxScalarBytes lim" "int (Suc n) \<le> lm_MaxNodes lim" "k \<notin> set seen"
    and "length (pre @ q k @ s) \<le> srclen" "preceded pre (if seen = [] then None else Some CHR '','')" "validIJSONString k"
  shows "parseKey lim srclen ptr seen (pre @ q k @ s, n) = Inr (k, (s, Suc n))"
proof -
  obtain t where t: "q k = char_of (34::nat) # t" using opens by blast
  have tok: "to_token (if seen = [] then None else Some CHR '','') (pre @ q k @ s) = Some (q k @ s)"
    using to_token_value [OF quote_start, where d = "if seen = [] then None else Some CHR '',''" and pre = pre] assms(5)
    unfolding preceded_def t by simp
  have "int (srclen - length s) - int (srclen - length (q k @ s)) = int (length (q k))"
    using assms(4) by simp
  then show ?thesis
    using assms(1-3) tok lexed [OF assms(6) t]
    by (simp add: parseKey_def scalar_too_large_def t of_char_of addNode_def Let_def)
qed

lemma parseObject_enc:
  assumes "\<forall>(k, v)\<in>set ms. parses q lim srclen f v \<and> validIJSONString k \<and> int (length (q k)) \<le> lm_MaxScalarBytes lim"
    and "distinct (map fst ms)" "set seen \<inter> fst ` set ms = {}" "i = 0 \<longleftrightarrow> seen = []"
  shows "int (n + sum_list (map (\<lambda>(k, v). Suc (json_nodes v)) ms)) \<le> lm_MaxNodes lim \<Longrightarrow>
    length (sep i (map (member_enc q) ms) @ ''}'' @ r) \<le> srclen \<Longrightarrow>
    \<exists>ws. parseObject lim srclen f ptr seen (sep i (map (member_enc q) ms) @ ''}'' @ r, n) =
        Inr (ws, (r, n + sum_list (map (\<lambda>(k, v). Suc (json_nodes v)) ms))) \<and>
      map (\<lambda>(k, v). (k, Any v)) ws = ms"
  using assms
proof (induction ms arbitrary: i n seen)
  case Nil
  have "skip_space (CHR ''}'' # r) = CHR ''}'' # r" by (simp add: skip_space_id is_space_def)
  then show ?case by (subst parseObject.simps) (simp add: sep_def)
next
  case (Cons m ms)
  obtain k v where m: "m = (k, v)" by force
  let ?r = "sep (Suc i) (map (member_enc q) ms) @ ''}'' @ r"
  let ?s = "'':'' @ encq q v @ ?r"
  have rest: "sep i (map (member_enc q) (m # ms)) @ ''}'' @ r = comma_if i @ q k @ ?s"
    by (simp add: sep_Cons m member_enc_def)
  obtain c' t' where c': "comma_if i @ q k @ ?s = c' # t'" "\<not> is_space c'" "c' \<noteq> CHR ''}''"
    using comma_start [OF quote_start, of i] opens [of k] by (metis append_Cons)
  have bound: "length (comma_if i @ q k @ ?s) \<le> srclen" using Cons.prems(2) unfolding rest .
  have pre: "preceded (comma_if i) (if seen = [] then None else Some CHR '','')"
    using preceded_comma [of i] Cons.prems(6) by simp
  have key: "parseKey lim srclen ptr seen (comma_if i @ q k @ ?s, n) = Inr (k, (?s, Suc n))"
    by (rule parseKey_enc [OF _ _ _ bound pre]) (use Cons.prems m in auto)
  obtain w where w: "f (appendPointer ptr k) (Some CHR '':'') (?s, Suc n) = Inr (w, (?r, Suc n + json_nodes v))" "Any w = v"
    using parsesD [OF _ _ sep_delim(2), of q lim srclen f v "'':''" "Some CHR '':''" i "map (member_enc q) ms" r "Suc n"]
      Cons.prems(1,3) bound m by (fastforce simp: preceded_def is_space_def)
  obtain ws where ws: "parseObject lim srclen f ptr (k # seen) (?r, Suc n + json_nodes v) =
      Inr (ws, (r, Suc n + json_nodes v + sum_list (map (\<lambda>(k, v). Suc (json_nodes v)) ms)))"
    "map (\<lambda>(k, v). (k, Any v)) ws = ms"
    using Cons.IH [of "Suc n + json_nodes v" "Suc i" "k # seen"] Cons.prems bound m by auto
  have "length ?r < length (c' # t')" unfolding c'(1) [symmetric] by simp
  then have "parseObject lim srclen f ptr seen (comma_if i @ q k @ ?s, n) =
      Inr ((k, w) # ws, (r, Suc n + json_nodes v + sum_list (map (\<lambda>(k, v). Suc (json_nodes v)) ms)))"
    using key w(1) ws(1) c' by (subst parseObject.simps) (simp add: skip_space_id)
  with w ws show ?case unfolding rest by (simp add: m)
qed

text \<open>A parser that is left \<open>k\<close> levels reads the encoding of every value of at most that depth.\<close>

lemma to_token_enc:
  assumes "preceded pre d"
  shows "to_token d (pre @ encq q v @ r) = Some (encq q v @ r)"
proof -
  obtain c t where c: "encq q v = c # t" "value_start c" using enc_start by blast
  with to_token_value [OF c(2), where d = d and pre = pre and t = "t @ r"] assms show ?thesis
    by (simp add: preceded_def)
qed

lemma parseValue_scalar:
  assumes "\<And>vs. v \<noteq> GoArray vs" "\<And>ms. v \<noteq> GoObject ms" "parsable q lim (Suc k) v"
  shows "parses q lim srclen (parseValue lim srclen (Suc k)) v"
  unfolding parses_def
proof (intro allI impI)
  fix pre d ptr n r
  assume p: "preceded pre d" "json_delim r" "length (pre @ encq q v @ r) \<le> srclen" "int (n + json_nodes v) \<le> lm_MaxNodes lim"
  have ok: "supported v" "plain v" "scalars_within q (lm_MaxScalarBytes lim) v" using assms(3) by (simp_all add: parsable_def)
  have node: "int (Suc n) \<le> lm_MaxNodes lim" "json_nodes v = 1" using assms(1,2) p(4) by (cases v; simp)+
  show "\<exists>w. parseValue lim srclen (Suc k) ptr d (pre @ encq q v @ r, n) = Inr (w, (r, n + json_nodes v)) \<and> Any w = v"
  proof (cases v)
    case (GoInt i)
    obtain c t where c: "int_string i = c # t" "c = CHR ''-'' \<or> is_digit c"
      using nat_string_digits [of "nat i"] by (cases "i < 0"; cases "nat_string (nat i)") (auto simp: int_string_def)
    then have "c \<notin> {CHR ''n'', CHR ''t'', CHR ''f''}" "byte c \<noteq> 34" by (auto simp: is_digit_iff)
    with c lex_number_int [OF p(2), of i] ok(1) node to_token_enc [OF p(1), of v r] parseInteger_int_string [of i]
    show ?thesis by (simp add: parseValue.simps GoInt Let_def addNode_ok)
  next
    case (GoString s)
    have "int (srclen - length r) - int (srclen - length (q s @ r)) = int (length (q s))"
      using p(3) GoString by simp
    obtain t where t: "q s = char_of (34::nat) # t" using opens by blast
    have "lex_string (t @ r) = Some (s, r)" using ok(1) GoString lexed [OF _ t] by simp
    moreover note \<open>int (srclen - length r) - int (srclen - length (q s @ r)) = int (length (q s))\<close>
    ultimately show ?thesis using ok(3) node to_token_enc [OF p(1), of v r]
      by (simp add: parseValue.simps scalar_too_large_def GoString t of_char_of Let_def addNode_ok token_chars)
  qed (use assms ok node to_token_enc [OF p(1), of v r] in \<open>auto simp: parseValue.simps Let_def addNode_ok literal_def\<close>)
qed

lemma parseValue_enc: "parsable q lim k v \<Longrightarrow> parses q lim srclen (parseValue lim srclen k) v"
proof (induction k arbitrary: v)
  case 0
  then show ?case using json_depth_pos [of v] by (simp add: parsable_def)
next
  case (Suc k)
  let ?f = "parseValue lim srclen k"
  show ?case
  proof (cases v)
    case (GoArray vs)
    have inner: "\<forall>v\<in>set vs. parses q lim srclen ?f v" using Suc parsable_parts(1) GoArray by blast
    show ?thesis
      unfolding parses_def
    proof (intro allI impI)
      fix pre d ptr n r
      assume p: "preceded pre d" "json_delim r" "length (pre @ encq q v @ r) \<le> srclen" "int (n + json_nodes v) \<le> lm_MaxNodes lim"
      obtain ws where "parseArray ?f ptr 0 (sep 0 (map (encq q) vs) @ '']'' @ r, Suc n) =
          Inr (ws, (r, Suc n + sum_list (map json_nodes vs)))" "map Any ws = vs"
        using parseArray_enc [OF inner, of "Suc n" 0 r ptr] p(3,4) unfolding GoArray enc_array by auto
      with to_token_enc [OF p(1), of v r] p(4)
      show "\<exists>w. parseValue lim srclen (Suc k) ptr d (pre @ encq q v @ r, n) = Inr (w, (r, n + json_nodes v)) \<and> Any w = v"
        unfolding GoArray enc_array by (simp add: parseValue.simps Let_def addNode_ok token_chars)
    qed
  next
    case (GoObject ms)
    have inner: "\<forall>(key, v)\<in>set ms. parses q lim srclen ?f v \<and> validIJSONString key \<and> int (length (q key)) \<le> lm_MaxScalarBytes lim"
      using Suc parsable_parts(2) GoObject by blast
    have keys: "distinct (map fst ms)" using Suc.prems GoObject by (simp add: parsable_def)
    show ?thesis
      unfolding parses_def
    proof (intro allI impI)
      fix pre d ptr n r
      assume p: "preceded pre d" "json_delim r" "length (pre @ encq q v @ r) \<le> srclen" "int (n + json_nodes v) \<le> lm_MaxNodes lim"
      obtain ws where "parseObject lim srclen ?f ptr [] (sep 0 (map (member_enc q) ms) @ ''}'' @ r, Suc n) =
          Inr (ws, (r, Suc n + sum_list (map (\<lambda>(k, v). Suc (json_nodes v)) ms)))" "map (\<lambda>(k, v). (k, Any v)) ws = ms"
        using parseObject_enc [OF inner keys, of "[]" 0 "Suc n" r ptr] p(3,4) unfolding GoObject enc_object by auto
      with to_token_enc [OF p(1), of v r] p(4)
      show "\<exists>w. parseValue lim srclen (Suc k) ptr d (pre @ encq q v @ r, n) = Inr (w, (r, n + json_nodes v)) \<and> Any w = v"
        unfolding GoObject enc_object by (simp add: parseValue.simps Let_def addNode_ok token_chars)
    qed
  qed (use Suc.prems in \<open>auto intro!: parseValue_scalar\<close>)
qed

end

interpretation jcs: json_quoting json_quote
  by unfold_locales (auto simp: json_quote_Cons)

section \<open>Canonical bytes are a faithful encoding\<close>

lemma insert_member_nonempty [simp]: "sort_members ms = [] \<longleftrightarrow> ms = []"
  by (metis set_empty set_sort_members)

lemma sum_list_insert: "sum_list (map g (insert_member m xs)) = (g m :: nat) + sum_list (map g xs)"
  by (induction xs) simp_all

lemma sum_list_sort_members [simp]: "sum_list (map (g :: _ \<Rightarrow> nat) (sort_members ms)) = sum_list (map g ms)"
  by (induction ms) (simp_all add: sort_members_def sum_list_insert)

lemma mset_sort_members [simp]: "mset (sort_members ms) = mset ms"
  by (simp add: sort_members_key)

lemma distinct_sort_members [simp]: "distinct (map fst (sort_members ms)) = distinct (map fst ms)"
  by (metis mset_sort_members mset_map mset_eq_imp_distinct_iff)

lemma canon_invariants:
  "supported (canon v) \<longleftrightarrow> supported v" "go_maps (canon v) \<longleftrightarrow> go_maps v" "supported v \<Longrightarrow> plain (canon v)"
  by (induction v rule: canon.induct; force simp: comp_def case_prod_beta simp flip: map_sort_members)+

lemma canon_measures:
  "json_depth (canon v) = json_depth v" "json_nodes (canon v) = json_nodes v"
  "scalars_within q n (canon v) \<longleftrightarrow> scalars_within q n v"
proof -
  have le: "json_depth (canon v) \<le> k \<longleftrightarrow> json_depth v \<le> k" for k
  proof (induction v arbitrary: k rule: canon.induct)
    case (2 vs)
    then show ?case by (cases k) (simp_all add: json_depth_le del: json_depth.simps(1,2), simp)
  next
    case (3 ms)
    then show ?case by (cases k) (auto simp: json_depth_le canon_object simp del: json_depth.simps(1,2) canon.simps(3), auto)
  qed simp_all
  show "json_depth (canon v) = json_depth v" using le [of "json_depth v"] le [of "json_depth (canon v)"] by simp
  show "json_nodes (canon v) = json_nodes v"
  proof (induction v rule: canon.induct)
    case (2 vs)
    then have "map (json_nodes \<circ> canon) vs = map json_nodes vs" by simp
    then show ?case by (simp only: canon.simps json_nodes.simps map_map)
  next
    case (3 ms)
    then have "map ((\<lambda>(k, v). Suc (json_nodes v)) \<circ> (\<lambda>(k, v). (k, canon v))) ms = map (\<lambda>(k, v). Suc (json_nodes v)) ms"
      by auto
    then show ?case by (simp only: canon.simps json_nodes.simps sum_list_sort_members map_map)
  qed simp_all
  show "scalars_within q n (canon v) \<longleftrightarrow> scalars_within q n v"
    by (induction v rule: canon.induct) (auto simp: canon_object simp del: canon.simps(3))
qed

lemma parsable_canon:
  "parsable json_quote lim k (canon v) \<longleftrightarrow>
     supported v \<and> go_maps v \<and> json_depth v \<le> k \<and> scalars_within json_quote (lm_MaxScalarBytes lim) v"
  using canon_invariants(3) by (auto simp: parsable_def canon_measures canon_invariants)

section \<open>Canonical bytes are valid UTF-8\<close>

lemma json_escape_high: "128 \<le> byte c \<Longrightarrow> json_escape c = [c]"
  by (auto simp: json_escape_def)

lemma hex_digit_ascii: "n < 16 \<Longrightarrow> byte (hex_digit n) < 128"
  by (auto simp: hex_digit_def digit_char_def of_char_of take_bit_eq_mod)

lemma json_escape_ascii: "byte c < 128 \<Longrightarrow> \<forall>x\<in>set (json_escape c). byte x < 128"
proof -
  assume c: "byte c < 128"
  show ?thesis
  proof (cases "byte c < 32")
    case True
    then have "byte c div 16 < 16" "byte c mod 16 < 16" by auto
    with c show ?thesis by (auto simp: json_escape_def of_char_of intro!: hex_digit_ascii)
  qed (use c in \<open>auto simp: json_escape_def of_char_of\<close>)
qed

lemma utf8_valid_escape: "utf8_valid s \<Longrightarrow> utf8_valid (concat (map json_escape s))"
proof (induction s rule: length_induct)
  case (1 s)
  show ?case
  proof (cases s)
    case Nil
    then show ?thesis by (simp add: utf8_valid_def)
  next
    case (Cons a s')
    then obtain rs where dec: "utf8_decode (a # s') = Some rs" using "1.prems" by (auto simp: utf8_valid_def)
    obtain r rs' t where "rs = r # rs'" and step: "a # s' = utf8_encode r @ t" "utf8_decode t = Some rs'"
      and "r < 1114112" and len: "length t \<le> length s'"
      and more: "\<And>t' us. utf8_decode t' = Some us \<Longrightarrow> utf8_decode (utf8_encode r @ t') = Some (r # us)"
      and high: "r < 128 \<or> (\<forall>c\<in>set (utf8_encode r). 128 \<le> byte c)"
      by (rule utf8_decode_step [OF dec]) (rule that; assumption)
    have "utf8_valid (concat (map json_escape t))"
      by (rule "1.IH" [rule_format]) (use step(2) len Cons in \<open>simp_all add: utf8_valid_def\<close>)
    moreover have "utf8_valid (concat (map json_escape (utf8_encode r)))"
    proof (cases "r < 128")
      case True
      then have "\<forall>x\<in>set (json_escape (char_of r)). byte x < 128"
        by (intro json_escape_ascii) (simp add: of_char_of take_bit_eq_mod)
      with True show ?thesis by (simp add: utf8_encode_def utf8_valid_ascii)
    next
      case False
      with high have "map json_escape (utf8_encode r) = map (\<lambda>c. [c]) (utf8_encode r)"
        by (auto intro: json_escape_high)
      then have "concat (map json_escape (utf8_encode r)) = utf8_encode r" by (simp only: concat_map_singleton map_ident)
      moreover have "utf8_valid (utf8_encode r)" using more [of "[]"] by (simp add: utf8_valid_def)
      ultimately show ?thesis by simp
    qed
    ultimately show ?thesis using step(1) Cons utf8_valid_append by simp
  qed
qed

lemma validIJSON_utf8: "validIJSONString s \<Longrightarrow> utf8_valid s"
  by (auto simp: validIJSONString_def utf8_valid_def split: option.splits)

lemma utf8_valid_quote: "validIJSONString s \<Longrightarrow> utf8_valid (json_quote s)"
  unfolding json_quote_def
  by (intro utf8_valid_append utf8_valid_escape validIJSON_utf8 utf8_valid_ascii) (simp_all add: of_char_of)

lemma utf8_valid_join: "\<forall>x\<in>set xs. utf8_valid x \<Longrightarrow> utf8_valid (comma_join xs)"
proof (induction xs rule: comma_join.induct)
  case (3 x y ys)
  then show ?case by (simp add: utf8_valid_append utf8_valid_append [of "'',''", simplified] utf8_valid_ascii)
qed (simp_all add: utf8_valid_ascii)

lemma utf8_valid_encq:
  assumes quote: "\<And>s. validIJSONString s \<Longrightarrow> utf8_valid (q s)"
  shows "supported v \<Longrightarrow> utf8_valid (encq q v)"
proof (induction v rule: supported.induct)
  case (1 i)
  have "\<forall>c\<in>set (nat_string n). byte c < 128" for n using nat_string_digits [of n] by (auto simp: list_all_iff is_digit_iff)
  then show ?case by (auto simp: int_string_def intro!: utf8_valid_ascii)
next
  case (2 n)
  have "\<forall>c\<in>set (nat_string n). byte c < 128" using nat_string_digits [of n] by (auto simp: list_all_iff is_digit_iff)
  then show ?case by (simp add: utf8_valid_ascii)
next
  case (3 s)
  then show ?case by (simp add: quote)
next
  case (4 vs)
  then have "utf8_valid (comma_join (map (encq q) vs))" by (intro utf8_valid_join) auto
  then show ?case unfolding encq.simps by (intro utf8_valid_append) (simp_all add: utf8_valid_ascii)
next
  case (5 ms)
  have "utf8_valid (q k @ '':'' @ encq q v)" if "(k, v) \<in> set ms" for k v
  proof -
    have "utf8_valid (encq q v)" "validIJSONString k" using 5 that by auto
    then show ?thesis by (intro utf8_valid_append quote) (simp_all add: utf8_valid_ascii)
  qed
  then have "utf8_valid (comma_join (map (\<lambda>(k, v). q k @ '':'' @ encq q v) ms))" by (intro utf8_valid_join) auto
  then show ?case unfolding encq.simps by (intro utf8_valid_append) (simp_all add: utf8_valid_ascii)
qed (auto intro!: utf8_valid_ascii)

lemmas utf8_valid_enc = utf8_valid_encq [of json_quote, OF utf8_valid_quote]

section \<open>Round trip\<close>

lemma parse_canonical:
  assumes "parsable json_quote lim k (canon v)" "int (json_nodes v) \<le> lm_MaxNodes lim"
  shows "\<exists>w. parseValue lim (length (enc (canon v))) k [] None (enc (canon v), 0) = Inr (w, ([], json_nodes v)) \<and> Any w = canon v"
  using parsesD [OF jcs.parseValue_enc [OF assms(1)], of "[]" None "[]" "length (enc (canon v))" 0 "[]"] assms(2)
  by (simp add: preceded_def json_delim_def canon_measures)

definition within_limits :: "limits \<Rightarrow> go_value \<Rightarrow> bool" where
  "within_limits lim v \<longleftrightarrow>
     int (json_depth v) \<le> lm_MaxDepth lim \<and> int (json_nodes v) \<le> lm_MaxNodes lim \<and>
     scalars_within json_quote (lm_MaxScalarBytes lim) v"

lemma ParseJSON_canonical:
  assumes "Marshal v = Inr s" "go_maps v" "within_limits (normalizedLimits lim) v"
    and "int (length s) \<le> lm_MaxBytes (normalizedLimits lim)"
  shows "\<exists>d. ParseJSON (Inr s) lim = Inr d \<and> Any d = canon v"
proof -
  let ?l = "normalizedLimits lim"
  have ok: "supported v" using assms(1) Marshal_ok_iff by (metis isOk_simps(1))
  with assms(1) have s: "s = enc (canon v)" by (simp add: Marshal_enc)
  have "json_depth v \<le> nat (lm_MaxDepth ?l)" using assms(3) unfolding within_limits_def by linarith
  then have "parsable json_quote ?l (nat (lm_MaxDepth ?l)) (canon v)"
    using ok assms(2,3) by (simp add: parsable_canon within_limits_def)
  then obtain w where "parseValue ?l (length s) (nat (lm_MaxDepth ?l)) [] None (s, 0) = Inr (w, ([], json_nodes v))"
    "Any w = canon v"
    using parse_canonical assms(3) unfolding s within_limits_def by blast
  moreover have "utf8_valid s" unfolding s using ok canon_invariants(1) utf8_valid_enc by blast
  ultimately show ?thesis using assms(4) by (simp add: ParseJSON_def readBounded_def Let_def skip_space_def)
qed

lemma sort_members_idem [simp]: "sort_members (sort_members ms) = sort_members ms"
  unfolding sort_members_key by (rule properties_for_sort_key) simp_all

lemma canon_idem: "canon (canon v) = canon v"
proof (induction v rule: canon.induct)
  case (3 ms)
  then have "map (\<lambda>(k, v). (k, canon v)) (map (\<lambda>(k, v). (k, canon v)) ms) = map (\<lambda>(k, v). (k, canon v)) ms" by auto
  then show ?case by (simp only: canon.simps map_sort_members sort_members_idem)
qed simp_all

lemma scalars_within_mono: "scalars_within q m v \<Longrightarrow> m \<le> n \<Longrightarrow> scalars_within q n v"
  by (induction q m v rule: scalars_within.induct) fastforce+

lemma scalars_within_ex: "\<exists>m. scalars_within q m v \<and> scalars_within q m w"
proof -
  have common: "\<exists>m. \<forall>x\<in>set xs. scalars_within q m (f x)" if "\<forall>x\<in>set xs. \<exists>m. scalars_within q m (f x)"
    for xs :: "'b list" and f :: "'b \<Rightarrow> go_value"
    using that
  proof (induction xs)
    case (Cons x xs)
    then obtain m n where "scalars_within q m (f x)" "\<forall>x\<in>set xs. scalars_within q n (f x)" by auto
    then have "\<forall>y\<in>set (x # xs). scalars_within q (max m n) (f y)" by (auto intro: scalars_within_mono)
    then show ?case by blast
  qed simp
  have one: "\<exists>m. scalars_within q m u" for u
  proof (induction u rule: canon.induct)
    case (2 vs)
    then show ?case using common [of vs id] by simp
  next
    case (3 ms)
    then obtain m where m: "\<forall>x\<in>set ms. scalars_within q m (snd x)" using common [of ms snd] by fastforce
    define n where "n = int (sum_list (map (\<lambda>(k, v). length (q k)) ms))"
    have "int (length (q k)) \<le> n" if "(k, v) \<in> set ms" for k v
      using that member_le_sum_list [of "length (q k)" "map (\<lambda>(k, v). length (q k)) ms"]
      by (force simp: n_def)
    with m have "scalars_within q (max m n) (GoObject ms)" by (force intro: scalars_within_mono)
    then show ?case by blast
  qed auto
  from one [of v] one [of w] obtain m n where "scalars_within q m v" "scalars_within q n w" by blast
  then have "scalars_within q (max m n) v \<and> scalars_within q (max m n) w" by (auto intro: scalars_within_mono)
  then show ?thesis by blast
qed

text \<open>
  C18: canonical bytes are read back.  Within the parser's limits, \<open>ParseJSON\<close> accepts the bytes
  \<open>Marshal\<close> writes and returns the marshalled value with its members in canonical order.
\<close>

theorem ParseJSON_Marshal:
  assumes "Marshal v = Inr s" "go_maps v" "within_limits (normalizedLimits lim) v"
    and "int (length s) \<le> lm_MaxBytes (normalizedLimits lim)"
  shows "\<exists>d. ParseJSON (Inr s) lim = Inr d \<and> Any d = canon v \<and> Marshal (Any d) = Inr s"
proof -
  from ParseJSON_canonical [OF assms] obtain d where d: "ParseJSON (Inr s) lim = Inr d" "Any d = canon v" by blast
  have ok: "supported v" using assms(1) Marshal_ok_iff by (metis isOk_simps(1))
  with assms(1) canon_idem [of v] canon_invariants(1) [of v] have "Marshal (canon v) = Inr s" by (simp add: Marshal_enc)
  with d show ?thesis by auto
qed

definition sample_value :: go_value where
  "sample_value = GoObject [(''b'', GoArray [GoInt (- 5), GoNull]), (''a'', GoString [CHR ''x'', char_of (34::nat)])]"

theorem ParseJSON_Marshal_witness:
  "\<exists>s d. Marshal sample_value = Inr s \<and> ParseJSON (Inr s) DefaultLimits = Inr d \<and> Any d = canon sample_value"
proof -
  obtain s where s: "Marshal sample_value = Inr s" "length s < 100"
  proof -
    have "case Marshal sample_value of Inl _ \<Rightarrow> False | Inr s \<Rightarrow> length s < 100" by code_simp
    with that show thesis by (cases "Marshal sample_value") auto
  qed
  have lim: "go_maps sample_value" "within_limits (normalizedLimits DefaultLimits) sample_value"
    "100 < lm_MaxBytes (normalizedLimits DefaultLimits)" by code_simp+
  with s have "int (length s) \<le> lm_MaxBytes (normalizedLimits DefaultLimits)" by simp
  from ParseJSON_Marshal [OF s(1) lim(1,2) this] s(1) show ?thesis by blast
qed

lemma Marshal_canon_inj:
  assumes "go_maps v" "go_maps w" "isOk (Marshal v)" "Marshal v = Marshal w"
  shows "canon v = canon w"
proof -
  from assms(3,4) have ok: "supported v" "supported w" using Marshal_ok_iff by metis+
  define k where "k = max (json_depth v) (json_depth w)"
  define len where "len = int (length (enc (canon v)))"
  have same: "enc (canon v) = enc (canon w)" using assms(4) ok by (simp add: Marshal_enc)
  obtain m where m: "scalars_within json_quote m v" "scalars_within json_quote m w" using scalars_within_ex by blast
  let ?l = "\<lparr>lm_MaxBytes = 0, lm_MaxDepth = 0, lm_MaxNodes = int (json_nodes v + json_nodes w), lm_MaxScalarBytes = m\<rparr>"
  have "parsable json_quote ?l k (canon v)" "parsable json_quote ?l k (canon w)"
    using ok assms(1,2) m by (simp_all add: parsable_canon k_def)
  from parse_canonical [OF this(1)] parse_canonical [OF this(2)] show "canon v = canon w" unfolding same by auto
qed

text \<open>
  C19: the canonical encoding is faithful.  Two values have the same bytes exactly when they are
  the same JSON value, that is, up to the order of members and the Go type of an integer.
\<close>

theorem Marshal_faithful:
  assumes "go_maps v" "go_maps w" "isOk (Marshal v)"
  shows "Marshal v = Marshal w \<longleftrightarrow> canon v = canon w"
proof
  assume "canon v = canon w"
  with assms(3) canon_invariants(1) [of v] canon_invariants(1) [of w] show "Marshal v = Marshal w"
    by (simp add: Marshal_ok_iff Marshal_enc)
qed (rule Marshal_canon_inj [OF assms])

theorem Marshal_faithful_witness:
  "canon sample_value = canon (GoObject [(''a'', GoString [CHR ''x'', char_of (34::nat)]), (''b'', GoArray [GoInt (- 5), GoNull])])"
proof -
  let ?w = "GoObject [(''a'', GoString [CHR ''x'', char_of (34::nat)]), (''b'', GoArray [GoInt (- 5), GoNull])]"
  have "go_maps sample_value" "go_maps ?w" "isOk (Marshal sample_value)" "Marshal sample_value = Marshal ?w" by code_simp+
  then show ?thesis using Marshal_faithful by blast
qed

section \<open>What the parser accepts\<close>

fun safe_integers :: "go_value \<Rightarrow> bool" where
  "safe_integers (GoInt i) \<longleftrightarrow> - maxSafeInteger \<le> i \<and> i \<le> maxSafeInteger"
| "safe_integers (GoArray vs) \<longleftrightarrow> (\<forall>v\<in>set vs. safe_integers v)"
| "safe_integers (GoObject ms) \<longleftrightarrow> (\<forall>(k, v)\<in>set ms. safe_integers v)"
| "safe_integers v \<longleftrightarrow> True"

text \<open>A value read from the state \<open>s\<close> that leaves the state \<open>s'\<close>.\<close>

definition read_ok :: "limits \<Rightarrow> nat \<Rightarrow> doc_value \<Rightarrow> bool" where
  "read_ok lim k w \<longleftrightarrow>
     json_depth (Any w) \<le> k \<and> go_maps (Any w) \<and> plain (Any w) \<and> safe_integers (Any w)"

definition reads :: "limits \<Rightarrow> nat \<Rightarrow> value_parser \<Rightarrow> bool" where
  "reads lim k f \<longleftrightarrow>
     (\<forall>ptr d s w s'. f ptr d s = Inr (w, s') \<longrightarrow>
        length (fst s') < length (fst s) \<and> snd s' = snd s + json_nodes (Any w) \<and>
        int (snd s') \<le> lm_MaxNodes lim \<and> read_ok lim k w)"

lemma readsD:
  "reads lim k f \<Longrightarrow> f ptr d s = Inr (w, s') \<Longrightarrow>
    length (fst s') < length (fst s) \<and> snd s' = snd s + json_nodes (Any w) \<and>
    int (snd s') \<le> lm_MaxNodes lim \<and> read_ok lim k w"
  unfolding reads_def by blast

lemma tl_skip_space: "skip_space s \<noteq> [] \<Longrightarrow> length (tl (skip_space s)) < length s"
  using skip_space_length [of s] by (cases "skip_space s") auto

lemma parseArray_reads:
  "reads lim k f \<Longrightarrow> parseArray f ptr i s = Inr (ws, s') \<Longrightarrow> int (snd s) \<le> lm_MaxNodes lim \<Longrightarrow>
    length (fst s') < length (fst s) \<and> snd s' = snd s + sum_list (map (\<lambda>w. json_nodes (Any w)) ws) \<and>
    int (snd s') \<le> lm_MaxNodes lim \<and> (\<forall>w\<in>set ws. read_ok lim k w)"
proof (induction f ptr i s arbitrary: ws rule: parseArray.induct)
  case (1 f ptr i rest nodes)
  show ?case
  proof (cases "skip_space rest \<noteq> [] \<and> hd (skip_space rest) = CHR '']''")
    case True
    with "1.prems" tl_skip_space [of rest] show ?thesis by (auto simp: parseArray.simps [of _ _ _ rest])
  next
    case False
    with "1.prems"(2) obtain v s1 where v: "f (appendPointer ptr (nat_string i)) (if i = 0 then None else Some CHR '','') (rest, nodes) = Inr (v, s1)"
      and less: "length (fst s1) < length rest"
      and ws: "bindR (parseArray f ptr (Suc i) s1) (\<lambda>(vs, st'). Inr (v # vs, st')) = Inr (ws, s')"
      by (auto simp: parseArray.simps [of _ _ _ rest] split: if_splits prod.splits)
    from ws obtain vs where vs: "parseArray f ptr (Suc i) s1 = Inr (vs, s')" "ws = v # vs" by auto
    have one: "length (fst s1) < length rest \<and> snd s1 = nodes + json_nodes (Any v) \<and>
        int (snd s1) \<le> lm_MaxNodes lim \<and> read_ok lim k v"
      using readsD [OF "1.prems"(1) v] by simp
    from "1.IH" [OF False v refl less "1.prems"(1) vs(1)] one vs(2) show ?thesis by auto
  qed
qed

lemma parseKey_reads:
  assumes "parseKey lim srclen ptr seen s = Inr (key, s')"
  shows "length (fst s') < length (fst s) \<and> snd s' = Suc (snd s) \<and> int (snd s') \<le> lm_MaxNodes lim \<and> key \<notin> set seen"
proof -
  obtain q t where t: "to_token (if seen = [] then None else Some CHR '','') (fst s) = Some (q # t)"
    using assms by (auto simp: parseKey_def split: option.splits list.splits)
  with assms obtain t' where "byte q = 34" "lex_string t = Some (key, t')" "fst s' = t'"
    and n: "snd s' = Suc (snd s) \<and> int (snd s') \<le> lm_MaxNodes lim \<and> key \<notin> set seen"
    by (auto simp: parseKey_def Let_def addNode_def split: option.splits if_splits)
  with lex_string_length [of t] to_token_length [OF t] show ?thesis by fastforce
qed

lemma parseObject_reads:
  "reads lim k f \<Longrightarrow> parseObject lim srclen f ptr seen s = Inr (ms, s') \<Longrightarrow> int (snd s) \<le> lm_MaxNodes lim \<Longrightarrow>
    length (fst s') < length (fst s) \<and> snd s' = snd s + sum_list (map (\<lambda>(k, w). Suc (json_nodes (Any w))) ms) \<and>
    int (snd s') \<le> lm_MaxNodes lim \<and> (\<forall>(key, w)\<in>set ms. read_ok lim k w) \<and>
    distinct (map fst ms) \<and> set (map fst ms) \<inter> set seen = {}"
proof (induction lim srclen f ptr seen s arbitrary: ms rule: parseObject.induct)
  case (1 lim srclen f ptr seen rest nodes)
  show ?case
  proof (cases "skip_space rest \<noteq> [] \<and> hd (skip_space rest) = CHR ''}''")
    case True
    with "1.prems" tl_skip_space [of rest] show ?thesis by (auto simp: parseObject.simps [of _ _ _ _ _ rest])
  next
    case False
    with "1.prems"(2) obtain key s1 v s2 where key: "parseKey lim srclen ptr seen (rest, nodes) = Inr (key, s1)"
      and v: "f (appendPointer ptr key) (Some CHR '':'') s1 = Inr (v, s2)"
      and less: "length (fst s2) < length rest"
      and ms: "bindR (parseObject lim srclen f ptr (key # seen) s2) (\<lambda>(ms, st''). Inr ((key, v) # ms, st'')) = Inr (ms, s')"
      unfolding parseObject.simps [of _ _ _ _ _ rest] bindR_eq_Inr_iff if_not_P [OF False]
      by (auto simp: bindR_eq_Inr_iff split: if_splits)
    from ms obtain ms' where ms': "parseObject lim srclen f ptr (key # seen) s2 = Inr (ms', s')" "ms = (key, v) # ms'" by auto
    note one = parseKey_reads [OF key] readsD [OF "1.prems"(1) v]
    from one have n: "int (snd s2) \<le> lm_MaxNodes lim" by simp
    from "1.IH" [OF False key refl v refl less "1.prems"(1) ms'(1) n] one ms'(2) show ?thesis by auto
  qed
qed

lemma addNode_Inr: "addNode lim p i n = Inr m \<longleftrightarrow> m = Suc n \<and> int m \<le> lm_MaxNodes lim"
  by (auto simp: addNode_def)

lemma literal_length: "literal w s = Some t \<Longrightarrow> w \<noteq> [] \<Longrightarrow> length t < length s"
  by (auto simp: literal_def split: if_splits) (metis drop_eq_Nil2 length_drop linorder_not_less take_eq_Nil diff_less length_greater_0_conv list.size(3) not_less_zero)

lemma lex_digits_length: "lex_digits s = Some (d, r) \<Longrightarrow> length r < length s"
  by (auto simp: lex_digits_def Let_def split: if_splits) (metis append_self_conv2 length_append less_add_same_cancel2 length_greater_0_conv takeWhile_dropWhile_id takeWhile_eq_Nil_iff)

lemma lex_number_length:
  assumes "lex_number s = Some (x, r)"
  shows "length r < length s"
proof -
  define s1 where "s1 = (case s of c # t \<Rightarrow> if c = CHR ''-'' then t else s | [] \<Rightarrow> s)"
  have le: "length s1 \<le> length s" by (simp add: s1_def split: list.split)
  from assms obtain i s2 f s3 e where parts: "lex_integer s1 = Some (i, s2)" "lex_fraction s2 = Some (f, s3)" "lex_exponent s3 = Some (e, r)"
    by (auto simp: lex_number_def s1_def Let_def split: option.splits prod.splits if_splits list.splits)
  have "length s2 < length s1" using parts(1)
    by (auto simp: lex_integer_def dest: lex_digits_length split: list.splits if_splits)
  moreover have "length s3 \<le> length s2" using parts(2) lex_digits_length
    by (fastforce simp: lex_fraction_def split: list.splits if_splits)
  moreover have "length r \<le> length s3" using parts(3) lex_digits_length
    by (fastforce simp: lex_exponent_def split: list.splits if_splits)
  ultimately show ?thesis using le by simp
qed

lemma parseInteger_safe: "parseInteger x p s = Inr i \<Longrightarrow> - maxSafeInteger \<le> i \<and> i \<le> maxSafeInteger"
  by (auto simp: parseInteger_def Let_def split: if_splits)

text \<open>The three shapes of a successful step.\<close>

lemma parseValue_step:
  assumes "parseValue lim srclen (Suc k) ptr d s = Inr (w, s')"
  obtains (scalar) "json_nodes (Any w) = 1" "json_depth (Any w) = 1" "read_ok lim 1 w"
      "length (fst s') < length (fst s)" "snd s' = Suc (snd s)" "int (snd s') \<le> lm_MaxNodes lim"
  | (object) t ms i j where "length t < length (fst s)" "int (Suc (snd s)) \<le> lm_MaxNodes lim"
      "parseObject lim srclen (parseValue lim srclen k) ptr [] (t, Suc (snd s)) = Inr (ms, s')" "w = ValueObject (i, j) ms"
  | (array) t vs i j where "length t < length (fst s)" "int (Suc (snd s)) \<le> lm_MaxNodes lim"
      "parseArray (parseValue lim srclen k) ptr 0 (t, Suc (snd s)) = Inr (vs, s')" "w = ValueArray (i, j) vs"
proof -
  from assms obtain c t where tok: "to_token d (fst s) = Some (c # t)"
    by (auto simp: parseValue.simps split: option.splits list.splits)
  have len: "length t < length (fst s)" using to_token_length [OF tok] by simp
  have lit: "length u < length (fst s)" if "literal v (c # t) = Some u" "v \<noteq> []" for v u
    using literal_length [OF that] len by simp
  have num: "length u < length (fst s)" if "lex_number (c # t) = Some (v, u)" for v u
    using lex_number_length [OF that] len by simp
  have str: "length u < length (fst s)" if "lex_string t = Some (v, u)" for v u
    using lex_string_length [OF that] len by simp
  note run = assms [unfolded parseValue.simps tok option.case list.case Let_def]
  consider "c = CHR ''n''" | "c = CHR ''t''" | "c = CHR ''f''" | "byte c = 34" "c \<notin> {CHR ''n'', CHR ''t'', CHR ''f''}"
    | "c = CHR ''-'' \<or> is_digit c" "byte c \<noteq> 34" "c \<notin> {CHR ''n'', CHR ''t'', CHR ''f''}"
    | "c = CHR ''{''" | "c = CHR ''[''"
    using run by (auto split: if_splits)
  then show thesis
  proof cases
    case 1
    with run show thesis by (auto simp: addNode_Inr read_ok_def split: option.splits intro!: scalar lit)
  next
    case 2
    with run show thesis by (auto simp: addNode_Inr read_ok_def split: option.splits intro!: scalar lit)
  next
    case 3
    with run show thesis by (auto simp: addNode_Inr read_ok_def split: option.splits intro!: scalar lit)
  next
    case 4
    then obtain v u where lex: "lex_string t = Some (v, u)" using run by (auto split: option.splits)
    from 4 run have "bindR (addNode lim ptr (srclen - length (c # t)) (snd s)) (\<lambda>n.
        if scalar_too_large lim (srclen - length (c # t)) (srclen - length u)
        then Inl (Failure ''document.scalar_too_large'' ptr (srclen - length (c # t)))
        else Inr (ValueString (srclen - length (c # t), srclen - length u) v, (u, n))) = Inr (w, s')"
      by (simp add: lex)
    then obtain i j where "w = ValueString (i, j) v" "s' = (u, Suc (snd s))" "int (Suc (snd s)) \<le> lm_MaxNodes lim"
      unfolding bindR_eq_Inr_iff addNode_Inr by (auto split: if_splits)
    with str [OF lex] show thesis by (intro scalar) (simp_all add: read_ok_def)
  next
    case 5
    then obtain v u where lex: "lex_number (c # t) = Some (v, u)" using run by (auto split: option.splits)
    from 5 run have "bindR (addNode lim ptr (srclen - length (c # t)) (snd s)) (\<lambda>n.
        bindR (parseInteger v ptr (srclen - length (c # t))) (\<lambda>i.
          Inr (ValueInt (srclen - length (c # t), srclen - length u) i, (u, n)))) = Inr (w, s')"
      by (simp add: lex)
    then obtain x i j where "w = ValueInt (i, j) x" "s' = (u, Suc (snd s))" "int (Suc (snd s)) \<le> lm_MaxNodes lim"
      "parseInteger v ptr (srclen - length (c # t)) = Inr x"
      unfolding bindR_eq_Inr_iff addNode_Inr by blast
    with num [OF lex] parseInteger_safe show thesis by (intro scalar) (simp_all add: read_ok_def)
  next
    case 6
    with run have "bindR (addNode lim ptr (srclen - length (c # t)) (snd s)) (\<lambda>n.
        bindR (parseObject lim srclen (parseValue lim srclen k) ptr [] (t, n)) (\<lambda>(ms, st').
          Inr (ValueObject (srclen - length (c # t), srclen - length (fst st')) ms, st'))) = Inr (w, s')"
      by (simp add: token_chars)
    then obtain ms i j where "parseObject lim srclen (parseValue lim srclen k) ptr [] (t, Suc (snd s)) = Inr (ms, s')"
      "w = ValueObject (i, j) ms" "int (Suc (snd s)) \<le> lm_MaxNodes lim"
      unfolding bindR_eq_Inr_iff addNode_Inr by auto
    then show thesis by (intro object [OF len])
  next
    case 7
    with run have "bindR (addNode lim ptr (srclen - length (c # t)) (snd s)) (\<lambda>n.
        bindR (parseArray (parseValue lim srclen k) ptr 0 (t, n)) (\<lambda>(vs, st').
          Inr (ValueArray (srclen - length (c # t), srclen - length (fst st')) vs, st'))) = Inr (w, s')"
      by (simp add: token_chars)
    then obtain vs i j where "parseArray (parseValue lim srclen k) ptr 0 (t, Suc (snd s)) = Inr (vs, s')"
      "w = ValueArray (i, j) vs" "int (Suc (snd s)) \<le> lm_MaxNodes lim"
      unfolding bindR_eq_Inr_iff addNode_Inr by auto
    then show thesis by (intro array [OF len])
  qed
qed

lemma parseValue_reads: "reads lim k (parseValue lim srclen k)"
proof (induction k)
  case 0
  show ?case by (simp add: reads_def parseValue.simps)
next
  case (Suc k)
  show ?case
    unfolding reads_def
  proof (intro allI impI)
    fix ptr d s w s'
    assume "parseValue lim srclen (Suc k) ptr d s = Inr (w, s')"
    then show "length (fst s') < length (fst s) \<and> snd s' = snd s + json_nodes (Any w) \<and>
        int (snd s') \<le> lm_MaxNodes lim \<and> read_ok lim (Suc k) w"
    proof (cases rule: parseValue_step)
      case scalar
      then show ?thesis by (auto simp: read_ok_def)
    next
      case (object t ms i j)
      have "length (fst s') < length t \<and> snd s' = Suc (snd s) + sum_list (map (\<lambda>(k, w). Suc (json_nodes (Any w))) ms) \<and>
          int (snd s') \<le> lm_MaxNodes lim \<and> (\<forall>(key, w)\<in>set ms. read_ok lim k w) \<and> distinct (map fst ms)"
        using parseObject_reads [OF Suc object(3)] object(2) by simp
      with object(1,4) show ?thesis
        by (auto simp: read_ok_def json_depth_le comp_def case_prod_unfold simp del: json_depth.simps(1,2))
    next
      case (array t vs i j)
      have "length (fst s') < length t \<and> snd s' = Suc (snd s) + sum_list (map (\<lambda>w. json_nodes (Any w)) vs) \<and>
          int (snd s') \<le> lm_MaxNodes lim \<and> (\<forall>w\<in>set vs. read_ok lim k w)"
        using parseArray_reads [OF Suc array(3)] array(2) by simp
      with array(1,4) show ?thesis
        by (auto simp: read_ok_def json_depth_le comp_def simp del: json_depth.simps(1,2))
    qed
  qed
qed

text \<open>
  C28: what the parser accepts is bounded: the document is no longer, no deeper and has no more
  nodes than the limits allow, its integers are exactly representable in a double, and no object
  has a key twice.
\<close>

theorem ParseJSON_bounded:
  assumes "ParseJSON (Inr raw) lim = Inr d"
  shows "int (length raw) \<le> lm_MaxBytes (normalizedLimits lim) \<and>
    int (json_depth (Any d)) \<le> lm_MaxDepth (normalizedLimits lim) \<and>
    int (json_nodes (Any d)) \<le> lm_MaxNodes (normalizedLimits lim) \<and>
    safe_integers (Any d) \<and> go_maps (Any d)"
proof -
  let ?l = "normalizedLimits lim"
  have pos: "0 < lm_MaxDepth ?l" by (simp add: normalizedLimits_def or_default_def DefaultLimits_def)
  from assms have len: "int (length raw) \<le> lm_MaxBytes ?l"
    by (auto simp: ParseJSON_def readBounded_def Let_def split: if_splits)
  with assms obtain s where "parseValue ?l (length raw) (nat (lm_MaxDepth ?l)) [] None (raw, 0) = Inr (d, s)"
    by (auto simp: ParseJSON_def readBounded_def Let_def split: if_splits)
  from readsD [OF parseValue_reads this] len pos show ?thesis by (auto simp: read_ok_def)
qed

theorem ParseJSON_bounded_witness:
  "\<exists>d. ParseJSON (Inr ''[1, 2]'') DefaultLimits = Inr d \<and> json_nodes (Any d) = 3 \<and> int (json_depth (Any d)) \<le> 64"
proof -
  have "case ParseJSON (Inr ''[1, 2]'') DefaultLimits of Inl _ \<Rightarrow> False | Inr d \<Rightarrow> json_nodes (Any d) = 3" by code_simp
  then obtain d where d: "ParseJSON (Inr ''[1, 2]'') DefaultLimits = Inr d" "json_nodes (Any d) = 3"
    by (cases "ParseJSON (Inr ''[1, 2]'') DefaultLimits") auto
  have "lm_MaxDepth (normalizedLimits DefaultLimits) = 64" by code_simp
  with ParseJSON_bounded [OF d(1)] d show ?thesis by simp
qed

end
