(* ===== verification/JSON_Canonicalization.thy ===== *)
theory JSON_Canonicalization
  imports JSON_Roundtrip
begin

text \<open>
  The parser followed by the canonical encoder, on any text the parser accepts: the canonical
  bytes exist, are no longer than the text, and are accepted again under the same limits.  So
  canonicalisation (\<open>canonicalJSON\<close>, \<open>canonicalBytes\<close>) is total on accepted documents and idempotent.
\<close>

section \<open>Canonical strings are the shortest\<close>

lemma byte_char_of: "n < 256 \<Longrightarrow> byte (char_of n) = n"
  by (simp add: of_char_of take_bit_eq_mod)

lemma json_escape_length: "length (json_escape c) \<le> 6" "32 \<le> byte c \<Longrightarrow> byte c \<noteq> 34 \<Longrightarrow> byte c \<noteq> 92 \<Longrightarrow> length (json_escape c) = 1"
  by (simp_all add: json_escape_def)

lemma unescaped_length: "unescaped e = Some x \<Longrightarrow> length (json_escape x) \<le> 2"
  by (auto simp: unescaped_def json_escape_def of_char_of split: if_splits)

lemma high_escapes: "\<forall>c\<in>set p. 128 \<le> byte c \<Longrightarrow> concat (map json_escape p) = p"
proof (induction p)
  case (Cons c p)
  then have "json_escape c = [c]" by (intro json_escape_high) simp
  with Cons show ?case by simp
qed simp

lemma utf8_encode_escapes:
  assumes "n < 1114112"
  shows "length (concat (map json_escape (utf8_encode n))) \<le> 6"
proof (cases "n < 128")
  case True
  then show ?thesis using json_escape_length(1) by (simp add: utf8_encode_def)
next
  case False
  have b: "n < 2048 \<Longrightarrow> n div 64 < 32" "n < 65536 \<Longrightarrow> n div 4096 < 16" "n div 262144 < 5"
    using assms by linarith+
  have "\<forall>c\<in>set (utf8_encode n). 128 \<le> byte c"
    using False b by (auto simp: utf8_encode_def byte_char_of)
  then have "concat (map json_escape (utf8_encode n)) = utf8_encode n" by (rule high_escapes)
  then show ?thesis by (simp add: utf8_encode_def)
qed

lemma hex4_bound: "hex4 s = Some (n, t) \<Longrightarrow> n < 65536"
proof (induction s rule: hex4.induct)
  case (1 a b c d s)
  have digit: "hex_value x = Some y \<Longrightarrow> y < 16" for x y by (auto simp: hex_value_def Let_def split: if_splits)
  from 1 obtain w x y z where "hex_value a = Some w" "hex_value b = Some x" "hex_value c = Some y" "hex_value d = Some z"
    and n: "n = w * 4096 + x * 256 + y * 16 + z" by (auto split: option.splits)
  then have "w < 16" "x < 16" "y < 16" "z < 16" using digit by blast+
  with n show ?case by linarith
qed simp_all

text \<open>A unicode escape is one rune and takes at least as many bytes as its canonical spelling.\<close>

lemma lex_unicode_rune:
  assumes "lex_unicode s = Some (u, t)"
  obtains n where "u = utf8_encode n" "n < 1114112" "\<not> (55296 \<le> n \<and> n \<le> 57343)" "length t + 4 \<le> length s"
proof -
  from assms obtain m s1 where m: "hex4 s = Some (m, s1)" by (auto simp: lex_unicode_def split: option.splits)
  note step = assms [unfolded lex_unicode_def m option.case prod.case]
  note len = hex4_length [OF m] hex4_bound [OF m]
  show thesis
  proof (cases "55296 \<le> m \<and> m < 56320")
    case True
    with step obtain a b t' k t'' where s1: "s1 = a # b # t'" "hex4 t' = Some (k, t'')" "56320 \<le> k" "k < 57344"
      and u: "u = utf8_encode (65536 + (m - 55296) * 1024 + (k - 56320))" "t = t''"
      by (auto split: list.splits if_splits option.splits)
    have "65536 + (m - 55296) * 1024 + (k - 56320) < 1114112" using True s1(3,4) by linarith
    then show thesis using u s1 hex4_length [OF s1(2)] len by (intro that) auto
  next
    case False
    with step have "u = utf8_encode m" "t = s1" "\<not> (56320 \<le> m \<and> m < 57344)" by (auto split: if_splits)
    with False len show thesis by (intro that) auto
  qed
qed

text \<open>The four shapes of a step of the string lexer.\<close>

lemma lex_string_step:
  assumes "lex_string (c # s) = Some (t, r)"
  obtains (stop) "byte c = 34" "t = []" "r = s"
  | (verbatim) t' where "32 \<le> byte c" "byte c \<noteq> 34" "byte c \<noteq> 92" "lex_string s = Some (t', r)" "t = c # t'"
  | (rune) u s1 s2 t' where "byte c = 92" "s = CHR ''u'' # s1" "lex_unicode s1 = Some (u, s2)" "lex_string s2 = Some (t', r)" "t = u @ t'"
  | (escape) e x s1 t' where "byte c = 92" "s = e # s1" "unescaped e = Some x" "lex_string s1 = Some (t', r)" "t = x # t'"
proof -
  note step = assms [unfolded lex_string.simps]
  consider "byte c = 34" | "byte c \<noteq> 34" "\<not> byte c < 32" "byte c \<noteq> 92" | "byte c = 92"
    using step by (auto split: if_splits)
  then show thesis
  proof cases
    case 1
    with step show thesis by (intro stop) simp_all
  next
    case 2
    with step show thesis by (auto intro: verbatim)
  next
    case 3
    with step obtain e s1 where s: "s = e # s1" by (cases s) auto
    with 3 step show thesis
      by (cases "e = CHR ''u''") (auto split: option.splits intro: rune escape)
  qed
qed

lemma lex_string_tight:
  "lex_string s = Some (t, r) \<Longrightarrow> length (concat (map json_escape t)) + 1 + length r \<le> length s"
proof (induction s arbitrary: t rule: length_induct)
  case (1 s)
  then obtain c s' where s: "s = c # s'" by (cases s) auto
  note IH = "1.IH" [rule_format]
  show ?case
    using "1.prems" [unfolded s]
  proof (cases rule: lex_string_step)
    case stop
    then show ?thesis by (simp add: s)
  next
    case (verbatim t')
    with IH [of s' t'] json_escape_length(2) [of c] show ?thesis by (simp add: s)
  next
    case (rune u s1 s2 t')
    obtain n where n: "u = utf8_encode n" "n < 1114112" "length s2 + 4 \<le> length s1"
      using lex_unicode_rune [OF rune(3)] by metis
    with IH [of s2 t'] rune utf8_encode_escapes [OF n(2)] show ?thesis by (simp add: s)
  next
    case (escape e x s1 t')
    with IH [of s1 t'] unescaped_length [OF escape(3)] show ?thesis by (simp add: s)
  qed
qed

section \<open>The parser keeps strings valid\<close>

lemma utf8_valid_Cons: "byte c < 128 \<Longrightarrow> utf8_valid (c # s) \<longleftrightarrow> utf8_valid s"
  by (simp add: utf8_valid_def utf8_decode.simps(2))

lemma utf8_valid_drop_ascii: "\<forall>c\<in>set p. byte c < 128 \<Longrightarrow> utf8_valid (p @ s) \<longleftrightarrow> utf8_valid s"
  by (induction p) (simp_all add: utf8_valid_Cons)

lemma split_64:
  "n div 4096 * 4096 + n div 64 mod 64 * 64 + n mod 64 = (n :: nat)"
  "n div 262144 * 262144 + n div 4096 mod 64 * 4096 + n div 64 mod 64 * 64 + n mod 64 = n"
proof -
  have a: "n div 64 * 64 + n mod 64 = n" by simp
  have b: "n div 4096 * 64 + n div 64 mod 64 = n div 64"
    using div_mult_mod_eq [of "n div 64" 64] by (simp add: div_mult2_eq [symmetric])
  have c: "n div 262144 * 64 + n div 4096 mod 64 = n div 4096"
    using div_mult_mod_eq [of "n div 4096" 64] by (simp add: div_mult2_eq [symmetric])
  from a b show "n div 4096 * 4096 + n div 64 mod 64 * 64 + n mod 64 = n" by linarith
  from a b c show "n div 262144 * 262144 + n div 4096 mod 64 * 4096 + n div 64 mod 64 * 64 + n mod 64 = n" by linarith
qed

lemma utf8_decode_encode:
  assumes "n < 1114112" "\<not> (55296 \<le> n \<and> n \<le> 57343)"
  shows "utf8_decode (utf8_encode n) = Some [n]"
proof -
  have b: "n < 2048 \<Longrightarrow> n div 64 < 32" "n < 65536 \<Longrightarrow> n div 4096 < 16" "n div 262144 < 5"
    using assms by linarith+
  consider "n < 128" | "128 \<le> n" "n < 2048" | "2048 \<le> n" "n < 65536" | "65536 \<le> n" by linarith
  then show ?thesis
  proof cases
    case 1
    then show ?thesis by (simp add: utf8_encode_def utf8_decode.simps(2) byte_char_of)
  next
    case 2
    then have "2 \<le> n div 64" by linarith
    moreover have "n div 64 * 64 + n mod 64 = n" by simp
    ultimately show ?thesis using 2 b(1)
      by (simp add: utf8_encode_def utf8_decode.simps(2) byte_char_of is_cont_def)
  next
    case 3
    note e = split_64(1) [of n]
    have "n div 4096 = 0 \<longrightarrow> 32 \<le> n div 64 mod 64" "n div 4096 = 13 \<longrightarrow> n div 64 mod 64 < 32"
      using 3 assms(2) e by linarith+
    with 3 b(2) e show ?thesis
      by (simp add: utf8_encode_def utf8_decode.simps(2) byte_char_of is_cont_def)
  next
    case 4
    have dec: "utf8_decode [char_of (240 + w), char_of (128 + x), char_of (128 + y), char_of (128 + z)] =
        Some [w * 262144 + x * 4096 + y * 64 + z]"
      if "w < 5" "x < 64" "y < 64" "z < 64" "w = 0 \<longrightarrow> 16 \<le> x" "w = 4 \<longrightarrow> x < 16" for w x y z :: nat
      using that by (cases "w = 4") (simp_all add: utf8_decode.simps(2) byte_char_of is_cont_def del: of_char_of)
    note e = split_64(2) [of n]
    have "n div 262144 = 0 \<longrightarrow> 16 \<le> n div 4096 mod 64" "n div 262144 = 4 \<longrightarrow> n div 4096 mod 64 < 16"
      using 4 assms(1) e by linarith+
    with dec [of "n div 262144" "n div 4096 mod 64" "n div 64 mod 64" "n mod 64"] 4 b(3)
    show ?thesis unfolding e by (simp add: utf8_encode_def)
  qed
qed

lemma lex_string_high: "\<forall>c\<in>set p. 128 \<le> byte c \<Longrightarrow> lex_string (p @ s) = map_option (\<lambda>(t, r). (p @ t, r)) (lex_string s)"
proof (induction p)
  case (Cons c p)
  then show ?case by (cases "lex_string s") auto
qed (simp add: option.map_ident_strong split_beta)

lemma validIJSON_decode: "validIJSONString s \<longleftrightarrow> utf8_valid s"
proof -
  have "utf8_decode s = Some rs \<Longrightarrow> list_all (\<lambda>r. \<not> (55296 \<le> r \<and> r \<le> 57343)) rs" for rs
  proof (induction s arbitrary: rs rule: length_induct)
    case (1 s)
    show ?case
    proof (cases s)
      case (Cons a s')
      with "1.prems" obtain r rs' t where step: "rs = r # rs'" "a # s' = utf8_encode r @ t" "utf8_decode t = Some rs'"
        "length t \<le> length s'" by (metis utf8_decode_step)
      have "list_all (\<lambda>r. \<not> (55296 \<le> r \<and> r \<le> 57343)) rs'"
        by (rule "1.IH" [rule_format, OF _ step(3)]) (use step(4) Cons in simp)
      moreover have "\<not> (55296 \<le> r \<and> r \<le> 57343)"
      proof
        assume s: "55296 \<le> r \<and> r \<le> 57343"
        then have "r div 4096 = 13" by linarith
        with s split_64(1) [of r] have "r div 64 mod 64 \<ge> 32" by linarith
        with s \<open>r div 4096 = 13\<close> have "utf8_encode r @ t = char_of (237::nat) # char_of (128 + r div 64 mod 64) # char_of (128 + r mod 64) # t"
          by (simp add: utf8_encode_def)
        with \<open>r div 64 mod 64 \<ge> 32\<close> have "utf8_decode (utf8_encode r @ t) = None"
          by (simp add: utf8_decode.simps(2) byte_char_of is_cont_def split: list.split)
        with "1.prems" step(2) Cons show False by simp
      qed
      ultimately show ?thesis using step(1) by simp
    qed (use "1.prems" in simp)
  qed
  then show ?thesis by (auto simp: validIJSONString_def utf8_valid_def split: option.splits)
qed

lemma lex_string_valid:
  "lex_string s = Some (t, r) \<Longrightarrow> utf8_valid s \<Longrightarrow> utf8_valid t \<and> utf8_valid r"
proof (induction s arbitrary: t rule: length_induct)
  case (1 s)
  then obtain c s' where s: "s = c # s'" by (cases s) auto
  note IH = "1.IH" [rule_format]
  have hex: "byte a < 128" if "hex_value a = Some n" for a n
    using that by (auto simp: hex_value_def Let_def split: if_splits)
  have hex4: "utf8_valid v \<longleftrightarrow> utf8_valid u" if "hex4 v = Some (n, u)" for v n u
    using that by (induction v rule: hex4.induct) (auto simp: utf8_valid_Cons hex split: option.splits)
  show ?case
  proof (cases "byte c < 128")
    case True
    then have valid: "utf8_valid s'" using "1.prems"(2) s utf8_valid_Cons by simp
    show ?thesis
      using "1.prems"(1) [unfolded s]
    proof (cases rule: lex_string_step)
      case stop
      then show ?thesis using valid by (simp add: utf8_valid_def)
    next
      case (verbatim t')
      then show ?thesis using IH [of s' t'] s valid True by (simp add: utf8_valid_Cons)
    next
      case (rune u s1 s2 t')
      obtain n where n: "u = utf8_encode n" "n < 1114112" "\<not> (55296 \<le> n \<and> n \<le> 57343)" "length s2 + 4 \<le> length s1"
        using lex_unicode_rune [OF rune(3)] by metis
      have "utf8_valid s1" using valid rune(2) utf8_valid_Cons by simp
      then have "utf8_valid s2" using rune(3) hex4
        by (auto simp: lex_unicode_def utf8_valid_Cons split: option.splits if_splits list.splits)
      then have "utf8_valid t'" "utf8_valid r" using IH [of s2 t'] rune s n(4) by simp_all
      with utf8_decode_encode [OF n(2,3)] show ?thesis using rune(5) n(1) utf8_valid_append by (simp add: utf8_valid_def)
    next
      case (escape e x s1 t')
      have "byte e < 128" "byte x < 128" using escape(3) by (auto simp: unescaped_def of_char_of split: if_splits)
      with valid IH [of s1 t'] escape s show ?thesis by (simp add: utf8_valid_Cons)
    qed
  next
    case False
    then obtain rs where dec: "utf8_decode (c # s') = Some rs" using "1.prems"(2) s by (auto simp: utf8_valid_def)
    obtain n rs' s2 where step: "c # s' = utf8_encode n @ s2" "utf8_decode s2 = Some rs'" "length s2 \<le> length s'"
      and more: "\<And>t' us. utf8_decode t' = Some us \<Longrightarrow> utf8_decode (utf8_encode n @ t') = Some (n # us)"
      and "n < 128 \<or> (\<forall>c\<in>set (utf8_encode n). 128 \<le> byte c)"
      by (rule utf8_decode_step [OF dec]) (rule that; assumption)
    moreover from this False have "\<not> n < 128" by (auto simp: utf8_encode_def byte_char_of)
    ultimately have high: "\<forall>c\<in>set (utf8_encode n). 128 \<le> byte c" by blast
    obtain t' where t': "lex_string s2 = Some (t', r)" "t = utf8_encode n @ t'"
      using "1.prems"(1) lex_string_high [OF high, of s2] unfolding s step(1) by auto
    moreover have "length s2 < length s" using step(3) s by simp
    moreover have "utf8_valid s2" using step(2) by (simp add: utf8_valid_def)
    ultimately have "utf8_valid t'" "utf8_valid r" using IH by blast+
    with more t'(2) show ?thesis by (auto simp: utf8_valid_def)
  qed
qed

section \<open>The parser consumes at least the canonical spelling\<close>

lemma utf8_valid_suffix: "utf8_valid (p @ s) \<Longrightarrow> \<forall>c\<in>set p. byte c < 128 \<Longrightarrow> utf8_valid s"
  by (simp add: utf8_valid_drop_ascii)

lemma space_ascii: "is_space c \<Longrightarrow> byte c < 128"
  by (auto simp: is_space_def)

lemma skip_space_split: "\<exists>p. s = p @ skip_space s \<and> (\<forall>c\<in>set p. byte c < 128)"
  by (metis set_takeWhileD skip_space_def space_ascii takeWhile_dropWhile_id)

lemma utf8_valid_skip_space: "utf8_valid s \<Longrightarrow> utf8_valid (skip_space s)"
  using skip_space_split [of s] utf8_valid_suffix by metis

definition delimiters :: "nat \<Rightarrow> char option \<Rightarrow> bool" where
  "delimiters n d \<longleftrightarrow> (case d of None \<Rightarrow> n = 0 | Some x \<Rightarrow> n = 1 \<and> byte x < 128)"

lemma to_token_tight:
  assumes "to_token d s = Some t" "delimiters n d"
  shows "n + length t \<le> length s" "utf8_valid s \<Longrightarrow> utf8_valid t"
proof -
  have a: "utf8_valid s \<longrightarrow> utf8_valid (skip_space s)" "length (skip_space s) \<le> length s"
    using utf8_valid_skip_space skip_space_length by blast+
  show "n + length t \<le> length s"
    using assms a(2) skip_space_length [of "tl (skip_space s)"]
    by (auto simp: to_token_def delimiters_def split: option.splits list.splits if_splits)
  show "utf8_valid t" if "utf8_valid s"
    using assms a(1) that utf8_valid_skip_space [of "tl (skip_space s)"]
    by (auto simp: to_token_def delimiters_def utf8_valid_Cons split: option.splits list.splits if_splits)
qed

lemma literal_split: "literal w s = Some t \<Longrightarrow> s = w @ t"
  by (auto simp: literal_def split: if_splits) (metis append_take_drop_id)

lemma lex_digits_split: "lex_digits s = Some (d, r) \<Longrightarrow> s = d @ r \<and> list_all is_digit d"
  by (auto simp: lex_digits_def Let_def list_all_iff dest: set_takeWhileD split: if_splits)

lemma digit_ascii: "list_all is_digit d \<Longrightarrow> \<forall>c\<in>set d. byte c < 128"
  by (auto simp: list_all_iff is_digit_iff)

lemma lex_number_split:
  assumes "lex_number s = Some (x, r)"
  shows "s = x @ r" "\<forall>c\<in>set x. byte c < 128"
    "\<not> list_ex (\<lambda>c. c \<in> {CHR ''.'', CHR ''e'', CHR ''E''}) x \<Longrightarrow> length (int_string (int_text x)) \<le> length x"
proof -
  obtain sign s1 where sign: "s = sign @ s1" "sign = [] \<or> sign = ''-''"
    and run: "(case lex_integer s1 of None \<Rightarrow> None | Some (i, s2) \<Rightarrow>
          (case lex_fraction s2 of None \<Rightarrow> None | Some (f, s3) \<Rightarrow>
            (case lex_exponent s3 of None \<Rightarrow> None | Some (e, s4) \<Rightarrow> Some (sign @ i @ f @ e, s4)))) = Some (x, r)"
  proof -
    define q where "q = (case s of c # t \<Rightarrow> if c = CHR ''-'' then ([c], t) else ([], s) | [] \<Rightarrow> ([], s))"
    have "s = fst q @ snd q" "fst q = [] \<or> fst q = ''-''" by (auto simp: q_def split: list.split)
    from that [OF this] show thesis
      using assms unfolding lex_number_def q_def [symmetric] by (simp add: Let_def case_prod_beta)
  qed
  then obtain i s2 f s3 e where parts: "lex_integer s1 = Some (i, s2)" "lex_fraction s2 = Some (f, s3)"
    "lex_exponent s3 = Some (e, r)" and x: "x = sign @ i @ f @ e"
    by (auto split: option.splits)
  have i: "s1 = i @ s2" "list_all is_digit i" "i \<noteq> []"
  proof -
    obtain c u where s1: "s1 = c # u" using parts(1) by (cases s1) (simp_all add: lex_integer_def)
    have "(c = CHR ''0'' \<and> i = [c] \<and> s2 = u) \<or> lex_digits s1 = Some (i, s2)"
      using parts(1) by (auto simp: lex_integer_def s1 split: if_splits)
    then show "s1 = i @ s2" "list_all is_digit i" "i \<noteq> []"
      using lex_digits_split [of s1 i s2] by (auto simp: s1 is_digit_iff lex_digits_def Let_def split: if_splits)
  qed
  have f: "s2 = f @ s3" "\<forall>c\<in>set f. byte c < 128" "f \<noteq> [] \<Longrightarrow> hd f = CHR ''.''"
    using parts(2) lex_digits_split digit_ascii
    by (fastforce simp: lex_fraction_def split: list.splits if_splits)+
  have e: "s3 = e @ r" "\<forall>c\<in>set e. byte c < 128" "e \<noteq> [] \<Longrightarrow> hd e \<in> {CHR ''e'', CHR ''E''}"
    using parts(3) lex_digits_split digit_ascii
    by (fastforce simp: lex_exponent_def split: list.splits if_splits)+
  show "s = x @ r" using sign i f e x by simp
  show "\<forall>c\<in>set x. byte c < 128" using sign digit_ascii [OF i(2)] f e x by auto
  assume plain: "\<not> list_ex (\<lambda>c. c \<in> {CHR ''.'', CHR ''e'', CHR ''E''}) x"
  have "f = []" using plain f(3) x by (cases f) auto
  moreover have "e = []" using plain e(3) x by (cases e) auto
  ultimately have x': "x = sign @ i" using x by simp
  have len: "length (nat_string (digits_value i)) \<le> length i"
    using nat_string_length digits_value_less [OF i(2)] i(3) by simp
  show "length (int_string (int_text x)) \<le> length x"
  proof (cases "sign = []")
    case True
    obtain c t where c: "i = c # t" using i(3) by (cases i) simp
    then have "c \<noteq> CHR ''-''" using i(2) by (auto simp: is_digit_def)
    with c True x' len show ?thesis by (simp add: int_text_def int_string_def)
  next
    case False
    with sign(2) x' len show ?thesis by (auto simp: int_text_def int_string_def)
  qed
qed

text \<open>A step of the parser, with the token it reads.\<close>

lemma parseValue_token:
  assumes "parseValue lim srclen (Suc k) ptr d s = Inr (w, s')"
  obtains (null) c t where "to_token d (fst s) = Some (c # t)" "c # t = ''null'' @ fst s'" "w = ValueNull (srclen - length (c # t), srclen - length (fst s'))"
  | (bool) c t b where "to_token d (fst s) = Some (c # t)" "c # t = (if b then ''true'' else ''false'') @ fst s'" "w = ValueBool (srclen - length (c # t), srclen - length (fst s')) b"
  | (str) c t v where "to_token d (fst s) = Some (c # t)" "byte c = 34" "lex_string t = Some (v, fst s')" "w = ValueString (srclen - length (c # t), srclen - length (fst s')) v"
      "\<not> scalar_too_large lim (srclen - length (c # t)) (srclen - length (fst s'))"
  | (num) c t v where "to_token d (fst s) = Some (c # t)" "lex_number (c # t) = Some (v, fst s')" "w = ValueInt (srclen - length (c # t), srclen - length (fst s')) (int_text v)"
      "\<not> list_ex (\<lambda>c. c \<in> {CHR ''.'', CHR ''e'', CHR ''E''}) v" "- maxSafeInteger \<le> int_text v" "int_text v \<le> maxSafeInteger"
  | (obj) c t ms where "to_token d (fst s) = Some (c # t)" "c = CHR ''{''"
      "parseObject lim srclen (parseValue lim srclen k) ptr [] (t, Suc (snd s)) = Inr (ms, s')"
      "w = ValueObject (srclen - length (c # t), srclen - length (fst s')) ms"
  | (arr) c t vs where "to_token d (fst s) = Some (c # t)" "c = CHR ''[''"
      "parseArray (parseValue lim srclen k) ptr 0 (t, Suc (snd s)) = Inr (vs, s')" "w = ValueArray (srclen - length (c # t), srclen - length (fst s')) vs"
proof -
  from assms obtain c t where tok: "to_token d (fst s) = Some (c # t)"
    by (auto simp: parseValue.simps split: option.splits list.splits)
  note run = assms [unfolded parseValue.simps tok option.case list.case Let_def]
  consider "c = CHR ''n''" | "c = CHR ''t''" | "c = CHR ''f''" | "byte c = 34" "c \<notin> {CHR ''n'', CHR ''t'', CHR ''f''}"
    | "c = CHR ''-'' \<or> is_digit c" "byte c \<noteq> 34" "c \<notin> {CHR ''n'', CHR ''t'', CHR ''f''}"
    | "c = CHR ''{''" | "c = CHR ''[''"
    using run by (auto split: if_splits)
  then show thesis
  proof cases
    case 1
    with run obtain u where "literal ''null'' (c # t) = Some u" "fst s' = u" "w = ValueNull (srclen - length (c # t), srclen - length u)"
      by (auto simp: addNode_Inr bindR_eq_Inr_iff split: option.splits)
    with literal_split [of "''null''" "c # t" u] show thesis by (intro null [OF tok]) simp_all
  next
    case 2
    with run obtain u where "literal ''true'' (c # t) = Some u" "fst s' = u" "w = ValueBool (srclen - length (c # t), srclen - length u) True"
      by (auto simp: addNode_Inr bindR_eq_Inr_iff split: option.splits)
    with literal_split [of "''true''" "c # t" u] show thesis by (intro bool [OF tok, of True]) simp_all
  next
    case 3
    with run obtain u where "literal ''false'' (c # t) = Some u" "fst s' = u" "w = ValueBool (srclen - length (c # t), srclen - length u) False"
      by (auto simp: addNode_Inr bindR_eq_Inr_iff split: option.splits)
    with literal_split [of "''false''" "c # t" u] show thesis by (intro bool [OF tok, of False]) simp_all
  next
    case 4
    then obtain v u where lex: "lex_string t = Some (v, u)" using run by (auto split: option.splits)
    from 4 run have "bindR (addNode lim ptr (srclen - length (c # t)) (snd s)) (\<lambda>n.
        if scalar_too_large lim (srclen - length (c # t)) (srclen - length u)
        then Inl (Failure ''document.scalar_too_large'' ptr (srclen - length (c # t)))
        else Inr (ValueString (srclen - length (c # t), srclen - length u) v, (u, n))) = Inr (w, s')"
      by (simp add: lex)
    then have "fst s' = u" "w = ValueString (srclen - length (c # t), srclen - length u) v" "\<not> scalar_too_large lim (srclen - length (c # t)) (srclen - length u)"
      unfolding bindR_eq_Inr_iff by (auto split: if_splits)
    with 4 lex show thesis by (intro str [OF tok]) simp_all
  next
    case 5
    then obtain v u where lex: "lex_number (c # t) = Some (v, u)" using run by (auto split: option.splits)
    from 5 run have "bindR (addNode lim ptr (srclen - length (c # t)) (snd s)) (\<lambda>n.
        bindR (parseInteger v ptr (srclen - length (c # t))) (\<lambda>i.
          Inr (ValueInt (srclen - length (c # t), srclen - length u) i, (u, n)))) = Inr (w, s')"
      by (simp add: lex)
    then obtain i where i: "fst s' = u" "w = ValueInt (srclen - length (c # t), srclen - length u) i" "parseInteger v ptr (srclen - length (c # t)) = Inr i"
      unfolding bindR_eq_Inr_iff by auto
    then have "i = int_text v" "\<not> list_ex (\<lambda>c. c \<in> {CHR ''.'', CHR ''e'', CHR ''E''}) v"
      by (auto simp: parseInteger_def Let_def split: if_splits)
    with lex i(1,2) parseInteger_safe [OF i(3)] show thesis by (intro num [OF tok, of v]) auto
  next
    case 6
    with run have "bindR (addNode lim ptr (srclen - length (c # t)) (snd s)) (\<lambda>n.
        bindR (parseObject lim srclen (parseValue lim srclen k) ptr [] (t, n)) (\<lambda>(ms, st').
          Inr (ValueObject (srclen - length (c # t), srclen - length (fst st')) ms, st'))) = Inr (w, s')"
      by (simp add: token_chars)
    then obtain ms where "parseObject lim srclen (parseValue lim srclen k) ptr [] (t, Suc (snd s)) = Inr (ms, s')"
      "w = ValueObject (srclen - length (c # t), srclen - length (fst s')) ms"
      unfolding bindR_eq_Inr_iff addNode_Inr by auto
    then show thesis using 6 by (intro obj [OF tok])
  next
    case 7
    with run have "bindR (addNode lim ptr (srclen - length (c # t)) (snd s)) (\<lambda>n.
        bindR (parseArray (parseValue lim srclen k) ptr 0 (t, n)) (\<lambda>(vs, st').
          Inr (ValueArray (srclen - length (c # t), srclen - length (fst st')) vs, st'))) = Inr (w, s')"
      by (simp add: token_chars)
    then obtain vs where "parseArray (parseValue lim srclen k) ptr 0 (t, Suc (snd s)) = Inr (vs, s')"
      "w = ValueArray (srclen - length (c # t), srclen - length (fst s')) vs"
      unfolding bindR_eq_Inr_iff addNode_Inr by auto
    then show thesis using 7 by (intro arr [OF tok])
  qed
qed

definition tight :: "limits \<Rightarrow> nat \<Rightarrow> value_parser \<Rightarrow> bool" where
  "tight lim srclen f \<longleftrightarrow>
     (\<forall>ptr d s w s' n. f ptr d s = Inr (w, s') \<longrightarrow> delimiters n d \<longrightarrow> length (fst s) \<le> srclen \<longrightarrow>
        n + length (enc (Any w)) + length (fst s') \<le> length (fst s) \<and>
        scalars_within json_quote (lm_MaxScalarBytes lim) (Any w) \<and>
        (utf8_valid (fst s) \<longrightarrow> utf8_valid (fst s') \<and> supported (Any w)))"

lemma tightD:
  "tight lim srclen f \<Longrightarrow> f ptr d s = Inr (w, s') \<Longrightarrow> delimiters n d \<Longrightarrow> length (fst s) \<le> srclen \<Longrightarrow>
    n + length (enc (Any w)) + length (fst s') \<le> length (fst s) \<and>
    scalars_within json_quote (lm_MaxScalarBytes lim) (Any w) \<and>
    (utf8_valid (fst s) \<longrightarrow> utf8_valid (fst s') \<and> supported (Any w))"
  unfolding tight_def by blast

lemma comma_delimiter: "delimiters (if b then 0 else 1) (if b then None else Some CHR '','')"
  by (simp add: delimiters_def)

lemma length_sep_Cons: "length (sep i (x # xs)) = (if i = 0 then 0 else 1) + length x + length (sep (Suc i) xs)"
  by (simp add: sep_Cons comma_if_def)

lemma utf8_valid_tl: "utf8_valid (c # s) \<Longrightarrow> byte c < 128 \<Longrightarrow> utf8_valid s"
  by (simp add: utf8_valid_Cons)

lemma parseArray_tight:
  assumes "tight lim srclen f"
  shows "parseArray f ptr i s = Inr (ws, s') \<Longrightarrow> length (fst s) \<le> srclen \<Longrightarrow>
    length (sep i (map (\<lambda>w. enc (Any w)) ws)) + 1 + length (fst s') \<le> length (fst s) \<and>
    (\<forall>w\<in>set ws. scalars_within json_quote (lm_MaxScalarBytes lim) (Any w)) \<and>
    (utf8_valid (fst s) \<longrightarrow> utf8_valid (fst s') \<and> (\<forall>w\<in>set ws. supported (Any w)))"
  using assms
proof (induction f ptr i s arbitrary: ws rule: parseArray.induct)
  case (1 f ptr i rest nodes)
  show ?case
  proof (cases "skip_space rest \<noteq> [] \<and> hd (skip_space rest) = CHR '']''")
    case True
    then obtain u where u: "skip_space rest = CHR '']'' # u" by (cases "skip_space rest") auto
    with "1.prems" have "ws = []" "fst s' = u" by (auto simp: parseArray.simps [of _ _ _ rest])
    moreover have "utf8_valid rest \<longrightarrow> utf8_valid u"
      using utf8_valid_skip_space [of rest] utf8_valid_tl [of _ u] by (auto simp: u)
    ultimately show ?thesis using skip_space_length [of rest] by (simp add: u sep_def)
  next
    case False
    let ?d = "if i = 0 then None else Some CHR '',''"
    from False "1.prems"(1) obtain v s1 where v: "f (appendPointer ptr (nat_string i)) ?d (rest, nodes) = Inr (v, s1)"
      and less: "length (fst s1) < length rest"
      and ws: "bindR (parseArray f ptr (Suc i) s1) (\<lambda>(vs, st'). Inr (v # vs, st')) = Inr (ws, s')"
      by (auto simp: parseArray.simps [of _ _ _ rest] split: if_splits prod.splits)
    from ws obtain vs where vs: "parseArray f ptr (Suc i) s1 = Inr (vs, s')" "ws = v # vs" by auto
    note one = tightD [OF "1.prems"(3) v comma_delimiter [of "i = 0"]]
    from "1.IH" [OF False v refl less vs(1) _ "1.prems"(3)] one vs(2) less "1.prems"(2) show ?thesis
      by (auto simp: length_sep_Cons)
  qed
qed

lemma parseKey_tight:
  assumes "parseKey lim srclen ptr seen s = Inr (key, s')" "length (fst s) \<le> srclen"
  shows "(if seen = [] then 0 else 1) + length (json_quote key) + length (fst s') \<le> length (fst s)"
    "int (length (json_quote key)) \<le> lm_MaxScalarBytes lim"
    "utf8_valid (fst s) \<Longrightarrow> utf8_valid (fst s') \<and> validIJSONString key"
proof -
  let ?d = "if seen = [] then None else Some CHR '',''"
  obtain q t where tok: "to_token ?d (fst s) = Some (q # t)"
    using assms by (auto simp: parseKey_def split: option.splits list.splits)
  with assms obtain t' where t': "byte q = 34" "lex_string t = Some (key, t')" "fst s' = t'"
    and big: "\<not> scalar_too_large lim (srclen - length (q # t)) (srclen - length t')"
    by (auto simp: parseKey_def Let_def addNode_def split: option.splits if_splits)
  note tight = to_token_tight [OF tok comma_delimiter [of "seen = []"]]
  have quoted: "length (json_quote key) + length t' \<le> length (q # t)"
    using lex_string_tight [OF t'(2)] by (simp add: json_quote_def)
  show "(if seen = [] then 0 else 1) + length (json_quote key) + length (fst s') \<le> length (fst s)"
    using quoted tight(1) t'(3) by simp
  show "int (length (json_quote key)) \<le> lm_MaxScalarBytes lim"
    using big quoted tight(1) assms(2) by (simp add: scalar_too_large_def)
  show "utf8_valid (fst s') \<and> validIJSONString key" if "utf8_valid (fst s)"
    using tight(2) [OF that] lex_string_valid [OF t'(2)] t'(1,3) by (simp add: utf8_valid_Cons validIJSON_decode)
qed

lemma parseObject_tight:
  assumes "tight lim srclen f"
  shows "parseObject lim srclen f ptr seen s = Inr (ms, s') \<Longrightarrow> length (fst s) \<le> srclen \<Longrightarrow> i = 0 \<longleftrightarrow> seen = [] \<Longrightarrow>
    length (sep i (map (\<lambda>(k, w). json_quote k @ '':'' @ enc (Any w)) ms)) + 1 + length (fst s') \<le> length (fst s) \<and>
    (\<forall>(k, w)\<in>set ms. int (length (json_quote k)) \<le> lm_MaxScalarBytes lim \<and>
       scalars_within json_quote (lm_MaxScalarBytes lim) (Any w)) \<and>
    (utf8_valid (fst s) \<longrightarrow> utf8_valid (fst s') \<and> (\<forall>(k, w)\<in>set ms. validIJSONString k \<and> supported (Any w)))"
  using assms
proof (induction lim srclen f ptr seen s arbitrary: ms i rule: parseObject.induct)
  case (1 lim srclen f ptr seen rest nodes)
  show ?case
  proof (cases "skip_space rest \<noteq> [] \<and> hd (skip_space rest) = CHR ''}''")
    case True
    then obtain u where u: "skip_space rest = CHR ''}'' # u" by (cases "skip_space rest") auto
    with "1.prems" have "ms = []" "fst s' = u" by (auto simp: parseObject.simps [of _ _ _ _ _ rest])
    moreover have "utf8_valid rest \<longrightarrow> utf8_valid u"
      using utf8_valid_skip_space [of rest] utf8_valid_tl [of _ u] by (auto simp: u)
    ultimately show ?thesis using skip_space_length [of rest] by (simp add: u sep_def)
  next
    case False
    from False "1.prems"(1) obtain key s1 v s2 where key: "parseKey lim srclen ptr seen (rest, nodes) = Inr (key, s1)"
      and v: "f (appendPointer ptr key) (Some CHR '':'') s1 = Inr (v, s2)"
      and less: "length (fst s2) < length rest"
      and ms: "bindR (parseObject lim srclen f ptr (key # seen) s2) (\<lambda>(ms, st''). Inr ((key, v) # ms, st'')) = Inr (ms, s')"
      unfolding parseObject.simps [of _ _ _ _ _ rest] bindR_eq_Inr_iff if_not_P [OF False]
      by (auto simp: bindR_eq_Inr_iff split: if_splits)
    from ms obtain ms' where ms': "parseObject lim srclen f ptr (key # seen) s2 = Inr (ms', s')" "ms = (key, v) # ms'" by auto
    note k = parseKey_tight [OF key, simplified, OF "1.prems"(2) [simplified]]
    have "length (fst s1) \<le> srclen" using k(1) "1.prems"(2) by simp
    note one = tightD [OF "1.prems"(4) v, of 1, OF _ this]
    have "delimiters 1 (Some CHR '':'')" by (simp add: delimiters_def)
    note one = one [OF this]
    have "length (fst s2) \<le> srclen" using less "1.prems"(2) by simp
    note rest = "1.IH" [OF False key refl v refl less ms'(1) this, of "Suc i", simplified, OF "1.prems"(4)]
    show ?thesis using k one rest ms'(2) "1.prems"(3) by (cases "seen = []") (auto simp: length_sep_Cons)
  qed
qed

lemma parseValue_tight: "tight lim srclen (parseValue lim srclen k)"
proof (induction k)
  case 0
  show ?case by (simp add: tight_def parseValue.simps)
next
  case (Suc k)
  show ?case
    unfolding tight_def
  proof (intro allI impI)
    fix ptr d s w s' n
    assume run: "parseValue lim srclen (Suc k) ptr d s = Inr (w, s')" and d: "delimiters n d" and len: "length (fst s) \<le> srclen"
    let ?max = "lm_MaxScalarBytes lim"
    from run show "n + length (enc (Any w)) + length (fst s') \<le> length (fst s) \<and>
        scalars_within json_quote ?max (Any w) \<and> (utf8_valid (fst s) \<longrightarrow> utf8_valid (fst s') \<and> supported (Any w))"
    proof (cases rule: parseValue_token)
      case (null c t)
      note tok = to_token_tight [OF null(1) d]
      have "utf8_valid (c # t) \<longrightarrow> utf8_valid (fst s')" unfolding null(2) by (simp add: utf8_valid_Cons)
      with tok null(3) arg_cong [OF null(2), of length] show ?thesis by auto
    next
      case (bool c t b)
      note tok = to_token_tight [OF bool(1) d]
      have "utf8_valid (c # t) \<longrightarrow> utf8_valid (fst s')" unfolding bool(2) by (cases b) (simp_all add: utf8_valid_Cons)
      with tok bool(3) arg_cong [OF bool(2), of length] show ?thesis by (cases b) auto
    next
      case (str c t v)
      note tok = to_token_tight [OF str(1) d]
      have quoted: "length (json_quote v) + length (fst s') \<le> length (c # t)"
        using lex_string_tight [OF str(3)] by (simp add: json_quote_def)
      moreover from this have "int (length (json_quote v)) \<le> ?max"
        using str(5) tok(1) len by (simp add: scalar_too_large_def)
      moreover have "utf8_valid (c # t) \<longrightarrow> utf8_valid v \<and> utf8_valid (fst s')"
        using lex_string_valid [OF str(3)] str(2) by (simp add: utf8_valid_Cons)
      ultimately show ?thesis using tok str(4) by (auto simp: validIJSON_decode)
    next
      case (num c t v)
      note tok = to_token_tight [OF num(1) d]
      note split = lex_number_split [OF num(2)]
      have "utf8_valid (c # t) \<longrightarrow> utf8_valid (fst s')" unfolding split(1) using utf8_valid_suffix split(2) by blast
      with tok split(3) [OF num(4)] num(3,5,6) arg_cong [OF split(1), of length] show ?thesis by auto
    next
      case (obj c t ms)
      note tok = to_token_tight [OF obj(1) d]
      have "length t \<le> srclen" using tok(1) len by simp
      then have *: "length (comma_join (map (\<lambda>(k, w). json_quote k @ '':'' @ enc (Any w)) ms)) + 1 + length (fst s') \<le> length t \<and>
          (\<forall>(k, w)\<in>set ms. int (length (json_quote k)) \<le> ?max \<and> scalars_within json_quote ?max (Any w)) \<and>
          (utf8_valid t \<longrightarrow> utf8_valid (fst s') \<and> (\<forall>(k, w)\<in>set ms. validIJSONString k \<and> supported (Any w)))"
        using parseObject_tight [OF Suc obj(3), of 0] by (simp add: sep_def)
      then show ?thesis using tok obj(2,4) by (auto simp: utf8_valid_Cons comp_def case_prod_unfold)
    next
      case (arr c t vs)
      note tok = to_token_tight [OF arr(1) d]
      have "length t \<le> srclen" using tok(1) len by simp
      then have "length (comma_join (map (\<lambda>w. enc (Any w)) vs)) + 1 + length (fst s') \<le> length t \<and>
          (\<forall>w\<in>set vs. scalars_within json_quote ?max (Any w)) \<and>
          (utf8_valid t \<longrightarrow> utf8_valid (fst s') \<and> (\<forall>w\<in>set vs. supported (Any w)))"
        using parseArray_tight [OF Suc arr(3)] by (simp add: sep_def)
      then show ?thesis using tok arr(2,4) by (auto simp: utf8_valid_Cons comp_def)
    qed
  qed
qed

section \<open>Canonicalisation of an accepted document\<close>

lemma length_comma_join: "length (comma_join xs) = sum_list (map length xs) + (length xs - 1)"
  by (induction xs rule: comma_join.induct) simp_all

lemma length_sort_members: "length (sort_members ms) = length ms"
  by (metis mset_sort_members size_mset)

lemma length_enc_canon: "length (enc (canon v)) = length (enc v)"
proof (induction v rule: canon.induct)
  case (1 n)
  then show ?case by (simp add: nat_string_int)
next
  case (2 vs)
  then have "map (length \<circ> (enc \<circ> canon)) vs = map (length \<circ> enc) vs" by simp
  then show ?case by (simp only: canon.simps encq.simps length_append length_comma_join map_map length_map)
next
  case (3 ms)
  let ?g = "\<lambda>(k, v). json_quote k @ '':'' @ enc v"
  have "map (length \<circ> ?g) (map (\<lambda>(k, v). (k, canon v)) ms) = map (length \<circ> ?g) ms" using 3 by auto
  then have "sum_list (map (length \<circ> ?g) (sort_members (map (\<lambda>(k, v). (k, canon v)) ms))) = sum_list (map (length \<circ> ?g) ms)"
    by (simp only: sum_list_sort_members)
  then show ?case
    by (simp only: canon.simps encq.simps length_append length_comma_join map_map length_map length_sort_members)
qed simp_all

lemma ParseJSON_parses:
  assumes "ParseJSON (Inr raw) lim = Inr d"
  obtains st where "parseValue (normalizedLimits lim) (length raw) (nat (lm_MaxDepth (normalizedLimits lim))) [] None (raw, 0) = Inr (d, st)"
    "utf8_valid raw" "int (length raw) \<le> lm_MaxBytes (normalizedLimits lim)"
  using assms by (auto simp: ParseJSON_def readBounded_def Let_def split: if_splits)

lemma parsed_ok:
  assumes "ParseJSON (Inr raw) lim = Inr d"
  shows "supported (Any d)" "go_maps (Any d)" "within_limits (normalizedLimits lim) (Any d)"
    "length (enc (Any d)) \<le> length raw" "int (length raw) \<le> lm_MaxBytes (normalizedLimits lim)"
proof -
  let ?l = "normalizedLimits lim"
  have pos: "0 < lm_MaxDepth ?l" by (simp add: normalizedLimits_def or_default_def DefaultLimits_def)
  obtain st where run: "parseValue ?l (length raw) (nat (lm_MaxDepth ?l)) [] None (raw, 0) = Inr (d, st)"
    and valid: "utf8_valid raw" and len: "int (length raw) \<le> lm_MaxBytes ?l"
    using ParseJSON_parses [OF assms] .
  note t = tightD [OF parseValue_tight run, of 0]
  note r = readsD [OF parseValue_reads run]
  show "supported (Any d)" using t valid by (simp add: delimiters_def)
  show "go_maps (Any d)" using r by (simp add: read_ok_def)
  show "within_limits ?l (Any d)" using r t pos by (auto simp: read_ok_def within_limits_def delimiters_def)
  show "length (enc (Any d)) \<le> length raw" using t by (simp add: delimiters_def)
  show "int (length raw) \<le> lm_MaxBytes ?l" by (rule len)
qed

lemma canonicalized:
  assumes "ParseJSON (Inr raw) lim = Inr d"
  obtains s d' where "Marshal (Any d) = Inr s" "s = enc (canon (Any d))" "length s \<le> length raw"
    "ParseJSON (Inr s) lim = Inr d'" "Any d' = canon (Any d)" "Marshal (Any d') = Inr s"
proof -
  note ok = parsed_ok [OF assms]
  let ?s = "enc (canon (Any d))"
  have m: "Marshal (Any d) = Inr ?s" using ok(1) by (rule Marshal_enc)
  have len: "length ?s \<le> length raw" using ok(4) length_enc_canon by simp
  then have "int (length ?s) \<le> lm_MaxBytes (normalizedLimits lim)" using ok(5) by simp
  then obtain d' where d': "ParseJSON (Inr ?s) lim = Inr d'" "Any d' = canon (Any d)"
    using ParseJSON_canonical [OF m ok(2,3)] by blast
  have "Marshal (Any d') = Inr ?s"
    using Marshal_enc [of "canon (Any d)"] ok(1) by (simp add: d' canon_idem canon_invariants)
  with that m len d' show thesis by blast
qed

text \<open>
  C15: canonicalisation is total and idempotent on accepted documents.  Whatever text \<open>ParseJSON\<close>
  accepts, \<open>Marshal\<close> encodes; the canonical bytes are never longer than the text, are accepted
  under the same limits, denote the same value, and are their own canonical bytes.
\<close>

theorem canonicalisation_total_idempotent:
  assumes "ParseJSON (Inr raw) lim = Inr d"
  shows "\<exists>s d'. Marshal (Any d) = Inr s \<and> length s \<le> length raw \<and>
    ParseJSON (Inr s) lim = Inr d' \<and> Any d' = canon (Any d) \<and> Marshal (Any d') = Inr s"
  using canonicalized [OF assms] by metis

theorem canonicalisation_total_idempotent_witness:
  "\<exists>d s d'. ParseJSON (Inr '' [2, true] '') DefaultLimits = Inr d \<and> Marshal (Any d) = Inr s \<and> length s \<le> 11 \<and>
    ParseJSON (Inr s) DefaultLimits = Inr d' \<and> Marshal (Any d') = Inr s"
proof -
  have "isOk (ParseJSON (Inr '' [2, true] '') DefaultLimits)" by code_simp
  then obtain d where d: "ParseJSON (Inr '' [2, true] '') DefaultLimits = Inr d" by (auto simp: isOk_iff)
  from canonicalisation_total_idempotent [OF d] d show ?thesis by auto
qed

end
