(* ===== verification/Go_JSON.thy ===== *)
theory Go_JSON
  imports JSON_Canonicalization
begin

text \<open>
  \<open>json.Marshal\<close> of the Go library and \<open>canonicalJSON\<close> of \<open>internal/forecastcrypto/seal.go\<close> (the
  same three calls as \<open>canonicalBytes\<close> of \<open>internal/target/target.go\<close>): the library's bytes are
  parsed again and written canonically.  A struct is the object of its members in the order of
  its fields; a value whose \<open>MarshalJSON\<close> fails is \<open>GoUnsupported\<close>, and the text of that error
  is left out.  The library escapes more than the canonical writer, and the second interpretation
  of \<open>json_quoting\<close> says that the parser does not see the difference.
\<close>

section \<open>Strings as the library writes them\<close>

definition unicode_escape :: "nat \<Rightarrow> string" where
  "unicode_escape n =
     [char_of (92::nat), CHR ''u'', hex_digit (n div 4096 mod 16), hex_digit (n div 256 mod 16),
      hex_digit (n div 16 mod 16), hex_digit (n mod 16)]"

text \<open>The number of bytes of the first rune, 0 when the bytes begin none.\<close>

definition rune_length :: "string \<Rightarrow> nat" where
  "rune_length s =
     (let a = byte (hd s); n = (if a < 128 then 1 else if a < 224 then 2 else if a < 240 then 3 else 4)
      in if s \<noteq> [] \<and> utf8_valid (take n s) then n else 0)"

definition go_escape :: "string \<Rightarrow> string" where
  "go_escape p =
     (if length p = 1
      then if hd p \<in> {CHR ''<'', CHR ''>'', CHR ''&''} then unicode_escape (byte (hd p)) else json_escape (hd p)
      else if p = utf8_encode 8232 then unicode_escape 8232
      else if p = utf8_encode 8233 then unicode_escape 8233
      else p)"

function go_escaped :: "string \<Rightarrow> string" where
  "go_escaped s =
     (if s = [] then []
      else if rune_length s = 0 then unicode_escape 65533 @ go_escaped (tl s)
      else go_escape (take (rune_length s) s) @ go_escaped (drop (rune_length s) s))"
  by pat_completeness auto
termination by (relation "measure length") auto

declare go_escaped.simps [simp del]

definition go_quote :: "string \<Rightarrow> string" where
  "go_quote s = char_of (34::nat) # go_escaped s @ [char_of (34::nat)]"

subsection \<open>They are read back\<close>

lemma lex_string_unicode:
  assumes "n < 65536" "\<not> (55296 \<le> n \<and> n < 57344)"
  shows "lex_string (unicode_escape n @ s) = map_option (\<lambda>(t, r). (utf8_encode n @ t, r)) (lex_string s)"
proof -
  have "n div 4096 mod 16 * 4096 + n div 256 mod 16 * 256 + n div 16 mod 16 * 16 + n mod 16 = n"
  proof -
    have "n div 4096 mod 16 = n div 4096" using assms(1) by simp
    moreover have "n div 256 = n div 4096 * 16 + n div 256 mod 16"
      using div_mult_mod_eq [of "n div 256" 16] by (simp add: div_mult2_eq [symmetric])
    moreover have "n div 16 = n div 256 * 16 + n div 16 mod 16"
      using div_mult_mod_eq [of "n div 16" 16] by (simp add: div_mult2_eq [symmetric])
    moreover have "n = n div 16 * 16 + n mod 16" by simp
    ultimately show ?thesis by linarith
  qed
  moreover have "hex4 (tl (tl (unicode_escape n)) @ s) =
      Some (n div 4096 mod 16 * 4096 + n div 256 mod 16 * 256 + n div 16 mod 16 * 16 + n mod 16, s)"
    by (simp add: unicode_escape_def)
  ultimately have "hex4 (tl (tl (unicode_escape n)) @ s) = Some (n, s)" by (simp only:)
  then have "lex_unicode (tl (tl (unicode_escape n)) @ s) = Some (utf8_encode n, s)"
    using assms(2) by (auto simp: lex_unicode_def)
  then show ?thesis by (simp add: unicode_escape_def of_char_of)
qed

lemma rune_width:
  assumes "r < 1114112"
  shows "utf8_encode r \<noteq> []"
    "length (utf8_encode r) =
      (let a = byte (hd (utf8_encode r)) in if a < 128 then 1 else if a < 224 then 2 else if a < 240 then 3 else 4)"
proof -
  show "utf8_encode r \<noteq> []" by (simp add: utf8_encode_def)
  have b: "r < 2048 \<Longrightarrow> r div 64 < 32" "r < 65536 \<Longrightarrow> r div 4096 < 16" "r div 262144 < 5"
    using assms by linarith+
  consider "r < 128" | "128 \<le> r" "r < 2048" | "2048 \<le> r" "r < 65536" | "65536 \<le> r" by linarith
  then show "length (utf8_encode r) =
      (let a = byte (hd (utf8_encode r)) in if a < 128 then 1 else if a < 224 then 2 else if a < 240 then 3 else 4)"
    by cases (use b in \<open>simp_all add: utf8_encode_def byte_char_of Let_def\<close>)
qed

lemma rune_length_encode:
  assumes "r < 1114112" "utf8_decode (utf8_encode r) = Some [r]"
  shows "rune_length (utf8_encode r @ t) = length (utf8_encode r)"
proof -
  note w = rune_width [OF assms(1)]
  have "hd (utf8_encode r @ t) = hd (utf8_encode r)" using w(1) by simp
  moreover have "utf8_valid (take (length (utf8_encode r)) (utf8_encode r @ t))" using assms(2) by (simp add: utf8_valid_def)
  ultimately show ?thesis using w by (simp only: rune_length_def Let_def append_is_Nil_conv) simp
qed

lemma go_escaped_rune:
  assumes "r < 1114112" "utf8_decode (utf8_encode r) = Some [r]"
  shows "go_escaped (utf8_encode r @ t) = go_escape (utf8_encode r) @ go_escaped t"
proof -
  have "utf8_encode r \<noteq> []" by (simp add: utf8_encode_def)
  with rune_length_encode [OF assms, of t] show ?thesis by (subst go_escaped.simps) simp
qed

lemma lex_string_go_escape:
  assumes "r < 1114112" "r < 128 \<or> (\<forall>c\<in>set (utf8_encode r). 128 \<le> byte c)"
  shows "lex_string (go_escape (utf8_encode r) @ s) = map_option (\<lambda>(t, r'). (utf8_encode r @ t, r')) (lex_string s)"
proof (cases "r < 128")
  case True
  then have e: "utf8_encode r = [char_of r]" by (simp add: utf8_encode_def)
  have "byte (char_of r) = r" using True by (simp add: of_char_of take_bit_eq_mod)
  moreover from this True have "utf8_encode (byte (char_of r)) = [char_of r]" by (simp only: e)
  ultimately show ?thesis using lex_string_unicode [of "byte (char_of r)" s] lex_string_escape [of "char_of r" s] True
    unfolding e go_escape_def by simp
next
  case False
  with assms(2) have high: "\<forall>c\<in>set (utf8_encode r). 128 \<le> byte c" by blast
  have "length (utf8_encode r) \<noteq> 1" using False by (simp add: utf8_encode_def)
  with lex_string_high [OF high] lex_string_unicode [of 8232 s] lex_string_unicode [of 8233 s] show ?thesis
    unfolding go_escape_def by auto
qed

lemma lex_string_go_escaped:
  "utf8_valid s \<Longrightarrow> lex_string (go_escaped s @ char_of (34::nat) # r) = Some (s, r)"
proof (induction s rule: length_induct)
  case (1 s)
  show ?case
  proof (cases s)
    case Nil
    then show ?thesis by (simp add: go_escaped.simps of_char_of)
  next
    case (Cons a s')
    then obtain rs where dec: "utf8_decode (a # s') = Some rs" using "1.prems" by (auto simp: utf8_valid_def)
    obtain c rs' t where step: "a # s' = utf8_encode c @ t" "utf8_decode t = Some rs'"
      and "c < 1114112" and len: "length t \<le> length s'"
      and more: "\<And>t' us. utf8_decode t' = Some us \<Longrightarrow> utf8_decode (utf8_encode c @ t') = Some (c # us)"
      and high: "c < 128 \<or> (\<forall>c\<in>set (utf8_encode c). 128 \<le> byte c)"
      by (rule utf8_decode_step [OF dec]) (rule that; assumption)
    have one: "utf8_decode (utf8_encode c) = Some [c]" using more [of "[]"] by simp
    have "lex_string (go_escaped t @ char_of (34::nat) # r) = Some (t, r)"
      by (rule "1.IH" [rule_format]) (use step(2) len Cons in \<open>simp_all add: utf8_valid_def\<close>)
    with lex_string_go_escape [OF \<open>c < 1114112\<close> high, of "go_escaped t @ char_of (34::nat) # r"] Cons step(1)
    show ?thesis by (simp add: go_escaped_rune [OF \<open>c < 1114112\<close> one])
  qed
qed

interpretation go: json_quoting go_quote
  by unfold_locales (auto simp: go_quote_def lex_string_go_escaped validIJSON_utf8)

section \<open>Larger limits accept the same\<close>

definition looser :: "limits \<Rightarrow> limits \<Rightarrow> bool" where
  "looser lim lim' \<longleftrightarrow> lm_MaxNodes lim \<le> lm_MaxNodes lim' \<and> lm_MaxScalarBytes lim \<le> lm_MaxScalarBytes lim'"

definition extends :: "value_parser \<Rightarrow> value_parser \<Rightarrow> bool" where
  "extends f g \<longleftrightarrow> (\<forall>ptr d s r. f ptr d s = Inr r \<longrightarrow> g ptr d s = Inr r)"

lemma extendsD: "extends f g \<Longrightarrow> f ptr d s = Inr r \<Longrightarrow> g ptr d s = Inr r"
  unfolding extends_def by blast

lemma bindR_extends:
  "bindR m f = Inr r \<Longrightarrow> (\<And>x. m = Inr x \<Longrightarrow> m' = Inr x) \<Longrightarrow> (\<And>x. f x = Inr r \<Longrightarrow> f' x = Inr r) \<Longrightarrow> bindR m' f' = Inr r"
  by (cases m) auto

lemma parseArray_extends: "extends f g \<Longrightarrow> parseArray f ptr i s = Inr r \<Longrightarrow> parseArray g ptr i s = Inr r"
proof (induction f ptr i s arbitrary: r rule: parseArray.induct)
  case (1 f ptr i rest nodes)
  show ?case
  proof (cases "skip_space rest \<noteq> [] \<and> hd (skip_space rest) = CHR '']''")
    case True
    with "1.prems" show ?thesis by (simp add: parseArray.simps [of _ _ _ rest])
  next
    case False
    with "1.prems"(2) obtain v s1 where v: "f (appendPointer ptr (nat_string i)) (if i = 0 then None else Some CHR '','') (rest, nodes) = Inr (v, s1)"
      and less: "length (fst s1) < length rest"
      and ws: "bindR (parseArray f ptr (Suc i) s1) (\<lambda>(vs, st'). Inr (v # vs, st')) = Inr r"
      by (auto simp: parseArray.simps [of _ _ _ rest] split: if_splits prod.splits)
    from ws obtain vs st' where q: "parseArray f ptr (Suc i) s1 = Inr (vs, st')" "r = (v # vs, st')"
      by (cases "parseArray f ptr (Suc i) s1") auto
    note rec = "1.IH" [OF False v refl less "1.prems"(1) q(1)]
    show ?thesis
      unfolding parseArray.simps [of g ptr i rest nodes] if_not_P [OF False] extendsD [OF "1.prems"(1) v]
        bindR_Inr prod.case if_P [OF less] rec q(2) ..
  qed
qed

lemma parseKey_looser:
  "looser lim lim' \<Longrightarrow> parseKey lim srclen ptr seen s = Inr r \<Longrightarrow> parseKey lim' srclen ptr seen s = Inr r"
  by (auto simp: parseKey_def Let_def addNode_def looser_def scalar_too_large_def split: option.splits list.splits if_splits)

lemma parseObject_extends:
  "looser lim lim' \<Longrightarrow> extends f g \<Longrightarrow> parseObject lim srclen f ptr seen s = Inr r \<Longrightarrow>
    parseObject lim' srclen g ptr seen s = Inr r"
proof (induction lim srclen f ptr seen s arbitrary: r rule: parseObject.induct)
  case (1 lim srclen f ptr seen rest nodes)
  show ?case
  proof (cases "skip_space rest \<noteq> [] \<and> hd (skip_space rest) = CHR ''}''")
    case True
    with "1.prems" show ?thesis by (simp add: parseObject.simps [of _ _ _ _ _ rest])
  next
    case False
    from False "1.prems"(3) obtain key s1 v s2 where key: "parseKey lim srclen ptr seen (rest, nodes) = Inr (key, s1)"
      and v: "f (appendPointer ptr key) (Some CHR '':'') s1 = Inr (v, s2)"
      and less: "length (fst s2) < length rest"
      and ms: "bindR (parseObject lim srclen f ptr (key # seen) s2) (\<lambda>(ms, st''). Inr ((key, v) # ms, st'')) = Inr r"
      unfolding parseObject.simps [of _ _ _ _ _ rest] bindR_eq_Inr_iff if_not_P [OF False]
      by (auto simp: bindR_eq_Inr_iff split: if_splits)
    from ms obtain ms' st' where q: "parseObject lim srclen f ptr (key # seen) s2 = Inr (ms', st')" "r = ((key, v) # ms', st')"
      by (cases "parseObject lim srclen f ptr (key # seen) s2") auto
    note rec = "1.IH" [OF False key refl v refl less "1.prems"(1,2) q(1)]
    show ?thesis
      unfolding parseObject.simps [of lim' srclen g ptr seen rest nodes] if_not_P [OF False]
        parseKey_looser [OF "1.prems"(1) key] bindR_Inr prod.case extendsD [OF "1.prems"(2) v] if_P [OF less] rec q(2) ..
  qed
qed

lemma parseValue_extends:
  assumes "looser lim lim'"
  shows "k \<le> k' \<Longrightarrow> extends (parseValue lim srclen k) (parseValue lim' srclen k')"
proof (induction k arbitrary: k')
  case 0
  then show ?case by (simp add: extends_def parseValue.simps)
next
  case (Suc k)
  then obtain l where l: "k' = Suc l" "k \<le> l" by (cases k') auto
  note inner = Suc.IH [OF l(2)]
  note arr = parseArray_extends [OF inner] and obj = parseObject_extends [OF assms inner]
  have node: "addNode lim p i n = Inr m \<Longrightarrow> addNode lim' p i n = Inr m" for p i n m
    using assms by (auto simp: addNode_Inr looser_def)
  have big: "\<not> scalar_too_large lim i j \<Longrightarrow> \<not> scalar_too_large lim' i j" for i j
    using assms by (simp add: scalar_too_large_def looser_def)
  show ?case
    unfolding extends_def l(1)
  proof (intro allI impI)
    fix ptr d s r
    assume run: "parseValue lim srclen (Suc k) ptr d s = Inr r"
    then obtain c t where tok: "to_token d (fst s) = Some (c # t)"
      by (auto simp: parseValue.simps split: option.splits list.splits)
    note run = run [unfolded parseValue.simps tok option.case list.case Let_def]
    note goal = parseValue.simps tok option.case list.case Let_def
    let ?p = "srclen - length (c # t)"
    consider "c = CHR ''n''" | "c = CHR ''t''" | "c = CHR ''f''" | "byte c = 34" "c \<notin> {CHR ''n'', CHR ''t'', CHR ''f''}"
      | "c = CHR ''-'' \<or> is_digit c" "byte c \<noteq> 34" "c \<notin> {CHR ''n'', CHR ''t'', CHR ''f''}"
      | "c = CHR ''{''" | "c = CHR ''[''"
      using run by (auto split: if_splits)
    then show "parseValue lim' srclen (Suc l) ptr d s = Inr r"
    proof cases
      case 1
      with run show ?thesis unfolding goal by (auto simp: bindR_eq_Inr_iff split: option.splits dest!: node)
    next
      case 2
      with run show ?thesis unfolding goal by (auto simp: bindR_eq_Inr_iff split: option.splits dest!: node)
    next
      case 3
      with run show ?thesis unfolding goal by (auto simp: bindR_eq_Inr_iff split: option.splits dest!: node)
    next
      case 4
      then obtain v u where lex: "lex_string t = Some (v, u)" using run by (auto split: option.splits)
      from 4 run have "bindR (addNode lim ptr ?p (snd s)) (\<lambda>n. if scalar_too_large lim ?p (srclen - length u)
          then Inl (Failure ''document.scalar_too_large'' ptr ?p) else Inr (ValueString (?p, srclen - length u) v, (u, n))) = Inr r"
        by (simp add: lex)
      then have "bindR (addNode lim' ptr ?p (snd s)) (\<lambda>n. if scalar_too_large lim' ?p (srclen - length u)
          then Inl (Failure ''document.scalar_too_large'' ptr ?p) else Inr (ValueString (?p, srclen - length u) v, (u, n))) = Inr r"
        by (rule bindR_extends) (use node big in \<open>auto split: if_splits\<close>)
      with 4 show ?thesis unfolding goal by (simp add: lex)
    next
      case 5
      then obtain v u where lex: "lex_number (c # t) = Some (v, u)" using run by (auto split: option.splits)
      let ?k = "\<lambda>n. bindR (parseInteger v ptr ?p) (\<lambda>i. Inr (ValueInt (?p, srclen - length u) i, (u, n)))"
      from 5 run have "bindR (addNode lim ptr ?p (snd s)) ?k = Inr r" by (simp add: lex)
      then have "bindR (addNode lim' ptr ?p (snd s)) ?k = Inr r" by (rule bindR_extends) (use node in simp_all)
      with 5 show ?thesis unfolding goal by (simp add: lex)
    next
      case 6
      let ?k = "\<lambda>lim k n. bindR (parseObject lim srclen (parseValue lim srclen k) ptr [] (t, n)) (\<lambda>(ms, st').
          Inr (ValueObject (?p, srclen - length (fst st')) ms, st'))"
      from 6 run have "bindR (addNode lim ptr ?p (snd s)) (?k lim k) = Inr r" by (simp add: token_chars)
      then have "bindR (addNode lim' ptr ?p (snd s)) (?k lim' l) = Inr r"
        by (rule bindR_extends) (use node in simp, erule bindR_extends, use obj in simp_all)
      with 6 show ?thesis unfolding goal by (simp add: token_chars)
    next
      case 7
      let ?k = "\<lambda>lim k n. bindR (parseArray (parseValue lim srclen k) ptr 0 (t, n)) (\<lambda>(vs, st').
          Inr (ValueArray (?p, srclen - length (fst st')) vs, st'))"
      from 7 run have "bindR (addNode lim ptr ?p (snd s)) (?k lim k) = Inr r" by (simp add: token_chars)
      then have "bindR (addNode lim' ptr ?p (snd s)) (?k lim' l) = Inr r"
        by (rule bindR_extends) (use node in simp, erule bindR_extends, use arr in simp_all)
      with 7 show ?thesis unfolding goal by (simp add: token_chars)
    qed
  qed
qed

section \<open>Canonical bytes of a struct\<close>

text \<open>The values the library encodes: no \<open>MarshalJSON\<close> method fails inside.  There are no floats.\<close>

fun marshals :: "go_value \<Rightarrow> bool" where
  "marshals (GoArray vs) \<longleftrightarrow> list_all marshals vs"
| "marshals (GoObject ms) \<longleftrightarrow> list_all (\<lambda>(k, v). marshals v) ms"
| "marshals GoFloat \<longleftrightarrow> False"
| "marshals GoUnsupported \<longleftrightarrow> False"
| "marshals v \<longleftrightarrow> True"

definition json_Marshal :: "go_value \<Rightarrow> string option" where
  "json_Marshal v = (if marshals v then Some (encq go_quote v) else None)"

datatype canonical_error =
    EncodeError
  | NormalizeError parse_error
  | CanonicalizeError string

definition canonicalJSON :: "go_value \<Rightarrow> canonical_error + string" where
  "canonicalJSON v =
     (case json_Marshal v of
        None \<Rightarrow> Inl EncodeError
      | Some encoded \<Rightarrow>
          (case ParseJSON (Inr encoded) DefaultLimits of
             Inl e \<Rightarrow> Inl (NormalizeError e)
           | Inr parsed \<Rightarrow>
               (case Marshal (Any parsed) of Inl e \<Rightarrow> Inl (CanonicalizeError e) | Inr s \<Rightarrow> Inr s)))"

text \<open>A Go value without unsigned integers and with valid strings.\<close>

definition struct_value :: "go_value \<Rightarrow> bool" where
  "struct_value v \<longleftrightarrow> supported v \<and> plain v \<and> go_maps v"

lemma canonicalJSON_parsed:
  assumes "canonicalJSON v = Inr s"
  obtains d where "marshals v" "ParseJSON (Inr (encq go_quote v)) DefaultLimits = Inr d" "Marshal (Any d) = Inr s"
  using assms by (auto simp: canonicalJSON_def json_Marshal_def split: option.splits sum.splits if_splits)

text \<open>What \<open>canonicalJSON\<close> returns, its readers accept and find canonical.\<close>

lemma canonicalJSON_read:
  assumes "canonicalJSON v = Inr s"
  obtains d where "ParseJSON (Inr s) DefaultLimits = Inr d" "Marshal (Any d) = Inr s"
  using canonicalJSON_parsed [OF assms] canonicalized by (metis sum.inject(2))

lemma parse_go_bytes:
  assumes "struct_value v" "ParseJSON (Inr (encq go_quote v)) lim = Inr d"
  shows "Any d = v"
proof -
  let ?s = "encq go_quote v" and ?l = "normalizedLimits lim"
  obtain m where m: "scalars_within go_quote m v" using scalars_within_ex by blast
  define lim' where "lim' = ?l\<lparr>lm_MaxNodes := max (lm_MaxNodes ?l) (int (json_nodes v)),
    lm_MaxScalarBytes := max (lm_MaxScalarBytes ?l) m\<rparr>"
  define k where "k = max (nat (lm_MaxDepth ?l)) (json_depth v)"
  have "scalars_within go_quote (lm_MaxScalarBytes lim') v"
    using scalars_within_mono [OF m] by (simp add: lim'_def)
  then have "parsable go_quote lim' k v" using assms(1) by (simp add: parsable_def struct_value_def k_def)
  from parsesD [OF go.parseValue_enc [OF this], of "[]" None "[]" "length ?s" 0 "[]"]
  obtain w where w: "parseValue lim' (length ?s) k [] None (?s, 0) = Inr (w, ([], json_nodes v))" "Any w = v"
    by (auto simp: preceded_def json_delim_def lim'_def)
  obtain st where d: "parseValue ?l (length ?s) (nat (lm_MaxDepth ?l)) [] None (?s, 0) = Inr (d, st)"
    using ParseJSON_parses [OF assms(2)] .
  have "looser ?l lim'" by (simp add: looser_def lim'_def)
  from extendsD [OF parseValue_extends [OF this] d, of k] w show ?thesis by (simp add: k_def)
qed

lemma canonicalJSON_value:
  assumes "canonicalJSON v = Inr s" "struct_value v"
  shows "s = enc (canon v)" "Marshal v = Inr s"
proof -
  obtain d where d: "ParseJSON (Inr (encq go_quote v)) DefaultLimits = Inr d" "Marshal (Any d) = Inr s"
    using canonicalJSON_parsed [OF assms(1)] by metis
  from d(2) parse_go_bytes [OF assms(2) d(1)] show "Marshal v = Inr s" by simp
  with assms(2) show "s = enc (canon v)" by (simp add: Marshal_enc struct_value_def)
qed

lemma canonicalJSON_inj:
  assumes "canonicalJSON v = Inr s" "canonicalJSON w = Inr s" "struct_value v" "struct_value w"
  shows "canon v = canon w"
proof -
  have "Marshal v = Marshal w" using canonicalJSON_value(2) assms by metis
  moreover have "isOk (Marshal v)" using canonicalJSON_value(2) [OF assms(1,3)] by simp
  ultimately show ?thesis using Marshal_canon_inj assms(3,4) by (simp add: struct_value_def)
qed

text \<open>Within the default limits, the canonical bytes exist.\<close>

definition fits_defaults :: "go_value \<Rightarrow> bool" where
  "fits_defaults v \<longleftrightarrow>
     int (length (encq go_quote v)) \<le> lm_MaxBytes DefaultLimits \<and> int (json_depth v) \<le> lm_MaxDepth DefaultLimits \<and>
     int (json_nodes v) \<le> lm_MaxNodes DefaultLimits \<and> scalars_within go_quote (lm_MaxScalarBytes DefaultLimits) v"

lemma supported_marshals: "supported v \<Longrightarrow> marshals v"
  by (induction v rule: canon.induct) (auto simp: list_all_iff)

lemma go_quote_valid: "utf8_valid s \<Longrightarrow> utf8_valid (go_quote s)"
proof -
  have esc: "utf8_valid (unicode_escape n)" for n
    by (rule utf8_valid_ascii) (auto simp: unicode_escape_def intro!: hex_digit_ascii)
  have "utf8_valid s \<Longrightarrow> utf8_valid (go_escaped s)"
  proof (induction s rule: length_induct)
    case (1 s)
    show ?case
    proof (cases s)
      case Nil
      then show ?thesis by (simp add: go_escaped.simps utf8_valid_def)
    next
      case (Cons a s')
      then obtain rs where dec: "utf8_decode (a # s') = Some rs" using "1.prems" by (auto simp: utf8_valid_def)
      obtain c rs' t where step: "a # s' = utf8_encode c @ t" "utf8_decode t = Some rs'"
        and "c < 1114112" and len: "length t \<le> length s'"
        and more: "\<And>t' us. utf8_decode t' = Some us \<Longrightarrow> utf8_decode (utf8_encode c @ t') = Some (c # us)"
        and "c < 128 \<or> (\<forall>c\<in>set (utf8_encode c). 128 \<le> byte c)"
        by (rule utf8_decode_step [OF dec]) (rule that; assumption)
      have one: "utf8_decode (utf8_encode c) = Some [c]" using more [of "[]"] by simp
      have "utf8_valid (go_escaped t)"
        by (rule "1.IH" [rule_format]) (use step(2) len Cons in \<open>simp_all add: utf8_valid_def\<close>)
      moreover have "utf8_valid (go_escape (utf8_encode c))"
      proof (cases "c < 128")
        case True
        then have "byte (char_of c) = c" by (simp add: byte_char_of)
        then have "utf8_valid (json_escape (char_of c))" using True json_escape_ascii [of "char_of c"]
          by (intro utf8_valid_ascii) simp
        with True esc show ?thesis by (simp add: go_escape_def utf8_encode_def)
      next
        case False
        have "length (utf8_encode c) \<noteq> 1" using False by (simp add: utf8_encode_def)
        with one esc show ?thesis by (simp add: go_escape_def utf8_valid_def)
      qed
      ultimately show ?thesis using step(1) Cons by (simp add: go_escaped_rune [OF \<open>c < 1114112\<close> one] utf8_valid_append)
    qed
  qed
  moreover have "utf8_valid [char_of (34::nat)]" by (simp add: utf8_valid_ascii of_char_of)
  ultimately show "utf8_valid s \<Longrightarrow> utf8_valid (go_quote s)"
    unfolding go_quote_def by (simp add: utf8_valid_Cons utf8_valid_append)
qed

lemma ParseJSON_go_trailing:
  assumes "struct_value v" "normalizedLimits lim = lim" "int (json_depth v) \<le> lm_MaxDepth lim"
    "int (length (encq go_quote v @ r)) \<le> lm_MaxBytes lim" "int (json_nodes v) \<le> lm_MaxNodes lim"
    "scalars_within go_quote (lm_MaxScalarBytes lim) v" "r = [] \<or> r = [CHR 0x0A]"
  obtains d where "ParseJSON (Inr (encq go_quote v @ r)) lim = Inr d" "Any d = v"
proof -
  let ?s = "encq go_quote v @ r"
  have ok: "supported v" "plain v" "go_maps v" using assms(1) by (simp_all add: struct_value_def)
  have "json_depth v \<le> nat (lm_MaxDepth lim)" using assms(3) by linarith
  then have "parsable go_quote lim (nat (lm_MaxDepth lim)) v"
    using assms(6) ok by (simp add: parsable_def)
  moreover have "json_delim r" using assms(7) by (auto simp: json_delim_def)
  ultimately obtain w where w: "parseValue lim (length ?s) (nat (lm_MaxDepth lim)) [] None (?s, 0) = Inr (w, (r, json_nodes v))"
    "Any w = v"
    using parsesD [OF go.parseValue_enc, of lim _ v "[]" None r "length ?s" 0 "[]"] assms(5) by (auto simp: preceded_def)
  have "utf8_valid (encq go_quote v)" using utf8_valid_encq [of go_quote] go_quote_valid validIJSON_utf8 ok(1) by blast
  moreover have "utf8_valid r" "skip_space r = []"
    using assms(7) by (auto simp: utf8_valid_ascii skip_space_def is_space_def)
  ultimately have "ParseJSON (Inr ?s) lim = Inr w" using w assms(2,4)
    by (simp add: ParseJSON_def readBounded_def Let_def utf8_valid_append)
  with w(2) that show thesis by blast
qed

lemmas ParseJSON_go = ParseJSON_go_trailing [where r = "[]", simplified]

lemma canonicalJSON_ok:
  assumes "struct_value v" "fits_defaults v"
  shows "canonicalJSON v = Inr (enc (canon v))"
proof -
  have "normalizedLimits DefaultLimits = DefaultLimits"
    by (simp add: normalizedLimits_def or_default_def DefaultLimits_def)
  then obtain d where "ParseJSON (Inr (encq go_quote v)) DefaultLimits = Inr d" "Any d = v"
    using ParseJSON_go [OF assms(1)] assms(2) by (auto simp: fits_defaults_def)
  moreover have "supported v" using assms(1) by (simp add: struct_value_def)
  ultimately show ?thesis
    using supported_marshals [of v] Marshal_enc [of v] by (simp add: canonicalJSON_def json_Marshal_def)
qed

text \<open>A bound on the bytes that is easy to compute.\<close>

fun go_size :: "go_value \<Rightarrow> nat" where
  "go_size (GoString s) = 6 * length s + 2"
| "go_size (GoInt i) = length (int_string i)"
| "go_size (GoUint n) = length (nat_string n)"
| "go_size (GoArray vs) = 2 + sum_list (map (\<lambda>v. Suc (go_size v)) vs)"
| "go_size (GoObject ms) = 2 + sum_list (map (\<lambda>(k, v). 6 * length k + 4 + go_size v) ms)"
| "go_size v = 5"

lemma go_escaped_length: "length (go_escaped s) \<le> 6 * length s"
proof (induction s rule: go_escaped.induct)
  case (1 s)
  show ?case
  proof (cases "s = []")
    case False
    have esc: "p \<noteq> [] \<Longrightarrow> length (go_escape p) \<le> 6 * length p" for p
      using json_escape_length(1) [of "hd p"] by (cases p) (auto simp: go_escape_def unicode_escape_def)
    show ?thesis
    proof (cases "rune_length s = 0")
      case True
      with False 1(1) show ?thesis by (cases s) (simp_all add: go_escaped.simps unicode_escape_def)
    next
      case ne: False
      have "length (go_escape (take (rune_length s) s)) \<le> 6 * length (take (rune_length s) s)"
        using False ne by (intro esc) simp
      moreover have "length (go_escaped (drop (rune_length s) s)) \<le> 6 * length (drop (rune_length s) s)"
        using 1(2) [OF False ne] .
      moreover have "length (take (rune_length s) s) + length (drop (rune_length s) s) = length s"
        by (metis append_take_drop_id length_append)
      ultimately show ?thesis using False ne by (subst go_escaped.simps) simp
    qed
  qed (simp add: go_escaped.simps)
qed

lemma go_quote_length: "length (go_quote s) \<le> 6 * length s + 2"
  using go_escaped_length [of s] by (simp add: go_quote_def)

lemma sum_list_le: "\<forall>x\<in>set xs. f x \<le> g x \<Longrightarrow> sum_list (map f xs) \<le> sum_list (map g xs)" for f :: "_ \<Rightarrow> nat"
  by (induction xs) (auto intro: add_le_mono)

lemma sum_list_Suc: "sum_list (map (\<lambda>v. Suc (f v)) vs) = sum_list (map f vs) + length vs"
  by (induction vs) simp_all

lemma go_size_length: "length (encq go_quote v) \<le> go_size v"
proof (induction v rule: go_size.induct)
  case (1 s)
  then show ?case using go_quote_length by simp
next
  case (4 vs)
  then have "sum_list (map (\<lambda>v. length (encq go_quote v)) vs) \<le> sum_list (map go_size vs)" by (intro sum_list_le) simp
  then show ?case by (simp add: length_comma_join comp_def sum_list_Suc)
next
  case (5 ms)
  have "sum_list (map (\<lambda>m. Suc (length (go_quote (fst m) @ '':'' @ encq go_quote (snd m)))) ms) \<le>
      sum_list (map (\<lambda>(k, v). 6 * length k + 4 + go_size v) ms)"
  proof (rule sum_list_le, rule ballI)
    fix m assume m: "m \<in> set ms"
    obtain k v where kv: "m = (k, v)" by force
    with m 5 have "length (encq go_quote v) \<le> go_size v" by blast
    with kv go_quote_length [of k] show "Suc (length (go_quote (fst m) @ '':'' @ encq go_quote (snd m))) \<le>
        (case m of (k, v) \<Rightarrow> 6 * length k + 4 + go_size v)" by simp
  qed
  then show ?case by (simp add: length_comma_join comp_def sum_list_Suc case_prod_beta)
qed simp_all

lemma go_size_scalars: "int (go_size v) \<le> n \<Longrightarrow> scalars_within go_quote n v"
proof (induction v rule: go_size.induct)
  case (1 s)
  then show ?case using go_quote_length [of s] by simp
next
  case (4 vs)
  have "go_size v \<le> go_size (GoArray vs)" if "v \<in> set vs" for v
    using that member_le_sum_list [of "Suc (go_size v)" "map (\<lambda>v. Suc (go_size v)) vs"] by force
  with 4 show ?case by fastforce
next
  case (5 ms)
  have "6 * length k + 4 + go_size v \<le> go_size (GoObject ms)" if "(k, v) \<in> set ms" for k v
    using that member_le_sum_list [of "6 * length k + 4 + go_size v" "map (\<lambda>(k, v). 6 * length k + 4 + go_size v) ms"] by force
  then have le: "int (6 * length k + 4) + int (go_size v) \<le> n" if "(k, v) \<in> set ms" for k v
    using that "5.prems" by (metis (no_types, opaque_lifting) of_nat_add of_nat_le_iff order_trans)
  have "int (length (go_quote k)) \<le> n \<and> scalars_within go_quote n v" if "(k, v) \<in> set ms" for k v
  proof
    show "int (length (go_quote k)) \<le> n" using le [OF that] go_quote_length [of k] by linarith
    have "int (go_size v) \<le> n" using le [OF that] by linarith
    with "5.IH" [OF that] show "scalars_within go_quote n v" by blast
  qed
  then show ?case by auto
qed simp_all

lemma fits_small:
  assumes "go_size v \<le> 500000" "json_nodes v \<le> 500000" "json_depth v \<le> 64"
  shows "fits_defaults v"
  using assms go_size_length [of v] go_size_scalars [of v 1048576] by (simp add: fits_defaults_def DefaultLimits_def)

lemma hex_valid: "validIJSONString (hex_EncodeToString s)"
proof -
  have "utf8_valid (hex_EncodeToString s)"
  proof (rule utf8_valid_ascii, induction s)
    case (Cons c s)
    have "byte c div 16 < 16" "byte c mod 16 < 16" using nat_of_char_less_256 [of c] by (linarith, simp)
    with Cons hex_digit_ascii show ?case by (auto simp: Let_def)
  qed simp
  then show ?thesis by (simp add: validIJSON_decode)
qed

section \<open>Reading bytes back\<close>

text \<open>
  The value \<open>json.Unmarshal\<close> finds in bytes without repeated names: no limits but a nesting of
  10000, which is the library's own.
\<close>

definition unlimited :: "string \<Rightarrow> limits" where
  "unlimited s =
     \<lparr>lm_MaxBytes = int (length s), lm_MaxDepth = 10000, lm_MaxNodes = int (length s), lm_MaxScalarBytes = int (length s)\<rparr>"

definition json_Unmarshal :: "string \<Rightarrow> go_value option" where
  "json_Unmarshal s = (case ParseJSON (Inr s) (unlimited s) of Inl _ \<Rightarrow> None | Inr d \<Rightarrow> Some (Any d))"

lemma comma_join_member: "x \<in> set xs \<Longrightarrow> length x \<le> length (comma_join xs)"
  by (induction xs rule: comma_join.induct) auto

lemma json_nodes_length: "json_nodes v \<le> length (encq go_quote v)"
proof (induction v rule: json_nodes.induct)
  case (1 vs)
  then have "sum_list (map json_nodes vs) \<le> sum_list (map (\<lambda>v. length (encq go_quote v)) vs)" by (intro sum_list_le) simp
  then show ?case by (simp add: length_comma_join comp_def)
next
  case (2 ms)
  have "sum_list (map (\<lambda>(k, v). Suc (json_nodes v)) ms) \<le>
      sum_list (map (\<lambda>m. length (go_quote (fst m) @ '':'' @ encq go_quote (snd m))) ms)"
  proof (rule sum_list_le, rule ballI)
    fix m assume m: "m \<in> set ms"
    obtain k v where kv: "m = (k, v)" by force
    with m 2 have "json_nodes v \<le> length (encq go_quote v)" by blast
    then show "(case m of (k, v) \<Rightarrow> Suc (json_nodes v)) \<le> length (go_quote (fst m) @ '':'' @ encq go_quote (snd m))"
      by (simp add: kv)
  qed
  then show ?case by (simp add: length_comma_join comp_def case_prod_beta)
qed (simp_all add: int_string_def go_quote_def Suc_le_eq)

lemma scalars_within_length: "int (length (encq go_quote v)) \<le> n \<Longrightarrow> scalars_within go_quote n v"
proof (induction v rule: go_size.induct)
  case (4 vs)
  have "length (encq go_quote v) \<le> length (encq go_quote (GoArray vs))" if "v \<in> set vs" for v
    using that comma_join_member [of "encq go_quote v" "map (encq go_quote) vs"] by auto
  with 4 show ?case by fastforce
next
  case (5 ms)
  have le: "length (go_quote k) + length (encq go_quote v) \<le> length (encq go_quote (GoObject ms))" if "(k, v) \<in> set ms" for k v
    using that comma_join_member [of "go_quote k @ '':'' @ encq go_quote v" "map (\<lambda>(k, v). go_quote k @ '':'' @ encq go_quote v) ms"]
    by force
  have "int (length (go_quote k)) \<le> n \<and> scalars_within go_quote n v" if "(k, v) \<in> set ms" for k v
  proof
    show "int (length (go_quote k)) \<le> n" using le [OF that] "5.prems" by linarith
    have "int (length (encq go_quote v)) \<le> n" using le [OF that] "5.prems" by linarith
    with "5.IH" [OF that] show "scalars_within go_quote n v" by blast
  qed
  then show ?case by auto
qed simp_all

lemma json_Unmarshal_trailing:
  assumes "struct_value v" "json_depth v \<le> 10000" "r = [] \<or> r = [CHR 0x0A]"
  shows "json_Unmarshal (encq go_quote v @ r) = Some v"
proof -
  let ?s = "encq go_quote v @ r"
  have "0 < json_nodes v" by (cases v) simp_all
  then have "0 < int (length ?s)" using json_nodes_length [of v] by (simp only: length_append)
  then have "normalizedLimits (unlimited ?s) = unlimited ?s"
    by (simp add: normalizedLimits_def or_default_def unlimited_def)
  from ParseJSON_go_trailing [OF assms(1) this _ _ _ _ assms(3)]
  obtain d where "ParseJSON (Inr ?s) (unlimited ?s) = Inr d" "Any d = v"
    using assms(2) json_nodes_length [of v] scalars_within_length [of v "int (length ?s)"] by (auto simp: unlimited_def)
  then show ?thesis by (simp add: json_Unmarshal_def)
qed

lemmas json_Unmarshal_encoded = json_Unmarshal_trailing [where r = "[]", simplified]

end
