(* ===== verification/Struct_Encoding.thy ===== *)
theory Struct_Encoding
  imports Semantic_Validation Go_JSON
begin

text \<open>
  The JSON a value of the data model is marshalled to: the tags of the structs of
  \<open>internal/ledger\<close> (a pointer with \<open>omitempty\<close> is a member that may be missing) and the
  \<open>MarshalJSON\<close> methods of its unions, which fail unless exactly one variant is set.  A slice of
  the model is a slice that is not nil.  Two values of a struct have the same JSON only when they
  are equal; for unions this holds when the variant set is the one its discriminator names, which
  \<open>UnmarshalJSON\<close> ensures and \<open>tagged\<close> states.
\<close>

section \<open>Objects and unions\<close>

definition json_members :: "(string \<times> go_value option) list \<Rightarrow> (string \<times> go_value) list" where
  "json_members fs = List.map_filter (\<lambda>(k, v). map_option (Pair k) v) fs"

definition json_object :: "(string \<times> go_value option) list \<Rightarrow> go_value" where
  "json_object fs = GoObject (json_members fs)"

definition marshalOne :: "go_value option list \<Rightarrow> go_value" where
  "marshalOne variants = (case List.map_filter id variants of [v] \<Rightarrow> v | _ \<Rightarrow> GoUnsupported)"

definition one_of :: "bool list \<Rightarrow> bool" where
  "one_of bs \<longleftrightarrow> count_list bs True = 1"

text \<open>Equality up to the order of members.\<close>

definition same :: "go_value \<Rightarrow> go_value \<Rightarrow> bool" where
  "same v w \<longleftrightarrow> canon v = canon w"

definition tidy :: "go_value \<Rightarrow> bool" where
  "tidy v \<longleftrightarrow> plain v \<and> go_maps v"

definition tag_of :: "go_value \<Rightarrow> string option" where
  "tag_of v =
     (case v of
        GoObject ms \<Rightarrow> (case map_of ms ''kind'' of Some (GoString s) \<Rightarrow> Some s | _ \<Rightarrow> None)
      | _ \<Rightarrow> None)"

lemma pred_option_code [code]: "pred_option P None \<longleftrightarrow> True" "pred_option P (Some x) \<longleftrightarrow> P x"
  by simp_all

lemma set_json_members: "(k, x) \<in> set (json_members fs) \<longleftrightarrow> (k, Some x) \<in> set fs"
  by (force simp: json_members_def map_filter_def)

lemma json_members_Cons:
  "json_members ((k, v) # fs) = (case v of None \<Rightarrow> json_members fs | Some x \<Rightarrow> (k, x) # json_members fs)"
  by (simp add: json_members_def map_filter_simps split: option.split)

lemma distinct_json_members: "distinct (map fst fs) \<Longrightarrow> distinct (map fst (json_members fs))"
proof (induction fs)
  case Nil
  then show ?case by (simp add: json_members_def map_filter_simps)
next
  case (Cons f fs)
  obtain k v where f: "f = (k, v)" by force
  have "k \<notin> fst ` set (json_members fs)" using Cons.prems f by (force simp: set_json_members)
  with Cons f show ?case by (simp add: json_members_Cons split: option.split)
qed

lemma tidy_scalars [simp]: "tidy GoNull" "tidy (GoBool b)" "tidy (GoInt i)" "tidy (GoString s)" "tidy GoUnsupported"
  "tidy (GoArray vs) \<longleftrightarrow> (\<forall>v\<in>set vs. tidy v)"
  by (auto simp: tidy_def)

lemma tidy_object:
  "distinct (map fst fs) \<Longrightarrow> list_all (\<lambda>f. pred_option tidy (snd f)) fs \<Longrightarrow> tidy (json_object fs)"
  using distinct_json_members [of fs]
  by (fastforce simp: tidy_def json_object_def set_json_members list_all_iff)

lemma tidy_option [simp]: "(\<And>x. tidy (f x)) \<Longrightarrow> pred_option tidy (map_option f v)"
  by (cases v) simp_all

lemma tidy_marshalOne: "list_all (pred_option tidy) vs \<Longrightarrow> tidy (marshalOne vs)"
proof -
  assume vs: "list_all (pred_option tidy) vs"
  have "\<forall>v\<in>set (List.map_filter id vs). tidy v" using vs by (auto simp: map_filter_def list_all_iff)
  then show ?thesis by (simp add: marshalOne_def split: list.split)
qed

lemma same_scalars [simp]:
  "same (GoString s) (GoString t) \<longleftrightarrow> s = t" "same (GoBool b) (GoBool c) \<longleftrightarrow> b = c" "same (GoInt i) (GoInt j) \<longleftrightarrow> i = j"
  "\<not> same (GoString s) (GoBool b)" "\<not> same (GoBool b) (GoString s)"
  by (simp_all add: same_def)

lemma same_refl [simp]: "same v v"
  by (simp add: same_def)

lemma same_array [simp]: "same (GoArray vs) (GoArray ws) \<longleftrightarrow> list_all2 same vs ws"
proof -
  have "map canon vs = map canon ws \<longleftrightarrow> list_all2 same vs ws"
    by (simp add: same_def [abs_def] list_eq_iff_nth_eq list_all2_conv_all_nth) (metis length_map nth_map)
  then show ?thesis by (simp add: same_def)
qed

lemma canon_members:
  "map (\<lambda>(k, v). (k, canon v)) (json_members fs) = json_members (map (\<lambda>(k, v). (k, map_option canon v)) fs)"
  by (induction fs) (auto simp: json_members_Cons json_members_def map_filter_simps split: option.split)

lemma same_object:
  assumes "map fst fs = map fst gs" "distinct (map fst fs)"
  shows "same (json_object fs) (json_object gs) \<longleftrightarrow> list_all2 (rel_option same) (map snd fs) (map snd gs)"
proof
  let ?c = "\<lambda>fs. map (\<lambda>(k, v). (k, map_option canon v)) fs"
  assume "same (json_object fs) (json_object gs)"
  then have "sort_members (json_members (?c fs)) = sort_members (json_members (?c gs))"
    by (simp add: same_def json_object_def canon_members)
  then have "set (json_members (?c fs)) = set (json_members (?c gs))" by (metis set_sort_members)
  then have mem: "(k, Some x) \<in> set (?c fs) \<longleftrightarrow> (k, Some x) \<in> set (?c gs)" for k x
    by (simp only: set_json_members [symmetric])
  have len: "length fs = length gs" using assms(1) by (metis length_map)
  have "rel_option same (snd (fs ! i)) (snd (gs ! i))" if i: "i < length fs" for i
  proof -
    define k where "k = fst (fs ! i)"
    have k: "fst (gs ! i) = k" using assms(1) i len k_def by (metis nth_map)
    have dist: "distinct (map fst gs)" using assms by simp
    have fs: "(k, Some x) \<in> set (?c fs) \<longleftrightarrow> map_option canon (snd (fs ! i)) = Some x" for x
    proof -
      have "map_of (?c fs) k = Some (map_option canon (snd (fs ! i)))"
        using map_of_eq_Some_iff [of "?c fs" k] assms(2) i by (force simp: k_def comp_def case_prod_beta in_set_conv_nth)
      moreover have "distinct (map fst (?c fs))" using assms(2) by (simp add: comp_def case_prod_beta)
      ultimately show ?thesis by (metis map_of_eq_Some_iff option.inject)
    qed
    have gs: "(k, Some x) \<in> set (?c gs) \<longleftrightarrow> map_option canon (snd (gs ! i)) = Some x" for x
    proof -
      have "map_of (?c gs) k = Some (map_option canon (snd (gs ! i)))"
        using map_of_eq_Some_iff [of "?c gs" k] dist i len k by (force simp: comp_def case_prod_beta in_set_conv_nth)
      moreover have "distinct (map fst (?c gs))" using dist by (simp add: comp_def case_prod_beta)
      ultimately show ?thesis by (metis map_of_eq_Some_iff option.inject)
    qed
    have "map_option canon (snd (fs ! i)) = Some x \<longleftrightarrow> map_option canon (snd (gs ! i)) = Some x" for x
      using mem fs gs by blast
    then have "map_option canon (snd (fs ! i)) = map_option canon (snd (gs ! i))" by (metis not_Some_eq)
    then show ?thesis by (cases "snd (fs ! i)"; cases "snd (gs ! i)") (auto simp: same_def)
  qed
  then show "list_all2 (rel_option same) (map snd fs) (map snd gs)"
    using len by (simp add: list_all2_conv_all_nth)
next
  assume rel: "list_all2 (rel_option same) (map snd fs) (map snd gs)"
  have "map (\<lambda>(k, v). (k, map_option canon v)) fs = map (\<lambda>(k, v). (k, map_option canon v)) gs"
  proof (rule nth_equalityI)
    fix i assume i: "i < length (map (\<lambda>(k, v). (k, map_option canon v)) fs)"
    have len: "length fs = length gs" using assms(1) by (metis length_map)
    have "fst (fs ! i) = fst (gs ! i)" using assms(1) i len by (metis length_map nth_map)
    moreover have "rel_option same (snd (fs ! i)) (snd (gs ! i))"
      using rel i len by (simp add: list_all2_conv_all_nth)
    then have "map_option canon (snd (fs ! i)) = map_option canon (snd (gs ! i))"
      by (cases rule: option.rel_cases) (simp_all add: same_def)
    ultimately show "map (\<lambda>(k, v). (k, map_option canon v)) fs ! i = map (\<lambda>(k, v). (k, map_option canon v)) gs ! i"
      using i len by (simp add: case_prod_beta)
  qed (use assms(1) in \<open>metis length_map\<close>)
  then show "same (json_object fs) (json_object gs)" by (simp add: same_def json_object_def canon_members)
qed

lemma same_options [simp]:
  "rel_option same (map_option f a) (map_option f b) \<longleftrightarrow> rel_option (\<lambda>x y. same (f x) (f y)) a b"
  "list_all2 same (map f xs) (map f ys) \<longleftrightarrow> list_all2 (\<lambda>x y. same (f x) (f y)) xs ys"
  by (simp_all add: option.rel_map list.rel_map)

lemma same_eq [simp]: "rel_option (\<lambda>x y. x = y) a b \<longleftrightarrow> a = b" "list_all2 (\<lambda>x y. x = y) xs ys \<longleftrightarrow> xs = ys"
  by (simp_all add: option.rel_eq list.rel_eq)

lemma same_tagged:
  "pred_option P a \<Longrightarrow> pred_option P b \<Longrightarrow> (\<And>x y. P x \<Longrightarrow> P y \<Longrightarrow> same (f x) (f y) \<longleftrightarrow> x = y) \<Longrightarrow>
     rel_option (\<lambda>x y. same (f x) (f y)) a b \<longleftrightarrow> a = b"
  "\<forall>x\<in>set xs. P x \<Longrightarrow> \<forall>x\<in>set ys. P x \<Longrightarrow> (\<And>x y. P x \<Longrightarrow> P y \<Longrightarrow> same (f x) (f y) \<longleftrightarrow> x = y) \<Longrightarrow>
     list_all2 (\<lambda>x y. same (f x) (f y)) xs ys \<longleftrightarrow> xs = ys"
proof -
  show "pred_option P a \<Longrightarrow> pred_option P b \<Longrightarrow> (\<And>x y. P x \<Longrightarrow> P y \<Longrightarrow> same (f x) (f y) \<longleftrightarrow> x = y) \<Longrightarrow>
     rel_option (\<lambda>x y. same (f x) (f y)) a b \<longleftrightarrow> a = b"
    by (cases a; cases b) auto
  show "\<forall>x\<in>set xs. P x \<Longrightarrow> \<forall>x\<in>set ys. P x \<Longrightarrow> (\<And>x y. P x \<Longrightarrow> P y \<Longrightarrow> same (f x) (f y) \<longleftrightarrow> x = y) \<Longrightarrow>
     list_all2 (\<lambda>x y. same (f x) (f y)) xs ys \<longleftrightarrow> xs = ys"
  proof (induction xs arbitrary: ys)
    case (Cons x xs)
    then show ?case by (cases ys) auto
  qed auto
qed

lemma same_tag:
  assumes "tag_of v \<noteq> tag_of w" "tidy v" "tidy w"
  shows "\<not> same v w"
proof -
  have "tag_of (canon v) = tag_of v" if "tidy v" for v
  proof (cases v)
    case (GoObject ms)
    let ?c = "map (\<lambda>(k, v). (k, canon v)) ms"
    have d: "distinct (map fst ms)" using that GoObject by (simp add: tidy_def)
    have "map_of (sort_members ?c) ''kind'' = map_of ?c ''kind''"
      using map_of_inject_set [of "sort_members ?c" ?c] d by (simp add: comp_def case_prod_beta)
    moreover have "map_of ?c ''kind'' = map_option canon (map_of ms ''kind'')" by (simp add: map_of_map)
    moreover have "canon u = GoString s \<longleftrightarrow> u = GoString s" for u s by (cases u) auto
    ultimately show ?thesis using GoObject by (auto simp: tag_of_def split: option.splits go_value.splits)
  qed (simp_all add: tag_of_def)
  with assms show ?thesis by (metis same_def)
qed

section \<open>The structs\<close>

definition json_Digest :: "digest \<Rightarrow> go_value" where
  "json_Digest v = json_object
     [(''algorithm'', Some (GoString (dg_Algorithm v))),
      (''value'', Some (GoString (dg_Value v)))]"

lemma tidy_json_Digest [simp]: "tidy (json_Digest v)"
  by (simp add: json_Digest_def tidy_object)

lemma same_json_Digest [simp]: "same (json_Digest v) (json_Digest w) \<longleftrightarrow> v = w"
  by (rule digest.cases [of v]; rule digest.cases [of w]) (auto simp: json_Digest_def same_object)

definition json_ArtifactSnapshot :: "artifact_snapshot \<Rightarrow> go_value" where
  "json_ArtifactSnapshot v = json_object
     [(''artifact_path'', Some (GoString (as_ArtifactPath v))),
      (''media_type'', Some (GoString (as_MediaType v))),
      (''digest'', Some (json_Digest (as_Digest v)))]"

lemma tidy_json_ArtifactSnapshot [simp]: "tidy (json_ArtifactSnapshot v)"
  by (simp add: json_ArtifactSnapshot_def tidy_object)

lemma same_json_ArtifactSnapshot [simp]: "same (json_ArtifactSnapshot v) (json_ArtifactSnapshot w) \<longleftrightarrow> v = w"
  by (rule artifact_snapshot.cases [of v]; rule artifact_snapshot.cases [of w]) (auto simp: json_ArtifactSnapshot_def same_object)

definition json_Importer :: "importer \<Rightarrow> go_value" where
  "json_Importer v = json_object
     [(''name'', Some (GoString (im_Name v))),
      (''version'', Some (GoString (im_Version v)))]"

lemma tidy_json_Importer [simp]: "tidy (json_Importer v)"
  by (simp add: json_Importer_def tidy_object)

lemma same_json_Importer [simp]: "same (json_Importer v) (json_Importer w) \<longleftrightarrow> v = w"
  by (rule importer.cases [of v]; rule importer.cases [of w]) (auto simp: json_Importer_def same_object)

definition json_Provenance :: "provenance \<Rightarrow> go_value" where
  "json_Provenance v = json_object
     [(''platform'', Some (GoString (pv_Platform v))),
      (''remote_object_id'', Some (GoString (pv_RemoteObjectID v))),
      (''remote_object_version'', map_option GoString (pv_RemoteObjectVersion v)),
      (''url'', map_option GoString (pv_URL v)),
      (''source_created_at'', map_option GoString (pv_SourceCreatedAt v)),
      (''source_updated_at'', map_option GoString (pv_SourceUpdatedAt v)),
      (''retrieved_at'', Some (GoString (pv_RetrievedAt v))),
      (''snapshot'', map_option json_ArtifactSnapshot (pv_Snapshot v)),
      (''importer'', map_option json_Importer (pv_Importer v))]"

lemma tidy_json_Provenance [simp]: "tidy (json_Provenance v)"
  by (simp add: json_Provenance_def tidy_object)

lemma same_json_Provenance [simp]: "same (json_Provenance v) (json_Provenance w) \<longleftrightarrow> v = w"
  by (rule provenance.cases [of v]; rule provenance.cases [of w]) (auto simp: json_Provenance_def same_object)

definition json_ScalarValue :: "scalar_value \<Rightarrow> go_value" where
  "json_ScalarValue v = marshalOne
     [map_option GoBool (sv_Boolean v),
      map_option GoString (sv_String v)]"

definition tagged_ScalarValue :: "scalar_value \<Rightarrow> bool" where
  "tagged_ScalarValue v \<longleftrightarrow>
     one_of [sv_Boolean v \<noteq> None, sv_String v \<noteq> None] \<and>
     sv_String v \<noteq> Some []"

lemma tidy_json_ScalarValue [simp]: "tidy (json_ScalarValue v)"
  by (auto simp: json_ScalarValue_def intro!: tidy_marshalOne)

lemma tagged_ScalarValue_cases: "tagged_ScalarValue v \<Longrightarrow>
    (\<exists>x. sv_Boolean v = Some x \<and> sv_String v = None) \<or>
    (\<exists>x. sv_Boolean v = None \<and> sv_String v = Some x \<and> x \<noteq> [])"
  by (cases "sv_Boolean v"; cases "sv_String v"; simp add: tagged_ScalarValue_def one_of_def)

lemma same_json_ScalarValue [simp]: "tagged_ScalarValue v \<Longrightarrow> tagged_ScalarValue w \<Longrightarrow> same (json_ScalarValue v) (json_ScalarValue w) \<longleftrightarrow> v = w"
  by (drule tagged_ScalarValue_cases)+ (elim disjE exE conjE; auto simp: json_ScalarValue_def marshalOne_def map_filter_simps same_tag intro: scalar_value.equality)

definition json_Option :: "option_entry \<Rightarrow> go_value" where
  "json_Option v = json_object
     [(''id'', Some (GoString (op_ID v))),
      (''label'', Some (GoString (op_Label v))),
      (''description'', map_option GoString (op_Description v))]"

lemma tidy_json_Option [simp]: "tidy (json_Option v)"
  by (simp add: json_Option_def tidy_object)

lemma same_json_Option [simp]: "same (json_Option v) (json_Option w) \<longleftrightarrow> v = w"
  by (rule option_entry.cases [of v]; rule option_entry.cases [of w]) (auto simp: json_Option_def same_object)

definition json_OptionSet :: "option_set \<Rightarrow> go_value" where
  "json_OptionSet v = json_object
     [(''id'', Some (GoString (os_ID v))),
      (''version'', Some (GoInt (os_Version v))),
      (''options'', Some (GoArray (map json_Option (os_Options v))))]"

lemma tidy_json_OptionSet [simp]: "tidy (json_OptionSet v)"
  by (simp add: json_OptionSet_def tidy_object)

lemma same_json_OptionSet [simp]: "same (json_OptionSet v) (json_OptionSet w) \<longleftrightarrow> v = w"
  by (rule option_set.cases [of v]; rule option_set.cases [of w]) (auto simp: json_OptionSet_def same_object)

definition json_SetRef :: "set_ref \<Rightarrow> go_value" where
  "json_SetRef v = json_object
     [(''id'', Some (GoString (rf_ID v))),
      (''version'', Some (GoInt (rf_Version v)))]"

lemma tidy_json_SetRef [simp]: "tidy (json_SetRef v)"
  by (simp add: json_SetRef_def tidy_object)

lemma same_json_SetRef [simp]: "same (json_SetRef v) (json_SetRef w) \<longleftrightarrow> v = w"
  by (rule set_ref.cases [of v]; rule set_ref.cases [of w]) (auto simp: json_SetRef_def same_object)

definition json_Unit :: "unit_spec \<Rightarrow> go_value" where
  "json_Unit v = json_object
     [(''name'', Some (GoString (un_Name v))),
      (''symbol'', map_option GoString (un_Symbol v)),
      (''ucum_code'', map_option GoString (un_UCUMCode v))]"

lemma tidy_json_Unit [simp]: "tidy (json_Unit v)"
  by (simp add: json_Unit_def tidy_object)

lemma same_json_Unit [simp]: "same (json_Unit v) (json_Unit w) \<longleftrightarrow> v = w"
  by (rule unit_spec.cases [of v]; rule unit_spec.cases [of w]) (auto simp: json_Unit_def same_object)

definition json_Bound :: "bound \<Rightarrow> go_value" where
  "json_Bound v = json_object
     [(''value'', Some (GoString (bd_Value v))),
      (''inclusive'', Some (GoBool (bd_Inclusive v)))]"

lemma tidy_json_Bound [simp]: "tidy (json_Bound v)"
  by (simp add: json_Bound_def tidy_object)

lemma same_json_Bound [simp]: "same (json_Bound v) (json_Bound w) \<longleftrightarrow> v = w"
  by (rule bound.cases [of v]; rule bound.cases [of w]) (auto simp: json_Bound_def same_object)

definition json_Bounds :: "bounds \<Rightarrow> go_value" where
  "json_Bounds v = json_object
     [(''lower'', map_option json_Bound (bs_Lower v)),
      (''upper'', map_option json_Bound (bs_Upper v))]"

lemma tidy_json_Bounds [simp]: "tidy (json_Bounds v)"
  by (simp add: json_Bounds_def tidy_object)

lemma same_json_Bounds [simp]: "same (json_Bounds v) (json_Bounds w) \<longleftrightarrow> v = w"
  by (rule bounds.cases [of v]; rule bounds.cases [of w]) (auto simp: json_Bounds_def same_object)

definition json_Bin :: "bin \<Rightarrow> go_value" where
  "json_Bin v = json_object
     [(''id'', Some (GoString (bi_ID v))),
      (''label'', map_option GoString (bi_Label v)),
      (''lower'', Some (GoString (bi_Lower v))),
      (''upper'', Some (GoString (bi_Upper v))),
      (''lower_inclusive'', Some (GoBool (bi_LowerInclusive v))),
      (''upper_inclusive'', Some (GoBool (bi_UpperInclusive v)))]"

lemma tidy_json_Bin [simp]: "tidy (json_Bin v)"
  by (simp add: json_Bin_def tidy_object)

lemma same_json_Bin [simp]: "same (json_Bin v) (json_Bin w) \<longleftrightarrow> v = w"
  by (rule bin.cases [of v]; rule bin.cases [of w]) (auto simp: json_Bin_def same_object)

definition json_BinSet :: "bin_set \<Rightarrow> go_value" where
  "json_BinSet v = json_object
     [(''id'', Some (GoString (bt_ID v))),
      (''version'', Some (GoInt (bt_Version v))),
      (''bins'', Some (GoArray (map json_Bin (bt_Bins v))))]"

lemma tidy_json_BinSet [simp]: "tidy (json_BinSet v)"
  by (simp add: json_BinSet_def tidy_object)

lemma same_json_BinSet [simp]: "same (json_BinSet v) (json_BinSet w) \<longleftrightarrow> v = w"
  by (rule bin_set.cases [of v]; rule bin_set.cases [of w]) (auto simp: json_BinSet_def same_object)

definition json_ContinuousValues :: "continuous_values \<Rightarrow> go_value" where
  "json_ContinuousValues v = json_object
     [(''kind'', Some (GoString (cv_Kind v)))]"

lemma tidy_json_ContinuousValues [simp]: "tidy (json_ContinuousValues v)"
  by (simp add: json_ContinuousValues_def tidy_object)

lemma tag_json_ContinuousValues [simp]: "tag_of (json_ContinuousValues v) = Some (cv_Kind v)"
  by (simp add: json_ContinuousValues_def tag_of_def json_object_def json_members_Cons)

lemma same_json_ContinuousValues [simp]: "same (json_ContinuousValues v) (json_ContinuousValues w) \<longleftrightarrow> v = w"
  by (rule continuous_values.cases [of v]; rule continuous_values.cases [of w]) (auto simp: json_ContinuousValues_def same_object)

definition json_StepValues :: "step_values \<Rightarrow> go_value" where
  "json_StepValues v = json_object
     [(''kind'', Some (GoString (st_Kind v))),
      (''step'', Some (GoString (st_Step v))),
      (''origin'', map_option GoString (st_Origin v))]"

lemma tidy_json_StepValues [simp]: "tidy (json_StepValues v)"
  by (simp add: json_StepValues_def tidy_object)

lemma tag_json_StepValues [simp]: "tag_of (json_StepValues v) = Some (st_Kind v)"
  by (simp add: json_StepValues_def tag_of_def json_object_def json_members_Cons)

lemma same_json_StepValues [simp]: "same (json_StepValues v) (json_StepValues w) \<longleftrightarrow> v = w"
  by (rule step_values.cases [of v]; rule step_values.cases [of w]) (auto simp: json_StepValues_def same_object)

definition json_AllowedValues :: "allowed_values \<Rightarrow> go_value" where
  "json_AllowedValues v = json_object
     [(''kind'', Some (GoString (av_Kind v))),
      (''values'', Some (GoArray (map GoString (av_Values v))))]"

lemma tidy_json_AllowedValues [simp]: "tidy (json_AllowedValues v)"
  by (simp add: json_AllowedValues_def tidy_object)

lemma tag_json_AllowedValues [simp]: "tag_of (json_AllowedValues v) = Some (av_Kind v)"
  by (simp add: json_AllowedValues_def tag_of_def json_object_def json_members_Cons)

lemma same_json_AllowedValues [simp]: "same (json_AllowedValues v) (json_AllowedValues w) \<longleftrightarrow> v = w"
  by (rule allowed_values.cases [of v]; rule allowed_values.cases [of w]) (auto simp: json_AllowedValues_def same_object)

definition json_ValuesPolicy :: "values_policy \<Rightarrow> go_value" where
  "json_ValuesPolicy v = marshalOne
     [map_option json_ContinuousValues (vp_Continuous v),
      map_option json_StepValues (vp_Step v),
      map_option json_AllowedValues (vp_Allowed v)]"

definition tagged_ValuesPolicy :: "values_policy \<Rightarrow> bool" where
  "tagged_ValuesPolicy v \<longleftrightarrow>
     one_of [vp_Continuous v \<noteq> None, vp_Step v \<noteq> None, vp_Allowed v \<noteq> None] \<and>
     pred_option (\<lambda>x. cv_Kind x = ValuesContinuous) (vp_Continuous v) \<and>
     pred_option (\<lambda>x. st_Kind x = ValuesStep) (vp_Step v) \<and>
     pred_option (\<lambda>x. av_Kind x = ValuesAllowed) (vp_Allowed v)"

lemma tidy_json_ValuesPolicy [simp]: "tidy (json_ValuesPolicy v)"
  by (auto simp: json_ValuesPolicy_def intro!: tidy_marshalOne)

lemma tagged_ValuesPolicy_cases: "tagged_ValuesPolicy v \<Longrightarrow>
    (\<exists>x. vp_Continuous v = Some x \<and> vp_Step v = None \<and> vp_Allowed v = None \<and> cv_Kind x = ValuesContinuous) \<or>
    (\<exists>x. vp_Continuous v = None \<and> vp_Step v = Some x \<and> vp_Allowed v = None \<and> st_Kind x = ValuesStep) \<or>
    (\<exists>x. vp_Continuous v = None \<and> vp_Step v = None \<and> vp_Allowed v = Some x \<and> av_Kind x = ValuesAllowed)"
  by (cases "vp_Continuous v"; cases "vp_Step v"; cases "vp_Allowed v"; simp add: tagged_ValuesPolicy_def one_of_def)

lemma same_json_ValuesPolicy [simp]: "tagged_ValuesPolicy v \<Longrightarrow> tagged_ValuesPolicy w \<Longrightarrow> same (json_ValuesPolicy v) (json_ValuesPolicy w) \<longleftrightarrow> v = w"
  by (drule tagged_ValuesPolicy_cases)+ (elim disjE exE conjE; auto simp: json_ValuesPolicy_def marshalOne_def map_filter_simps same_tag intro: values_policy.equality)

definition json_BinaryDomain :: "binary_domain \<Rightarrow> go_value" where
  "json_BinaryDomain v = json_object
     [(''kind'', Some (GoString (bn_Kind v)))]"

lemma tidy_json_BinaryDomain [simp]: "tidy (json_BinaryDomain v)"
  by (simp add: json_BinaryDomain_def tidy_object)

lemma tag_json_BinaryDomain [simp]: "tag_of (json_BinaryDomain v) = Some (bn_Kind v)"
  by (simp add: json_BinaryDomain_def tag_of_def json_object_def json_members_Cons)

lemma same_json_BinaryDomain [simp]: "same (json_BinaryDomain v) (json_BinaryDomain w) \<longleftrightarrow> v = w"
  by (rule binary_domain.cases [of v]; rule binary_domain.cases [of w]) (auto simp: json_BinaryDomain_def same_object)

definition json_OptionDomain :: "option_domain \<Rightarrow> go_value" where
  "json_OptionDomain v = json_object
     [(''kind'', Some (GoString (od_Kind v))),
      (''option_set'', Some (json_OptionSet (od_OptionSet v)))]"

lemma tidy_json_OptionDomain [simp]: "tidy (json_OptionDomain v)"
  by (simp add: json_OptionDomain_def tidy_object)

lemma tag_json_OptionDomain [simp]: "tag_of (json_OptionDomain v) = Some (od_Kind v)"
  by (simp add: json_OptionDomain_def tag_of_def json_object_def json_members_Cons)

lemma same_json_OptionDomain [simp]: "same (json_OptionDomain v) (json_OptionDomain w) \<longleftrightarrow> v = w"
  by (rule option_domain.cases [of v]; rule option_domain.cases [of w]) (auto simp: json_OptionDomain_def same_object)

definition json_NumericDomain :: "numeric_domain \<Rightarrow> go_value" where
  "json_NumericDomain v = json_object
     [(''kind'', Some (GoString (sd_Kind v))),
      (''bounds'', map_option json_Bounds (sd_Bounds v)),
      (''values'', Some (json_ValuesPolicy (sd_Values v))),
      (''elicitation_scale'', map_option GoString (nd_ElicitationScale v)),
      (''unit'', map_option json_Unit (nd_Unit v)),
      (''bin_sets'', map_option (GoArray \<circ> map json_BinSet) (sd_BinSets v))]"

definition tagged_NumericDomain :: "numeric_domain \<Rightarrow> bool" where
  "tagged_NumericDomain v \<longleftrightarrow> tagged_ValuesPolicy (sd_Values v)"

lemma tidy_json_NumericDomain [simp]: "tidy (json_NumericDomain v)"
  by (simp add: json_NumericDomain_def tidy_object)

lemma tag_json_NumericDomain [simp]: "tag_of (json_NumericDomain v) = Some (sd_Kind v)"
  by (simp add: json_NumericDomain_def tag_of_def json_object_def json_members_Cons)

lemma same_json_NumericDomain [simp]: "tagged_NumericDomain v \<Longrightarrow> tagged_NumericDomain w \<Longrightarrow> same (json_NumericDomain v) (json_NumericDomain w) \<longleftrightarrow> v = w"
  by (rule numeric_domain.cases [of v]; rule numeric_domain.cases [of w]) (auto simp: json_NumericDomain_def same_object tagged_NumericDomain_def same_tagged)

definition json_ScalarDomain :: "scalar_domain \<Rightarrow> go_value" where
  "json_ScalarDomain v = json_object
     [(''kind'', Some (GoString (sd_Kind v))),
      (''bounds'', map_option json_Bounds (sd_Bounds v)),
      (''values'', Some (json_ValuesPolicy (sd_Values v))),
      (''bin_sets'', map_option (GoArray \<circ> map json_BinSet) (sd_BinSets v))]"

definition tagged_ScalarDomain :: "scalar_domain \<Rightarrow> bool" where
  "tagged_ScalarDomain v \<longleftrightarrow> tagged_ValuesPolicy (sd_Values v)"

lemma tidy_json_ScalarDomain [simp]: "tidy (json_ScalarDomain v)"
  by (simp add: json_ScalarDomain_def tidy_object)

lemma tag_json_ScalarDomain [simp]: "tag_of (json_ScalarDomain v) = Some (sd_Kind v)"
  by (simp add: json_ScalarDomain_def tag_of_def json_object_def json_members_Cons)

lemma same_json_ScalarDomain [simp]: "tagged_ScalarDomain v \<Longrightarrow> tagged_ScalarDomain w \<Longrightarrow> same (json_ScalarDomain v) (json_ScalarDomain w) \<longleftrightarrow> v = w"
  by (rule scalar_domain.cases [of v]; rule scalar_domain.cases [of w]) (auto simp: json_ScalarDomain_def same_object tagged_ScalarDomain_def same_tagged)

definition json_Domain :: "domain \<Rightarrow> go_value" where
  "json_Domain v = marshalOne
     [map_option json_BinaryDomain (dm_Binary v),
      map_option json_OptionDomain (dm_Categorical v),
      map_option json_OptionDomain (dm_Ordinal v),
      map_option json_NumericDomain (dm_Numeric v),
      map_option json_ScalarDomain (dm_Date v),
      map_option json_ScalarDomain (dm_Datetime v)]"

definition tagged_Domain :: "domain \<Rightarrow> bool" where
  "tagged_Domain v \<longleftrightarrow>
     one_of [dm_Binary v \<noteq> None, dm_Categorical v \<noteq> None, dm_Ordinal v \<noteq> None, dm_Numeric v \<noteq> None, dm_Date v \<noteq> None, dm_Datetime v \<noteq> None] \<and>
     pred_option (\<lambda>x. bn_Kind x = OutcomeBinary) (dm_Binary v) \<and>
     pred_option (\<lambda>x. od_Kind x = OutcomeCategorical) (dm_Categorical v) \<and>
     pred_option (\<lambda>x. od_Kind x = OutcomeOrdinal) (dm_Ordinal v) \<and>
     pred_option (\<lambda>x. sd_Kind x = OutcomeNumeric \<and> tagged_NumericDomain x) (dm_Numeric v) \<and>
     pred_option (\<lambda>x. sd_Kind x = OutcomeDate \<and> tagged_ScalarDomain x) (dm_Date v) \<and>
     pred_option (\<lambda>x. sd_Kind x = OutcomeDatetime \<and> tagged_ScalarDomain x) (dm_Datetime v)"

lemma tidy_json_Domain [simp]: "tidy (json_Domain v)"
  by (auto simp: json_Domain_def intro!: tidy_marshalOne)

lemma tagged_Domain_cases: "tagged_Domain v \<Longrightarrow>
    (\<exists>x. dm_Binary v = Some x \<and> dm_Categorical v = None \<and> dm_Ordinal v = None \<and> dm_Numeric v = None \<and> dm_Date v = None \<and> dm_Datetime v = None \<and> bn_Kind x = OutcomeBinary) \<or>
    (\<exists>x. dm_Binary v = None \<and> dm_Categorical v = Some x \<and> dm_Ordinal v = None \<and> dm_Numeric v = None \<and> dm_Date v = None \<and> dm_Datetime v = None \<and> od_Kind x = OutcomeCategorical) \<or>
    (\<exists>x. dm_Binary v = None \<and> dm_Categorical v = None \<and> dm_Ordinal v = Some x \<and> dm_Numeric v = None \<and> dm_Date v = None \<and> dm_Datetime v = None \<and> od_Kind x = OutcomeOrdinal) \<or>
    (\<exists>x. dm_Binary v = None \<and> dm_Categorical v = None \<and> dm_Ordinal v = None \<and> dm_Numeric v = Some x \<and> dm_Date v = None \<and> dm_Datetime v = None \<and> sd_Kind x = OutcomeNumeric \<and> tagged_NumericDomain x) \<or>
    (\<exists>x. dm_Binary v = None \<and> dm_Categorical v = None \<and> dm_Ordinal v = None \<and> dm_Numeric v = None \<and> dm_Date v = Some x \<and> dm_Datetime v = None \<and> sd_Kind x = OutcomeDate \<and> tagged_ScalarDomain x) \<or>
    (\<exists>x. dm_Binary v = None \<and> dm_Categorical v = None \<and> dm_Ordinal v = None \<and> dm_Numeric v = None \<and> dm_Date v = None \<and> dm_Datetime v = Some x \<and> sd_Kind x = OutcomeDatetime \<and> tagged_ScalarDomain x)"
  by (cases "dm_Binary v"; cases "dm_Categorical v"; cases "dm_Ordinal v"; cases "dm_Numeric v"; cases "dm_Date v"; cases "dm_Datetime v"; simp add: tagged_Domain_def one_of_def)

lemma same_json_Domain [simp]: "tagged_Domain v \<Longrightarrow> tagged_Domain w \<Longrightarrow> same (json_Domain v) (json_Domain w) \<longleftrightarrow> v = w"
  by (drule tagged_Domain_cases)+ (elim disjE exE conjE; auto simp: json_Domain_def marshalOne_def map_filter_simps same_tag intro: domain.equality)

definition json_OutcomeSpace :: "outcome_space \<Rightarrow> go_value" where
  "json_OutcomeSpace v = json_object
     [(''kind'', Some (GoString (oc_Kind v)))]"

lemma tidy_json_OutcomeSpace [simp]: "tidy (json_OutcomeSpace v)"
  by (simp add: json_OutcomeSpace_def tidy_object)

lemma tag_json_OutcomeSpace [simp]: "tag_of (json_OutcomeSpace v) = Some (oc_Kind v)"
  by (simp add: json_OutcomeSpace_def tag_of_def json_object_def json_members_Cons)

lemma same_json_OutcomeSpace [simp]: "same (json_OutcomeSpace v) (json_OutcomeSpace w) \<longleftrightarrow> v = w"
  by (rule outcome_space.cases [of v]; rule outcome_space.cases [of w]) (auto simp: json_OutcomeSpace_def same_object)

definition json_QuestionRevision :: "question_revision \<Rightarrow> go_value" where
  "json_QuestionRevision v = json_object
     [(''id'', Some (GoString (qr_ID v))),
      (''effective_at'', Some (GoString (qr_EffectiveAt v))),
      (''recorded_at'', Some (GoString (qr_RecordedAt v))),
      (''title'', Some (GoString (qr_Title v))),
      (''resolution_criteria'', Some (GoString (qr_ResolutionCriteria v))),
      (''forecasting_opens_at'', map_option GoString (qr_ForecastingOpensAt v)),
      (''expected_resolution_at'', Some (GoString (qr_ExpectedResolutionAt v))),
      (''outcome_space'', Some (json_OutcomeSpace (qr_OutcomeSpace v))),
      (''domain'', Some (json_Domain (qr_Domain v))),
      (''provenance'', map_option json_Provenance (qr_Provenance v))]"

definition tagged_QuestionRevision :: "question_revision \<Rightarrow> bool" where
  "tagged_QuestionRevision v \<longleftrightarrow> tagged_Domain (qr_Domain v)"

lemma tidy_json_QuestionRevision [simp]: "tidy (json_QuestionRevision v)"
  by (simp add: json_QuestionRevision_def tidy_object)

lemma same_json_QuestionRevision [simp]: "tagged_QuestionRevision v \<Longrightarrow> tagged_QuestionRevision w \<Longrightarrow> same (json_QuestionRevision v) (json_QuestionRevision w) \<longleftrightarrow> v = w"
  by (rule question_revision.cases [of v]; rule question_revision.cases [of w]) (auto simp: json_QuestionRevision_def same_object tagged_QuestionRevision_def same_tagged)

definition json_ProbabilityRepresentation :: "probability_representation \<Rightarrow> go_value" where
  "json_ProbabilityRepresentation v = json_object
     [(''kind'', Some (GoString (rp_Kind v))),
      (''outcome'', Some (GoBool (rp_Outcome v))),
      (''probability'', Some (GoString (rp_Probability v)))]"

lemma tidy_json_ProbabilityRepresentation [simp]: "tidy (json_ProbabilityRepresentation v)"
  by (simp add: json_ProbabilityRepresentation_def tidy_object)

lemma tag_json_ProbabilityRepresentation [simp]: "tag_of (json_ProbabilityRepresentation v) = Some (rp_Kind v)"
  by (simp add: json_ProbabilityRepresentation_def tag_of_def json_object_def json_members_Cons)

lemma same_json_ProbabilityRepresentation [simp]: "same (json_ProbabilityRepresentation v) (json_ProbabilityRepresentation w) \<longleftrightarrow> v = w"
  by (rule probability_representation.cases [of v]; rule probability_representation.cases [of w]) (auto simp: json_ProbabilityRepresentation_def same_object)

definition json_PMFEntry :: "pmf_entry \<Rightarrow> go_value" where
  "json_PMFEntry v = json_object
     [(''option_id'', Some (GoString (pe_OptionID v))),
      (''probability'', Some (GoString (pe_Probability v)))]"

lemma tidy_json_PMFEntry [simp]: "tidy (json_PMFEntry v)"
  by (simp add: json_PMFEntry_def tidy_object)

lemma same_json_PMFEntry [simp]: "same (json_PMFEntry v) (json_PMFEntry w) \<longleftrightarrow> v = w"
  by (rule pmf_entry.cases [of v]; rule pmf_entry.cases [of w]) (auto simp: json_PMFEntry_def same_object)

definition json_PMFRepresentation :: "pmf_representation \<Rightarrow> go_value" where
  "json_PMFRepresentation v = json_object
     [(''kind'', Some (GoString (pm_Kind v))),
      (''option_set_ref'', Some (json_SetRef (pm_OptionSetRef v))),
      (''entries'', Some (GoArray (map json_PMFEntry (pm_Entries v))))]"

lemma tidy_json_PMFRepresentation [simp]: "tidy (json_PMFRepresentation v)"
  by (simp add: json_PMFRepresentation_def tidy_object)

lemma tag_json_PMFRepresentation [simp]: "tag_of (json_PMFRepresentation v) = Some (pm_Kind v)"
  by (simp add: json_PMFRepresentation_def tag_of_def json_object_def json_members_Cons)

lemma same_json_PMFRepresentation [simp]: "same (json_PMFRepresentation v) (json_PMFRepresentation w) \<longleftrightarrow> v = w"
  by (rule pmf_representation.cases [of v]; rule pmf_representation.cases [of w]) (auto simp: json_PMFRepresentation_def same_object)

definition json_BinnedPMFEntry :: "binned_pmf_entry \<Rightarrow> go_value" where
  "json_BinnedPMFEntry v = json_object
     [(''bin_id'', Some (GoString (be_BinID v))),
      (''probability'', Some (GoString (be_Probability v)))]"

lemma tidy_json_BinnedPMFEntry [simp]: "tidy (json_BinnedPMFEntry v)"
  by (simp add: json_BinnedPMFEntry_def tidy_object)

lemma same_json_BinnedPMFEntry [simp]: "same (json_BinnedPMFEntry v) (json_BinnedPMFEntry w) \<longleftrightarrow> v = w"
  by (rule binned_pmf_entry.cases [of v]; rule binned_pmf_entry.cases [of w]) (auto simp: json_BinnedPMFEntry_def same_object)

definition json_BinnedPMFRepresentation :: "binned_pmf_representation \<Rightarrow> go_value" where
  "json_BinnedPMFRepresentation v = json_object
     [(''kind'', Some (GoString (bp_Kind v))),
      (''bin_set_ref'', Some (json_SetRef (bp_BinSetRef v))),
      (''entries'', Some (GoArray (map json_BinnedPMFEntry (bp_Entries v)))),
      (''left_tail_probability'', Some (GoString (bp_LeftTailProbability v))),
      (''right_tail_probability'', Some (GoString (bp_RightTailProbability v)))]"

lemma tidy_json_BinnedPMFRepresentation [simp]: "tidy (json_BinnedPMFRepresentation v)"
  by (simp add: json_BinnedPMFRepresentation_def tidy_object)

lemma tag_json_BinnedPMFRepresentation [simp]: "tag_of (json_BinnedPMFRepresentation v) = Some (bp_Kind v)"
  by (simp add: json_BinnedPMFRepresentation_def tag_of_def json_object_def json_members_Cons)

lemma same_json_BinnedPMFRepresentation [simp]: "same (json_BinnedPMFRepresentation v) (json_BinnedPMFRepresentation w) \<longleftrightarrow> v = w"
  by (rule binned_pmf_representation.cases [of v]; rule binned_pmf_representation.cases [of w]) (auto simp: json_BinnedPMFRepresentation_def same_object)

definition json_QuantilePoint :: "quantile_point \<Rightarrow> go_value" where
  "json_QuantilePoint v = json_object
     [(''level'', Some (GoString (qp_Level v))),
      (''value'', Some (json_ScalarValue (qp_Value v)))]"

definition tagged_QuantilePoint :: "quantile_point \<Rightarrow> bool" where
  "tagged_QuantilePoint v \<longleftrightarrow> tagged_ScalarValue (qp_Value v)"

lemma tidy_json_QuantilePoint [simp]: "tidy (json_QuantilePoint v)"
  by (simp add: json_QuantilePoint_def tidy_object)

lemma same_json_QuantilePoint [simp]: "tagged_QuantilePoint v \<Longrightarrow> tagged_QuantilePoint w \<Longrightarrow> same (json_QuantilePoint v) (json_QuantilePoint w) \<longleftrightarrow> v = w"
  by (rule quantile_point.cases [of v]; rule quantile_point.cases [of w]) (auto simp: json_QuantilePoint_def same_object tagged_QuantilePoint_def same_tagged)

definition json_QuantilesRepresentation :: "quantiles_representation \<Rightarrow> go_value" where
  "json_QuantilesRepresentation v = json_object
     [(''kind'', Some (GoString (qn_Kind v))),
      (''interpolation'', Some (GoString (qn_Interpolation v))),
      (''points'', Some (GoArray (map json_QuantilePoint (qn_Points v))))]"

definition tagged_QuantilesRepresentation :: "quantiles_representation \<Rightarrow> bool" where
  "tagged_QuantilesRepresentation v \<longleftrightarrow> (\<forall>y\<in>set (qn_Points v). tagged_QuantilePoint y)"

lemma tidy_json_QuantilesRepresentation [simp]: "tidy (json_QuantilesRepresentation v)"
  by (simp add: json_QuantilesRepresentation_def tidy_object)

lemma tag_json_QuantilesRepresentation [simp]: "tag_of (json_QuantilesRepresentation v) = Some (qn_Kind v)"
  by (simp add: json_QuantilesRepresentation_def tag_of_def json_object_def json_members_Cons)

lemma same_json_QuantilesRepresentation [simp]: "tagged_QuantilesRepresentation v \<Longrightarrow> tagged_QuantilesRepresentation w \<Longrightarrow> same (json_QuantilesRepresentation v) (json_QuantilesRepresentation w) \<longleftrightarrow> v = w"
  by (rule quantiles_representation.cases [of v]; rule quantiles_representation.cases [of w]) (auto simp: json_QuantilesRepresentation_def same_object tagged_QuantilesRepresentation_def same_tagged)

definition json_CDFPoint :: "cdf_point \<Rightarrow> go_value" where
  "json_CDFPoint v = json_object
     [(''value'', Some (json_ScalarValue (cp_Value v))),
      (''probability'', Some (GoString (cp_Probability v)))]"

definition tagged_CDFPoint :: "cdf_point \<Rightarrow> bool" where
  "tagged_CDFPoint v \<longleftrightarrow> tagged_ScalarValue (cp_Value v)"

lemma tidy_json_CDFPoint [simp]: "tidy (json_CDFPoint v)"
  by (simp add: json_CDFPoint_def tidy_object)

lemma same_json_CDFPoint [simp]: "tagged_CDFPoint v \<Longrightarrow> tagged_CDFPoint w \<Longrightarrow> same (json_CDFPoint v) (json_CDFPoint w) \<longleftrightarrow> v = w"
  by (rule cdf_point.cases [of v]; rule cdf_point.cases [of w]) (auto simp: json_CDFPoint_def same_object tagged_CDFPoint_def same_tagged)

definition json_CDFRepresentation :: "cdf_representation \<Rightarrow> go_value" where
  "json_CDFRepresentation v = json_object
     [(''kind'', Some (GoString (cd_Kind v))),
      (''interpolation'', Some (GoString (cd_Interpolation v))),
      (''points'', Some (GoArray (map json_CDFPoint (cd_Points v)))),
      (''left_tail_probability'', Some (GoString (cd_LeftTailProbability v))),
      (''right_tail_probability'', Some (GoString (cd_RightTailProbability v)))]"

definition tagged_CDFRepresentation :: "cdf_representation \<Rightarrow> bool" where
  "tagged_CDFRepresentation v \<longleftrightarrow> (\<forall>y\<in>set (cd_Points v). tagged_CDFPoint y)"

lemma tidy_json_CDFRepresentation [simp]: "tidy (json_CDFRepresentation v)"
  by (simp add: json_CDFRepresentation_def tidy_object)

lemma tag_json_CDFRepresentation [simp]: "tag_of (json_CDFRepresentation v) = Some (cd_Kind v)"
  by (simp add: json_CDFRepresentation_def tag_of_def json_object_def json_members_Cons)

lemma same_json_CDFRepresentation [simp]: "tagged_CDFRepresentation v \<Longrightarrow> tagged_CDFRepresentation w \<Longrightarrow> same (json_CDFRepresentation v) (json_CDFRepresentation w) \<longleftrightarrow> v = w"
  by (rule cdf_representation.cases [of v]; rule cdf_representation.cases [of w]) (auto simp: json_CDFRepresentation_def same_object tagged_CDFRepresentation_def same_tagged)

definition json_PointRepresentation :: "point_representation \<Rightarrow> go_value" where
  "json_PointRepresentation v = json_object
     [(''kind'', Some (GoString (pt_Kind v))),
      (''statistic'', Some (GoString (pt_Statistic v))),
      (''value'', Some (json_ScalarValue (pt_Value v)))]"

definition tagged_PointRepresentation :: "point_representation \<Rightarrow> bool" where
  "tagged_PointRepresentation v \<longleftrightarrow> tagged_ScalarValue (pt_Value v)"

lemma tidy_json_PointRepresentation [simp]: "tidy (json_PointRepresentation v)"
  by (simp add: json_PointRepresentation_def tidy_object)

lemma tag_json_PointRepresentation [simp]: "tag_of (json_PointRepresentation v) = Some (pt_Kind v)"
  by (simp add: json_PointRepresentation_def tag_of_def json_object_def json_members_Cons)

lemma same_json_PointRepresentation [simp]: "tagged_PointRepresentation v \<Longrightarrow> tagged_PointRepresentation w \<Longrightarrow> same (json_PointRepresentation v) (json_PointRepresentation w) \<longleftrightarrow> v = w"
  by (rule point_representation.cases [of v]; rule point_representation.cases [of w]) (auto simp: json_PointRepresentation_def same_object tagged_PointRepresentation_def same_tagged)

definition json_CredibleInterval :: "credible_interval \<Rightarrow> go_value" where
  "json_CredibleInterval v = json_object
     [(''coverage'', Some (GoString (ci_Coverage v))),
      (''interval_kind'', Some (GoString (ci_IntervalKind v))),
      (''lower'', Some (json_ScalarValue (ci_Lower v))),
      (''upper'', Some (json_ScalarValue (ci_Upper v)))]"

definition tagged_CredibleInterval :: "credible_interval \<Rightarrow> bool" where
  "tagged_CredibleInterval v \<longleftrightarrow> tagged_ScalarValue (ci_Lower v) \<and> tagged_ScalarValue (ci_Upper v)"

lemma tidy_json_CredibleInterval [simp]: "tidy (json_CredibleInterval v)"
  by (simp add: json_CredibleInterval_def tidy_object)

lemma same_json_CredibleInterval [simp]: "tagged_CredibleInterval v \<Longrightarrow> tagged_CredibleInterval w \<Longrightarrow> same (json_CredibleInterval v) (json_CredibleInterval w) \<longleftrightarrow> v = w"
  by (rule credible_interval.cases [of v]; rule credible_interval.cases [of w]) (auto simp: json_CredibleInterval_def same_object tagged_CredibleInterval_def same_tagged)

definition json_CredibleIntervalsRepresentation :: "credible_intervals_representation \<Rightarrow> go_value" where
  "json_CredibleIntervalsRepresentation v = json_object
     [(''kind'', Some (GoString (cr_Kind v))),
      (''intervals'', Some (GoArray (map json_CredibleInterval (cr_Intervals v))))]"

definition tagged_CredibleIntervalsRepresentation :: "credible_intervals_representation \<Rightarrow> bool" where
  "tagged_CredibleIntervalsRepresentation v \<longleftrightarrow> (\<forall>y\<in>set (cr_Intervals v). tagged_CredibleInterval y)"

lemma tidy_json_CredibleIntervalsRepresentation [simp]: "tidy (json_CredibleIntervalsRepresentation v)"
  by (simp add: json_CredibleIntervalsRepresentation_def tidy_object)

lemma tag_json_CredibleIntervalsRepresentation [simp]: "tag_of (json_CredibleIntervalsRepresentation v) = Some (cr_Kind v)"
  by (simp add: json_CredibleIntervalsRepresentation_def tag_of_def json_object_def json_members_Cons)

lemma same_json_CredibleIntervalsRepresentation [simp]: "tagged_CredibleIntervalsRepresentation v \<Longrightarrow> tagged_CredibleIntervalsRepresentation w \<Longrightarrow> same (json_CredibleIntervalsRepresentation v) (json_CredibleIntervalsRepresentation w) \<longleftrightarrow> v = w"
  by (rule credible_intervals_representation.cases [of v]; rule credible_intervals_representation.cases [of w]) (auto simp: json_CredibleIntervalsRepresentation_def same_object tagged_CredibleIntervalsRepresentation_def same_tagged)

definition json_ForecastRepresentation :: "forecast_representation \<Rightarrow> go_value" where
  "json_ForecastRepresentation v = marshalOne
     [map_option json_ProbabilityRepresentation (fr_Probability v),
      map_option json_PMFRepresentation (fr_PMF v),
      map_option json_BinnedPMFRepresentation (fr_BinnedPMF v),
      map_option json_QuantilesRepresentation (fr_Quantiles v),
      map_option json_CDFRepresentation (fr_CDF v),
      map_option json_PointRepresentation (fr_Point v),
      map_option json_CredibleIntervalsRepresentation (fr_CredibleIntervals v)]"

definition tagged_ForecastRepresentation :: "forecast_representation \<Rightarrow> bool" where
  "tagged_ForecastRepresentation v \<longleftrightarrow>
     one_of [fr_Probability v \<noteq> None, fr_PMF v \<noteq> None, fr_BinnedPMF v \<noteq> None, fr_Quantiles v \<noteq> None, fr_CDF v \<noteq> None, fr_Point v \<noteq> None, fr_CredibleIntervals v \<noteq> None] \<and>
     pred_option (\<lambda>x. rp_Kind x = RepresentationProbability) (fr_Probability v) \<and>
     pred_option (\<lambda>x. pm_Kind x = RepresentationPMF) (fr_PMF v) \<and>
     pred_option (\<lambda>x. bp_Kind x = RepresentationBinnedPMF) (fr_BinnedPMF v) \<and>
     pred_option (\<lambda>x. qn_Kind x = RepresentationQuantiles \<and> tagged_QuantilesRepresentation x) (fr_Quantiles v) \<and>
     pred_option (\<lambda>x. cd_Kind x = RepresentationCDF \<and> tagged_CDFRepresentation x) (fr_CDF v) \<and>
     pred_option (\<lambda>x. pt_Kind x = RepresentationPoint \<and> tagged_PointRepresentation x) (fr_Point v) \<and>
     pred_option (\<lambda>x. cr_Kind x = RepresentationCredibleIntervals \<and> tagged_CredibleIntervalsRepresentation x) (fr_CredibleIntervals v)"

lemma tidy_json_ForecastRepresentation [simp]: "tidy (json_ForecastRepresentation v)"
  by (auto simp: json_ForecastRepresentation_def intro!: tidy_marshalOne)

lemma tagged_ForecastRepresentation_cases: "tagged_ForecastRepresentation v \<Longrightarrow>
    (\<exists>x. fr_Probability v = Some x \<and> fr_PMF v = None \<and> fr_BinnedPMF v = None \<and> fr_Quantiles v = None \<and> fr_CDF v = None \<and> fr_Point v = None \<and> fr_CredibleIntervals v = None \<and> rp_Kind x = RepresentationProbability) \<or>
    (\<exists>x. fr_Probability v = None \<and> fr_PMF v = Some x \<and> fr_BinnedPMF v = None \<and> fr_Quantiles v = None \<and> fr_CDF v = None \<and> fr_Point v = None \<and> fr_CredibleIntervals v = None \<and> pm_Kind x = RepresentationPMF) \<or>
    (\<exists>x. fr_Probability v = None \<and> fr_PMF v = None \<and> fr_BinnedPMF v = Some x \<and> fr_Quantiles v = None \<and> fr_CDF v = None \<and> fr_Point v = None \<and> fr_CredibleIntervals v = None \<and> bp_Kind x = RepresentationBinnedPMF) \<or>
    (\<exists>x. fr_Probability v = None \<and> fr_PMF v = None \<and> fr_BinnedPMF v = None \<and> fr_Quantiles v = Some x \<and> fr_CDF v = None \<and> fr_Point v = None \<and> fr_CredibleIntervals v = None \<and> qn_Kind x = RepresentationQuantiles \<and> tagged_QuantilesRepresentation x) \<or>
    (\<exists>x. fr_Probability v = None \<and> fr_PMF v = None \<and> fr_BinnedPMF v = None \<and> fr_Quantiles v = None \<and> fr_CDF v = Some x \<and> fr_Point v = None \<and> fr_CredibleIntervals v = None \<and> cd_Kind x = RepresentationCDF \<and> tagged_CDFRepresentation x) \<or>
    (\<exists>x. fr_Probability v = None \<and> fr_PMF v = None \<and> fr_BinnedPMF v = None \<and> fr_Quantiles v = None \<and> fr_CDF v = None \<and> fr_Point v = Some x \<and> fr_CredibleIntervals v = None \<and> pt_Kind x = RepresentationPoint \<and> tagged_PointRepresentation x) \<or>
    (\<exists>x. fr_Probability v = None \<and> fr_PMF v = None \<and> fr_BinnedPMF v = None \<and> fr_Quantiles v = None \<and> fr_CDF v = None \<and> fr_Point v = None \<and> fr_CredibleIntervals v = Some x \<and> cr_Kind x = RepresentationCredibleIntervals \<and> tagged_CredibleIntervalsRepresentation x)"
  by (cases "fr_Probability v"; cases "fr_PMF v"; cases "fr_BinnedPMF v"; cases "fr_Quantiles v"; cases "fr_CDF v"; cases "fr_Point v"; cases "fr_CredibleIntervals v"; simp add: tagged_ForecastRepresentation_def one_of_def)

lemma same_json_ForecastRepresentation [simp]: "tagged_ForecastRepresentation v \<Longrightarrow> tagged_ForecastRepresentation w \<Longrightarrow> same (json_ForecastRepresentation v) (json_ForecastRepresentation w) \<longleftrightarrow> v = w"
  by (drule tagged_ForecastRepresentation_cases)+ (elim disjE exE conjE; auto simp: json_ForecastRepresentation_def marshalOne_def map_filter_simps same_tag intro: forecast_representation.equality)

definition json_LifecycleEvent :: "lifecycle_event \<Rightarrow> go_value" where
  "json_LifecycleEvent v = json_object
     [(''id'', Some (GoString (le_ID v))),
      (''type'', Some (GoString (le_Type v))),
      (''effective_at'', Some (GoString (le_EffectiveAt v))),
      (''recorded_at'', Some (GoString (le_RecordedAt v))),
      (''reason'', map_option GoString (le_Reason v)),
      (''provenance'', map_option json_Provenance (le_Provenance v))]"

lemma tidy_json_LifecycleEvent [simp]: "tidy (json_LifecycleEvent v)"
  by (simp add: json_LifecycleEvent_def tidy_object)

lemma same_json_LifecycleEvent [simp]: "same (json_LifecycleEvent v) (json_LifecycleEvent w) \<longleftrightarrow> v = w"
  by (rule lifecycle_event.cases [of v]; rule lifecycle_event.cases [of w]) (auto simp: json_LifecycleEvent_def same_object)

definition json_Encryption :: "encryption \<Rightarrow> go_value" where
  "json_Encryption v = json_object
     [(''algorithm'', Some (GoString (en_Algorithm v))),
      (''nonce'', Some (GoString (en_Nonce v))),
      (''ciphertext'', Some (GoString (en_Ciphertext v)))]"

lemma tidy_json_Encryption [simp]: "tidy (json_Encryption v)"
  by (simp add: json_Encryption_def tidy_object)

lemma same_json_Encryption [simp]: "same (json_Encryption v) (json_Encryption w) \<longleftrightarrow> v = w"
  by (rule encryption.cases [of v]; rule encryption.cases [of w]) (auto simp: json_Encryption_def same_object)
end
