(* ===== verification/Go_Crypto.thy ===== *)
theory Go_Crypto
  imports Go_Bytes "HOL-Library.Word"
begin

text \<open>
  The parts of the Go library behind targets and commitments: \<open>crypto/sha256\<close> on 32-bit words
  and the standard padded alphabet of \<open>encoding/base64\<close> with its strict decoder.
\<close>

section \<open>SHA-256\<close>

unbundle bit_operations_syntax

type_synonym word32 = "32 word"

definition sha_K :: "word32 list" where
  "sha_K = map word_of_int
     [1116352408, 1899447441, 3049323471, 3921009573, 961987163, 1508970993, 2453635748, 2870763221,
      3624381080, 310598401, 607225278, 1426881987, 1925078388, 2162078206, 2614888103, 3248222580,
      3835390401, 4022224774, 264347078, 604807628, 770255983, 1249150122, 1555081692, 1996064986,
      2554220882, 2821834349, 2952996808, 3210313671, 3336571891, 3584528711, 113926993, 338241895,
      666307205, 773529912, 1294757372, 1396182291, 1695183700, 1986661051, 2177026350, 2456956037,
      2730485921, 2820302411, 3259730800, 3345764771, 3516065817, 3600352804, 4094571909, 275423344,
      430227734, 506948616, 659060556, 883997877, 958139571, 1322822218, 1537002063, 1747873779,
      1955562222, 2024104815, 2227730452, 2361852424, 2428436474, 2756734187, 3204031479, 3329325298]"

definition sha_H :: "word32 list" where
  "sha_H = map word_of_int
     [1779033703, 3144134277, 1013904242, 2773480762, 1359893119, 2600822924, 528734635, 1541459225]"

definition sha_small :: "nat \<Rightarrow> nat \<Rightarrow> nat \<Rightarrow> word32 \<Rightarrow> word32" where
  "sha_small i j n x = word_rotr i x XOR word_rotr j x XOR drop_bit n x"

definition sha_big :: "nat \<Rightarrow> nat \<Rightarrow> nat \<Rightarrow> word32 \<Rightarrow> word32" where
  "sha_big i j n x = word_rotr i x XOR word_rotr j x XOR word_rotr n x"

text \<open>The bytes, a one bit, zeros up to eight bytes before a block boundary, the length in bits.\<close>

definition big_endian :: "nat \<Rightarrow> nat \<Rightarrow> string" where
  "big_endian k n = map (\<lambda>i. char_of (n div 256 ^ (k - 1 - i) mod 256)) [0..<k]"

definition sha_pad :: "string \<Rightarrow> string" where
  "sha_pad s =
     s @ [char_of (128::nat)] @ replicate ((119 - length s mod 64) mod 64) (char_of (0::nat)) @
     big_endian 8 (8 * length s mod 2 ^ 64)"

fun sha_words :: "string \<Rightarrow> word32 list" where
  "sha_words (a # b # c # d # s) =
     word_of_nat (((byte a * 256 + byte b) * 256 + byte c) * 256 + byte d) # sha_words s"
| "sha_words _ = []"

text \<open>The message schedule, newest word first.\<close>

fun sha_schedule :: "nat \<Rightarrow> word32 list \<Rightarrow> word32 list" where
  "sha_schedule 0 ws = ws"
| "sha_schedule (Suc n) ws =
     sha_schedule n ((sha_small 17 19 10 (ws ! 1) + ws ! 6 + sha_small 7 18 3 (ws ! 14) + ws ! 15) # ws)"

fun sha_round :: "word32 list \<Rightarrow> word32 \<times> word32 \<Rightarrow> word32 list" where
  "sha_round [a, b, c, d, e, f, g, h] (k, w) =
     (let t1 = h + sha_big 6 11 25 e + ((e AND f) XOR (NOT e AND g)) + k + w;
          t2 = sha_big 2 13 22 a + ((a AND b) XOR (a AND c) XOR (b AND c))
      in [t1 + t2, a, b, c, d + t1, e, f, g])"
| "sha_round s _ = s"

definition sha_block :: "word32 list \<Rightarrow> word32 list \<Rightarrow> word32 list" where
  "sha_block h ws = map2 (+) h (foldl sha_round h (zip sha_K (rev (sha_schedule 48 (rev ws)))))"

function sha_blocks :: "word32 list \<Rightarrow> word32 list \<Rightarrow> word32 list" where
  "sha_blocks h ws = (if length ws < 16 then h else sha_blocks (sha_block h (take 16 ws)) (drop 16 ws))"
  by pat_completeness auto
termination by (relation "measure (length \<circ> snd)") auto

declare sha_blocks.simps [simp del]

definition sha256 :: "string \<Rightarrow> string" where
  "sha256 s = concat (map (\<lambda>w. big_endian 4 (unat w)) (sha_blocks sha_H (sha_words (sha_pad s))))"

lemma sha_block_length: "length h = 8 \<Longrightarrow> length (sha_block h ws) = 8"
proof -
  have round: "length h = 8 \<Longrightarrow> length (sha_round h p) = 8" for h p
    by (induction h p rule: sha_round.induct) (auto simp: Let_def)
  have "length h = 8 \<Longrightarrow> length (foldl sha_round h ps) = 8" for ps
    by (induction ps arbitrary: h) (simp_all add: round)
  then show "length h = 8 \<Longrightarrow> length (sha_block h ws) = 8" by (simp add: sha_block_def)
qed

lemma sha256_length [simp]: "length (sha256 s) = 32"
proof -
  have "length h = 8 \<Longrightarrow> length (sha_blocks h ws) = 8" for h ws
    by (induction h ws rule: sha_blocks.induct) (subst sha_blocks.simps, simp add: sha_block_length)
  then have "length (sha_blocks sha_H (sha_words (sha_pad s))) = 8" by (simp add: sha_H_def)
  moreover have "length (concat (map (\<lambda>w :: word32. big_endian 4 (unat w)) ws)) = 4 * length ws" for ws
    by (induction ws) (simp_all add: big_endian_def)
  ultimately show ?thesis by (simp add: sha256_def)
qed

section \<open>Base64\<close>

definition base64_digit :: "nat \<Rightarrow> char" where
  "base64_digit n =
     (if n < 26 then char_of (65 + n) else if n < 52 then char_of (71 + n) else if n < 62 then char_of (n - 4)
      else if n = 62 then CHR ''+'' else CHR ''/'')"

definition base64_value :: "char \<Rightarrow> nat option" where
  "base64_value c =
     (let n = byte c in
      if 65 \<le> n \<and> n \<le> 90 then Some (n - 65)
      else if 97 \<le> n \<and> n \<le> 122 then Some (n - 71)
      else if 48 \<le> n \<and> n \<le> 57 then Some (n + 4)
      else if n = 43 then Some 62
      else if n = 47 then Some 63
      else None)"

fun base64_Encode :: "string \<Rightarrow> string" where
  "base64_Encode [] = []"
| "base64_Encode [a] =
     [base64_digit (byte a div 4), base64_digit (byte a mod 4 * 16), CHR ''='', CHR ''='']"
| "base64_Encode [a, b] =
     [base64_digit (byte a div 4), base64_digit (byte a mod 4 * 16 + byte b div 16),
      base64_digit (byte b mod 16 * 4), CHR ''='']"
| "base64_Encode (a # b # c # s) =
     base64_digit (byte a div 4) # base64_digit (byte a mod 4 * 16 + byte b div 16) #
     base64_digit (byte b mod 16 * 4 + byte c div 64) # base64_digit (byte c mod 64) # base64_Encode s"

text \<open>
  \<open>StdEncoding.Strict().DecodeString\<close>: groups of four with padding in the last one only and no
  stray bits; carriage returns and line feeds are skipped.
\<close>

fun base64_groups :: "string \<Rightarrow> string option" where
  "base64_groups [] = Some []"
| "base64_groups (a # b # c # d # s) =
     (case (base64_value a, base64_value b) of
        (Some w, Some x) \<Rightarrow>
          if c = CHR ''='' then
            (if d = CHR ''='' \<and> s = [] \<and> x mod 16 = 0 then Some [char_of (w * 4 + x div 16)] else None)
          else
            (case base64_value c of
               None \<Rightarrow> None
             | Some y \<Rightarrow>
                 if d = CHR ''='' then
                   (if s = [] \<and> y mod 4 = 0
                    then Some [char_of (w * 4 + x div 16), char_of (x mod 16 * 16 + y div 4)] else None)
                 else
                   (case (base64_value d, base64_groups s) of
                      (Some z, Some t) \<Rightarrow>
                        Some (char_of (w * 4 + x div 16) # char_of (x mod 16 * 16 + y div 4) #
                              char_of (y mod 4 * 64 + z) # t)
                    | _ \<Rightarrow> None))
      | _ \<Rightarrow> None)"
| "base64_groups _ = None"

definition base64_Decode :: "string \<Rightarrow> string option" where
  "base64_Decode s = base64_groups (filter (\<lambda>c. byte c \<noteq> 10 \<and> byte c \<noteq> 13) s)"

lemma base64_value_digit [simp]: "n < 64 \<Longrightarrow> base64_value (base64_digit n) = Some n"
proof -
  assume n: "n < 64"
  have b: "m < 256 \<Longrightarrow> byte (char_of m) = m" for m :: nat by (simp add: of_char_of take_bit_eq_mod)
  consider "n < 26" | "26 \<le> n" "n < 52" | "52 \<le> n" "n < 62" | "n = 62" | "n = 63" using n by linarith
  then show ?thesis by cases (auto simp: base64_digit_def base64_value_def Let_def b simp del: of_char_of)
qed

lemma base64_digit_plain [simp]: "n < 64 \<Longrightarrow> base64_digit n \<noteq> CHR ''=''"
  "n < 64 \<Longrightarrow> byte (base64_digit n) \<noteq> 10" "n < 64 \<Longrightarrow> byte (base64_digit n) \<noteq> 13"
  using base64_value_digit [of n] by (auto simp: base64_value_def)

lemma base64_groups_Encode: "base64_groups (base64_Encode s) = Some s"
proof (induction s rule: base64_Encode.induct)
  case (2 a)
  have b: "byte a < 256" by (rule nat_of_char_less_256)
  then have "byte a div 4 < 64" "byte a mod 4 * 16 < 64" by linarith+
  moreover have "byte a mod 4 * 16 mod 16 = 0" "byte a div 4 * 4 + byte a mod 4 * 16 div 16 = byte a" by simp_all
  ultimately show ?case by simp
next
  case (3 a b)
  have bytes: "byte a < 256" "byte b < 256" by (rule nat_of_char_less_256)+
  let ?x = "byte a mod 4 * 16 + byte b div 16" and ?y = "byte b mod 16 * 4"
  have lt: "byte a div 4 < 64" "?x < 64" "?y < 64" using bytes by linarith+
  have "byte b div 16 < 16" using bytes by linarith
  then have x: "?x div 16 = byte a mod 4" "?x mod 16 = byte b div 16" by simp_all
  have y: "?y div 4 = byte b mod 16" "?y mod 4 = 0" by simp_all
  have "byte a div 4 * 4 + byte a mod 4 = byte a" "byte b div 16 * 16 + byte b mod 16 = byte b" by simp_all
  with lt x y show ?case by simp
next
  case (4 a b c s)
  have bytes: "byte a < 256" "byte b < 256" "byte c < 256" by (rule nat_of_char_less_256)+
  let ?x = "byte a mod 4 * 16 + byte b div 16" and ?y = "byte b mod 16 * 4 + byte c div 64"
  have lt: "byte a div 4 < 64" "?x < 64" "?y < 64" "byte c mod 64 < 64" using bytes by linarith+
  have "byte b div 16 < 16" "byte c div 64 < 4" using bytes by linarith+
  then have x: "?x div 16 = byte a mod 4" "?x mod 16 = byte b div 16" and y: "?y div 4 = byte b mod 16" "?y mod 4 = byte c div 64"
    by simp_all
  have "byte a div 4 * 4 + byte a mod 4 = byte a" "byte b div 16 * 16 + byte b mod 16 = byte b"
    "byte c div 64 * 64 + byte c mod 64 = byte c" by simp_all
  with lt x y 4 show ?case by simp
qed simp_all

lemma base64_roundtrip [simp]: "base64_Decode (base64_Encode s) = Some s"
proof -
  have "filter (\<lambda>c. byte c \<noteq> 10 \<and> byte c \<noteq> 13) (base64_Encode s) = base64_Encode s"
  proof (induction s rule: base64_Encode.induct)
    case (2 a)
    have "byte a div 4 < 64" "byte a mod 4 * 16 < 64" using nat_of_char_less_256 [of a] by linarith+
    then show ?case by simp
  next
    case (3 a b)
    have "byte a div 4 < 64" "byte a mod 4 * 16 + byte b div 16 < 64" "byte b mod 16 * 4 < 64"
      using nat_of_char_less_256 [of a] nat_of_char_less_256 [of b] by linarith+
    then show ?case by simp
  next
    case (4 a b c s)
    have "byte a div 4 < 64" "byte a mod 4 * 16 + byte b div 16 < 64" "byte b mod 16 * 4 + byte c div 64 < 64" "byte c mod 64 < 64"
      using nat_of_char_less_256 [of a] nat_of_char_less_256 [of b] nat_of_char_less_256 [of c] by linarith+
    with 4 show ?case by simp
  qed simp
  then show ?thesis by (simp add: base64_Decode_def base64_groups_Encode)
qed

end
