(* ===== verification/Forecast_Targets.thy ===== *)
theory Forecast_Targets
  imports Struct_Encoding Go_Crypto Example_Ledger
begin

text \<open>
  \<open>internal/target/target.go\<close>: the canonical bytes of a forecast and of its lifecycle up to one
  event, and their digests.  A timestamp is obtained on these bytes, so what they leave out may
  change later and what they contain may not: the theorems say which is which.
\<close>

section \<open>Envelopes\<close>

record commitment_projection =
  cj_Scheme :: string
  cj_CommitmentHash :: digest
  cj_Encryption :: encryption

record forecast_projection =
  fp_ID :: slug
  fp_QuestionRevisionID :: slug
  fp_ForecastedAt :: timestamp
  fp_RecordedAt :: timestamp
  fp_Visibility :: string
  fp_Representations :: "forecast_representation list option"
  fp_Rationale :: "string option"
  fp_KeyFactors :: "string list option"
  fp_Comment :: "string option"
  fp_PublicNote :: "string option"
  fp_SupersedesForecastID :: "slug option"
  fp_Provenance :: "provenance option"
  fp_Commitment :: "commitment_projection option"

definition json_CommitmentProjection :: "commitment_projection \<Rightarrow> go_value" where
  "json_CommitmentProjection v = json_object
     [(''scheme'', Some (GoString (cj_Scheme v))),
      (''commitment_hash'', Some (json_Digest (cj_CommitmentHash v))),
      (''encryption'', Some (json_Encryption (cj_Encryption v)))]"

definition json_ForecastProjection :: "forecast_projection \<Rightarrow> go_value" where
  "json_ForecastProjection v = json_object
     [(''id'', Some (GoString (fp_ID v))),
      (''question_revision_id'', Some (GoString (fp_QuestionRevisionID v))),
      (''forecasted_at'', Some (GoString (fp_ForecastedAt v))),
      (''recorded_at'', Some (GoString (fp_RecordedAt v))),
      (''visibility'', Some (GoString (fp_Visibility v))),
      (''representations'', map_option (GoArray \<circ> map json_ForecastRepresentation) (fp_Representations v)),
      (''rationale'', map_option GoString (fp_Rationale v)),
      (''key_factors'', map_option (GoArray \<circ> map GoString) (fp_KeyFactors v)),
      (''comment'', map_option GoString (fp_Comment v)),
      (''public_note'', map_option GoString (fp_PublicNote v)),
      (''supersedes_forecast_id'', map_option GoString (fp_SupersedesForecastID v)),
      (''provenance'', map_option json_Provenance (fp_Provenance v)),
      (''commitment'', map_option json_CommitmentProjection (fp_Commitment v))]"

record forecast_envelope =
  fv_Schema :: string
  fv_QuestionID :: slug
  fv_QuestionRevision :: question_revision
  fv_Forecast :: forecast_projection

definition json_forecastEnvelope :: "forecast_envelope \<Rightarrow> go_value" where
  "json_forecastEnvelope v = json_object
     [(''schema'', Some (GoString (fv_Schema v))),
      (''question'', Some (json_object
        [(''id'', Some (GoString (fv_QuestionID v))),
         (''revision'', Some (json_QuestionRevision (fv_QuestionRevision v)))])),
      (''forecast'', Some (json_ForecastProjection (fv_Forecast v)))]"

record lifecycle_envelope =
  lv_Schema :: string
  lv_QuestionID :: slug
  lv_ForecastID :: slug
  lv_ForecastEnvelopeSHA256 :: digest
  lv_LifecycleEvents :: "lifecycle_event list"
  lv_HeadEventID :: slug

definition json_lifecycleEnvelope :: "lifecycle_envelope \<Rightarrow> go_value" where
  "json_lifecycleEnvelope v = json_object
     [(''schema'', Some (GoString (lv_Schema v))),
      (''question_id'', Some (GoString (lv_QuestionID v))),
      (''forecast_id'', Some (GoString (lv_ForecastID v))),
      (''forecast_envelope_sha256'', Some (json_Digest (lv_ForecastEnvelopeSHA256 v))),
      (''lifecycle_events'', Some (GoArray (map json_LifecycleEvent (lv_LifecycleEvents v)))),
      (''head_event_id'', Some (GoString (lv_HeadEventID v)))]"

section \<open>Targets\<close>

datatype target_error =
    TargetMessage string
  | TargetEncoding canonical_error

definition canonicalBytes :: "go_value \<Rightarrow> target_error + string \<times> string" where
  "canonicalBytes v =
     (case canonicalJSON v of
        Inl e \<Rightarrow> Inl (TargetEncoding e)
      | Inr result \<Rightarrow> Inr (result, hex_EncodeToString (sha256 result)))"

definition commitment_projection_of :: "sealed_commitment \<Rightarrow> commitment_projection" where
  "commitment_projection_of v =
     \<lparr>cj_Scheme = sc_Scheme v, cj_CommitmentHash = sc_CommitmentHash v, cj_Encryption = sc_Encryption v\<rparr>"

text \<open>The projection of a forecast, with the error of its \<open>switch\<close> on the visibility.\<close>

definition project :: "forecast \<Rightarrow> target_error + forecast_projection" where
  "project f =
     (let projection =
        \<lparr>fp_ID = fo_ID f, fp_QuestionRevisionID = fo_QuestionRevisionID f, fp_ForecastedAt = fo_ForecastedAt f,
         fp_RecordedAt = fo_RecordedAt f, fp_Visibility = fo_Visibility f, fp_Representations = None,
         fp_Rationale = None, fp_KeyFactors = None, fp_Comment = None, fp_PublicNote = fo_PublicNote f,
         fp_SupersedesForecastID = fo_SupersedesForecastID f, fp_Provenance = fo_Provenance f, fp_Commitment = None\<rparr>
      in if fo_Visibility f = VisibilityPublic then
           Inr (projection\<lparr>fp_Representations := fo_Representations f, fp_Rationale := fo_Rationale f,
                  fp_KeyFactors := fo_KeyFactors f, fp_Comment := fo_Comment f\<rparr>)
         else if fo_Visibility f = VisibilitySealed \<or> fo_Visibility f = VisibilityRevealed then
           (let projection = projection\<lparr>fp_Visibility := VisibilitySealed\<rparr> in
            case fo_Commitment f of
              None \<Rightarrow> Inl (TargetMessage ''sealed forecast commitment is missing'')
            | Some c \<Rightarrow>
                (case cm_Sealed c of
                   Some v \<Rightarrow> Inr (projection\<lparr>fp_Commitment := Some (commitment_projection_of v)\<rparr>)
                 | None \<Rightarrow>
                     (case cm_Revealed c of
                        Some v \<Rightarrow> Inr (projection\<lparr>fp_Commitment :=
                          Some (commitment_projection_of (sealed_commitment.truncate v))\<rparr>)
                      | None \<Rightarrow> Inl (TargetMessage ''sealed forecast commitment is empty''))))
         else Inl (TargetMessage ''forecast visibility is not supported for targets''))"

definition Forecast :: "question \<Rightarrow> forecast \<Rightarrow> target_error + string \<times> string" where
  "Forecast q f =
     (case find_revision (fo_QuestionRevisionID f) (qu_Revisions q) of
        None \<Rightarrow> Inl (TargetMessage ''forecast references a missing question revision'')
      | Some revision \<Rightarrow>
          bindR (project f) (\<lambda>projection.
            canonicalBytes (json_forecastEnvelope
              \<lparr>fv_Schema = ForecastEnvelopeSchema, fv_QuestionID = qu_ID q, fv_QuestionRevision = revision,
               fv_Forecast = projection\<rparr>)))"

definition Lifecycle :: "question \<Rightarrow> forecast \<Rightarrow> slug \<Rightarrow> target_error + string \<times> string" where
  "Lifecycle q f headEventID =
     (case fo_LifecycleEvents f of
        None \<Rightarrow> Inl (TargetMessage ''forecast has no lifecycle events'')
      | Some events \<Rightarrow>
          (case find_index (\<lambda>e. le_ID e = headEventID) events of
             None \<Rightarrow> Inl (TargetMessage ''lifecycle head does not exist'')
           | Some head \<Rightarrow>
               bindR (Forecast q f) (\<lambda>(_, forecastDigest).
                 canonicalBytes (json_lifecycleEnvelope
                   \<lparr>lv_Schema = LifecycleSchema, lv_QuestionID = qu_ID q, lv_ForecastID = fo_ID f,
                    lv_ForecastEnvelopeSHA256 = \<lparr>dg_Algorithm = ''sha-256'', dg_Value = forecastDigest\<rparr>,
                    lv_LifecycleEvents = take (Suc head) events, lv_HeadEventID = headEventID\<rparr>))))"

section \<open>What the bytes determine\<close>

definition tagged_projection :: "forecast_projection \<Rightarrow> bool" where
  "tagged_projection v \<longleftrightarrow> pred_option (\<lambda>rs. \<forall>r\<in>set rs. tagged_ForecastRepresentation r) (fp_Representations v)"

definition tagged_envelope :: "forecast_envelope \<Rightarrow> bool" where
  "tagged_envelope v \<longleftrightarrow> tagged_QuestionRevision (fv_QuestionRevision v) \<and> tagged_projection (fv_Forecast v)"

lemma tidy_targets [simp]:
  "tidy (json_CommitmentProjection c)" "tidy (json_ForecastProjection p)" "tidy (json_forecastEnvelope e)"
  "tidy (json_lifecycleEnvelope l)"
  by (simp_all add: json_CommitmentProjection_def json_ForecastProjection_def json_forecastEnvelope_def
      json_lifecycleEnvelope_def tidy_object)

lemma same_json_CommitmentProjection [simp]: "same (json_CommitmentProjection v) (json_CommitmentProjection w) \<longleftrightarrow> v = w"
  by (rule commitment_projection.cases [of v]; rule commitment_projection.cases [of w])
    (auto simp: json_CommitmentProjection_def same_object)

lemma same_representations:
  assumes "pred_option (\<lambda>rs. \<forall>r\<in>set rs. tagged_ForecastRepresentation r) a"
    "pred_option (\<lambda>rs. \<forall>r\<in>set rs. tagged_ForecastRepresentation r) b"
  shows "rel_option (\<lambda>xs ys. list_all2 (\<lambda>x y. same (json_ForecastRepresentation x) (json_ForecastRepresentation y)) xs ys) a b \<longleftrightarrow> a = b"
proof -
  have "list_all2 (\<lambda>x y. same (json_ForecastRepresentation x) (json_ForecastRepresentation y)) xs ys \<longleftrightarrow> xs = ys"
    if "\<forall>r\<in>set xs. tagged_ForecastRepresentation r" "\<forall>r\<in>set ys. tagged_ForecastRepresentation r" for xs ys
    by (rule same_tagged(2) [OF that]) simp
  with assms show ?thesis by (cases a; cases b) auto
qed

lemma same_json_ForecastProjection [simp]:
  "tagged_projection v \<Longrightarrow> tagged_projection w \<Longrightarrow> same (json_ForecastProjection v) (json_ForecastProjection w) \<longleftrightarrow> v = w"
  by (rule forecast_projection.cases [of v]; rule forecast_projection.cases [of w])
    (auto simp: json_ForecastProjection_def same_object tagged_projection_def same_representations comp_def)

lemma same_json_forecastEnvelope:
  "tagged_envelope v \<Longrightarrow> tagged_envelope w \<Longrightarrow> same (json_forecastEnvelope v) (json_forecastEnvelope w) \<longleftrightarrow> v = w"
  by (rule forecast_envelope.cases [of v]; rule forecast_envelope.cases [of w])
    (auto simp: json_forecastEnvelope_def same_object tagged_envelope_def)

lemma same_json_lifecycleEnvelope: "same (json_lifecycleEnvelope v) (json_lifecycleEnvelope w) \<longleftrightarrow> v = w"
  by (rule lifecycle_envelope.cases [of v]; rule lifecycle_envelope.cases [of w])
    (auto simp: json_lifecycleEnvelope_def same_object)

text \<open>The envelope of a forecast.\<close>

definition envelope :: "question \<Rightarrow> forecast \<Rightarrow> forecast_envelope option" where
  "envelope q f =
     (case (find_revision (fo_QuestionRevisionID f) (qu_Revisions q), project f) of
        (Some r, Inr p) \<Rightarrow>
          Some \<lparr>fv_Schema = ForecastEnvelopeSchema, fv_QuestionID = qu_ID q, fv_QuestionRevision = r, fv_Forecast = p\<rparr>
      | _ \<Rightarrow> None)"

definition proper_target :: "question \<Rightarrow> forecast \<Rightarrow> bool" where
  "proper_target q f \<longleftrightarrow>
     pred_option (\<lambda>e. tagged_envelope e \<and> supported (json_forecastEnvelope e)) (envelope q f)"

lemma Forecast_envelope:
  "Forecast q f = Inr (b, d) \<longleftrightarrow>
    (\<exists>e. envelope q f = Some e \<and> canonicalJSON (json_forecastEnvelope e) = Inr b \<and> d = hex_EncodeToString (sha256 b))"
  by (auto simp: Forecast_def envelope_def canonicalBytes_def bindR_eq_Inr_iff split: option.splits sum.splits)

lemma canonicalJSON_same:
  assumes "canonicalJSON v = Inr s" "canonicalJSON w = Inr s" "supported v" "supported w" "tidy v" "tidy w"
  shows "same v w"
  using canonicalJSON_inj [OF assms(1,2)] assms(3-6) by (simp add: same_def struct_value_def tidy_def)

text \<open>
  C14: the canonical bytes of a forecast target bind the forecast.  Two forecasts whose targets are
  built have the same bytes exactly when they belong to the same question identifier, refer to
  the same revision contents and have the same projection.
\<close>

theorem Forecast_binds:
  assumes "Forecast q f = Inr (b, d)" "Forecast q' f' = Inr (b', d')" "proper_target q f" "proper_target q' f'"
  shows "b = b' \<longleftrightarrow>
    qu_ID q = qu_ID q' \<and>
    find_revision (fo_QuestionRevisionID f) (qu_Revisions q) = find_revision (fo_QuestionRevisionID f') (qu_Revisions q') \<and>
    project f = project f'"
proof -
  obtain e where e: "envelope q f = Some e" "canonicalJSON (json_forecastEnvelope e) = Inr b"
    using assms(1) Forecast_envelope by blast
  obtain e' where e': "envelope q' f' = Some e'" "canonicalJSON (json_forecastEnvelope e') = Inr b'"
    using assms(2) Forecast_envelope by blast
  have ok: "tagged_envelope e" "supported (json_forecastEnvelope e)" "tagged_envelope e'" "supported (json_forecastEnvelope e')"
    using assms(3,4) e(1) e'(1) by (simp_all add: proper_target_def)
  have "b = b' \<longleftrightarrow> e = e'"
  proof
    assume "b = b'"
    with canonicalJSON_same [OF e(2), of "json_forecastEnvelope e'"] e'(2) ok
    show "e = e'" by (simp add: same_json_forecastEnvelope)
  qed (use e(2) e'(2) in simp)
  with e(1) e'(1) show ?thesis by (auto simp: envelope_def split: option.splits sum.splits)
qed

text \<open>Concrete targets: of a forecast, of one with a rationale, and of a sealed one.\<close>

definition target_computes :: "question \<Rightarrow> forecast \<Rightarrow> bool" where
  "target_computes q f \<longleftrightarrow>
     (case envelope q f of
        None \<Rightarrow> False
      | Some e \<Rightarrow>
          let v = json_forecastEnvelope e
          in tagged_envelope e \<and> supported v \<and> go_size v \<le> 500000 \<and> json_nodes v \<le> 500000 \<and> json_depth v \<le> 64)"

lemma target_computes_ok:
  assumes "target_computes q f"
  shows "proper_target q f" "\<exists>b d. Forecast q f = Inr (b, d)"
proof -
  from assms obtain e where e: "envelope q f = Some e" "tagged_envelope e" "supported (json_forecastEnvelope e)"
    "fits_defaults (json_forecastEnvelope e)"
    by (auto simp: target_computes_def Let_def split: option.splits intro: fits_small)
  then show "proper_target q f" by (simp add: proper_target_def)
  have "struct_value (json_forecastEnvelope e)" using e(3) tidy_targets(3) by (simp add: struct_value_def tidy_def)
  from canonicalJSON_ok [OF this e(4)] e(1) show "\<exists>b d. Forecast q f = Inr (b, d)" by (auto simp: Forecast_envelope)
qed

definition first_forecast :: forecast where
  "first_forecast = example_forecast ''f1'' ''2024-02-01T00:00:00Z'' None"

lemma first_forecast_computes:
  "target_computes example_question first_forecast"
  "target_computes example_question (first_forecast\<lparr>fo_Rationale := Some ''clouds''\<rparr>)"
  by code_simp+

theorem Forecast_binds_witness:
  "\<exists>b d b' d'. Forecast example_question first_forecast = Inr (b, d) \<and>
     Forecast example_question (first_forecast\<lparr>fo_Rationale := Some ''clouds''\<rparr>) = Inr (b', d') \<and> b \<noteq> b'"
proof -
  obtain b d b' d' where f: "Forecast example_question first_forecast = Inr (b, d)"
    "Forecast example_question (first_forecast\<lparr>fo_Rationale := Some ''clouds''\<rparr>) = Inr (b', d')"
    using target_computes_ok(2) first_forecast_computes by blast
  have "project first_forecast \<noteq> project (first_forecast\<lparr>fo_Rationale := Some ''clouds''\<rparr>)" by code_simp
  with Forecast_binds [OF f target_computes_ok(1) target_computes_ok(1)] first_forecast_computes f show ?thesis by blast
qed

text \<open>
  Revealing a sealed forecast keeps its target.  Whatever is published with the key, the
  target of the revealed forecast is that of the sealed one, as long as the commitment and the
  bound fields stay.
\<close>

lemma reveal_keeps_target:
  assumes "fo_Visibility f = VisibilitySealed" "fo_Commitment f = Some \<lparr>cm_Sealed = Some s, cm_Revealed = None\<rparr>"
    and "sealed_commitment.truncate r = s"
    and "f' = f\<lparr>fo_Visibility := VisibilityRevealed, fo_Commitment := Some \<lparr>cm_Sealed = None, cm_Revealed = Some r\<rparr>,
      fo_Representations := reps, fo_Rationale := rationale, fo_KeyFactors := factors, fo_Comment := comment,
      fo_Integrity := integrity\<rparr>"
  shows "Forecast q f' = Forecast q f"
proof -
  have "project f' = project f" using assms by (simp add: project_def Let_def)
  moreover have "fo_QuestionRevisionID f' = fo_QuestionRevisionID f" using assms(4) by simp
  ultimately show ?thesis unfolding Forecast_def by (simp only:)
qed

lemma Forecast_ignores_lifecycle [simp]: "Forecast q (f\<lparr>fo_LifecycleEvents := es\<rparr>) = Forecast q f"
proof -
  have "project (f\<lparr>fo_LifecycleEvents := es\<rparr>) = project f" by (simp add: project_def Let_def)
  moreover have "fo_QuestionRevisionID (f\<lparr>fo_LifecycleEvents := es\<rparr>) = fo_QuestionRevisionID f" by simp
  ultimately show ?thesis unfolding Forecast_def by (simp only:)
qed

lemma find_index_append: "find_index P xs = Some i \<Longrightarrow> find_index P (xs @ ys) = Some i"
  by (induction xs arbitrary: i) auto

text \<open>
  Lifecycle targets are append-only.  Recording further events leaves the target of every
  earlier head as it is.
\<close>

lemma Lifecycle_append:
  assumes "fo_LifecycleEvents f = Some events" "h \<in> le_ID ` set events"
  shows "Lifecycle q (f\<lparr>fo_LifecycleEvents := Some (events @ later)\<rparr>) h = Lifecycle q f h"
proof -
  obtain i where i: "find_index (\<lambda>e. le_ID e = h) events = Some i"
    using assms(2) find_index_None_iff [of "\<lambda>e. le_ID e = h" events] by (cases "find_index (\<lambda>e. le_ID e = h) events") auto
  have "i < length events" using find_index_SomeD [OF i] by simp
  then have prefix: "take (Suc i) (events @ later) = take (Suc i) events" by simp
  have "fo_LifecycleEvents (f\<lparr>fo_LifecycleEvents := Some (events @ later)\<rparr>) = Some (events @ later)"
    "fo_ID (f\<lparr>fo_LifecycleEvents := Some (events @ later)\<rparr>) = fo_ID f" by simp_all
  with i find_index_append [OF i, of later] show ?thesis
    unfolding Lifecycle_def Forecast_ignores_lifecycle assms(1) by (simp only: option.case prefix)
qed

text \<open>The envelope of a lifecycle.\<close>

definition lifecycle_envelope_of :: "question \<Rightarrow> forecast \<Rightarrow> slug \<Rightarrow> lifecycle_envelope option" where
  "lifecycle_envelope_of q f h =
     (case (fo_LifecycleEvents f, Forecast q f) of
        (Some events, Inr (_, digest)) \<Rightarrow>
          (case find_index (\<lambda>e. le_ID e = h) events of
             None \<Rightarrow> None
           | Some head \<Rightarrow>
               Some \<lparr>lv_Schema = LifecycleSchema, lv_QuestionID = qu_ID q, lv_ForecastID = fo_ID f,
                 lv_ForecastEnvelopeSHA256 = \<lparr>dg_Algorithm = ''sha-256'', dg_Value = digest\<rparr>,
                 lv_LifecycleEvents = take (Suc head) events, lv_HeadEventID = h\<rparr>)
      | _ \<Rightarrow> None)"

definition proper_lifecycle :: "question \<Rightarrow> forecast \<Rightarrow> slug \<Rightarrow> bool" where
  "proper_lifecycle q f h \<longleftrightarrow> pred_option (\<lambda>l. supported (json_lifecycleEnvelope l)) (lifecycle_envelope_of q f h)"

lemma Lifecycle_envelope:
  "Lifecycle q f h = Inr (b, d) \<longleftrightarrow>
    (\<exists>l. lifecycle_envelope_of q f h = Some l \<and> canonicalJSON (json_lifecycleEnvelope l) = Inr b \<and>
      d = hex_EncodeToString (sha256 b))"
  by (auto simp: Lifecycle_def lifecycle_envelope_of_def canonicalBytes_def bindR_eq_Inr_iff split: option.splits sum.splits prod.splits)

text \<open>
  C16: the bytes of a lifecycle target bind the history up to the head: two lifecycle targets
  have the same bytes exactly when question, forecast and head are the same, the events up to
  the head are the same, and so is the digest of the forecast target.
\<close>

theorem Lifecycle_binds:
  assumes "Lifecycle q f h = Inr (b, d)" "Lifecycle q' f' h' = Inr (b', d')"
    and "proper_lifecycle q f h" "proper_lifecycle q' f' h'"
  shows "b = b' \<longleftrightarrow> lifecycle_envelope_of q f h = lifecycle_envelope_of q' f' h'"
proof -
  obtain l where l: "lifecycle_envelope_of q f h = Some l" "canonicalJSON (json_lifecycleEnvelope l) = Inr b"
    using assms(1) Lifecycle_envelope by blast
  obtain l' where l': "lifecycle_envelope_of q' f' h' = Some l'" "canonicalJSON (json_lifecycleEnvelope l') = Inr b'"
    using assms(2) Lifecycle_envelope by blast
  have "b = b' \<Longrightarrow> l = l'"
    using canonicalJSON_same [OF l(2), of "json_lifecycleEnvelope l'"] l' l(1) assms(3,4)
    by (simp add: proper_lifecycle_def same_json_lifecycleEnvelope)
  with l l' show ?thesis by auto
qed

definition history_example :: "lifecycle_event list" where
  "history_example =
     [\<lparr>le_ID = ''e1'', le_Type = LifecycleWithdrawn, le_EffectiveAt = ''2024-03-01T00:00:00Z'',
       le_RecordedAt = ''2024-03-01T00:00:00Z'', le_Reason = None, le_Provenance = None\<rparr>,
      \<lparr>le_ID = ''e2'', le_Type = LifecycleReaffirmed, le_EffectiveAt = ''2024-04-01T00:00:00Z'',
       le_RecordedAt = ''2024-04-01T00:00:00Z'', le_Reason = None, le_Provenance = None\<rparr>]"

lemma lifecycle_computes:
  assumes "h \<in> {''e1'', ''e2''}"
  shows "proper_lifecycle example_question (first_forecast\<lparr>fo_LifecycleEvents := Some history_example\<rparr>) h"
    "\<exists>b d. Lifecycle example_question (first_forecast\<lparr>fo_LifecycleEvents := Some history_example\<rparr>) h = Inr (b, d)"
proof -
  let ?f = "first_forecast\<lparr>fo_LifecycleEvents := Some history_example\<rparr>"
  obtain b where b: "Forecast example_question ?f = Inr (b, hex_EncodeToString (sha256 b))"
    using target_computes_ok(2) [OF first_forecast_computes(1)] by (metis Forecast_envelope Forecast_ignores_lifecycle)
  define n where "n = (if h = ''e1'' then 1 else 2 :: nat)"
  define l where "l = \<lparr>lv_Schema = LifecycleSchema, lv_QuestionID = ''q1'', lv_ForecastID = ''f1'',
    lv_ForecastEnvelopeSHA256 = \<lparr>dg_Algorithm = ''sha-256'', dg_Value = hex_EncodeToString (sha256 b)\<rparr>,
    lv_LifecycleEvents = take n history_example, lv_HeadEventID = h\<rparr>"
  have head: "find_index (\<lambda>e. le_ID e = h) history_example = Some (n - 1)" "Suc (n - 1) = n"
    using assms by (auto simp: history_example_def n_def)
  have ids: "qu_ID example_question = ''q1''" "fo_ID ?f = ''f1''" "fo_LifecycleEvents ?f = Some history_example"
    by (simp_all add: example_question_def first_forecast_def example_forecast_def)
  have env: "lifecycle_envelope_of example_question ?f h = Some l"
    unfolding lifecycle_envelope_of_def b ids l_def by (simp only: head option.case sum.case prod.case)
  have ev: "supported (json_LifecycleEvent (history_example ! 0)) \<and> supported (json_LifecycleEvent (history_example ! 1))"
    by code_simp
  have keys: "list_all validIJSONString [''schema'', ''question_id'', ''forecast_id'', ''forecast_envelope_sha256'',
      ''lifecycle_events'', ''head_event_id'', ''algorithm'', ''value'', LifecycleSchema, ''q1'', ''f1'', ''sha-256'', ''e1'', ''e2'']"
    by code_simp
  have events: "take n history_example = (if h = ''e1'' then [history_example ! 0] else [history_example ! 0, history_example ! 1])"
    by (simp add: n_def history_example_def)
  have shape: "json_lifecycleEnvelope l = GoObject
      [(''schema'', GoString LifecycleSchema), (''question_id'', GoString ''q1''), (''forecast_id'', GoString ''f1''),
       (''forecast_envelope_sha256'', GoObject [(''algorithm'', GoString ''sha-256''), (''value'', GoString (hex_EncodeToString (sha256 b)))]),
       (''lifecycle_events'', GoArray (map json_LifecycleEvent (take n history_example))), (''head_event_id'', GoString h)]"
    by (simp add: l_def json_lifecycleEnvelope_def json_Digest_def json_object_def json_members_Cons json_members_def map_filter_simps)
  have "validIJSONString h" using keys assms by auto
  then have ok: "supported (json_lifecycleEnvelope l)"
    using keys ev hex_valid [of "sha256 b"] unfolding shape events by simp
  then show "proper_lifecycle example_question ?f h" by (simp add: proper_lifecycle_def env)
  have small: "go_size (json_LifecycleEvent (history_example ! 0)) \<le> 5000 \<and> json_nodes (json_LifecycleEvent (history_example ! 0)) \<le> 100 \<and>
      json_depth (json_LifecycleEvent (history_example ! 0)) \<le> 5"
    "go_size (json_LifecycleEvent (history_example ! 1)) \<le> 5000 \<and> json_nodes (json_LifecycleEvent (history_example ! 1)) \<le> 100 \<and>
      json_depth (json_LifecycleEvent (history_example ! 1)) \<le> 5"
    by code_simp+
  have "length h = 2" using assms by auto
  with small have "go_size (json_lifecycleEnvelope l) \<le> 500000" unfolding shape events by simp
  moreover have "json_nodes (json_lifecycleEnvelope l) \<le> 500000" using small unfolding shape events by simp
  moreover have "json_depth (json_lifecycleEnvelope l) \<le> 64" using small unfolding shape events by simp
  ultimately have "fits_defaults (json_lifecycleEnvelope l)" by (rule fits_small)
  moreover have "struct_value (json_lifecycleEnvelope l)" using ok tidy_targets(4) by (simp add: struct_value_def tidy_def)
  ultimately have "canonicalJSON (json_lifecycleEnvelope l) = Inr (enc (canon (json_lifecycleEnvelope l)))"
    using canonicalJSON_ok by blast
  with env show "\<exists>b d. Lifecycle example_question ?f h = Inr (b, d)" unfolding Lifecycle_envelope by blast
qed

theorem Lifecycle_binds_witness:
  "\<exists>f b d b' d'. Lifecycle example_question f ''e1'' = Inr (b, d) \<and> Lifecycle example_question f ''e2'' = Inr (b', d') \<and> b \<noteq> b'"
proof -
  let ?f = "first_forecast\<lparr>fo_LifecycleEvents := Some history_example\<rparr>"
  have e: "''e1'' \<in> {''e1'', ''e2''}" "''e2'' \<in> {''e1'', ''e2''}" by simp_all
  obtain b d where l1: "Lifecycle example_question ?f ''e1'' = Inr (b, d)" using lifecycle_computes(2) [OF e(1)] by (elim exE)
  obtain b' d' where l2: "Lifecycle example_question ?f ''e2'' = Inr (b', d')" using lifecycle_computes(2) [OF e(2)] by (elim exE)
  note l = l1 l2
  have "b = b' \<longleftrightarrow> lifecycle_envelope_of example_question ?f ''e1'' = lifecycle_envelope_of example_question ?f ''e2''"
    by (rule Lifecycle_binds [OF l lifecycle_computes(1) [OF e(1)] lifecycle_computes(1) [OF e(2)]])
  moreover obtain l1 where "lifecycle_envelope_of example_question ?f ''e1'' = Some l1" "lv_HeadEventID l1 = ''e1''"
    using l(1) by (auto simp: Lifecycle_envelope lifecycle_envelope_of_def split: option.splits sum.splits)
  moreover obtain l2 where "lifecycle_envelope_of example_question ?f ''e2'' = Some l2" "lv_HeadEventID l2 = ''e2''"
    using l(2) by (auto simp: Lifecycle_envelope lifecycle_envelope_of_def split: option.splits sum.splits)
  ultimately have "b \<noteq> b'" by auto
  with l show ?thesis by blast
qed

end
