(* ===== verification/Struct_Decoding.thy ===== *)
theory Struct_Decoding
  imports Struct_Encoding
begin

text \<open>
  What \<open>json.Unmarshal\<close> and the \<open>UnmarshalJSON\<close> methods of \<open>internal/ledger\<close> make of a parsed
  JSON value, struct by struct, as a decoder that rejects unknown fields (\<open>decodeClosed\<close>) does: a
  member goes to the field its name selects, up to letter case, onto the value the field already
  has; \<open>null\<close> clears a pointer and leaves other fields as they are; a union dispatches on its
  discriminator.  An error is \<open>None\<close>.  A \<open>null\<close> for a slice gives the empty list, and elements of a
  slice are decoded onto zero values.  The theorem is that decoding inverts encoding, so
  \<open>Clone\<close> is the identity.
\<close>

section \<open>Fields\<close>

text \<open>Case folding of field names: ASCII letters, the long s and the Kelvin sign.\<close>

fun fold_name :: "string \<Rightarrow> string" where
  "fold_name [] = []"
| "fold_name (a # s) =
     (if byte a = 197 \<and> s \<noteq> [] \<and> byte (hd s) = 191 then CHR ''s'' # fold_name (drop 1 s)
      else if byte a = 226 \<and> 2 \<le> length s \<and> byte (s ! 0) = 132 \<and> byte (s ! 1) = 170 then CHR ''k'' # fold_name (drop 2 s)
      else (if 65 \<le> byte a \<and> byte a \<le> 90 then char_of (byte a + 32) else a) # fold_name s)"

definition named :: "string \<times> go_value \<Rightarrow> string \<Rightarrow> bool" where
  "named m name \<longleftrightarrow> fold_name (fst m) = fold_name name"

fun foldO :: "('s \<Rightarrow> 'a \<Rightarrow> 's option) \<Rightarrow> 's \<Rightarrow> 'a list \<Rightarrow> 's option" where
  "foldO f s [] = Some s"
| "foldO f s (x # xs) = (case f s x of None \<Rightarrow> None | Some s' \<Rightarrow> foldO f s' xs)"

fun mapO :: "('a \<Rightarrow> 'b option) \<Rightarrow> 'a list \<Rightarrow> 'b list option" where
  "mapO f [] = Some []"
| "mapO f (x # xs) =
     (case f x of None \<Rightarrow> None | Some y \<Rightarrow> (case mapO f xs of None \<Rightarrow> None | Some ys \<Rightarrow> Some (y # ys)))"

definition decode_string :: "string \<Rightarrow> go_value \<Rightarrow> string option" where
  "decode_string prev v = (case v of GoString s \<Rightarrow> Some s | GoNull \<Rightarrow> Some prev | _ \<Rightarrow> None)"

definition decode_bool :: "bool \<Rightarrow> go_value \<Rightarrow> bool option" where
  "decode_bool prev v = (case v of GoBool b \<Rightarrow> Some b | GoNull \<Rightarrow> Some prev | _ \<Rightarrow> None)"

definition decode_int :: "int \<Rightarrow> go_value \<Rightarrow> int option" where
  "decode_int prev v =
     (case v of GoInt i \<Rightarrow> Some i | GoUint n \<Rightarrow> Some (int n) | GoNull \<Rightarrow> Some prev | _ \<Rightarrow> None)"

definition decode_slice :: "('a \<Rightarrow> go_value \<Rightarrow> 'a option) \<Rightarrow> 'a \<Rightarrow> 'a list \<Rightarrow> go_value \<Rightarrow> 'a list option" where
  "decode_slice d zero prev v = (case v of GoArray vs \<Rightarrow> mapO (d zero) vs | GoNull \<Rightarrow> Some [] | _ \<Rightarrow> None)"

definition decode_pointer :: "('a \<Rightarrow> go_value \<Rightarrow> 'a option) \<Rightarrow> 'a \<Rightarrow> 'a option \<Rightarrow> go_value \<Rightarrow> 'a option option" where
  "decode_pointer d zero prev v =
     (case v of
        GoNull \<Rightarrow> Some None
      | _ \<Rightarrow> map_option Some (d (case prev of None \<Rightarrow> zero | Some p \<Rightarrow> p) v))"

text \<open>A Go map is the list of its entries in the order of their keys.\<close>

fun put_key :: "string \<Rightarrow> 'a \<Rightarrow> (string \<times> 'a) list \<Rightarrow> (string \<times> 'a) list" where
  "put_key k y [] = [(k, y)]"
| "put_key k y ((l, z) # m) =
     (if k = l then (k, y) # m else if k < l then (k, y) # (l, z) # m else (l, z) # put_key k y m)"

definition decode_map :: "('a \<Rightarrow> go_value \<Rightarrow> 'a option) \<Rightarrow> 'a \<Rightarrow> (string \<times> 'a) list \<Rightarrow> go_value \<Rightarrow> (string \<times> 'a) list option" where
  "decode_map d zero prev v =
     (case v of
        GoObject ms \<Rightarrow> foldO (\<lambda>m (k, x). map_option (\<lambda>y. put_key k y m) (d zero x)) prev ms
      | GoNull \<Rightarrow> Some []
      | _ \<Rightarrow> None)"

definition decode_struct :: "('a \<Rightarrow> string \<times> go_value \<Rightarrow> 'a option) \<Rightarrow> 'a \<Rightarrow> go_value \<Rightarrow> 'a option" where
  "decode_struct mem prev v = (case v of GoNull \<Rightarrow> Some prev | GoObject ms \<Rightarrow> foldO mem prev ms | _ \<Rightarrow> None)"

text \<open>The discriminator, which an open decoder reads first.\<close>

definition discriminator :: "string \<Rightarrow> go_value \<Rightarrow> string option" where
  "discriminator name v =
     (case v of
        GoNull \<Rightarrow> Some []
      | GoObject ms \<Rightarrow> foldO (\<lambda>s m. if named m name then decode_string s (snd m) else Some s) [] ms
      | _ \<Rightarrow> None)"

subsection \<open>Decoding what was encoded\<close>

definition member_step :: "('s \<Rightarrow> string \<times> go_value \<Rightarrow> 's option) \<Rightarrow> 's \<Rightarrow> string \<Rightarrow> go_value option \<Rightarrow> 's option" where
  "member_step mem s k v = (case v of None \<Rightarrow> Some s | Some x \<Rightarrow> mem s (k, x))"

lemma foldO_members:
  "foldO mem s (json_members []) = Some s"
  "foldO mem s (json_members ((k, v) # fs)) =
     (case member_step mem s k v of None \<Rightarrow> None | Some s' \<Rightarrow> foldO mem s' (json_members fs))"
  by (simp_all add: json_members_Cons member_step_def json_members_def map_filter_simps split: option.split)

lemma decode_struct_object: "decode_struct mem s (json_object fs) = foldO mem s (json_members fs)"
  by (simp add: decode_struct_def json_object_def)

lemma decode_scalars [simp]:
  "decode_string p (GoString s) = Some s" "decode_bool q (GoBool b) = Some b" "decode_int r (GoInt i) = Some i"
  by (simp_all add: decode_string_def decode_bool_def decode_int_def)

lemma decode_slice_map [simp]:
  "\<forall>x\<in>set xs. d z (e x) = Some x \<Longrightarrow> decode_slice d z p (GoArray (map e xs)) = Some xs"
proof -
  assume "\<forall>x\<in>set xs. d z (e x) = Some x"
  then have "mapO (d z) (map e xs) = Some xs" by (induction xs) simp_all
  then show ?thesis by (simp add: decode_slice_def)
qed

lemma decode_pointer_value [simp]:
  "v \<noteq> GoNull \<Longrightarrow> decode_pointer d z None v = map_option Some (d z v)"
  by (cases v) (simp_all add: decode_pointer_def)

lemma put_key_last: "\<forall>l\<in>fst ` set m. l < k \<Longrightarrow> put_key k y m = m @ [(k, y)]"
  by (induction m) auto

lemma decode_map_object [simp]:
  assumes "sorted_wrt (<) (map fst ms)" "\<forall>(k, x)\<in>set ms. d z (e x) = Some x"
  shows "decode_map d z [] (GoObject (map (map_prod id e) ms)) = Some ms"
proof -
  have "\<forall>k\<in>fst ` set ns. \<forall>l\<in>fst ` set ms. k < l \<Longrightarrow>
      foldO (\<lambda>m (k, x). map_option (\<lambda>y. put_key k y m) (d z x)) ns (map (map_prod id e) ms) = Some (ns @ ms)" for ns
    using assms
  proof (induction ms arbitrary: ns)
    case (Cons m ms)
    obtain k x where m: "m = (k, x)" by force
    have "put_key k x ns = ns @ [(k, x)]" using Cons.prems(1) m by (intro put_key_last) auto
    moreover have "\<forall>k\<in>fst ` set (ns @ [(k, x)]). \<forall>l\<in>fst ` set ms. k < l" using Cons.prems m by auto
    ultimately show ?case using Cons.IH [of "ns @ [(k, x)]"] Cons.prems m by simp
  qed simp
  from this [of "[]"] show ?thesis by (simp add: decode_map_def)
qed

text \<open>The discriminator wherever it stands.\<close>

lemma discriminator_member:
  assumes "(k, Some (GoString s)) \<in> set fs" "list_all (\<lambda>f. fst f = k \<or> fold_name (fst f) \<noteq> fold_name k) fs"
    "distinct (map fst fs)"
  shows "discriminator k (json_object fs) = Some s"
proof -
  have fold: "foldO (\<lambda>s m. if named m k then decode_string s (snd m) else Some s) x (json_members fs) =
      Some (if (k, Some (GoString s)) \<in> set fs then s else x)" if "\<forall>y. (k, Some y) \<in> set fs \<longrightarrow> y = GoString s"
      "list_all (\<lambda>f. fst f = k \<or> fold_name (fst f) \<noteq> fold_name k) fs" for x
    using that
  proof (induction fs arbitrary: x)
    case (Cons f fs)
    obtain k' v where f: "f = (k', v)" by force
    have IH: "foldO (\<lambda>s m. if named m k then decode_string s (snd m) else Some s) x (json_members fs) =
      Some (if (k, Some (GoString s)) \<in> set fs then s else x)" for x using Cons.IH Cons.prems by simp
    show ?case
    proof (cases "k' = k \<and> v \<noteq> None")
      case True
      with f Cons.prems(1) have "v = Some (GoString s)" by auto
      with True f IH [of s] show ?thesis by (simp add: json_members_Cons named_def)
    next
      case False
      with f Cons.prems(2) IH [of x] show ?thesis by (cases v) (auto simp: json_members_Cons named_def)
    qed
  qed (simp add: json_members_def map_filter_simps)
  have "\<forall>y. (k, Some y) \<in> set fs \<longrightarrow> y = GoString s"
    using eq_key_imp_eq_value [OF assms(3,1)] by blast
  from fold [OF this assms(2), of "[]"] show ?thesis using assms(1) by (simp add: discriminator_def json_object_def)
qed

section \<open>The structs\<close>

lemma fold_keys [simp]:
  "fold_name ''$schema'' = ''$schema''"
  "fold_name ''account'' = ''account''"
  "fold_name ''activity_checkpoints'' = ''activity_checkpoints''"
  "fold_name ''algorithm'' = ''algorithm''"
  "fold_name ''artifact_path'' = ''artifact_path''"
  "fold_name ''bin_id'' = ''bin_id''"
  "fold_name ''bin_set_ref'' = ''bin_set_ref''"
  "fold_name ''bin_sets'' = ''bin_sets''"
  "fold_name ''bins'' = ''bins''"
  "fold_name ''bounds'' = ''bounds''"
  "fold_name ''ca_bundle_path'' = ''ca_bundle_path''"
  "fold_name ''canonicalization'' = ''canonicalization''"
  "fold_name ''child_question_id'' = ''child_question_id''"
  "fold_name ''ciphertext'' = ''ciphertext''"
  "fold_name ''comment'' = ''comment''"
  "fold_name ''commitment'' = ''commitment''"
  "fold_name ''commitment_hash'' = ''commitment_hash''"
  "fold_name ''contact'' = ''contact''"
  "fold_name ''content_digest'' = ''content_digest''"
  "fold_name ''coverage'' = ''coverage''"
  "fold_name ''created_at'' = ''created_at''"
  "fold_name ''current_revision_id'' = ''current_revision_id''"
  "fold_name ''default_branch'' = ''default_branch''"
  "fold_name ''default_timezone'' = ''default_timezone''"
  "fold_name ''description'' = ''description''"
  "fold_name ''digest'' = ''digest''"
  "fold_name ''domain'' = ''domain''"
  "fold_name ''effective_at'' = ''effective_at''"
  "fold_name ''elicitation_scale'' = ''elicitation_scale''"
  "fold_name ''email'' = ''email''"
  "fold_name ''encryption'' = ''encryption''"
  "fold_name ''entries'' = ''entries''"
  "fold_name ''expected_resolution_at'' = ''expected_resolution_at''"
  "fold_name ''external_anchors'' = ''external_anchors''"
  "fold_name ''failure_reason'' = ''failure_reason''"
  "fold_name ''forecasted_at'' = ''forecasted_at''"
  "fold_name ''forecaster'' = ''forecaster''"
  "fold_name ''forecasting_opens_at'' = ''forecasting_opens_at''"
  "fold_name ''forecasts'' = ''forecasts''"
  "fold_name ''gen_time'' = ''gen_time''"
  "fold_name ''group_id'' = ''group_id''"
  "fold_name ''groups'' = ''groups''"
  "fold_name ''hash_algorithm'' = ''hash_algorithm''"
  "fold_name ''head_event_id'' = ''head_event_id''"
  "fold_name ''history'' = ''history''"
  "fold_name ''id'' = ''id''"
  "fold_name ''importer'' = ''importer''"
  "fold_name ''inclusive'' = ''inclusive''"
  "fold_name ''integrity'' = ''integrity''"
  "fold_name ''interpolation'' = ''interpolation''"
  "fold_name ''interval_kind'' = ''interval_kind''"
  "fold_name ''intervals'' = ''intervals''"
  "fold_name ''key_factors'' = ''key_factors''"
  "fold_name ''key_hint'' = ''key_hint''"
  "fold_name ''kind'' = ''kind''"
  "fold_name ''label'' = ''label''"
  "fold_name ''ledger_id'' = ''ledger_id''"
  "fold_name ''ledger_path'' = ''ledger_path''"
  "fold_name ''left_tail_probability'' = ''left_tail_probability''"
  "fold_name ''level'' = ''level''"
  "fold_name ''lifecycle_events'' = ''lifecycle_events''"
  "fold_name ''lower'' = ''lower''"
  "fold_name ''lower_inclusive'' = ''lower_inclusive''"
  "fold_name ''media_type'' = ''media_type''"
  "fold_name ''members'' = ''members''"
  "fold_name ''name'' = ''name''"
  "fold_name ''nonce'' = ''nonce''"
  "fold_name ''note'' = ''note''"
  "fold_name ''notes'' = ''notes''"
  "fold_name ''observed_at'' = ''observed_at''"
  "fold_name ''option_id'' = ''option_id''"
  "fold_name ''option_set'' = ''option_set''"
  "fold_name ''option_set_ref'' = ''option_set_ref''"
  "fold_name ''options'' = ''options''"
  "fold_name ''origin'' = ''origin''"
  "fold_name ''outcome'' = ''outcome''"
  "fold_name ''outcome_known_at'' = ''outcome_known_at''"
  "fold_name ''outcome_space'' = ''outcome_space''"
  "fold_name ''parent_outcome'' = ''parent_outcome''"
  "fold_name ''parent_question_id'' = ''parent_question_id''"
  "fold_name ''parent_question_revision_id'' = ''parent_question_revision_id''"
  "fold_name ''platform'' = ''platform''"
  "fold_name ''platforms'' = ''platforms''"
  "fold_name ''points'' = ''points''"
  "fold_name ''policy_oid'' = ''policy_oid''"
  "fold_name ''probability'' = ''probability''"
  "fold_name ''profile_url'' = ''profile_url''"
  "fold_name ''profiles'' = ''profiles''"
  "fold_name ''provenance'' = ''provenance''"
  "fold_name ''public_note'' = ''public_note''"
  "fold_name ''publication'' = ''publication''"
  "fold_name ''published_at'' = ''published_at''"
  "fold_name ''publisher'' = ''publisher''"
  "fold_name ''question_id'' = ''question_id''"
  "fold_name ''question_revision_id'' = ''question_revision_id''"
  "fold_name ''questions'' = ''questions''"
  "fold_name ''rationale'' = ''rationale''"
  "fold_name ''reason'' = ''reason''"
  "fold_name ''recorded_at'' = ''recorded_at''"
  "fold_name ''relationship_id'' = ''relationship_id''"
  "fold_name ''relationships'' = ''relationships''"
  "fold_name ''remote_object_id'' = ''remote_object_id''"
  "fold_name ''remote_object_version'' = ''remote_object_version''"
  "fold_name ''repository_url'' = ''repository_url''"
  "fold_name ''representations'' = ''representations''"
  "fold_name ''request_path'' = ''request_path''"
  "fold_name ''resolution'' = ''resolution''"
  "fold_name ''resolution_criteria'' = ''resolution_criteria''"
  "fold_name ''response_path'' = ''response_path''"
  "fold_name ''retrieved_at'' = ''retrieved_at''"
  "fold_name ''revealed_at'' = ''revealed_at''"
  "fold_name ''revealed_key'' = ''revealed_key''"
  "fold_name ''revisions'' = ''revisions''"
  "fold_name ''right_tail_probability'' = ''right_tail_probability''"
  "fold_name ''role'' = ''role''"
  "fold_name ''schema_version'' = ''schema_version''"
  "fold_name ''scheme'' = ''scheme''"
  "fold_name ''scope'' = ''scope''"
  "fold_name ''serial_number'' = ''serial_number''"
  "fold_name ''service'' = ''service''"
  "fold_name ''snapshot'' = ''snapshot''"
  "fold_name ''source_created_at'' = ''source_created_at''"
  "fold_name ''source_updated_at'' = ''source_updated_at''"
  "fold_name ''sources'' = ''sources''"
  "fold_name ''state'' = ''state''"
  "fold_name ''statistic'' = ''statistic''"
  "fold_name ''status'' = ''status''"
  "fold_name ''step'' = ''step''"
  "fold_name ''supersedes_forecast_id'' = ''supersedes_forecast_id''"
  "fold_name ''symbol'' = ''symbol''"
  "fold_name ''tags'' = ''tags''"
  "fold_name ''target'' = ''target''"
  "fold_name ''timestamps'' = ''timestamps''"
  "fold_name ''title'' = ''title''"
  "fold_name ''tsa_url'' = ''tsa_url''"
  "fold_name ''type'' = ''type''"
  "fold_name ''ucum_code'' = ''ucum_code''"
  "fold_name ''unit'' = ''unit''"
  "fold_name ''upper'' = ''upper''"
  "fold_name ''upper_inclusive'' = ''upper_inclusive''"
  "fold_name ''url'' = ''url''"
  "fold_name ''user_id'' = ''user_id''"
  "fold_name ''username'' = ''username''"
  "fold_name ''value'' = ''value''"
  "fold_name ''values'' = ''values''"
  "fold_name ''verified_at'' = ''verified_at''"
  "fold_name ''version'' = ''version''"
  "fold_name ''visibility'' = ''visibility''"
  "fold_name ''website'' = ''website''"
  by code_simp+

text \<open>What finds a field by its name.\<close>

lemmas field_names =
  member_step_def named_def option.case if_True if_False fst_conv snd_conv fold_keys list.inject list.distinct
  char.inject simp_thms

definition zero_Digest :: digest where
  "zero_Digest =
     \<lparr>dg_Algorithm = '''',
      dg_Value = ''''\<rparr>"

definition decode_Digest_member :: "digest \<Rightarrow> string \<times> go_value \<Rightarrow> digest option" where
  "decode_Digest_member v m =
     (if named m ''algorithm'' then map_option (\<lambda>x. v\<lparr>dg_Algorithm := x\<rparr>) (decode_string (dg_Algorithm v) (snd m))
      else if named m ''value'' then map_option (\<lambda>x. v\<lparr>dg_Value := x\<rparr>) (decode_string (dg_Value v) (snd m))
      else None)"

definition decode_Digest :: "digest \<Rightarrow> go_value \<Rightarrow> digest option" where
  "decode_Digest = decode_struct decode_Digest_member"

lemma Digest_members:
  "(member_step decode_Digest_member r ''algorithm'' (Some (GoString x0)) = Some (r\<lparr>dg_Algorithm := x0\<rparr>)) \<and>
   (member_step decode_Digest_member r ''value'' (Some (GoString x1)) = Some (r\<lparr>dg_Value := x1\<rparr>))"
  by ((intro conjI impI)?; simp only: field_names decode_Digest_member_def split: option.split; auto)

lemma decode_json_Digest [simp]: "decode_Digest zero_Digest (json_Digest v) = Some v"
  by (rule digest.cases [of v]) (simp add: decode_Digest_def json_Digest_def zero_Digest_def Digest_members decode_struct_object foldO_members)

lemma json_Digest_not_null [simp]: "json_Digest v \<noteq> GoNull"
  by (simp add: json_Digest_def json_object_def)

definition zero_ArtifactSnapshot :: artifact_snapshot where
  "zero_ArtifactSnapshot =
     \<lparr>as_ArtifactPath = '''',
      as_MediaType = '''',
      as_Digest = zero_Digest\<rparr>"

definition decode_ArtifactSnapshot_member :: "artifact_snapshot \<Rightarrow> string \<times> go_value \<Rightarrow> artifact_snapshot option" where
  "decode_ArtifactSnapshot_member v m =
     (if named m ''artifact_path'' then map_option (\<lambda>x. v\<lparr>as_ArtifactPath := x\<rparr>) (decode_string (as_ArtifactPath v) (snd m))
      else if named m ''media_type'' then map_option (\<lambda>x. v\<lparr>as_MediaType := x\<rparr>) (decode_string (as_MediaType v) (snd m))
      else if named m ''digest'' then map_option (\<lambda>x. v\<lparr>as_Digest := x\<rparr>) (decode_Digest (as_Digest v) (snd m))
      else None)"

definition decode_ArtifactSnapshot :: "artifact_snapshot \<Rightarrow> go_value \<Rightarrow> artifact_snapshot option" where
  "decode_ArtifactSnapshot = decode_struct decode_ArtifactSnapshot_member"

lemma ArtifactSnapshot_members:
  "(member_step decode_ArtifactSnapshot_member r ''artifact_path'' (Some (GoString x0)) = Some (r\<lparr>as_ArtifactPath := x0\<rparr>)) \<and>
   (member_step decode_ArtifactSnapshot_member r ''media_type'' (Some (GoString x1)) = Some (r\<lparr>as_MediaType := x1\<rparr>)) \<and>
   (as_Digest r = zero_Digest \<longrightarrow> member_step decode_ArtifactSnapshot_member r ''digest'' (Some (json_Digest x2)) = Some (r\<lparr>as_Digest := x2\<rparr>))"
  by ((intro conjI impI)?; simp only: field_names decode_ArtifactSnapshot_member_def split: option.split; auto)

lemma decode_json_ArtifactSnapshot [simp]: "decode_ArtifactSnapshot zero_ArtifactSnapshot (json_ArtifactSnapshot v) = Some v"
  by (rule artifact_snapshot.cases [of v]) (simp add: decode_ArtifactSnapshot_def json_ArtifactSnapshot_def zero_ArtifactSnapshot_def ArtifactSnapshot_members decode_struct_object foldO_members)

lemma json_ArtifactSnapshot_not_null [simp]: "json_ArtifactSnapshot v \<noteq> GoNull"
  by (simp add: json_ArtifactSnapshot_def json_object_def)

definition zero_Importer :: importer where
  "zero_Importer =
     \<lparr>im_Name = '''',
      im_Version = ''''\<rparr>"

definition decode_Importer_member :: "importer \<Rightarrow> string \<times> go_value \<Rightarrow> importer option" where
  "decode_Importer_member v m =
     (if named m ''name'' then map_option (\<lambda>x. v\<lparr>im_Name := x\<rparr>) (decode_string (im_Name v) (snd m))
      else if named m ''version'' then map_option (\<lambda>x. v\<lparr>im_Version := x\<rparr>) (decode_string (im_Version v) (snd m))
      else None)"

definition decode_Importer :: "importer \<Rightarrow> go_value \<Rightarrow> importer option" where
  "decode_Importer = decode_struct decode_Importer_member"

lemma Importer_members:
  "(member_step decode_Importer_member r ''name'' (Some (GoString x0)) = Some (r\<lparr>im_Name := x0\<rparr>)) \<and>
   (member_step decode_Importer_member r ''version'' (Some (GoString x1)) = Some (r\<lparr>im_Version := x1\<rparr>))"
  by ((intro conjI impI)?; simp only: field_names decode_Importer_member_def split: option.split; auto)

lemma decode_json_Importer [simp]: "decode_Importer zero_Importer (json_Importer v) = Some v"
  by (rule importer.cases [of v]) (simp add: decode_Importer_def json_Importer_def zero_Importer_def Importer_members decode_struct_object foldO_members)

lemma json_Importer_not_null [simp]: "json_Importer v \<noteq> GoNull"
  by (simp add: json_Importer_def json_object_def)

definition zero_Provenance :: provenance where
  "zero_Provenance =
     \<lparr>pv_Platform = '''',
      pv_RemoteObjectID = '''',
      pv_RemoteObjectVersion = None,
      pv_URL = None,
      pv_SourceCreatedAt = None,
      pv_SourceUpdatedAt = None,
      pv_RetrievedAt = '''',
      pv_Snapshot = None,
      pv_Importer = None\<rparr>"

definition decode_Provenance_member :: "provenance \<Rightarrow> string \<times> go_value \<Rightarrow> provenance option" where
  "decode_Provenance_member v m =
     (if named m ''platform'' then map_option (\<lambda>x. v\<lparr>pv_Platform := x\<rparr>) (decode_string (pv_Platform v) (snd m))
      else if named m ''remote_object_id'' then map_option (\<lambda>x. v\<lparr>pv_RemoteObjectID := x\<rparr>) (decode_string (pv_RemoteObjectID v) (snd m))
      else if named m ''remote_object_version'' then map_option (\<lambda>x. v\<lparr>pv_RemoteObjectVersion := x\<rparr>) ((decode_pointer decode_string '''') (pv_RemoteObjectVersion v) (snd m))
      else if named m ''url'' then map_option (\<lambda>x. v\<lparr>pv_URL := x\<rparr>) ((decode_pointer decode_string '''') (pv_URL v) (snd m))
      else if named m ''source_created_at'' then map_option (\<lambda>x. v\<lparr>pv_SourceCreatedAt := x\<rparr>) ((decode_pointer decode_string '''') (pv_SourceCreatedAt v) (snd m))
      else if named m ''source_updated_at'' then map_option (\<lambda>x. v\<lparr>pv_SourceUpdatedAt := x\<rparr>) ((decode_pointer decode_string '''') (pv_SourceUpdatedAt v) (snd m))
      else if named m ''retrieved_at'' then map_option (\<lambda>x. v\<lparr>pv_RetrievedAt := x\<rparr>) (decode_string (pv_RetrievedAt v) (snd m))
      else if named m ''snapshot'' then map_option (\<lambda>x. v\<lparr>pv_Snapshot := x\<rparr>) ((decode_pointer decode_ArtifactSnapshot zero_ArtifactSnapshot) (pv_Snapshot v) (snd m))
      else if named m ''importer'' then map_option (\<lambda>x. v\<lparr>pv_Importer := x\<rparr>) ((decode_pointer decode_Importer zero_Importer) (pv_Importer v) (snd m))
      else None)"

definition decode_Provenance :: "provenance \<Rightarrow> go_value \<Rightarrow> provenance option" where
  "decode_Provenance = decode_struct decode_Provenance_member"

lemma Provenance_members:
  "(member_step decode_Provenance_member r ''platform'' (Some (GoString x0)) = Some (r\<lparr>pv_Platform := x0\<rparr>)) \<and>
   (member_step decode_Provenance_member r ''remote_object_id'' (Some (GoString x1)) = Some (r\<lparr>pv_RemoteObjectID := x1\<rparr>)) \<and>
   (pv_RemoteObjectVersion r = None \<longrightarrow> member_step decode_Provenance_member r ''remote_object_version'' (map_option GoString x2) = Some (r\<lparr>pv_RemoteObjectVersion := x2\<rparr>)) \<and>
   (pv_URL r = None \<longrightarrow> member_step decode_Provenance_member r ''url'' (map_option GoString x3) = Some (r\<lparr>pv_URL := x3\<rparr>)) \<and>
   (pv_SourceCreatedAt r = None \<longrightarrow> member_step decode_Provenance_member r ''source_created_at'' (map_option GoString x4) = Some (r\<lparr>pv_SourceCreatedAt := x4\<rparr>)) \<and>
   (pv_SourceUpdatedAt r = None \<longrightarrow> member_step decode_Provenance_member r ''source_updated_at'' (map_option GoString x5) = Some (r\<lparr>pv_SourceUpdatedAt := x5\<rparr>)) \<and>
   (member_step decode_Provenance_member r ''retrieved_at'' (Some (GoString x6)) = Some (r\<lparr>pv_RetrievedAt := x6\<rparr>)) \<and>
   (pv_Snapshot r = None \<longrightarrow> member_step decode_Provenance_member r ''snapshot'' (map_option json_ArtifactSnapshot x7) = Some (r\<lparr>pv_Snapshot := x7\<rparr>)) \<and>
   (pv_Importer r = None \<longrightarrow> member_step decode_Provenance_member r ''importer'' (map_option json_Importer x8) = Some (r\<lparr>pv_Importer := x8\<rparr>))"
  by ((intro conjI impI)?; simp only: field_names decode_Provenance_member_def split: option.split; auto)

lemma decode_json_Provenance [simp]: "decode_Provenance zero_Provenance (json_Provenance v) = Some v"
  by (rule provenance.cases [of v]) (simp add: decode_Provenance_def json_Provenance_def zero_Provenance_def Provenance_members decode_struct_object foldO_members)

lemma json_Provenance_not_null [simp]: "json_Provenance v \<noteq> GoNull"
  by (simp add: json_Provenance_def json_object_def)

definition zero_ScalarValue :: scalar_value where
  "zero_ScalarValue = \<lparr>sv_Boolean = None, sv_String = None\<rparr>"

definition decode_ScalarValue :: "scalar_value \<Rightarrow> go_value \<Rightarrow> scalar_value option" where
  "decode_ScalarValue _ v =
     (case v of
        GoBool b \<Rightarrow> Some (zero_ScalarValue\<lparr>sv_Boolean := Some b\<rparr>)
      | GoString s \<Rightarrow> if s = [] then None else Some (zero_ScalarValue\<lparr>sv_String := Some s\<rparr>)
      | _ \<Rightarrow> None)"

lemma decode_json_ScalarValue [simp]: "tagged_ScalarValue v \<Longrightarrow> decode_ScalarValue zero_ScalarValue (json_ScalarValue v) = Some v"
  by (drule tagged_ScalarValue_cases) (elim disjE exE conjE; auto simp: json_ScalarValue_def decode_ScalarValue_def zero_ScalarValue_def marshalOne_def map_filter_simps intro: scalar_value.equality)

lemma json_ScalarValue_not_null [simp]: "tagged_ScalarValue v \<Longrightarrow> json_ScalarValue v \<noteq> GoNull"
  by (drule tagged_ScalarValue_cases) (elim disjE exE conjE; simp add: json_ScalarValue_def marshalOne_def map_filter_simps)

definition zero_Option :: option_entry where
  "zero_Option =
     \<lparr>op_ID = '''',
      op_Label = '''',
      op_Description = None\<rparr>"

definition decode_Option_member :: "option_entry \<Rightarrow> string \<times> go_value \<Rightarrow> option_entry option" where
  "decode_Option_member v m =
     (if named m ''id'' then map_option (\<lambda>x. v\<lparr>op_ID := x\<rparr>) (decode_string (op_ID v) (snd m))
      else if named m ''label'' then map_option (\<lambda>x. v\<lparr>op_Label := x\<rparr>) (decode_string (op_Label v) (snd m))
      else if named m ''description'' then map_option (\<lambda>x. v\<lparr>op_Description := x\<rparr>) ((decode_pointer decode_string '''') (op_Description v) (snd m))
      else None)"

definition decode_Option :: "option_entry \<Rightarrow> go_value \<Rightarrow> option_entry option" where
  "decode_Option = decode_struct decode_Option_member"

lemma Option_members:
  "(member_step decode_Option_member r ''id'' (Some (GoString x0)) = Some (r\<lparr>op_ID := x0\<rparr>)) \<and>
   (member_step decode_Option_member r ''label'' (Some (GoString x1)) = Some (r\<lparr>op_Label := x1\<rparr>)) \<and>
   (op_Description r = None \<longrightarrow> member_step decode_Option_member r ''description'' (map_option GoString x2) = Some (r\<lparr>op_Description := x2\<rparr>))"
  by ((intro conjI impI)?; simp only: field_names decode_Option_member_def split: option.split; auto)

lemma decode_json_Option [simp]: "decode_Option zero_Option (json_Option v) = Some v"
  by (rule option_entry.cases [of v]) (simp add: decode_Option_def json_Option_def zero_Option_def Option_members decode_struct_object foldO_members)

lemma json_Option_not_null [simp]: "json_Option v \<noteq> GoNull"
  by (simp add: json_Option_def json_object_def)

definition zero_OptionSet :: option_set where
  "zero_OptionSet =
     \<lparr>os_ID = '''',
      os_Version = 0,
      os_Options = []\<rparr>"

definition decode_OptionSet_member :: "option_set \<Rightarrow> string \<times> go_value \<Rightarrow> option_set option" where
  "decode_OptionSet_member v m =
     (if named m ''id'' then map_option (\<lambda>x. v\<lparr>os_ID := x\<rparr>) (decode_string (os_ID v) (snd m))
      else if named m ''version'' then map_option (\<lambda>x. v\<lparr>os_Version := x\<rparr>) (decode_int (os_Version v) (snd m))
      else if named m ''options'' then map_option (\<lambda>x. v\<lparr>os_Options := x\<rparr>) ((decode_slice decode_Option zero_Option) (os_Options v) (snd m))
      else None)"

definition decode_OptionSet :: "option_set \<Rightarrow> go_value \<Rightarrow> option_set option" where
  "decode_OptionSet = decode_struct decode_OptionSet_member"

lemma OptionSet_members:
  "(member_step decode_OptionSet_member r ''id'' (Some (GoString x0)) = Some (r\<lparr>os_ID := x0\<rparr>)) \<and>
   (member_step decode_OptionSet_member r ''version'' (Some (GoInt x1)) = Some (r\<lparr>os_Version := x1\<rparr>)) \<and>
   (member_step decode_OptionSet_member r ''options'' (Some (GoArray (map json_Option x2))) = Some (r\<lparr>os_Options := x2\<rparr>))"
  by ((intro conjI impI)?; simp only: field_names decode_OptionSet_member_def split: option.split; auto)

lemma decode_json_OptionSet [simp]: "decode_OptionSet zero_OptionSet (json_OptionSet v) = Some v"
  by (rule option_set.cases [of v]) (simp add: decode_OptionSet_def json_OptionSet_def zero_OptionSet_def OptionSet_members decode_struct_object foldO_members)

lemma json_OptionSet_not_null [simp]: "json_OptionSet v \<noteq> GoNull"
  by (simp add: json_OptionSet_def json_object_def)

definition zero_SetRef :: set_ref where
  "zero_SetRef =
     \<lparr>rf_ID = '''',
      rf_Version = 0\<rparr>"

definition decode_SetRef_member :: "set_ref \<Rightarrow> string \<times> go_value \<Rightarrow> set_ref option" where
  "decode_SetRef_member v m =
     (if named m ''id'' then map_option (\<lambda>x. v\<lparr>rf_ID := x\<rparr>) (decode_string (rf_ID v) (snd m))
      else if named m ''version'' then map_option (\<lambda>x. v\<lparr>rf_Version := x\<rparr>) (decode_int (rf_Version v) (snd m))
      else None)"

definition decode_SetRef :: "set_ref \<Rightarrow> go_value \<Rightarrow> set_ref option" where
  "decode_SetRef = decode_struct decode_SetRef_member"

lemma SetRef_members:
  "(member_step decode_SetRef_member r ''id'' (Some (GoString x0)) = Some (r\<lparr>rf_ID := x0\<rparr>)) \<and>
   (member_step decode_SetRef_member r ''version'' (Some (GoInt x1)) = Some (r\<lparr>rf_Version := x1\<rparr>))"
  by ((intro conjI impI)?; simp only: field_names decode_SetRef_member_def split: option.split; auto)

lemma decode_json_SetRef [simp]: "decode_SetRef zero_SetRef (json_SetRef v) = Some v"
  by (rule set_ref.cases [of v]) (simp add: decode_SetRef_def json_SetRef_def zero_SetRef_def SetRef_members decode_struct_object foldO_members)

lemma json_SetRef_not_null [simp]: "json_SetRef v \<noteq> GoNull"
  by (simp add: json_SetRef_def json_object_def)

definition zero_Unit :: unit_spec where
  "zero_Unit =
     \<lparr>un_Name = '''',
      un_Symbol = None,
      un_UCUMCode = None\<rparr>"

definition decode_Unit_member :: "unit_spec \<Rightarrow> string \<times> go_value \<Rightarrow> unit_spec option" where
  "decode_Unit_member v m =
     (if named m ''name'' then map_option (\<lambda>x. v\<lparr>un_Name := x\<rparr>) (decode_string (un_Name v) (snd m))
      else if named m ''symbol'' then map_option (\<lambda>x. v\<lparr>un_Symbol := x\<rparr>) ((decode_pointer decode_string '''') (un_Symbol v) (snd m))
      else if named m ''ucum_code'' then map_option (\<lambda>x. v\<lparr>un_UCUMCode := x\<rparr>) ((decode_pointer decode_string '''') (un_UCUMCode v) (snd m))
      else None)"

definition decode_Unit :: "unit_spec \<Rightarrow> go_value \<Rightarrow> unit_spec option" where
  "decode_Unit = decode_struct decode_Unit_member"

lemma Unit_members:
  "(member_step decode_Unit_member r ''name'' (Some (GoString x0)) = Some (r\<lparr>un_Name := x0\<rparr>)) \<and>
   (un_Symbol r = None \<longrightarrow> member_step decode_Unit_member r ''symbol'' (map_option GoString x1) = Some (r\<lparr>un_Symbol := x1\<rparr>)) \<and>
   (un_UCUMCode r = None \<longrightarrow> member_step decode_Unit_member r ''ucum_code'' (map_option GoString x2) = Some (r\<lparr>un_UCUMCode := x2\<rparr>))"
  by ((intro conjI impI)?; simp only: field_names decode_Unit_member_def split: option.split; auto)

lemma decode_json_Unit [simp]: "decode_Unit zero_Unit (json_Unit v) = Some v"
  by (rule unit_spec.cases [of v]) (simp add: decode_Unit_def json_Unit_def zero_Unit_def Unit_members decode_struct_object foldO_members)

lemma json_Unit_not_null [simp]: "json_Unit v \<noteq> GoNull"
  by (simp add: json_Unit_def json_object_def)

definition zero_Bound :: bound where
  "zero_Bound =
     \<lparr>bd_Value = '''',
      bd_Inclusive = False\<rparr>"

definition decode_Bound_member :: "bound \<Rightarrow> string \<times> go_value \<Rightarrow> bound option" where
  "decode_Bound_member v m =
     (if named m ''value'' then map_option (\<lambda>x. v\<lparr>bd_Value := x\<rparr>) (decode_string (bd_Value v) (snd m))
      else if named m ''inclusive'' then map_option (\<lambda>x. v\<lparr>bd_Inclusive := x\<rparr>) (decode_bool (bd_Inclusive v) (snd m))
      else None)"

definition decode_Bound :: "bound \<Rightarrow> go_value \<Rightarrow> bound option" where
  "decode_Bound = decode_struct decode_Bound_member"

lemma Bound_members:
  "(member_step decode_Bound_member r ''value'' (Some (GoString x0)) = Some (r\<lparr>bd_Value := x0\<rparr>)) \<and>
   (member_step decode_Bound_member r ''inclusive'' (Some (GoBool x1)) = Some (r\<lparr>bd_Inclusive := x1\<rparr>))"
  by ((intro conjI impI)?; simp only: field_names decode_Bound_member_def split: option.split; auto)

lemma decode_json_Bound [simp]: "decode_Bound zero_Bound (json_Bound v) = Some v"
  by (rule bound.cases [of v]) (simp add: decode_Bound_def json_Bound_def zero_Bound_def Bound_members decode_struct_object foldO_members)

lemma json_Bound_not_null [simp]: "json_Bound v \<noteq> GoNull"
  by (simp add: json_Bound_def json_object_def)

definition zero_Bounds :: bounds where
  "zero_Bounds =
     \<lparr>bs_Lower = None,
      bs_Upper = None\<rparr>"

definition decode_Bounds_member :: "bounds \<Rightarrow> string \<times> go_value \<Rightarrow> bounds option" where
  "decode_Bounds_member v m =
     (if named m ''lower'' then map_option (\<lambda>x. v\<lparr>bs_Lower := x\<rparr>) ((decode_pointer decode_Bound zero_Bound) (bs_Lower v) (snd m))
      else if named m ''upper'' then map_option (\<lambda>x. v\<lparr>bs_Upper := x\<rparr>) ((decode_pointer decode_Bound zero_Bound) (bs_Upper v) (snd m))
      else None)"

definition decode_Bounds :: "bounds \<Rightarrow> go_value \<Rightarrow> bounds option" where
  "decode_Bounds = decode_struct decode_Bounds_member"

lemma Bounds_members:
  "(bs_Lower r = None \<longrightarrow> member_step decode_Bounds_member r ''lower'' (map_option json_Bound x0) = Some (r\<lparr>bs_Lower := x0\<rparr>)) \<and>
   (bs_Upper r = None \<longrightarrow> member_step decode_Bounds_member r ''upper'' (map_option json_Bound x1) = Some (r\<lparr>bs_Upper := x1\<rparr>))"
  by ((intro conjI impI)?; simp only: field_names decode_Bounds_member_def split: option.split; auto)

lemma decode_json_Bounds [simp]: "decode_Bounds zero_Bounds (json_Bounds v) = Some v"
  by (rule bounds.cases [of v]) (simp add: decode_Bounds_def json_Bounds_def zero_Bounds_def Bounds_members decode_struct_object foldO_members)

lemma json_Bounds_not_null [simp]: "json_Bounds v \<noteq> GoNull"
  by (simp add: json_Bounds_def json_object_def)

definition zero_Bin :: bin where
  "zero_Bin =
     \<lparr>bi_ID = '''',
      bi_Label = None,
      bi_Lower = '''',
      bi_Upper = '''',
      bi_LowerInclusive = False,
      bi_UpperInclusive = False\<rparr>"

definition decode_Bin_member :: "bin \<Rightarrow> string \<times> go_value \<Rightarrow> bin option" where
  "decode_Bin_member v m =
     (if named m ''id'' then map_option (\<lambda>x. v\<lparr>bi_ID := x\<rparr>) (decode_string (bi_ID v) (snd m))
      else if named m ''label'' then map_option (\<lambda>x. v\<lparr>bi_Label := x\<rparr>) ((decode_pointer decode_string '''') (bi_Label v) (snd m))
      else if named m ''lower'' then map_option (\<lambda>x. v\<lparr>bi_Lower := x\<rparr>) (decode_string (bi_Lower v) (snd m))
      else if named m ''upper'' then map_option (\<lambda>x. v\<lparr>bi_Upper := x\<rparr>) (decode_string (bi_Upper v) (snd m))
      else if named m ''lower_inclusive'' then map_option (\<lambda>x. v\<lparr>bi_LowerInclusive := x\<rparr>) (decode_bool (bi_LowerInclusive v) (snd m))
      else if named m ''upper_inclusive'' then map_option (\<lambda>x. v\<lparr>bi_UpperInclusive := x\<rparr>) (decode_bool (bi_UpperInclusive v) (snd m))
      else None)"

definition decode_Bin :: "bin \<Rightarrow> go_value \<Rightarrow> bin option" where
  "decode_Bin = decode_struct decode_Bin_member"

lemma Bin_members:
  "(member_step decode_Bin_member r ''id'' (Some (GoString x0)) = Some (r\<lparr>bi_ID := x0\<rparr>)) \<and>
   (bi_Label r = None \<longrightarrow> member_step decode_Bin_member r ''label'' (map_option GoString x1) = Some (r\<lparr>bi_Label := x1\<rparr>)) \<and>
   (member_step decode_Bin_member r ''lower'' (Some (GoString x2)) = Some (r\<lparr>bi_Lower := x2\<rparr>)) \<and>
   (member_step decode_Bin_member r ''upper'' (Some (GoString x3)) = Some (r\<lparr>bi_Upper := x3\<rparr>)) \<and>
   (member_step decode_Bin_member r ''lower_inclusive'' (Some (GoBool x4)) = Some (r\<lparr>bi_LowerInclusive := x4\<rparr>)) \<and>
   (member_step decode_Bin_member r ''upper_inclusive'' (Some (GoBool x5)) = Some (r\<lparr>bi_UpperInclusive := x5\<rparr>))"
  by ((intro conjI impI)?; simp only: field_names decode_Bin_member_def split: option.split; auto)

lemma decode_json_Bin [simp]: "decode_Bin zero_Bin (json_Bin v) = Some v"
  by (rule bin.cases [of v]) (simp add: decode_Bin_def json_Bin_def zero_Bin_def Bin_members decode_struct_object foldO_members)

lemma json_Bin_not_null [simp]: "json_Bin v \<noteq> GoNull"
  by (simp add: json_Bin_def json_object_def)

definition zero_BinSet :: bin_set where
  "zero_BinSet =
     \<lparr>bt_ID = '''',
      bt_Version = 0,
      bt_Bins = []\<rparr>"

definition decode_BinSet_member :: "bin_set \<Rightarrow> string \<times> go_value \<Rightarrow> bin_set option" where
  "decode_BinSet_member v m =
     (if named m ''id'' then map_option (\<lambda>x. v\<lparr>bt_ID := x\<rparr>) (decode_string (bt_ID v) (snd m))
      else if named m ''version'' then map_option (\<lambda>x. v\<lparr>bt_Version := x\<rparr>) (decode_int (bt_Version v) (snd m))
      else if named m ''bins'' then map_option (\<lambda>x. v\<lparr>bt_Bins := x\<rparr>) ((decode_slice decode_Bin zero_Bin) (bt_Bins v) (snd m))
      else None)"

definition decode_BinSet :: "bin_set \<Rightarrow> go_value \<Rightarrow> bin_set option" where
  "decode_BinSet = decode_struct decode_BinSet_member"

lemma BinSet_members:
  "(member_step decode_BinSet_member r ''id'' (Some (GoString x0)) = Some (r\<lparr>bt_ID := x0\<rparr>)) \<and>
   (member_step decode_BinSet_member r ''version'' (Some (GoInt x1)) = Some (r\<lparr>bt_Version := x1\<rparr>)) \<and>
   (member_step decode_BinSet_member r ''bins'' (Some (GoArray (map json_Bin x2))) = Some (r\<lparr>bt_Bins := x2\<rparr>))"
  by ((intro conjI impI)?; simp only: field_names decode_BinSet_member_def split: option.split; auto)

lemma decode_json_BinSet [simp]: "decode_BinSet zero_BinSet (json_BinSet v) = Some v"
  by (rule bin_set.cases [of v]) (simp add: decode_BinSet_def json_BinSet_def zero_BinSet_def BinSet_members decode_struct_object foldO_members)

lemma json_BinSet_not_null [simp]: "json_BinSet v \<noteq> GoNull"
  by (simp add: json_BinSet_def json_object_def)

definition zero_ContinuousValues :: continuous_values where
  "zero_ContinuousValues =
     \<lparr>cv_Kind = ''''\<rparr>"

definition decode_ContinuousValues_member :: "continuous_values \<Rightarrow> string \<times> go_value \<Rightarrow> continuous_values option" where
  "decode_ContinuousValues_member v m =
     (if named m ''kind'' then map_option (\<lambda>x. v\<lparr>cv_Kind := x\<rparr>) (decode_string (cv_Kind v) (snd m))
      else None)"

definition decode_ContinuousValues :: "continuous_values \<Rightarrow> go_value \<Rightarrow> continuous_values option" where
  "decode_ContinuousValues = decode_struct decode_ContinuousValues_member"

lemma ContinuousValues_members:
  "(member_step decode_ContinuousValues_member r ''kind'' (Some (GoString x0)) = Some (r\<lparr>cv_Kind := x0\<rparr>))"
  by ((intro conjI impI)?; simp only: field_names decode_ContinuousValues_member_def split: option.split; auto)

lemma decode_json_ContinuousValues [simp]: "decode_ContinuousValues zero_ContinuousValues (json_ContinuousValues v) = Some v"
  by (rule continuous_values.cases [of v]) (simp add: decode_ContinuousValues_def json_ContinuousValues_def zero_ContinuousValues_def ContinuousValues_members decode_struct_object foldO_members)

lemma discriminator_ContinuousValues [simp]: "discriminator ''kind'' (json_ContinuousValues v) = Some (cv_Kind v)"
  by (simp add: json_ContinuousValues_def discriminator_member)

lemma json_ContinuousValues_not_null [simp]: "json_ContinuousValues v \<noteq> GoNull"
  by (simp add: json_ContinuousValues_def json_object_def)

definition zero_StepValues :: step_values where
  "zero_StepValues =
     \<lparr>st_Kind = '''',
      st_Step = '''',
      st_Origin = None\<rparr>"

definition decode_StepValues_member :: "step_values \<Rightarrow> string \<times> go_value \<Rightarrow> step_values option" where
  "decode_StepValues_member v m =
     (if named m ''kind'' then map_option (\<lambda>x. v\<lparr>st_Kind := x\<rparr>) (decode_string (st_Kind v) (snd m))
      else if named m ''step'' then map_option (\<lambda>x. v\<lparr>st_Step := x\<rparr>) (decode_string (st_Step v) (snd m))
      else if named m ''origin'' then map_option (\<lambda>x. v\<lparr>st_Origin := x\<rparr>) ((decode_pointer decode_string '''') (st_Origin v) (snd m))
      else None)"

definition decode_StepValues :: "step_values \<Rightarrow> go_value \<Rightarrow> step_values option" where
  "decode_StepValues = decode_struct decode_StepValues_member"

lemma StepValues_members:
  "(member_step decode_StepValues_member r ''kind'' (Some (GoString x0)) = Some (r\<lparr>st_Kind := x0\<rparr>)) \<and>
   (member_step decode_StepValues_member r ''step'' (Some (GoString x1)) = Some (r\<lparr>st_Step := x1\<rparr>)) \<and>
   (st_Origin r = None \<longrightarrow> member_step decode_StepValues_member r ''origin'' (map_option GoString x2) = Some (r\<lparr>st_Origin := x2\<rparr>))"
  by ((intro conjI impI)?; simp only: field_names decode_StepValues_member_def split: option.split; auto)

lemma decode_json_StepValues [simp]: "decode_StepValues zero_StepValues (json_StepValues v) = Some v"
  by (rule step_values.cases [of v]) (simp add: decode_StepValues_def json_StepValues_def zero_StepValues_def StepValues_members decode_struct_object foldO_members)

lemma discriminator_StepValues [simp]: "discriminator ''kind'' (json_StepValues v) = Some (st_Kind v)"
  by (simp add: json_StepValues_def discriminator_member)

lemma json_StepValues_not_null [simp]: "json_StepValues v \<noteq> GoNull"
  by (simp add: json_StepValues_def json_object_def)

definition zero_AllowedValues :: allowed_values where
  "zero_AllowedValues =
     \<lparr>av_Kind = '''',
      av_Values = []\<rparr>"

definition decode_AllowedValues_member :: "allowed_values \<Rightarrow> string \<times> go_value \<Rightarrow> allowed_values option" where
  "decode_AllowedValues_member v m =
     (if named m ''kind'' then map_option (\<lambda>x. v\<lparr>av_Kind := x\<rparr>) (decode_string (av_Kind v) (snd m))
      else if named m ''values'' then map_option (\<lambda>x. v\<lparr>av_Values := x\<rparr>) ((decode_slice decode_string '''') (av_Values v) (snd m))
      else None)"

definition decode_AllowedValues :: "allowed_values \<Rightarrow> go_value \<Rightarrow> allowed_values option" where
  "decode_AllowedValues = decode_struct decode_AllowedValues_member"

lemma AllowedValues_members:
  "(member_step decode_AllowedValues_member r ''kind'' (Some (GoString x0)) = Some (r\<lparr>av_Kind := x0\<rparr>)) \<and>
   (member_step decode_AllowedValues_member r ''values'' (Some (GoArray (map GoString x1))) = Some (r\<lparr>av_Values := x1\<rparr>))"
  by ((intro conjI impI)?; simp only: field_names decode_AllowedValues_member_def split: option.split; auto)

lemma decode_json_AllowedValues [simp]: "decode_AllowedValues zero_AllowedValues (json_AllowedValues v) = Some v"
  by (rule allowed_values.cases [of v]) (simp add: decode_AllowedValues_def json_AllowedValues_def zero_AllowedValues_def AllowedValues_members decode_struct_object foldO_members)

lemma discriminator_AllowedValues [simp]: "discriminator ''kind'' (json_AllowedValues v) = Some (av_Kind v)"
  by (simp add: json_AllowedValues_def discriminator_member)

lemma json_AllowedValues_not_null [simp]: "json_AllowedValues v \<noteq> GoNull"
  by (simp add: json_AllowedValues_def json_object_def)

definition zero_ValuesPolicy :: values_policy where
  "zero_ValuesPolicy = \<lparr>vp_Continuous = None, vp_Step = None, vp_Allowed = None\<rparr>"

definition decode_ValuesPolicy :: "values_policy \<Rightarrow> go_value \<Rightarrow> values_policy option" where
  "decode_ValuesPolicy _ v =
     (case discriminator ''kind'' v of
        None \<Rightarrow> None
      | Some kind \<Rightarrow>
          if kind = ValuesContinuous then map_option (\<lambda>x. zero_ValuesPolicy\<lparr>vp_Continuous := Some x\<rparr>) (decode_ContinuousValues zero_ContinuousValues v)
          else if kind = ValuesStep then map_option (\<lambda>x. zero_ValuesPolicy\<lparr>vp_Step := Some x\<rparr>) (decode_StepValues zero_StepValues v)
          else if kind = ValuesAllowed then map_option (\<lambda>x. zero_ValuesPolicy\<lparr>vp_Allowed := Some x\<rparr>) (decode_AllowedValues zero_AllowedValues v)
          else None)"

lemma decode_json_ValuesPolicy [simp]: "tagged_ValuesPolicy v \<Longrightarrow> decode_ValuesPolicy zero_ValuesPolicy (json_ValuesPolicy v) = Some v"
  by (drule tagged_ValuesPolicy_cases) (elim disjE exE conjE; auto simp: json_ValuesPolicy_def decode_ValuesPolicy_def zero_ValuesPolicy_def marshalOne_def map_filter_simps intro: values_policy.equality)

lemma json_ValuesPolicy_not_null [simp]: "tagged_ValuesPolicy v \<Longrightarrow> json_ValuesPolicy v \<noteq> GoNull"
  by (drule tagged_ValuesPolicy_cases) (elim disjE exE conjE; simp add: json_ValuesPolicy_def marshalOne_def map_filter_simps)

definition zero_BinaryDomain :: binary_domain where
  "zero_BinaryDomain =
     \<lparr>bn_Kind = ''''\<rparr>"

definition decode_BinaryDomain_member :: "binary_domain \<Rightarrow> string \<times> go_value \<Rightarrow> binary_domain option" where
  "decode_BinaryDomain_member v m =
     (if named m ''kind'' then map_option (\<lambda>x. v\<lparr>bn_Kind := x\<rparr>) (decode_string (bn_Kind v) (snd m))
      else None)"

definition decode_BinaryDomain :: "binary_domain \<Rightarrow> go_value \<Rightarrow> binary_domain option" where
  "decode_BinaryDomain = decode_struct decode_BinaryDomain_member"

lemma BinaryDomain_members:
  "(member_step decode_BinaryDomain_member r ''kind'' (Some (GoString x0)) = Some (r\<lparr>bn_Kind := x0\<rparr>))"
  by ((intro conjI impI)?; simp only: field_names decode_BinaryDomain_member_def split: option.split; auto)

lemma decode_json_BinaryDomain [simp]: "decode_BinaryDomain zero_BinaryDomain (json_BinaryDomain v) = Some v"
  by (rule binary_domain.cases [of v]) (simp add: decode_BinaryDomain_def json_BinaryDomain_def zero_BinaryDomain_def BinaryDomain_members decode_struct_object foldO_members)

lemma discriminator_BinaryDomain [simp]: "discriminator ''kind'' (json_BinaryDomain v) = Some (bn_Kind v)"
  by (simp add: json_BinaryDomain_def discriminator_member)

lemma json_BinaryDomain_not_null [simp]: "json_BinaryDomain v \<noteq> GoNull"
  by (simp add: json_BinaryDomain_def json_object_def)

definition zero_OptionDomain :: option_domain where
  "zero_OptionDomain =
     \<lparr>od_Kind = '''',
      od_OptionSet = zero_OptionSet\<rparr>"

definition decode_OptionDomain_member :: "option_domain \<Rightarrow> string \<times> go_value \<Rightarrow> option_domain option" where
  "decode_OptionDomain_member v m =
     (if named m ''kind'' then map_option (\<lambda>x. v\<lparr>od_Kind := x\<rparr>) (decode_string (od_Kind v) (snd m))
      else if named m ''option_set'' then map_option (\<lambda>x. v\<lparr>od_OptionSet := x\<rparr>) (decode_OptionSet (od_OptionSet v) (snd m))
      else None)"

definition decode_OptionDomain :: "option_domain \<Rightarrow> go_value \<Rightarrow> option_domain option" where
  "decode_OptionDomain = decode_struct decode_OptionDomain_member"

lemma OptionDomain_members:
  "(member_step decode_OptionDomain_member r ''kind'' (Some (GoString x0)) = Some (r\<lparr>od_Kind := x0\<rparr>)) \<and>
   (od_OptionSet r = zero_OptionSet \<longrightarrow> member_step decode_OptionDomain_member r ''option_set'' (Some (json_OptionSet x1)) = Some (r\<lparr>od_OptionSet := x1\<rparr>))"
  by ((intro conjI impI)?; simp only: field_names decode_OptionDomain_member_def split: option.split; auto)

lemma decode_json_OptionDomain [simp]: "decode_OptionDomain zero_OptionDomain (json_OptionDomain v) = Some v"
  by (rule option_domain.cases [of v]) (simp add: decode_OptionDomain_def json_OptionDomain_def zero_OptionDomain_def OptionDomain_members decode_struct_object foldO_members)

lemma discriminator_OptionDomain [simp]: "discriminator ''kind'' (json_OptionDomain v) = Some (od_Kind v)"
  by (simp add: json_OptionDomain_def discriminator_member)

lemma json_OptionDomain_not_null [simp]: "json_OptionDomain v \<noteq> GoNull"
  by (simp add: json_OptionDomain_def json_object_def)

definition zero_NumericDomain :: numeric_domain where
  "zero_NumericDomain =
     \<lparr>sd_Kind = '''',
      sd_Bounds = None,
      sd_Values = zero_ValuesPolicy,
      sd_BinSets = None,
      nd_ElicitationScale = None,
      nd_Unit = None\<rparr>"

definition decode_NumericDomain_member :: "numeric_domain \<Rightarrow> string \<times> go_value \<Rightarrow> numeric_domain option" where
  "decode_NumericDomain_member v m =
     (if named m ''kind'' then map_option (\<lambda>x. v\<lparr>sd_Kind := x\<rparr>) (decode_string (sd_Kind v) (snd m))
      else if named m ''bounds'' then map_option (\<lambda>x. v\<lparr>sd_Bounds := x\<rparr>) ((decode_pointer decode_Bounds zero_Bounds) (sd_Bounds v) (snd m))
      else if named m ''values'' then map_option (\<lambda>x. v\<lparr>sd_Values := x\<rparr>) (decode_ValuesPolicy (sd_Values v) (snd m))
      else if named m ''elicitation_scale'' then map_option (\<lambda>x. v\<lparr>nd_ElicitationScale := x\<rparr>) ((decode_pointer decode_string '''') (nd_ElicitationScale v) (snd m))
      else if named m ''unit'' then map_option (\<lambda>x. v\<lparr>nd_Unit := x\<rparr>) ((decode_pointer decode_Unit zero_Unit) (nd_Unit v) (snd m))
      else if named m ''bin_sets'' then map_option (\<lambda>x. v\<lparr>sd_BinSets := x\<rparr>) ((decode_pointer (decode_slice decode_BinSet zero_BinSet) []) (sd_BinSets v) (snd m))
      else None)"

definition decode_NumericDomain :: "numeric_domain \<Rightarrow> go_value \<Rightarrow> numeric_domain option" where
  "decode_NumericDomain = decode_struct decode_NumericDomain_member"

lemma NumericDomain_members:
  "(member_step decode_NumericDomain_member r ''kind'' (Some (GoString x0)) = Some (r\<lparr>sd_Kind := x0\<rparr>)) \<and>
   (sd_Bounds r = None \<longrightarrow> member_step decode_NumericDomain_member r ''bounds'' (map_option json_Bounds x1) = Some (r\<lparr>sd_Bounds := x1\<rparr>)) \<and>
   (sd_Values r = zero_ValuesPolicy \<longrightarrow> tagged_ValuesPolicy x2 \<longrightarrow> member_step decode_NumericDomain_member r ''values'' (Some (json_ValuesPolicy x2)) = Some (r\<lparr>sd_Values := x2\<rparr>)) \<and>
   (nd_ElicitationScale r = None \<longrightarrow> member_step decode_NumericDomain_member r ''elicitation_scale'' (map_option GoString x3) = Some (r\<lparr>nd_ElicitationScale := x3\<rparr>)) \<and>
   (nd_Unit r = None \<longrightarrow> member_step decode_NumericDomain_member r ''unit'' (map_option json_Unit x4) = Some (r\<lparr>nd_Unit := x4\<rparr>)) \<and>
   (sd_BinSets r = None \<longrightarrow> member_step decode_NumericDomain_member r ''bin_sets'' (map_option (GoArray \<circ> map json_BinSet) x5) = Some (r\<lparr>sd_BinSets := x5\<rparr>))"
  by ((intro conjI impI)?; simp only: field_names decode_NumericDomain_member_def split: option.split; auto)

lemma decode_json_NumericDomain [simp]: "tagged_NumericDomain v \<Longrightarrow> decode_NumericDomain zero_NumericDomain (json_NumericDomain v) = Some v"
  by (rule numeric_domain.cases [of v]) (simp add: decode_NumericDomain_def json_NumericDomain_def zero_NumericDomain_def NumericDomain_members decode_struct_object foldO_members tagged_NumericDomain_def)

lemma discriminator_NumericDomain [simp]: "discriminator ''kind'' (json_NumericDomain v) = Some (sd_Kind v)"
  by (simp add: json_NumericDomain_def discriminator_member)

lemma json_NumericDomain_not_null [simp]: "json_NumericDomain v \<noteq> GoNull"
  by (simp add: json_NumericDomain_def json_object_def)

definition zero_ScalarDomain :: scalar_domain where
  "zero_ScalarDomain =
     \<lparr>sd_Kind = '''',
      sd_Bounds = None,
      sd_Values = zero_ValuesPolicy,
      sd_BinSets = None\<rparr>"

definition decode_ScalarDomain_member :: "scalar_domain \<Rightarrow> string \<times> go_value \<Rightarrow> scalar_domain option" where
  "decode_ScalarDomain_member v m =
     (if named m ''kind'' then map_option (\<lambda>x. v\<lparr>sd_Kind := x\<rparr>) (decode_string (sd_Kind v) (snd m))
      else if named m ''bounds'' then map_option (\<lambda>x. v\<lparr>sd_Bounds := x\<rparr>) ((decode_pointer decode_Bounds zero_Bounds) (sd_Bounds v) (snd m))
      else if named m ''values'' then map_option (\<lambda>x. v\<lparr>sd_Values := x\<rparr>) (decode_ValuesPolicy (sd_Values v) (snd m))
      else if named m ''bin_sets'' then map_option (\<lambda>x. v\<lparr>sd_BinSets := x\<rparr>) ((decode_pointer (decode_slice decode_BinSet zero_BinSet) []) (sd_BinSets v) (snd m))
      else None)"

definition decode_ScalarDomain :: "scalar_domain \<Rightarrow> go_value \<Rightarrow> scalar_domain option" where
  "decode_ScalarDomain = decode_struct decode_ScalarDomain_member"

lemma ScalarDomain_members:
  "(member_step decode_ScalarDomain_member r ''kind'' (Some (GoString x0)) = Some (r\<lparr>sd_Kind := x0\<rparr>)) \<and>
   (sd_Bounds r = None \<longrightarrow> member_step decode_ScalarDomain_member r ''bounds'' (map_option json_Bounds x1) = Some (r\<lparr>sd_Bounds := x1\<rparr>)) \<and>
   (sd_Values r = zero_ValuesPolicy \<longrightarrow> tagged_ValuesPolicy x2 \<longrightarrow> member_step decode_ScalarDomain_member r ''values'' (Some (json_ValuesPolicy x2)) = Some (r\<lparr>sd_Values := x2\<rparr>)) \<and>
   (sd_BinSets r = None \<longrightarrow> member_step decode_ScalarDomain_member r ''bin_sets'' (map_option (GoArray \<circ> map json_BinSet) x3) = Some (r\<lparr>sd_BinSets := x3\<rparr>))"
  by ((intro conjI impI)?; simp only: field_names decode_ScalarDomain_member_def split: option.split; auto)

lemma decode_json_ScalarDomain [simp]: "tagged_ScalarDomain v \<Longrightarrow> decode_ScalarDomain zero_ScalarDomain (json_ScalarDomain v) = Some v"
  by (rule scalar_domain.cases [of v]) (simp add: decode_ScalarDomain_def json_ScalarDomain_def zero_ScalarDomain_def ScalarDomain_members decode_struct_object foldO_members tagged_ScalarDomain_def)

lemma discriminator_ScalarDomain [simp]: "discriminator ''kind'' (json_ScalarDomain v) = Some (sd_Kind v)"
  by (simp add: json_ScalarDomain_def discriminator_member)

lemma json_ScalarDomain_not_null [simp]: "json_ScalarDomain v \<noteq> GoNull"
  by (simp add: json_ScalarDomain_def json_object_def)

definition zero_Domain :: domain where
  "zero_Domain = \<lparr>dm_Binary = None, dm_Categorical = None, dm_Ordinal = None, dm_Numeric = None, dm_Date = None, dm_Datetime = None\<rparr>"

definition decode_Domain :: "domain \<Rightarrow> go_value \<Rightarrow> domain option" where
  "decode_Domain _ v =
     (case discriminator ''kind'' v of
        None \<Rightarrow> None
      | Some kind \<Rightarrow>
          if kind = OutcomeBinary then map_option (\<lambda>x. zero_Domain\<lparr>dm_Binary := Some x\<rparr>) (decode_BinaryDomain zero_BinaryDomain v)
          else if kind = OutcomeCategorical then map_option (\<lambda>x. zero_Domain\<lparr>dm_Categorical := Some x\<rparr>) (decode_OptionDomain zero_OptionDomain v)
          else if kind = OutcomeOrdinal then map_option (\<lambda>x. zero_Domain\<lparr>dm_Ordinal := Some x\<rparr>) (decode_OptionDomain zero_OptionDomain v)
          else if kind = OutcomeNumeric then map_option (\<lambda>x. zero_Domain\<lparr>dm_Numeric := Some x\<rparr>) (decode_NumericDomain zero_NumericDomain v)
          else if kind = OutcomeDate then map_option (\<lambda>x. zero_Domain\<lparr>dm_Date := Some x\<rparr>) (decode_ScalarDomain zero_ScalarDomain v)
          else if kind = OutcomeDatetime then map_option (\<lambda>x. zero_Domain\<lparr>dm_Datetime := Some x\<rparr>) (decode_ScalarDomain zero_ScalarDomain v)
          else None)"

lemma decode_json_Domain [simp]: "tagged_Domain v \<Longrightarrow> decode_Domain zero_Domain (json_Domain v) = Some v"
  by (drule tagged_Domain_cases) (elim disjE exE conjE; auto simp: json_Domain_def decode_Domain_def zero_Domain_def marshalOne_def map_filter_simps intro: domain.equality)

lemma json_Domain_not_null [simp]: "tagged_Domain v \<Longrightarrow> json_Domain v \<noteq> GoNull"
  by (drule tagged_Domain_cases) (elim disjE exE conjE; simp add: json_Domain_def marshalOne_def map_filter_simps)

definition zero_OutcomeSpace :: outcome_space where
  "zero_OutcomeSpace =
     \<lparr>oc_Kind = ''''\<rparr>"

definition decode_OutcomeSpace_member :: "outcome_space \<Rightarrow> string \<times> go_value \<Rightarrow> outcome_space option" where
  "decode_OutcomeSpace_member v m =
     (if named m ''kind'' then map_option (\<lambda>x. v\<lparr>oc_Kind := x\<rparr>) (decode_string (oc_Kind v) (snd m))
      else None)"

definition decode_OutcomeSpace :: "outcome_space \<Rightarrow> go_value \<Rightarrow> outcome_space option" where
  "decode_OutcomeSpace = decode_struct decode_OutcomeSpace_member"

lemma OutcomeSpace_members:
  "(member_step decode_OutcomeSpace_member r ''kind'' (Some (GoString x0)) = Some (r\<lparr>oc_Kind := x0\<rparr>))"
  by ((intro conjI impI)?; simp only: field_names decode_OutcomeSpace_member_def split: option.split; auto)

lemma decode_json_OutcomeSpace [simp]: "decode_OutcomeSpace zero_OutcomeSpace (json_OutcomeSpace v) = Some v"
  by (rule outcome_space.cases [of v]) (simp add: decode_OutcomeSpace_def json_OutcomeSpace_def zero_OutcomeSpace_def OutcomeSpace_members decode_struct_object foldO_members)

lemma discriminator_OutcomeSpace [simp]: "discriminator ''kind'' (json_OutcomeSpace v) = Some (oc_Kind v)"
  by (simp add: json_OutcomeSpace_def discriminator_member)

lemma json_OutcomeSpace_not_null [simp]: "json_OutcomeSpace v \<noteq> GoNull"
  by (simp add: json_OutcomeSpace_def json_object_def)

definition zero_QuestionRevision :: question_revision where
  "zero_QuestionRevision =
     \<lparr>qr_ID = '''',
      qr_EffectiveAt = '''',
      qr_RecordedAt = '''',
      qr_Title = '''',
      qr_ResolutionCriteria = '''',
      qr_ForecastingOpensAt = None,
      qr_ExpectedResolutionAt = '''',
      qr_OutcomeSpace = zero_OutcomeSpace,
      qr_Domain = zero_Domain,
      qr_Provenance = None\<rparr>"

definition decode_QuestionRevision_member :: "question_revision \<Rightarrow> string \<times> go_value \<Rightarrow> question_revision option" where
  "decode_QuestionRevision_member v m =
     (if named m ''id'' then map_option (\<lambda>x. v\<lparr>qr_ID := x\<rparr>) (decode_string (qr_ID v) (snd m))
      else if named m ''effective_at'' then map_option (\<lambda>x. v\<lparr>qr_EffectiveAt := x\<rparr>) (decode_string (qr_EffectiveAt v) (snd m))
      else if named m ''recorded_at'' then map_option (\<lambda>x. v\<lparr>qr_RecordedAt := x\<rparr>) (decode_string (qr_RecordedAt v) (snd m))
      else if named m ''title'' then map_option (\<lambda>x. v\<lparr>qr_Title := x\<rparr>) (decode_string (qr_Title v) (snd m))
      else if named m ''resolution_criteria'' then map_option (\<lambda>x. v\<lparr>qr_ResolutionCriteria := x\<rparr>) (decode_string (qr_ResolutionCriteria v) (snd m))
      else if named m ''forecasting_opens_at'' then map_option (\<lambda>x. v\<lparr>qr_ForecastingOpensAt := x\<rparr>) ((decode_pointer decode_string '''') (qr_ForecastingOpensAt v) (snd m))
      else if named m ''expected_resolution_at'' then map_option (\<lambda>x. v\<lparr>qr_ExpectedResolutionAt := x\<rparr>) (decode_string (qr_ExpectedResolutionAt v) (snd m))
      else if named m ''outcome_space'' then map_option (\<lambda>x. v\<lparr>qr_OutcomeSpace := x\<rparr>) (decode_OutcomeSpace (qr_OutcomeSpace v) (snd m))
      else if named m ''domain'' then map_option (\<lambda>x. v\<lparr>qr_Domain := x\<rparr>) (decode_Domain (qr_Domain v) (snd m))
      else if named m ''provenance'' then map_option (\<lambda>x. v\<lparr>qr_Provenance := x\<rparr>) ((decode_pointer decode_Provenance zero_Provenance) (qr_Provenance v) (snd m))
      else None)"

definition decode_QuestionRevision :: "question_revision \<Rightarrow> go_value \<Rightarrow> question_revision option" where
  "decode_QuestionRevision = decode_struct decode_QuestionRevision_member"

lemma QuestionRevision_members:
  "(member_step decode_QuestionRevision_member r ''id'' (Some (GoString x0)) = Some (r\<lparr>qr_ID := x0\<rparr>)) \<and>
   (member_step decode_QuestionRevision_member r ''effective_at'' (Some (GoString x1)) = Some (r\<lparr>qr_EffectiveAt := x1\<rparr>)) \<and>
   (member_step decode_QuestionRevision_member r ''recorded_at'' (Some (GoString x2)) = Some (r\<lparr>qr_RecordedAt := x2\<rparr>)) \<and>
   (member_step decode_QuestionRevision_member r ''title'' (Some (GoString x3)) = Some (r\<lparr>qr_Title := x3\<rparr>)) \<and>
   (member_step decode_QuestionRevision_member r ''resolution_criteria'' (Some (GoString x4)) = Some (r\<lparr>qr_ResolutionCriteria := x4\<rparr>)) \<and>
   (qr_ForecastingOpensAt r = None \<longrightarrow> member_step decode_QuestionRevision_member r ''forecasting_opens_at'' (map_option GoString x5) = Some (r\<lparr>qr_ForecastingOpensAt := x5\<rparr>)) \<and>
   (member_step decode_QuestionRevision_member r ''expected_resolution_at'' (Some (GoString x6)) = Some (r\<lparr>qr_ExpectedResolutionAt := x6\<rparr>)) \<and>
   (qr_OutcomeSpace r = zero_OutcomeSpace \<longrightarrow> member_step decode_QuestionRevision_member r ''outcome_space'' (Some (json_OutcomeSpace x7)) = Some (r\<lparr>qr_OutcomeSpace := x7\<rparr>)) \<and>
   (qr_Domain r = zero_Domain \<longrightarrow> tagged_Domain x8 \<longrightarrow> member_step decode_QuestionRevision_member r ''domain'' (Some (json_Domain x8)) = Some (r\<lparr>qr_Domain := x8\<rparr>)) \<and>
   (qr_Provenance r = None \<longrightarrow> member_step decode_QuestionRevision_member r ''provenance'' (map_option json_Provenance x9) = Some (r\<lparr>qr_Provenance := x9\<rparr>))"
  by ((intro conjI impI)?; simp only: field_names decode_QuestionRevision_member_def split: option.split; auto)

lemma decode_json_QuestionRevision [simp]: "tagged_QuestionRevision v \<Longrightarrow> decode_QuestionRevision zero_QuestionRevision (json_QuestionRevision v) = Some v"
  by (rule question_revision.cases [of v]) (simp add: decode_QuestionRevision_def json_QuestionRevision_def zero_QuestionRevision_def QuestionRevision_members decode_struct_object foldO_members tagged_QuestionRevision_def)

lemma json_QuestionRevision_not_null [simp]: "json_QuestionRevision v \<noteq> GoNull"
  by (simp add: json_QuestionRevision_def json_object_def)

definition zero_ProbabilityRepresentation :: probability_representation where
  "zero_ProbabilityRepresentation =
     \<lparr>rp_Kind = '''',
      rp_Outcome = False,
      rp_Probability = ''''\<rparr>"

definition decode_ProbabilityRepresentation_member :: "probability_representation \<Rightarrow> string \<times> go_value \<Rightarrow> probability_representation option" where
  "decode_ProbabilityRepresentation_member v m =
     (if named m ''kind'' then map_option (\<lambda>x. v\<lparr>rp_Kind := x\<rparr>) (decode_string (rp_Kind v) (snd m))
      else if named m ''outcome'' then map_option (\<lambda>x. v\<lparr>rp_Outcome := x\<rparr>) (decode_bool (rp_Outcome v) (snd m))
      else if named m ''probability'' then map_option (\<lambda>x. v\<lparr>rp_Probability := x\<rparr>) (decode_string (rp_Probability v) (snd m))
      else None)"

definition decode_ProbabilityRepresentation :: "probability_representation \<Rightarrow> go_value \<Rightarrow> probability_representation option" where
  "decode_ProbabilityRepresentation = decode_struct decode_ProbabilityRepresentation_member"

lemma ProbabilityRepresentation_members:
  "(member_step decode_ProbabilityRepresentation_member r ''kind'' (Some (GoString x0)) = Some (r\<lparr>rp_Kind := x0\<rparr>)) \<and>
   (member_step decode_ProbabilityRepresentation_member r ''outcome'' (Some (GoBool x1)) = Some (r\<lparr>rp_Outcome := x1\<rparr>)) \<and>
   (member_step decode_ProbabilityRepresentation_member r ''probability'' (Some (GoString x2)) = Some (r\<lparr>rp_Probability := x2\<rparr>))"
  by ((intro conjI impI)?; simp only: field_names decode_ProbabilityRepresentation_member_def split: option.split; auto)

lemma decode_json_ProbabilityRepresentation [simp]: "decode_ProbabilityRepresentation zero_ProbabilityRepresentation (json_ProbabilityRepresentation v) = Some v"
  by (rule probability_representation.cases [of v]) (simp add: decode_ProbabilityRepresentation_def json_ProbabilityRepresentation_def zero_ProbabilityRepresentation_def ProbabilityRepresentation_members decode_struct_object foldO_members)

lemma discriminator_ProbabilityRepresentation [simp]: "discriminator ''kind'' (json_ProbabilityRepresentation v) = Some (rp_Kind v)"
  by (simp add: json_ProbabilityRepresentation_def discriminator_member)

lemma json_ProbabilityRepresentation_not_null [simp]: "json_ProbabilityRepresentation v \<noteq> GoNull"
  by (simp add: json_ProbabilityRepresentation_def json_object_def)

definition zero_PMFEntry :: pmf_entry where
  "zero_PMFEntry =
     \<lparr>pe_OptionID = '''',
      pe_Probability = ''''\<rparr>"

definition decode_PMFEntry_member :: "pmf_entry \<Rightarrow> string \<times> go_value \<Rightarrow> pmf_entry option" where
  "decode_PMFEntry_member v m =
     (if named m ''option_id'' then map_option (\<lambda>x. v\<lparr>pe_OptionID := x\<rparr>) (decode_string (pe_OptionID v) (snd m))
      else if named m ''probability'' then map_option (\<lambda>x. v\<lparr>pe_Probability := x\<rparr>) (decode_string (pe_Probability v) (snd m))
      else None)"

definition decode_PMFEntry :: "pmf_entry \<Rightarrow> go_value \<Rightarrow> pmf_entry option" where
  "decode_PMFEntry = decode_struct decode_PMFEntry_member"

lemma PMFEntry_members:
  "(member_step decode_PMFEntry_member r ''option_id'' (Some (GoString x0)) = Some (r\<lparr>pe_OptionID := x0\<rparr>)) \<and>
   (member_step decode_PMFEntry_member r ''probability'' (Some (GoString x1)) = Some (r\<lparr>pe_Probability := x1\<rparr>))"
  by ((intro conjI impI)?; simp only: field_names decode_PMFEntry_member_def split: option.split; auto)

lemma decode_json_PMFEntry [simp]: "decode_PMFEntry zero_PMFEntry (json_PMFEntry v) = Some v"
  by (rule pmf_entry.cases [of v]) (simp add: decode_PMFEntry_def json_PMFEntry_def zero_PMFEntry_def PMFEntry_members decode_struct_object foldO_members)

lemma json_PMFEntry_not_null [simp]: "json_PMFEntry v \<noteq> GoNull"
  by (simp add: json_PMFEntry_def json_object_def)

definition zero_PMFRepresentation :: pmf_representation where
  "zero_PMFRepresentation =
     \<lparr>pm_Kind = '''',
      pm_OptionSetRef = zero_SetRef,
      pm_Entries = []\<rparr>"

definition decode_PMFRepresentation_member :: "pmf_representation \<Rightarrow> string \<times> go_value \<Rightarrow> pmf_representation option" where
  "decode_PMFRepresentation_member v m =
     (if named m ''kind'' then map_option (\<lambda>x. v\<lparr>pm_Kind := x\<rparr>) (decode_string (pm_Kind v) (snd m))
      else if named m ''option_set_ref'' then map_option (\<lambda>x. v\<lparr>pm_OptionSetRef := x\<rparr>) (decode_SetRef (pm_OptionSetRef v) (snd m))
      else if named m ''entries'' then map_option (\<lambda>x. v\<lparr>pm_Entries := x\<rparr>) ((decode_slice decode_PMFEntry zero_PMFEntry) (pm_Entries v) (snd m))
      else None)"

definition decode_PMFRepresentation :: "pmf_representation \<Rightarrow> go_value \<Rightarrow> pmf_representation option" where
  "decode_PMFRepresentation = decode_struct decode_PMFRepresentation_member"

lemma PMFRepresentation_members:
  "(member_step decode_PMFRepresentation_member r ''kind'' (Some (GoString x0)) = Some (r\<lparr>pm_Kind := x0\<rparr>)) \<and>
   (pm_OptionSetRef r = zero_SetRef \<longrightarrow> member_step decode_PMFRepresentation_member r ''option_set_ref'' (Some (json_SetRef x1)) = Some (r\<lparr>pm_OptionSetRef := x1\<rparr>)) \<and>
   (member_step decode_PMFRepresentation_member r ''entries'' (Some (GoArray (map json_PMFEntry x2))) = Some (r\<lparr>pm_Entries := x2\<rparr>))"
  by ((intro conjI impI)?; simp only: field_names decode_PMFRepresentation_member_def split: option.split; auto)

lemma decode_json_PMFRepresentation [simp]: "decode_PMFRepresentation zero_PMFRepresentation (json_PMFRepresentation v) = Some v"
  by (rule pmf_representation.cases [of v]) (simp add: decode_PMFRepresentation_def json_PMFRepresentation_def zero_PMFRepresentation_def PMFRepresentation_members decode_struct_object foldO_members)

lemma discriminator_PMFRepresentation [simp]: "discriminator ''kind'' (json_PMFRepresentation v) = Some (pm_Kind v)"
  by (simp add: json_PMFRepresentation_def discriminator_member)

lemma json_PMFRepresentation_not_null [simp]: "json_PMFRepresentation v \<noteq> GoNull"
  by (simp add: json_PMFRepresentation_def json_object_def)

definition zero_BinnedPMFEntry :: binned_pmf_entry where
  "zero_BinnedPMFEntry =
     \<lparr>be_BinID = '''',
      be_Probability = ''''\<rparr>"

definition decode_BinnedPMFEntry_member :: "binned_pmf_entry \<Rightarrow> string \<times> go_value \<Rightarrow> binned_pmf_entry option" where
  "decode_BinnedPMFEntry_member v m =
     (if named m ''bin_id'' then map_option (\<lambda>x. v\<lparr>be_BinID := x\<rparr>) (decode_string (be_BinID v) (snd m))
      else if named m ''probability'' then map_option (\<lambda>x. v\<lparr>be_Probability := x\<rparr>) (decode_string (be_Probability v) (snd m))
      else None)"

definition decode_BinnedPMFEntry :: "binned_pmf_entry \<Rightarrow> go_value \<Rightarrow> binned_pmf_entry option" where
  "decode_BinnedPMFEntry = decode_struct decode_BinnedPMFEntry_member"

lemma BinnedPMFEntry_members:
  "(member_step decode_BinnedPMFEntry_member r ''bin_id'' (Some (GoString x0)) = Some (r\<lparr>be_BinID := x0\<rparr>)) \<and>
   (member_step decode_BinnedPMFEntry_member r ''probability'' (Some (GoString x1)) = Some (r\<lparr>be_Probability := x1\<rparr>))"
  by ((intro conjI impI)?; simp only: field_names decode_BinnedPMFEntry_member_def split: option.split; auto)

lemma decode_json_BinnedPMFEntry [simp]: "decode_BinnedPMFEntry zero_BinnedPMFEntry (json_BinnedPMFEntry v) = Some v"
  by (rule binned_pmf_entry.cases [of v]) (simp add: decode_BinnedPMFEntry_def json_BinnedPMFEntry_def zero_BinnedPMFEntry_def BinnedPMFEntry_members decode_struct_object foldO_members)

lemma json_BinnedPMFEntry_not_null [simp]: "json_BinnedPMFEntry v \<noteq> GoNull"
  by (simp add: json_BinnedPMFEntry_def json_object_def)

definition zero_BinnedPMFRepresentation :: binned_pmf_representation where
  "zero_BinnedPMFRepresentation =
     \<lparr>bp_Kind = '''',
      bp_BinSetRef = zero_SetRef,
      bp_Entries = [],
      bp_LeftTailProbability = '''',
      bp_RightTailProbability = ''''\<rparr>"

definition decode_BinnedPMFRepresentation_member :: "binned_pmf_representation \<Rightarrow> string \<times> go_value \<Rightarrow> binned_pmf_representation option" where
  "decode_BinnedPMFRepresentation_member v m =
     (if named m ''kind'' then map_option (\<lambda>x. v\<lparr>bp_Kind := x\<rparr>) (decode_string (bp_Kind v) (snd m))
      else if named m ''bin_set_ref'' then map_option (\<lambda>x. v\<lparr>bp_BinSetRef := x\<rparr>) (decode_SetRef (bp_BinSetRef v) (snd m))
      else if named m ''entries'' then map_option (\<lambda>x. v\<lparr>bp_Entries := x\<rparr>) ((decode_slice decode_BinnedPMFEntry zero_BinnedPMFEntry) (bp_Entries v) (snd m))
      else if named m ''left_tail_probability'' then map_option (\<lambda>x. v\<lparr>bp_LeftTailProbability := x\<rparr>) (decode_string (bp_LeftTailProbability v) (snd m))
      else if named m ''right_tail_probability'' then map_option (\<lambda>x. v\<lparr>bp_RightTailProbability := x\<rparr>) (decode_string (bp_RightTailProbability v) (snd m))
      else None)"

definition decode_BinnedPMFRepresentation :: "binned_pmf_representation \<Rightarrow> go_value \<Rightarrow> binned_pmf_representation option" where
  "decode_BinnedPMFRepresentation = decode_struct decode_BinnedPMFRepresentation_member"

lemma BinnedPMFRepresentation_members:
  "(member_step decode_BinnedPMFRepresentation_member r ''kind'' (Some (GoString x0)) = Some (r\<lparr>bp_Kind := x0\<rparr>)) \<and>
   (bp_BinSetRef r = zero_SetRef \<longrightarrow> member_step decode_BinnedPMFRepresentation_member r ''bin_set_ref'' (Some (json_SetRef x1)) = Some (r\<lparr>bp_BinSetRef := x1\<rparr>)) \<and>
   (member_step decode_BinnedPMFRepresentation_member r ''entries'' (Some (GoArray (map json_BinnedPMFEntry x2))) = Some (r\<lparr>bp_Entries := x2\<rparr>)) \<and>
   (member_step decode_BinnedPMFRepresentation_member r ''left_tail_probability'' (Some (GoString x3)) = Some (r\<lparr>bp_LeftTailProbability := x3\<rparr>)) \<and>
   (member_step decode_BinnedPMFRepresentation_member r ''right_tail_probability'' (Some (GoString x4)) = Some (r\<lparr>bp_RightTailProbability := x4\<rparr>))"
  by ((intro conjI impI)?; simp only: field_names decode_BinnedPMFRepresentation_member_def split: option.split; auto)

lemma decode_json_BinnedPMFRepresentation [simp]: "decode_BinnedPMFRepresentation zero_BinnedPMFRepresentation (json_BinnedPMFRepresentation v) = Some v"
  by (rule binned_pmf_representation.cases [of v]) (simp add: decode_BinnedPMFRepresentation_def json_BinnedPMFRepresentation_def zero_BinnedPMFRepresentation_def BinnedPMFRepresentation_members decode_struct_object foldO_members)

lemma discriminator_BinnedPMFRepresentation [simp]: "discriminator ''kind'' (json_BinnedPMFRepresentation v) = Some (bp_Kind v)"
  by (simp add: json_BinnedPMFRepresentation_def discriminator_member)

lemma json_BinnedPMFRepresentation_not_null [simp]: "json_BinnedPMFRepresentation v \<noteq> GoNull"
  by (simp add: json_BinnedPMFRepresentation_def json_object_def)

definition zero_QuantilePoint :: quantile_point where
  "zero_QuantilePoint =
     \<lparr>qp_Level = '''',
      qp_Value = zero_ScalarValue\<rparr>"

definition decode_QuantilePoint_member :: "quantile_point \<Rightarrow> string \<times> go_value \<Rightarrow> quantile_point option" where
  "decode_QuantilePoint_member v m =
     (if named m ''level'' then map_option (\<lambda>x. v\<lparr>qp_Level := x\<rparr>) (decode_string (qp_Level v) (snd m))
      else if named m ''value'' then map_option (\<lambda>x. v\<lparr>qp_Value := x\<rparr>) (decode_ScalarValue (qp_Value v) (snd m))
      else None)"

definition decode_QuantilePoint :: "quantile_point \<Rightarrow> go_value \<Rightarrow> quantile_point option" where
  "decode_QuantilePoint = decode_struct decode_QuantilePoint_member"

lemma QuantilePoint_members:
  "(member_step decode_QuantilePoint_member r ''level'' (Some (GoString x0)) = Some (r\<lparr>qp_Level := x0\<rparr>)) \<and>
   (qp_Value r = zero_ScalarValue \<longrightarrow> tagged_ScalarValue x1 \<longrightarrow> member_step decode_QuantilePoint_member r ''value'' (Some (json_ScalarValue x1)) = Some (r\<lparr>qp_Value := x1\<rparr>))"
  by ((intro conjI impI)?; simp only: field_names decode_QuantilePoint_member_def split: option.split; auto)

lemma decode_json_QuantilePoint [simp]: "tagged_QuantilePoint v \<Longrightarrow> decode_QuantilePoint zero_QuantilePoint (json_QuantilePoint v) = Some v"
  by (rule quantile_point.cases [of v]) (simp add: decode_QuantilePoint_def json_QuantilePoint_def zero_QuantilePoint_def QuantilePoint_members decode_struct_object foldO_members tagged_QuantilePoint_def)

lemma json_QuantilePoint_not_null [simp]: "json_QuantilePoint v \<noteq> GoNull"
  by (simp add: json_QuantilePoint_def json_object_def)

definition zero_QuantilesRepresentation :: quantiles_representation where
  "zero_QuantilesRepresentation =
     \<lparr>qn_Kind = '''',
      qn_Interpolation = '''',
      qn_Points = []\<rparr>"

definition decode_QuantilesRepresentation_member :: "quantiles_representation \<Rightarrow> string \<times> go_value \<Rightarrow> quantiles_representation option" where
  "decode_QuantilesRepresentation_member v m =
     (if named m ''kind'' then map_option (\<lambda>x. v\<lparr>qn_Kind := x\<rparr>) (decode_string (qn_Kind v) (snd m))
      else if named m ''interpolation'' then map_option (\<lambda>x. v\<lparr>qn_Interpolation := x\<rparr>) (decode_string (qn_Interpolation v) (snd m))
      else if named m ''points'' then map_option (\<lambda>x. v\<lparr>qn_Points := x\<rparr>) ((decode_slice decode_QuantilePoint zero_QuantilePoint) (qn_Points v) (snd m))
      else None)"

definition decode_QuantilesRepresentation :: "quantiles_representation \<Rightarrow> go_value \<Rightarrow> quantiles_representation option" where
  "decode_QuantilesRepresentation = decode_struct decode_QuantilesRepresentation_member"

lemma QuantilesRepresentation_members:
  "(member_step decode_QuantilesRepresentation_member r ''kind'' (Some (GoString x0)) = Some (r\<lparr>qn_Kind := x0\<rparr>)) \<and>
   (member_step decode_QuantilesRepresentation_member r ''interpolation'' (Some (GoString x1)) = Some (r\<lparr>qn_Interpolation := x1\<rparr>)) \<and>
   ((\<forall>y\<in>set x2. tagged_QuantilePoint y) \<longrightarrow> member_step decode_QuantilesRepresentation_member r ''points'' (Some (GoArray (map json_QuantilePoint x2))) = Some (r\<lparr>qn_Points := x2\<rparr>))"
  by ((intro conjI impI)?; simp only: field_names decode_QuantilesRepresentation_member_def split: option.split; auto)

lemma decode_json_QuantilesRepresentation [simp]: "tagged_QuantilesRepresentation v \<Longrightarrow> decode_QuantilesRepresentation zero_QuantilesRepresentation (json_QuantilesRepresentation v) = Some v"
  by (rule quantiles_representation.cases [of v]) (simp add: decode_QuantilesRepresentation_def json_QuantilesRepresentation_def zero_QuantilesRepresentation_def QuantilesRepresentation_members decode_struct_object foldO_members tagged_QuantilesRepresentation_def)

lemma discriminator_QuantilesRepresentation [simp]: "discriminator ''kind'' (json_QuantilesRepresentation v) = Some (qn_Kind v)"
  by (simp add: json_QuantilesRepresentation_def discriminator_member)

lemma json_QuantilesRepresentation_not_null [simp]: "json_QuantilesRepresentation v \<noteq> GoNull"
  by (simp add: json_QuantilesRepresentation_def json_object_def)

definition zero_CDFPoint :: cdf_point where
  "zero_CDFPoint =
     \<lparr>cp_Value = zero_ScalarValue,
      cp_Probability = ''''\<rparr>"

definition decode_CDFPoint_member :: "cdf_point \<Rightarrow> string \<times> go_value \<Rightarrow> cdf_point option" where
  "decode_CDFPoint_member v m =
     (if named m ''value'' then map_option (\<lambda>x. v\<lparr>cp_Value := x\<rparr>) (decode_ScalarValue (cp_Value v) (snd m))
      else if named m ''probability'' then map_option (\<lambda>x. v\<lparr>cp_Probability := x\<rparr>) (decode_string (cp_Probability v) (snd m))
      else None)"

definition decode_CDFPoint :: "cdf_point \<Rightarrow> go_value \<Rightarrow> cdf_point option" where
  "decode_CDFPoint = decode_struct decode_CDFPoint_member"

lemma CDFPoint_members:
  "(cp_Value r = zero_ScalarValue \<longrightarrow> tagged_ScalarValue x0 \<longrightarrow> member_step decode_CDFPoint_member r ''value'' (Some (json_ScalarValue x0)) = Some (r\<lparr>cp_Value := x0\<rparr>)) \<and>
   (member_step decode_CDFPoint_member r ''probability'' (Some (GoString x1)) = Some (r\<lparr>cp_Probability := x1\<rparr>))"
  by ((intro conjI impI)?; simp only: field_names decode_CDFPoint_member_def split: option.split; auto)

lemma decode_json_CDFPoint [simp]: "tagged_CDFPoint v \<Longrightarrow> decode_CDFPoint zero_CDFPoint (json_CDFPoint v) = Some v"
  by (rule cdf_point.cases [of v]) (simp add: decode_CDFPoint_def json_CDFPoint_def zero_CDFPoint_def CDFPoint_members decode_struct_object foldO_members tagged_CDFPoint_def)

lemma json_CDFPoint_not_null [simp]: "json_CDFPoint v \<noteq> GoNull"
  by (simp add: json_CDFPoint_def json_object_def)

definition zero_CDFRepresentation :: cdf_representation where
  "zero_CDFRepresentation =
     \<lparr>cd_Kind = '''',
      cd_Interpolation = '''',
      cd_Points = [],
      cd_LeftTailProbability = '''',
      cd_RightTailProbability = ''''\<rparr>"

definition decode_CDFRepresentation_member :: "cdf_representation \<Rightarrow> string \<times> go_value \<Rightarrow> cdf_representation option" where
  "decode_CDFRepresentation_member v m =
     (if named m ''kind'' then map_option (\<lambda>x. v\<lparr>cd_Kind := x\<rparr>) (decode_string (cd_Kind v) (snd m))
      else if named m ''interpolation'' then map_option (\<lambda>x. v\<lparr>cd_Interpolation := x\<rparr>) (decode_string (cd_Interpolation v) (snd m))
      else if named m ''points'' then map_option (\<lambda>x. v\<lparr>cd_Points := x\<rparr>) ((decode_slice decode_CDFPoint zero_CDFPoint) (cd_Points v) (snd m))
      else if named m ''left_tail_probability'' then map_option (\<lambda>x. v\<lparr>cd_LeftTailProbability := x\<rparr>) (decode_string (cd_LeftTailProbability v) (snd m))
      else if named m ''right_tail_probability'' then map_option (\<lambda>x. v\<lparr>cd_RightTailProbability := x\<rparr>) (decode_string (cd_RightTailProbability v) (snd m))
      else None)"

definition decode_CDFRepresentation :: "cdf_representation \<Rightarrow> go_value \<Rightarrow> cdf_representation option" where
  "decode_CDFRepresentation = decode_struct decode_CDFRepresentation_member"

lemma CDFRepresentation_members:
  "(member_step decode_CDFRepresentation_member r ''kind'' (Some (GoString x0)) = Some (r\<lparr>cd_Kind := x0\<rparr>)) \<and>
   (member_step decode_CDFRepresentation_member r ''interpolation'' (Some (GoString x1)) = Some (r\<lparr>cd_Interpolation := x1\<rparr>)) \<and>
   ((\<forall>y\<in>set x2. tagged_CDFPoint y) \<longrightarrow> member_step decode_CDFRepresentation_member r ''points'' (Some (GoArray (map json_CDFPoint x2))) = Some (r\<lparr>cd_Points := x2\<rparr>)) \<and>
   (member_step decode_CDFRepresentation_member r ''left_tail_probability'' (Some (GoString x3)) = Some (r\<lparr>cd_LeftTailProbability := x3\<rparr>)) \<and>
   (member_step decode_CDFRepresentation_member r ''right_tail_probability'' (Some (GoString x4)) = Some (r\<lparr>cd_RightTailProbability := x4\<rparr>))"
  by ((intro conjI impI)?; simp only: field_names decode_CDFRepresentation_member_def split: option.split; auto)

lemma decode_json_CDFRepresentation [simp]: "tagged_CDFRepresentation v \<Longrightarrow> decode_CDFRepresentation zero_CDFRepresentation (json_CDFRepresentation v) = Some v"
  by (rule cdf_representation.cases [of v]) (simp add: decode_CDFRepresentation_def json_CDFRepresentation_def zero_CDFRepresentation_def CDFRepresentation_members decode_struct_object foldO_members tagged_CDFRepresentation_def)

lemma discriminator_CDFRepresentation [simp]: "discriminator ''kind'' (json_CDFRepresentation v) = Some (cd_Kind v)"
  by (simp add: json_CDFRepresentation_def discriminator_member)

lemma json_CDFRepresentation_not_null [simp]: "json_CDFRepresentation v \<noteq> GoNull"
  by (simp add: json_CDFRepresentation_def json_object_def)

definition zero_PointRepresentation :: point_representation where
  "zero_PointRepresentation =
     \<lparr>pt_Kind = '''',
      pt_Statistic = '''',
      pt_Value = zero_ScalarValue\<rparr>"

definition decode_PointRepresentation_member :: "point_representation \<Rightarrow> string \<times> go_value \<Rightarrow> point_representation option" where
  "decode_PointRepresentation_member v m =
     (if named m ''kind'' then map_option (\<lambda>x. v\<lparr>pt_Kind := x\<rparr>) (decode_string (pt_Kind v) (snd m))
      else if named m ''statistic'' then map_option (\<lambda>x. v\<lparr>pt_Statistic := x\<rparr>) (decode_string (pt_Statistic v) (snd m))
      else if named m ''value'' then map_option (\<lambda>x. v\<lparr>pt_Value := x\<rparr>) (decode_ScalarValue (pt_Value v) (snd m))
      else None)"

definition decode_PointRepresentation :: "point_representation \<Rightarrow> go_value \<Rightarrow> point_representation option" where
  "decode_PointRepresentation = decode_struct decode_PointRepresentation_member"

lemma PointRepresentation_members:
  "(member_step decode_PointRepresentation_member r ''kind'' (Some (GoString x0)) = Some (r\<lparr>pt_Kind := x0\<rparr>)) \<and>
   (member_step decode_PointRepresentation_member r ''statistic'' (Some (GoString x1)) = Some (r\<lparr>pt_Statistic := x1\<rparr>)) \<and>
   (pt_Value r = zero_ScalarValue \<longrightarrow> tagged_ScalarValue x2 \<longrightarrow> member_step decode_PointRepresentation_member r ''value'' (Some (json_ScalarValue x2)) = Some (r\<lparr>pt_Value := x2\<rparr>))"
  by ((intro conjI impI)?; simp only: field_names decode_PointRepresentation_member_def split: option.split; auto)

lemma decode_json_PointRepresentation [simp]: "tagged_PointRepresentation v \<Longrightarrow> decode_PointRepresentation zero_PointRepresentation (json_PointRepresentation v) = Some v"
  by (rule point_representation.cases [of v]) (simp add: decode_PointRepresentation_def json_PointRepresentation_def zero_PointRepresentation_def PointRepresentation_members decode_struct_object foldO_members tagged_PointRepresentation_def)

lemma discriminator_PointRepresentation [simp]: "discriminator ''kind'' (json_PointRepresentation v) = Some (pt_Kind v)"
  by (simp add: json_PointRepresentation_def discriminator_member)

lemma json_PointRepresentation_not_null [simp]: "json_PointRepresentation v \<noteq> GoNull"
  by (simp add: json_PointRepresentation_def json_object_def)

definition zero_CredibleInterval :: credible_interval where
  "zero_CredibleInterval =
     \<lparr>ci_Coverage = '''',
      ci_IntervalKind = '''',
      ci_Lower = zero_ScalarValue,
      ci_Upper = zero_ScalarValue\<rparr>"

definition decode_CredibleInterval_member :: "credible_interval \<Rightarrow> string \<times> go_value \<Rightarrow> credible_interval option" where
  "decode_CredibleInterval_member v m =
     (if named m ''coverage'' then map_option (\<lambda>x. v\<lparr>ci_Coverage := x\<rparr>) (decode_string (ci_Coverage v) (snd m))
      else if named m ''interval_kind'' then map_option (\<lambda>x. v\<lparr>ci_IntervalKind := x\<rparr>) (decode_string (ci_IntervalKind v) (snd m))
      else if named m ''lower'' then map_option (\<lambda>x. v\<lparr>ci_Lower := x\<rparr>) (decode_ScalarValue (ci_Lower v) (snd m))
      else if named m ''upper'' then map_option (\<lambda>x. v\<lparr>ci_Upper := x\<rparr>) (decode_ScalarValue (ci_Upper v) (snd m))
      else None)"

definition decode_CredibleInterval :: "credible_interval \<Rightarrow> go_value \<Rightarrow> credible_interval option" where
  "decode_CredibleInterval = decode_struct decode_CredibleInterval_member"

lemma CredibleInterval_members:
  "(member_step decode_CredibleInterval_member r ''coverage'' (Some (GoString x0)) = Some (r\<lparr>ci_Coverage := x0\<rparr>)) \<and>
   (member_step decode_CredibleInterval_member r ''interval_kind'' (Some (GoString x1)) = Some (r\<lparr>ci_IntervalKind := x1\<rparr>)) \<and>
   (ci_Lower r = zero_ScalarValue \<longrightarrow> tagged_ScalarValue x2 \<longrightarrow> member_step decode_CredibleInterval_member r ''lower'' (Some (json_ScalarValue x2)) = Some (r\<lparr>ci_Lower := x2\<rparr>)) \<and>
   (ci_Upper r = zero_ScalarValue \<longrightarrow> tagged_ScalarValue x3 \<longrightarrow> member_step decode_CredibleInterval_member r ''upper'' (Some (json_ScalarValue x3)) = Some (r\<lparr>ci_Upper := x3\<rparr>))"
  by ((intro conjI impI)?; simp only: field_names decode_CredibleInterval_member_def split: option.split; auto)

lemma decode_json_CredibleInterval [simp]: "tagged_CredibleInterval v \<Longrightarrow> decode_CredibleInterval zero_CredibleInterval (json_CredibleInterval v) = Some v"
  by (rule credible_interval.cases [of v]) (simp add: decode_CredibleInterval_def json_CredibleInterval_def zero_CredibleInterval_def CredibleInterval_members decode_struct_object foldO_members tagged_CredibleInterval_def)

lemma json_CredibleInterval_not_null [simp]: "json_CredibleInterval v \<noteq> GoNull"
  by (simp add: json_CredibleInterval_def json_object_def)

definition zero_CredibleIntervalsRepresentation :: credible_intervals_representation where
  "zero_CredibleIntervalsRepresentation =
     \<lparr>cr_Kind = '''',
      cr_Intervals = []\<rparr>"

definition decode_CredibleIntervalsRepresentation_member :: "credible_intervals_representation \<Rightarrow> string \<times> go_value \<Rightarrow> credible_intervals_representation option" where
  "decode_CredibleIntervalsRepresentation_member v m =
     (if named m ''kind'' then map_option (\<lambda>x. v\<lparr>cr_Kind := x\<rparr>) (decode_string (cr_Kind v) (snd m))
      else if named m ''intervals'' then map_option (\<lambda>x. v\<lparr>cr_Intervals := x\<rparr>) ((decode_slice decode_CredibleInterval zero_CredibleInterval) (cr_Intervals v) (snd m))
      else None)"

definition decode_CredibleIntervalsRepresentation :: "credible_intervals_representation \<Rightarrow> go_value \<Rightarrow> credible_intervals_representation option" where
  "decode_CredibleIntervalsRepresentation = decode_struct decode_CredibleIntervalsRepresentation_member"

lemma CredibleIntervalsRepresentation_members:
  "(member_step decode_CredibleIntervalsRepresentation_member r ''kind'' (Some (GoString x0)) = Some (r\<lparr>cr_Kind := x0\<rparr>)) \<and>
   ((\<forall>y\<in>set x1. tagged_CredibleInterval y) \<longrightarrow> member_step decode_CredibleIntervalsRepresentation_member r ''intervals'' (Some (GoArray (map json_CredibleInterval x1))) = Some (r\<lparr>cr_Intervals := x1\<rparr>))"
  by ((intro conjI impI)?; simp only: field_names decode_CredibleIntervalsRepresentation_member_def split: option.split; auto)

lemma decode_json_CredibleIntervalsRepresentation [simp]: "tagged_CredibleIntervalsRepresentation v \<Longrightarrow> decode_CredibleIntervalsRepresentation zero_CredibleIntervalsRepresentation (json_CredibleIntervalsRepresentation v) = Some v"
  by (rule credible_intervals_representation.cases [of v]) (simp add: decode_CredibleIntervalsRepresentation_def json_CredibleIntervalsRepresentation_def zero_CredibleIntervalsRepresentation_def CredibleIntervalsRepresentation_members decode_struct_object foldO_members tagged_CredibleIntervalsRepresentation_def)

lemma discriminator_CredibleIntervalsRepresentation [simp]: "discriminator ''kind'' (json_CredibleIntervalsRepresentation v) = Some (cr_Kind v)"
  by (simp add: json_CredibleIntervalsRepresentation_def discriminator_member)

lemma json_CredibleIntervalsRepresentation_not_null [simp]: "json_CredibleIntervalsRepresentation v \<noteq> GoNull"
  by (simp add: json_CredibleIntervalsRepresentation_def json_object_def)

definition zero_ForecastRepresentation :: forecast_representation where
  "zero_ForecastRepresentation = \<lparr>fr_Probability = None, fr_PMF = None, fr_BinnedPMF = None, fr_Quantiles = None, fr_CDF = None, fr_Point = None, fr_CredibleIntervals = None\<rparr>"

definition decode_ForecastRepresentation :: "forecast_representation \<Rightarrow> go_value \<Rightarrow> forecast_representation option" where
  "decode_ForecastRepresentation _ v =
     (case discriminator ''kind'' v of
        None \<Rightarrow> None
      | Some kind \<Rightarrow>
          if kind = RepresentationProbability then map_option (\<lambda>x. zero_ForecastRepresentation\<lparr>fr_Probability := Some x\<rparr>) (decode_ProbabilityRepresentation zero_ProbabilityRepresentation v)
          else if kind = RepresentationPMF then map_option (\<lambda>x. zero_ForecastRepresentation\<lparr>fr_PMF := Some x\<rparr>) (decode_PMFRepresentation zero_PMFRepresentation v)
          else if kind = RepresentationBinnedPMF then map_option (\<lambda>x. zero_ForecastRepresentation\<lparr>fr_BinnedPMF := Some x\<rparr>) (decode_BinnedPMFRepresentation zero_BinnedPMFRepresentation v)
          else if kind = RepresentationQuantiles then map_option (\<lambda>x. zero_ForecastRepresentation\<lparr>fr_Quantiles := Some x\<rparr>) (decode_QuantilesRepresentation zero_QuantilesRepresentation v)
          else if kind = RepresentationCDF then map_option (\<lambda>x. zero_ForecastRepresentation\<lparr>fr_CDF := Some x\<rparr>) (decode_CDFRepresentation zero_CDFRepresentation v)
          else if kind = RepresentationPoint then map_option (\<lambda>x. zero_ForecastRepresentation\<lparr>fr_Point := Some x\<rparr>) (decode_PointRepresentation zero_PointRepresentation v)
          else if kind = RepresentationCredibleIntervals then map_option (\<lambda>x. zero_ForecastRepresentation\<lparr>fr_CredibleIntervals := Some x\<rparr>) (decode_CredibleIntervalsRepresentation zero_CredibleIntervalsRepresentation v)
          else None)"

lemma decode_json_ForecastRepresentation [simp]: "tagged_ForecastRepresentation v \<Longrightarrow> decode_ForecastRepresentation zero_ForecastRepresentation (json_ForecastRepresentation v) = Some v"
  by (drule tagged_ForecastRepresentation_cases) (elim disjE exE conjE; auto simp: json_ForecastRepresentation_def decode_ForecastRepresentation_def zero_ForecastRepresentation_def marshalOne_def map_filter_simps intro: forecast_representation.equality)

lemma json_ForecastRepresentation_not_null [simp]: "tagged_ForecastRepresentation v \<Longrightarrow> json_ForecastRepresentation v \<noteq> GoNull"
  by (drule tagged_ForecastRepresentation_cases) (elim disjE exE conjE; simp add: json_ForecastRepresentation_def marshalOne_def map_filter_simps)

definition zero_LifecycleEvent :: lifecycle_event where
  "zero_LifecycleEvent =
     \<lparr>le_ID = '''',
      le_Type = '''',
      le_EffectiveAt = '''',
      le_RecordedAt = '''',
      le_Reason = None,
      le_Provenance = None\<rparr>"

definition decode_LifecycleEvent_member :: "lifecycle_event \<Rightarrow> string \<times> go_value \<Rightarrow> lifecycle_event option" where
  "decode_LifecycleEvent_member v m =
     (if named m ''id'' then map_option (\<lambda>x. v\<lparr>le_ID := x\<rparr>) (decode_string (le_ID v) (snd m))
      else if named m ''type'' then map_option (\<lambda>x. v\<lparr>le_Type := x\<rparr>) (decode_string (le_Type v) (snd m))
      else if named m ''effective_at'' then map_option (\<lambda>x. v\<lparr>le_EffectiveAt := x\<rparr>) (decode_string (le_EffectiveAt v) (snd m))
      else if named m ''recorded_at'' then map_option (\<lambda>x. v\<lparr>le_RecordedAt := x\<rparr>) (decode_string (le_RecordedAt v) (snd m))
      else if named m ''reason'' then map_option (\<lambda>x. v\<lparr>le_Reason := x\<rparr>) ((decode_pointer decode_string '''') (le_Reason v) (snd m))
      else if named m ''provenance'' then map_option (\<lambda>x. v\<lparr>le_Provenance := x\<rparr>) ((decode_pointer decode_Provenance zero_Provenance) (le_Provenance v) (snd m))
      else None)"

definition decode_LifecycleEvent :: "lifecycle_event \<Rightarrow> go_value \<Rightarrow> lifecycle_event option" where
  "decode_LifecycleEvent = decode_struct decode_LifecycleEvent_member"

lemma LifecycleEvent_members:
  "(member_step decode_LifecycleEvent_member r ''id'' (Some (GoString x0)) = Some (r\<lparr>le_ID := x0\<rparr>)) \<and>
   (member_step decode_LifecycleEvent_member r ''type'' (Some (GoString x1)) = Some (r\<lparr>le_Type := x1\<rparr>)) \<and>
   (member_step decode_LifecycleEvent_member r ''effective_at'' (Some (GoString x2)) = Some (r\<lparr>le_EffectiveAt := x2\<rparr>)) \<and>
   (member_step decode_LifecycleEvent_member r ''recorded_at'' (Some (GoString x3)) = Some (r\<lparr>le_RecordedAt := x3\<rparr>)) \<and>
   (le_Reason r = None \<longrightarrow> member_step decode_LifecycleEvent_member r ''reason'' (map_option GoString x4) = Some (r\<lparr>le_Reason := x4\<rparr>)) \<and>
   (le_Provenance r = None \<longrightarrow> member_step decode_LifecycleEvent_member r ''provenance'' (map_option json_Provenance x5) = Some (r\<lparr>le_Provenance := x5\<rparr>))"
  by ((intro conjI impI)?; simp only: field_names decode_LifecycleEvent_member_def split: option.split; auto)

lemma decode_json_LifecycleEvent [simp]: "decode_LifecycleEvent zero_LifecycleEvent (json_LifecycleEvent v) = Some v"
  by (rule lifecycle_event.cases [of v]) (simp add: decode_LifecycleEvent_def json_LifecycleEvent_def zero_LifecycleEvent_def LifecycleEvent_members decode_struct_object foldO_members)

lemma json_LifecycleEvent_not_null [simp]: "json_LifecycleEvent v \<noteq> GoNull"
  by (simp add: json_LifecycleEvent_def json_object_def)

definition zero_Encryption :: encryption where
  "zero_Encryption =
     \<lparr>en_Algorithm = '''',
      en_Nonce = '''',
      en_Ciphertext = ''''\<rparr>"

definition decode_Encryption_member :: "encryption \<Rightarrow> string \<times> go_value \<Rightarrow> encryption option" where
  "decode_Encryption_member v m =
     (if named m ''algorithm'' then map_option (\<lambda>x. v\<lparr>en_Algorithm := x\<rparr>) (decode_string (en_Algorithm v) (snd m))
      else if named m ''nonce'' then map_option (\<lambda>x. v\<lparr>en_Nonce := x\<rparr>) (decode_string (en_Nonce v) (snd m))
      else if named m ''ciphertext'' then map_option (\<lambda>x. v\<lparr>en_Ciphertext := x\<rparr>) (decode_string (en_Ciphertext v) (snd m))
      else None)"

definition decode_Encryption :: "encryption \<Rightarrow> go_value \<Rightarrow> encryption option" where
  "decode_Encryption = decode_struct decode_Encryption_member"

lemma Encryption_members:
  "(member_step decode_Encryption_member r ''algorithm'' (Some (GoString x0)) = Some (r\<lparr>en_Algorithm := x0\<rparr>)) \<and>
   (member_step decode_Encryption_member r ''nonce'' (Some (GoString x1)) = Some (r\<lparr>en_Nonce := x1\<rparr>)) \<and>
   (member_step decode_Encryption_member r ''ciphertext'' (Some (GoString x2)) = Some (r\<lparr>en_Ciphertext := x2\<rparr>))"
  by ((intro conjI impI)?; simp only: field_names decode_Encryption_member_def split: option.split; auto)

lemma decode_json_Encryption [simp]: "decode_Encryption zero_Encryption (json_Encryption v) = Some v"
  by (rule encryption.cases [of v]) (simp add: decode_Encryption_def json_Encryption_def zero_Encryption_def Encryption_members decode_struct_object foldO_members)

lemma json_Encryption_not_null [simp]: "json_Encryption v \<noteq> GoNull"
  by (simp add: json_Encryption_def json_object_def)

end
