(* ===== verification/Ledger_Encoding.thy ===== *)
theory Ledger_Encoding
  imports Struct_Encoding
begin

text \<open>
  The JSON of the remaining structs of \<open>internal/ledger\<close>, up to a whole ledger, and which values
  of them carry the discriminators their unions need.  The members of the platform map are written
  in the order of its association list, which stands for the key order Go uses.
\<close>

lemma tidy_map: "distinct (map fst ms) \<Longrightarrow> (\<And>x. tidy (f x)) \<Longrightarrow> tidy (GoObject (map (map_prod id f) ms))"
  by (auto simp: tidy_def comp_def)

definition json_Publication :: "publication \<Rightarrow> go_value" where
  "json_Publication v = json_object
     [(''history'', Some (GoString (pb_History v))),
      (''repository_url'', Some (GoString (pb_RepositoryURL v))),
      (''default_branch'', Some (GoString (pb_DefaultBranch v))),
      (''ledger_path'', Some (GoString (pb_LedgerPath v)))]"

lemma tidy_json_Publication [simp]: "tidy (json_Publication v)"
  by (simp add: json_Publication_def tidy_object)

definition json_Contact :: "contact \<Rightarrow> go_value" where
  "json_Contact v = json_object
     [(''email'', map_option GoString (co_Email v)),
      (''website'', map_option GoString (co_Website v))]"

lemma tidy_json_Contact [simp]: "tidy (json_Contact v)"
  by (simp add: json_Contact_def tidy_object)

definition json_Profile :: "profile \<Rightarrow> go_value" where
  "json_Profile v = json_object
     [(''service'', Some (GoString (pr_Service v))),
      (''username'', map_option GoString (pr_Username v)),
      (''url'', Some (GoString (pr_URL v)))]"

lemma tidy_json_Profile [simp]: "tidy (json_Profile v)"
  by (simp add: json_Profile_def tidy_object)

definition json_Member :: "member \<Rightarrow> go_value" where
  "json_Member v = json_object
     [(''id'', Some (GoString (mb_ID v))),
      (''name'', Some (GoString (mb_Name v))),
      (''role'', map_option GoString (mb_Role v)),
      (''profiles'', map_option (GoArray \<circ> map json_Profile) (mb_Profiles v))]"

lemma tidy_json_Member [simp]: "tidy (json_Member v)"
  by (simp add: json_Member_def tidy_object)

definition json_Forecaster :: "forecaster \<Rightarrow> go_value" where
  "json_Forecaster v = json_object
     [(''id'', Some (GoString (fc_ID v))),
      (''kind'', Some (GoString (fc_Kind v))),
      (''name'', Some (GoString (fc_Name v))),
      (''contact'', map_option json_Contact (fc_Contact v)),
      (''profiles'', map_option (GoArray \<circ> map json_Profile) (fc_Profiles v)),
      (''members'', map_option (GoArray \<circ> map json_Member) (fc_Members v))]"

lemma tidy_json_Forecaster [simp]: "tidy (json_Forecaster v)"
  by (simp add: json_Forecaster_def tidy_object)

definition json_PlatformAccount :: "platform_account \<Rightarrow> go_value" where
  "json_PlatformAccount v = json_object
     [(''username'', map_option GoString (pa_Username v)),
      (''user_id'', map_option GoString (pa_UserID v)),
      (''profile_url'', map_option GoString (pa_ProfileURL v))]"

lemma tidy_json_PlatformAccount [simp]: "tidy (json_PlatformAccount v)"
  by (simp add: json_PlatformAccount_def tidy_object)

definition json_Platform :: "platform \<Rightarrow> go_value" where
  "json_Platform v = json_object
     [(''name'', Some (GoString (pl_Name v))),
      (''kind'', Some (GoString (pl_Kind v))),
      (''url'', map_option GoString (pl_URL v)),
      (''account'', map_option json_PlatformAccount (pl_Account v))]"

lemma tidy_json_Platform [simp]: "tidy (json_Platform v)"
  by (simp add: json_Platform_def tidy_object)

definition json_ResolutionSource :: "resolution_source \<Rightarrow> go_value" where
  "json_ResolutionSource v = json_object
     [(''title'', Some (GoString (rs_Title v))),
      (''publisher'', map_option GoString (rs_Publisher v)),
      (''url'', Some (GoString (rs_URL v))),
      (''published_at'', map_option GoString (rs_PublishedAt v)),
      (''retrieved_at'', Some (GoString (rs_RetrievedAt v))),
      (''content_digest'', map_option json_Digest (rs_ContentDigest v))]"

lemma tidy_json_ResolutionSource [simp]: "tidy (json_ResolutionSource v)"
  by (simp add: json_ResolutionSource_def tidy_object)

definition json_ResolvedResolution :: "resolved_resolution \<Rightarrow> go_value" where
  "json_ResolvedResolution v = json_object
     [(''status'', Some (GoString (rr_Status v))),
      (''question_revision_id'', Some (GoString (rr_QuestionRevisionID v))),
      (''outcome'', Some (json_ScalarValue (rr_Outcome v))),
      (''outcome_known_at'', Some (GoString (rr_OutcomeKnownAt v))),
      (''recorded_at'', Some (GoString (rr_RecordedAt v))),
      (''sources'', Some (GoArray (map json_ResolutionSource (rr_Sources v)))),
      (''notes'', map_option GoString (rr_Notes v))]"

definition tagged_ResolvedResolution :: "resolved_resolution \<Rightarrow> bool" where
  "tagged_ResolvedResolution v \<longleftrightarrow> tagged_ScalarValue (rr_Outcome v)"

lemma tidy_json_ResolvedResolution [simp]: "tidy (json_ResolvedResolution v)"
  by (simp add: json_ResolvedResolution_def tidy_object)

definition json_UnresolvedResolution :: "unresolved_resolution \<Rightarrow> go_value" where
  "json_UnresolvedResolution v = json_object
     [(''status'', Some (GoString (ur_Status v))),
      (''reason'', Some (GoString (ur_Reason v))),
      (''recorded_at'', Some (GoString (ur_RecordedAt v))),
      (''sources'', map_option (GoArray \<circ> map json_ResolutionSource) (ur_Sources v))]"

lemma tidy_json_UnresolvedResolution [simp]: "tidy (json_UnresolvedResolution v)"
  by (simp add: json_UnresolvedResolution_def tidy_object)

definition json_NotApplicableResolution :: "not_applicable_resolution \<Rightarrow> go_value" where
  "json_NotApplicableResolution v = json_object
     [(''status'', Some (GoString (na_Status v))),
      (''relationship_id'', Some (GoString (na_RelationshipID v))),
      (''reason'', Some (GoString (na_Reason v))),
      (''recorded_at'', Some (GoString (na_RecordedAt v)))]"

lemma tidy_json_NotApplicableResolution [simp]: "tidy (json_NotApplicableResolution v)"
  by (simp add: json_NotApplicableResolution_def tidy_object)

definition json_Resolution :: "resolution \<Rightarrow> go_value" where
  "json_Resolution v = marshalOne
     [map_option json_ResolvedResolution (rn_Resolved v),
      map_option json_UnresolvedResolution (rn_Unresolved v),
      map_option json_NotApplicableResolution (rn_NotApplicable v)]"

definition tagged_Resolution :: "resolution \<Rightarrow> bool" where
  "tagged_Resolution v \<longleftrightarrow>
     one_of [rn_Resolved v \<noteq> None, rn_Unresolved v \<noteq> None, rn_NotApplicable v \<noteq> None] \<and>
     pred_option (\<lambda>x. rr_Status x \<in> {''resolved''} \<and> tagged_ResolvedResolution x) (rn_Resolved v) \<and>
     pred_option (\<lambda>x. ur_Status x \<in> {''ambiguous'', ''void'', ''disputed''}) (rn_Unresolved v) \<and>
     pred_option (\<lambda>x. na_Status x \<in> {''not_applicable''}) (rn_NotApplicable v)"

lemma tidy_json_Resolution [simp]: "tidy (json_Resolution v)"
  by (auto simp: json_Resolution_def intro!: tidy_marshalOne)

definition json_Group :: "group \<Rightarrow> go_value" where
  "json_Group v = json_object
     [(''id'', Some (GoString (gr_ID v))),
      (''title'', Some (GoString (gr_Title v))),
      (''description'', map_option GoString (gr_Description v))]"

lemma tidy_json_Group [simp]: "tidy (json_Group v)"
  by (simp add: json_Group_def tidy_object)

definition json_GroupMembership :: "group_membership \<Rightarrow> go_value" where
  "json_GroupMembership v = json_object
     [(''id'', Some (GoString (gm_ID v))),
      (''kind'', Some (GoString (gm_Kind v))),
      (''group_id'', Some (GoString (gm_GroupID v))),
      (''question_id'', Some (GoString (gm_QuestionID v)))]"

lemma tidy_json_GroupMembership [simp]: "tidy (json_GroupMembership v)"
  by (simp add: json_GroupMembership_def tidy_object)

definition json_ConditionalRelationship :: "conditional_relationship \<Rightarrow> go_value" where
  "json_ConditionalRelationship v = json_object
     [(''id'', Some (GoString (cl_ID v))),
      (''kind'', Some (GoString (cl_Kind v))),
      (''parent_question_id'', Some (GoString (cl_ParentQuestionID v))),
      (''parent_question_revision_id'', Some (GoString (cl_ParentQuestionRevisionID v))),
      (''parent_outcome'', Some (json_ScalarValue (cl_ParentOutcome v))),
      (''child_question_id'', Some (GoString (cl_ChildQuestionID v)))]"

definition tagged_ConditionalRelationship :: "conditional_relationship \<Rightarrow> bool" where
  "tagged_ConditionalRelationship v \<longleftrightarrow> tagged_ScalarValue (cl_ParentOutcome v)"

lemma tidy_json_ConditionalRelationship [simp]: "tidy (json_ConditionalRelationship v)"
  by (simp add: json_ConditionalRelationship_def tidy_object)

definition json_Relationship :: "relationship \<Rightarrow> go_value" where
  "json_Relationship v = marshalOne
     [map_option json_GroupMembership (rl_GroupMembership v),
      map_option json_ConditionalRelationship (rl_Conditional v)]"

definition tagged_Relationship :: "relationship \<Rightarrow> bool" where
  "tagged_Relationship v \<longleftrightarrow>
     one_of [rl_GroupMembership v \<noteq> None, rl_Conditional v \<noteq> None] \<and>
     pred_option (\<lambda>x. gm_Kind x = RelationshipGroupMembership) (rl_GroupMembership v) \<and>
     pred_option (\<lambda>x. cl_Kind x = RelationshipConditional \<and> tagged_ConditionalRelationship x) (rl_Conditional v)"

lemma tidy_json_Relationship [simp]: "tidy (json_Relationship v)"
  by (auto simp: json_Relationship_def intro!: tidy_marshalOne)

definition json_Target :: "target \<Rightarrow> go_value" where
  "json_Target v = json_object
     [(''scope'', Some (GoString (tg_Scope v))),
      (''canonicalization'', Some (GoString (tg_Canonicalization v))),
      (''artifact_path'', Some (GoString (tg_ArtifactPath v))),
      (''digest'', Some (json_Digest (tg_Digest v)))]"

lemma tidy_json_Target [simp]: "tidy (json_Target v)"
  by (simp add: json_Target_def tidy_object)

definition json_RFC3161Timestamp :: "rfc3161_timestamp \<Rightarrow> go_value" where
  "json_RFC3161Timestamp v = json_object
     [(''type'', Some (GoString (ts_Type v))),
      (''request_path'', Some (GoString (ts_RequestPath v))),
      (''response_path'', Some (GoString (ts_ResponsePath v))),
      (''tsa_url'', Some (GoString (ts_TSAURL v))),
      (''hash_algorithm'', Some (GoString (ts_HashAlgorithm v))),
      (''state'', Some (GoString (ts_State v))),
      (''gen_time'', map_option GoString (ts_GenTime v)),
      (''policy_oid'', map_option GoString (ts_PolicyOID v)),
      (''serial_number'', map_option GoString (ts_SerialNumber v)),
      (''ca_bundle_path'', map_option GoString (ts_CABundlePath v))]"

lemma tidy_json_RFC3161Timestamp [simp]: "tidy (json_RFC3161Timestamp v)"
  by (simp add: json_RFC3161Timestamp_def tidy_object)

definition json_ExternalAnchor :: "external_anchor \<Rightarrow> go_value" where
  "json_ExternalAnchor v = json_object
     [(''kind'', Some (GoString (ea_Kind v))),
      (''value'', Some (GoString (ea_Value v))),
      (''observed_at'', map_option GoString (ea_ObservedAt v))]"

lemma tidy_json_ExternalAnchor [simp]: "tidy (json_ExternalAnchor v)"
  by (simp add: json_ExternalAnchor_def tidy_object)

definition json_UnanchoredIntegrity :: "unanchored_integrity \<Rightarrow> go_value" where
  "json_UnanchoredIntegrity v = json_object
     [(''status'', Some (GoString (ui_Status v))),
      (''note'', map_option GoString (ui_Note v))]"

lemma tidy_json_UnanchoredIntegrity [simp]: "tidy (json_UnanchoredIntegrity v)"
  by (simp add: json_UnanchoredIntegrity_def tidy_object)

definition json_RetainedIntegrity :: "retained_integrity \<Rightarrow> go_value" where
  "json_RetainedIntegrity v = json_object
     [(''status'', Some (GoString (ri_Status v))),
      (''target'', Some (json_Target (ri_Target v)))]"

lemma tidy_json_RetainedIntegrity [simp]: "tidy (json_RetainedIntegrity v)"
  by (simp add: json_RetainedIntegrity_def tidy_object)

definition json_PendingIntegrity :: "pending_integrity \<Rightarrow> go_value" where
  "json_PendingIntegrity v = json_object
     [(''status'', Some (GoString (pi_Status v))),
      (''target'', Some (json_Target (pi_Target v))),
      (''timestamps'', Some (GoArray (map json_RFC3161Timestamp (pi_Timestamps v)))),
      (''external_anchors'', map_option (GoArray \<circ> map json_ExternalAnchor) (pi_ExternalAnchors v))]"

lemma tidy_json_PendingIntegrity [simp]: "tidy (json_PendingIntegrity v)"
  by (simp add: json_PendingIntegrity_def tidy_object)

definition json_VerifiedIntegrity :: "verified_integrity \<Rightarrow> go_value" where
  "json_VerifiedIntegrity v = json_object
     [(''status'', Some (GoString (vi_Status v))),
      (''target'', Some (json_Target (vi_Target v))),
      (''timestamps'', Some (GoArray (map json_RFC3161Timestamp (vi_Timestamps v)))),
      (''verified_at'', Some (GoString (vi_VerifiedAt v))),
      (''external_anchors'', map_option (GoArray \<circ> map json_ExternalAnchor) (vi_ExternalAnchors v))]"

lemma tidy_json_VerifiedIntegrity [simp]: "tidy (json_VerifiedIntegrity v)"
  by (simp add: json_VerifiedIntegrity_def tidy_object)

definition json_FailedIntegrity :: "failed_integrity \<Rightarrow> go_value" where
  "json_FailedIntegrity v = json_object
     [(''status'', Some (GoString (fi_Status v))),
      (''failure_reason'', Some (GoString (fi_FailureReason v))),
      (''target'', map_option json_Target (fi_Target v)),
      (''timestamps'', map_option (GoArray \<circ> map json_RFC3161Timestamp) (fi_Timestamps v))]"

lemma tidy_json_FailedIntegrity [simp]: "tidy (json_FailedIntegrity v)"
  by (simp add: json_FailedIntegrity_def tidy_object)

definition json_LifecycleIntegrity :: "lifecycle_integrity \<Rightarrow> go_value" where
  "json_LifecycleIntegrity v = marshalOne
     [map_option json_RetainedIntegrity (li_Retained v),
      map_option json_PendingIntegrity (li_Pending v),
      map_option json_VerifiedIntegrity (li_Verified v),
      map_option json_FailedIntegrity (li_Failed v)]"

definition tagged_LifecycleIntegrity :: "lifecycle_integrity \<Rightarrow> bool" where
  "tagged_LifecycleIntegrity v \<longleftrightarrow>
     one_of [li_Retained v \<noteq> None, li_Pending v \<noteq> None, li_Verified v \<noteq> None, li_Failed v \<noteq> None] \<and>
     pred_option (\<lambda>x. ri_Status x = IntegrityRetained) (li_Retained v) \<and>
     pred_option (\<lambda>x. pi_Status x = IntegrityPending) (li_Pending v) \<and>
     pred_option (\<lambda>x. vi_Status x = IntegrityVerified) (li_Verified v) \<and>
     pred_option (\<lambda>x. fi_Status x = IntegrityFailed) (li_Failed v)"

lemma tidy_json_LifecycleIntegrity [simp]: "tidy (json_LifecycleIntegrity v)"
  by (auto simp: json_LifecycleIntegrity_def intro!: tidy_marshalOne)

definition json_Integrity :: "integrity \<Rightarrow> go_value" where
  "json_Integrity v = marshalOne
     [map_option json_UnanchoredIntegrity (in_Unanchored v),
      map_option json_RetainedIntegrity (in_Retained v),
      map_option json_PendingIntegrity (in_Pending v),
      map_option json_VerifiedIntegrity (in_Verified v),
      map_option json_FailedIntegrity (in_Failed v)]"

definition tagged_Integrity :: "integrity \<Rightarrow> bool" where
  "tagged_Integrity v \<longleftrightarrow>
     one_of [in_Unanchored v \<noteq> None, in_Retained v \<noteq> None, in_Pending v \<noteq> None, in_Verified v \<noteq> None, in_Failed v \<noteq> None] \<and>
     pred_option (\<lambda>x. ui_Status x = IntegrityUnanchored) (in_Unanchored v) \<and>
     pred_option (\<lambda>x. ri_Status x = IntegrityRetained) (in_Retained v) \<and>
     pred_option (\<lambda>x. pi_Status x = IntegrityPending) (in_Pending v) \<and>
     pred_option (\<lambda>x. vi_Status x = IntegrityVerified) (in_Verified v) \<and>
     pred_option (\<lambda>x. fi_Status x = IntegrityFailed) (in_Failed v)"

lemma tidy_json_Integrity [simp]: "tidy (json_Integrity v)"
  by (auto simp: json_Integrity_def intro!: tidy_marshalOne)

definition json_SealedCommitment :: "sealed_commitment \<Rightarrow> go_value" where
  "json_SealedCommitment v = json_object
     [(''scheme'', Some (GoString (sc_Scheme v))),
      (''commitment_hash'', Some (json_Digest (sc_CommitmentHash v))),
      (''encryption'', Some (json_Encryption (sc_Encryption v))),
      (''key_hint'', Some (GoString (sc_KeyHint v)))]"

lemma tidy_json_SealedCommitment [simp]: "tidy (json_SealedCommitment v)"
  by (simp add: json_SealedCommitment_def tidy_object)

definition json_RevealedCommitment :: "revealed_commitment \<Rightarrow> go_value" where
  "json_RevealedCommitment v = json_object
     [(''scheme'', Some (GoString (sc_Scheme v))),
      (''commitment_hash'', Some (json_Digest (sc_CommitmentHash v))),
      (''encryption'', Some (json_Encryption (sc_Encryption v))),
      (''key_hint'', Some (GoString (sc_KeyHint v))),
      (''revealed_at'', Some (GoString (rc_RevealedAt v))),
      (''revealed_key'', Some (GoString (rc_RevealedKey v)))]"

lemma tidy_json_RevealedCommitment [simp]: "tidy (json_RevealedCommitment v)"
  by (simp add: json_RevealedCommitment_def tidy_object)

definition json_Commitment :: "commitment \<Rightarrow> go_value" where
  "json_Commitment v = marshalOne
     [map_option json_SealedCommitment (cm_Sealed v),
      map_option json_RevealedCommitment (cm_Revealed v)]"

definition tagged_Commitment :: "commitment \<Rightarrow> bool" where
  "tagged_Commitment v \<longleftrightarrow>
     one_of [cm_Sealed v \<noteq> None, cm_Revealed v \<noteq> None]"

lemma tidy_json_Commitment [simp]: "tidy (json_Commitment v)"
  by (auto simp: json_Commitment_def intro!: tidy_marshalOne)

definition json_ActivityCheckpoint :: "activity_checkpoint \<Rightarrow> go_value" where
  "json_ActivityCheckpoint v = json_object
     [(''id'', Some (GoString (ac_ID v))),
      (''head_event_id'', Some (GoString (ac_HeadEventID v))),
      (''recorded_at'', Some (GoString (ac_RecordedAt v))),
      (''integrity'', Some (json_LifecycleIntegrity (ac_Integrity v)))]"

definition tagged_ActivityCheckpoint :: "activity_checkpoint \<Rightarrow> bool" where
  "tagged_ActivityCheckpoint v \<longleftrightarrow> tagged_LifecycleIntegrity (ac_Integrity v)"

lemma tidy_json_ActivityCheckpoint [simp]: "tidy (json_ActivityCheckpoint v)"
  by (simp add: json_ActivityCheckpoint_def tidy_object)

definition json_Forecast :: "forecast \<Rightarrow> go_value" where
  "json_Forecast v = json_object
     [(''id'', Some (GoString (fo_ID v))),
      (''question_revision_id'', Some (GoString (fo_QuestionRevisionID v))),
      (''forecasted_at'', Some (GoString (fo_ForecastedAt v))),
      (''recorded_at'', Some (GoString (fo_RecordedAt v))),
      (''visibility'', Some (GoString (fo_Visibility v))),
      (''representations'', map_option (GoArray \<circ> map json_ForecastRepresentation) (fo_Representations v)),
      (''rationale'', map_option GoString (fo_Rationale v)),
      (''key_factors'', map_option (GoArray \<circ> map GoString) (fo_KeyFactors v)),
      (''comment'', map_option GoString (fo_Comment v)),
      (''public_note'', map_option GoString (fo_PublicNote v)),
      (''supersedes_forecast_id'', map_option GoString (fo_SupersedesForecastID v)),
      (''provenance'', map_option json_Provenance (fo_Provenance v)),
      (''lifecycle_events'', map_option (GoArray \<circ> map json_LifecycleEvent) (fo_LifecycleEvents v)),
      (''activity_checkpoints'', map_option (GoArray \<circ> map json_ActivityCheckpoint) (fo_ActivityCheckpoints v)),
      (''commitment'', map_option json_Commitment (fo_Commitment v)),
      (''integrity'', Some (json_Integrity (fo_Integrity v)))]"

definition tagged_Forecast :: "forecast \<Rightarrow> bool" where
  "tagged_Forecast v \<longleftrightarrow> pred_option (\<lambda>y. (\<forall>y\<in>set y. tagged_ForecastRepresentation y)) (fo_Representations v) \<and> pred_option (\<lambda>y. (\<forall>y\<in>set y. tagged_ActivityCheckpoint y)) (fo_ActivityCheckpoints v) \<and> pred_option (\<lambda>y. tagged_Commitment y) (fo_Commitment v) \<and> tagged_Integrity (fo_Integrity v)"

lemma tidy_json_Forecast [simp]: "tidy (json_Forecast v)"
  by (simp add: json_Forecast_def tidy_object)

definition json_Question :: "question \<Rightarrow> go_value" where
  "json_Question v = json_object
     [(''id'', Some (GoString (qu_ID v))),
      (''status'', Some (GoString (qu_Status v))),
      (''created_at'', Some (GoString (qu_CreatedAt v))),
      (''current_revision_id'', Some (GoString (qu_CurrentRevisionID v))),
      (''revisions'', Some (GoArray (map json_QuestionRevision (qu_Revisions v)))),
      (''tags'', map_option (GoArray \<circ> map GoString) (qu_Tags v)),
      (''notes'', map_option GoString (qu_Notes v)),
      (''forecasts'', Some (GoArray (map json_Forecast (qu_Forecasts v)))),
      (''resolution'', map_option json_Resolution (qu_Resolution v))]"

definition tagged_Question :: "question \<Rightarrow> bool" where
  "tagged_Question v \<longleftrightarrow> (\<forall>y\<in>set (qu_Revisions v). tagged_QuestionRevision y) \<and> (\<forall>y\<in>set (qu_Forecasts v). tagged_Forecast y) \<and> pred_option (\<lambda>y. tagged_Resolution y) (qu_Resolution v)"

lemma tidy_json_Question [simp]: "tidy (json_Question v)"
  by (simp add: json_Question_def tidy_object)

definition json_Ledger :: "ledger \<Rightarrow> go_value" where
  "json_Ledger v = json_object
     [(''$schema'', map_option GoString (lg_Schema v)),
      (''schema_version'', Some (GoString (lg_SchemaVersion v))),
      (''ledger_id'', Some (GoString (lg_LedgerID v))),
      (''title'', map_option GoString (lg_Title v)),
      (''description'', map_option GoString (lg_Description v)),
      (''created_at'', Some (GoString (lg_CreatedAt v))),
      (''default_timezone'', Some (GoString (lg_DefaultTimezone v))),
      (''forecaster'', Some (json_Forecaster (lg_Forecaster v))),
      (''publication'', map_option json_Publication (lg_Publication v)),
      (''platforms'', Some (GoObject (map (map_prod id json_Platform) (lg_Platforms v)))),
      (''groups'', map_option (GoArray \<circ> map json_Group) (lg_Groups v)),
      (''relationships'', map_option (GoArray \<circ> map json_Relationship) (lg_Relationships v)),
      (''questions'', Some (GoArray (map json_Question (lg_Questions v))))]"

definition tagged_Ledger :: "ledger \<Rightarrow> bool" where
  "tagged_Ledger v \<longleftrightarrow> pred_option (\<lambda>y. (\<forall>y\<in>set y. tagged_Relationship y)) (lg_Relationships v) \<and> (\<forall>y\<in>set (lg_Questions v). tagged_Question y) \<and> sorted_wrt (<) (map fst (lg_Platforms v))"

lemma tidy_json_Ledger [simp]: "distinct (map fst (lg_Platforms v)) \<Longrightarrow> tidy (json_Ledger v)"
  by (simp add: json_Ledger_def tidy_object tidy_map)

end
