(* ===== verification/Ledger_Decoding.thy ===== *)
theory Ledger_Decoding
  imports Struct_Decoding Ledger_Encoding Example_Ledger
begin

text \<open>
  The decoders of the remaining structs of \<open>internal/ledger\<close>, up to a whole ledger.
\<close>

definition zero_Publication :: publication where
  "zero_Publication =
     \<lparr>pb_History = '''',
      pb_RepositoryURL = '''',
      pb_DefaultBranch = '''',
      pb_LedgerPath = ''''\<rparr>"

definition decode_Publication_member :: "publication \<Rightarrow> string \<times> go_value \<Rightarrow> publication option" where
  "decode_Publication_member v m =
     (if named m ''history'' then map_option (\<lambda>x. v\<lparr>pb_History := x\<rparr>) (decode_string (pb_History v) (snd m))
      else if named m ''repository_url'' then map_option (\<lambda>x. v\<lparr>pb_RepositoryURL := x\<rparr>) (decode_string (pb_RepositoryURL v) (snd m))
      else if named m ''default_branch'' then map_option (\<lambda>x. v\<lparr>pb_DefaultBranch := x\<rparr>) (decode_string (pb_DefaultBranch v) (snd m))
      else if named m ''ledger_path'' then map_option (\<lambda>x. v\<lparr>pb_LedgerPath := x\<rparr>) (decode_string (pb_LedgerPath v) (snd m))
      else None)"

definition decode_Publication :: "publication \<Rightarrow> go_value \<Rightarrow> publication option" where
  "decode_Publication = decode_struct decode_Publication_member"

lemma Publication_members:
  "(member_step decode_Publication_member r ''history'' (Some (GoString x0)) = Some (r\<lparr>pb_History := x0\<rparr>)) \<and>
   (member_step decode_Publication_member r ''repository_url'' (Some (GoString x1)) = Some (r\<lparr>pb_RepositoryURL := x1\<rparr>)) \<and>
   (member_step decode_Publication_member r ''default_branch'' (Some (GoString x2)) = Some (r\<lparr>pb_DefaultBranch := x2\<rparr>)) \<and>
   (member_step decode_Publication_member r ''ledger_path'' (Some (GoString x3)) = Some (r\<lparr>pb_LedgerPath := x3\<rparr>))"
  by ((intro conjI impI)?; simp only: field_names decode_Publication_member_def split: option.split; auto)

lemma decode_json_Publication [simp]: "decode_Publication zero_Publication (json_Publication v) = Some v"
  by (rule publication.cases [of v]) (simp add: decode_Publication_def json_Publication_def zero_Publication_def Publication_members decode_struct_object foldO_members)

lemma json_Publication_not_null [simp]: "json_Publication v \<noteq> GoNull"
  by (simp add: json_Publication_def json_object_def)

definition zero_Contact :: contact where
  "zero_Contact =
     \<lparr>co_Email = None,
      co_Website = None\<rparr>"

definition decode_Contact_member :: "contact \<Rightarrow> string \<times> go_value \<Rightarrow> contact option" where
  "decode_Contact_member v m =
     (if named m ''email'' then map_option (\<lambda>x. v\<lparr>co_Email := x\<rparr>) ((decode_pointer decode_string '''') (co_Email v) (snd m))
      else if named m ''website'' then map_option (\<lambda>x. v\<lparr>co_Website := x\<rparr>) ((decode_pointer decode_string '''') (co_Website v) (snd m))
      else None)"

definition decode_Contact :: "contact \<Rightarrow> go_value \<Rightarrow> contact option" where
  "decode_Contact = decode_struct decode_Contact_member"

lemma Contact_members:
  "(co_Email r = None \<longrightarrow> member_step decode_Contact_member r ''email'' (map_option GoString x0) = Some (r\<lparr>co_Email := x0\<rparr>)) \<and>
   (co_Website r = None \<longrightarrow> member_step decode_Contact_member r ''website'' (map_option GoString x1) = Some (r\<lparr>co_Website := x1\<rparr>))"
  by ((intro conjI impI)?; simp only: field_names decode_Contact_member_def split: option.split; auto)

lemma decode_json_Contact [simp]: "decode_Contact zero_Contact (json_Contact v) = Some v"
  by (rule contact.cases [of v]) (simp add: decode_Contact_def json_Contact_def zero_Contact_def Contact_members decode_struct_object foldO_members)

lemma json_Contact_not_null [simp]: "json_Contact v \<noteq> GoNull"
  by (simp add: json_Contact_def json_object_def)

definition zero_Profile :: profile where
  "zero_Profile =
     \<lparr>pr_Service = '''',
      pr_Username = None,
      pr_URL = ''''\<rparr>"

definition decode_Profile_member :: "profile \<Rightarrow> string \<times> go_value \<Rightarrow> profile option" where
  "decode_Profile_member v m =
     (if named m ''service'' then map_option (\<lambda>x. v\<lparr>pr_Service := x\<rparr>) (decode_string (pr_Service v) (snd m))
      else if named m ''username'' then map_option (\<lambda>x. v\<lparr>pr_Username := x\<rparr>) ((decode_pointer decode_string '''') (pr_Username v) (snd m))
      else if named m ''url'' then map_option (\<lambda>x. v\<lparr>pr_URL := x\<rparr>) (decode_string (pr_URL v) (snd m))
      else None)"

definition decode_Profile :: "profile \<Rightarrow> go_value \<Rightarrow> profile option" where
  "decode_Profile = decode_struct decode_Profile_member"

lemma Profile_members:
  "(member_step decode_Profile_member r ''service'' (Some (GoString x0)) = Some (r\<lparr>pr_Service := x0\<rparr>)) \<and>
   (pr_Username r = None \<longrightarrow> member_step decode_Profile_member r ''username'' (map_option GoString x1) = Some (r\<lparr>pr_Username := x1\<rparr>)) \<and>
   (member_step decode_Profile_member r ''url'' (Some (GoString x2)) = Some (r\<lparr>pr_URL := x2\<rparr>))"
  by ((intro conjI impI)?; simp only: field_names decode_Profile_member_def split: option.split; auto)

lemma decode_json_Profile [simp]: "decode_Profile zero_Profile (json_Profile v) = Some v"
  by (rule profile.cases [of v]) (simp add: decode_Profile_def json_Profile_def zero_Profile_def Profile_members decode_struct_object foldO_members)

lemma json_Profile_not_null [simp]: "json_Profile v \<noteq> GoNull"
  by (simp add: json_Profile_def json_object_def)

definition zero_Member :: member where
  "zero_Member =
     \<lparr>mb_ID = '''',
      mb_Name = '''',
      mb_Role = None,
      mb_Profiles = None\<rparr>"

definition decode_Member_member :: "member \<Rightarrow> string \<times> go_value \<Rightarrow> member option" where
  "decode_Member_member v m =
     (if named m ''id'' then map_option (\<lambda>x. v\<lparr>mb_ID := x\<rparr>) (decode_string (mb_ID v) (snd m))
      else if named m ''name'' then map_option (\<lambda>x. v\<lparr>mb_Name := x\<rparr>) (decode_string (mb_Name v) (snd m))
      else if named m ''role'' then map_option (\<lambda>x. v\<lparr>mb_Role := x\<rparr>) ((decode_pointer decode_string '''') (mb_Role v) (snd m))
      else if named m ''profiles'' then map_option (\<lambda>x. v\<lparr>mb_Profiles := x\<rparr>) ((decode_pointer (decode_slice decode_Profile zero_Profile) []) (mb_Profiles v) (snd m))
      else None)"

definition decode_Member :: "member \<Rightarrow> go_value \<Rightarrow> member option" where
  "decode_Member = decode_struct decode_Member_member"

lemma Member_members:
  "(member_step decode_Member_member r ''id'' (Some (GoString x0)) = Some (r\<lparr>mb_ID := x0\<rparr>)) \<and>
   (member_step decode_Member_member r ''name'' (Some (GoString x1)) = Some (r\<lparr>mb_Name := x1\<rparr>)) \<and>
   (mb_Role r = None \<longrightarrow> member_step decode_Member_member r ''role'' (map_option GoString x2) = Some (r\<lparr>mb_Role := x2\<rparr>)) \<and>
   (mb_Profiles r = None \<longrightarrow> member_step decode_Member_member r ''profiles'' (map_option (GoArray \<circ> map json_Profile) x3) = Some (r\<lparr>mb_Profiles := x3\<rparr>))"
  by ((intro conjI impI)?; simp only: field_names decode_Member_member_def split: option.split; auto)

lemma decode_json_Member [simp]: "decode_Member zero_Member (json_Member v) = Some v"
  by (rule member.cases [of v]) (simp add: decode_Member_def json_Member_def zero_Member_def Member_members decode_struct_object foldO_members)

lemma json_Member_not_null [simp]: "json_Member v \<noteq> GoNull"
  by (simp add: json_Member_def json_object_def)

definition zero_Forecaster :: forecaster where
  "zero_Forecaster =
     \<lparr>fc_ID = '''',
      fc_Kind = '''',
      fc_Name = '''',
      fc_Contact = None,
      fc_Profiles = None,
      fc_Members = None\<rparr>"

definition decode_Forecaster_member :: "forecaster \<Rightarrow> string \<times> go_value \<Rightarrow> forecaster option" where
  "decode_Forecaster_member v m =
     (if named m ''id'' then map_option (\<lambda>x. v\<lparr>fc_ID := x\<rparr>) (decode_string (fc_ID v) (snd m))
      else if named m ''kind'' then map_option (\<lambda>x. v\<lparr>fc_Kind := x\<rparr>) (decode_string (fc_Kind v) (snd m))
      else if named m ''name'' then map_option (\<lambda>x. v\<lparr>fc_Name := x\<rparr>) (decode_string (fc_Name v) (snd m))
      else if named m ''contact'' then map_option (\<lambda>x. v\<lparr>fc_Contact := x\<rparr>) ((decode_pointer decode_Contact zero_Contact) (fc_Contact v) (snd m))
      else if named m ''profiles'' then map_option (\<lambda>x. v\<lparr>fc_Profiles := x\<rparr>) ((decode_pointer (decode_slice decode_Profile zero_Profile) []) (fc_Profiles v) (snd m))
      else if named m ''members'' then map_option (\<lambda>x. v\<lparr>fc_Members := x\<rparr>) ((decode_pointer (decode_slice decode_Member zero_Member) []) (fc_Members v) (snd m))
      else None)"

definition decode_Forecaster :: "forecaster \<Rightarrow> go_value \<Rightarrow> forecaster option" where
  "decode_Forecaster = decode_struct decode_Forecaster_member"

lemma Forecaster_members:
  "(member_step decode_Forecaster_member r ''id'' (Some (GoString x0)) = Some (r\<lparr>fc_ID := x0\<rparr>)) \<and>
   (member_step decode_Forecaster_member r ''kind'' (Some (GoString x1)) = Some (r\<lparr>fc_Kind := x1\<rparr>)) \<and>
   (member_step decode_Forecaster_member r ''name'' (Some (GoString x2)) = Some (r\<lparr>fc_Name := x2\<rparr>)) \<and>
   (fc_Contact r = None \<longrightarrow> member_step decode_Forecaster_member r ''contact'' (map_option json_Contact x3) = Some (r\<lparr>fc_Contact := x3\<rparr>)) \<and>
   (fc_Profiles r = None \<longrightarrow> member_step decode_Forecaster_member r ''profiles'' (map_option (GoArray \<circ> map json_Profile) x4) = Some (r\<lparr>fc_Profiles := x4\<rparr>)) \<and>
   (fc_Members r = None \<longrightarrow> member_step decode_Forecaster_member r ''members'' (map_option (GoArray \<circ> map json_Member) x5) = Some (r\<lparr>fc_Members := x5\<rparr>))"
  by ((intro conjI impI)?; simp only: field_names decode_Forecaster_member_def split: option.split; auto)

lemma decode_json_Forecaster [simp]: "decode_Forecaster zero_Forecaster (json_Forecaster v) = Some v"
  by (rule forecaster.cases [of v]) (simp add: decode_Forecaster_def json_Forecaster_def zero_Forecaster_def Forecaster_members decode_struct_object foldO_members)

lemma json_Forecaster_not_null [simp]: "json_Forecaster v \<noteq> GoNull"
  by (simp add: json_Forecaster_def json_object_def)

definition zero_PlatformAccount :: platform_account where
  "zero_PlatformAccount =
     \<lparr>pa_Username = None,
      pa_UserID = None,
      pa_ProfileURL = None\<rparr>"

definition decode_PlatformAccount_member :: "platform_account \<Rightarrow> string \<times> go_value \<Rightarrow> platform_account option" where
  "decode_PlatformAccount_member v m =
     (if named m ''username'' then map_option (\<lambda>x. v\<lparr>pa_Username := x\<rparr>) ((decode_pointer decode_string '''') (pa_Username v) (snd m))
      else if named m ''user_id'' then map_option (\<lambda>x. v\<lparr>pa_UserID := x\<rparr>) ((decode_pointer decode_string '''') (pa_UserID v) (snd m))
      else if named m ''profile_url'' then map_option (\<lambda>x. v\<lparr>pa_ProfileURL := x\<rparr>) ((decode_pointer decode_string '''') (pa_ProfileURL v) (snd m))
      else None)"

definition decode_PlatformAccount :: "platform_account \<Rightarrow> go_value \<Rightarrow> platform_account option" where
  "decode_PlatformAccount = decode_struct decode_PlatformAccount_member"

lemma PlatformAccount_members:
  "(pa_Username r = None \<longrightarrow> member_step decode_PlatformAccount_member r ''username'' (map_option GoString x0) = Some (r\<lparr>pa_Username := x0\<rparr>)) \<and>
   (pa_UserID r = None \<longrightarrow> member_step decode_PlatformAccount_member r ''user_id'' (map_option GoString x1) = Some (r\<lparr>pa_UserID := x1\<rparr>)) \<and>
   (pa_ProfileURL r = None \<longrightarrow> member_step decode_PlatformAccount_member r ''profile_url'' (map_option GoString x2) = Some (r\<lparr>pa_ProfileURL := x2\<rparr>))"
  by ((intro conjI impI)?; simp only: field_names decode_PlatformAccount_member_def split: option.split; auto)

lemma decode_json_PlatformAccount [simp]: "decode_PlatformAccount zero_PlatformAccount (json_PlatformAccount v) = Some v"
  by (rule platform_account.cases [of v]) (simp add: decode_PlatformAccount_def json_PlatformAccount_def zero_PlatformAccount_def PlatformAccount_members decode_struct_object foldO_members)

lemma json_PlatformAccount_not_null [simp]: "json_PlatformAccount v \<noteq> GoNull"
  by (simp add: json_PlatformAccount_def json_object_def)

definition zero_Platform :: platform where
  "zero_Platform =
     \<lparr>pl_Name = '''',
      pl_Kind = '''',
      pl_URL = None,
      pl_Account = None\<rparr>"

definition decode_Platform_member :: "platform \<Rightarrow> string \<times> go_value \<Rightarrow> platform option" where
  "decode_Platform_member v m =
     (if named m ''name'' then map_option (\<lambda>x. v\<lparr>pl_Name := x\<rparr>) (decode_string (pl_Name v) (snd m))
      else if named m ''kind'' then map_option (\<lambda>x. v\<lparr>pl_Kind := x\<rparr>) (decode_string (pl_Kind v) (snd m))
      else if named m ''url'' then map_option (\<lambda>x. v\<lparr>pl_URL := x\<rparr>) ((decode_pointer decode_string '''') (pl_URL v) (snd m))
      else if named m ''account'' then map_option (\<lambda>x. v\<lparr>pl_Account := x\<rparr>) ((decode_pointer decode_PlatformAccount zero_PlatformAccount) (pl_Account v) (snd m))
      else None)"

definition decode_Platform :: "platform \<Rightarrow> go_value \<Rightarrow> platform option" where
  "decode_Platform = decode_struct decode_Platform_member"

lemma Platform_members:
  "(member_step decode_Platform_member r ''name'' (Some (GoString x0)) = Some (r\<lparr>pl_Name := x0\<rparr>)) \<and>
   (member_step decode_Platform_member r ''kind'' (Some (GoString x1)) = Some (r\<lparr>pl_Kind := x1\<rparr>)) \<and>
   (pl_URL r = None \<longrightarrow> member_step decode_Platform_member r ''url'' (map_option GoString x2) = Some (r\<lparr>pl_URL := x2\<rparr>)) \<and>
   (pl_Account r = None \<longrightarrow> member_step decode_Platform_member r ''account'' (map_option json_PlatformAccount x3) = Some (r\<lparr>pl_Account := x3\<rparr>))"
  by ((intro conjI impI)?; simp only: field_names decode_Platform_member_def split: option.split; auto)

lemma decode_json_Platform [simp]: "decode_Platform zero_Platform (json_Platform v) = Some v"
  by (rule platform.cases [of v]) (simp add: decode_Platform_def json_Platform_def zero_Platform_def Platform_members decode_struct_object foldO_members)

lemma json_Platform_not_null [simp]: "json_Platform v \<noteq> GoNull"
  by (simp add: json_Platform_def json_object_def)

definition zero_ResolutionSource :: resolution_source where
  "zero_ResolutionSource =
     \<lparr>rs_Title = '''',
      rs_Publisher = None,
      rs_URL = '''',
      rs_PublishedAt = None,
      rs_RetrievedAt = '''',
      rs_ContentDigest = None\<rparr>"

definition decode_ResolutionSource_member :: "resolution_source \<Rightarrow> string \<times> go_value \<Rightarrow> resolution_source option" where
  "decode_ResolutionSource_member v m =
     (if named m ''title'' then map_option (\<lambda>x. v\<lparr>rs_Title := x\<rparr>) (decode_string (rs_Title v) (snd m))
      else if named m ''publisher'' then map_option (\<lambda>x. v\<lparr>rs_Publisher := x\<rparr>) ((decode_pointer decode_string '''') (rs_Publisher v) (snd m))
      else if named m ''url'' then map_option (\<lambda>x. v\<lparr>rs_URL := x\<rparr>) (decode_string (rs_URL v) (snd m))
      else if named m ''published_at'' then map_option (\<lambda>x. v\<lparr>rs_PublishedAt := x\<rparr>) ((decode_pointer decode_string '''') (rs_PublishedAt v) (snd m))
      else if named m ''retrieved_at'' then map_option (\<lambda>x. v\<lparr>rs_RetrievedAt := x\<rparr>) (decode_string (rs_RetrievedAt v) (snd m))
      else if named m ''content_digest'' then map_option (\<lambda>x. v\<lparr>rs_ContentDigest := x\<rparr>) ((decode_pointer decode_Digest zero_Digest) (rs_ContentDigest v) (snd m))
      else None)"

definition decode_ResolutionSource :: "resolution_source \<Rightarrow> go_value \<Rightarrow> resolution_source option" where
  "decode_ResolutionSource = decode_struct decode_ResolutionSource_member"

lemma ResolutionSource_members:
  "(member_step decode_ResolutionSource_member r ''title'' (Some (GoString x0)) = Some (r\<lparr>rs_Title := x0\<rparr>)) \<and>
   (rs_Publisher r = None \<longrightarrow> member_step decode_ResolutionSource_member r ''publisher'' (map_option GoString x1) = Some (r\<lparr>rs_Publisher := x1\<rparr>)) \<and>
   (member_step decode_ResolutionSource_member r ''url'' (Some (GoString x2)) = Some (r\<lparr>rs_URL := x2\<rparr>)) \<and>
   (rs_PublishedAt r = None \<longrightarrow> member_step decode_ResolutionSource_member r ''published_at'' (map_option GoString x3) = Some (r\<lparr>rs_PublishedAt := x3\<rparr>)) \<and>
   (member_step decode_ResolutionSource_member r ''retrieved_at'' (Some (GoString x4)) = Some (r\<lparr>rs_RetrievedAt := x4\<rparr>)) \<and>
   (rs_ContentDigest r = None \<longrightarrow> member_step decode_ResolutionSource_member r ''content_digest'' (map_option json_Digest x5) = Some (r\<lparr>rs_ContentDigest := x5\<rparr>))"
  by ((intro conjI impI)?; simp only: field_names decode_ResolutionSource_member_def split: option.split; auto)

lemma decode_json_ResolutionSource [simp]: "decode_ResolutionSource zero_ResolutionSource (json_ResolutionSource v) = Some v"
  by (rule resolution_source.cases [of v]) (simp add: decode_ResolutionSource_def json_ResolutionSource_def zero_ResolutionSource_def ResolutionSource_members decode_struct_object foldO_members)

lemma json_ResolutionSource_not_null [simp]: "json_ResolutionSource v \<noteq> GoNull"
  by (simp add: json_ResolutionSource_def json_object_def)

definition zero_ResolvedResolution :: resolved_resolution where
  "zero_ResolvedResolution =
     \<lparr>rr_Status = '''',
      rr_QuestionRevisionID = '''',
      rr_Outcome = zero_ScalarValue,
      rr_OutcomeKnownAt = '''',
      rr_RecordedAt = '''',
      rr_Sources = [],
      rr_Notes = None\<rparr>"

definition decode_ResolvedResolution_member :: "resolved_resolution \<Rightarrow> string \<times> go_value \<Rightarrow> resolved_resolution option" where
  "decode_ResolvedResolution_member v m =
     (if named m ''status'' then map_option (\<lambda>x. v\<lparr>rr_Status := x\<rparr>) (decode_string (rr_Status v) (snd m))
      else if named m ''question_revision_id'' then map_option (\<lambda>x. v\<lparr>rr_QuestionRevisionID := x\<rparr>) (decode_string (rr_QuestionRevisionID v) (snd m))
      else if named m ''outcome'' then map_option (\<lambda>x. v\<lparr>rr_Outcome := x\<rparr>) (decode_ScalarValue (rr_Outcome v) (snd m))
      else if named m ''outcome_known_at'' then map_option (\<lambda>x. v\<lparr>rr_OutcomeKnownAt := x\<rparr>) (decode_string (rr_OutcomeKnownAt v) (snd m))
      else if named m ''recorded_at'' then map_option (\<lambda>x. v\<lparr>rr_RecordedAt := x\<rparr>) (decode_string (rr_RecordedAt v) (snd m))
      else if named m ''sources'' then map_option (\<lambda>x. v\<lparr>rr_Sources := x\<rparr>) ((decode_slice decode_ResolutionSource zero_ResolutionSource) (rr_Sources v) (snd m))
      else if named m ''notes'' then map_option (\<lambda>x. v\<lparr>rr_Notes := x\<rparr>) ((decode_pointer decode_string '''') (rr_Notes v) (snd m))
      else None)"

definition decode_ResolvedResolution :: "resolved_resolution \<Rightarrow> go_value \<Rightarrow> resolved_resolution option" where
  "decode_ResolvedResolution = decode_struct decode_ResolvedResolution_member"

lemma ResolvedResolution_members:
  "(member_step decode_ResolvedResolution_member r ''status'' (Some (GoString x0)) = Some (r\<lparr>rr_Status := x0\<rparr>)) \<and>
   (member_step decode_ResolvedResolution_member r ''question_revision_id'' (Some (GoString x1)) = Some (r\<lparr>rr_QuestionRevisionID := x1\<rparr>)) \<and>
   (rr_Outcome r = zero_ScalarValue \<longrightarrow> tagged_ScalarValue x2 \<longrightarrow> member_step decode_ResolvedResolution_member r ''outcome'' (Some (json_ScalarValue x2)) = Some (r\<lparr>rr_Outcome := x2\<rparr>)) \<and>
   (member_step decode_ResolvedResolution_member r ''outcome_known_at'' (Some (GoString x3)) = Some (r\<lparr>rr_OutcomeKnownAt := x3\<rparr>)) \<and>
   (member_step decode_ResolvedResolution_member r ''recorded_at'' (Some (GoString x4)) = Some (r\<lparr>rr_RecordedAt := x4\<rparr>)) \<and>
   (member_step decode_ResolvedResolution_member r ''sources'' (Some (GoArray (map json_ResolutionSource x5))) = Some (r\<lparr>rr_Sources := x5\<rparr>)) \<and>
   (rr_Notes r = None \<longrightarrow> member_step decode_ResolvedResolution_member r ''notes'' (map_option GoString x6) = Some (r\<lparr>rr_Notes := x6\<rparr>))"
  by ((intro conjI impI)?; simp only: field_names decode_ResolvedResolution_member_def split: option.split; auto)

lemma decode_json_ResolvedResolution [simp]: "tagged_ResolvedResolution v \<Longrightarrow> decode_ResolvedResolution zero_ResolvedResolution (json_ResolvedResolution v) = Some v"
  by (rule resolved_resolution.cases [of v]) (simp add: decode_ResolvedResolution_def json_ResolvedResolution_def zero_ResolvedResolution_def ResolvedResolution_members decode_struct_object foldO_members tagged_ResolvedResolution_def)

lemma discriminator_ResolvedResolution [simp]: "discriminator ''status'' (json_ResolvedResolution v) = Some (rr_Status v)"
  by (simp add: json_ResolvedResolution_def discriminator_member)

lemma json_ResolvedResolution_not_null [simp]: "json_ResolvedResolution v \<noteq> GoNull"
  by (simp add: json_ResolvedResolution_def json_object_def)

definition zero_UnresolvedResolution :: unresolved_resolution where
  "zero_UnresolvedResolution =
     \<lparr>ur_Status = '''',
      ur_Reason = '''',
      ur_RecordedAt = '''',
      ur_Sources = None\<rparr>"

definition decode_UnresolvedResolution_member :: "unresolved_resolution \<Rightarrow> string \<times> go_value \<Rightarrow> unresolved_resolution option" where
  "decode_UnresolvedResolution_member v m =
     (if named m ''status'' then map_option (\<lambda>x. v\<lparr>ur_Status := x\<rparr>) (decode_string (ur_Status v) (snd m))
      else if named m ''reason'' then map_option (\<lambda>x. v\<lparr>ur_Reason := x\<rparr>) (decode_string (ur_Reason v) (snd m))
      else if named m ''recorded_at'' then map_option (\<lambda>x. v\<lparr>ur_RecordedAt := x\<rparr>) (decode_string (ur_RecordedAt v) (snd m))
      else if named m ''sources'' then map_option (\<lambda>x. v\<lparr>ur_Sources := x\<rparr>) ((decode_pointer (decode_slice decode_ResolutionSource zero_ResolutionSource) []) (ur_Sources v) (snd m))
      else None)"

definition decode_UnresolvedResolution :: "unresolved_resolution \<Rightarrow> go_value \<Rightarrow> unresolved_resolution option" where
  "decode_UnresolvedResolution = decode_struct decode_UnresolvedResolution_member"

lemma UnresolvedResolution_members:
  "(member_step decode_UnresolvedResolution_member r ''status'' (Some (GoString x0)) = Some (r\<lparr>ur_Status := x0\<rparr>)) \<and>
   (member_step decode_UnresolvedResolution_member r ''reason'' (Some (GoString x1)) = Some (r\<lparr>ur_Reason := x1\<rparr>)) \<and>
   (member_step decode_UnresolvedResolution_member r ''recorded_at'' (Some (GoString x2)) = Some (r\<lparr>ur_RecordedAt := x2\<rparr>)) \<and>
   (ur_Sources r = None \<longrightarrow> member_step decode_UnresolvedResolution_member r ''sources'' (map_option (GoArray \<circ> map json_ResolutionSource) x3) = Some (r\<lparr>ur_Sources := x3\<rparr>))"
  by ((intro conjI impI)?; simp only: field_names decode_UnresolvedResolution_member_def split: option.split; auto)

lemma decode_json_UnresolvedResolution [simp]: "decode_UnresolvedResolution zero_UnresolvedResolution (json_UnresolvedResolution v) = Some v"
  by (rule unresolved_resolution.cases [of v]) (simp add: decode_UnresolvedResolution_def json_UnresolvedResolution_def zero_UnresolvedResolution_def UnresolvedResolution_members decode_struct_object foldO_members)

lemma discriminator_UnresolvedResolution [simp]: "discriminator ''status'' (json_UnresolvedResolution v) = Some (ur_Status v)"
  by (simp add: json_UnresolvedResolution_def discriminator_member)

lemma json_UnresolvedResolution_not_null [simp]: "json_UnresolvedResolution v \<noteq> GoNull"
  by (simp add: json_UnresolvedResolution_def json_object_def)

definition zero_NotApplicableResolution :: not_applicable_resolution where
  "zero_NotApplicableResolution =
     \<lparr>na_Status = '''',
      na_RelationshipID = '''',
      na_Reason = '''',
      na_RecordedAt = ''''\<rparr>"

definition decode_NotApplicableResolution_member :: "not_applicable_resolution \<Rightarrow> string \<times> go_value \<Rightarrow> not_applicable_resolution option" where
  "decode_NotApplicableResolution_member v m =
     (if named m ''status'' then map_option (\<lambda>x. v\<lparr>na_Status := x\<rparr>) (decode_string (na_Status v) (snd m))
      else if named m ''relationship_id'' then map_option (\<lambda>x. v\<lparr>na_RelationshipID := x\<rparr>) (decode_string (na_RelationshipID v) (snd m))
      else if named m ''reason'' then map_option (\<lambda>x. v\<lparr>na_Reason := x\<rparr>) (decode_string (na_Reason v) (snd m))
      else if named m ''recorded_at'' then map_option (\<lambda>x. v\<lparr>na_RecordedAt := x\<rparr>) (decode_string (na_RecordedAt v) (snd m))
      else None)"

definition decode_NotApplicableResolution :: "not_applicable_resolution \<Rightarrow> go_value \<Rightarrow> not_applicable_resolution option" where
  "decode_NotApplicableResolution = decode_struct decode_NotApplicableResolution_member"

lemma NotApplicableResolution_members:
  "(member_step decode_NotApplicableResolution_member r ''status'' (Some (GoString x0)) = Some (r\<lparr>na_Status := x0\<rparr>)) \<and>
   (member_step decode_NotApplicableResolution_member r ''relationship_id'' (Some (GoString x1)) = Some (r\<lparr>na_RelationshipID := x1\<rparr>)) \<and>
   (member_step decode_NotApplicableResolution_member r ''reason'' (Some (GoString x2)) = Some (r\<lparr>na_Reason := x2\<rparr>)) \<and>
   (member_step decode_NotApplicableResolution_member r ''recorded_at'' (Some (GoString x3)) = Some (r\<lparr>na_RecordedAt := x3\<rparr>))"
  by ((intro conjI impI)?; simp only: field_names decode_NotApplicableResolution_member_def split: option.split; auto)

lemma decode_json_NotApplicableResolution [simp]: "decode_NotApplicableResolution zero_NotApplicableResolution (json_NotApplicableResolution v) = Some v"
  by (rule not_applicable_resolution.cases [of v]) (simp add: decode_NotApplicableResolution_def json_NotApplicableResolution_def zero_NotApplicableResolution_def NotApplicableResolution_members decode_struct_object foldO_members)

lemma discriminator_NotApplicableResolution [simp]: "discriminator ''status'' (json_NotApplicableResolution v) = Some (na_Status v)"
  by (simp add: json_NotApplicableResolution_def discriminator_member)

lemma json_NotApplicableResolution_not_null [simp]: "json_NotApplicableResolution v \<noteq> GoNull"
  by (simp add: json_NotApplicableResolution_def json_object_def)

definition zero_Resolution :: resolution where
  "zero_Resolution = \<lparr>rn_Resolved = None, rn_Unresolved = None, rn_NotApplicable = None\<rparr>"

definition decode_Resolution :: "resolution \<Rightarrow> go_value \<Rightarrow> resolution option" where
  "decode_Resolution _ v =
     (case discriminator ''status'' v of
        None \<Rightarrow> None
      | Some kind \<Rightarrow>
          if kind = ''resolved'' then map_option (\<lambda>x. zero_Resolution\<lparr>rn_Resolved := Some x\<rparr>) (decode_ResolvedResolution zero_ResolvedResolution v)
          else if kind \<in> {''ambiguous'', ''void'', ''disputed''} then map_option (\<lambda>x. zero_Resolution\<lparr>rn_Unresolved := Some x\<rparr>) (decode_UnresolvedResolution zero_UnresolvedResolution v)
          else if kind = ''not_applicable'' then map_option (\<lambda>x. zero_Resolution\<lparr>rn_NotApplicable := Some x\<rparr>) (decode_NotApplicableResolution zero_NotApplicableResolution v)
          else None)"

lemma tagged_Resolution_cases: "tagged_Resolution v \<Longrightarrow>
    (\<exists>x. rn_Resolved v = Some x \<and> rn_Unresolved v = None \<and> rn_NotApplicable v = None \<and> rr_Status x \<in> {''resolved''} \<and> tagged_ResolvedResolution x) \<or>
    (\<exists>x. rn_Resolved v = None \<and> rn_Unresolved v = Some x \<and> rn_NotApplicable v = None \<and> ur_Status x \<in> {''ambiguous'', ''void'', ''disputed''}) \<or>
    (\<exists>x. rn_Resolved v = None \<and> rn_Unresolved v = None \<and> rn_NotApplicable v = Some x \<and> na_Status x \<in> {''not_applicable''})"
  by (cases "rn_Resolved v"; cases "rn_Unresolved v"; cases "rn_NotApplicable v"; simp add: tagged_Resolution_def one_of_def)

lemma decode_json_Resolution [simp]: "tagged_Resolution v \<Longrightarrow> decode_Resolution zero_Resolution (json_Resolution v) = Some v"
  by (drule tagged_Resolution_cases) (elim disjE exE conjE; auto simp: json_Resolution_def decode_Resolution_def zero_Resolution_def marshalOne_def map_filter_simps intro: resolution.equality)

lemma json_Resolution_not_null [simp]: "tagged_Resolution v \<Longrightarrow> json_Resolution v \<noteq> GoNull"
  by (drule tagged_Resolution_cases) (elim disjE exE conjE; simp add: json_Resolution_def marshalOne_def map_filter_simps)

definition zero_Group :: group where
  "zero_Group =
     \<lparr>gr_ID = '''',
      gr_Title = '''',
      gr_Description = None\<rparr>"

definition decode_Group_member :: "group \<Rightarrow> string \<times> go_value \<Rightarrow> group option" where
  "decode_Group_member v m =
     (if named m ''id'' then map_option (\<lambda>x. v\<lparr>gr_ID := x\<rparr>) (decode_string (gr_ID v) (snd m))
      else if named m ''title'' then map_option (\<lambda>x. v\<lparr>gr_Title := x\<rparr>) (decode_string (gr_Title v) (snd m))
      else if named m ''description'' then map_option (\<lambda>x. v\<lparr>gr_Description := x\<rparr>) ((decode_pointer decode_string '''') (gr_Description v) (snd m))
      else None)"

definition decode_Group :: "group \<Rightarrow> go_value \<Rightarrow> group option" where
  "decode_Group = decode_struct decode_Group_member"

lemma Group_members:
  "(member_step decode_Group_member r ''id'' (Some (GoString x0)) = Some (r\<lparr>gr_ID := x0\<rparr>)) \<and>
   (member_step decode_Group_member r ''title'' (Some (GoString x1)) = Some (r\<lparr>gr_Title := x1\<rparr>)) \<and>
   (gr_Description r = None \<longrightarrow> member_step decode_Group_member r ''description'' (map_option GoString x2) = Some (r\<lparr>gr_Description := x2\<rparr>))"
  by ((intro conjI impI)?; simp only: field_names decode_Group_member_def split: option.split; auto)

lemma decode_json_Group [simp]: "decode_Group zero_Group (json_Group v) = Some v"
  by (rule group.cases [of v]) (simp add: decode_Group_def json_Group_def zero_Group_def Group_members decode_struct_object foldO_members)

lemma json_Group_not_null [simp]: "json_Group v \<noteq> GoNull"
  by (simp add: json_Group_def json_object_def)

definition zero_GroupMembership :: group_membership where
  "zero_GroupMembership =
     \<lparr>gm_ID = '''',
      gm_Kind = '''',
      gm_GroupID = '''',
      gm_QuestionID = ''''\<rparr>"

definition decode_GroupMembership_member :: "group_membership \<Rightarrow> string \<times> go_value \<Rightarrow> group_membership option" where
  "decode_GroupMembership_member v m =
     (if named m ''id'' then map_option (\<lambda>x. v\<lparr>gm_ID := x\<rparr>) (decode_string (gm_ID v) (snd m))
      else if named m ''kind'' then map_option (\<lambda>x. v\<lparr>gm_Kind := x\<rparr>) (decode_string (gm_Kind v) (snd m))
      else if named m ''group_id'' then map_option (\<lambda>x. v\<lparr>gm_GroupID := x\<rparr>) (decode_string (gm_GroupID v) (snd m))
      else if named m ''question_id'' then map_option (\<lambda>x. v\<lparr>gm_QuestionID := x\<rparr>) (decode_string (gm_QuestionID v) (snd m))
      else None)"

definition decode_GroupMembership :: "group_membership \<Rightarrow> go_value \<Rightarrow> group_membership option" where
  "decode_GroupMembership = decode_struct decode_GroupMembership_member"

lemma GroupMembership_members:
  "(member_step decode_GroupMembership_member r ''id'' (Some (GoString x0)) = Some (r\<lparr>gm_ID := x0\<rparr>)) \<and>
   (member_step decode_GroupMembership_member r ''kind'' (Some (GoString x1)) = Some (r\<lparr>gm_Kind := x1\<rparr>)) \<and>
   (member_step decode_GroupMembership_member r ''group_id'' (Some (GoString x2)) = Some (r\<lparr>gm_GroupID := x2\<rparr>)) \<and>
   (member_step decode_GroupMembership_member r ''question_id'' (Some (GoString x3)) = Some (r\<lparr>gm_QuestionID := x3\<rparr>))"
  by ((intro conjI impI)?; simp only: field_names decode_GroupMembership_member_def split: option.split; auto)

lemma decode_json_GroupMembership [simp]: "decode_GroupMembership zero_GroupMembership (json_GroupMembership v) = Some v"
  by (rule group_membership.cases [of v]) (simp add: decode_GroupMembership_def json_GroupMembership_def zero_GroupMembership_def GroupMembership_members decode_struct_object foldO_members)

lemma discriminator_GroupMembership [simp]: "discriminator ''kind'' (json_GroupMembership v) = Some (gm_Kind v)"
  by (simp add: json_GroupMembership_def discriminator_member)

lemma json_GroupMembership_not_null [simp]: "json_GroupMembership v \<noteq> GoNull"
  by (simp add: json_GroupMembership_def json_object_def)

definition zero_ConditionalRelationship :: conditional_relationship where
  "zero_ConditionalRelationship =
     \<lparr>cl_ID = '''',
      cl_Kind = '''',
      cl_ParentQuestionID = '''',
      cl_ParentQuestionRevisionID = '''',
      cl_ParentOutcome = zero_ScalarValue,
      cl_ChildQuestionID = ''''\<rparr>"

definition decode_ConditionalRelationship_member :: "conditional_relationship \<Rightarrow> string \<times> go_value \<Rightarrow> conditional_relationship option" where
  "decode_ConditionalRelationship_member v m =
     (if named m ''id'' then map_option (\<lambda>x. v\<lparr>cl_ID := x\<rparr>) (decode_string (cl_ID v) (snd m))
      else if named m ''kind'' then map_option (\<lambda>x. v\<lparr>cl_Kind := x\<rparr>) (decode_string (cl_Kind v) (snd m))
      else if named m ''parent_question_id'' then map_option (\<lambda>x. v\<lparr>cl_ParentQuestionID := x\<rparr>) (decode_string (cl_ParentQuestionID v) (snd m))
      else if named m ''parent_question_revision_id'' then map_option (\<lambda>x. v\<lparr>cl_ParentQuestionRevisionID := x\<rparr>) (decode_string (cl_ParentQuestionRevisionID v) (snd m))
      else if named m ''parent_outcome'' then map_option (\<lambda>x. v\<lparr>cl_ParentOutcome := x\<rparr>) (decode_ScalarValue (cl_ParentOutcome v) (snd m))
      else if named m ''child_question_id'' then map_option (\<lambda>x. v\<lparr>cl_ChildQuestionID := x\<rparr>) (decode_string (cl_ChildQuestionID v) (snd m))
      else None)"

definition decode_ConditionalRelationship :: "conditional_relationship \<Rightarrow> go_value \<Rightarrow> conditional_relationship option" where
  "decode_ConditionalRelationship = decode_struct decode_ConditionalRelationship_member"

lemma ConditionalRelationship_members:
  "(member_step decode_ConditionalRelationship_member r ''id'' (Some (GoString x0)) = Some (r\<lparr>cl_ID := x0\<rparr>)) \<and>
   (member_step decode_ConditionalRelationship_member r ''kind'' (Some (GoString x1)) = Some (r\<lparr>cl_Kind := x1\<rparr>)) \<and>
   (member_step decode_ConditionalRelationship_member r ''parent_question_id'' (Some (GoString x2)) = Some (r\<lparr>cl_ParentQuestionID := x2\<rparr>)) \<and>
   (member_step decode_ConditionalRelationship_member r ''parent_question_revision_id'' (Some (GoString x3)) = Some (r\<lparr>cl_ParentQuestionRevisionID := x3\<rparr>)) \<and>
   (cl_ParentOutcome r = zero_ScalarValue \<longrightarrow> tagged_ScalarValue x4 \<longrightarrow> member_step decode_ConditionalRelationship_member r ''parent_outcome'' (Some (json_ScalarValue x4)) = Some (r\<lparr>cl_ParentOutcome := x4\<rparr>)) \<and>
   (member_step decode_ConditionalRelationship_member r ''child_question_id'' (Some (GoString x5)) = Some (r\<lparr>cl_ChildQuestionID := x5\<rparr>))"
  by ((intro conjI impI)?; simp only: field_names decode_ConditionalRelationship_member_def split: option.split; auto)

lemma decode_json_ConditionalRelationship [simp]: "tagged_ConditionalRelationship v \<Longrightarrow> decode_ConditionalRelationship zero_ConditionalRelationship (json_ConditionalRelationship v) = Some v"
  by (rule conditional_relationship.cases [of v]) (simp add: decode_ConditionalRelationship_def json_ConditionalRelationship_def zero_ConditionalRelationship_def ConditionalRelationship_members decode_struct_object foldO_members tagged_ConditionalRelationship_def)

lemma discriminator_ConditionalRelationship [simp]: "discriminator ''kind'' (json_ConditionalRelationship v) = Some (cl_Kind v)"
  by (simp add: json_ConditionalRelationship_def discriminator_member)

lemma json_ConditionalRelationship_not_null [simp]: "json_ConditionalRelationship v \<noteq> GoNull"
  by (simp add: json_ConditionalRelationship_def json_object_def)

definition zero_Relationship :: relationship where
  "zero_Relationship = \<lparr>rl_GroupMembership = None, rl_Conditional = None\<rparr>"

definition decode_Relationship :: "relationship \<Rightarrow> go_value \<Rightarrow> relationship option" where
  "decode_Relationship _ v =
     (case discriminator ''kind'' v of
        None \<Rightarrow> None
      | Some kind \<Rightarrow>
          if kind = RelationshipGroupMembership then map_option (\<lambda>x. zero_Relationship\<lparr>rl_GroupMembership := Some x\<rparr>) (decode_GroupMembership zero_GroupMembership v)
          else if kind = RelationshipConditional then map_option (\<lambda>x. zero_Relationship\<lparr>rl_Conditional := Some x\<rparr>) (decode_ConditionalRelationship zero_ConditionalRelationship v)
          else None)"

lemma tagged_Relationship_cases: "tagged_Relationship v \<Longrightarrow>
    (\<exists>x. rl_GroupMembership v = Some x \<and> rl_Conditional v = None \<and> gm_Kind x = RelationshipGroupMembership) \<or>
    (\<exists>x. rl_GroupMembership v = None \<and> rl_Conditional v = Some x \<and> cl_Kind x = RelationshipConditional \<and> tagged_ConditionalRelationship x)"
  by (cases "rl_GroupMembership v"; cases "rl_Conditional v"; simp add: tagged_Relationship_def one_of_def)

lemma decode_json_Relationship [simp]: "tagged_Relationship v \<Longrightarrow> decode_Relationship zero_Relationship (json_Relationship v) = Some v"
  by (drule tagged_Relationship_cases) (elim disjE exE conjE; auto simp: json_Relationship_def decode_Relationship_def zero_Relationship_def marshalOne_def map_filter_simps intro: relationship.equality)

lemma json_Relationship_not_null [simp]: "tagged_Relationship v \<Longrightarrow> json_Relationship v \<noteq> GoNull"
  by (drule tagged_Relationship_cases) (elim disjE exE conjE; simp add: json_Relationship_def marshalOne_def map_filter_simps)

definition zero_Target :: target where
  "zero_Target =
     \<lparr>tg_Scope = '''',
      tg_Canonicalization = '''',
      tg_ArtifactPath = '''',
      tg_Digest = zero_Digest\<rparr>"

definition decode_Target_member :: "target \<Rightarrow> string \<times> go_value \<Rightarrow> target option" where
  "decode_Target_member v m =
     (if named m ''scope'' then map_option (\<lambda>x. v\<lparr>tg_Scope := x\<rparr>) (decode_string (tg_Scope v) (snd m))
      else if named m ''canonicalization'' then map_option (\<lambda>x. v\<lparr>tg_Canonicalization := x\<rparr>) (decode_string (tg_Canonicalization v) (snd m))
      else if named m ''artifact_path'' then map_option (\<lambda>x. v\<lparr>tg_ArtifactPath := x\<rparr>) (decode_string (tg_ArtifactPath v) (snd m))
      else if named m ''digest'' then map_option (\<lambda>x. v\<lparr>tg_Digest := x\<rparr>) (decode_Digest (tg_Digest v) (snd m))
      else None)"

definition decode_Target :: "target \<Rightarrow> go_value \<Rightarrow> target option" where
  "decode_Target = decode_struct decode_Target_member"

lemma Target_members:
  "(member_step decode_Target_member r ''scope'' (Some (GoString x0)) = Some (r\<lparr>tg_Scope := x0\<rparr>)) \<and>
   (member_step decode_Target_member r ''canonicalization'' (Some (GoString x1)) = Some (r\<lparr>tg_Canonicalization := x1\<rparr>)) \<and>
   (member_step decode_Target_member r ''artifact_path'' (Some (GoString x2)) = Some (r\<lparr>tg_ArtifactPath := x2\<rparr>)) \<and>
   (tg_Digest r = zero_Digest \<longrightarrow> member_step decode_Target_member r ''digest'' (Some (json_Digest x3)) = Some (r\<lparr>tg_Digest := x3\<rparr>))"
  by ((intro conjI impI)?; simp only: field_names decode_Target_member_def split: option.split; auto)

lemma decode_json_Target [simp]: "decode_Target zero_Target (json_Target v) = Some v"
  by (rule target.cases [of v]) (simp add: decode_Target_def json_Target_def zero_Target_def Target_members decode_struct_object foldO_members)

lemma json_Target_not_null [simp]: "json_Target v \<noteq> GoNull"
  by (simp add: json_Target_def json_object_def)

definition zero_RFC3161Timestamp :: rfc3161_timestamp where
  "zero_RFC3161Timestamp =
     \<lparr>ts_Type = '''',
      ts_RequestPath = '''',
      ts_ResponsePath = '''',
      ts_TSAURL = '''',
      ts_HashAlgorithm = '''',
      ts_State = '''',
      ts_GenTime = None,
      ts_PolicyOID = None,
      ts_SerialNumber = None,
      ts_CABundlePath = None\<rparr>"

definition decode_RFC3161Timestamp_member :: "rfc3161_timestamp \<Rightarrow> string \<times> go_value \<Rightarrow> rfc3161_timestamp option" where
  "decode_RFC3161Timestamp_member v m =
     (if named m ''type'' then map_option (\<lambda>x. v\<lparr>ts_Type := x\<rparr>) (decode_string (ts_Type v) (snd m))
      else if named m ''request_path'' then map_option (\<lambda>x. v\<lparr>ts_RequestPath := x\<rparr>) (decode_string (ts_RequestPath v) (snd m))
      else if named m ''response_path'' then map_option (\<lambda>x. v\<lparr>ts_ResponsePath := x\<rparr>) (decode_string (ts_ResponsePath v) (snd m))
      else if named m ''tsa_url'' then map_option (\<lambda>x. v\<lparr>ts_TSAURL := x\<rparr>) (decode_string (ts_TSAURL v) (snd m))
      else if named m ''hash_algorithm'' then map_option (\<lambda>x. v\<lparr>ts_HashAlgorithm := x\<rparr>) (decode_string (ts_HashAlgorithm v) (snd m))
      else if named m ''state'' then map_option (\<lambda>x. v\<lparr>ts_State := x\<rparr>) (decode_string (ts_State v) (snd m))
      else if named m ''gen_time'' then map_option (\<lambda>x. v\<lparr>ts_GenTime := x\<rparr>) ((decode_pointer decode_string '''') (ts_GenTime v) (snd m))
      else if named m ''policy_oid'' then map_option (\<lambda>x. v\<lparr>ts_PolicyOID := x\<rparr>) ((decode_pointer decode_string '''') (ts_PolicyOID v) (snd m))
      else if named m ''serial_number'' then map_option (\<lambda>x. v\<lparr>ts_SerialNumber := x\<rparr>) ((decode_pointer decode_string '''') (ts_SerialNumber v) (snd m))
      else if named m ''ca_bundle_path'' then map_option (\<lambda>x. v\<lparr>ts_CABundlePath := x\<rparr>) ((decode_pointer decode_string '''') (ts_CABundlePath v) (snd m))
      else None)"

definition decode_RFC3161Timestamp :: "rfc3161_timestamp \<Rightarrow> go_value \<Rightarrow> rfc3161_timestamp option" where
  "decode_RFC3161Timestamp = decode_struct decode_RFC3161Timestamp_member"

lemma RFC3161Timestamp_members:
  "(member_step decode_RFC3161Timestamp_member r ''type'' (Some (GoString x0)) = Some (r\<lparr>ts_Type := x0\<rparr>)) \<and>
   (member_step decode_RFC3161Timestamp_member r ''request_path'' (Some (GoString x1)) = Some (r\<lparr>ts_RequestPath := x1\<rparr>)) \<and>
   (member_step decode_RFC3161Timestamp_member r ''response_path'' (Some (GoString x2)) = Some (r\<lparr>ts_ResponsePath := x2\<rparr>)) \<and>
   (member_step decode_RFC3161Timestamp_member r ''tsa_url'' (Some (GoString x3)) = Some (r\<lparr>ts_TSAURL := x3\<rparr>)) \<and>
   (member_step decode_RFC3161Timestamp_member r ''hash_algorithm'' (Some (GoString x4)) = Some (r\<lparr>ts_HashAlgorithm := x4\<rparr>)) \<and>
   (member_step decode_RFC3161Timestamp_member r ''state'' (Some (GoString x5)) = Some (r\<lparr>ts_State := x5\<rparr>)) \<and>
   (ts_GenTime r = None \<longrightarrow> member_step decode_RFC3161Timestamp_member r ''gen_time'' (map_option GoString x6) = Some (r\<lparr>ts_GenTime := x6\<rparr>)) \<and>
   (ts_PolicyOID r = None \<longrightarrow> member_step decode_RFC3161Timestamp_member r ''policy_oid'' (map_option GoString x7) = Some (r\<lparr>ts_PolicyOID := x7\<rparr>)) \<and>
   (ts_SerialNumber r = None \<longrightarrow> member_step decode_RFC3161Timestamp_member r ''serial_number'' (map_option GoString x8) = Some (r\<lparr>ts_SerialNumber := x8\<rparr>)) \<and>
   (ts_CABundlePath r = None \<longrightarrow> member_step decode_RFC3161Timestamp_member r ''ca_bundle_path'' (map_option GoString x9) = Some (r\<lparr>ts_CABundlePath := x9\<rparr>))"
  by ((intro conjI impI)?; simp only: field_names decode_RFC3161Timestamp_member_def split: option.split; auto)

lemma decode_json_RFC3161Timestamp [simp]: "decode_RFC3161Timestamp zero_RFC3161Timestamp (json_RFC3161Timestamp v) = Some v"
  by (rule rfc3161_timestamp.cases [of v]) (simp add: decode_RFC3161Timestamp_def json_RFC3161Timestamp_def zero_RFC3161Timestamp_def RFC3161Timestamp_members decode_struct_object foldO_members)

lemma json_RFC3161Timestamp_not_null [simp]: "json_RFC3161Timestamp v \<noteq> GoNull"
  by (simp add: json_RFC3161Timestamp_def json_object_def)

definition zero_ExternalAnchor :: external_anchor where
  "zero_ExternalAnchor =
     \<lparr>ea_Kind = '''',
      ea_Value = '''',
      ea_ObservedAt = None\<rparr>"

definition decode_ExternalAnchor_member :: "external_anchor \<Rightarrow> string \<times> go_value \<Rightarrow> external_anchor option" where
  "decode_ExternalAnchor_member v m =
     (if named m ''kind'' then map_option (\<lambda>x. v\<lparr>ea_Kind := x\<rparr>) (decode_string (ea_Kind v) (snd m))
      else if named m ''value'' then map_option (\<lambda>x. v\<lparr>ea_Value := x\<rparr>) (decode_string (ea_Value v) (snd m))
      else if named m ''observed_at'' then map_option (\<lambda>x. v\<lparr>ea_ObservedAt := x\<rparr>) ((decode_pointer decode_string '''') (ea_ObservedAt v) (snd m))
      else None)"

definition decode_ExternalAnchor :: "external_anchor \<Rightarrow> go_value \<Rightarrow> external_anchor option" where
  "decode_ExternalAnchor = decode_struct decode_ExternalAnchor_member"

lemma ExternalAnchor_members:
  "(member_step decode_ExternalAnchor_member r ''kind'' (Some (GoString x0)) = Some (r\<lparr>ea_Kind := x0\<rparr>)) \<and>
   (member_step decode_ExternalAnchor_member r ''value'' (Some (GoString x1)) = Some (r\<lparr>ea_Value := x1\<rparr>)) \<and>
   (ea_ObservedAt r = None \<longrightarrow> member_step decode_ExternalAnchor_member r ''observed_at'' (map_option GoString x2) = Some (r\<lparr>ea_ObservedAt := x2\<rparr>))"
  by ((intro conjI impI)?; simp only: field_names decode_ExternalAnchor_member_def split: option.split; auto)

lemma decode_json_ExternalAnchor [simp]: "decode_ExternalAnchor zero_ExternalAnchor (json_ExternalAnchor v) = Some v"
  by (rule external_anchor.cases [of v]) (simp add: decode_ExternalAnchor_def json_ExternalAnchor_def zero_ExternalAnchor_def ExternalAnchor_members decode_struct_object foldO_members)

lemma discriminator_ExternalAnchor [simp]: "discriminator ''kind'' (json_ExternalAnchor v) = Some (ea_Kind v)"
  by (simp add: json_ExternalAnchor_def discriminator_member)

lemma json_ExternalAnchor_not_null [simp]: "json_ExternalAnchor v \<noteq> GoNull"
  by (simp add: json_ExternalAnchor_def json_object_def)

definition zero_UnanchoredIntegrity :: unanchored_integrity where
  "zero_UnanchoredIntegrity =
     \<lparr>ui_Status = '''',
      ui_Note = None\<rparr>"

definition decode_UnanchoredIntegrity_member :: "unanchored_integrity \<Rightarrow> string \<times> go_value \<Rightarrow> unanchored_integrity option" where
  "decode_UnanchoredIntegrity_member v m =
     (if named m ''status'' then map_option (\<lambda>x. v\<lparr>ui_Status := x\<rparr>) (decode_string (ui_Status v) (snd m))
      else if named m ''note'' then map_option (\<lambda>x. v\<lparr>ui_Note := x\<rparr>) ((decode_pointer decode_string '''') (ui_Note v) (snd m))
      else None)"

definition decode_UnanchoredIntegrity :: "unanchored_integrity \<Rightarrow> go_value \<Rightarrow> unanchored_integrity option" where
  "decode_UnanchoredIntegrity = decode_struct decode_UnanchoredIntegrity_member"

lemma UnanchoredIntegrity_members:
  "(member_step decode_UnanchoredIntegrity_member r ''status'' (Some (GoString x0)) = Some (r\<lparr>ui_Status := x0\<rparr>)) \<and>
   (ui_Note r = None \<longrightarrow> member_step decode_UnanchoredIntegrity_member r ''note'' (map_option GoString x1) = Some (r\<lparr>ui_Note := x1\<rparr>))"
  by ((intro conjI impI)?; simp only: field_names decode_UnanchoredIntegrity_member_def split: option.split; auto)

lemma decode_json_UnanchoredIntegrity [simp]: "decode_UnanchoredIntegrity zero_UnanchoredIntegrity (json_UnanchoredIntegrity v) = Some v"
  by (rule unanchored_integrity.cases [of v]) (simp add: decode_UnanchoredIntegrity_def json_UnanchoredIntegrity_def zero_UnanchoredIntegrity_def UnanchoredIntegrity_members decode_struct_object foldO_members)

lemma discriminator_UnanchoredIntegrity [simp]: "discriminator ''status'' (json_UnanchoredIntegrity v) = Some (ui_Status v)"
  by (simp add: json_UnanchoredIntegrity_def discriminator_member)

lemma json_UnanchoredIntegrity_not_null [simp]: "json_UnanchoredIntegrity v \<noteq> GoNull"
  by (simp add: json_UnanchoredIntegrity_def json_object_def)

definition zero_RetainedIntegrity :: retained_integrity where
  "zero_RetainedIntegrity =
     \<lparr>ri_Status = '''',
      ri_Target = zero_Target\<rparr>"

definition decode_RetainedIntegrity_member :: "retained_integrity \<Rightarrow> string \<times> go_value \<Rightarrow> retained_integrity option" where
  "decode_RetainedIntegrity_member v m =
     (if named m ''status'' then map_option (\<lambda>x. v\<lparr>ri_Status := x\<rparr>) (decode_string (ri_Status v) (snd m))
      else if named m ''target'' then map_option (\<lambda>x. v\<lparr>ri_Target := x\<rparr>) (decode_Target (ri_Target v) (snd m))
      else None)"

definition decode_RetainedIntegrity :: "retained_integrity \<Rightarrow> go_value \<Rightarrow> retained_integrity option" where
  "decode_RetainedIntegrity = decode_struct decode_RetainedIntegrity_member"

lemma RetainedIntegrity_members:
  "(member_step decode_RetainedIntegrity_member r ''status'' (Some (GoString x0)) = Some (r\<lparr>ri_Status := x0\<rparr>)) \<and>
   (ri_Target r = zero_Target \<longrightarrow> member_step decode_RetainedIntegrity_member r ''target'' (Some (json_Target x1)) = Some (r\<lparr>ri_Target := x1\<rparr>))"
  by ((intro conjI impI)?; simp only: field_names decode_RetainedIntegrity_member_def split: option.split; auto)

lemma decode_json_RetainedIntegrity [simp]: "decode_RetainedIntegrity zero_RetainedIntegrity (json_RetainedIntegrity v) = Some v"
  by (rule retained_integrity.cases [of v]) (simp add: decode_RetainedIntegrity_def json_RetainedIntegrity_def zero_RetainedIntegrity_def RetainedIntegrity_members decode_struct_object foldO_members)

lemma discriminator_RetainedIntegrity [simp]: "discriminator ''status'' (json_RetainedIntegrity v) = Some (ri_Status v)"
  by (simp add: json_RetainedIntegrity_def discriminator_member)

lemma json_RetainedIntegrity_not_null [simp]: "json_RetainedIntegrity v \<noteq> GoNull"
  by (simp add: json_RetainedIntegrity_def json_object_def)

definition zero_PendingIntegrity :: pending_integrity where
  "zero_PendingIntegrity =
     \<lparr>pi_Status = '''',
      pi_Target = zero_Target,
      pi_Timestamps = [],
      pi_ExternalAnchors = None\<rparr>"

definition decode_PendingIntegrity_member :: "pending_integrity \<Rightarrow> string \<times> go_value \<Rightarrow> pending_integrity option" where
  "decode_PendingIntegrity_member v m =
     (if named m ''status'' then map_option (\<lambda>x. v\<lparr>pi_Status := x\<rparr>) (decode_string (pi_Status v) (snd m))
      else if named m ''target'' then map_option (\<lambda>x. v\<lparr>pi_Target := x\<rparr>) (decode_Target (pi_Target v) (snd m))
      else if named m ''timestamps'' then map_option (\<lambda>x. v\<lparr>pi_Timestamps := x\<rparr>) ((decode_slice decode_RFC3161Timestamp zero_RFC3161Timestamp) (pi_Timestamps v) (snd m))
      else if named m ''external_anchors'' then map_option (\<lambda>x. v\<lparr>pi_ExternalAnchors := x\<rparr>) ((decode_pointer (decode_slice decode_ExternalAnchor zero_ExternalAnchor) []) (pi_ExternalAnchors v) (snd m))
      else None)"

definition decode_PendingIntegrity :: "pending_integrity \<Rightarrow> go_value \<Rightarrow> pending_integrity option" where
  "decode_PendingIntegrity = decode_struct decode_PendingIntegrity_member"

lemma PendingIntegrity_members:
  "(member_step decode_PendingIntegrity_member r ''status'' (Some (GoString x0)) = Some (r\<lparr>pi_Status := x0\<rparr>)) \<and>
   (pi_Target r = zero_Target \<longrightarrow> member_step decode_PendingIntegrity_member r ''target'' (Some (json_Target x1)) = Some (r\<lparr>pi_Target := x1\<rparr>)) \<and>
   (member_step decode_PendingIntegrity_member r ''timestamps'' (Some (GoArray (map json_RFC3161Timestamp x2))) = Some (r\<lparr>pi_Timestamps := x2\<rparr>)) \<and>
   (pi_ExternalAnchors r = None \<longrightarrow> member_step decode_PendingIntegrity_member r ''external_anchors'' (map_option (GoArray \<circ> map json_ExternalAnchor) x3) = Some (r\<lparr>pi_ExternalAnchors := x3\<rparr>))"
  by ((intro conjI impI)?; simp only: field_names decode_PendingIntegrity_member_def split: option.split; auto)

lemma decode_json_PendingIntegrity [simp]: "decode_PendingIntegrity zero_PendingIntegrity (json_PendingIntegrity v) = Some v"
  by (rule pending_integrity.cases [of v]) (simp add: decode_PendingIntegrity_def json_PendingIntegrity_def zero_PendingIntegrity_def PendingIntegrity_members decode_struct_object foldO_members)

lemma discriminator_PendingIntegrity [simp]: "discriminator ''status'' (json_PendingIntegrity v) = Some (pi_Status v)"
  by (simp add: json_PendingIntegrity_def discriminator_member)

lemma json_PendingIntegrity_not_null [simp]: "json_PendingIntegrity v \<noteq> GoNull"
  by (simp add: json_PendingIntegrity_def json_object_def)

definition zero_VerifiedIntegrity :: verified_integrity where
  "zero_VerifiedIntegrity =
     \<lparr>vi_Status = '''',
      vi_Target = zero_Target,
      vi_Timestamps = [],
      vi_VerifiedAt = '''',
      vi_ExternalAnchors = None\<rparr>"

definition decode_VerifiedIntegrity_member :: "verified_integrity \<Rightarrow> string \<times> go_value \<Rightarrow> verified_integrity option" where
  "decode_VerifiedIntegrity_member v m =
     (if named m ''status'' then map_option (\<lambda>x. v\<lparr>vi_Status := x\<rparr>) (decode_string (vi_Status v) (snd m))
      else if named m ''target'' then map_option (\<lambda>x. v\<lparr>vi_Target := x\<rparr>) (decode_Target (vi_Target v) (snd m))
      else if named m ''timestamps'' then map_option (\<lambda>x. v\<lparr>vi_Timestamps := x\<rparr>) ((decode_slice decode_RFC3161Timestamp zero_RFC3161Timestamp) (vi_Timestamps v) (snd m))
      else if named m ''verified_at'' then map_option (\<lambda>x. v\<lparr>vi_VerifiedAt := x\<rparr>) (decode_string (vi_VerifiedAt v) (snd m))
      else if named m ''external_anchors'' then map_option (\<lambda>x. v\<lparr>vi_ExternalAnchors := x\<rparr>) ((decode_pointer (decode_slice decode_ExternalAnchor zero_ExternalAnchor) []) (vi_ExternalAnchors v) (snd m))
      else None)"

definition decode_VerifiedIntegrity :: "verified_integrity \<Rightarrow> go_value \<Rightarrow> verified_integrity option" where
  "decode_VerifiedIntegrity = decode_struct decode_VerifiedIntegrity_member"

lemma VerifiedIntegrity_members:
  "(member_step decode_VerifiedIntegrity_member r ''status'' (Some (GoString x0)) = Some (r\<lparr>vi_Status := x0\<rparr>)) \<and>
   (vi_Target r = zero_Target \<longrightarrow> member_step decode_VerifiedIntegrity_member r ''target'' (Some (json_Target x1)) = Some (r\<lparr>vi_Target := x1\<rparr>)) \<and>
   (member_step decode_VerifiedIntegrity_member r ''timestamps'' (Some (GoArray (map json_RFC3161Timestamp x2))) = Some (r\<lparr>vi_Timestamps := x2\<rparr>)) \<and>
   (member_step decode_VerifiedIntegrity_member r ''verified_at'' (Some (GoString x3)) = Some (r\<lparr>vi_VerifiedAt := x3\<rparr>)) \<and>
   (vi_ExternalAnchors r = None \<longrightarrow> member_step decode_VerifiedIntegrity_member r ''external_anchors'' (map_option (GoArray \<circ> map json_ExternalAnchor) x4) = Some (r\<lparr>vi_ExternalAnchors := x4\<rparr>))"
  by ((intro conjI impI)?; simp only: field_names decode_VerifiedIntegrity_member_def split: option.split; auto)

lemma decode_json_VerifiedIntegrity [simp]: "decode_VerifiedIntegrity zero_VerifiedIntegrity (json_VerifiedIntegrity v) = Some v"
  by (rule verified_integrity.cases [of v]) (simp add: decode_VerifiedIntegrity_def json_VerifiedIntegrity_def zero_VerifiedIntegrity_def VerifiedIntegrity_members decode_struct_object foldO_members)

lemma discriminator_VerifiedIntegrity [simp]: "discriminator ''status'' (json_VerifiedIntegrity v) = Some (vi_Status v)"
  by (simp add: json_VerifiedIntegrity_def discriminator_member)

lemma json_VerifiedIntegrity_not_null [simp]: "json_VerifiedIntegrity v \<noteq> GoNull"
  by (simp add: json_VerifiedIntegrity_def json_object_def)

definition zero_FailedIntegrity :: failed_integrity where
  "zero_FailedIntegrity =
     \<lparr>fi_Status = '''',
      fi_FailureReason = '''',
      fi_Target = None,
      fi_Timestamps = None\<rparr>"

definition decode_FailedIntegrity_member :: "failed_integrity \<Rightarrow> string \<times> go_value \<Rightarrow> failed_integrity option" where
  "decode_FailedIntegrity_member v m =
     (if named m ''status'' then map_option (\<lambda>x. v\<lparr>fi_Status := x\<rparr>) (decode_string (fi_Status v) (snd m))
      else if named m ''failure_reason'' then map_option (\<lambda>x. v\<lparr>fi_FailureReason := x\<rparr>) (decode_string (fi_FailureReason v) (snd m))
      else if named m ''target'' then map_option (\<lambda>x. v\<lparr>fi_Target := x\<rparr>) ((decode_pointer decode_Target zero_Target) (fi_Target v) (snd m))
      else if named m ''timestamps'' then map_option (\<lambda>x. v\<lparr>fi_Timestamps := x\<rparr>) ((decode_pointer (decode_slice decode_RFC3161Timestamp zero_RFC3161Timestamp) []) (fi_Timestamps v) (snd m))
      else None)"

definition decode_FailedIntegrity :: "failed_integrity \<Rightarrow> go_value \<Rightarrow> failed_integrity option" where
  "decode_FailedIntegrity = decode_struct decode_FailedIntegrity_member"

lemma FailedIntegrity_members:
  "(member_step decode_FailedIntegrity_member r ''status'' (Some (GoString x0)) = Some (r\<lparr>fi_Status := x0\<rparr>)) \<and>
   (member_step decode_FailedIntegrity_member r ''failure_reason'' (Some (GoString x1)) = Some (r\<lparr>fi_FailureReason := x1\<rparr>)) \<and>
   (fi_Target r = None \<longrightarrow> member_step decode_FailedIntegrity_member r ''target'' (map_option json_Target x2) = Some (r\<lparr>fi_Target := x2\<rparr>)) \<and>
   (fi_Timestamps r = None \<longrightarrow> member_step decode_FailedIntegrity_member r ''timestamps'' (map_option (GoArray \<circ> map json_RFC3161Timestamp) x3) = Some (r\<lparr>fi_Timestamps := x3\<rparr>))"
  by ((intro conjI impI)?; simp only: field_names decode_FailedIntegrity_member_def split: option.split; auto)

lemma decode_json_FailedIntegrity [simp]: "decode_FailedIntegrity zero_FailedIntegrity (json_FailedIntegrity v) = Some v"
  by (rule failed_integrity.cases [of v]) (simp add: decode_FailedIntegrity_def json_FailedIntegrity_def zero_FailedIntegrity_def FailedIntegrity_members decode_struct_object foldO_members)

lemma discriminator_FailedIntegrity [simp]: "discriminator ''status'' (json_FailedIntegrity v) = Some (fi_Status v)"
  by (simp add: json_FailedIntegrity_def discriminator_member)

lemma json_FailedIntegrity_not_null [simp]: "json_FailedIntegrity v \<noteq> GoNull"
  by (simp add: json_FailedIntegrity_def json_object_def)

definition zero_LifecycleIntegrity :: lifecycle_integrity where
  "zero_LifecycleIntegrity = \<lparr>li_Retained = None, li_Pending = None, li_Verified = None, li_Failed = None\<rparr>"

definition decode_LifecycleIntegrity :: "lifecycle_integrity \<Rightarrow> go_value \<Rightarrow> lifecycle_integrity option" where
  "decode_LifecycleIntegrity _ v =
     (case discriminator ''status'' v of
        None \<Rightarrow> None
      | Some kind \<Rightarrow>
          if kind = IntegrityRetained then map_option (\<lambda>x. zero_LifecycleIntegrity\<lparr>li_Retained := Some x\<rparr>) (decode_RetainedIntegrity zero_RetainedIntegrity v)
          else if kind = IntegrityPending then map_option (\<lambda>x. zero_LifecycleIntegrity\<lparr>li_Pending := Some x\<rparr>) (decode_PendingIntegrity zero_PendingIntegrity v)
          else if kind = IntegrityVerified then map_option (\<lambda>x. zero_LifecycleIntegrity\<lparr>li_Verified := Some x\<rparr>) (decode_VerifiedIntegrity zero_VerifiedIntegrity v)
          else if kind = IntegrityFailed then map_option (\<lambda>x. zero_LifecycleIntegrity\<lparr>li_Failed := Some x\<rparr>) (decode_FailedIntegrity zero_FailedIntegrity v)
          else None)"

lemma tagged_LifecycleIntegrity_cases: "tagged_LifecycleIntegrity v \<Longrightarrow>
    (\<exists>x. li_Retained v = Some x \<and> li_Pending v = None \<and> li_Verified v = None \<and> li_Failed v = None \<and> ri_Status x = IntegrityRetained) \<or>
    (\<exists>x. li_Retained v = None \<and> li_Pending v = Some x \<and> li_Verified v = None \<and> li_Failed v = None \<and> pi_Status x = IntegrityPending) \<or>
    (\<exists>x. li_Retained v = None \<and> li_Pending v = None \<and> li_Verified v = Some x \<and> li_Failed v = None \<and> vi_Status x = IntegrityVerified) \<or>
    (\<exists>x. li_Retained v = None \<and> li_Pending v = None \<and> li_Verified v = None \<and> li_Failed v = Some x \<and> fi_Status x = IntegrityFailed)"
  by (cases "li_Retained v"; cases "li_Pending v"; cases "li_Verified v"; cases "li_Failed v"; simp add: tagged_LifecycleIntegrity_def one_of_def)

lemma decode_json_LifecycleIntegrity [simp]: "tagged_LifecycleIntegrity v \<Longrightarrow> decode_LifecycleIntegrity zero_LifecycleIntegrity (json_LifecycleIntegrity v) = Some v"
  by (drule tagged_LifecycleIntegrity_cases) (elim disjE exE conjE; auto simp: json_LifecycleIntegrity_def decode_LifecycleIntegrity_def zero_LifecycleIntegrity_def marshalOne_def map_filter_simps intro: lifecycle_integrity.equality)

lemma json_LifecycleIntegrity_not_null [simp]: "tagged_LifecycleIntegrity v \<Longrightarrow> json_LifecycleIntegrity v \<noteq> GoNull"
  by (drule tagged_LifecycleIntegrity_cases) (elim disjE exE conjE; simp add: json_LifecycleIntegrity_def marshalOne_def map_filter_simps)

definition zero_Integrity :: integrity where
  "zero_Integrity = \<lparr>in_Unanchored = None, in_Retained = None, in_Pending = None, in_Verified = None, in_Failed = None\<rparr>"

definition decode_Integrity :: "integrity \<Rightarrow> go_value \<Rightarrow> integrity option" where
  "decode_Integrity _ v =
     (case discriminator ''status'' v of
        None \<Rightarrow> None
      | Some kind \<Rightarrow>
          if kind = IntegrityUnanchored then map_option (\<lambda>x. zero_Integrity\<lparr>in_Unanchored := Some x\<rparr>) (decode_UnanchoredIntegrity zero_UnanchoredIntegrity v)
          else if kind = IntegrityRetained then map_option (\<lambda>x. zero_Integrity\<lparr>in_Retained := Some x\<rparr>) (decode_RetainedIntegrity zero_RetainedIntegrity v)
          else if kind = IntegrityPending then map_option (\<lambda>x. zero_Integrity\<lparr>in_Pending := Some x\<rparr>) (decode_PendingIntegrity zero_PendingIntegrity v)
          else if kind = IntegrityVerified then map_option (\<lambda>x. zero_Integrity\<lparr>in_Verified := Some x\<rparr>) (decode_VerifiedIntegrity zero_VerifiedIntegrity v)
          else if kind = IntegrityFailed then map_option (\<lambda>x. zero_Integrity\<lparr>in_Failed := Some x\<rparr>) (decode_FailedIntegrity zero_FailedIntegrity v)
          else None)"

lemma tagged_Integrity_cases: "tagged_Integrity v \<Longrightarrow>
    (\<exists>x. in_Unanchored v = Some x \<and> in_Retained v = None \<and> in_Pending v = None \<and> in_Verified v = None \<and> in_Failed v = None \<and> ui_Status x = IntegrityUnanchored) \<or>
    (\<exists>x. in_Unanchored v = None \<and> in_Retained v = Some x \<and> in_Pending v = None \<and> in_Verified v = None \<and> in_Failed v = None \<and> ri_Status x = IntegrityRetained) \<or>
    (\<exists>x. in_Unanchored v = None \<and> in_Retained v = None \<and> in_Pending v = Some x \<and> in_Verified v = None \<and> in_Failed v = None \<and> pi_Status x = IntegrityPending) \<or>
    (\<exists>x. in_Unanchored v = None \<and> in_Retained v = None \<and> in_Pending v = None \<and> in_Verified v = Some x \<and> in_Failed v = None \<and> vi_Status x = IntegrityVerified) \<or>
    (\<exists>x. in_Unanchored v = None \<and> in_Retained v = None \<and> in_Pending v = None \<and> in_Verified v = None \<and> in_Failed v = Some x \<and> fi_Status x = IntegrityFailed)"
  by (cases "in_Unanchored v"; cases "in_Retained v"; cases "in_Pending v"; cases "in_Verified v"; cases "in_Failed v"; simp add: tagged_Integrity_def one_of_def)

lemma decode_json_Integrity [simp]: "tagged_Integrity v \<Longrightarrow> decode_Integrity zero_Integrity (json_Integrity v) = Some v"
  by (drule tagged_Integrity_cases) (elim disjE exE conjE; auto simp: json_Integrity_def decode_Integrity_def zero_Integrity_def marshalOne_def map_filter_simps intro: integrity.equality)

lemma json_Integrity_not_null [simp]: "tagged_Integrity v \<Longrightarrow> json_Integrity v \<noteq> GoNull"
  by (drule tagged_Integrity_cases) (elim disjE exE conjE; simp add: json_Integrity_def marshalOne_def map_filter_simps)

definition zero_SealedCommitment :: sealed_commitment where
  "zero_SealedCommitment =
     \<lparr>sc_Scheme = '''',
      sc_CommitmentHash = zero_Digest,
      sc_Encryption = zero_Encryption,
      sc_KeyHint = ''''\<rparr>"

definition decode_SealedCommitment_member :: "sealed_commitment \<Rightarrow> string \<times> go_value \<Rightarrow> sealed_commitment option" where
  "decode_SealedCommitment_member v m =
     (if named m ''scheme'' then map_option (\<lambda>x. v\<lparr>sc_Scheme := x\<rparr>) (decode_string (sc_Scheme v) (snd m))
      else if named m ''commitment_hash'' then map_option (\<lambda>x. v\<lparr>sc_CommitmentHash := x\<rparr>) (decode_Digest (sc_CommitmentHash v) (snd m))
      else if named m ''encryption'' then map_option (\<lambda>x. v\<lparr>sc_Encryption := x\<rparr>) (decode_Encryption (sc_Encryption v) (snd m))
      else if named m ''key_hint'' then map_option (\<lambda>x. v\<lparr>sc_KeyHint := x\<rparr>) (decode_string (sc_KeyHint v) (snd m))
      else None)"

definition decode_SealedCommitment :: "sealed_commitment \<Rightarrow> go_value \<Rightarrow> sealed_commitment option" where
  "decode_SealedCommitment = decode_struct decode_SealedCommitment_member"

lemma SealedCommitment_members:
  "(member_step decode_SealedCommitment_member r ''scheme'' (Some (GoString x0)) = Some (r\<lparr>sc_Scheme := x0\<rparr>)) \<and>
   (sc_CommitmentHash r = zero_Digest \<longrightarrow> member_step decode_SealedCommitment_member r ''commitment_hash'' (Some (json_Digest x1)) = Some (r\<lparr>sc_CommitmentHash := x1\<rparr>)) \<and>
   (sc_Encryption r = zero_Encryption \<longrightarrow> member_step decode_SealedCommitment_member r ''encryption'' (Some (json_Encryption x2)) = Some (r\<lparr>sc_Encryption := x2\<rparr>)) \<and>
   (member_step decode_SealedCommitment_member r ''key_hint'' (Some (GoString x3)) = Some (r\<lparr>sc_KeyHint := x3\<rparr>))"
  by ((intro conjI impI)?; simp only: field_names decode_SealedCommitment_member_def split: option.split; auto)

lemma decode_json_SealedCommitment [simp]: "decode_SealedCommitment zero_SealedCommitment (json_SealedCommitment v) = Some v"
  by (rule sealed_commitment.cases [of v]) (simp add: decode_SealedCommitment_def json_SealedCommitment_def zero_SealedCommitment_def SealedCommitment_members decode_struct_object foldO_members)

lemma json_SealedCommitment_not_null [simp]: "json_SealedCommitment v \<noteq> GoNull"
  by (simp add: json_SealedCommitment_def json_object_def)

definition zero_RevealedCommitment :: revealed_commitment where
  "zero_RevealedCommitment =
     \<lparr>sc_Scheme = '''',
      sc_CommitmentHash = zero_Digest,
      sc_Encryption = zero_Encryption,
      sc_KeyHint = '''',
      rc_RevealedAt = '''',
      rc_RevealedKey = ''''\<rparr>"

definition decode_RevealedCommitment_member :: "revealed_commitment \<Rightarrow> string \<times> go_value \<Rightarrow> revealed_commitment option" where
  "decode_RevealedCommitment_member v m =
     (if named m ''scheme'' then map_option (\<lambda>x. v\<lparr>sc_Scheme := x\<rparr>) (decode_string (sc_Scheme v) (snd m))
      else if named m ''commitment_hash'' then map_option (\<lambda>x. v\<lparr>sc_CommitmentHash := x\<rparr>) (decode_Digest (sc_CommitmentHash v) (snd m))
      else if named m ''encryption'' then map_option (\<lambda>x. v\<lparr>sc_Encryption := x\<rparr>) (decode_Encryption (sc_Encryption v) (snd m))
      else if named m ''key_hint'' then map_option (\<lambda>x. v\<lparr>sc_KeyHint := x\<rparr>) (decode_string (sc_KeyHint v) (snd m))
      else if named m ''revealed_at'' then map_option (\<lambda>x. v\<lparr>rc_RevealedAt := x\<rparr>) (decode_string (rc_RevealedAt v) (snd m))
      else if named m ''revealed_key'' then map_option (\<lambda>x. v\<lparr>rc_RevealedKey := x\<rparr>) (decode_string (rc_RevealedKey v) (snd m))
      else None)"

definition decode_RevealedCommitment :: "revealed_commitment \<Rightarrow> go_value \<Rightarrow> revealed_commitment option" where
  "decode_RevealedCommitment = decode_struct decode_RevealedCommitment_member"

lemma RevealedCommitment_members:
  "(member_step decode_RevealedCommitment_member r ''scheme'' (Some (GoString x0)) = Some (r\<lparr>sc_Scheme := x0\<rparr>)) \<and>
   (sc_CommitmentHash r = zero_Digest \<longrightarrow> member_step decode_RevealedCommitment_member r ''commitment_hash'' (Some (json_Digest x1)) = Some (r\<lparr>sc_CommitmentHash := x1\<rparr>)) \<and>
   (sc_Encryption r = zero_Encryption \<longrightarrow> member_step decode_RevealedCommitment_member r ''encryption'' (Some (json_Encryption x2)) = Some (r\<lparr>sc_Encryption := x2\<rparr>)) \<and>
   (member_step decode_RevealedCommitment_member r ''key_hint'' (Some (GoString x3)) = Some (r\<lparr>sc_KeyHint := x3\<rparr>)) \<and>
   (member_step decode_RevealedCommitment_member r ''revealed_at'' (Some (GoString x4)) = Some (r\<lparr>rc_RevealedAt := x4\<rparr>)) \<and>
   (member_step decode_RevealedCommitment_member r ''revealed_key'' (Some (GoString x5)) = Some (r\<lparr>rc_RevealedKey := x5\<rparr>))"
  by ((intro conjI impI)?; simp only: field_names decode_RevealedCommitment_member_def split: option.split; auto)

lemma decode_json_RevealedCommitment [simp]: "decode_RevealedCommitment zero_RevealedCommitment (json_RevealedCommitment v) = Some v"
  by (rule revealed_commitment.cases [of v]) (simp add: decode_RevealedCommitment_def json_RevealedCommitment_def zero_RevealedCommitment_def RevealedCommitment_members decode_struct_object foldO_members)

lemma json_RevealedCommitment_not_null [simp]: "json_RevealedCommitment v \<noteq> GoNull"
  by (simp add: json_RevealedCommitment_def json_object_def)

definition zero_Commitment :: commitment where
  "zero_Commitment = \<lparr>cm_Sealed = None, cm_Revealed = None\<rparr>"

definition member_names :: "go_value \<Rightarrow> string list option" where
  "member_names v = (case v of GoObject ms \<Rightarrow> Some (map fst ms) | GoNull \<Rightarrow> Some [] | _ \<Rightarrow> None)"

lemma member_names_commitment [simp]:
  "member_names (json_SealedCommitment v) = Some [''scheme'', ''commitment_hash'', ''encryption'', ''key_hint'']"
  "member_names (json_RevealedCommitment w) =
     Some [''scheme'', ''commitment_hash'', ''encryption'', ''key_hint'', ''revealed_at'', ''revealed_key'']"
  by (simp_all add: member_names_def json_SealedCommitment_def json_RevealedCommitment_def json_object_def
      json_members_Cons json_members_def map_filter_simps)

definition decode_Commitment :: "commitment \<Rightarrow> go_value \<Rightarrow> commitment option" where
  "decode_Commitment _ v =
     (case member_names v of
        None \<Rightarrow> None
      | Some names \<Rightarrow>
          let hasAt = ''revealed_at'' \<in> set names; hasKey = ''revealed_key'' \<in> set names in
          if hasAt \<noteq> hasKey then None
          else if hasAt
          then map_option (\<lambda>x. zero_Commitment\<lparr>cm_Revealed := Some x\<rparr>) (decode_RevealedCommitment zero_RevealedCommitment v)
          else map_option (\<lambda>x. zero_Commitment\<lparr>cm_Sealed := Some x\<rparr>) (decode_SealedCommitment zero_SealedCommitment v))"

lemma tagged_Commitment_cases: "tagged_Commitment v \<Longrightarrow>
    (\<exists>x. cm_Sealed v = Some x \<and> cm_Revealed v = None) \<or>
    (\<exists>x. cm_Sealed v = None \<and> cm_Revealed v = Some x)"
  by (cases "cm_Sealed v"; cases "cm_Revealed v"; simp add: tagged_Commitment_def one_of_def)

lemma decode_json_Commitment [simp]: "tagged_Commitment v \<Longrightarrow> decode_Commitment zero_Commitment (json_Commitment v) = Some v"
  by (drule tagged_Commitment_cases) (elim disjE exE conjE; auto simp: json_Commitment_def decode_Commitment_def zero_Commitment_def marshalOne_def map_filter_simps Let_def intro: commitment.equality)

lemma json_Commitment_not_null [simp]: "tagged_Commitment v \<Longrightarrow> json_Commitment v \<noteq> GoNull"
  by (drule tagged_Commitment_cases) (elim disjE exE conjE; simp add: json_Commitment_def marshalOne_def map_filter_simps)

definition zero_ActivityCheckpoint :: activity_checkpoint where
  "zero_ActivityCheckpoint =
     \<lparr>ac_ID = '''',
      ac_HeadEventID = '''',
      ac_RecordedAt = '''',
      ac_Integrity = zero_LifecycleIntegrity\<rparr>"

definition decode_ActivityCheckpoint_member :: "activity_checkpoint \<Rightarrow> string \<times> go_value \<Rightarrow> activity_checkpoint option" where
  "decode_ActivityCheckpoint_member v m =
     (if named m ''id'' then map_option (\<lambda>x. v\<lparr>ac_ID := x\<rparr>) (decode_string (ac_ID v) (snd m))
      else if named m ''head_event_id'' then map_option (\<lambda>x. v\<lparr>ac_HeadEventID := x\<rparr>) (decode_string (ac_HeadEventID v) (snd m))
      else if named m ''recorded_at'' then map_option (\<lambda>x. v\<lparr>ac_RecordedAt := x\<rparr>) (decode_string (ac_RecordedAt v) (snd m))
      else if named m ''integrity'' then map_option (\<lambda>x. v\<lparr>ac_Integrity := x\<rparr>) (decode_LifecycleIntegrity (ac_Integrity v) (snd m))
      else None)"

definition decode_ActivityCheckpoint :: "activity_checkpoint \<Rightarrow> go_value \<Rightarrow> activity_checkpoint option" where
  "decode_ActivityCheckpoint = decode_struct decode_ActivityCheckpoint_member"

lemma ActivityCheckpoint_members:
  "(member_step decode_ActivityCheckpoint_member r ''id'' (Some (GoString x0)) = Some (r\<lparr>ac_ID := x0\<rparr>)) \<and>
   (member_step decode_ActivityCheckpoint_member r ''head_event_id'' (Some (GoString x1)) = Some (r\<lparr>ac_HeadEventID := x1\<rparr>)) \<and>
   (member_step decode_ActivityCheckpoint_member r ''recorded_at'' (Some (GoString x2)) = Some (r\<lparr>ac_RecordedAt := x2\<rparr>)) \<and>
   (ac_Integrity r = zero_LifecycleIntegrity \<longrightarrow> tagged_LifecycleIntegrity x3 \<longrightarrow> member_step decode_ActivityCheckpoint_member r ''integrity'' (Some (json_LifecycleIntegrity x3)) = Some (r\<lparr>ac_Integrity := x3\<rparr>))"
  by ((intro conjI impI)?; simp only: field_names decode_ActivityCheckpoint_member_def split: option.split; auto)

lemma decode_json_ActivityCheckpoint [simp]: "tagged_ActivityCheckpoint v \<Longrightarrow> decode_ActivityCheckpoint zero_ActivityCheckpoint (json_ActivityCheckpoint v) = Some v"
  by (rule activity_checkpoint.cases [of v]) (simp add: decode_ActivityCheckpoint_def json_ActivityCheckpoint_def zero_ActivityCheckpoint_def ActivityCheckpoint_members decode_struct_object foldO_members tagged_ActivityCheckpoint_def)

lemma json_ActivityCheckpoint_not_null [simp]: "json_ActivityCheckpoint v \<noteq> GoNull"
  by (simp add: json_ActivityCheckpoint_def json_object_def)

definition zero_Forecast :: forecast where
  "zero_Forecast =
     \<lparr>fo_ID = '''',
      fo_QuestionRevisionID = '''',
      fo_ForecastedAt = '''',
      fo_RecordedAt = '''',
      fo_Visibility = '''',
      fo_Representations = None,
      fo_Rationale = None,
      fo_KeyFactors = None,
      fo_Comment = None,
      fo_PublicNote = None,
      fo_SupersedesForecastID = None,
      fo_Provenance = None,
      fo_LifecycleEvents = None,
      fo_ActivityCheckpoints = None,
      fo_Commitment = None,
      fo_Integrity = zero_Integrity\<rparr>"

definition decode_Forecast_member :: "forecast \<Rightarrow> string \<times> go_value \<Rightarrow> forecast option" where
  "decode_Forecast_member v m =
     (if named m ''id'' then map_option (\<lambda>x. v\<lparr>fo_ID := x\<rparr>) (decode_string (fo_ID v) (snd m))
      else if named m ''question_revision_id'' then map_option (\<lambda>x. v\<lparr>fo_QuestionRevisionID := x\<rparr>) (decode_string (fo_QuestionRevisionID v) (snd m))
      else if named m ''forecasted_at'' then map_option (\<lambda>x. v\<lparr>fo_ForecastedAt := x\<rparr>) (decode_string (fo_ForecastedAt v) (snd m))
      else if named m ''recorded_at'' then map_option (\<lambda>x. v\<lparr>fo_RecordedAt := x\<rparr>) (decode_string (fo_RecordedAt v) (snd m))
      else if named m ''visibility'' then map_option (\<lambda>x. v\<lparr>fo_Visibility := x\<rparr>) (decode_string (fo_Visibility v) (snd m))
      else if named m ''representations'' then map_option (\<lambda>x. v\<lparr>fo_Representations := x\<rparr>) ((decode_pointer (decode_slice decode_ForecastRepresentation zero_ForecastRepresentation) []) (fo_Representations v) (snd m))
      else if named m ''rationale'' then map_option (\<lambda>x. v\<lparr>fo_Rationale := x\<rparr>) ((decode_pointer decode_string '''') (fo_Rationale v) (snd m))
      else if named m ''key_factors'' then map_option (\<lambda>x. v\<lparr>fo_KeyFactors := x\<rparr>) ((decode_pointer (decode_slice decode_string '''') []) (fo_KeyFactors v) (snd m))
      else if named m ''comment'' then map_option (\<lambda>x. v\<lparr>fo_Comment := x\<rparr>) ((decode_pointer decode_string '''') (fo_Comment v) (snd m))
      else if named m ''public_note'' then map_option (\<lambda>x. v\<lparr>fo_PublicNote := x\<rparr>) ((decode_pointer decode_string '''') (fo_PublicNote v) (snd m))
      else if named m ''supersedes_forecast_id'' then map_option (\<lambda>x. v\<lparr>fo_SupersedesForecastID := x\<rparr>) ((decode_pointer decode_string '''') (fo_SupersedesForecastID v) (snd m))
      else if named m ''provenance'' then map_option (\<lambda>x. v\<lparr>fo_Provenance := x\<rparr>) ((decode_pointer decode_Provenance zero_Provenance) (fo_Provenance v) (snd m))
      else if named m ''lifecycle_events'' then map_option (\<lambda>x. v\<lparr>fo_LifecycleEvents := x\<rparr>) ((decode_pointer (decode_slice decode_LifecycleEvent zero_LifecycleEvent) []) (fo_LifecycleEvents v) (snd m))
      else if named m ''activity_checkpoints'' then map_option (\<lambda>x. v\<lparr>fo_ActivityCheckpoints := x\<rparr>) ((decode_pointer (decode_slice decode_ActivityCheckpoint zero_ActivityCheckpoint) []) (fo_ActivityCheckpoints v) (snd m))
      else if named m ''commitment'' then map_option (\<lambda>x. v\<lparr>fo_Commitment := x\<rparr>) ((decode_pointer decode_Commitment zero_Commitment) (fo_Commitment v) (snd m))
      else if named m ''integrity'' then map_option (\<lambda>x. v\<lparr>fo_Integrity := x\<rparr>) (decode_Integrity (fo_Integrity v) (snd m))
      else None)"

definition decode_Forecast :: "forecast \<Rightarrow> go_value \<Rightarrow> forecast option" where
  "decode_Forecast = decode_struct decode_Forecast_member"

lemma Forecast_members:
  "(member_step decode_Forecast_member r ''id'' (Some (GoString x0)) = Some (r\<lparr>fo_ID := x0\<rparr>)) \<and>
   (member_step decode_Forecast_member r ''question_revision_id'' (Some (GoString x1)) = Some (r\<lparr>fo_QuestionRevisionID := x1\<rparr>)) \<and>
   (member_step decode_Forecast_member r ''forecasted_at'' (Some (GoString x2)) = Some (r\<lparr>fo_ForecastedAt := x2\<rparr>)) \<and>
   (member_step decode_Forecast_member r ''recorded_at'' (Some (GoString x3)) = Some (r\<lparr>fo_RecordedAt := x3\<rparr>)) \<and>
   (member_step decode_Forecast_member r ''visibility'' (Some (GoString x4)) = Some (r\<lparr>fo_Visibility := x4\<rparr>)) \<and>
   (fo_Representations r = None \<longrightarrow> pred_option (\<lambda>y. (\<forall>y\<in>set y. tagged_ForecastRepresentation y)) x5 \<longrightarrow> member_step decode_Forecast_member r ''representations'' (map_option (GoArray \<circ> map json_ForecastRepresentation) x5) = Some (r\<lparr>fo_Representations := x5\<rparr>)) \<and>
   (fo_Rationale r = None \<longrightarrow> member_step decode_Forecast_member r ''rationale'' (map_option GoString x6) = Some (r\<lparr>fo_Rationale := x6\<rparr>)) \<and>
   (fo_KeyFactors r = None \<longrightarrow> member_step decode_Forecast_member r ''key_factors'' (map_option (GoArray \<circ> map GoString) x7) = Some (r\<lparr>fo_KeyFactors := x7\<rparr>)) \<and>
   (fo_Comment r = None \<longrightarrow> member_step decode_Forecast_member r ''comment'' (map_option GoString x8) = Some (r\<lparr>fo_Comment := x8\<rparr>)) \<and>
   (fo_PublicNote r = None \<longrightarrow> member_step decode_Forecast_member r ''public_note'' (map_option GoString x9) = Some (r\<lparr>fo_PublicNote := x9\<rparr>)) \<and>
   (fo_SupersedesForecastID r = None \<longrightarrow> member_step decode_Forecast_member r ''supersedes_forecast_id'' (map_option GoString x10) = Some (r\<lparr>fo_SupersedesForecastID := x10\<rparr>)) \<and>
   (fo_Provenance r = None \<longrightarrow> member_step decode_Forecast_member r ''provenance'' (map_option json_Provenance x11) = Some (r\<lparr>fo_Provenance := x11\<rparr>)) \<and>
   (fo_LifecycleEvents r = None \<longrightarrow> member_step decode_Forecast_member r ''lifecycle_events'' (map_option (GoArray \<circ> map json_LifecycleEvent) x12) = Some (r\<lparr>fo_LifecycleEvents := x12\<rparr>)) \<and>
   (fo_ActivityCheckpoints r = None \<longrightarrow> pred_option (\<lambda>y. (\<forall>y\<in>set y. tagged_ActivityCheckpoint y)) x13 \<longrightarrow> member_step decode_Forecast_member r ''activity_checkpoints'' (map_option (GoArray \<circ> map json_ActivityCheckpoint) x13) = Some (r\<lparr>fo_ActivityCheckpoints := x13\<rparr>)) \<and>
   (fo_Commitment r = None \<longrightarrow> pred_option (\<lambda>y. tagged_Commitment y) x14 \<longrightarrow> member_step decode_Forecast_member r ''commitment'' (map_option json_Commitment x14) = Some (r\<lparr>fo_Commitment := x14\<rparr>)) \<and>
   (fo_Integrity r = zero_Integrity \<longrightarrow> tagged_Integrity x15 \<longrightarrow> member_step decode_Forecast_member r ''integrity'' (Some (json_Integrity x15)) = Some (r\<lparr>fo_Integrity := x15\<rparr>))"
  by ((intro conjI impI)?; simp only: field_names decode_Forecast_member_def split: option.split; auto)

lemma decode_json_Forecast [simp]: "tagged_Forecast v \<Longrightarrow> decode_Forecast zero_Forecast (json_Forecast v) = Some v"
  by (rule forecast.cases [of v]) (simp add: decode_Forecast_def json_Forecast_def zero_Forecast_def Forecast_members decode_struct_object foldO_members tagged_Forecast_def)

lemma json_Forecast_not_null [simp]: "json_Forecast v \<noteq> GoNull"
  by (simp add: json_Forecast_def json_object_def)

definition zero_Question :: question where
  "zero_Question =
     \<lparr>qu_ID = '''',
      qu_Status = '''',
      qu_CreatedAt = '''',
      qu_CurrentRevisionID = '''',
      qu_Revisions = [],
      qu_Tags = None,
      qu_Notes = None,
      qu_Forecasts = [],
      qu_Resolution = None\<rparr>"

definition decode_Question_member :: "question \<Rightarrow> string \<times> go_value \<Rightarrow> question option" where
  "decode_Question_member v m =
     (if named m ''id'' then map_option (\<lambda>x. v\<lparr>qu_ID := x\<rparr>) (decode_string (qu_ID v) (snd m))
      else if named m ''status'' then map_option (\<lambda>x. v\<lparr>qu_Status := x\<rparr>) (decode_string (qu_Status v) (snd m))
      else if named m ''created_at'' then map_option (\<lambda>x. v\<lparr>qu_CreatedAt := x\<rparr>) (decode_string (qu_CreatedAt v) (snd m))
      else if named m ''current_revision_id'' then map_option (\<lambda>x. v\<lparr>qu_CurrentRevisionID := x\<rparr>) (decode_string (qu_CurrentRevisionID v) (snd m))
      else if named m ''revisions'' then map_option (\<lambda>x. v\<lparr>qu_Revisions := x\<rparr>) ((decode_slice decode_QuestionRevision zero_QuestionRevision) (qu_Revisions v) (snd m))
      else if named m ''tags'' then map_option (\<lambda>x. v\<lparr>qu_Tags := x\<rparr>) ((decode_pointer (decode_slice decode_string '''') []) (qu_Tags v) (snd m))
      else if named m ''notes'' then map_option (\<lambda>x. v\<lparr>qu_Notes := x\<rparr>) ((decode_pointer decode_string '''') (qu_Notes v) (snd m))
      else if named m ''forecasts'' then map_option (\<lambda>x. v\<lparr>qu_Forecasts := x\<rparr>) ((decode_slice decode_Forecast zero_Forecast) (qu_Forecasts v) (snd m))
      else if named m ''resolution'' then map_option (\<lambda>x. v\<lparr>qu_Resolution := x\<rparr>) ((decode_pointer decode_Resolution zero_Resolution) (qu_Resolution v) (snd m))
      else None)"

definition decode_Question :: "question \<Rightarrow> go_value \<Rightarrow> question option" where
  "decode_Question = decode_struct decode_Question_member"

lemma Question_members:
  "(member_step decode_Question_member r ''id'' (Some (GoString x0)) = Some (r\<lparr>qu_ID := x0\<rparr>)) \<and>
   (member_step decode_Question_member r ''status'' (Some (GoString x1)) = Some (r\<lparr>qu_Status := x1\<rparr>)) \<and>
   (member_step decode_Question_member r ''created_at'' (Some (GoString x2)) = Some (r\<lparr>qu_CreatedAt := x2\<rparr>)) \<and>
   (member_step decode_Question_member r ''current_revision_id'' (Some (GoString x3)) = Some (r\<lparr>qu_CurrentRevisionID := x3\<rparr>)) \<and>
   ((\<forall>y\<in>set x4. tagged_QuestionRevision y) \<longrightarrow> member_step decode_Question_member r ''revisions'' (Some (GoArray (map json_QuestionRevision x4))) = Some (r\<lparr>qu_Revisions := x4\<rparr>)) \<and>
   (qu_Tags r = None \<longrightarrow> member_step decode_Question_member r ''tags'' (map_option (GoArray \<circ> map GoString) x5) = Some (r\<lparr>qu_Tags := x5\<rparr>)) \<and>
   (qu_Notes r = None \<longrightarrow> member_step decode_Question_member r ''notes'' (map_option GoString x6) = Some (r\<lparr>qu_Notes := x6\<rparr>)) \<and>
   ((\<forall>y\<in>set x7. tagged_Forecast y) \<longrightarrow> member_step decode_Question_member r ''forecasts'' (Some (GoArray (map json_Forecast x7))) = Some (r\<lparr>qu_Forecasts := x7\<rparr>)) \<and>
   (qu_Resolution r = None \<longrightarrow> pred_option (\<lambda>y. tagged_Resolution y) x8 \<longrightarrow> member_step decode_Question_member r ''resolution'' (map_option json_Resolution x8) = Some (r\<lparr>qu_Resolution := x8\<rparr>))"
  by ((intro conjI impI)?; simp only: field_names decode_Question_member_def split: option.split; auto)

lemma decode_json_Question [simp]: "tagged_Question v \<Longrightarrow> decode_Question zero_Question (json_Question v) = Some v"
  by (rule question.cases [of v]) (simp add: decode_Question_def json_Question_def zero_Question_def Question_members decode_struct_object foldO_members tagged_Question_def)

lemma json_Question_not_null [simp]: "json_Question v \<noteq> GoNull"
  by (simp add: json_Question_def json_object_def)

definition zero_Ledger :: ledger where
  "zero_Ledger =
     \<lparr>lg_Schema = None,
      lg_SchemaVersion = '''',
      lg_LedgerID = '''',
      lg_Title = None,
      lg_Description = None,
      lg_CreatedAt = '''',
      lg_DefaultTimezone = '''',
      lg_Forecaster = zero_Forecaster,
      lg_Publication = None,
      lg_Platforms = [],
      lg_Groups = None,
      lg_Relationships = None,
      lg_Questions = []\<rparr>"

definition decode_Ledger_member :: "ledger \<Rightarrow> string \<times> go_value \<Rightarrow> ledger option" where
  "decode_Ledger_member v m =
     (if named m ''$schema'' then map_option (\<lambda>x. v\<lparr>lg_Schema := x\<rparr>) ((decode_pointer decode_string '''') (lg_Schema v) (snd m))
      else if named m ''schema_version'' then map_option (\<lambda>x. v\<lparr>lg_SchemaVersion := x\<rparr>) (decode_string (lg_SchemaVersion v) (snd m))
      else if named m ''ledger_id'' then map_option (\<lambda>x. v\<lparr>lg_LedgerID := x\<rparr>) (decode_string (lg_LedgerID v) (snd m))
      else if named m ''title'' then map_option (\<lambda>x. v\<lparr>lg_Title := x\<rparr>) ((decode_pointer decode_string '''') (lg_Title v) (snd m))
      else if named m ''description'' then map_option (\<lambda>x. v\<lparr>lg_Description := x\<rparr>) ((decode_pointer decode_string '''') (lg_Description v) (snd m))
      else if named m ''created_at'' then map_option (\<lambda>x. v\<lparr>lg_CreatedAt := x\<rparr>) (decode_string (lg_CreatedAt v) (snd m))
      else if named m ''default_timezone'' then map_option (\<lambda>x. v\<lparr>lg_DefaultTimezone := x\<rparr>) (decode_string (lg_DefaultTimezone v) (snd m))
      else if named m ''forecaster'' then map_option (\<lambda>x. v\<lparr>lg_Forecaster := x\<rparr>) (decode_Forecaster (lg_Forecaster v) (snd m))
      else if named m ''publication'' then map_option (\<lambda>x. v\<lparr>lg_Publication := x\<rparr>) ((decode_pointer decode_Publication zero_Publication) (lg_Publication v) (snd m))
      else if named m ''platforms'' then map_option (\<lambda>x. v\<lparr>lg_Platforms := x\<rparr>) ((decode_map decode_Platform zero_Platform) (lg_Platforms v) (snd m))
      else if named m ''groups'' then map_option (\<lambda>x. v\<lparr>lg_Groups := x\<rparr>) ((decode_pointer (decode_slice decode_Group zero_Group) []) (lg_Groups v) (snd m))
      else if named m ''relationships'' then map_option (\<lambda>x. v\<lparr>lg_Relationships := x\<rparr>) ((decode_pointer (decode_slice decode_Relationship zero_Relationship) []) (lg_Relationships v) (snd m))
      else if named m ''questions'' then map_option (\<lambda>x. v\<lparr>lg_Questions := x\<rparr>) ((decode_slice decode_Question zero_Question) (lg_Questions v) (snd m))
      else None)"

definition decode_Ledger :: "ledger \<Rightarrow> go_value \<Rightarrow> ledger option" where
  "decode_Ledger = decode_struct decode_Ledger_member"

lemma Ledger_members:
  "(lg_Schema r = None \<longrightarrow> member_step decode_Ledger_member r ''$schema'' (map_option GoString x0) = Some (r\<lparr>lg_Schema := x0\<rparr>)) \<and>
   (member_step decode_Ledger_member r ''schema_version'' (Some (GoString x1)) = Some (r\<lparr>lg_SchemaVersion := x1\<rparr>)) \<and>
   (member_step decode_Ledger_member r ''ledger_id'' (Some (GoString x2)) = Some (r\<lparr>lg_LedgerID := x2\<rparr>)) \<and>
   (lg_Title r = None \<longrightarrow> member_step decode_Ledger_member r ''title'' (map_option GoString x3) = Some (r\<lparr>lg_Title := x3\<rparr>)) \<and>
   (lg_Description r = None \<longrightarrow> member_step decode_Ledger_member r ''description'' (map_option GoString x4) = Some (r\<lparr>lg_Description := x4\<rparr>)) \<and>
   (member_step decode_Ledger_member r ''created_at'' (Some (GoString x5)) = Some (r\<lparr>lg_CreatedAt := x5\<rparr>)) \<and>
   (member_step decode_Ledger_member r ''default_timezone'' (Some (GoString x6)) = Some (r\<lparr>lg_DefaultTimezone := x6\<rparr>)) \<and>
   (lg_Forecaster r = zero_Forecaster \<longrightarrow> member_step decode_Ledger_member r ''forecaster'' (Some (json_Forecaster x7)) = Some (r\<lparr>lg_Forecaster := x7\<rparr>)) \<and>
   (lg_Publication r = None \<longrightarrow> member_step decode_Ledger_member r ''publication'' (map_option json_Publication x8) = Some (r\<lparr>lg_Publication := x8\<rparr>)) \<and>
   (lg_Platforms r = [] \<and> sorted_wrt (<) (map fst x9) \<longrightarrow> member_step decode_Ledger_member r ''platforms'' (Some (GoObject (map (map_prod id json_Platform) x9))) = Some (r\<lparr>lg_Platforms := x9\<rparr>)) \<and>
   (lg_Groups r = None \<longrightarrow> member_step decode_Ledger_member r ''groups'' (map_option (GoArray \<circ> map json_Group) x10) = Some (r\<lparr>lg_Groups := x10\<rparr>)) \<and>
   (lg_Relationships r = None \<longrightarrow> pred_option (\<lambda>y. (\<forall>y\<in>set y. tagged_Relationship y)) x11 \<longrightarrow> member_step decode_Ledger_member r ''relationships'' (map_option (GoArray \<circ> map json_Relationship) x11) = Some (r\<lparr>lg_Relationships := x11\<rparr>)) \<and>
   ((\<forall>y\<in>set x12. tagged_Question y) \<longrightarrow> member_step decode_Ledger_member r ''questions'' (Some (GoArray (map json_Question x12))) = Some (r\<lparr>lg_Questions := x12\<rparr>))"
  by ((intro conjI impI)?; simp only: field_names decode_Ledger_member_def split: option.split; auto)

lemma decode_json_Ledger [simp]: "tagged_Ledger v \<Longrightarrow> decode_Ledger zero_Ledger (json_Ledger v) = Some v"
  by (rule ledger.cases [of v]) (simp add: decode_Ledger_def json_Ledger_def zero_Ledger_def Ledger_members decode_struct_object foldO_members tagged_Ledger_def)

lemma json_Ledger_not_null [simp]: "json_Ledger v \<noteq> GoNull"
  by (simp add: json_Ledger_def json_object_def)

section \<open>Clone\<close>

datatype clone_error = MarshalClone | UnmarshalClone

text \<open>\<open>Clone\<close> marshals a ledger and reads the bytes into a new one; a nil pointer stays nil.\<close>

definition Clone :: "ledger option \<Rightarrow> clone_error + ledger option" where
  "Clone source =
     (case source of
        None \<Rightarrow> Inr None
      | Some l \<Rightarrow>
          (case json_Marshal (json_Ledger l) of
             None \<Rightarrow> Inl MarshalClone
           | Some data \<Rightarrow>
               (case Option.bind (json_Unmarshal data) (decode_Ledger zero_Ledger) of
                  None \<Rightarrow> Inl UnmarshalClone
                | Some result \<Rightarrow> Inr (Some result))))"

lemma ledger_reads_back:
  assumes "tagged_Ledger l" "supported (json_Ledger l)" "json_depth (json_Ledger l) \<le> 10000"
  shows "json_Marshal (json_Ledger l) = Some (encq go_quote (json_Ledger l))"
    "Option.bind (json_Unmarshal (encq go_quote (json_Ledger l))) (decode_Ledger zero_Ledger) = Some l"
proof -
  have "distinct (map fst (lg_Platforms l))" using assms(1) by (simp add: tagged_Ledger_def strict_sorted_iff)
  then have "struct_value (json_Ledger l)" using assms(2) tidy_json_Ledger [of l] by (simp add: struct_value_def tidy_def)
  from json_Unmarshal_encoded [OF this assms(3)]
  show "Option.bind (json_Unmarshal (encq go_quote (json_Ledger l))) (decode_Ledger zero_Ledger) = Some l"
    using assms(1) by simp
  show "json_Marshal (json_Ledger l) = Some (encq go_quote (json_Ledger l))"
    using supported_marshals [OF assms(2)] by (simp add: json_Marshal_def)
qed

text \<open>
  C13: a ledger survives its own JSON.  For a ledger whose unions carry the variant their
  discriminator names, whose platforms are listed by key and whose strings are valid text, \<open>Clone\<close>
  returns the ledger itself: every field, every optional field that is absent, every order and
  every spelling is kept.
\<close>

theorem Clone_identity:
  assumes "tagged_Ledger l" "supported (json_Ledger l)" "json_depth (json_Ledger l) \<le> 10000"
  shows "Clone (Some l) = Inr (Some l)"
  using ledger_reads_back [OF assms] by (simp add: Clone_def)

theorem Clone_identity_witness: "Clone (Some example_ledger) = Inr (Some example_ledger)"
proof (rule Clone_identity)
  show "tagged_Ledger example_ledger" by code_simp
  show "supported (json_Ledger example_ledger)" by code_simp
  show "json_depth (json_Ledger example_ledger) \<le> 10000" by code_simp
qed

end
