(* ===== verification/Sealed_Forecasts.thy ===== *)
theory Sealed_Forecasts
  imports Struct_Decoding Go_Crypto Example_Ledger
begin

text \<open>
  \<open>internal/forecastcrypto\<close>: sealing the private part of a forecast, its key file, and opening
  a sealed or a revealed forecast.  The authenticated cipher (the package \<open>chacha20poly1305\<close>) and
  the entropy source are parameters; SHA-256, hexadecimal and base64 are computed.
\<close>

section \<open>Parameters\<close>

text \<open>The cipher: an error of \<open>New\<close> for a key, \<open>Seal\<close> and \<open>Open\<close> on key, nonce, text and associated data.\<close>

record aead =
  ae_New :: "string \<Rightarrow> string option"
  ae_Seal :: "string \<Rightarrow> string \<Rightarrow> string \<Rightarrow> string \<Rightarrow> string"
  ae_Open :: "string \<Rightarrow> string \<Rightarrow> string \<Rightarrow> string \<Rightarrow> string option"

abbreviation "KeySize \<equiv> (32::nat)"
abbreviation "NonceSize \<equiv> (12::nat)"
abbreviation "Overhead \<equiv> (16::nat)"

text \<open>What the package documents: keys of 32 bytes are accepted, and opening inverts sealing.\<close>

definition aead_documented :: "aead \<Rightarrow> bool" where
  "aead_documented A \<longleftrightarrow>
     (\<forall>key. length key = KeySize \<longrightarrow> ae_New A key = None) \<and>
     (\<forall>key nonce text aad. length key = KeySize \<longrightarrow> length nonce = NonceSize \<longrightarrow>
        length (ae_Seal A key nonce text aad) = length text + Overhead \<and>
        ae_Open A key nonce (ae_Seal A key nonce text aad) aad = Some text)"

text \<open>An entropy source fills a buffer of the length asked for, or fails; it has a state of its own.\<close>

type_synonym 'e entropy = "'e \<Rightarrow> nat \<Rightarrow> (string + string) \<times> 'e"

definition fills :: "'e entropy \<Rightarrow> bool" where
  "fills entropy \<longleftrightarrow> (\<forall>e n s e'. entropy e n = (Inr s, e') \<longrightarrow> length s = n)"

section \<open>Failures\<close>

abbreviation "SealScheme \<equiv> ''forecast-seal/v3''"
abbreviation "KeyFileSchema \<equiv> ''forecast-key/v3''"
abbreviation "EncryptionProfile \<equiv> ''chacha20-poly1305''"

abbreviation "StageKeyFileInvalid \<equiv> ''reveal.key_file_invalid''"
abbreviation "StageKeyFileBindingFailed \<equiv> ''reveal.key_file_binding_failed''"
abbreviation "StageCommitmentMalformed \<equiv> ''reveal.commitment_malformed''"
abbreviation "StageAlgorithmUnsupported \<equiv> ''reveal.algorithm_unsupported''"
abbreviation "StageNonceEncodingInvalid \<equiv> ''reveal.nonce_encoding_invalid''"
abbreviation "StageCiphertextEncodingInvalid \<equiv> ''reveal.ciphertext_encoding_invalid''"
abbreviation "StageAuthenticationFailed \<equiv> ''reveal.authentication_failed''"
abbreviation "StageCommitmentDigestMismatch \<equiv> ''reveal.commitment_digest_mismatch''"
abbreviation "StageBundleProfileMismatch \<equiv> ''reveal.bundle_profile_mismatch''"

datatype crypto_error =
    StageFailure string
  | CryptoMessage string
  | EntropyError string
  | CanonicalError canonical_error
  | AssociatedDataError string
  | CipherError string
  | ErrRevealVerification crypto_error

fun FailureStageOf :: "crypto_error \<Rightarrow> string" where
  "FailureStageOf (StageFailure stage) = stage"
| "FailureStageOf (ErrRevealVerification e) = FailureStageOf e"
| "FailureStageOf _ = []"

section \<open>Structs\<close>

definition json_PrivateBundle :: "private_bundle \<Rightarrow> go_value" where
  "json_PrivateBundle v = json_object
     [(''representations'', Some (case bu_Representations v of
         None \<Rightarrow> GoNull | Some rs \<Rightarrow> GoArray (map json_ForecastRepresentation rs))),
      (''rationale'', map_option GoString (bu_Rationale v)),
      (''key_factors'', map_option (GoArray \<circ> map GoString) (bu_KeyFactors v)),
      (''comment'', map_option GoString (bu_Comment v))]"

record sealed_plaintext =
  sp_Schema :: string
  sp_QuestionID :: slug
  sp_QuestionRevisionID :: slug
  sp_ForecastID :: slug
  sp_Bundle :: private_bundle
  sp_Salt :: string

definition json_sealedPlaintext :: "sealed_plaintext \<Rightarrow> go_value" where
  "json_sealedPlaintext v = json_object
     [(''schema'', Some (GoString (sp_Schema v))),
      (''question_id'', Some (GoString (sp_QuestionID v))),
      (''question_revision_id'', Some (GoString (sp_QuestionRevisionID v))),
      (''forecast_id'', Some (GoString (sp_ForecastID v))),
      (''bundle'', Some (json_PrivateBundle (sp_Bundle v))),
      (''salt'', Some (GoString (sp_Salt v)))]"

record key_file =
  kf_Schema :: string
  kf_QuestionID :: string
  kf_QuestionRevisionID :: string
  kf_ForecastID :: string
  kf_CommitmentSHA256 :: string
  kf_KeyHex :: string

definition json_KeyFile :: "key_file \<Rightarrow> go_value" where
  "json_KeyFile v = json_object
     [(''schema'', Some (GoString (kf_Schema v))),
      (''question_id'', Some (GoString (kf_QuestionID v))),
      (''question_revision_id'', Some (GoString (kf_QuestionRevisionID v))),
      (''forecast_id'', Some (GoString (kf_ForecastID v))),
      (''commitment_sha256'', Some (GoString (kf_CommitmentSHA256 v))),
      (''key_hex'', Some (GoString (kf_KeyHex v)))]"

record seal_result =
  sr_Commitment :: sealed_commitment
  sr_KeyFile :: string

record open_result =
  or_Bundle :: private_bundle
  or_Plaintext :: string
  or_KeyHex :: string

record revealed_payload =
  rv_Schema :: string
  rv_QuestionID :: slug
  rv_QuestionRevisionID :: slug
  rv_ForecastID :: slug
  rv_Bundle :: private_bundle
  rv_Plaintext :: string

subsection \<open>Decoders\<close>

definition zero_PrivateBundle :: private_bundle where
  "zero_PrivateBundle = \<lparr>bu_Representations = None, bu_Rationale = None, bu_KeyFactors = None, bu_Comment = None\<rparr>"

definition zero_sealedPlaintext :: sealed_plaintext where
  "zero_sealedPlaintext =
     \<lparr>sp_Schema = [], sp_QuestionID = [], sp_QuestionRevisionID = [], sp_ForecastID = [],
      sp_Bundle = zero_PrivateBundle, sp_Salt = []\<rparr>"

definition zero_KeyFile :: key_file where
  "zero_KeyFile =
     \<lparr>kf_Schema = [], kf_QuestionID = [], kf_QuestionRevisionID = [], kf_ForecastID = [],
      kf_CommitmentSHA256 = [], kf_KeyHex = []\<rparr>"

text \<open>A slice that may be nil.\<close>

definition decode_nil_slice :: "('a \<Rightarrow> go_value \<Rightarrow> 'a option) \<Rightarrow> 'a \<Rightarrow> 'a list option \<Rightarrow> go_value \<Rightarrow> 'a list option option" where
  "decode_nil_slice d zero prev v =
     (case v of GoArray vs \<Rightarrow> map_option Some (mapO (d zero) vs) | GoNull \<Rightarrow> Some None | _ \<Rightarrow> None)"

definition decode_PrivateBundle_member :: "private_bundle \<Rightarrow> string \<times> go_value \<Rightarrow> private_bundle option" where
  "decode_PrivateBundle_member v m =
     (if named m ''representations'' then map_option (\<lambda>x. v\<lparr>bu_Representations := x\<rparr>)
        (decode_nil_slice decode_ForecastRepresentation zero_ForecastRepresentation (bu_Representations v) (snd m))
      else if named m ''rationale'' then map_option (\<lambda>x. v\<lparr>bu_Rationale := x\<rparr>) (decode_pointer decode_string [] (bu_Rationale v) (snd m))
      else if named m ''key_factors'' then map_option (\<lambda>x. v\<lparr>bu_KeyFactors := x\<rparr>)
        (decode_pointer (decode_slice decode_string []) [] (bu_KeyFactors v) (snd m))
      else if named m ''comment'' then map_option (\<lambda>x. v\<lparr>bu_Comment := x\<rparr>) (decode_pointer decode_string [] (bu_Comment v) (snd m))
      else None)"

definition decode_PrivateBundle :: "private_bundle \<Rightarrow> go_value \<Rightarrow> private_bundle option" where
  "decode_PrivateBundle = decode_struct decode_PrivateBundle_member"

definition decode_sealedPlaintext_member :: "sealed_plaintext \<Rightarrow> string \<times> go_value \<Rightarrow> sealed_plaintext option" where
  "decode_sealedPlaintext_member v m =
     (if named m ''schema'' then map_option (\<lambda>x. v\<lparr>sp_Schema := x\<rparr>) (decode_string (sp_Schema v) (snd m))
      else if named m ''question_id'' then map_option (\<lambda>x. v\<lparr>sp_QuestionID := x\<rparr>) (decode_string (sp_QuestionID v) (snd m))
      else if named m ''question_revision_id'' then map_option (\<lambda>x. v\<lparr>sp_QuestionRevisionID := x\<rparr>) (decode_string (sp_QuestionRevisionID v) (snd m))
      else if named m ''forecast_id'' then map_option (\<lambda>x. v\<lparr>sp_ForecastID := x\<rparr>) (decode_string (sp_ForecastID v) (snd m))
      else if named m ''bundle'' then map_option (\<lambda>x. v\<lparr>sp_Bundle := x\<rparr>) (decode_PrivateBundle (sp_Bundle v) (snd m))
      else if named m ''salt'' then map_option (\<lambda>x. v\<lparr>sp_Salt := x\<rparr>) (decode_string (sp_Salt v) (snd m))
      else None)"

definition decode_sealedPlaintext :: "sealed_plaintext \<Rightarrow> go_value \<Rightarrow> sealed_plaintext option" where
  "decode_sealedPlaintext = decode_struct decode_sealedPlaintext_member"

definition decode_KeyFile_member :: "key_file \<Rightarrow> string \<times> go_value \<Rightarrow> key_file option" where
  "decode_KeyFile_member v m =
     (if named m ''schema'' then map_option (\<lambda>x. v\<lparr>kf_Schema := x\<rparr>) (decode_string (kf_Schema v) (snd m))
      else if named m ''question_id'' then map_option (\<lambda>x. v\<lparr>kf_QuestionID := x\<rparr>) (decode_string (kf_QuestionID v) (snd m))
      else if named m ''question_revision_id'' then map_option (\<lambda>x. v\<lparr>kf_QuestionRevisionID := x\<rparr>) (decode_string (kf_QuestionRevisionID v) (snd m))
      else if named m ''forecast_id'' then map_option (\<lambda>x. v\<lparr>kf_ForecastID := x\<rparr>) (decode_string (kf_ForecastID v) (snd m))
      else if named m ''commitment_sha256'' then map_option (\<lambda>x. v\<lparr>kf_CommitmentSHA256 := x\<rparr>) (decode_string (kf_CommitmentSHA256 v) (snd m))
      else if named m ''key_hex'' then map_option (\<lambda>x. v\<lparr>kf_KeyHex := x\<rparr>) (decode_string (kf_KeyHex v) (snd m))
      else None)"

definition decode_KeyFile :: "key_file \<Rightarrow> go_value \<Rightarrow> key_file option" where
  "decode_KeyFile = decode_struct decode_KeyFile_member"

section \<open>Operations\<close>

definition validHex32 :: "string \<Rightarrow> bool" where
  "validHex32 s =
     (case hex_DecodeString s of None \<Rightarrow> False | Some decoded \<Rightarrow> length decoded = 32 \<and> s = hex_EncodeToString decoded)"

definition no_representations :: "private_bundle \<Rightarrow> bool" where
  "no_representations bundle = (case bu_Representations bundle of None \<Rightarrow> True | Some rs \<Rightarrow> rs = [])"

definition empty_key_factor :: "private_bundle \<Rightarrow> bool" where
  "empty_key_factor bundle = (case bu_KeyFactors bundle of None \<Rightarrow> False | Some factors \<Rightarrow> [] \<in> set factors)"

definition sealAAD :: "slug \<Rightarrow> slug \<Rightarrow> slug \<Rightarrow> string \<Rightarrow> crypto_error + string" where
  "sealAAD questionID revisionID forecastID digest =
     (case Marshal (GoObject
        [(''scheme'', GoString SealScheme), (''question_id'', GoString questionID),
         (''question_revision_id'', GoString revisionID), (''forecast_id'', GoString forecastID),
         (''commitment_sha256'', GoString digest)]) of
        Inl e \<Rightarrow> Inl (AssociatedDataError e)
      | Inr result \<Rightarrow> Inr result)"

definition canonical :: "go_value \<Rightarrow> crypto_error + string" where
  "canonical v = (case canonicalJSON v of Inl e \<Rightarrow> Inl (CanonicalError e) | Inr s \<Rightarrow> Inr s)"

definition newline :: char where
  "newline = char_of (10::nat)"

definition EncodeKeyFile :: "slug \<Rightarrow> slug \<Rightarrow> slug \<Rightarrow> string \<Rightarrow> string \<Rightarrow> crypto_error + string" where
  "EncodeKeyFile questionID revisionID forecastID commitmentSHA256 key =
     (if length key \<noteq> KeySize then Inl (CryptoMessage ''key must contain exactly 32 bytes'')
      else if \<not> validHex32 commitmentSHA256 then Inl (CryptoMessage ''commitment digest must be lowercase SHA-256 hex'')
      else
        bindR (canonical (json_KeyFile
          \<lparr>kf_Schema = KeyFileSchema, kf_QuestionID = questionID, kf_QuestionRevisionID = revisionID,
           kf_ForecastID = forecastID, kf_CommitmentSHA256 = commitmentSHA256,
           kf_KeyHex = hex_EncodeToString key\<rparr>)) (\<lambda>encoded.
        Inr (encoded @ [newline])))"

definition key_file_limits :: limits where
  "key_file_limits = \<lparr>lm_MaxBytes = 4096, lm_MaxDepth = 8, lm_MaxNodes = 16, lm_MaxScalarBytes = 256\<rparr>"

text \<open>A document that is its own canonical form; the reader that decodes it next sees the same value.\<close>

definition canonical_document :: "string \<Rightarrow> limits \<Rightarrow> go_value option" where
  "canonical_document data l =
     (case ParseJSON (Inr data) l of
        Inl _ \<Rightarrow> None
      | Inr parsed \<Rightarrow>
          (case Marshal (Any parsed) of
             Inl _ \<Rightarrow> None
           | Inr canonicalBytes \<Rightarrow> if canonicalBytes \<noteq> data then None else Some (Any parsed)))"

definition DecodeKeyFile :: "string \<Rightarrow> slug \<Rightarrow> slug \<Rightarrow> slug \<Rightarrow> string \<Rightarrow> crypto_error + key_file" where
  "DecodeKeyFile data questionID revisionID forecastID commitmentSHA256 =
     (if data = [] \<or> length data > 4096 \<or> List.last data \<noteq> newline \<or> newline \<in> set (butlast data)
      then Inl (StageFailure StageKeyFileInvalid)
      else
        (case Option.bind (canonical_document (butlast data) key_file_limits) (decode_KeyFile zero_KeyFile) of
           None \<Rightarrow> Inl (StageFailure StageKeyFileInvalid)
         | Some result \<Rightarrow>
             (case hex_DecodeString (kf_KeyHex result) of
                None \<Rightarrow> Inl (StageFailure StageKeyFileInvalid)
              | Some decoded \<Rightarrow>
                  if length decoded \<noteq> KeySize \<or> kf_KeyHex result \<noteq> hex_EncodeToString decoded \<or>
                     \<not> validHex32 (kf_CommitmentSHA256 result)
                  then Inl (StageFailure StageKeyFileInvalid)
                  else if kf_Schema result \<noteq> KeyFileSchema \<or> kf_QuestionID result \<noteq> questionID \<or>
                     kf_QuestionRevisionID result \<noteq> revisionID \<or> kf_ForecastID result \<noteq> forecastID \<or>
                     kf_CommitmentSHA256 result \<noteq> commitmentSHA256
                  then Inl (StageFailure StageKeyFileBindingFailed)
                  else Inr result)))"

text \<open>\<open>defer\<close> and \<open>clear\<close> only overwrite memory that is not used afterwards.\<close>

definition openWithKey :: "aead \<Rightarrow> string \<Rightarrow> slug \<Rightarrow> slug \<Rightarrow> slug \<Rightarrow> sealed_commitment \<Rightarrow> crypto_error + private_bundle \<times> string" where
  "openWithKey A key questionID revisionID forecastID commitment =
     (if length key \<noteq> KeySize then Inl (StageFailure StageKeyFileInvalid)
      else if \<not> validHex32 (dg_Value (sc_CommitmentHash commitment)) then Inl (StageFailure StageCommitmentMalformed)
      else if sc_Scheme commitment \<noteq> SealScheme \<or> dg_Algorithm (sc_CommitmentHash commitment) \<noteq> ''sha-256'' \<or>
         en_Algorithm (sc_Encryption commitment) \<noteq> EncryptionProfile
      then Inl (StageFailure StageAlgorithmUnsupported)
      else
        (case base64_Decode (en_Nonce (sc_Encryption commitment)) of
           None \<Rightarrow> Inl (StageFailure StageNonceEncodingInvalid)
         | Some nonce \<Rightarrow>
             if length nonce \<noteq> NonceSize then Inl (StageFailure StageNonceEncodingInvalid)
             else
               (case base64_Decode (en_Ciphertext (sc_Encryption commitment)) of
                  None \<Rightarrow> Inl (StageFailure StageCiphertextEncodingInvalid)
                | Some ciphertext \<Rightarrow>
                    if length ciphertext < Overhead \<or> int (length ciphertext) > lm_MaxBytes DefaultLimits
                    then Inl (StageFailure StageCiphertextEncodingInvalid)
                    else
                      bindR (sealAAD questionID revisionID forecastID (dg_Value (sc_CommitmentHash commitment))) (\<lambda>aad.
                      case ae_New A key of
                        Some e \<Rightarrow> Inl (CipherError e)
                      | None \<Rightarrow>
                          (case ae_Open A key nonce ciphertext aad of
                             None \<Rightarrow> Inl (StageFailure StageAuthenticationFailed)
                           | Some plaintext \<Rightarrow>
                               if hex_DecodeString (dg_Value (sc_CommitmentHash commitment)) \<noteq> Some (sha256 plaintext)
                               then Inl (StageFailure StageCommitmentDigestMismatch)
                               else
                                 (case Option.bind (canonical_document plaintext DefaultLimits)
                                         (decode_sealedPlaintext zero_sealedPlaintext) of
                                    None \<Rightarrow> Inl (StageFailure StageBundleProfileMismatch)
                                  | Some sealed \<Rightarrow>
                                      if canonicalJSON (json_sealedPlaintext sealed) \<noteq> Inr plaintext
                                      then Inl (StageFailure StageBundleProfileMismatch)
                                      else if sp_Schema sealed \<noteq> SealScheme \<or> sp_QuestionID sealed \<noteq> questionID \<or>
                                         sp_QuestionRevisionID sealed \<noteq> revisionID \<or> sp_ForecastID sealed \<noteq> forecastID \<or>
                                         no_representations (sp_Bundle sealed) \<or>
                                         \<not> validHex32 (sp_Salt sealed)
                                      then Inl (StageFailure StageBundleProfileMismatch)
                                      else if empty_key_factor (sp_Bundle sealed) then Inl (StageFailure StageBundleProfileMismatch)
                                      else Inr (sp_Bundle sealed, plaintext)))))))"

definition Open :: "aead \<Rightarrow> string \<Rightarrow> slug \<Rightarrow> slug \<Rightarrow> slug \<Rightarrow> sealed_commitment \<Rightarrow> crypto_error + open_result" where
  "Open A keyFileBytes questionID revisionID forecastID commitment =
     bindR (DecodeKeyFile keyFileBytes questionID revisionID forecastID (dg_Value (sc_CommitmentHash commitment))) (\<lambda>keyFile.
       case hex_DecodeString (kf_KeyHex keyFile) of
         None \<Rightarrow> Inl (StageFailure StageKeyFileInvalid)
       | Some key \<Rightarrow>
           if length key \<noteq> KeySize then Inl (StageFailure StageKeyFileInvalid)
           else
             bindR (openWithKey A key questionID revisionID forecastID commitment) (\<lambda>(bundle, plaintext).
               Inr \<lparr>or_Bundle = bundle, or_Plaintext = plaintext, or_KeyHex = kf_KeyHex keyFile\<rparr>))"

text \<open>\<open>Reveal\<close> builds a sealed commitment from the fields a revealed one has in common with it.\<close>

definition Reveal :: "aead \<Rightarrow> slug \<Rightarrow> slug \<Rightarrow> slug \<Rightarrow> revealed_commitment \<Rightarrow> crypto_error + revealed_payload" where
  "Reveal A questionID revisionID forecastID commitment =
     (case hex_DecodeString (rc_RevealedKey commitment) of
        None \<Rightarrow> Inl (ErrRevealVerification (StageFailure StageKeyFileInvalid))
      | Some key \<Rightarrow>
          if length key \<noteq> KeySize then Inl (ErrRevealVerification (StageFailure StageKeyFileInvalid))
          else
            (case openWithKey A key questionID revisionID forecastID (sealed_commitment.truncate commitment) of
               Inl e \<Rightarrow> Inl (ErrRevealVerification e)
             | Inr (bundle, plaintext) \<Rightarrow>
                 Inr \<lparr>rv_Schema = SealScheme, rv_QuestionID = questionID, rv_QuestionRevisionID = revisionID,
                      rv_ForecastID = forecastID, rv_Bundle = bundle, rv_Plaintext = plaintext\<rparr>))"

text \<open>Three reads in the order salt, key, nonce.\<close>

fun read_all :: "'e entropy \<Rightarrow> 'e \<Rightarrow> nat list \<Rightarrow> (crypto_error + string list) \<times> 'e" where
  "read_all entropy e [] = (Inr [], e)"
| "read_all entropy e (n # ns) =
     (case entropy e n of
        (Inl m, e') \<Rightarrow> (Inl (EntropyError m), e')
      | (Inr s, e') \<Rightarrow>
          (case read_all entropy e' ns of
             (Inl m, e'') \<Rightarrow> (Inl m, e'')
           | (Inr ss, e'') \<Rightarrow> (Inr (s # ss), e'')))"

definition seal_with :: "aead \<Rightarrow> slug \<Rightarrow> slug \<Rightarrow> slug \<Rightarrow> private_bundle \<Rightarrow> string \<Rightarrow> string \<Rightarrow> string \<Rightarrow> string \<Rightarrow> crypto_error + seal_result" where
  "seal_with A questionID revisionID forecastID bundle keyHint salt key nonce =
     bindR (canonical (json_sealedPlaintext
       \<lparr>sp_Schema = SealScheme, sp_QuestionID = questionID, sp_QuestionRevisionID = revisionID,
        sp_ForecastID = forecastID, sp_Bundle = bundle, sp_Salt = hex_EncodeToString salt\<rparr>)) (\<lambda>plaintext.
     let digestHex = hex_EncodeToString (sha256 plaintext) in
     bindR (sealAAD questionID revisionID forecastID digestHex) (\<lambda>aad.
     case ae_New A key of
       Some e \<Rightarrow> Inl (CipherError e)
     | None \<Rightarrow>
         let ciphertext = ae_Seal A key nonce plaintext aad in
         bindR (EncodeKeyFile questionID revisionID forecastID digestHex key) (\<lambda>keyFile.
         Inr \<lparr>sr_Commitment =
                \<lparr>sc_Scheme = SealScheme, sc_CommitmentHash = \<lparr>dg_Algorithm = ''sha-256'', dg_Value = digestHex\<rparr>,
                 sc_Encryption = \<lparr>en_Algorithm = EncryptionProfile, en_Nonce = base64_Encode nonce,
                   en_Ciphertext = base64_Encode ciphertext\<rparr>,
                 sc_KeyHint = keyHint\<rparr>,
              sr_KeyFile = keyFile\<rparr>)))"

definition Seal :: "aead \<Rightarrow> 'e entropy option \<Rightarrow> 'e \<Rightarrow> slug \<Rightarrow> slug \<Rightarrow> slug \<Rightarrow> private_bundle \<Rightarrow> string \<Rightarrow> (crypto_error + seal_result) \<times> 'e" where
  "Seal A source e questionID revisionID forecastID bundle keyHint =
     (case source of
        None \<Rightarrow> (Inl (CryptoMessage ''entropy source is not configured''), e)
      | Some entropy \<Rightarrow>
          if revisionID = [] then (Inl (CryptoMessage ''sealed bundle question revision is missing from seal context''), e)
          else if no_representations bundle
          then (Inl (CryptoMessage ''sealed bundle representations are required''), e)
          else if empty_key_factor bundle
          then (Inl (CryptoMessage ''sealed bundle key factors must be non-empty strings''), e)
          else
            (case read_all entropy e [32, KeySize, NonceSize] of
               (Inr [salt, key, nonce], e') \<Rightarrow>
                 (seal_with A questionID revisionID forecastID bundle keyHint salt key nonce, e')
             | (Inr _, e') \<Rightarrow> (Inl (EntropyError []), e')
             | (Inl m, e') \<Rightarrow> (Inl m, e')))"

end
