(* ===== verification/Member_Order.thy ===== *)
theory Member_Order
  imports Ledger_Decoding
begin

text \<open>
  Decoding does not depend on the order of the members of an object.  \<open>canonical.Marshal\<close> and the
  maps of \<open>encoding/json\<close> sort members, so a reader of their bytes meets the fields in another order
  than the encoder of the struct wrote them.  A decoder is blind when reordering members changes
  nothing; every decoder of \<open>internal/ledger\<close> is, so what was encoded is read back from any order.
\<close>

named_theorems blind "decoders that do not see the order of members"
named_theorems keyed "encodings with distinct member names"

section \<open>Reordered values\<close>

inductive shuffled :: "go_value \<Rightarrow> go_value \<Rightarrow> bool" where
  shuffled_same: "shuffled v v"
| shuffled_array: "list_all2 shuffled vs ws \<Longrightarrow> shuffled (GoArray vs) (GoArray ws)"
| shuffled_object: "distinct (map (fold_name \<circ> fst) ms) \<Longrightarrow> list_all2 (rel_prod (=) shuffled) ms ms' \<Longrightarrow>
    mset ns = mset ms' \<Longrightarrow> shuffled (GoObject ms) (GoObject ns)"
monos list.rel_mono_strong prod.rel_mono_strong

inductive_cases shuffled_arrayE: "shuffled (GoArray vs) w"
inductive_cases shuffled_objectE: "shuffled (GoObject ms) w"

inductive_simps shuffled_scalars [simp]:
  "shuffled GoNull w" "shuffled (GoBool b) w" "shuffled (GoInt i) w" "shuffled (GoUint n) w" "shuffled (GoString s) w"
  "shuffled GoFloat w" "shuffled GoUnsupported w"

definition blind_to :: "('a \<Rightarrow> go_value \<Rightarrow> 'a option) \<Rightarrow> bool" where
  "blind_to d \<longleftrightarrow> (\<forall>p v w. shuffled v w \<longrightarrow> d p v = d p w)"

lemma blind_toD: "blind_to d \<Longrightarrow> shuffled v w \<Longrightarrow> d p v = d p w"
  by (simp add: blind_to_def)

section \<open>Folding over members\<close>

text \<open>
  A step of a decoder on one member is orderly when it does not see the order inside the member's
  value and steps on members of different names commute.
\<close>

definition commuting :: "('s \<Rightarrow> string \<times> go_value \<Rightarrow> 's option) \<Rightarrow> bool" where
  "commuting mem \<longleftrightarrow> (\<forall>r m n. fold_name (fst m) \<noteq> fold_name (fst n) \<longrightarrow>
     Option.bind (mem r m) (\<lambda>s. mem s n) = Option.bind (mem r n) (\<lambda>s. mem s m))"

definition orderly :: "('s \<Rightarrow> string \<times> go_value \<Rightarrow> 's option) \<Rightarrow> bool" where
  "orderly mem \<longleftrightarrow> commuting mem \<and> (\<forall>r k v w. shuffled v w \<longrightarrow> mem r (k, v) = mem r (k, w))"

lemma foldO_bind: "foldO f s (x # xs) = Option.bind (f s x) (\<lambda>s. foldO f s xs)"
  by (simp split: option.split)

lemma foldO_append: "foldO f s (xs @ ys) = Option.bind (foldO f s xs) (\<lambda>s. foldO f s ys)"
  by (induction xs arbitrary: s) (simp_all split: option.split)

lemma foldO_front:
  assumes "commuting mem" "fold_name (fst m) \<notin> fold_name ` fst ` set xs"
  shows "foldO mem r (xs @ m # ys) = foldO mem r (m # xs @ ys)"
  using assms(2)
proof (induction xs arbitrary: r)
  case (Cons x xs)
  have swap: "Option.bind (mem r x) (\<lambda>s. mem s m) = Option.bind (mem r m) (\<lambda>s. mem s x)"
    using assms(1) Cons.prems unfolding commuting_def by (metis image_insert insertI1 list.simps(15))
  have "foldO mem r ((x # xs) @ m # ys) = Option.bind (mem r x) (\<lambda>s. foldO mem s (m # xs @ ys))"
    using Cons by (simp add: foldO_bind del: foldO.simps)
  also have "\<dots> = Option.bind (Option.bind (mem r x) (\<lambda>s. mem s m)) (\<lambda>s. foldO mem s (xs @ ys))"
    by (simp add: foldO_bind del: foldO.simps)
  also have "\<dots> = foldO mem r (m # (x # xs) @ ys)" unfolding swap by (simp add: foldO_bind del: foldO.simps)
  finally show ?case .
qed simp

lemma foldO_permuted:
  assumes "commuting mem" "distinct (map (fold_name \<circ> fst) ms)" "mset ns = mset ms"
  shows "foldO mem r ns = foldO mem r ms"
  using assms(2,3)
proof (induction ms arbitrary: ns r)
  case (Cons m ms)
  then have "m \<in> set ns" by (metis list.set_intros(1) set_mset_mset)
  then obtain xs ys where ns: "ns = xs @ m # ys" by (meson split_list)
  then have rest: "mset (xs @ ys) = mset ms" using Cons.prems(2) by simp
  then have "set xs \<subseteq> set ms" by (metis set_append set_mset_mset Un_upper1)
  then have "fold_name (fst m) \<notin> fold_name ` fst ` set xs" using Cons.prems(1) by auto
  from foldO_front [OF assms(1) this] Cons.IH [OF _ rest] Cons.prems(1) show ?case
    by (simp add: ns split: option.split)
qed simp

lemma foldO_shuffled:
  assumes "orderly mem" "shuffled (GoObject ms) (GoObject ns)"
  shows "foldO mem r ms = foldO mem r ns"
  using assms(2)
proof (rule shuffled_objectE)
  fix ms' ns'
  assume d: "distinct (map (fold_name \<circ> fst) ms)" and p: "list_all2 (rel_prod (=) shuffled) ms ms'"
    and ns: "mset ns' = mset ms'" "GoObject ns = GoObject ns'"
  have "foldO mem r ms = foldO mem r ms'" using p
  proof (induction arbitrary: r rule: list_all2_induct)
    case (Cons x xs y ys)
    then have "mem r x = mem r y" using assms(1) by (cases x; cases y) (auto simp: orderly_def)
    with Cons.IH show ?case by (simp split: option.split)
  qed simp
  moreover have "map fst ms' = map fst ms" using p by (induction rule: list_all2_induct) auto
  then have "distinct (map (fold_name \<circ> fst) ms')" using d by (metis list.map_comp)
  ultimately show "foldO mem r ms = foldO mem r ns"
    using foldO_permuted [OF _ _ ns(1), of mem r] assms(1) ns(2) by (simp add: orderly_def)
qed simp

lemma shuffled_object_cases: "shuffled (GoObject ms) w \<Longrightarrow> \<exists>ns. w = GoObject ns"
  by (erule shuffled_objectE) auto

lemma blind_struct: "orderly mem \<Longrightarrow> blind_to (decode_struct mem)"
  unfolding blind_to_def
proof (intro allI impI)
  fix p v w assume o: "orderly mem" and s: "shuffled v w"
  show "decode_struct mem p v = decode_struct mem p w"
  proof (cases v)
    case (GoObject ms)
    with s obtain ns where "w = GoObject ns" using shuffled_object_cases by blast
    with s GoObject foldO_shuffled [OF o] show ?thesis by (simp add: decode_struct_def)
  next
    case (GoArray vs)
    with s show ?thesis by (auto simp: decode_struct_def elim: shuffled_arrayE)
  qed (use s in \<open>simp_all add: decode_struct_def\<close>)
qed

section \<open>The fields of a struct\<close>

text \<open>A step that never touches a field and does not read it.\<close>

definition leaves :: "('x \<Rightarrow> 's \<Rightarrow> 's) \<Rightarrow> ('s \<Rightarrow> 'x) \<Rightarrow> ('s \<Rightarrow> string \<times> go_value \<Rightarrow> 's option) \<Rightarrow> bool" where
  "leaves upd get mem \<longleftrightarrow>
     (\<forall>r m x. mem (upd x r) m = map_option (upd x) (mem r m)) \<and> (\<forall>r m s. mem r m = Some s \<longrightarrow> get s = get r)"

lemma leavesD:
  assumes "leaves upd get mem"
  shows "mem (upd x r) m = map_option (upd x) (mem r m)" "mem r m = Some s \<Longrightarrow> get s = get r"
  using assms unfolding leaves_def by blast+

lemma leaves_None [blind]: "leaves upd get (\<lambda>r m. None)"
  by (simp add: leaves_def)

lemma leaves_field [blind]:
  assumes "leaves upd get g" "\<And>x y r. upd' y (upd x r) = upd x (upd' y r)"
    "\<And>x r. get' (upd x r) = get' r" "\<And>y r. get (upd' y r) = get r"
  shows "leaves upd get (\<lambda>r m. if named m k then map_option (\<lambda>y. upd' y r) (d (get' r) (snd m)) else g r m)"
  using assms by (auto simp: leaves_def option.map_comp comp_def)

lemma orderly_None [blind]: "orderly (\<lambda>r m. None)"
  by (simp add: orderly_def commuting_def)

lemma orderly_field [blind]:
  assumes "blind_to d" "orderly g" "leaves upd get g"
  shows "orderly (\<lambda>r m. if named m k then map_option (\<lambda>x. upd x r) (d (get r) (snd m)) else g r m)"
    (is "orderly ?f")
proof -
  have pass: "Option.bind (?f r m) (\<lambda>s. ?f s n) = Option.bind (?f r n) (\<lambda>s. ?f s m)"
    if "named m k" "\<not> named n k" for r m n
    using that leavesD [OF assms(3)] by (cases "g r n"; cases "d (get r) (snd m)") simp_all
  have "commuting ?f"
    unfolding commuting_def
  proof (intro allI impI)
    fix r and m n :: "string \<times> go_value"
    assume ne: "fold_name (fst m) \<noteq> fold_name (fst n)"
    then consider "named m k" "\<not> named n k" | "named n k" "\<not> named m k" | "\<not> named m k" "\<not> named n k"
      unfolding named_def by metis
    then show "Option.bind (?f r m) (\<lambda>s. ?f s n) = Option.bind (?f r n) (\<lambda>s. ?f s m)"
    proof cases
      case 1
      then show ?thesis by (rule pass)
    next
      case 2
      then show ?thesis by (rule pass [symmetric])
    next
      case 3
      have "commuting g" using assms(2) by (simp add: orderly_def)
      then show ?thesis using ne 3 unfolding commuting_def by (simp only: if_False)
    qed
  qed
  then show ?thesis using assms(1,2) by (auto simp: orderly_def named_def blind_to_def)
qed

lemma blind_scalars [blind]: "blind_to decode_string" "blind_to decode_bool" "blind_to decode_int"
  unfolding blind_to_def decode_string_def decode_bool_def decode_int_def
  by (intro allI impI, erule shuffled.cases, simp_all)+

lemma blind_slice [blind]: "blind_to d \<Longrightarrow> blind_to (decode_slice d z)"
  unfolding blind_to_def
proof (intro allI impI)
  fix p v w assume d: "\<forall>p v w. shuffled v w \<longrightarrow> d p v = d p w" and s: "shuffled v w"
  from s show "decode_slice d z p v = decode_slice d z p w"
  proof cases
    case (shuffled_array vs ws)
    from shuffled_array(3) have "mapO (d z) vs = mapO (d z) ws"
    proof (induction rule: list_all2_induct)
      case (Cons x xs y ys)
      then have "d z x = d z y" using d by blast
      with Cons.IH show ?case by (simp split: option.split)
    qed simp
    with shuffled_array show ?thesis by (simp add: decode_slice_def)
  qed (simp_all add: decode_slice_def)
qed

lemma blind_pointer [blind]: "blind_to d \<Longrightarrow> blind_to (decode_pointer d z)"
  unfolding blind_to_def
proof (intro allI impI)
  fix p v w assume d: "\<forall>p v w. shuffled v w \<longrightarrow> d p v = d p w" and s: "shuffled v w"
  then have "v = GoNull \<longleftrightarrow> w = GoNull" by (auto elim: shuffled.cases)
  moreover have "d q v = d q w" for q using d s by blast
  ultimately show "decode_pointer d z p v = decode_pointer d z p w"
    by (cases v; cases w) (simp_all add: decode_pointer_def split: option.split)
qed

text \<open>A map with distinct keys.\<close>

lemma put_key_swap: "k \<noteq> l \<Longrightarrow> put_key k y (put_key l z m) = put_key l z (put_key k y m)"
  by (induction m) auto

lemma blind_map [blind]:
  assumes "blind_to d"
  shows "blind_to (decode_map d z)"
proof -
  let ?step = "\<lambda>m (k, x). map_option (\<lambda>y. put_key k y m) (d z x)"
  have "Option.bind (?step r m) (\<lambda>s. ?step s n) = Option.bind (?step r n) (\<lambda>s. ?step s m)" if "fst m \<noteq> fst n" for r m n
    using that by (cases m; cases n; cases "d z (snd m)"; cases "d z (snd n)") (simp_all add: put_key_swap)
  then have "commuting ?step" unfolding commuting_def by metis
  moreover have "d z v = d z w" if "shuffled v w" for v w using blind_toD [OF assms that] .
  ultimately have o: "orderly ?step" by (simp add: orderly_def)
  show ?thesis
    unfolding blind_to_def
  proof (intro allI impI)
    fix p v w assume s: "shuffled v w"
    then show "decode_map d z p v = decode_map d z p w"
    proof cases
      case (shuffled_object ms ms' ns)
      then show ?thesis using foldO_shuffled [OF o, of ms ns p] s by (simp add: decode_map_def)
    qed (simp_all add: decode_map_def)
  qed
qed

lemma discriminator_shuffled: "shuffled v w \<Longrightarrow> discriminator k v = discriminator k w"
proof -
  let ?step = "\<lambda>s m. if named m k then decode_string s (snd m) else Some s"
  assume s: "shuffled v w"
  have "commuting ?step" by (auto simp: commuting_def named_def)
  then have o: "orderly ?step"
    by (auto simp: orderly_def named_def intro: blind_toD [OF blind_scalars(1)])
  from s show ?thesis
  proof cases
    case (shuffled_object ms ms' ns)
    then show ?thesis using foldO_shuffled [OF o, of ms ns "[]"] s by (simp add: discriminator_def)
  qed (simp_all add: discriminator_def)
qed

lemma member_names_shuffled: "shuffled v w \<Longrightarrow> map_option set (member_names v) = map_option set (member_names w)"
proof (erule shuffled.cases)
  fix ms ms' ns assume vw: "v = GoObject ms" "w = GoObject ns" and p: "list_all2 (rel_prod (=) shuffled) ms ms'" "mset ns = mset ms'"
  from p(1) have "map fst ms = map fst ms'" by (induction rule: list_all2_induct) auto
  moreover have "set ns = set ms'" using p(2) mset_eq_setD by blast
  ultimately show "map_option set (member_names v) = map_option set (member_names w)"
    by (simp add: vw member_names_def)
qed (simp_all add: member_names_def)

section \<open>The decoders\<close>

lemma blind_Digest [blind]: "blind_to decode_Digest"
  unfolding decode_Digest_def decode_Digest_member_def [abs_def] by (intro blind_struct blind; simp)

lemma blind_ArtifactSnapshot [blind]: "blind_to decode_ArtifactSnapshot"
  unfolding decode_ArtifactSnapshot_def decode_ArtifactSnapshot_member_def [abs_def] by (intro blind_struct blind; simp)

lemma blind_Importer [blind]: "blind_to decode_Importer"
  unfolding decode_Importer_def decode_Importer_member_def [abs_def] by (intro blind_struct blind; simp)

lemma blind_Provenance [blind]: "blind_to decode_Provenance"
  unfolding decode_Provenance_def decode_Provenance_member_def [abs_def] by (intro blind_struct blind; simp)

lemma blind_ScalarValue [blind]: "blind_to decode_ScalarValue"
  unfolding blind_to_def by (intro allI impI, erule shuffled.cases) (simp_all add: decode_ScalarValue_def)

lemma blind_Option [blind]: "blind_to decode_Option"
  unfolding decode_Option_def decode_Option_member_def [abs_def] by (intro blind_struct blind; simp)

lemma blind_OptionSet [blind]: "blind_to decode_OptionSet"
  unfolding decode_OptionSet_def decode_OptionSet_member_def [abs_def] by (intro blind_struct blind; simp)

lemma blind_SetRef [blind]: "blind_to decode_SetRef"
  unfolding decode_SetRef_def decode_SetRef_member_def [abs_def] by (intro blind_struct blind; simp)

lemma blind_Unit [blind]: "blind_to decode_Unit"
  unfolding decode_Unit_def decode_Unit_member_def [abs_def] by (intro blind_struct blind; simp)

lemma blind_Bound [blind]: "blind_to decode_Bound"
  unfolding decode_Bound_def decode_Bound_member_def [abs_def] by (intro blind_struct blind; simp)

lemma blind_Bounds [blind]: "blind_to decode_Bounds"
  unfolding decode_Bounds_def decode_Bounds_member_def [abs_def] by (intro blind_struct blind; simp)

lemma blind_Bin [blind]: "blind_to decode_Bin"
  unfolding decode_Bin_def decode_Bin_member_def [abs_def] by (intro blind_struct blind; simp)

lemma blind_BinSet [blind]: "blind_to decode_BinSet"
  unfolding decode_BinSet_def decode_BinSet_member_def [abs_def] by (intro blind_struct blind; simp)

lemma blind_ContinuousValues [blind]: "blind_to decode_ContinuousValues"
  unfolding decode_ContinuousValues_def decode_ContinuousValues_member_def [abs_def] by (intro blind_struct blind; simp)

lemma blind_StepValues [blind]: "blind_to decode_StepValues"
  unfolding decode_StepValues_def decode_StepValues_member_def [abs_def] by (intro blind_struct blind; simp)

lemma blind_AllowedValues [blind]: "blind_to decode_AllowedValues"
  unfolding decode_AllowedValues_def decode_AllowedValues_member_def [abs_def] by (intro blind_struct blind; simp)

lemma blind_ValuesPolicy [blind]: "blind_to decode_ValuesPolicy"
  unfolding blind_to_def decode_ValuesPolicy_def
  by (intro allI impI) (simp only: discriminator_shuffled blind_toD [OF blind_ContinuousValues] blind_toD [OF blind_StepValues] blind_toD [OF blind_AllowedValues])

lemma blind_BinaryDomain [blind]: "blind_to decode_BinaryDomain"
  unfolding decode_BinaryDomain_def decode_BinaryDomain_member_def [abs_def] by (intro blind_struct blind; simp)

lemma blind_OptionDomain [blind]: "blind_to decode_OptionDomain"
  unfolding decode_OptionDomain_def decode_OptionDomain_member_def [abs_def] by (intro blind_struct blind; simp)

lemma blind_NumericDomain [blind]: "blind_to decode_NumericDomain"
  unfolding decode_NumericDomain_def decode_NumericDomain_member_def [abs_def] by (intro blind_struct blind; simp)

lemma blind_ScalarDomain [blind]: "blind_to decode_ScalarDomain"
  unfolding decode_ScalarDomain_def decode_ScalarDomain_member_def [abs_def] by (intro blind_struct blind; simp)

lemma blind_Domain [blind]: "blind_to decode_Domain"
  unfolding blind_to_def decode_Domain_def
  by (intro allI impI) (simp only: discriminator_shuffled blind_toD [OF blind_BinaryDomain] blind_toD [OF blind_OptionDomain] blind_toD [OF blind_NumericDomain] blind_toD [OF blind_ScalarDomain])

lemma blind_OutcomeSpace [blind]: "blind_to decode_OutcomeSpace"
  unfolding decode_OutcomeSpace_def decode_OutcomeSpace_member_def [abs_def] by (intro blind_struct blind; simp)

lemma blind_QuestionRevision [blind]: "blind_to decode_QuestionRevision"
  unfolding decode_QuestionRevision_def decode_QuestionRevision_member_def [abs_def] by (intro blind_struct blind; simp)

lemma blind_ProbabilityRepresentation [blind]: "blind_to decode_ProbabilityRepresentation"
  unfolding decode_ProbabilityRepresentation_def decode_ProbabilityRepresentation_member_def [abs_def] by (intro blind_struct blind; simp)

lemma blind_PMFEntry [blind]: "blind_to decode_PMFEntry"
  unfolding decode_PMFEntry_def decode_PMFEntry_member_def [abs_def] by (intro blind_struct blind; simp)

lemma blind_PMFRepresentation [blind]: "blind_to decode_PMFRepresentation"
  unfolding decode_PMFRepresentation_def decode_PMFRepresentation_member_def [abs_def] by (intro blind_struct blind; simp)

lemma blind_BinnedPMFEntry [blind]: "blind_to decode_BinnedPMFEntry"
  unfolding decode_BinnedPMFEntry_def decode_BinnedPMFEntry_member_def [abs_def] by (intro blind_struct blind; simp)

lemma blind_BinnedPMFRepresentation [blind]: "blind_to decode_BinnedPMFRepresentation"
  unfolding decode_BinnedPMFRepresentation_def decode_BinnedPMFRepresentation_member_def [abs_def] by (intro blind_struct blind; simp)

lemma blind_QuantilePoint [blind]: "blind_to decode_QuantilePoint"
  unfolding decode_QuantilePoint_def decode_QuantilePoint_member_def [abs_def] by (intro blind_struct blind; simp)

lemma blind_QuantilesRepresentation [blind]: "blind_to decode_QuantilesRepresentation"
  unfolding decode_QuantilesRepresentation_def decode_QuantilesRepresentation_member_def [abs_def] by (intro blind_struct blind; simp)

lemma blind_CDFPoint [blind]: "blind_to decode_CDFPoint"
  unfolding decode_CDFPoint_def decode_CDFPoint_member_def [abs_def] by (intro blind_struct blind; simp)

lemma blind_CDFRepresentation [blind]: "blind_to decode_CDFRepresentation"
  unfolding decode_CDFRepresentation_def decode_CDFRepresentation_member_def [abs_def] by (intro blind_struct blind; simp)

lemma blind_PointRepresentation [blind]: "blind_to decode_PointRepresentation"
  unfolding decode_PointRepresentation_def decode_PointRepresentation_member_def [abs_def] by (intro blind_struct blind; simp)

lemma blind_CredibleInterval [blind]: "blind_to decode_CredibleInterval"
  unfolding decode_CredibleInterval_def decode_CredibleInterval_member_def [abs_def] by (intro blind_struct blind; simp)

lemma blind_CredibleIntervalsRepresentation [blind]: "blind_to decode_CredibleIntervalsRepresentation"
  unfolding decode_CredibleIntervalsRepresentation_def decode_CredibleIntervalsRepresentation_member_def [abs_def] by (intro blind_struct blind; simp)

lemma blind_ForecastRepresentation [blind]: "blind_to decode_ForecastRepresentation"
  unfolding blind_to_def decode_ForecastRepresentation_def
  by (intro allI impI) (simp only: discriminator_shuffled blind_toD [OF blind_ProbabilityRepresentation] blind_toD [OF blind_PMFRepresentation] blind_toD [OF blind_BinnedPMFRepresentation] blind_toD [OF blind_QuantilesRepresentation] blind_toD [OF blind_CDFRepresentation] blind_toD [OF blind_PointRepresentation] blind_toD [OF blind_CredibleIntervalsRepresentation])

lemma blind_LifecycleEvent [blind]: "blind_to decode_LifecycleEvent"
  unfolding decode_LifecycleEvent_def decode_LifecycleEvent_member_def [abs_def] by (intro blind_struct blind; simp)

lemma blind_Encryption [blind]: "blind_to decode_Encryption"
  unfolding decode_Encryption_def decode_Encryption_member_def [abs_def] by (intro blind_struct blind; simp)

lemma blind_Publication [blind]: "blind_to decode_Publication"
  unfolding decode_Publication_def decode_Publication_member_def [abs_def] by (intro blind_struct blind; simp)

lemma blind_Contact [blind]: "blind_to decode_Contact"
  unfolding decode_Contact_def decode_Contact_member_def [abs_def] by (intro blind_struct blind; simp)

lemma blind_Profile [blind]: "blind_to decode_Profile"
  unfolding decode_Profile_def decode_Profile_member_def [abs_def] by (intro blind_struct blind; simp)

lemma blind_Member [blind]: "blind_to decode_Member"
  unfolding decode_Member_def decode_Member_member_def [abs_def] by (intro blind_struct blind; simp)

lemma blind_Forecaster [blind]: "blind_to decode_Forecaster"
  unfolding decode_Forecaster_def decode_Forecaster_member_def [abs_def] by (intro blind_struct blind; simp)

lemma blind_PlatformAccount [blind]: "blind_to decode_PlatformAccount"
  unfolding decode_PlatformAccount_def decode_PlatformAccount_member_def [abs_def] by (intro blind_struct blind; simp)

lemma blind_Platform [blind]: "blind_to decode_Platform"
  unfolding decode_Platform_def decode_Platform_member_def [abs_def] by (intro blind_struct blind; simp)

lemma blind_ResolutionSource [blind]: "blind_to decode_ResolutionSource"
  unfolding decode_ResolutionSource_def decode_ResolutionSource_member_def [abs_def] by (intro blind_struct blind; simp)

lemma blind_ResolvedResolution [blind]: "blind_to decode_ResolvedResolution"
  unfolding decode_ResolvedResolution_def decode_ResolvedResolution_member_def [abs_def] by (intro blind_struct blind; simp)

lemma blind_UnresolvedResolution [blind]: "blind_to decode_UnresolvedResolution"
  unfolding decode_UnresolvedResolution_def decode_UnresolvedResolution_member_def [abs_def] by (intro blind_struct blind; simp)

lemma blind_NotApplicableResolution [blind]: "blind_to decode_NotApplicableResolution"
  unfolding decode_NotApplicableResolution_def decode_NotApplicableResolution_member_def [abs_def] by (intro blind_struct blind; simp)

lemma blind_Resolution [blind]: "blind_to decode_Resolution"
  unfolding blind_to_def decode_Resolution_def
  by (intro allI impI) (simp only: discriminator_shuffled blind_toD [OF blind_ResolvedResolution] blind_toD [OF blind_UnresolvedResolution] blind_toD [OF blind_NotApplicableResolution])

lemma blind_Group [blind]: "blind_to decode_Group"
  unfolding decode_Group_def decode_Group_member_def [abs_def] by (intro blind_struct blind; simp)

lemma blind_GroupMembership [blind]: "blind_to decode_GroupMembership"
  unfolding decode_GroupMembership_def decode_GroupMembership_member_def [abs_def] by (intro blind_struct blind; simp)

lemma blind_ConditionalRelationship [blind]: "blind_to decode_ConditionalRelationship"
  unfolding decode_ConditionalRelationship_def decode_ConditionalRelationship_member_def [abs_def] by (intro blind_struct blind; simp)

lemma blind_Relationship [blind]: "blind_to decode_Relationship"
  unfolding blind_to_def decode_Relationship_def
  by (intro allI impI) (simp only: discriminator_shuffled blind_toD [OF blind_GroupMembership] blind_toD [OF blind_ConditionalRelationship])

lemma blind_Target [blind]: "blind_to decode_Target"
  unfolding decode_Target_def decode_Target_member_def [abs_def] by (intro blind_struct blind; simp)

lemma blind_RFC3161Timestamp [blind]: "blind_to decode_RFC3161Timestamp"
  unfolding decode_RFC3161Timestamp_def decode_RFC3161Timestamp_member_def [abs_def] by (intro blind_struct blind; simp)

lemma blind_ExternalAnchor [blind]: "blind_to decode_ExternalAnchor"
  unfolding decode_ExternalAnchor_def decode_ExternalAnchor_member_def [abs_def] by (intro blind_struct blind; simp)

lemma blind_UnanchoredIntegrity [blind]: "blind_to decode_UnanchoredIntegrity"
  unfolding decode_UnanchoredIntegrity_def decode_UnanchoredIntegrity_member_def [abs_def] by (intro blind_struct blind; simp)

lemma blind_RetainedIntegrity [blind]: "blind_to decode_RetainedIntegrity"
  unfolding decode_RetainedIntegrity_def decode_RetainedIntegrity_member_def [abs_def] by (intro blind_struct blind; simp)

lemma blind_PendingIntegrity [blind]: "blind_to decode_PendingIntegrity"
  unfolding decode_PendingIntegrity_def decode_PendingIntegrity_member_def [abs_def] by (intro blind_struct blind; simp)

lemma blind_VerifiedIntegrity [blind]: "blind_to decode_VerifiedIntegrity"
  unfolding decode_VerifiedIntegrity_def decode_VerifiedIntegrity_member_def [abs_def] by (intro blind_struct blind; simp)

lemma blind_FailedIntegrity [blind]: "blind_to decode_FailedIntegrity"
  unfolding decode_FailedIntegrity_def decode_FailedIntegrity_member_def [abs_def] by (intro blind_struct blind; simp)

lemma blind_LifecycleIntegrity [blind]: "blind_to decode_LifecycleIntegrity"
  unfolding blind_to_def decode_LifecycleIntegrity_def
  by (intro allI impI) (simp only: discriminator_shuffled blind_toD [OF blind_RetainedIntegrity] blind_toD [OF blind_PendingIntegrity] blind_toD [OF blind_VerifiedIntegrity] blind_toD [OF blind_FailedIntegrity])

lemma blind_Integrity [blind]: "blind_to decode_Integrity"
  unfolding blind_to_def decode_Integrity_def
  by (intro allI impI) (simp only: discriminator_shuffled blind_toD [OF blind_UnanchoredIntegrity] blind_toD [OF blind_RetainedIntegrity] blind_toD [OF blind_PendingIntegrity] blind_toD [OF blind_VerifiedIntegrity] blind_toD [OF blind_FailedIntegrity])

lemma blind_SealedCommitment [blind]: "blind_to decode_SealedCommitment"
  unfolding decode_SealedCommitment_def decode_SealedCommitment_member_def [abs_def] by (intro blind_struct blind; simp)

lemma blind_RevealedCommitment [blind]: "blind_to decode_RevealedCommitment"
  unfolding decode_RevealedCommitment_def decode_RevealedCommitment_member_def [abs_def] by (intro blind_struct blind; simp)

lemma blind_Commitment [blind]: "blind_to decode_Commitment"
  unfolding blind_to_def
proof (intro allI impI)
  fix p v w assume s: "shuffled v w"
  have same: "decode_RevealedCommitment zero_RevealedCommitment v = decode_RevealedCommitment zero_RevealedCommitment w"
    "decode_SealedCommitment zero_SealedCommitment v = decode_SealedCommitment zero_SealedCommitment w"
    by (rule blind_toD [OF blind_RevealedCommitment s], rule blind_toD [OF blind_SealedCommitment s])
  show "decode_Commitment p v = decode_Commitment p w"
    using member_names_shuffled [OF s]
    by (cases "member_names v"; cases "member_names w") (simp_all add: decode_Commitment_def same Let_def)
qed

lemma blind_ActivityCheckpoint [blind]: "blind_to decode_ActivityCheckpoint"
  unfolding decode_ActivityCheckpoint_def decode_ActivityCheckpoint_member_def [abs_def] by (intro blind_struct blind; simp)

lemma blind_Forecast [blind]: "blind_to decode_Forecast"
  unfolding decode_Forecast_def decode_Forecast_member_def [abs_def] by (intro blind_struct blind; simp)

lemma blind_Question [blind]: "blind_to decode_Question"
  unfolding decode_Question_def decode_Question_member_def [abs_def] by (intro blind_struct blind; simp)

lemma blind_Ledger [blind]: "blind_to decode_Ledger"
  unfolding decode_Ledger_def decode_Ledger_member_def [abs_def] by (intro blind_struct blind; simp)

section \<open>Encodings have distinct names\<close>

fun well_keyed :: "go_value \<Rightarrow> bool" where
  "well_keyed (GoArray vs) \<longleftrightarrow> (\<forall>v\<in>set vs. well_keyed v)"
| "well_keyed (GoObject ms) \<longleftrightarrow> distinct (map (fold_name \<circ> fst) ms) \<and> (\<forall>(k, v)\<in>set ms. well_keyed v)"
| "well_keyed v \<longleftrightarrow> True"

lemma well_keyed_object:
  assumes "distinct (map (fold_name \<circ> fst) fs)" "list_all (\<lambda>f. pred_option well_keyed (snd f)) fs"
  shows "well_keyed (json_object fs)"
proof -
  have "map (fold_name \<circ> fst) (json_members fs) = map (fold_name \<circ> fst) (filter (\<lambda>m. snd m \<noteq> None) fs)"
    by (induction fs) (auto simp: json_members_Cons json_members_def map_filter_simps split: option.split)
  then show ?thesis
    using assms distinct_map_filter [OF assms(1)]
    by (fastforce simp: json_object_def set_json_members list_all_iff)
qed

lemma well_keyed_option [simp]: "(\<And>x. v = Some x \<Longrightarrow> well_keyed (f x)) \<Longrightarrow> pred_option well_keyed (map_option f v)"
  by (cases v) simp_all

lemma well_keyed_marshalOne: "list_all (pred_option well_keyed) vs \<Longrightarrow> well_keyed (marshalOne vs)"
proof -
  assume vs: "list_all (pred_option well_keyed) vs"
  have "\<forall>v\<in>set (List.map_filter id vs). well_keyed v" using vs by (auto simp: map_filter_def list_all_iff)
  then show ?thesis by (simp add: marshalOne_def split: list.split)
qed

lemma shuffled_objectI:
  assumes "distinct (map (fold_name \<circ> fst) ms)" "\<And>k v. (k, v) \<in> set ms \<Longrightarrow> shuffled v (g v)"
    "mset ns = mset (map (\<lambda>(k, v). (k, g v)) ms)"
  shows "shuffled (GoObject ms) (GoObject ns)"
proof (rule shuffled_object [OF assms(1) _ assms(3)])
  show "list_all2 (rel_prod (=) shuffled) ms (map (\<lambda>(k, v). (k, g v)) ms)"
    using assms(2) by (auto simp: list.rel_map intro!: list.rel_refl_strong)
qed

lemma shuffled_canon: "well_keyed v \<Longrightarrow> plain v \<Longrightarrow> shuffled v (canon v)"
proof (induction v rule: canon.induct)
  case (2 vs)
  then have "list_all2 shuffled vs (map canon vs)" by (auto simp: list.rel_map intro!: list.rel_refl_strong)
  then show ?case by (simp add: shuffled_array)
next
  case (3 ms)
  then have "shuffled v (canon v)" if "(k, v) \<in> set ms" for k v using that by fastforce
  then show ?case using 3 by (simp only: canon.simps well_keyed.simps) (rule shuffled_objectI, simp_all add: sort_members_mset)
qed (simp_all add: shuffled_same)

lemma keyed_Digest [keyed]: "well_keyed (json_Digest v)"
  unfolding json_Digest_def by (rule well_keyed_object) (simp_all add: keyed)

lemma keyed_ArtifactSnapshot [keyed]: "well_keyed (json_ArtifactSnapshot v)"
  unfolding json_ArtifactSnapshot_def by (rule well_keyed_object) (simp_all add: keyed)

lemma keyed_Importer [keyed]: "well_keyed (json_Importer v)"
  unfolding json_Importer_def by (rule well_keyed_object) (simp_all add: keyed)

lemma keyed_Provenance [keyed]: "well_keyed (json_Provenance v)"
  unfolding json_Provenance_def by (rule well_keyed_object) (simp_all add: keyed)

lemma keyed_ScalarValue [keyed]: "well_keyed (json_ScalarValue v)"
  unfolding json_ScalarValue_def by (rule well_keyed_marshalOne) (simp add: keyed)

lemma keyed_Option [keyed]: "well_keyed (json_Option v)"
  unfolding json_Option_def by (rule well_keyed_object) (simp_all add: keyed)

lemma keyed_OptionSet [keyed]: "well_keyed (json_OptionSet v)"
  unfolding json_OptionSet_def by (rule well_keyed_object) (simp_all add: keyed)

lemma keyed_SetRef [keyed]: "well_keyed (json_SetRef v)"
  unfolding json_SetRef_def by (rule well_keyed_object) (simp_all add: keyed)

lemma keyed_Unit [keyed]: "well_keyed (json_Unit v)"
  unfolding json_Unit_def by (rule well_keyed_object) (simp_all add: keyed)

lemma keyed_Bound [keyed]: "well_keyed (json_Bound v)"
  unfolding json_Bound_def by (rule well_keyed_object) (simp_all add: keyed)

lemma keyed_Bounds [keyed]: "well_keyed (json_Bounds v)"
  unfolding json_Bounds_def by (rule well_keyed_object) (simp_all add: keyed)

lemma keyed_Bin [keyed]: "well_keyed (json_Bin v)"
  unfolding json_Bin_def by (rule well_keyed_object) (simp_all add: keyed)

lemma keyed_BinSet [keyed]: "well_keyed (json_BinSet v)"
  unfolding json_BinSet_def by (rule well_keyed_object) (simp_all add: keyed)

lemma keyed_ContinuousValues [keyed]: "well_keyed (json_ContinuousValues v)"
  unfolding json_ContinuousValues_def by (rule well_keyed_object) (simp_all add: keyed)

lemma keyed_StepValues [keyed]: "well_keyed (json_StepValues v)"
  unfolding json_StepValues_def by (rule well_keyed_object) (simp_all add: keyed)

lemma keyed_AllowedValues [keyed]: "well_keyed (json_AllowedValues v)"
  unfolding json_AllowedValues_def by (rule well_keyed_object) (simp_all add: keyed)

lemma keyed_ValuesPolicy [keyed]: "well_keyed (json_ValuesPolicy v)"
  unfolding json_ValuesPolicy_def by (rule well_keyed_marshalOne) (simp add: keyed)

lemma keyed_BinaryDomain [keyed]: "well_keyed (json_BinaryDomain v)"
  unfolding json_BinaryDomain_def by (rule well_keyed_object) (simp_all add: keyed)

lemma keyed_OptionDomain [keyed]: "well_keyed (json_OptionDomain v)"
  unfolding json_OptionDomain_def by (rule well_keyed_object) (simp_all add: keyed)

lemma keyed_NumericDomain [keyed]: "well_keyed (json_NumericDomain v)"
  unfolding json_NumericDomain_def by (rule well_keyed_object) (simp_all add: keyed)

lemma keyed_ScalarDomain [keyed]: "well_keyed (json_ScalarDomain v)"
  unfolding json_ScalarDomain_def by (rule well_keyed_object) (simp_all add: keyed)

lemma keyed_Domain [keyed]: "well_keyed (json_Domain v)"
  unfolding json_Domain_def by (rule well_keyed_marshalOne) (simp add: keyed)

lemma keyed_OutcomeSpace [keyed]: "well_keyed (json_OutcomeSpace v)"
  unfolding json_OutcomeSpace_def by (rule well_keyed_object) (simp_all add: keyed)

lemma keyed_QuestionRevision [keyed]: "well_keyed (json_QuestionRevision v)"
  unfolding json_QuestionRevision_def by (rule well_keyed_object) (simp_all add: keyed)

lemma keyed_ProbabilityRepresentation [keyed]: "well_keyed (json_ProbabilityRepresentation v)"
  unfolding json_ProbabilityRepresentation_def by (rule well_keyed_object) (simp_all add: keyed)

lemma keyed_PMFEntry [keyed]: "well_keyed (json_PMFEntry v)"
  unfolding json_PMFEntry_def by (rule well_keyed_object) (simp_all add: keyed)

lemma keyed_PMFRepresentation [keyed]: "well_keyed (json_PMFRepresentation v)"
  unfolding json_PMFRepresentation_def by (rule well_keyed_object) (simp_all add: keyed)

lemma keyed_BinnedPMFEntry [keyed]: "well_keyed (json_BinnedPMFEntry v)"
  unfolding json_BinnedPMFEntry_def by (rule well_keyed_object) (simp_all add: keyed)

lemma keyed_BinnedPMFRepresentation [keyed]: "well_keyed (json_BinnedPMFRepresentation v)"
  unfolding json_BinnedPMFRepresentation_def by (rule well_keyed_object) (simp_all add: keyed)

lemma keyed_QuantilePoint [keyed]: "well_keyed (json_QuantilePoint v)"
  unfolding json_QuantilePoint_def by (rule well_keyed_object) (simp_all add: keyed)

lemma keyed_QuantilesRepresentation [keyed]: "well_keyed (json_QuantilesRepresentation v)"
  unfolding json_QuantilesRepresentation_def by (rule well_keyed_object) (simp_all add: keyed)

lemma keyed_CDFPoint [keyed]: "well_keyed (json_CDFPoint v)"
  unfolding json_CDFPoint_def by (rule well_keyed_object) (simp_all add: keyed)

lemma keyed_CDFRepresentation [keyed]: "well_keyed (json_CDFRepresentation v)"
  unfolding json_CDFRepresentation_def by (rule well_keyed_object) (simp_all add: keyed)

lemma keyed_PointRepresentation [keyed]: "well_keyed (json_PointRepresentation v)"
  unfolding json_PointRepresentation_def by (rule well_keyed_object) (simp_all add: keyed)

lemma keyed_CredibleInterval [keyed]: "well_keyed (json_CredibleInterval v)"
  unfolding json_CredibleInterval_def by (rule well_keyed_object) (simp_all add: keyed)

lemma keyed_CredibleIntervalsRepresentation [keyed]: "well_keyed (json_CredibleIntervalsRepresentation v)"
  unfolding json_CredibleIntervalsRepresentation_def by (rule well_keyed_object) (simp_all add: keyed)

lemma keyed_ForecastRepresentation [keyed]: "well_keyed (json_ForecastRepresentation v)"
  unfolding json_ForecastRepresentation_def by (rule well_keyed_marshalOne) (simp add: keyed)

lemma keyed_LifecycleEvent [keyed]: "well_keyed (json_LifecycleEvent v)"
  unfolding json_LifecycleEvent_def by (rule well_keyed_object) (simp_all add: keyed)

lemma keyed_Encryption [keyed]: "well_keyed (json_Encryption v)"
  unfolding json_Encryption_def by (rule well_keyed_object) (simp_all add: keyed)

lemma keyed_Publication [keyed]: "well_keyed (json_Publication v)"
  unfolding json_Publication_def by (rule well_keyed_object) (simp_all add: keyed)

lemma keyed_Contact [keyed]: "well_keyed (json_Contact v)"
  unfolding json_Contact_def by (rule well_keyed_object) (simp_all add: keyed)

lemma keyed_Profile [keyed]: "well_keyed (json_Profile v)"
  unfolding json_Profile_def by (rule well_keyed_object) (simp_all add: keyed)

lemma keyed_Member [keyed]: "well_keyed (json_Member v)"
  unfolding json_Member_def by (rule well_keyed_object) (simp_all add: keyed)

lemma keyed_Forecaster [keyed]: "well_keyed (json_Forecaster v)"
  unfolding json_Forecaster_def by (rule well_keyed_object) (simp_all add: keyed)

lemma keyed_PlatformAccount [keyed]: "well_keyed (json_PlatformAccount v)"
  unfolding json_PlatformAccount_def by (rule well_keyed_object) (simp_all add: keyed)

lemma keyed_Platform [keyed]: "well_keyed (json_Platform v)"
  unfolding json_Platform_def by (rule well_keyed_object) (simp_all add: keyed)

lemma keyed_ResolutionSource [keyed]: "well_keyed (json_ResolutionSource v)"
  unfolding json_ResolutionSource_def by (rule well_keyed_object) (simp_all add: keyed)

lemma keyed_ResolvedResolution [keyed]: "well_keyed (json_ResolvedResolution v)"
  unfolding json_ResolvedResolution_def by (rule well_keyed_object) (simp_all add: keyed)

lemma keyed_UnresolvedResolution [keyed]: "well_keyed (json_UnresolvedResolution v)"
  unfolding json_UnresolvedResolution_def by (rule well_keyed_object) (simp_all add: keyed)

lemma keyed_NotApplicableResolution [keyed]: "well_keyed (json_NotApplicableResolution v)"
  unfolding json_NotApplicableResolution_def by (rule well_keyed_object) (simp_all add: keyed)

lemma keyed_Resolution [keyed]: "well_keyed (json_Resolution v)"
  unfolding json_Resolution_def by (rule well_keyed_marshalOne) (simp add: keyed)

lemma keyed_Group [keyed]: "well_keyed (json_Group v)"
  unfolding json_Group_def by (rule well_keyed_object) (simp_all add: keyed)

lemma keyed_GroupMembership [keyed]: "well_keyed (json_GroupMembership v)"
  unfolding json_GroupMembership_def by (rule well_keyed_object) (simp_all add: keyed)

lemma keyed_ConditionalRelationship [keyed]: "well_keyed (json_ConditionalRelationship v)"
  unfolding json_ConditionalRelationship_def by (rule well_keyed_object) (simp_all add: keyed)

lemma keyed_Relationship [keyed]: "well_keyed (json_Relationship v)"
  unfolding json_Relationship_def by (rule well_keyed_marshalOne) (simp add: keyed)

lemma keyed_Target [keyed]: "well_keyed (json_Target v)"
  unfolding json_Target_def by (rule well_keyed_object) (simp_all add: keyed)

lemma keyed_RFC3161Timestamp [keyed]: "well_keyed (json_RFC3161Timestamp v)"
  unfolding json_RFC3161Timestamp_def by (rule well_keyed_object) (simp_all add: keyed)

lemma keyed_ExternalAnchor [keyed]: "well_keyed (json_ExternalAnchor v)"
  unfolding json_ExternalAnchor_def by (rule well_keyed_object) (simp_all add: keyed)

lemma keyed_UnanchoredIntegrity [keyed]: "well_keyed (json_UnanchoredIntegrity v)"
  unfolding json_UnanchoredIntegrity_def by (rule well_keyed_object) (simp_all add: keyed)

lemma keyed_RetainedIntegrity [keyed]: "well_keyed (json_RetainedIntegrity v)"
  unfolding json_RetainedIntegrity_def by (rule well_keyed_object) (simp_all add: keyed)

lemma keyed_PendingIntegrity [keyed]: "well_keyed (json_PendingIntegrity v)"
  unfolding json_PendingIntegrity_def by (rule well_keyed_object) (simp_all add: keyed)

lemma keyed_VerifiedIntegrity [keyed]: "well_keyed (json_VerifiedIntegrity v)"
  unfolding json_VerifiedIntegrity_def by (rule well_keyed_object) (simp_all add: keyed)

lemma keyed_FailedIntegrity [keyed]: "well_keyed (json_FailedIntegrity v)"
  unfolding json_FailedIntegrity_def by (rule well_keyed_object) (simp_all add: keyed)

lemma keyed_LifecycleIntegrity [keyed]: "well_keyed (json_LifecycleIntegrity v)"
  unfolding json_LifecycleIntegrity_def by (rule well_keyed_marshalOne) (simp add: keyed)

lemma keyed_Integrity [keyed]: "well_keyed (json_Integrity v)"
  unfolding json_Integrity_def by (rule well_keyed_marshalOne) (simp add: keyed)

lemma keyed_SealedCommitment [keyed]: "well_keyed (json_SealedCommitment v)"
  unfolding json_SealedCommitment_def by (rule well_keyed_object) (simp_all add: keyed)

lemma keyed_RevealedCommitment [keyed]: "well_keyed (json_RevealedCommitment v)"
  unfolding json_RevealedCommitment_def by (rule well_keyed_object) (simp_all add: keyed)

lemma keyed_Commitment [keyed]: "well_keyed (json_Commitment v)"
  unfolding json_Commitment_def by (rule well_keyed_marshalOne) (simp add: keyed)

lemma keyed_ActivityCheckpoint [keyed]: "well_keyed (json_ActivityCheckpoint v)"
  unfolding json_ActivityCheckpoint_def by (rule well_keyed_object) (simp_all add: keyed)

lemma keyed_Forecast [keyed]: "well_keyed (json_Forecast v)"
  unfolding json_Forecast_def by (rule well_keyed_object) (simp_all add: keyed)

lemma keyed_Question [keyed]: "well_keyed (json_Question v)"
  unfolding json_Question_def by (rule well_keyed_object) (simp_all add: keyed)

lemma keyed_Ledger [keyed]: "distinct (map (fold_name \<circ> fst) (lg_Platforms v)) \<Longrightarrow> well_keyed (json_Ledger v)"
  unfolding json_Ledger_def by (rule well_keyed_object) (auto simp: keyed comp_def)

section \<open>Sorted members\<close>

lemma filter_sort_members: "sort_members (filter (\<lambda>m. P (fst m) (snd m)) ms) = filter (\<lambda>m. P (fst m) (snd m)) (sort_members ms)"
  by (simp add: sort_members_key filter_sort)

lemma json_members_filter: "json_members fs = map (\<lambda>(k, v). (k, the v)) (filter (\<lambda>m. snd m \<noteq> None) fs)"
  by (induction fs) (auto simp: json_members_Cons json_members_def map_filter_simps split: option.split)

lemma sort_json_members: "sort_members (json_members fs) = json_members (sort_members fs)"
  using filter_sort_members [of "\<lambda>k v. v \<noteq> None" fs] map_sort_members [of the "filter (\<lambda>m. snd m \<noteq> None) fs"]
  by (simp add: json_members_filter)

lemma sort_members_eq:
  assumes "set fs = set gs" "distinct (map fst fs)" "sorted_wrt utf16Less (map fst gs)"
  shows "sort_members fs = gs"
proof -
  have less: "sorted_wrt (<) (map (\<lambda>g. utf16_Encode (fst g)) gs)"
    using assms(3) by (simp add: sorted_wrt_map utf16Less_def units_less_iff)
  then have "distinct gs" by (metis distinct_map strict_sorted_iff)
  moreover have "distinct fs" using assms(2) by (simp add: distinct_map)
  ultimately have "mset fs = mset gs" using assms(1) by (simp add: set_eq_iff_mset_eq_distinct)
  moreover have "inj_on (\<lambda>g. utf16_Encode (fst g)) (set gs)" "sorted (map (\<lambda>g. utf16_Encode (fst g)) gs)"
    using less by (auto simp: strict_sorted_iff distinct_map)
  ultimately show ?thesis using assms(1) by (simp add: sort_members_key sort_key_inj_key_eq)
qed

lemma canon_json_object:
  assumes "set fs = set gs" "distinct (map fst fs)" "sorted_wrt utf16Less (map fst gs)"
  shows "canon (json_object fs) = json_object (map (\<lambda>(k, v). (k, map_option canon v)) gs)"
proof -
  have "canon (json_object fs) = GoObject (map (\<lambda>(k, v). (k, canon v)) (json_members (sort_members fs)))"
    by (simp only: json_object_def canon_object sort_json_members)
  then show ?thesis by (simp add: sort_members_eq [OF assms] canon_members json_object_def)
qed

end
