(* ===== verification/Sealed_Properties.thy ===== *)
theory Sealed_Properties
  imports Sealed_Forecasts Member_Order
begin

text \<open>
  What sealing guarantees: a sealed forecast opens to the sealed bundle, a key file opens only the
  forecast it was made for, whatever opens is bound to the commitment, and revealing the key lets
  everybody open what the key file opened.
\<close>

section \<open>The structs of a seal\<close>

definition tagged_PrivateBundle :: "private_bundle \<Rightarrow> bool" where
  "tagged_PrivateBundle v \<longleftrightarrow> pred_option (\<lambda>rs. \<forall>r\<in>set rs. tagged_ForecastRepresentation r) (bu_Representations v)"

definition tagged_sealedPlaintext :: "sealed_plaintext \<Rightarrow> bool" where
  "tagged_sealedPlaintext v \<longleftrightarrow> tagged_PrivateBundle (sp_Bundle v)"

lemma tidy_seal [simp]: "tidy (json_PrivateBundle b)" "tidy (json_sealedPlaintext p)" "tidy (json_KeyFile k)"
  by (simp_all add: json_PrivateBundle_def json_sealedPlaintext_def json_KeyFile_def tidy_object split: option.split)

lemma decode_nil_slice [simp]:
  "decode_nil_slice d z p GoNull = Some None"
  "\<forall>x\<in>set xs. d z (e x) = Some x \<Longrightarrow> decode_nil_slice d z p (GoArray (map e xs)) = Some (Some xs)"
proof -
  show "decode_nil_slice d z p GoNull = Some None" by (simp add: decode_nil_slice_def)
  assume "\<forall>x\<in>set xs. d z (e x) = Some x"
  then have "mapO (d z) (map e xs) = Some xs" by (induction xs) simp_all
  then show "decode_nil_slice d z p (GoArray (map e xs)) = Some (Some xs)" by (simp add: decode_nil_slice_def)
qed

lemma seal_keys [simp]:
  "fold_name ''schema'' = ''schema''" "fold_name ''forecast_id'' = ''forecast_id''" "fold_name ''bundle'' = ''bundle''"
  "fold_name ''salt'' = ''salt''" "fold_name ''commitment_sha256'' = ''commitment_sha256''"
  "fold_name ''key_hex'' = ''key_hex''"
  by code_simp+

lemma PrivateBundle_members:
  "(bu_Representations r = None \<longrightarrow> pred_option (\<lambda>y. \<forall>y\<in>set y. tagged_ForecastRepresentation y) x0 \<longrightarrow>
      member_step decode_PrivateBundle_member r ''representations''
        (Some (case x0 of None \<Rightarrow> GoNull | Some rs \<Rightarrow> GoArray (map json_ForecastRepresentation rs))) = Some (r\<lparr>bu_Representations := x0\<rparr>)) \<and>
   (bu_Rationale r = None \<longrightarrow> member_step decode_PrivateBundle_member r ''rationale'' (map_option GoString x1) = Some (r\<lparr>bu_Rationale := x1\<rparr>)) \<and>
   (bu_KeyFactors r = None \<longrightarrow> member_step decode_PrivateBundle_member r ''key_factors'' (map_option (GoArray \<circ> map GoString) x2) = Some (r\<lparr>bu_KeyFactors := x2\<rparr>)) \<and>
   (bu_Comment r = None \<longrightarrow> member_step decode_PrivateBundle_member r ''comment'' (map_option GoString x3) = Some (r\<lparr>bu_Comment := x3\<rparr>))"
  by ((intro conjI impI)?; simp only: field_names decode_PrivateBundle_member_def split: option.split; auto)

lemma decode_json_seal:
  shows "tagged_PrivateBundle b \<Longrightarrow> decode_PrivateBundle zero_PrivateBundle (json_PrivateBundle b) = Some b"
    and "tagged_sealedPlaintext p \<Longrightarrow> decode_sealedPlaintext zero_sealedPlaintext (json_sealedPlaintext p) = Some p"
    and "decode_KeyFile zero_KeyFile (json_KeyFile k) = Some k"
proof -
  show B: "decode_PrivateBundle zero_PrivateBundle (json_PrivateBundle b) = Some b" if "tagged_PrivateBundle b" for b
    using that by (cases b) (simp add: decode_PrivateBundle_def json_PrivateBundle_def zero_PrivateBundle_def
        PrivateBundle_members decode_struct_object foldO_members tagged_PrivateBundle_def)
  show "decode_sealedPlaintext zero_sealedPlaintext (json_sealedPlaintext p) = Some p" if "tagged_sealedPlaintext p"
    using that by (cases p) (simp add: decode_sealedPlaintext_def json_sealedPlaintext_def zero_sealedPlaintext_def
        decode_sealedPlaintext_member_def field_names decode_struct_object foldO_members tagged_sealedPlaintext_def B)
  show "decode_KeyFile zero_KeyFile (json_KeyFile k) = Some k"
    by (cases k) (simp add: decode_KeyFile_def json_KeyFile_def zero_KeyFile_def
        decode_KeyFile_member_def field_names decode_struct_object foldO_members)
qed

lemma blind_nil_slice [blind]: "blind_to d \<Longrightarrow> blind_to (decode_nil_slice d z)"
proof -
  have nil: "decode_nil_slice d z p v = (if v = GoNull then Some None else map_option Some (decode_slice d z [] v))" for p v
    by (cases v) (simp_all add: decode_nil_slice_def decode_slice_def)
  assume "blind_to d"
  then show ?thesis
    using blind_toD [OF blind_slice] unfolding blind_to_def nil
    by (metis (no_types, lifting) shuffled.cases go_value.distinct)
qed

lemma blind_seal [blind]: "blind_to decode_PrivateBundle" "blind_to decode_sealedPlaintext" "blind_to decode_KeyFile"
proof -
  show B: "blind_to decode_PrivateBundle"
    unfolding decode_PrivateBundle_def decode_PrivateBundle_member_def [abs_def] by (intro blind_struct blind; simp)
  show "blind_to decode_sealedPlaintext"
    unfolding decode_sealedPlaintext_def decode_sealedPlaintext_member_def [abs_def] by (intro blind_struct blind B; simp)
  show "blind_to decode_KeyFile"
    unfolding decode_KeyFile_def decode_KeyFile_member_def [abs_def] by (intro blind_struct blind; simp)
qed

lemma keyed_seal [keyed]: "well_keyed (json_PrivateBundle b)" "well_keyed (json_sealedPlaintext p)" "well_keyed (json_KeyFile k)"
proof -
  show "well_keyed (json_KeyFile k)" unfolding json_KeyFile_def by (rule well_keyed_object) simp_all
  have B: "well_keyed (json_PrivateBundle b)" for b
    unfolding json_PrivateBundle_def by (rule well_keyed_object) (simp_all add: keyed split: option.split)
  then show "well_keyed (json_PrivateBundle b)" .
  show "well_keyed (json_sealedPlaintext p)"
    unfolding json_sealedPlaintext_def by (rule well_keyed_object) (simp_all add: B)
qed

text \<open>So the structs of a seal are read back from their canonical form.\<close>

lemma decode_canon_seal [simp]:
  "tagged_sealedPlaintext p \<Longrightarrow> decode_sealedPlaintext zero_sealedPlaintext (canon (json_sealedPlaintext p)) = Some p"
  "decode_KeyFile zero_KeyFile (canon (json_KeyFile k)) = Some k"
  using blind_toD [OF blind_seal(2) shuffled_canon] blind_toD [OF blind_seal(3) shuffled_canon] decode_json_seal tidy_seal
  by (metis keyed_seal(2,3) tidy_def)+

section \<open>Canonical documents\<close>

text \<open>Canonical bytes contain no control characters, so a key file is one line.\<close>

lemma hex_digit_printable: "n < 16 \<Longrightarrow> 32 \<le> byte (hex_digit n)"
  by (auto simp: hex_digit_def digit_char_def of_char_of take_bit_eq_mod)

lemma json_escape_printable: "c \<in> set (json_escape x) \<Longrightarrow> 32 \<le> byte c"
proof -
  have "byte x div 16 < 16" "byte x mod 16 < 16" using nat_of_char_less_256 [of x] by (linarith, simp)
  then show "c \<in> set (json_escape x) \<Longrightarrow> 32 \<le> byte c"
    by (auto simp: json_escape_def of_char_of hex_digit_printable split: if_splits)
qed

lemma json_quote_printable: "c \<in> set (json_quote s) \<Longrightarrow> 32 \<le> byte c"
  by (auto simp: json_quote_def of_char_of json_escape_printable)

lemma comma_join_printable:
  assumes "\<forall>x\<in>set xs. \<forall>c\<in>set x. 32 \<le> byte c"
  shows "\<forall>c\<in>set (comma_join xs). 32 \<le> byte c"
  using assms by (induction xs rule: comma_join.induct) auto

lemma nat_string_printable: "c \<in> set (nat_string n) \<Longrightarrow> 32 \<le> byte c"
  using nat_string_digits [of n] by (fastforce simp: list_all_iff is_digit_iff)

lemma enc_printable: "\<forall>c\<in>set (enc v). 32 \<le> byte c"
proof (induction v rule: json_nodes.induct)
  case (1 vs)
  then show ?case using comma_join_printable [of "map enc vs"] by auto
next
  case (2 ms)
  let ?m = "\<lambda>(k, v). json_quote k @ '':'' @ enc v"
  have "\<forall>c\<in>set (?m m). 32 \<le> byte c" if "m \<in> set ms" for m
  proof -
    obtain k v where m: "m = (k, v)" by force
    have "\<forall>c\<in>set (enc v). 32 \<le> byte c" by (rule "2.IH") (use that m in auto)
    with json_quote_printable show ?thesis by (auto simp: m)
  qed
  then have "\<forall>c\<in>set (comma_join (map ?m ms)). 32 \<le> byte c" by (intro comma_join_printable) simp
  then show ?case by simp
qed (auto simp: int_string_def nat_string_printable json_quote_printable split: if_splits)

lemma canonical_document_canonicalJSON:
  assumes "canonicalJSON v = Inr s" "struct_value v"
  shows "canonical_document s DefaultLimits = Some (canon v)"
proof -
  obtain d where d: "ParseJSON (Inr (encq go_quote v)) DefaultLimits = Inr d" "Marshal (Any d) = Inr s"
    using canonicalJSON_parsed [OF assms(1)] by metis
  have "Any d = v" using parse_go_bytes [OF assms(2) d(1)] .
  with canonicalized [OF d(1)] d(2) obtain d' where
    "ParseJSON (Inr s) DefaultLimits = Inr d'" "Any d' = canon v" "Marshal (Any d') = Inr s"
    by (metis sum.inject(2))
  then show ?thesis by (simp add: canonical_document_def)
qed

lemma canonical_document_limits:
  assumes "canonicalJSON v = Inr s" "struct_value v" "within_limits l v" "int (length (enc v)) \<le> lm_MaxBytes l"
    and "normalizedLimits l = l"
  shows "canonical_document s l = Some (canon v)"
proof -
  have s: "Marshal v = Inr s" "s = enc (canon v)" using canonicalJSON_value [OF assms(1,2)] by simp_all
  have v: "supported v" "go_maps v" using assms(2) by (simp_all add: struct_value_def)
  have "int (length s) \<le> lm_MaxBytes l" using assms(4) by (simp add: s(2) length_enc_canon)
  with ParseJSON_canonical [OF s(1) v(2), of l] assms(3,5) obtain d where
    "ParseJSON (Inr s) l = Inr d" "Any d = canon v" by metis
  moreover have "Marshal (canon v) = Inr s"
    using v(1) by (simp add: Marshal_enc canon_invariants canon_idem s(2))
  ultimately show ?thesis by (simp add: canonical_document_def)
qed

lemma struct_value_seal:
  "supported (json_sealedPlaintext p) \<Longrightarrow> struct_value (json_sealedPlaintext p)"
  "supported (json_KeyFile k) \<Longrightarrow> struct_value (json_KeyFile k)"
  using tidy_seal by (simp_all add: struct_value_def tidy_def)

section \<open>Key files\<close>

text \<open>An identifier fits a key file when its canonical spelling has at most 256 bytes.\<close>

definition fits_key_file :: "slug \<Rightarrow> bool" where
  "fits_key_file s \<longleftrightarrow> validIJSONString s \<and> length (json_quote s) \<le> 256"

lemma validHex32_iff: "validHex32 s \<longleftrightarrow> (\<exists>d. length d = 32 \<and> s = hex_EncodeToString d)"
  by (auto simp: validHex32_def split: option.splits)

lemma hex_quote_length: "length (json_quote (hex_EncodeToString s)) = 2 * length s + 2"
proof -
  have "length (json_escape (hex_digit n)) = 1" if "n < 16" for n
    using that by (intro json_escape_length(2)) (auto simp: hex_digit_def digit_char_def of_char_of take_bit_eq_mod)
  then have "length (concat (map json_escape (hex_EncodeToString s))) = 2 * length s"
  proof (induction s)
    case (Cons c s)
    have "byte c div 16 < 16" "byte c mod 16 < 16" using nat_of_char_less_256 [of c] by (linarith, simp)
    with Cons show ?case by (simp add: Let_def)
  qed simp
  then show ?thesis by (simp add: json_quote_def)
qed

lemma json_quote_length: "length (json_quote s) \<le> 6 * length s + 2"
proof -
  have "length (concat (map json_escape s)) \<le> 6 * length s"
    by (induction s) (use json_escape_length(1) in \<open>auto intro: add_le_mono\<close>)
  then show ?thesis by (simp add: json_quote_def)
qed

lemma valid_key_file_names:
  "validIJSONString ''schema''" "validIJSONString ''question_id''" "validIJSONString ''question_revision_id''"
  "validIJSONString ''forecast_id''" "validIJSONString ''commitment_sha256''" "validIJSONString ''key_hex''"
  "validIJSONString KeyFileSchema"
  by code_simp+

lemma KeyFile_object:
  "json_KeyFile k = GoObject
     [(''schema'', GoString (kf_Schema k)), (''question_id'', GoString (kf_QuestionID k)),
      (''question_revision_id'', GoString (kf_QuestionRevisionID k)), (''forecast_id'', GoString (kf_ForecastID k)),
      (''commitment_sha256'', GoString (kf_CommitmentSHA256 k)), (''key_hex'', GoString (kf_KeyHex k))]"
  by (simp add: json_KeyFile_def json_object_def json_members_Cons) (simp add: json_members_def map_filter_simps)

lemma key_file_canonical:
  assumes "EncodeKeyFile q r f d key = Inr data" "fits_key_file q" "fits_key_file r" "fits_key_file f"
  obtains s where "data = s @ [newline]" "newline \<notin> set s" "length s < 4096"
    "canonical_document s key_file_limits = Some (canon (json_KeyFile
       \<lparr>kf_Schema = KeyFileSchema, kf_QuestionID = q, kf_QuestionRevisionID = r, kf_ForecastID = f,
        kf_CommitmentSHA256 = d, kf_KeyHex = hex_EncodeToString key\<rparr>))"
    "length key = 32" "validHex32 d"
proof -
  define k where "k = \<lparr>kf_Schema = KeyFileSchema, kf_QuestionID = q, kf_QuestionRevisionID = r, kf_ForecastID = f,
    kf_CommitmentSHA256 = d, kf_KeyHex = hex_EncodeToString key\<rparr>"
  from assms(1) obtain s where s: "canonicalJSON (json_KeyFile k) = Inr s" "data = s @ [newline]"
    and ok: "length key = 32" "validHex32 d"
    by (auto simp: EncodeKeyFile_def canonical_def k_def bindR_eq_Inr_iff split: if_splits sum.splits)
  obtain d' where d': "length d' = 32" "d = hex_EncodeToString d'" using ok(2) validHex32_iff by blast
  have "supported (json_KeyFile k)"
    using assms(2-4) hex_valid [of d'] hex_valid [of key]
    by (simp add: KeyFile_object fits_key_file_def k_def d'(2) valid_key_file_names)
  then have v: "struct_value (json_KeyFile k)" by (rule struct_value_seal)
  have limits: "normalizedLimits key_file_limits = key_file_limits"
    by (simp add: normalizedLimits_def or_default_def key_file_limits_def)
  have ids: "length (json_quote q) \<le> 256" "length (json_quote r) \<le> 256" "length (json_quote f) \<le> 256"
    using assms(2-4) by (simp_all add: fits_key_file_def)
  have hexes: "length (json_quote d) = 66" "length (json_quote (hex_EncodeToString key)) = 66"
    using hex_quote_length [of d'] hex_quote_length [of key] by (simp_all add: d' ok)
  note names = json_quote_length [of "''schema''"] json_quote_length [of "''question_id''"]
    json_quote_length [of "''question_revision_id''"] json_quote_length [of "''forecast_id''"]
    json_quote_length [of "''commitment_sha256''"] json_quote_length [of "''key_hex''"] json_quote_length [of KeyFileSchema]
  have "length (enc (json_KeyFile k)) < 4096"
    using names ids hexes by (simp add: KeyFile_object k_def)
  moreover have "within_limits key_file_limits (json_KeyFile k)"
    using names ids hexes by (simp add: within_limits_def KeyFile_object k_def key_file_limits_def)
  ultimately have "canonical_document s key_file_limits = Some (canon (json_KeyFile k))" and "length s < 4096"
    using canonical_document_limits [OF s(1) v _ _ limits] canonicalJSON_value(1) [OF s(1) v]
    by (simp_all add: key_file_limits_def length_enc_canon)
  moreover have "newline \<notin> set s"
    using canonicalJSON_value(1) [OF s(1) v] enc_printable by (force simp: newline_def of_char_of)
  ultimately show thesis using that s(2) ok by (simp add: k_def)
qed

lemma DecodeKeyFile_encoded:
  assumes "EncodeKeyFile q r f d key = Inr data" "fits_key_file q" "fits_key_file r" "fits_key_file f"
  shows "DecodeKeyFile data q' r' f' d' =
    (if (q', r', f', d') = (q, r, f, d)
     then Inr \<lparr>kf_Schema = KeyFileSchema, kf_QuestionID = q, kf_QuestionRevisionID = r, kf_ForecastID = f,
       kf_CommitmentSHA256 = d, kf_KeyHex = hex_EncodeToString key\<rparr>
     else Inl (StageFailure StageKeyFileBindingFailed))"
  using assms by (rule key_file_canonical) (auto simp: DecodeKeyFile_def)

text \<open>
  C12: a key file opens the forecast it was made for and no other.  Decoding an encoded key file
  under the same four values returns them with the key; under any other values it fails, and the
  failure is the binding stage.
\<close>

theorem key_file_binding:
  assumes "EncodeKeyFile q r f d key = Inr data" "fits_key_file q" "fits_key_file r" "fits_key_file f"
  shows "DecodeKeyFile data q' r' f' d' =
    (if (q', r', f', d') = (q, r, f, d)
     then Inr \<lparr>kf_Schema = KeyFileSchema, kf_QuestionID = q, kf_QuestionRevisionID = r, kf_ForecastID = f,
       kf_CommitmentSHA256 = d, kf_KeyHex = hex_EncodeToString key\<rparr>
     else Inl (StageFailure StageKeyFileBindingFailed))"
  using assms by (rule DecodeKeyFile_encoded)

section \<open>Opening\<close>

lemma openWithKeyD:
  assumes "openWithKey A key q r f c = Inr (bundle, plaintext)"
  obtains sealed where
    "Option.bind (canonical_document plaintext DefaultLimits) (decode_sealedPlaintext zero_sealedPlaintext) = Some sealed"
    "canonicalJSON (json_sealedPlaintext sealed) = Inr plaintext"
    "sealed = \<lparr>sp_Schema = SealScheme, sp_QuestionID = q, sp_QuestionRevisionID = r, sp_ForecastID = f,
       sp_Bundle = bundle, sp_Salt = sp_Salt sealed\<rparr>"
    "validHex32 (sp_Salt sealed)" "\<not> no_representations bundle" "\<not> empty_key_factor bundle"
    "hex_EncodeToString (sha256 plaintext) = dg_Value (sc_CommitmentHash c)"
    "sc_Scheme c = SealScheme" "dg_Algorithm (sc_CommitmentHash c) = ''sha-256''"
proof -
  have hash: "hex_EncodeToString t = s" if "hex_DecodeString s = Some t" "validHex32 s" for s t
    using that by (auto simp: validHex32_def)
  from assms obtain sealed where
    "Option.bind (canonical_document plaintext DefaultLimits) (decode_sealedPlaintext zero_sealedPlaintext) = Some sealed"
    "canonicalJSON (json_sealedPlaintext sealed) = Inr plaintext"
    "sp_Schema sealed = SealScheme" "sp_QuestionID sealed = q" "sp_QuestionRevisionID sealed = r" "sp_ForecastID sealed = f"
    "sp_Bundle sealed = bundle" "validHex32 (sp_Salt sealed)" "\<not> no_representations bundle" "\<not> empty_key_factor bundle"
    "hex_DecodeString (dg_Value (sc_CommitmentHash c)) = Some (sha256 plaintext)" "validHex32 (dg_Value (sc_CommitmentHash c))"
    "sc_Scheme c = SealScheme" "dg_Algorithm (sc_CommitmentHash c) = ''sha-256''"
    unfolding openWithKey_def by (auto simp: bindR_eq_Inr_iff split: if_splits option.splits)
  then show thesis by (intro that [of sealed]) (simp_all add: hash)
qed

text \<open>
  C9: what opens is what was committed to.  When \<open>Open\<close> succeeds, the plaintext is the canonical
  JSON of a bundle together with exactly the identifiers asked for and a salt of 32 bytes, its
  SHA-256 is the commitment's, and the bundle has representations and no empty key factor.
\<close>

theorem Open_bound:
  assumes "Open A keyFile q r f c = Inr res"
  shows "\<exists>salt. length salt = 32 \<and>
    canonicalJSON (json_sealedPlaintext
      \<lparr>sp_Schema = SealScheme, sp_QuestionID = q, sp_QuestionRevisionID = r, sp_ForecastID = f,
       sp_Bundle = or_Bundle res, sp_Salt = hex_EncodeToString salt\<rparr>) = Inr (or_Plaintext res) \<and>
    sc_CommitmentHash c = \<lparr>dg_Algorithm = ''sha-256'', dg_Value = hex_EncodeToString (sha256 (or_Plaintext res))\<rparr> \<and>
    \<not> no_representations (or_Bundle res) \<and> \<not> empty_key_factor (or_Bundle res)"
proof -
  from assms obtain key where "openWithKey A key q r f c = Inr (or_Bundle res, or_Plaintext res)"
    by (auto simp: Open_def bindR_eq_Inr_iff split: option.splits if_splits)
  then show ?thesis
  proof (rule openWithKeyD)
    fix sealed
    assume s: "canonicalJSON (json_sealedPlaintext sealed) = Inr (or_Plaintext res)"
      "sealed = \<lparr>sp_Schema = SealScheme, sp_QuestionID = q, sp_QuestionRevisionID = r, sp_ForecastID = f,
         sp_Bundle = or_Bundle res, sp_Salt = sp_Salt sealed\<rparr>" "validHex32 (sp_Salt sealed)"
      and hash: "hex_EncodeToString (sha256 (or_Plaintext res)) = dg_Value (sc_CommitmentHash c)"
        "dg_Algorithm (sc_CommitmentHash c) = ''sha-256''"
      and checked: "\<not> no_representations (or_Bundle res)" "\<not> empty_key_factor (or_Bundle res)"
    from s(3) obtain salt where "length salt = 32" "sp_Salt sealed = hex_EncodeToString salt"
      using validHex32_iff by blast
    with s(1,2) hash checked show ?thesis by (metis digest.surjective old.unit.exhaust)
  qed
qed

text \<open>
  C10: a commitment binds its author.  Whatever two openings of the same commitment digest return,
  with whatever ciphers, key files and ciphertexts, either the bundles are the same or the two
  plaintexts are a collision of SHA-256.
\<close>

theorem commitment_binds:
  assumes "Open A keyFile q r f c = Inr res" "Open A' keyFile' q' r' f' c' = Inr res'"
    and "sc_CommitmentHash c = sc_CommitmentHash c'"
  shows "or_Bundle res = or_Bundle res' \<and> (q, r, f) = (q', r', f') \<or>
    or_Plaintext res \<noteq> or_Plaintext res' \<and> sha256 (or_Plaintext res) = sha256 (or_Plaintext res')"
proof -
  from assms(1) obtain key where 1: "openWithKey A key q r f c = Inr (or_Bundle res, or_Plaintext res)"
    by (auto simp: Open_def bindR_eq_Inr_iff split: option.splits if_splits)
  from assms(2) obtain key' where 2: "openWithKey A' key' q' r' f' c' = Inr (or_Bundle res', or_Plaintext res')"
    by (auto simp: Open_def bindR_eq_Inr_iff split: option.splits if_splits)
  show ?thesis
  proof (rule openWithKeyD [OF 1], rule openWithKeyD [OF 2])
    fix x y
    assume x: "Option.bind (canonical_document (or_Plaintext res) DefaultLimits) (decode_sealedPlaintext zero_sealedPlaintext) = Some x"
      "x = \<lparr>sp_Schema = SealScheme, sp_QuestionID = q, sp_QuestionRevisionID = r, sp_ForecastID = f,
         sp_Bundle = or_Bundle res, sp_Salt = sp_Salt x\<rparr>"
      "hex_EncodeToString (sha256 (or_Plaintext res)) = dg_Value (sc_CommitmentHash c)"
      and y: "Option.bind (canonical_document (or_Plaintext res') DefaultLimits) (decode_sealedPlaintext zero_sealedPlaintext) = Some y"
      "y = \<lparr>sp_Schema = SealScheme, sp_QuestionID = q', sp_QuestionRevisionID = r', sp_ForecastID = f',
         sp_Bundle = or_Bundle res', sp_Salt = sp_Salt y\<rparr>"
      "hex_EncodeToString (sha256 (or_Plaintext res')) = dg_Value (sc_CommitmentHash c')"
    have "sha256 (or_Plaintext res) = sha256 (or_Plaintext res')"
      using x(3) y(3) assms(3) by (metis hex_EncodeToString_inj)
    moreover have "or_Bundle res = or_Bundle res' \<and> (q, r, f) = (q', r', f')" if "or_Plaintext res = or_Plaintext res'"
    proof -
      have "x = y" using x(1) y(1) that by simp
      with x(2) y(2) show ?thesis by (metis sealed_plaintext.ext_inject Pair_inject)
    qed
    ultimately show ?thesis by blast
  qed
qed

section \<open>Sealing\<close>

text \<open>A bundle that can be sealed for a forecast: well tagged, of valid text, and far below the limits.\<close>

definition sealable :: "slug \<Rightarrow> slug \<Rightarrow> slug \<Rightarrow> private_bundle \<Rightarrow> bool" where
  "sealable q r f b \<longleftrightarrow>
     tagged_PrivateBundle b \<and> supported (json_PrivateBundle b) \<and> fits_key_file q \<and> fits_key_file r \<and> fits_key_file f \<and>
     go_size (json_PrivateBundle b) \<le> 400000 \<and> json_nodes (json_PrivateBundle b) \<le> 400000 \<and>
     json_depth (json_PrivateBundle b) \<le> 60"

lemma json_quote_longer: "length s \<le> length (json_quote s)"
proof -
  have "1 \<le> length (json_escape c)" for c by (simp add: json_escape_def)
  then have "length s \<le> length (concat (map json_escape s))" by (induction s) (auto intro: add_le_mono [of 1, simplified])
  then show ?thesis by (simp add: json_quote_def)
qed

lemma fits_key_file_length: "fits_key_file s \<Longrightarrow> length s \<le> 256"
  using json_quote_longer [of s] by (simp add: fits_key_file_def)

lemma sealedPlaintext_object:
  "json_sealedPlaintext k = GoObject
     [(''schema'', GoString (sp_Schema k)), (''question_id'', GoString (sp_QuestionID k)),
      (''question_revision_id'', GoString (sp_QuestionRevisionID k)), (''forecast_id'', GoString (sp_ForecastID k)),
      (''bundle'', json_PrivateBundle (sp_Bundle k)), (''salt'', GoString (sp_Salt k))]"
  by (simp add: json_sealedPlaintext_def json_object_def json_members_Cons) (simp add: json_members_def map_filter_simps)

lemma valid_seal_names: "validIJSONString ''bundle''" "validIJSONString ''salt''" "validIJSONString SealScheme" "validIJSONString ''scheme''"
  by code_simp+

lemma canonicalJSON_length:
  assumes "canonicalJSON v = Inr s"
  shows "length s \<le> go_size v"
proof -
  obtain d where "ParseJSON (Inr (encq go_quote v)) DefaultLimits = Inr d" "Marshal (Any d) = Inr s"
    using canonicalJSON_parsed [OF assms] by metis
  then have "length s \<le> length (encq go_quote v)" using canonicalized by (metis sum.inject(2))
  then show ?thesis using go_size_length [of v] by linarith
qed

lemma sealed_plaintext_encodes:
  assumes "sealable q r f b" "length salt = 32"
  defines "p \<equiv> \<lparr>sp_Schema = SealScheme, sp_QuestionID = q, sp_QuestionRevisionID = r, sp_ForecastID = f,
    sp_Bundle = b, sp_Salt = hex_EncodeToString salt\<rparr>"
  obtains s where "canonicalJSON (json_sealedPlaintext p) = Inr s" "length s \<le> 500000"
    "canonical_document s DefaultLimits = Some (canon (json_sealedPlaintext p))"
proof -
  have ids: "length q \<le> 256" "length r \<le> 256" "length f \<le> 256"
    using assms(1) fits_key_file_length by (simp_all add: sealable_def)
  have "supported (json_sealedPlaintext p)"
    using assms(1) hex_valid [of salt]
    by (simp add: sealedPlaintext_object p_def sealable_def fits_key_file_def valid_key_file_names valid_seal_names)
  then have v: "struct_value (json_sealedPlaintext p)" by (rule struct_value_seal)
  have size: "go_size (json_sealedPlaintext p) \<le> 500000"
    using assms(1,2) ids by (simp add: sealedPlaintext_object p_def sealable_def)
  moreover have "json_nodes (json_sealedPlaintext p) \<le> 500000" "json_depth (json_sealedPlaintext p) \<le> 64"
    using assms(1) by (simp_all add: sealedPlaintext_object p_def sealable_def)
  ultimately have "canonicalJSON (json_sealedPlaintext p) = Inr (enc (canon (json_sealedPlaintext p)))"
    using canonicalJSON_ok [OF v] fits_small by blast
  with that canonicalJSON_length size canonical_document_canonicalJSON [OF _ v] show thesis by (meson order_trans)
qed

lemma EncodeKeyFile_succeeds:
  assumes "fits_key_file q" "fits_key_file r" "fits_key_file f" "length key = 32"
  shows "\<exists>data. EncodeKeyFile q r f (hex_EncodeToString (sha256 p)) key = Inr data"
proof -
  define k where "k = \<lparr>kf_Schema = KeyFileSchema, kf_QuestionID = q, kf_QuestionRevisionID = r, kf_ForecastID = f,
    kf_CommitmentSHA256 = hex_EncodeToString (sha256 p), kf_KeyHex = hex_EncodeToString key\<rparr>"
  have ids: "length q \<le> 256" "length r \<le> 256" "length f \<le> 256" using assms fits_key_file_length by simp_all
  have "supported (json_KeyFile k)"
    using assms hex_valid by (simp add: KeyFile_object fits_key_file_def k_def valid_key_file_names)
  then have v: "struct_value (json_KeyFile k)" by (rule struct_value_seal)
  have "fits_defaults (json_KeyFile k)"
    by (rule fits_small) (use ids assms(4) in \<open>simp_all add: KeyFile_object k_def\<close>)
  from canonicalJSON_ok [OF v this] show ?thesis
    using assms(4) by (auto simp: EncodeKeyFile_def canonical_def k_def validHex32_def)
qed

lemma sealAAD_succeeds:
  assumes "fits_key_file q" "fits_key_file r" "fits_key_file f"
  shows "\<exists>aad. sealAAD q r f (hex_EncodeToString d) = Inr aad"
proof -
  have "supported (GoObject
    [(''scheme'', GoString SealScheme), (''question_id'', GoString q), (''question_revision_id'', GoString r),
     (''forecast_id'', GoString f), (''commitment_sha256'', GoString (hex_EncodeToString d))])"
    using assms hex_valid [of d] by (simp add: fits_key_file_def valid_key_file_names valid_seal_names)
  from Marshal_enc [OF this] show ?thesis by (simp add: sealAAD_def)
qed

lemma read_all_fills:
  assumes "fills entropy" "read_all entropy e ns = (Inr ss, e')"
  shows "map length ss = ns"
  using assms(2)
proof (induction ns arbitrary: e ss)
  case (Cons n ns)
  with assms(1) show ?case by (fastforce simp: fills_def split: prod.splits sum.splits)
qed simp

lemma three_reads:
  "map length xs = [i, j, k] \<Longrightarrow> \<exists>x y z. xs = [x, y, z] \<and> length x = i \<and> length y = j \<and> length z = k"
  by (auto simp: map_eq_Cons_conv)

text \<open>Sealing with given random bytes, and opening with their key.\<close>

lemma seal_with_opens:
  assumes A: "aead_documented A" and b: "sealable q r f b" "\<not> no_representations b" "\<not> empty_key_factor b"
    and len: "length salt = 32" "length key = 32" "length nonce = 12"
  obtains res p where "seal_with A q r f b hint salt key nonce = Inr res"
    "openWithKey A key q r f (sr_Commitment res) = Inr (b, p)"
    "EncodeKeyFile q r f (dg_Value (sc_CommitmentHash (sr_Commitment res))) key = Inr (sr_KeyFile res)"
proof -
  let ?p = "\<lparr>sp_Schema = SealScheme, sp_QuestionID = q, sp_QuestionRevisionID = r, sp_ForecastID = f,
    sp_Bundle = b, sp_Salt = hex_EncodeToString salt\<rparr>"
  obtain s where s: "canonicalJSON (json_sealedPlaintext ?p) = Inr s" "length s \<le> 500000"
    "canonical_document s DefaultLimits = Some (canon (json_sealedPlaintext ?p))"
    using sealed_plaintext_encodes [OF b(1) len(1)] .
  have ids: "fits_key_file q" "fits_key_file r" "fits_key_file f" and tag: "tagged_sealedPlaintext ?p"
    using b(1) by (simp_all add: sealable_def tagged_sealedPlaintext_def)
  let ?d = "hex_EncodeToString (sha256 s)"
  obtain aad where aad: "sealAAD q r f ?d = Inr aad" using sealAAD_succeeds [OF ids] by blast
  obtain data where data: "EncodeKeyFile q r f ?d key = Inr data" using EncodeKeyFile_succeeds [OF ids len(2)] by blast
  have new: "ae_New A key = None" and "length (ae_Seal A key nonce s aad) = length s + 16"
    and opens: "ae_Open A key nonce (ae_Seal A key nonce s aad) aad = Some s"
    using A len by (simp_all add: aead_documented_def)
  then have size: "\<not> length (ae_Seal A key nonce s aad) < 16"
    "\<not> lm_MaxBytes DefaultLimits < int (length (ae_Seal A key nonce s aad))"
    using s(2) by (simp_all add: DefaultLimits_def)
  define c where "c = \<lparr>sc_Scheme = SealScheme, sc_CommitmentHash = \<lparr>dg_Algorithm = ''sha-256'', dg_Value = ?d\<rparr>,
    sc_Encryption = \<lparr>en_Algorithm = EncryptionProfile, en_Nonce = base64_Encode nonce,
      en_Ciphertext = base64_Encode (ae_Seal A key nonce s aad)\<rparr>, sc_KeyHint = hint\<rparr>"
  have "seal_with A q r f b hint salt key nonce = Inr \<lparr>sr_Commitment = c, sr_KeyFile = data\<rparr>"
    by (simp add: seal_with_def canonical_def s(1) aad new data Let_def c_def)
  moreover have "decode_sealedPlaintext zero_sealedPlaintext (canon (json_sealedPlaintext ?p)) = Some ?p"
    using tag by simp
  then have "openWithKey A key q r f c = Inr (b, s)"
    using len b(2,3) by (simp add: openWithKey_def c_def validHex32_def aad new opens size s(1,3))
  ultimately show thesis using data that by (simp add: c_def)
qed

text \<open>
  C8: what is sealed can be opened.  With a cipher that behaves as documented and an entropy source
  that fills its buffers, \<open>Seal\<close> succeeds on every well-formed bundle within the limits, and
  \<open>Open\<close> with the key file it wrote returns exactly the sealed bundle.
\<close>

theorem Open_Seal:
  assumes "aead_documented A" "fills entropy" "read_all entropy e [32, KeySize, NonceSize] = (Inr bytes, e')"
    and "sealable q r f b" "r \<noteq> []" "\<not> no_representations b" "\<not> empty_key_factor b"
  shows "\<exists>res opened. Seal A (Some entropy) e q r f b hint = (Inr res, e') \<and>
    Open A (sr_KeyFile res) q r f (sr_Commitment res) = Inr opened \<and> or_Bundle opened = b"
proof -
  have "map length bytes = [32, KeySize, NonceSize]" using assms(2,3) by (rule read_all_fills)
  then obtain salt key nonce where bytes: "bytes = [salt, key, nonce]"
    and len: "length salt = 32" "length key = 32" "length nonce = 12"
    using three_reads by metis
  obtain res p where res: "seal_with A q r f b hint salt key nonce = Inr res"
    "openWithKey A key q r f (sr_Commitment res) = Inr (b, p)"
    "EncodeKeyFile q r f (dg_Value (sc_CommitmentHash (sr_Commitment res))) key = Inr (sr_KeyFile res)"
    using seal_with_opens [OF assms(1,4,6,7) len] .
  have "Seal A (Some entropy) e q r f b hint = (Inr res, e')"
    using assms(3,5-7) res(1) by (simp add: Seal_def bytes)
  moreover have ids: "fits_key_file q" "fits_key_file r" "fits_key_file f" using assms(4) by (simp_all add: sealable_def)
  have "DecodeKeyFile (sr_KeyFile res) q r f (dg_Value (sc_CommitmentHash (sr_Commitment res))) =
    Inr \<lparr>kf_Schema = KeyFileSchema, kf_QuestionID = q, kf_QuestionRevisionID = r, kf_ForecastID = f,
      kf_CommitmentSHA256 = dg_Value (sc_CommitmentHash (sr_Commitment res)), kf_KeyHex = hex_EncodeToString key\<rparr>"
    using DecodeKeyFile_encoded [OF res(3) ids, of q r f "dg_Value (sc_CommitmentHash (sr_Commitment res))"] by simp
  then have "Open A (sr_KeyFile res) q r f (sr_Commitment res) =
      Inr \<lparr>or_Bundle = b, or_Plaintext = p, or_KeyHex = hex_EncodeToString key\<rparr>"
    using res(2) len(2) by (simp add: Open_def)
  ultimately show ?thesis by simp
qed

section \<open>Revealing\<close>

lemma revealed_parts:
  "sealed_commitment.truncate (sealed_commitment.extend c (revealed_commitment.fields time keyHex)) = c"
  "rc_RevealedKey (sealed_commitment.extend c (revealed_commitment.fields time keyHex)) = keyHex"
  by (simp_all add: sealed_commitment.defs revealed_commitment.defs)

text \<open>
  C11: revealing publishes exactly what the key file opened.  Once \<open>Open\<close> succeeded, \<open>Reveal\<close> on
  the commitment extended by the key that \<open>Open\<close> reported returns the same bundle and plaintext.
  Conversely \<open>Reveal\<close> never returns a bundle that the sealed commitment does not contain: with the
  key it publishes, \<open>openWithKey\<close> succeeds on the sealed commitment.
\<close>

theorem Reveal_agrees:
  "(\<forall>res. Open A keyFile q r f c = Inr res \<longrightarrow>
     Reveal A q r f (sealed_commitment.extend c (revealed_commitment.fields time (or_KeyHex res))) =
       Inr \<lparr>rv_Schema = SealScheme, rv_QuestionID = q, rv_QuestionRevisionID = r, rv_ForecastID = f,
         rv_Bundle = or_Bundle res, rv_Plaintext = or_Plaintext res\<rparr>) \<and>
   (\<forall>keyHex payload. Reveal A q r f (sealed_commitment.extend c (revealed_commitment.fields time keyHex)) = Inr payload \<longrightarrow>
     (\<exists>key. hex_DecodeString keyHex = Some key \<and> length key = KeySize \<and>
       openWithKey A key q r f c = Inr (rv_Bundle payload, rv_Plaintext payload)))"
proof (intro conjI allI impI)
  fix res assume o: "Open A keyFile q r f c = Inr res"
  then obtain key where "hex_DecodeString (or_KeyHex res) = Some key" "length key = KeySize"
    "openWithKey A key q r f c = Inr (or_Bundle res, or_Plaintext res)"
    by (auto simp: Open_def bindR_eq_Inr_iff split: option.splits if_splits)
  then show "Reveal A q r f (sealed_commitment.extend c (revealed_commitment.fields time (or_KeyHex res))) =
      Inr \<lparr>rv_Schema = SealScheme, rv_QuestionID = q, rv_QuestionRevisionID = r, rv_ForecastID = f,
        rv_Bundle = or_Bundle res, rv_Plaintext = or_Plaintext res\<rparr>"
    by (simp add: Reveal_def revealed_parts)
next
  fix keyHex payload
  assume "Reveal A q r f (sealed_commitment.extend c (revealed_commitment.fields time keyHex)) = Inr payload"
  then show "\<exists>key. hex_DecodeString keyHex = Some key \<and> length key = KeySize \<and>
      openWithKey A key q r f c = Inr (rv_Bundle payload, rv_Plaintext payload)"
    by (auto simp: Reveal_def revealed_parts split: option.splits if_splits sum.splits)
qed


section \<open>A concrete seal\<close>

text \<open>A cipher and an entropy source with the documented behaviour, to run the theorems on.\<close>

definition toy_aead :: aead where
  "toy_aead =
     \<lparr>ae_New = (\<lambda>key. if length key = KeySize then None else Some ''bad key length''),
      ae_Seal = (\<lambda>key nonce text aad. text @ replicate Overhead CHR ''t''),
      ae_Open = (\<lambda>key nonce c aad. if length c < Overhead then None else Some (take (length c - Overhead) c))\<rparr>"

definition toy_entropy :: "nat entropy" where
  "toy_entropy e n = (Inr (replicate n (char_of e)), Suc e)"

definition toy_bundle :: private_bundle where
  "toy_bundle =
     \<lparr>bu_Representations = Some [probability_example ''0.25''], bu_Rationale = Some ''quiet'',
      bu_KeyFactors = Some [''one'', ''two''], bu_Comment = None\<rparr>"

lemma toy_parameters:
  "aead_documented toy_aead" "fills toy_entropy"
  "read_all toy_entropy 7 [32, KeySize, NonceSize] =
     (Inr [replicate 32 (char_of (7::nat)), replicate 32 (char_of (8::nat)), replicate 12 (char_of (9::nat))], 10)"
  by (simp_all add: aead_documented_def toy_aead_def fills_def toy_entropy_def)

lemma toy_sealable: "sealable ''q1'' ''r1'' ''f1'' toy_bundle"
  by code_simp

lemma toy_checks: "\<not> no_representations toy_bundle" "\<not> empty_key_factor toy_bundle"
  by code_simp+

theorem Open_Seal_witness:
  "\<exists>res opened. Seal toy_aead (Some toy_entropy) 7 ''q1'' ''r1'' ''f1'' toy_bundle ''hint'' = (Inr res, 10) \<and>
    Open toy_aead (sr_KeyFile res) ''q1'' ''r1'' ''f1'' (sr_Commitment res) = Inr opened \<and> or_Bundle opened = toy_bundle"
  by (rule Open_Seal [OF toy_parameters toy_sealable _ toy_checks]) simp

lemma toy_seal:
  obtains res :: seal_result and opened :: open_result where "EncodeKeyFile ''q1'' ''r1'' ''f1'' (dg_Value (sc_CommitmentHash (sr_Commitment res))) (replicate 32 CHR ''k'') = Inr (sr_KeyFile res)"
    "Open toy_aead (sr_KeyFile res) ''q1'' ''r1'' ''f1'' (sr_Commitment res) = Inr opened" "or_Bundle opened = toy_bundle"
proof -
  let ?key = "replicate 32 CHR ''k''"
  have len: "length (replicate 32 CHR ''s'') = 32" "length ?key = 32" "length (replicate 12 CHR ''n'') = 12" by simp_all
  obtain res p where res: "seal_with toy_aead ''q1'' ''r1'' ''f1'' toy_bundle [] (replicate 32 CHR ''s'') ?key (replicate 12 CHR ''n'') = Inr res"
    "openWithKey toy_aead ?key ''q1'' ''r1'' ''f1'' (sr_Commitment res) = Inr (toy_bundle, p)"
    "EncodeKeyFile ''q1'' ''r1'' ''f1'' (dg_Value (sc_CommitmentHash (sr_Commitment res))) ?key = Inr (sr_KeyFile res)"
    using seal_with_opens [OF toy_parameters(1) toy_sealable toy_checks len] .
  have ids: "fits_key_file ''q1''" "fits_key_file ''r1''" "fits_key_file ''f1''" using toy_sealable by (simp_all add: sealable_def)
  have "DecodeKeyFile (sr_KeyFile res) ''q1'' ''r1'' ''f1'' (dg_Value (sc_CommitmentHash (sr_Commitment res))) =
    Inr \<lparr>kf_Schema = KeyFileSchema, kf_QuestionID = ''q1'', kf_QuestionRevisionID = ''r1'', kf_ForecastID = ''f1'',
      kf_CommitmentSHA256 = dg_Value (sc_CommitmentHash (sr_Commitment res)), kf_KeyHex = hex_EncodeToString ?key\<rparr>"
    using DecodeKeyFile_encoded [OF res(3) ids] by simp
  then have "Open toy_aead (sr_KeyFile res) ''q1'' ''r1'' ''f1'' (sr_Commitment res) =
      Inr \<lparr>or_Bundle = toy_bundle, or_Plaintext = p, or_KeyHex = hex_EncodeToString ?key\<rparr>"
    using res(2) len(2) by (simp add: Open_def)
  then show thesis using that [OF res(3)] by simp
qed

theorem key_file_binding_witness:
  "\<exists>data d. EncodeKeyFile ''q1'' ''r1'' ''f1'' d (replicate 32 CHR ''k'') = Inr data \<and>
    DecodeKeyFile data ''q1'' ''r1'' ''f2'' d = Inl (StageFailure StageKeyFileBindingFailed)"
proof -
  have ids: "fits_key_file ''q1''" "fits_key_file ''r1''" "fits_key_file ''f1''"
    using toy_sealable by (simp_all add: sealable_def)
  obtain data where "EncodeKeyFile ''q1'' ''r1'' ''f1'' (hex_EncodeToString (sha256 [])) (replicate 32 CHR ''k'') = Inr data"
    using EncodeKeyFile_succeeds [OF ids, of "replicate 32 CHR ''k''"] by auto
  with key_file_binding [OF this ids, of "''q1''" "''r1''" "''f2''"] show ?thesis by auto
qed

theorem Open_bound_witness:
  "\<exists>keyFile c res salt. Open toy_aead keyFile ''q1'' ''r1'' ''f1'' c = Inr res \<and> length salt = (32::nat) \<and>
    canonicalJSON (json_sealedPlaintext
      \<lparr>sp_Schema = SealScheme, sp_QuestionID = ''q1'', sp_QuestionRevisionID = ''r1'', sp_ForecastID = ''f1'',
       sp_Bundle = or_Bundle res, sp_Salt = hex_EncodeToString salt\<rparr>) = Inr (or_Plaintext res)"
  by (rule toy_seal) (use Open_bound in blast)

theorem commitment_binds_witness:
  "\<exists>keyFile c res. Open toy_aead keyFile ''q1'' ''r1'' ''f1'' c = Inr res \<and>
    (or_Bundle res = or_Bundle res \<and> (''q1'', ''r1'', ''f1'') = (''q1'', ''r1'', ''f1'') \<or>
     or_Plaintext res \<noteq> or_Plaintext res \<and> sha256 (or_Plaintext res) = sha256 (or_Plaintext res))"
  by (rule toy_seal) (use commitment_binds in blast)

theorem Reveal_agrees_witness:
  "\<exists>keyFile c res. Open toy_aead keyFile ''q1'' ''r1'' ''f1'' c = Inr res \<and>
     Reveal toy_aead ''q1'' ''r1'' ''f1'' (sealed_commitment.extend c (revealed_commitment.fields ''2024-05-01T00:00:00Z'' (or_KeyHex res))) =
       Inr \<lparr>rv_Schema = SealScheme, rv_QuestionID = ''q1'', rv_QuestionRevisionID = ''r1'', rv_ForecastID = ''f1'',
         rv_Bundle = or_Bundle res, rv_Plaintext = or_Plaintext res\<rparr>"
  by (rule toy_seal) (use Reveal_agrees in blast)

end
