(* ===== verification/Ledger_Storage.thy ===== *)
theory Ledger_Storage
  imports Struct_Decoding Go_Crypto App_Errors
begin

text \<open>
  \<open>internal/storage/transaction.go\<close> (and \<open>lock.go\<close>): the locked, journaled replacement of a ledger
  file and the recovery of an interrupted one.  The directory of the ledger is a map from base
  names to bytes.  Every system call asks an oracle whether it succeeds, fails, or is the last
  thing the process does; a write that does not finish leaves a prefix of its bytes.  An exhausted
  oracle answers that the call succeeds.  Errors are their application codes.
\<close>

section \<open>Files and system calls\<close>

type_synonym files = "string \<Rightarrow> string option"

datatype outcome = Done | Failed nat | Stopped nat

record world =
  wd_Files :: files
  wd_Oracle :: "outcome list"

datatype 'a result = Returned 'a | Errored error_code | Crashed

type_synonym 'a io = "world \<Rightarrow> 'a result \<times> world"

definition ask :: "world \<Rightarrow> outcome \<times> world" where
  "ask w = (case wd_Oracle w of [] \<Rightarrow> (Done, w) | x # xs \<Rightarrow> (x, w\<lparr>wd_Oracle := xs\<rparr>))"

definition returnIO :: "'a \<Rightarrow> 'a io" where
  "returnIO x w = (Returned x, w)"

definition raiseIO :: "error_code \<Rightarrow> 'a io" where
  "raiseIO e w = (Errored e, w)"

definition bindIO :: "'a io \<Rightarrow> ('a \<Rightarrow> 'b io) \<Rightarrow> 'b io" where
  "bindIO m f w =
     (case m w of
        (Returned x, w') \<Rightarrow> f x w'
      | (Errored e, w') \<Rightarrow> (Errored e, w')
      | (Crashed, w') \<Rightarrow> (Crashed, w'))"

text \<open>A \<open>defer\<close> that cleans up after an error: it does not run in a process that stopped.\<close>

definition on_error :: "'b io \<Rightarrow> 'a io \<Rightarrow> 'a io" where
  "on_error cleanup m w =
     (case m w of
        (Errored e, w') \<Rightarrow> (case cleanup w' of (Crashed, w'') \<Rightarrow> (Crashed, w'') | (_, w'') \<Rightarrow> (Errored e, w''))
      | r \<Rightarrow> r)"

text \<open>A call with its error code, its effect, and what it leaves when it does not finish.\<close>

definition file_op :: "(nat \<Rightarrow> error_code) \<Rightarrow> (files \<Rightarrow> error_code + 'a \<times> files) \<Rightarrow> (nat \<Rightarrow> files \<Rightarrow> files) \<Rightarrow> 'a io" where
  "file_op code effect unfinished w =
     (case ask w of
        (Done, w') \<Rightarrow>
          (case effect (wd_Files w') of
             Inl e \<Rightarrow> (Errored e, w')
           | Inr (x, fs) \<Rightarrow> (Returned x, w'\<lparr>wd_Files := fs\<rparr>))
      | (Failed n, w') \<Rightarrow> (Errored (code n), w'\<lparr>wd_Files := unfinished n (wd_Files w')\<rparr>)
      | (Stopped n, w') \<Rightarrow> (Crashed, w'\<lparr>wd_Files := unfinished n (wd_Files w')\<rparr>))"

abbreviation untouched :: "nat \<Rightarrow> files \<Rightarrow> files" where
  "untouched \<equiv> \<lambda>_ fs. fs"

text \<open>\<open>os.ReadFile\<close>, with \<open>None\<close> for \<open>fs.ErrNotExist\<close>.\<close>

definition read_file :: "string \<Rightarrow> string option io" where
  "read_file name = file_op (\<lambda>_. CodeIO) (\<lambda>fs. Inr (fs name, fs)) untouched"

text \<open>\<open>os.Stat\<close> where any error but \<open>fs.ErrNotExist\<close> counts as existing.\<close>

definition stat_missing :: "string \<Rightarrow> bool io" where
  "stat_missing name w =
     (case ask w of
        (Done, w') \<Rightarrow> (Returned (wd_Files w' name = None), w')
      | (Failed _, w') \<Rightarrow> (Returned False, w')
      | (Stopped _, w') \<Rightarrow> (Crashed, w'))"

definition create_new :: "string \<Rightarrow> unit io" where
  "create_new name = file_op (\<lambda>_. CodeIO)
     (\<lambda>fs. if fs name = None then Inr ((), fs(name \<mapsto> [])) else Inl CodeConflict) untouched"

definition write_all :: "string \<Rightarrow> string \<Rightarrow> unit io" where
  "write_all name data = file_op (\<lambda>_. CodeIO) (\<lambda>fs. Inr ((), fs(name \<mapsto> data))) (\<lambda>n fs. fs(name \<mapsto> take n data))"

text \<open>Calls without an effect on names and bytes: \<open>Chmod\<close>, \<open>Sync\<close>, \<open>Close\<close>, \<open>os.Stat\<close>.\<close>

definition plain_call :: "unit io" where
  "plain_call = file_op (\<lambda>_. CodeIO) (\<lambda>fs. Inr ((), fs)) untouched"

text \<open>\<open>os.Rename\<close> replaces atomically; \<open>os.Remove\<close> tells whether the name existed.\<close>

definition safeReplace :: "string \<Rightarrow> string \<Rightarrow> unit io" where
  "safeReplace source destination = file_op (\<lambda>_. CodeIO)
     (\<lambda>fs. case fs source of None \<Rightarrow> Inl CodeIO | Some d \<Rightarrow> Inr ((), (fs(source := None))(destination \<mapsto> d))) untouched"

definition remove_file :: "string \<Rightarrow> bool io" where
  "remove_file name = file_op (\<lambda>_. CodeIO) (\<lambda>fs. Inr (fs name \<noteq> None, fs(name := None))) untouched"

definition syncParentDirectory :: "unit io" where
  "syncParentDirectory = plain_call"

definition contextError :: "unit io" where
  "contextError = file_op (\<lambda>_. CodeInterrupted) (\<lambda>fs. Inr ((), fs)) untouched"

section \<open>Names\<close>

definition filepath_Base :: "string \<Rightarrow> string" where
  "filepath_Base s =
     (if s = [] then ''.''
      else let t = rev (dropWhile (\<lambda>c. c = CHR ''/'') (rev s))
           in if t = [] then ''/'' else List.last (split_on CHR ''/'' t))"

definition JournalPath :: "string \<Rightarrow> string" where
  "JournalPath l = ''.'' @ l @ ''.forecast-ledger-journal.json''"

definition LedgerLockPath :: "string \<Rightarrow> string" where
  "LedgerLockPath l = ''.'' @ l @ ''.forecast-ledger.lock''"

definition temp_prefix :: "string \<Rightarrow> string" where
  "temp_prefix l = ''.'' @ l @ ''.forecast-ledger-''"

abbreviation "temp_suffix \<equiv> ''.tmp''"

definition has_suffix :: "string \<Rightarrow> string \<Rightarrow> bool" where
  "has_suffix s suffix \<longleftrightarrow> length suffix \<le> length s \<and> drop (length s - length suffix) s = suffix"

definition has_prefix :: "string \<Rightarrow> string \<Rightarrow> bool" where
  "has_prefix s p \<longleftrightarrow> take (length p) s = p"

section \<open>Options, documents, journals\<close>

datatype transaction_stage =
    StageTempCreated | StageTempPermissions | StageTempWritten | StageTempSynced
  | StageJournalCreated | StageJournalWritten | StageJournalSynced | StageBeforeReplace | StageReplaced
  | StageDirectorySynced | StageBeforeCleanup | StageJournalRemoved | StageCleanupSynced

datatype format = FormatJSON | FormatYAML

record ledger_document =
  ld_Format :: format
  ld_Raw :: string
  ld_Root :: doc_value

text \<open>
  The options of a transaction, and what it takes from outside: the YAML parser, the digits of a
  temporary name, the current time and the reading of a time by \<open>time.Parse\<close>.  \<open>Validate\<close> returns
  the code of its error, \<open>Fault\<close> whether the test seam stops at a stage.
\<close>

record tx_options =
  op_Validate :: "(ledger_document \<Rightarrow> error_code option) option"
  op_Mutate :: "(ledger_document \<Rightarrow> error_code + string) option"
  op_Fault :: "transaction_stage \<Rightarrow> bool"
  op_ParseYAML :: "string \<Rightarrow> doc_value option"
  op_Random :: "files \<Rightarrow> string"
  op_Now :: string
  op_TimeParses :: "string \<Rightarrow> bool"

record recovery_journal =
  rj_Version :: int
  rj_LedgerBase :: string
  rj_TempBase :: string
  rj_OriginalSHA256 :: string
  rj_ExpectedSHA256 :: string
  rj_CreatedAt :: string

definition json_recoveryJournal :: "recovery_journal \<Rightarrow> go_value" where
  "json_recoveryJournal v = json_object
     [(''version'', Some (GoInt (rj_Version v))),
      (''ledger_base'', Some (GoString (rj_LedgerBase v))),
      (''temp_base'', Some (GoString (rj_TempBase v))),
      (''original_sha256'', Some (GoString (rj_OriginalSHA256 v))),
      (''expected_sha256'', Some (GoString (rj_ExpectedSHA256 v))),
      (''created_at'', Some (GoString (rj_CreatedAt v)))]"

definition zero_recoveryJournal :: recovery_journal where
  "zero_recoveryJournal =
     \<lparr>rj_Version = 0, rj_LedgerBase = [], rj_TempBase = [], rj_OriginalSHA256 = [], rj_ExpectedSHA256 = [], rj_CreatedAt = []\<rparr>"

definition decode_recoveryJournal_member :: "recovery_journal \<Rightarrow> string \<times> go_value \<Rightarrow> recovery_journal option" where
  "decode_recoveryJournal_member v m =
     (if named m ''version'' then map_option (\<lambda>x. v\<lparr>rj_Version := x\<rparr>) (decode_int (rj_Version v) (snd m))
      else if named m ''ledger_base'' then map_option (\<lambda>x. v\<lparr>rj_LedgerBase := x\<rparr>) (decode_string (rj_LedgerBase v) (snd m))
      else if named m ''temp_base'' then map_option (\<lambda>x. v\<lparr>rj_TempBase := x\<rparr>) (decode_string (rj_TempBase v) (snd m))
      else if named m ''original_sha256'' then map_option (\<lambda>x. v\<lparr>rj_OriginalSHA256 := x\<rparr>) (decode_string (rj_OriginalSHA256 v) (snd m))
      else if named m ''expected_sha256'' then map_option (\<lambda>x. v\<lparr>rj_ExpectedSHA256 := x\<rparr>) (decode_string (rj_ExpectedSHA256 v) (snd m))
      else if named m ''created_at'' then map_option (\<lambda>x. v\<lparr>rj_CreatedAt := x\<rparr>) (decode_string (rj_CreatedAt v) (snd m))
      else None)"

definition decode_recoveryJournal :: "recovery_journal \<Rightarrow> go_value \<Rightarrow> recovery_journal option" where
  "decode_recoveryJournal = decode_struct decode_recoveryJournal_member"

definition sha256Hex :: "string \<Rightarrow> string" where
  "sha256Hex data = hex_EncodeToString (sha256 data)"

text \<open>\<open>filepath.Ext\<close> of a base name.\<close>

definition filepath_Ext :: "string \<Rightarrow> string" where
  "filepath_Ext name = (if CHR ''.'' \<in> set name then CHR ''.'' # rev (takeWhile (\<lambda>c. c \<noteq> CHR ''.'') (rev name)) else [])"

definition lower_ascii :: "string \<Rightarrow> string" where
  "lower_ascii = map (\<lambda>c. if 65 \<le> byte c \<and> byte c \<le> 90 then char_of (byte c + 32) else c)"

text \<open>\<open>bytes.TrimSpace\<close> on the left: the spaces of Unicode.\<close>

fun trim_left :: "string \<Rightarrow> string" where
  "trim_left [] = []"
| "trim_left (a # s) =
     (if byte a \<in> {9, 10, 11, 12, 13, 32} then trim_left s
      else if byte a = 194 \<and> map byte (take 1 s) \<in> {[133], [160]} then trim_left (drop 1 s)
      else if byte a = 225 \<and> map byte (take 2 s) = [154, 128] then trim_left (drop 2 s)
      else if byte a = 226 \<and> length s \<ge> 2 \<and>
           (byte (s ! 0) = 128 \<and> (128 \<le> byte (s ! 1) \<and> byte (s ! 1) \<le> 138 \<or> byte (s ! 1) \<in> {168, 169, 175}) \<or>
            byte (s ! 0) = 129 \<and> byte (s ! 1) = 159)
      then trim_left (drop 2 s)
      else if byte a = 227 \<and> map byte (take 2 s) = [128, 128] then trim_left (drop 2 s)
      else a # s)"

definition detectFormat :: "string \<Rightarrow> string \<Rightarrow> format" where
  "detectFormat path data =
     (let ext = lower_ascii (filepath_Ext path) in
      if ext = ''.json'' then FormatJSON
      else if ext = ''.yaml'' \<or> ext = ''.yml'' then FormatYAML
      else
        let trimmed = trim_left data in
        if trimmed \<noteq> [] \<and> (hd trimmed = CHR ''{'' \<or> hd trimmed = CHR ''['') then FormatJSON else FormatYAML)"

definition parseDocument :: "tx_options \<Rightarrow> string \<Rightarrow> format \<Rightarrow> ledger_document option" where
  "parseDocument opts data format =
     (case format of
        FormatJSON \<Rightarrow>
          (case ParseJSON (Inr data) DefaultLimits of
             Inl _ \<Rightarrow> None
           | Inr v \<Rightarrow> Some \<lparr>ld_Format = FormatJSON, ld_Raw = data, ld_Root = v\<rparr>)
      | FormatYAML \<Rightarrow>
          map_option (\<lambda>v. \<lparr>ld_Format = FormatYAML, ld_Raw = data, ld_Root = v\<rparr>) (op_ParseYAML opts data))"

definition injectFault :: "tx_options \<Rightarrow> transaction_stage \<Rightarrow> unit io" where
  "injectFault opts stage = (if op_Fault opts stage then raiseIO CodeIO else returnIO ())"

text \<open>The code of \<open>validationFailure\<close>.\<close>

definition validationFailure :: "error_code \<Rightarrow> error_code" where
  "validationFailure cause =
     (if cause = CodeUnsupportedSchemaVersion then CodeUnsupportedSchemaVersion else CodeInvalidData)"

definition check_document :: "tx_options \<Rightarrow> ledger_document \<Rightarrow> unit io" where
  "check_document opts parsed =
     (case op_Validate opts of
        None \<Rightarrow> returnIO ()
      | Some check \<Rightarrow>
          (case check parsed of None \<Rightarrow> returnIO () | Some e \<Rightarrow> raiseIO (validationFailure e)))"

section \<open>Writing\<close>

definition create_temp :: "tx_options \<Rightarrow> string \<Rightarrow> string io" where
  "create_temp opts l = file_op (\<lambda>_. CodeIO)
     (\<lambda>fs. let name = temp_prefix l @ op_Random opts fs @ temp_suffix
           in if fs name = None then Inr (name, fs(name \<mapsto> [])) else Inl CodeIO) untouched"

definition writeSiblingTemp :: "tx_options \<Rightarrow> string \<Rightarrow> string \<Rightarrow> string io" where
  "writeSiblingTemp opts l data =
     bindIO (create_temp opts l) (\<lambda>path.
     on_error (remove_file path) (
       bindIO (injectFault opts StageTempCreated) (\<lambda>_.
       bindIO plain_call (\<lambda>_.
       bindIO (injectFault opts StageTempPermissions) (\<lambda>_.
       bindIO (write_all path data) (\<lambda>_.
       bindIO (injectFault opts StageTempWritten) (\<lambda>_.
       bindIO plain_call (\<lambda>_.
       bindIO (injectFault opts StageTempSynced) (\<lambda>_.
       bindIO plain_call (\<lambda>_.
       returnIO path))))))))))"

definition writeJournalExclusive :: "tx_options \<Rightarrow> string \<Rightarrow> recovery_journal \<Rightarrow> unit io" where
  "writeJournalExclusive opts path journal =
     (case json_Marshal (json_recoveryJournal journal) of
        None \<Rightarrow> raiseIO CodeInternal
      | Some encoded \<Rightarrow>
          bindIO (create_new path) (\<lambda>_.
          on_error (remove_file path) (
            bindIO (injectFault opts StageJournalCreated) (\<lambda>_.
            bindIO (write_all path (encoded @ [char_of (10::nat)])) (\<lambda>_.
            bindIO (injectFault opts StageJournalWritten) (\<lambda>_.
            bindIO plain_call (\<lambda>_.
            plain_call)))))))"

definition new_journal :: "tx_options \<Rightarrow> string \<Rightarrow> string \<Rightarrow> string \<Rightarrow> string \<Rightarrow> recovery_journal" where
  "new_journal opts l temp original updated =
     \<lparr>rj_Version = 1, rj_LedgerBase = l, rj_TempBase = temp, rj_OriginalSHA256 = sha256Hex original,
      rj_ExpectedSHA256 = sha256Hex updated, rj_CreatedAt = op_Now opts\<rparr>"

text \<open>The replacement: everything \<open>UpdateLedger\<close> does from the temporary file on.\<close>

definition finish_replacement :: "tx_options \<Rightarrow> string \<Rightarrow> string \<Rightarrow> unit io" where
  "finish_replacement opts l temp =
     bindIO (injectFault opts StageJournalSynced) (\<lambda>_.
     bindIO (injectFault opts StageBeforeReplace) (\<lambda>_.
     bindIO (safeReplace temp l) (\<lambda>_.
     bindIO (injectFault opts StageReplaced) (\<lambda>_.
     bindIO syncParentDirectory (\<lambda>_.
     bindIO (injectFault opts StageDirectorySynced) (\<lambda>_.
     bindIO (injectFault opts StageBeforeCleanup) (\<lambda>_.
     bindIO (remove_file (JournalPath l)) (\<lambda>existed.
     if \<not> existed then raiseIO CodeIO
     else
       bindIO (injectFault opts StageJournalRemoved) (\<lambda>_.
       bindIO syncParentDirectory (\<lambda>_.
       injectFault opts StageCleanupSynced))))))))))"

definition replace_ledger :: "tx_options \<Rightarrow> string \<Rightarrow> string \<Rightarrow> string \<Rightarrow> unit io" where
  "replace_ledger opts l original updated =
     bindIO (writeSiblingTemp opts l updated) (\<lambda>temp.
     bindIO (on_error (remove_file temp)
       (writeJournalExclusive opts (JournalPath l) (new_journal opts l temp original updated))) (\<lambda>_.
     finish_replacement opts l temp))"

section \<open>Recovery\<close>

text \<open>
  A journal that is not exactly one JSON value of the struct is a conflict, and so is one whose
  names or digests are not those of a transaction on this ledger.
\<close>

definition decodeRecoveryJournal :: "tx_options \<Rightarrow> string \<Rightarrow> string \<Rightarrow> recovery_journal option" where
  "decodeRecoveryJournal opts l data =
     (case Option.bind (json_Unmarshal data) (decode_recoveryJournal zero_recoveryJournal) of
        None \<Rightarrow> None
      | Some journal \<Rightarrow>
          let validTemp = filepath_Base (rj_TempBase journal) = rj_TempBase journal \<and>
                has_prefix (rj_TempBase journal) (temp_prefix l) \<and> has_suffix (rj_TempBase journal) temp_suffix
          in if rj_Version journal \<noteq> 1 \<or> rj_LedgerBase journal \<noteq> l \<or> \<not> validTemp \<or>
                length (rj_OriginalSHA256 journal) \<noteq> 64 \<or> length (rj_ExpectedSHA256 journal) \<noteq> 64 \<or>
                hex_DecodeString (rj_OriginalSHA256 journal) = None \<or> hex_DecodeString (rj_ExpectedSHA256 journal) = None \<or>
                \<not> op_TimeParses opts (rj_CreatedAt journal) \<or> rj_OriginalSHA256 journal = rj_ExpectedSHA256 journal
             then None
             else Some journal)"

definition validateRecoveryDocument :: "tx_options \<Rightarrow> string \<Rightarrow> string \<Rightarrow> unit io" where
  "validateRecoveryDocument opts l data =
     (case parseDocument opts data (detectFormat l data) of
        None \<Rightarrow> raiseIO CodeInvalidData
      | Some parsed \<Rightarrow> check_document opts parsed)"

definition removeMatchingRecoveryTemp :: "string \<Rightarrow> string \<Rightarrow> unit io" where
  "removeMatchingRecoveryTemp path expectedDigest =
     bindIO (read_file path) (\<lambda>found.
       case found of
         None \<Rightarrow> returnIO ()
       | Some data \<Rightarrow>
           if sha256Hex data \<noteq> expectedDigest then raiseIO CodeConflict
           else bindIO (remove_file path) (\<lambda>existed. if existed then returnIO () else raiseIO CodeIO))"

definition removeJournalAndSync :: "string \<Rightarrow> unit io" where
  "removeJournalAndSync path = bindIO (remove_file path) (\<lambda>_. syncParentDirectory)"

definition recover_from_temp :: "tx_options \<Rightarrow> string \<Rightarrow> recovery_journal \<Rightarrow> bool io" where
  "recover_from_temp opts l journal =
     bindIO (read_file (rj_TempBase journal)) (\<lambda>found.
       case found of
         None \<Rightarrow> raiseIO CodeConflict
       | Some temp \<Rightarrow>
           if sha256Hex temp \<noteq> rj_ExpectedSHA256 journal then raiseIO CodeConflict
           else
             bindIO (validateRecoveryDocument opts l temp) (\<lambda>_.
             bindIO contextError (\<lambda>_.
             bindIO (safeReplace (rj_TempBase journal) l) (\<lambda>_.
             bindIO syncParentDirectory (\<lambda>_.
             bindIO (removeJournalAndSync (JournalPath l)) (\<lambda>_.
             returnIO True))))))"

definition recoverLedgerLocked :: "tx_options \<Rightarrow> string \<Rightarrow> bool io" where
  "recoverLedgerLocked opts l =
     bindIO contextError (\<lambda>_.
     bindIO (read_file (JournalPath l)) (\<lambda>journalBytes.
       case journalBytes of
         None \<Rightarrow> returnIO False
       | Some bytes \<Rightarrow>
           (case decodeRecoveryJournal opts l bytes of
              None \<Rightarrow> raiseIO CodeConflict
            | Some journal \<Rightarrow>
                bindIO (read_file l) (\<lambda>current.
                  if current \<noteq> None \<and> sha256Hex (the current) = rj_ExpectedSHA256 journal then
                    bindIO (validateRecoveryDocument opts l (the current)) (\<lambda>_.
                    bindIO (removeMatchingRecoveryTemp (rj_TempBase journal) (rj_ExpectedSHA256 journal)) (\<lambda>_.
                    bindIO contextError (\<lambda>_.
                    bindIO (removeJournalAndSync (JournalPath l)) (\<lambda>_.
                    returnIO True))))
                  else if current \<noteq> None \<and> sha256Hex (the current) \<noteq> rj_OriginalSHA256 journal
                  then raiseIO CodeConflict
                  else recover_from_temp opts l journal))))"

section \<open>Transactions\<close>

text \<open>The codes of a lock that is held, of an interrupted wait, and of a failing lock file.\<close>

definition AcquireLedgerLock :: "string \<Rightarrow> unit io" where
  "AcquireLedgerLock l = file_op (\<lambda>n. if n = 0 then CodeConflict else if n = 1 then CodeInterrupted else CodeIO)
     (\<lambda>fs. Inr ((), if fs (LedgerLockPath l) = None then fs(LedgerLockPath l \<mapsto> []) else fs)) untouched"

text \<open>Reading, parsing and validating the visible ledger.\<close>

definition load_ledger :: "tx_options \<Rightarrow> string \<Rightarrow> ledger_document io" where
  "load_ledger opts l =
     bindIO (read_file l) (\<lambda>found.
       case found of
         None \<Rightarrow> raiseIO CodeNotFound
       | Some original \<Rightarrow>
           (case parseDocument opts original (detectFormat l original) of
              None \<Rightarrow> raiseIO CodeInvalidData
            | Some parsed \<Rightarrow> bindIO (check_document opts parsed) (\<lambda>_. returnIO parsed)))"

definition precheck :: "tx_options \<Rightarrow> string \<Rightarrow> unit io" where
  "precheck opts l =
     (case op_Validate opts of
        None \<Rightarrow> returnIO ()
      | Some _ \<Rightarrow>
          bindIO (stat_missing (JournalPath l)) (\<lambda>missing.
            if missing then bindIO (load_ledger opts l) (\<lambda>_. returnIO ()) else returnIO ()))"

definition UpdateLedger :: "tx_options \<Rightarrow> string \<Rightarrow> unit io" where
  "UpdateLedger opts l =
     bindIO (precheck opts l) (\<lambda>_.
     bindIO (AcquireLedgerLock l) (\<lambda>_.
     bindIO contextError (\<lambda>_.
     bindIO (recoverLedgerLocked opts l) (\<lambda>_.
     bindIO (load_ledger opts l) (\<lambda>parsed.
       case op_Mutate opts of
         None \<Rightarrow> raiseIO CodeInternal
       | Some mutate \<Rightarrow>
           (case mutate parsed of
              Inl e \<Rightarrow> raiseIO e
            | Inr updated \<Rightarrow>
                if updated = ld_Raw parsed then returnIO ()
                else
                  (case parseDocument opts updated (ld_Format parsed) of
                     None \<Rightarrow> raiseIO CodeInvalidData
                   | Some post \<Rightarrow>
                       bindIO (check_document opts post) (\<lambda>_.
                       bindIO contextError (\<lambda>_.
                       bindIO plain_call (\<lambda>_.
                       replace_ledger opts l (ld_Raw parsed) updated)))))))))) "

definition RecoverLedger :: "tx_options \<Rightarrow> string \<Rightarrow> unit io" where
  "RecoverLedger opts l =
     bindIO (AcquireLedgerLock l) (\<lambda>_.
     bindIO (recoverLedgerLocked opts l) (\<lambda>recovered.
       if recovered then returnIO () else raiseIO CodeNotFound))"

end
