(* ===== verification/Storage_Recovery.thy ===== *)
theory Storage_Recovery
  imports Ledger_Storage
begin

text \<open>
  What the transaction guarantees whatever the system calls answer: the visible ledger is always a
  complete document that passed validation, an interrupted replacement leaves the old or the new
  bytes, and recovery completes it.  \<open>wp\<close> is the weakest precondition of a run for a return, an
  error and a stop of the process.
\<close>

section \<open>Weakest preconditions\<close>

definition wp :: "'a io \<Rightarrow> ('a \<Rightarrow> files \<Rightarrow> bool) \<Rightarrow> (files \<Rightarrow> bool) \<Rightarrow> (files \<Rightarrow> bool) \<Rightarrow> files \<Rightarrow> bool" where
  "wp m Q E C fs \<longleftrightarrow>
     (\<forall>xs. case m \<lparr>wd_Files = fs, wd_Oracle = xs\<rparr> of
        (Returned x, w) \<Rightarrow> Q x (wd_Files w)
      | (Errored _, w) \<Rightarrow> E (wd_Files w)
      | (Crashed, w) \<Rightarrow> C (wd_Files w))"

named_theorems wp_rules \<open>introduction rules for weakest preconditions\<close>

lemma world_eta: "w = \<lparr>wd_Files = wd_Files w, wd_Oracle = wd_Oracle w\<rparr>" for w :: world
  by simp

lemma wpD:
  assumes "wp m Q E C (wd_Files w)" "m w = (r, w')"
  shows "case r of Returned x \<Rightarrow> Q x (wd_Files w') | Errored _ \<Rightarrow> E (wd_Files w') | Crashed \<Rightarrow> C (wd_Files w')"
  using assms(1) unfolding wp_def
  by (rule allE [of _ "wd_Oracle w"]) (use assms(2) world_eta [of w] in \<open>simp split: result.splits\<close>)

lemma wp_returnIO [simp]: "wp (returnIO x) Q E C fs \<longleftrightarrow> Q x fs"
  by (simp add: wp_def returnIO_def)

lemma wp_raiseIO [simp]: "wp (raiseIO e) Q E C fs \<longleftrightarrow> E fs"
  by (simp add: wp_def raiseIO_def)

lemma wp_file_op [simp]:
  "wp (file_op code effect unfinished) Q E C fs \<longleftrightarrow>
     (case effect fs of Inl e \<Rightarrow> E fs | Inr (x, fs') \<Rightarrow> Q x fs') \<and>
     (\<forall>n. E (unfinished n fs)) \<and> (\<forall>n. C (unfinished n fs))"
proof
  assume w: "wp (file_op code effect unfinished) Q E C fs"
  have run: "case file_op code effect unfinished \<lparr>wd_Files = fs, wd_Oracle = xs\<rparr> of
      (Returned x, w) \<Rightarrow> Q x (wd_Files w) | (Errored _, w) \<Rightarrow> E (wd_Files w) | (Crashed, w) \<Rightarrow> C (wd_Files w)" for xs
    using w by (simp add: wp_def)
  from run [of "[]"] run [of "[Failed n]" for n] run [of "[Stopped n]" for n]
  show "(case effect fs of Inl e \<Rightarrow> E fs | Inr (x, fs') \<Rightarrow> Q x fs') \<and> (\<forall>n. E (unfinished n fs)) \<and> (\<forall>n. C (unfinished n fs))"
    by (auto simp: file_op_def ask_def split: sum.splits prod.splits)
next
  assume "(case effect fs of Inl e \<Rightarrow> E fs | Inr (x, fs') \<Rightarrow> Q x fs') \<and> (\<forall>n. E (unfinished n fs)) \<and> (\<forall>n. C (unfinished n fs))"
  then show "wp (file_op code effect unfinished) Q E C fs"
    by (auto simp: wp_def file_op_def ask_def split: list.splits outcome.splits sum.splits prod.splits)
qed

lemma wp_bindIO [wp_rules]:
  assumes "wp m (\<lambda>x. wp (f x) Q E C) E C fs"
  shows "wp (bindIO m f) Q E C fs"
  unfolding wp_def
proof
  fix xs
  obtain r w where r: "m \<lparr>wd_Files = fs, wd_Oracle = xs\<rparr> = (r, w)" by force
  with assms wpD [of m _ E C "\<lparr>wd_Files = fs, wd_Oracle = xs\<rparr>" r w]
  have m: "case r of Returned x \<Rightarrow> wp (f x) Q E C (wd_Files w) | Errored _ \<Rightarrow> E (wd_Files w) | Crashed \<Rightarrow> C (wd_Files w)"
    by simp
  show "case bindIO m f \<lparr>wd_Files = fs, wd_Oracle = xs\<rparr> of
      (Returned x, w) \<Rightarrow> Q x (wd_Files w) | (Errored _, w) \<Rightarrow> E (wd_Files w) | (Crashed, w) \<Rightarrow> C (wd_Files w)"
  proof (cases r)
    case (Returned x)
    obtain r' w' where r': "f x w = (r', w')" by force
    with m Returned wpD [of "f x" Q E C w r' w'] show ?thesis
      by (cases r') (auto simp: bindIO_def r)
  qed (use m r in \<open>auto simp: bindIO_def\<close>)
qed

lemma wp_on_error [wp_rules]:
  assumes "wp m Q (\<lambda>fs. wp cleanup (\<lambda>_. E) E C fs) C fs"
  shows "wp (on_error cleanup m) Q E C fs"
  unfolding wp_def
proof
  fix xs
  obtain r w where r: "m \<lparr>wd_Files = fs, wd_Oracle = xs\<rparr> = (r, w)" by force
  with assms wpD [of m Q _ C "\<lparr>wd_Files = fs, wd_Oracle = xs\<rparr>" r w]
  have m: "case r of Returned x \<Rightarrow> Q x (wd_Files w) | Errored _ \<Rightarrow> wp cleanup (\<lambda>_. E) E C (wd_Files w) | Crashed \<Rightarrow> C (wd_Files w)"
    by simp
  show "case on_error cleanup m \<lparr>wd_Files = fs, wd_Oracle = xs\<rparr> of
      (Returned x, w) \<Rightarrow> Q x (wd_Files w) | (Errored _, w) \<Rightarrow> E (wd_Files w) | (Crashed, w) \<Rightarrow> C (wd_Files w)"
  proof (cases r)
    case (Errored e)
    obtain r' w' where r': "cleanup w = (r', w')" by force
    with m Errored wpD [of cleanup _ E C w r' w'] show ?thesis
      by (cases r') (auto simp: on_error_def r)
  qed (use m r in \<open>auto simp: on_error_def\<close>)
qed

lemma wp_mono:
  assumes "wp m Q E C fs" "\<And>x fs. Q x fs \<Longrightarrow> Q' x fs" "\<And>fs. E fs \<Longrightarrow> E' fs" "\<And>fs. C fs \<Longrightarrow> C' fs"
  shows "wp m Q' E' C' fs"
  unfolding wp_def
proof
  fix xs
  obtain r w where r: "m \<lparr>wd_Files = fs, wd_Oracle = xs\<rparr> = (r, w)" by force
  with assms(1) wpD [of m Q E C "\<lparr>wd_Files = fs, wd_Oracle = xs\<rparr>" r w] assms(2-)
  show "case m \<lparr>wd_Files = fs, wd_Oracle = xs\<rparr> of
      (Returned x, w) \<Rightarrow> Q' x (wd_Files w) | (Errored _, w) \<Rightarrow> E' (wd_Files w) | (Crashed, w) \<Rightarrow> C' (wd_Files w)"
    by (auto split: result.splits)
qed

lemma wp_stat_missing [simp]: "wp (stat_missing name) Q E C fs \<longleftrightarrow> (Q (fs name = None) fs \<and> Q False fs \<and> C fs)"
proof
  assume w: "wp (stat_missing name) Q E C fs"
  have run: "case stat_missing name \<lparr>wd_Files = fs, wd_Oracle = xs\<rparr> of
      (Returned x, w) \<Rightarrow> Q x (wd_Files w) | (Errored _, w) \<Rightarrow> E (wd_Files w) | (Crashed, w) \<Rightarrow> C (wd_Files w)" for xs
    using w by (simp add: wp_def)
  from run [of "[]"] run [of "[Failed 0]"] run [of "[Stopped 0]"] show "Q (fs name = None) fs \<and> Q False fs \<and> C fs"
    by (auto simp: stat_missing_def ask_def)
next
  assume "Q (fs name = None) fs \<and> Q False fs \<and> C fs"
  then show "wp (stat_missing name) Q E C fs"
    by (auto simp: wp_def stat_missing_def ask_def split: list.splits outcome.splits)
qed

lemma wp_if [wp_rules]:
  "(b \<Longrightarrow> wp m Q E C fs) \<Longrightarrow> (\<not> b \<Longrightarrow> wp m' Q E C fs) \<Longrightarrow> wp (if b then m else m') Q E C fs"
  by simp

lemmas calls =
  read_file_def create_new_def write_all_def plain_call_def safeReplace_def remove_file_def syncParentDirectory_def
  contextError_def AcquireLedgerLock_def

lemma wp_injectFault [simp]: "wp (injectFault opts stage) Q E C fs \<longleftrightarrow> (if op_Fault opts stage then E fs else Q () fs)"
  by (simp add: injectFault_def)

section \<open>Names\<close>

definition is_temp :: "string \<Rightarrow> string \<Rightarrow> bool" where
  "is_temp l name \<longleftrightarrow> has_prefix name (temp_prefix l) \<and> has_suffix name temp_suffix"

lemma temp_name: "is_temp l (temp_prefix l @ r @ temp_suffix)"
  by (simp add: is_temp_def has_prefix_def has_suffix_def)

lemma names_differ:
  "JournalPath l \<noteq> l" "LedgerLockPath l \<noteq> l" "is_temp l t \<Longrightarrow> t \<noteq> l" "is_temp l t \<Longrightarrow> t \<noteq> JournalPath l"
  "is_temp l t \<Longrightarrow> t \<noteq> LedgerLockPath l" "JournalPath l \<noteq> LedgerLockPath l"
proof -
  have len: "length (JournalPath l) > length l" "length (LedgerLockPath l) > length l"
    by (simp_all add: JournalPath_def LedgerLockPath_def)
  then show "JournalPath l \<noteq> l" "LedgerLockPath l \<noteq> l" by (metis less_irrefl)+
  have suffix: "\<not> has_suffix (JournalPath l) temp_suffix" "\<not> has_suffix (LedgerLockPath l) temp_suffix"
    by (simp_all add: has_suffix_def JournalPath_def LedgerLockPath_def)
  show "JournalPath l \<noteq> LedgerLockPath l" by (simp add: JournalPath_def LedgerLockPath_def)
  assume t: "is_temp l t"
  then have "length (temp_prefix l) \<le> length t" by (auto simp: is_temp_def has_prefix_def dest: sym)
     (metis length_take min.absorb_iff1 min.commute)
  then have "length l < length t" by (simp add: temp_prefix_def)
  then show "t \<noteq> l" by auto
  show "t \<noteq> JournalPath l" "t \<noteq> LedgerLockPath l" using t suffix by (auto simp: is_temp_def)
qed

section \<open>The operations\<close>

text \<open>The temporary name that \<open>os.CreateTemp\<close> picks in a directory.\<close>

definition temp_path :: "tx_options \<Rightarrow> string \<Rightarrow> files \<Rightarrow> string" where
  "temp_path opts l fs = temp_prefix l @ op_Random opts fs @ temp_suffix"

lemma is_temp_path: "is_temp l (temp_path opts l fs)"
  by (simp add: temp_path_def temp_name)

lemma wp_writeSiblingTemp:
  fixes opts l fs
  defines "t \<equiv> temp_path opts l fs"
  assumes "fs t = None \<Longrightarrow> Q t (fs(t \<mapsto> data))"
    and "E fs" "\<And>x. fs t = None \<Longrightarrow> E (fs(t := x))"
    and "C fs" "\<And>x. fs t = None \<Longrightarrow> C (fs(t := x))"
  shows "wp (writeSiblingTemp opts l data) Q E C fs"
  unfolding writeSiblingTemp_def
  apply (rule wp_bindIO)
  apply (cases "fs t = None")
   apply (rule wp_bindIO wp_on_error impI
      | simp add: create_temp_def calls assms(2-) Let_def temp_path_def [symmetric] t_def [symmetric])+
  done

text \<open>The bytes of a journal.\<close>

definition journal_bytes :: "recovery_journal \<Rightarrow> string" where
  "journal_bytes j = encq go_quote (json_recoveryJournal j) @ [char_of (10::nat)]"

lemma journal_encodes: "json_Marshal (json_recoveryJournal j) = Some (encq go_quote (json_recoveryJournal j))"
  by (simp add: json_Marshal_def json_recoveryJournal_def json_object_def json_members_def map_filter_simps)

lemma wp_writeJournalExclusive:
  assumes "fs p = None \<Longrightarrow> Q () (fs(p \<mapsto> journal_bytes j))"
    and "E fs" "\<And>x. fs p = None \<Longrightarrow> x = None \<or> (\<exists>n. x = Some (take n (journal_bytes j))) \<Longrightarrow> E (fs(p := x))"
    and "C fs" "\<And>n. fs p = None \<Longrightarrow> C (fs(p \<mapsto> take n (journal_bytes j)))"
  shows "wp (writeJournalExclusive opts p j) Q E C fs"
proof -
  have empty: "C (fs(p \<mapsto> []))" and whole: "C (fs(p \<mapsto> journal_bytes j))" if "fs p = None"
    using assms(5) [OF that, of 0] assms(5) [OF that, of "length (journal_bytes j)"] by simp_all
  have prefixes: "E (fs(p \<mapsto> take n (journal_bytes j)))" if "fs p = None" for n using assms(3) that by blast
  have cleaned: "E (fs(p := None))" "E (fs(p \<mapsto> []))" "E (fs(p \<mapsto> journal_bytes j))" if "fs p = None"
    using assms(3) [OF that, of None] prefixes [OF that, of 0] prefixes [OF that, of "length (journal_bytes j)"] by simp_all
  show ?thesis
    unfolding writeJournalExclusive_def journal_encodes option.case journal_bytes_def [symmetric]
    apply (rule wp_bindIO)
    apply (cases "fs p = None")
     apply (rule wp_bindIO wp_on_error impI conjI allI | simp add: calls assms(1,2,4,5) empty whole cleaned prefixes)+
    done
qed

text \<open>
  How a replacement may end.  With the temporary file \<open>t\<close>: nothing but the temporary file happened,
  the journal is on its way, everything is ready, the ledger is replaced, or the journal is gone.
\<close>

lemma wp_replace_ledger:
  fixes opts l original updated fs
  defines "t \<equiv> temp_path opts l fs" and "J \<equiv> JournalPath l"
  defines "b \<equiv> journal_bytes (new_journal opts l t original updated)"
  assumes absent: "E fs" "\<And>x. fs t = None \<Longrightarrow> E (fs(t := x))"
    and partial: "\<And>x y. fs t = None \<Longrightarrow> fs J = None \<Longrightarrow> E (fs(t := x, J := y))"
    and ready: "fs t = None \<Longrightarrow> fs J = None \<Longrightarrow> E (fs(t \<mapsto> updated, J \<mapsto> b)) \<and> C (fs(t \<mapsto> updated, J \<mapsto> b))"
    and replaced: "fs t = None \<Longrightarrow> fs J = None \<Longrightarrow> E (fs(J \<mapsto> b, l \<mapsto> updated)) \<and> C (fs(J \<mapsto> b, l \<mapsto> updated))"
    and finished: "fs t = None \<Longrightarrow> fs J = None \<Longrightarrow> E (fs(l \<mapsto> updated)) \<and> C (fs(l \<mapsto> updated)) \<and> Q () (fs(l \<mapsto> updated))"
    and stopped: "C fs" "\<And>x. fs t = None \<Longrightarrow> C (fs(t := x))"
      "\<And>n. fs t = None \<Longrightarrow> fs J = None \<Longrightarrow> C (fs(t \<mapsto> updated, J \<mapsto> take n b))"
  shows "wp (replace_ledger opts l original updated) Q E C fs"
  unfolding replace_ledger_def
proof (rule wp_bindIO, rule wp_writeSiblingTemp, unfold t_def [symmetric])
  note names = names_differ(1) names_differ(3,4) [OF is_temp_path, of opts l fs, folded t_def]
  assume t: "fs t = None"
  show "wp (bindIO (on_error (remove_file t) (writeJournalExclusive opts (JournalPath l) (new_journal opts l t original updated)))
      (\<lambda>_. finish_replacement opts l t)) Q E C (fs(t \<mapsto> updated))"
  proof (rule wp_bindIO, rule wp_on_error, rule wp_writeJournalExclusive)
    assume "(fs(t \<mapsto> updated)) (JournalPath l) = None"
    then have J: "fs (JournalPath l) = None" using names by simp
    have "fs(JournalPath l \<mapsto> x, t := None) = fs(JournalPath l \<mapsto> x)"
      "fs(l \<mapsto> x, JournalPath l := None) = fs(l \<mapsto> x)" for x
      using names t J by (auto simp: fun_eq_iff)
    moreover note ready [OF t] replaced [OF t] finished [OF t] J
    ultimately show "wp (finish_replacement opts l t) Q E C
        (fs(t \<mapsto> updated, JournalPath l \<mapsto> journal_bytes (new_journal opts l t original updated)))"
      unfolding finish_replacement_def J_def b_def
      by - ((rule wp_bindIO impI conjI | simp add: calls names)+)
  next
    fix x assume J: "(fs(t \<mapsto> updated)) (JournalPath l) = None"
      and x: "x = None \<or> (\<exists>n. x = Some (take n (journal_bytes (new_journal opts l t original updated))))"
    have J': "fs (JournalPath l) = None" using J names by simp
    have twist: "fs(JournalPath l := x, t := None) = fs(t := None, JournalPath l := x)"
      using names by (auto simp: fun_eq_iff)
    have "E (fs(t := y, JournalPath l := x))" for y using partial [OF t, folded J_def] J' by (simp add: J_def)
    moreover have "C (fs(t \<mapsto> updated, JournalPath l := x))"
      using x stopped(3) [OF t, folded J_def] stopped(2) [OF t, of "Some updated"] J' names by (auto simp: J_def b_def fun_upd_idem)
    ultimately show "wp (remove_file t) (\<lambda>_. E) E C (fs(t \<mapsto> updated, JournalPath l := x))"
      using twist by (simp add: calls)
  qed (use absent stopped t names in \<open>auto simp: calls J_def b_def\<close>)
qed (use absent stopped in auto)

section \<open>The visible ledger stays valid\<close>

definition passes :: "tx_options \<Rightarrow> ledger_document \<Rightarrow> bool" where
  "passes opts p = (case op_Validate opts of None \<Rightarrow> True | Some check \<Rightarrow> check p = None)"

definition good_document :: "tx_options \<Rightarrow> string \<Rightarrow> string \<Rightarrow> bool" where
  "good_document opts l d =
     (case parseDocument opts d (detectFormat l d) of None \<Rightarrow> False | Some p \<Rightarrow> passes opts p)"

definition good_ledger :: "tx_options \<Rightarrow> string \<Rightarrow> files \<Rightarrow> bool" where
  "good_ledger opts l fs = (case fs l of None \<Rightarrow> False | Some d \<Rightarrow> good_document opts l d)"

text \<open>A name whose extension fixes the format.\<close>

definition fixed_format :: "string \<Rightarrow> bool" where
  "fixed_format l \<longleftrightarrow> lower_ascii (filepath_Ext l) \<in> {''.json'', ''.yaml'', ''.yml''}"

lemma fixed_format: "fixed_format l \<Longrightarrow> detectFormat l d = detectFormat l d'"
  by (auto simp: fixed_format_def detectFormat_def)

lemma good_ledger_frame [simp]: "n \<noteq> l \<Longrightarrow> good_ledger opts l (fs(n := x)) = good_ledger opts l fs"
  "good_ledger opts l (fs(l \<mapsto> d)) = good_document opts l d"
  by (simp_all add: good_ledger_def)

lemma wp_check_document [simp]: "wp (check_document opts p) Q E C fs \<longleftrightarrow> (if passes opts p then Q () fs else E fs)"
  by (simp add: check_document_def passes_def split: option.split)

lemma wp_validateRecoveryDocument [simp]:
  "wp (validateRecoveryDocument opts l d) Q E C fs \<longleftrightarrow> (if good_document opts l d then Q () fs else E fs)"
  by (simp add: validateRecoveryDocument_def good_document_def split: option.split)

lemma parsed_raw: "parseDocument opts d f = Some p \<Longrightarrow> ld_Raw p = d \<and> ld_Format p = f"
  by (auto simp: parseDocument_def split: format.splits sum.splits)

lemma wp_load_ledger [wp_rules]:
  assumes "E fs" "C fs" "\<And>d p. fs l = Some d \<Longrightarrow> parseDocument opts d (detectFormat l d) = Some p \<Longrightarrow> passes opts p \<Longrightarrow> Q p fs"
  shows "wp (load_ledger opts l) Q E C fs"
  unfolding load_ledger_def
  by (rule wp_bindIO) (use assms in \<open>auto simp: calls intro!: wp_bindIO split: option.splits\<close>)

lemma decoded_temp: "decodeRecoveryJournal opts l b = Some j \<Longrightarrow> is_temp l (rj_TempBase j)"
  by (auto simp: decodeRecoveryJournal_def is_temp_def Let_def split: option.splits if_splits)

lemma wp_recover_good:
  assumes "good_ledger opts l fs"
  shows "wp (recoverLedgerLocked opts l) (\<lambda>_. good_ledger opts l) (good_ledger opts l) (good_ledger opts l) fs"
proof -
  let ?G = "good_ledger opts l"
  note names = names_differ(1)
  have temp: "wp (recover_from_temp opts l j) (\<lambda>_. ?G) ?G ?G fs" if "is_temp l (rj_TempBase j)" for j
    unfolding recover_from_temp_def removeJournalAndSync_def
    using assms names names_differ(3) [OF that]
    by - ((rule wp_bindIO impI conjI allI | simp add: calls split: option.split)+)
  have matching: "wp (removeMatchingRecoveryTemp t d) (\<lambda>_. ?G) ?G ?G fs" if "is_temp l t" for t d
    unfolding removeMatchingRecoveryTemp_def
    using assms names_differ(3) [OF that]
    by - ((rule wp_bindIO impI conjI allI | simp add: calls split: option.split)+)
  note parts = wp_mono [OF temp [OF decoded_temp]] wp_mono [OF matching [OF decoded_temp]]
  show ?thesis
    unfolding recoverLedgerLocked_def removeJournalAndSync_def
    using assms names
    by - ((rule parts wp_bindIO wp_if impI conjI allI | assumption | simp add: calls split: option.split)+)
qed


text \<open>The directory once the lock file exists.\<close>

definition locked :: "string \<Rightarrow> files \<Rightarrow> files" where
  "locked l fs = (if fs (LedgerLockPath l) = None then fs(LedgerLockPath l \<mapsto> []) else fs)"

lemma wp_AcquireLedgerLock [simp]:
  "wp (AcquireLedgerLock l) Q E C fs \<longleftrightarrow> Q () (locked l fs) \<and> E fs \<and> C fs"
  by (auto simp: AcquireLedgerLock_def locked_def)

lemma locked_other [simp]: "locked l fs l = fs l" "locked l fs (JournalPath l) = fs (JournalPath l)"
  using names_differ(2,6) [of l] by (auto simp: locked_def)

lemma good_locked [simp]: "good_ledger opts l (locked l fs) = good_ledger opts l fs"
  by (simp add: good_ledger_def)

lemma wp_precheck:
  assumes "E fs" "C fs" "fs (JournalPath l) = None \<Longrightarrow> Q () fs" "Q () fs"
  shows "wp (precheck opts l) Q E C fs"
  unfolding precheck_def
  using assms by (auto split: option.split intro!: wp_bindIO wp_load_ledger)

text \<open>The document a transaction proposes for the bytes it read.\<close>

definition proposes :: "tx_options \<Rightarrow> string \<Rightarrow> string \<Rightarrow> string \<Rightarrow> bool" where
  "proposes opts l original updated \<longleftrightarrow>
     (\<exists>p mutate. parseDocument opts original (detectFormat l original) = Some p \<and> passes opts p \<and>
        op_Mutate opts = Some mutate \<and> mutate p = Inr updated \<and>
        (updated = original \<or> (\<exists>q. parseDocument opts updated (ld_Format p) = Some q \<and> passes opts q)))"

text \<open>The part of \<open>UpdateLedger\<close> that follows the recovery.\<close>

definition rewrite_ledger :: "tx_options \<Rightarrow> string \<Rightarrow> unit io" where
  "rewrite_ledger opts l = bindIO (load_ledger opts l) (\<lambda>parsed.
     case op_Mutate opts of
       None \<Rightarrow> raiseIO CodeInternal
     | Some mutate \<Rightarrow>
         (case mutate parsed of
            Inl e \<Rightarrow> raiseIO e
          | Inr updated \<Rightarrow>
              if updated = ld_Raw parsed then returnIO ()
              else
                (case parseDocument opts updated (ld_Format parsed) of
                   None \<Rightarrow> raiseIO CodeInvalidData
                 | Some post \<Rightarrow>
                     bindIO (check_document opts post) (\<lambda>_.
                     bindIO contextError (\<lambda>_.
                     bindIO plain_call (\<lambda>_.
                     replace_ledger opts l (ld_Raw parsed) updated))))))"

lemma UpdateLedger_rewrite:
  "UpdateLedger opts l =
     bindIO (precheck opts l) (\<lambda>_. bindIO (AcquireLedgerLock l) (\<lambda>_. bindIO contextError (\<lambda>_.
     bindIO (recoverLedgerLocked opts l) (\<lambda>_. rewrite_ledger opts l))))"
  by (simp add: UpdateLedger_def rewrite_ledger_def)

lemma wp_rewrite_ledger:
  assumes "E fs" "C fs" "\<And>d. fs l = Some d \<Longrightarrow> proposes opts l d d \<Longrightarrow> Q () fs"
    and "\<And>d u. fs l = Some d \<Longrightarrow> proposes opts l d u \<Longrightarrow> u \<noteq> d \<Longrightarrow> wp (replace_ledger opts l d u) Q E C fs"
  shows "wp (rewrite_ledger opts l) Q E C fs"
  unfolding rewrite_ledger_def
proof (rule wp_bindIO, rule wp_load_ledger)
  fix d p assume d: "fs l = Some d" "parseDocument opts d (detectFormat l d) = Some p" "passes opts p"
  note raw = parsed_raw [OF d(2)]
  have same: "op_Mutate opts = Some mutate \<Longrightarrow> mutate p = Inr d \<Longrightarrow> Q () fs" for mutate
    using assms(3) [OF d(1)] d by (auto simp: proposes_def)
  have other: "op_Mutate opts = Some mutate \<Longrightarrow> mutate p = Inr u \<Longrightarrow> u \<noteq> d \<Longrightarrow>
      parseDocument opts u (ld_Format p) = Some q \<Longrightarrow> passes opts q \<Longrightarrow> wp (replace_ledger opts l d u) Q E C fs" for mutate u q
    using assms(4) [OF d(1)] d by (auto simp: proposes_def)
  show "wp (case op_Mutate opts of None \<Rightarrow> raiseIO CodeInternal
     | Some mutate \<Rightarrow>
         (case mutate p of
            Inl e \<Rightarrow> raiseIO e
          | Inr updated \<Rightarrow>
              if updated = ld_Raw p then returnIO ()
              else
                (case parseDocument opts updated (ld_Format p) of
                   None \<Rightarrow> raiseIO CodeInvalidData
                 | Some post \<Rightarrow>
                     bindIO (check_document opts post) (\<lambda>_.
                     bindIO contextError (\<lambda>_.
                     bindIO plain_call (\<lambda>_.
                     replace_ledger opts l (ld_Raw p) updated)))))) Q E C fs"
    using assms(1,2) same other raw
    by (auto split: option.split sum.split simp: calls intro!: wp_bindIO)
qed (use assms in auto)

lemma proposes_good: "fixed_format l \<Longrightarrow> proposes opts l d u \<Longrightarrow> u \<noteq> d \<Longrightarrow> good_document opts l u"
  using fixed_format [of l u d] by (fastforce simp: proposes_def good_document_def dest: parsed_raw)

lemma wp_update_good:
  assumes "fixed_format l" "good_ledger opts l fs"
  shows "wp (UpdateLedger opts l) (\<lambda>_. good_ledger opts l) (good_ledger opts l) (good_ledger opts l) fs"
proof -
  let ?G = "good_ledger opts l"
  have rewrite: "wp (rewrite_ledger opts l) (\<lambda>_. ?G) ?G ?G fs" if "?G fs" for fs
    using that names_differ(1) names_differ(3) [OF is_temp_path] proposes_good [OF assms(1)]
    by (auto intro!: wp_rewrite_ledger wp_replace_ledger)
  show ?thesis
    unfolding UpdateLedger_rewrite
    using assms(2)
    by - ((rule wp_bindIO wp_precheck wp_mono [OF wp_recover_good] rewrite impI conjI | assumption | simp add: contextError_def)+)
qed

lemma wp_always: "wp m (\<lambda>_. P) P P (wd_Files w) \<Longrightarrow> m w = (r, w') \<Longrightarrow> P (wd_Files w')"
  by (drule (1) wpD) (simp split: result.splits)

lemma wp_recover_absent:
  assumes "fs (JournalPath l) = None" "Q False fs" "E fs" "C fs"
  shows "wp (recoverLedgerLocked opts l) Q E C fs"
  unfolding recoverLedgerLocked_def
  using assms by - ((rule wp_bindIO conjI | simp add: calls)+)

text \<open>Without a journal a transaction starts at its own reading of the ledger.\<close>

lemma wp_UpdateLedger:
  assumes "fs (JournalPath l) = None" "E fs" "C fs" "E (locked l fs)" "C (locked l fs)"
    and "wp (rewrite_ledger opts l) Q E C (locked l fs)"
  shows "wp (UpdateLedger opts l) Q E C fs"
  unfolding UpdateLedger_rewrite
  by (rule wp_bindIO wp_precheck wp_recover_absent conjI assms | simp add: contextError_def assms)+

end
