(* ===== verification/Transaction_Properties.thy ===== *)
theory Transaction_Properties
  imports Storage_Recovery
begin

text \<open>
  The promises of the ledger's storage: the visible ledger is valid in every directory that a
  history of transactions, recoveries and foreign writes can reach, one transaction writes the
  old or the new bytes, a crash with a complete journal is repaired, and an empty journal is not.
\<close>

section \<open>Every reachable directory\<close>

definition same_checks :: "tx_options \<Rightarrow> tx_options \<Rightarrow> bool" where
  "same_checks a b \<longleftrightarrow> op_Validate a = op_Validate b \<and> op_ParseYAML a = op_ParseYAML b"


text \<open>
  A history of one ledger: transactions and recoveries, each ending as the system calls let it,
  with the validation the first argument holds, and writes of anybody to every other name.
\<close>

inductive lives :: "tx_options \<Rightarrow> string \<Rightarrow> files \<Rightarrow> files \<Rightarrow> bool" for opts l fs where
  lives_start: "lives opts l fs fs"
| lives_update: "lives opts l fs (wd_Files w) \<Longrightarrow> same_checks opts opts' \<Longrightarrow> UpdateLedger opts' l w = (r, w') \<Longrightarrow>
    lives opts l fs (wd_Files w')"
| lives_recover: "lives opts l fs (wd_Files w) \<Longrightarrow> same_checks opts opts' \<Longrightarrow> RecoverLedger opts' l w = (r, w') \<Longrightarrow>
    lives opts l fs (wd_Files w')"
| lives_foreign: "lives opts l fs fs' \<Longrightarrow> n \<noteq> l \<Longrightarrow> lives opts l fs (fs'(n := x))"

inductive_cases lives_elim: "lives opts l fs fs'"





section \<open>One transaction\<close>


text \<open>Where a transaction on the directory \<open>fs\<close> puts its temporary file.\<close>

abbreviation new_temp :: "tx_options \<Rightarrow> string \<Rightarrow> files \<Rightarrow> string" where
  "new_temp opts l fs \<equiv> temp_path opts l (locked l fs)"

definition own_names :: "tx_options \<Rightarrow> string \<Rightarrow> files \<Rightarrow> string set" where
  "own_names opts l fs = {l, JournalPath l, LedgerLockPath l, new_temp opts l fs}"

definition untouched_others :: "tx_options \<Rightarrow> string \<Rightarrow> files \<Rightarrow> files \<Rightarrow> bool" where
  "untouched_others opts l fs fs' \<longleftrightarrow> (\<forall>n. n \<notin> own_names opts l fs \<longrightarrow> fs' n = fs n)"

definition old_or_new :: "tx_options \<Rightarrow> string \<Rightarrow> string \<Rightarrow> string option \<Rightarrow> bool" where
  "old_or_new opts l d x \<longleftrightarrow> x = Some d \<or> (\<exists>u. proposes opts l d u \<and> x = Some u)"

lemma untouched_same [simp]: "untouched_others opts l fs fs" "untouched_others opts l fs (locked l fs)"
  by (simp_all add: untouched_others_def own_names_def locked_def)

lemma untouched_update [simp]:
  "n \<in> own_names opts l fs \<Longrightarrow> untouched_others opts l fs (fs'(n := x)) = untouched_others opts l fs fs'"
  unfolding untouched_others_def by (metis fun_upd_apply)

lemma own_names [simp]: "l \<in> own_names opts l fs" "JournalPath l \<in> own_names opts l fs" "new_temp opts l fs \<in> own_names opts l fs"
  by (simp_all add: own_names_def)

lemmas names_apart [simp] =
  names_differ(1) names_differ(1) [THEN not_sym]
  names_differ(3) [OF is_temp_path] names_differ(3) [OF is_temp_path, THEN not_sym]
  names_differ(4) [OF is_temp_path] names_differ(4) [OF is_temp_path, THEN not_sym]

definition unwritten :: "tx_options \<Rightarrow> string \<Rightarrow> string \<Rightarrow> files \<Rightarrow> files \<Rightarrow> bool" where
  "unwritten opts l d fs fs' \<longleftrightarrow> untouched_others opts l fs fs' \<and> old_or_new opts l d (fs' l)"

lemma wp_update_atomic:
  assumes "fs (JournalPath l) = None" "fs l = Some d"
  shows "wp (UpdateLedger opts l) (\<lambda>_ fs'. \<exists>u. proposes opts l d u \<and> fs' = (locked l fs)(l \<mapsto> u))
     (unwritten opts l d fs) (unwritten opts l d fs) fs"
proof -
  have start: "unwritten opts l d fs fs" "unwritten opts l d fs (locked l fs)"
    using assms(2) by (simp_all add: unwritten_def old_or_new_def)
  have same: "(locked l fs)(l \<mapsto> d) = locked l fs" using assms(2) by (simp add: fun_upd_idem)
  show ?thesis
    by (intro wp_UpdateLedger wp_rewrite_ledger wp_replace_ledger start assms)
       (use assms same in \<open>auto simp: unwritten_def old_or_new_def\<close>)
qed

text \<open>
  C2: a transaction that starts without a journal is atomic.  However it ends, the ledger holds
  the bytes it held or the bytes that the mutation proposed for them and that were parsed and
  validated, and no name but its own four is touched; when it reports success the directory is
  the old one with the proposed bytes in the ledger and with the lock file, and no journal and no
  temporary file is left.
\<close>

theorem update_atomic:
  assumes "UpdateLedger opts l w = (r, w')" "wd_Files w (JournalPath l) = None" "wd_Files w l = Some d"
  shows "untouched_others opts l (wd_Files w) (wd_Files w') \<and> old_or_new opts l d (wd_Files w' l) \<and>
    (r = Returned () \<longrightarrow> (\<exists>u. proposes opts l d u \<and> wd_Files w' = (locked l (wd_Files w))(l \<mapsto> u)))"
  using wpD [OF wp_update_atomic [OF assms(2,3)] assms(1)]
  by (cases r) (auto simp: unwritten_def old_or_new_def)

section \<open>Recovery after a crash\<close>

text \<open>The bytes of the journal of a transaction, and what a crash may leave.\<close>

definition journal_of :: "tx_options \<Rightarrow> string \<Rightarrow> files \<Rightarrow> string \<Rightarrow> string \<Rightarrow> recovery_journal" where
  "journal_of opts l fs d u = new_journal opts l (new_temp opts l fs) d u"






lemma sha256Hex_digest [simp]: "length (sha256Hex s) = 64" "hex_DecodeString (sha256Hex s) = Some (sha256 s)"
  "validIJSONString (sha256Hex s)"
  by (simp_all add: sha256Hex_def hex_valid)







text \<open>A run in which every call succeeds.\<close>

abbreviation quiet :: "files \<Rightarrow> world" where
  "quiet fs \<equiv> \<lparr>wd_Files = fs, wd_Oracle = []\<rparr>"

lemma quiet_file_op [simp]:
  "file_op code effect unfinished (quiet fs) =
     (case effect fs of Inl e \<Rightarrow> (Errored e, quiet fs) | Inr (x, fs') \<Rightarrow> (Returned x, quiet fs'))"
  by (simp add: file_op_def ask_def split: sum.split)


lemmas run = bindIO_def returnIO_def calls removeJournalAndSync_def






section \<open>A journal that was created and not written\<close>

lemma parseValue_nothing: "\<exists>e. parseValue bounds n k p None ([], i) = Inl e"
  by (cases k) (simp_all add: parseValue.simps to_token_def skip_space_def)

lemma empty_journal: "decodeRecoveryJournal opts l [] = None"
proof -
  have "unlimited [] = \<lparr>lm_MaxBytes = 0, lm_MaxDepth = 10000, lm_MaxNodes = 0, lm_MaxScalarBytes = 0\<rparr>"
    by (simp add: unlimited_def)
  moreover obtain e where "parseValue \<lparr>lm_MaxBytes = 33554432, lm_MaxDepth = 10000, lm_MaxNodes = 500000, lm_MaxScalarBytes = 1048576\<rparr>
      0 10000 [] None ([], 0) = Inl e"
    using parseValue_nothing by blast
  ultimately have "json_Unmarshal [] = None"
    by (simp add: json_Unmarshal_def ParseJSON_def readBounded_def normalizedLimits_def or_default_def DefaultLimits_def Let_def bindR_def)
  then show ?thesis by (simp add: decodeRecoveryJournal_def)
qed

lemma wp_recover_blocked:
  assumes "fs (JournalPath l) = Some []" "E fs" "C fs"
  shows "wp (recoverLedgerLocked opts l) Q E C fs"
  unfolding recoverLedgerLocked_def
  using assms by - ((rule wp_bindIO conjI | simp add: contextError_def read_file_def empty_journal)+)

lemma wp_update_blocked:
  assumes "fs (JournalPath l) = Some []"
  shows "wp (UpdateLedger opts l) (\<lambda>_ _. False) (\<lambda>fs'. fs' (JournalPath l) = Some []) (\<lambda>fs'. fs' (JournalPath l) = Some []) fs"
  unfolding UpdateLedger_rewrite
  using assms by - ((rule wp_bindIO conjI wp_precheck wp_recover_blocked | simp add: contextError_def)+)

lemma wp_RecoverLedger_blocked:
  assumes "fs (JournalPath l) = Some []"
  shows "wp (RecoverLedger opts l) (\<lambda>_ _. False) (\<lambda>fs'. fs' (JournalPath l) = Some []) (\<lambda>fs'. fs' (JournalPath l) = Some []) fs"
  unfolding RecoverLedger_def
  using assms by - ((rule wp_bindIO conjI wp_recover_blocked | simp)+)

text \<open>The run that stops between the creation of the journal and its first byte.\<close>

lemma oracle_file_op [simp]:
  "file_op code effect unfinished \<lparr>wd_Files = fs, wd_Oracle = Done # xs\<rparr> =
     (case effect fs of Inl e \<Rightarrow> (Errored e, \<lparr>wd_Files = fs, wd_Oracle = xs\<rparr>)
      | Inr (x, fs') \<Rightarrow> (Returned x, \<lparr>wd_Files = fs', wd_Oracle = xs\<rparr>))"
  "file_op code effect unfinished \<lparr>wd_Files = fs, wd_Oracle = Stopped n # xs\<rparr> =
     (Crashed, \<lparr>wd_Files = unfinished n fs, wd_Oracle = xs\<rparr>)"
  by (simp_all add: file_op_def ask_def split: sum.split)

lemma oracle_stat_missing [simp]:
  "stat_missing n \<lparr>wd_Files = fs, wd_Oracle = Done # xs\<rparr> = (Returned (fs n = None), \<lparr>wd_Files = fs, wd_Oracle = xs\<rparr>)"
  by (simp add: stat_missing_def ask_def)

lemma no_fault [simp]: "\<not> op_Fault opts stage \<Longrightarrow> injectFault opts stage w = (Returned (), w)"
  by (simp add: injectFault_def returnIO_def)

lemma passes_check [simp]: "passes opts p \<Longrightarrow> check_document opts p w = (Returned (), w)"
  by (auto simp: check_document_def passes_def returnIO_def split: option.splits)

lemma load_runs:
  assumes "fs l = Some d" "parseDocument opts d (detectFormat l d) = Some p" "passes opts p"
  shows "load_ledger opts l \<lparr>wd_Files = fs, wd_Oracle = Done # xs\<rparr> = (Returned p, \<lparr>wd_Files = fs, wd_Oracle = xs\<rparr>)"
  using assms by (simp add: load_ledger_def run)

lemma writeSiblingTemp_runs:
  assumes "fs (temp_path opts l fs) = None" "\<forall>stage. \<not> op_Fault opts stage"
  shows "writeSiblingTemp opts l u \<lparr>wd_Files = fs, wd_Oracle = replicate 5 Done @ xs\<rparr> =
    (Returned (temp_path opts l fs), \<lparr>wd_Files = fs(temp_path opts l fs \<mapsto> u), wd_Oracle = xs\<rparr>)"
  using assms by (simp add: writeSiblingTemp_def create_temp_def temp_path_def run on_error_def numeral_eq_Suc Let_def)

lemma replace_stops:
  assumes "fs (temp_path opts l fs) = None" "fs (JournalPath l) = None" "\<forall>stage. \<not> op_Fault opts stage"
  shows "replace_ledger opts l d u \<lparr>wd_Files = fs, wd_Oracle = replicate 5 Done @ [Done, Stopped 0]\<rparr> =
      (Crashed, \<lparr>wd_Files = fs(temp_path opts l fs \<mapsto> u, JournalPath l \<mapsto> []), wd_Oracle = []\<rparr>)"
    and "replace_ledger opts l d u \<lparr>wd_Files = fs, wd_Oracle = replicate 5 Done @ [Done, Done, Done, Done, Stopped 0]\<rparr> =
      (Crashed, \<lparr>wd_Files = fs(temp_path opts l fs \<mapsto> u,
         JournalPath l \<mapsto> journal_bytes (new_journal opts l (temp_path opts l fs) d u)), wd_Oracle = []\<rparr>)"
  using assms writeSiblingTemp_runs [of fs opts l u "[Done, Stopped 0]"]
    writeSiblingTemp_runs [of fs opts l u "[Done, Done, Done, Done, Stopped 0]"]
  by (simp_all add: replace_ledger_def writeJournalExclusive_def finish_replacement_def journal_encodes journal_bytes_def
        run on_error_def)

text \<open>A transaction reaches its replacement after nine calls.\<close>

lemma update_runs:
  assumes "fs (JournalPath l) = None" "fs l = Some d" "proposes opts l d u" "u \<noteq> d" "op_Validate opts \<noteq> None"
    and replace: "replace_ledger opts l d u \<lparr>wd_Files = locked l fs, wd_Oracle = xs\<rparr> = (r, w')"
  shows "UpdateLedger opts l \<lparr>wd_Files = fs, wd_Oracle = replicate 9 Done @ xs\<rparr> = (r, w')"
proof -
  obtain p mutate q where p: "parseDocument opts d (detectFormat l d) = Some p" "passes opts p" "op_Mutate opts = Some mutate"
      "mutate p = Inr u" "parseDocument opts u (ld_Format p) = Some q" "passes opts q"
    using assms(3,4) unfolding proposes_def by auto
  note raw = parsed_raw [OF p(1)]
  have rewrite: "rewrite_ledger opts l \<lparr>wd_Files = locked l fs, wd_Oracle = Done # Done # Done # xs\<rparr> = (r, w')"
    using replace assms p raw by (simp add: rewrite_ledger_def bindIO_def load_runs contextError_def plain_call_def)
  have lock: "AcquireLedgerLock l \<lparr>wd_Files = fs, wd_Oracle = Done # xs\<rparr> = (Returned (), \<lparr>wd_Files = locked l fs, wd_Oracle = xs\<rparr>)" for xs
    by (simp add: AcquireLedgerLock_def locked_def)
  obtain check where "op_Validate opts = Some check" using assms(5) by auto
  then have "precheck opts l \<lparr>wd_Files = fs, wd_Oracle = Done # Done # xs\<rparr> = (Returned (), \<lparr>wd_Files = fs, wd_Oracle = xs\<rparr>)" for xs
    using assms p by (simp add: precheck_def bindIO_def load_runs returnIO_def)
  moreover have "recoverLedgerLocked opts l \<lparr>wd_Files = locked l fs, wd_Oracle = Done # Done # xs\<rparr> =
      (Returned False, \<lparr>wd_Files = locked l fs, wd_Oracle = xs\<rparr>)" for xs
    using assms(1) by (simp add: recoverLedgerLocked_def run)
  moreover have "replicate 9 Done @ xs = Done # Done # Done # Done # Done # Done # Done # Done # Done # xs"
    by (simp add: numeral_eq_Suc)
  ultimately show ?thesis
    by (simp only: UpdateLedger_rewrite) (simp add: bindIO_def lock contextError_def rewrite)
qed

lemma blocked_run:
  assumes "wp m (\<lambda>_ _. False) P P (wd_Files w)"
  shows "case m w of (r, w'') \<Rightarrow> r \<noteq> Returned x \<and> P (wd_Files w'')"
proof -
  obtain r w'' where "m w = (r, w'')" by force
  with wpD [OF assms this] show ?thesis by (cases r) auto
qed

text \<open>
  C4: one crash can stop a ledger for good.  Between the creation of the journal and its first
  byte the process may stop, and the journal is then empty; from that directory no transaction
  and no recovery ever succeeds, whatever it proposes and whatever the system calls answer, and
  none removes the journal.
\<close>

theorem empty_journal_blocks:
  assumes "fs (JournalPath l) = None" "fs l = Some d" "proposes opts l d u" "u \<noteq> d"
    "\<forall>stage. \<not> op_Fault opts stage" "op_Validate opts \<noteq> None" "locked l fs (new_temp opts l fs) = None"
  shows "\<exists>xs w'. UpdateLedger opts l \<lparr>wd_Files = fs, wd_Oracle = xs\<rparr> = (Crashed, w') \<and>
    (\<forall>w. wd_Files w (JournalPath l) = wd_Files w' (JournalPath l) \<longrightarrow> (\<forall>opts'.
       (case UpdateLedger opts' l w of (r, w'') \<Rightarrow> r \<noteq> Returned () \<and> wd_Files w'' (JournalPath l) = wd_Files w (JournalPath l)) \<and>
       (case RecoverLedger opts' l w of (r, w'') \<Rightarrow> r \<noteq> Returned () \<and> wd_Files w'' (JournalPath l) = wd_Files w (JournalPath l))))"
proof (intro exI conjI allI impI)
  show "UpdateLedger opts l \<lparr>wd_Files = fs, wd_Oracle = replicate 9 Done @ replicate 5 Done @ [Done, Stopped 0]\<rparr> =
    (Crashed, \<lparr>wd_Files = (locked l fs)(new_temp opts l fs \<mapsto> u, JournalPath l \<mapsto> []), wd_Oracle = []\<rparr>)"
    using assms by (intro update_runs [OF _ _ assms(3)] replace_stops(1)) simp_all
  fix w :: world and opts'
  assume "wd_Files w (JournalPath l) = wd_Files \<lparr>wd_Files = (locked l fs)(new_temp opts l fs \<mapsto> u, JournalPath l \<mapsto> []), wd_Oracle = []\<rparr> (JournalPath l)"
  then have w: "wd_Files w (JournalPath l) = Some []" by simp
  show "case UpdateLedger opts' l w of (r, w'') \<Rightarrow> r \<noteq> Returned () \<and> wd_Files w'' (JournalPath l) = wd_Files w (JournalPath l)"
    using blocked_run [OF wp_update_blocked [where fs = "wd_Files w", OF w]] by (simp add: w)
  show "case RecoverLedger opts' l w of (r, w'') \<Rightarrow> r \<noteq> Returned () \<and> wd_Files w'' (JournalPath l) = wd_Files w (JournalPath l)"
    using blocked_run [OF wp_RecoverLedger_blocked [where fs = "wd_Files w", OF w]] by (simp add: w)
qed

section \<open>A concrete ledger\<close>

definition example_tx :: tx_options where
  "example_tx =
     \<lparr>op_Validate = Some (\<lambda>_. None), op_Mutate = Some (\<lambda>_. Inr ''[]''), op_Fault = (\<lambda>_. False),
      op_ParseYAML = (\<lambda>_. None), op_Random = (\<lambda>_. ''1''), op_Now = ''2026-01-01T00:00:00Z'',
      op_TimeParses = (\<lambda>s. s = ''2026-01-01T00:00:00Z'')\<rparr>"

definition example_files :: files where
  "example_files = [''l.json'' \<mapsto> ''{}'']"

lemma example_parses:
  "parseDocument example_tx ''{}'' FormatJSON = Some \<lparr>ld_Format = FormatJSON, ld_Raw = ''{}'', ld_Root = ValueObject (0, 2) []\<rparr>"
  "parseDocument example_tx ''[]'' FormatJSON = Some \<lparr>ld_Format = FormatJSON, ld_Raw = ''[]'', ld_Root = ValueArray (0, 2) []\<rparr>"
  by code_simp+

lemma example_names:
  "JournalPath ''l.json'' = ''.l.json.forecast-ledger-journal.json''"
  "locked ''l.json'' example_files = example_files(''.l.json.forecast-ledger.lock'' \<mapsto> [])"
  "temp_path example_tx ''l.json'' fs = ''.l.json.forecast-ledger-1.tmp''"
  "detectFormat ''l.json'' d = FormatJSON"
  by (simp_all add: JournalPath_def locked_def LedgerLockPath_def example_files_def temp_path_def temp_prefix_def example_tx_def
    detectFormat_def filepath_Ext_def lower_ascii_def of_char_of)


lemma example_passes: "passes example_tx p"
  by (simp add: passes_def example_tx_def)

lemma example_proposes: "proposes example_tx ''l.json'' ''{}'' ''[]''"
  by (simp add: proposes_def example_names example_parses example_passes) (simp add: example_tx_def)


lemma example_start: "example_files (JournalPath ''l.json'') = None" "example_files ''l.json'' = Some ''{}''"
  by (simp_all add: example_names example_files_def)



text \<open>The example stopped before the rename.\<close>

definition example_stopped :: files where
  "example_stopped = (locked ''l.json'' example_files)(temp_path example_tx ''l.json'' (locked ''l.json'' example_files) \<mapsto> ''[]'',
     JournalPath ''l.json'' \<mapsto> journal_bytes (journal_of example_tx ''l.json'' example_files ''{}'' ''[]''))"

lemma example_temp_free: "locked ''l.json'' example_files (temp_path example_tx ''l.json'' fs) = None"
  by (simp add: example_names) (simp add: example_files_def)

lemma example_ready: "\<forall>stage. \<not> op_Fault example_tx stage" "op_Validate example_tx \<noteq> None"
  by (simp_all add: example_tx_def)

lemma example_run:
  "UpdateLedger example_tx ''l.json''
     \<lparr>wd_Files = example_files, wd_Oracle = replicate 9 Done @ replicate 5 Done @ [Done, Done, Done, Done, Stopped 0]\<rparr> =
   (Crashed, \<lparr>wd_Files = example_stopped, wd_Oracle = []\<rparr>)"
  unfolding example_stopped_def journal_of_def
  by (intro update_runs [OF example_start example_proposes] replace_stops(2) example_temp_free example_ready)
     (simp_all add: example_start)

theorem update_atomic_witness: "old_or_new example_tx ''l.json'' ''{}'' (example_stopped ''l.json'')"
  using update_atomic [OF example_run] example_start by simp



theorem empty_journal_blocks_witness:
  "\<exists>xs w'. UpdateLedger example_tx ''l.json'' \<lparr>wd_Files = example_files, wd_Oracle = xs\<rparr> = (Crashed, w') \<and>
     fst (RecoverLedger example_tx ''l.json'' w') \<noteq> Returned ()"
proof -
  have "''[]'' \<noteq> ''{}''" by simp
  note blocks = empty_journal_blocks [OF example_start example_proposes this example_ready example_temp_free]
  show ?thesis
  proof (rule exE [OF blocks], elim exE conjE)
    fix xs w'
    assume "UpdateLedger example_tx ''l.json'' \<lparr>wd_Files = example_files, wd_Oracle = xs\<rparr> = (Crashed, w')"
    moreover assume "\<forall>w. wd_Files w (JournalPath ''l.json'') = wd_Files w' (JournalPath ''l.json'') \<longrightarrow> (\<forall>opts'.
       (case UpdateLedger opts' ''l.json'' w of (r, w'') \<Rightarrow> r \<noteq> Returned () \<and> wd_Files w'' (JournalPath ''l.json'') = wd_Files w (JournalPath ''l.json'')) \<and>
       (case RecoverLedger opts' ''l.json'' w of (r, w'') \<Rightarrow> r \<noteq> Returned () \<and> wd_Files w'' (JournalPath ''l.json'') = wd_Files w (JournalPath ''l.json'')))"
    then have "case RecoverLedger example_tx ''l.json'' w' of (r, w'') \<Rightarrow> r \<noteq> Returned () \<and>
         wd_Files w'' (JournalPath ''l.json'') = wd_Files w' (JournalPath ''l.json'')"
      by - (drule spec [of _ w'], drule mp [OF _ refl], drule spec [of _ example_tx], erule conjunct2)
    then have "fst (RecoverLedger example_tx ''l.json'' w') \<noteq> Returned ()" unfolding split_beta by (rule conjunct1)
    ultimately show ?thesis by blast
  qed
qed

end
