(* ===== verification/Document_Patching.thy ===== *)
theory Document_Patching
  imports Go_JSON
begin

text \<open>
  Edits of a JSON document that keep its layout: \<open>internal/document/patch.go\<close> and
  \<open>structural_patch.go\<close>.  An operation is turned into one byte edit computed from the source ranges
  of the parsed tree, and the result is parsed again before the next one.  Documents in YAML are left
  out: their edits work on the nodes of the YAML library.
\<close>

section \<open>Operations\<close>

datatype patch_kind = PatchAdd | PatchReplace | PatchRemove

text \<open>
  The value of an operation is an interface.  A pointer is encoded as what it points to, but it is
  not a scalar for the code, which looks at the kind of the value in the interface.
\<close>

datatype patch_value = Direct go_value | Boxed go_value

fun encoded_value :: "patch_value \<Rightarrow> go_value" where
  "encoded_value (Direct v) = v"
| "encoded_value (Boxed v) = v"

record patch_operation =
  po_Kind :: patch_kind
  po_Pointer :: string
  po_Value :: patch_value

datatype patch_error =
    ErrUnsupportedPatch string
  | NoSourceTree
  | MissingPointer string
  | EncodeFailure
  | PatchedInvalid parse_error

text \<open>The document: its bytes and its tree; the count of line ends is a function of the bytes.\<close>

record document =
  do_Raw :: string
  do_Root :: doc_value

record newline_info =
  ni_LF :: nat
  ni_CRLF :: nat
  ni_LoneCR :: nat
  ni_Mixed :: bool
  ni_FinalNewline :: bool

text \<open>The loop over the bytes, with the counts of the ends of lines so far.\<close>

fun count_newlines :: "nat \<Rightarrow> nat \<Rightarrow> nat \<Rightarrow> string \<Rightarrow> nat \<times> nat \<times> nat" where
  "count_newlines lf crlf cr [] = (lf, crlf, cr)"
| "count_newlines lf crlf cr (c # s) =
     (if c = CHR 0x0D
      then (case s of
              d # t \<Rightarrow> if d = CHR 0x0A then count_newlines lf (Suc crlf) cr t else count_newlines lf crlf (Suc cr) s
            | [] \<Rightarrow> (lf, crlf, Suc cr))
      else count_newlines (if c = CHR 0x0A then Suc lf else lf) crlf cr s)"

definition newlineInfo :: "string \<Rightarrow> newline_info" where
  "newlineInfo raw =
     (case count_newlines 0 0 0 raw of (lf, crlf, cr) \<Rightarrow>
        \<lparr>ni_LF = lf, ni_CRLF = crlf, ni_LoneCR = cr,
         ni_Mixed = 1 < length (filter (\<lambda>n. 0 < n) [lf, crlf, cr]),
         ni_FinalNewline = raw \<noteq> [] \<and> List.last raw \<in> {CHR 0x0A, CHR 0x0D}\<rparr>)"

definition preferredNewline :: "newline_info \<Rightarrow> string" where
  "preferredNewline info = (if ni_LF info < ni_CRLF info then [CHR 0x0D, CHR 0x0A] else [CHR 0x0A])"

section \<open>Pointers\<close>

fun split_slash :: "string \<Rightarrow> string list" where
  "split_slash [] = [[]]"
| "split_slash (c # s) =
     (if c = CHR ''/'' then [] # split_slash s
      else case split_slash s of [] \<Rightarrow> [[c]] | t # ts \<Rightarrow> (c # t) # ts)"

text \<open>\<open>strings.ReplaceAll\<close> of two bytes by one.\<close>

fun replace_pair :: "char \<Rightarrow> char \<Rightarrow> char \<Rightarrow> string \<Rightarrow> string" where
  "replace_pair a b c (x # y # s) = (if x = a \<and> y = b then c # replace_pair a b c s else x # replace_pair a b c (y # s))"
| "replace_pair a b c s = s"

definition invalid_pointer :: string where
  "invalid_pointer = CHR 0x00 # ''invalid-pointer''"

definition pointerTokens :: "string \<Rightarrow> string list" where
  "pointerTokens pointer =
     (if pointer = [] then []
      else if hd pointer \<noteq> CHR ''/'' then [invalid_pointer]
      else map (\<lambda>t. replace_pair CHR ''~'' CHR ''0'' CHR ''~'' (replace_pair CHR ''~'' CHR ''1'' CHR ''/'' t))
             (split_slash (tl pointer)))"

definition splitPatchPointer :: "string \<Rightarrow> patch_error + string \<times> string" where
  "splitPatchPointer pointer =
     (let tokens = pointerTokens pointer in
      if tokens = [] \<or> hd tokens = invalid_pointer then Inl (ErrUnsupportedPatch ''invalid patch pointer'')
      else Inr (rev (tl (dropWhile (\<lambda>c. c \<noteq> CHR ''/'') (rev pointer))), List.last tokens))"

text \<open>\<open>strconv.Atoi\<close> of a 64-bit machine.\<close>

definition Atoi :: "string \<Rightarrow> int option" where
  "Atoi s =
     (let (negative, d) = (case s of c # t \<Rightarrow> if c = CHR ''-'' then (True, t) else if c = CHR ''+'' then (False, t) else (False, s)
                                   | [] \<Rightarrow> (False, s));
          n = int (digits_value d)
      in if d = [] \<or> \<not> list_all is_digit d then None
         else if negative then (if n \<le> 2 ^ 63 then Some (- n) else None)
         else if n < 2 ^ 63 then Some n else None)"

fun lookup_tokens :: "string \<Rightarrow> string list \<Rightarrow> doc_value \<Rightarrow> patch_error + doc_value" where
  "lookup_tokens pointer [] v = Inr v"
| "lookup_tokens pointer (t # ts) (ValueObject r ms) =
     (case map_of ms t of None \<Rightarrow> Inl (MissingPointer pointer) | Some v \<Rightarrow> lookup_tokens pointer ts v)"
| "lookup_tokens pointer (t # ts) (ValueArray r vs) =
     (case Atoi t of
        None \<Rightarrow> Inl (MissingPointer pointer)
      | Some i \<Rightarrow> if i < 0 \<or> int (length vs) \<le> i then Inl (MissingPointer pointer) else lookup_tokens pointer ts (vs ! nat i))"
| "lookup_tokens pointer (t # ts) v = Inl (MissingPointer pointer)"

definition lookupValue :: "doc_value \<Rightarrow> string \<Rightarrow> patch_error + doc_value" where
  "lookupValue root_value pointer = lookup_tokens pointer (pointerTokens pointer) root_value"

definition patchArrayIndex :: "string \<Rightarrow> nat \<Rightarrow> patch_error + nat" where
  "patchArrayIndex token len =
     (case Atoi token of
        None \<Rightarrow> Inl (MissingPointer token)
      | Some i \<Rightarrow> if i < 0 \<or> int len \<le> i then Inl (MissingPointer token) else Inr (nat i))"

section \<open>Source ranges\<close>

fun range_of :: "doc_value \<Rightarrow> source_range" where
  "range_of (ValueNull r) = r"
| "range_of (ValueBool r _) = r"
| "range_of (ValueInt r _) = r"
| "range_of (ValueString r _) = r"
| "range_of (ValueArray r _) = r"
| "range_of (ValueObject r _) = r"

abbreviation start_of :: "doc_value \<Rightarrow> nat" where "start_of v \<equiv> fst (range_of v)"
abbreviation end_of :: "doc_value \<Rightarrow> nat" where "end_of v \<equiv> snd (range_of v)"

definition slice :: "string \<Rightarrow> nat \<Rightarrow> nat \<Rightarrow> string" where
  "slice raw i j = take (j - i) (drop i raw)"

text \<open>
  The start of a key, \<open>KeySource.Start\<close>: the parser skips space and delimiters from the end of
  the token before.  That is the opening brace or the value of the member before.
\<close>

definition tokenStart :: "string \<Rightarrow> nat \<Rightarrow> nat" where
  "tokenStart raw offset = offset + length (takeWhile (\<lambda>c. is_space c \<or> c = CHR '','' \<or> c = CHR '':'') (drop offset raw))"

definition key_start :: "string \<Rightarrow> doc_value \<Rightarrow> (string \<times> doc_value) list \<Rightarrow> nat \<Rightarrow> nat" where
  "key_start raw parent ms i = tokenStart raw (if i = 0 then Suc (start_of parent) else end_of (snd (ms ! (i - 1))))"

definition is_newline :: "char \<Rightarrow> bool" where
  "is_newline c \<longleftrightarrow> c = CHR 0x0A \<or> c = CHR 0x0D"

definition is_blank :: "char \<Rightarrow> bool" where
  "is_blank c \<longleftrightarrow> c = CHR '' '' \<or> c = CHR 0x09"

primrec sourceLineStart :: "string \<Rightarrow> nat \<Rightarrow> nat" where
  "sourceLineStart raw 0 = 0"
| "sourceLineStart raw (Suc n) = (if is_newline (raw ! n) then Suc n else sourceLineStart raw n)"

definition onlyHorizontalSpace :: "string \<Rightarrow> bool" where
  "onlyHorizontalSpace s \<longleftrightarrow> list_all is_blank s"

definition jsonLineIndent :: "string \<Rightarrow> nat \<Rightarrow> string" where
  "jsonLineIndent raw offset = takeWhile is_blank (drop (sourceLineStart raw offset) raw)"

section \<open>Scalars\<close>

fun is_collection :: "doc_value \<Rightarrow> bool" where
  "is_collection (ValueArray _ _) \<longleftrightarrow> True"
| "is_collection (ValueObject _ _) \<longleftrightarrow> True"
| "is_collection v \<longleftrightarrow> False"

fun scalarReplacementValue :: "patch_value \<Rightarrow> go_value option" where
  "scalarReplacementValue (Direct GoNull) = Some GoNull"
| "scalarReplacementValue (Direct (GoBool b)) = Some (GoBool b)"
| "scalarReplacementValue (Direct (GoInt i)) = Some (GoInt i)"
| "scalarReplacementValue (Direct (GoUint n)) = Some (GoUint n)"
| "scalarReplacementValue (Direct (GoString s)) = Some (GoString s)"
| "scalarReplacementValue v = None"

definition isScalarReplacement :: "patch_value \<Rightarrow> bool" where
  "isScalarReplacement v \<longleftrightarrow> scalarReplacementValue v \<noteq> None"

record byte_edit =
  be_start :: nat
  be_end :: nat
  be_replacement :: string

definition apply_edit :: "string \<Rightarrow> byte_edit \<Rightarrow> string" where
  "apply_edit raw e = take (be_start e) raw @ be_replacement e @ drop (be_end e) raw"

definition parsePatchedBytes :: "string \<Rightarrow> patch_error + document" where
  "parsePatchedBytes raw =
     (case ParseJSON (Inr raw) DefaultLimits of
        Inl e \<Rightarrow> Inl (PatchedInvalid e)
      | Inr root_value \<Rightarrow> Inr \<lparr>do_Raw = raw, do_Root = root_value\<rparr>)"

definition scalar_edit :: "document \<Rightarrow> string \<times> patch_value \<Rightarrow> patch_error + byte_edit" where
  "scalar_edit doc edit =
     (case edit of (pointer, value) \<Rightarrow>
      bindR (lookupValue (do_Root doc) pointer) (\<lambda>node.
      if is_collection node then Inl (ErrUnsupportedPatch ''not a scalar'')
      else
        (case Marshal (encoded_value value) of
           Inl e \<Rightarrow> Inl EncodeFailure
         | Inr replacement \<Rightarrow>
             if \<not> isScalarReplacement value then Inl (ErrUnsupportedPatch ''replacement is not a scalar'')
             else Inr \<lparr>be_start = start_of node, be_end = end_of node, be_replacement = replacement\<rparr>)))"

fun scalar_edits :: "document \<Rightarrow> string set \<Rightarrow> (string \<times> patch_value) list \<Rightarrow> patch_error + byte_edit list" where
  "scalar_edits doc seen [] = Inr []"
| "scalar_edits doc seen (edit # edits) =
     (if fst edit \<in> seen then Inl (ErrUnsupportedPatch ''pointer is edited more than once'')
      else bindR (scalar_edit doc edit) (\<lambda>e.
           bindR (scalar_edits doc (insert (fst edit) seen) edits) (\<lambda>es. Inr (e # es))))"

text \<open>The edits from the last to the first.\<close>

fun apply_edits :: "string \<Rightarrow> nat \<Rightarrow> byte_edit list \<Rightarrow> patch_error + string" where
  "apply_edits output previousStart [] = Inr output"
| "apply_edits output previousStart (e # es) =
     (if be_end e < be_start e \<or> length output < be_end e \<or> previousStart < be_end e
      then Inl (ErrUnsupportedPatch ''source ranges overlap or are invalid'')
      else apply_edits (apply_edit output e) (be_start e) es)"

definition ReplaceScalars :: "document \<Rightarrow> (string \<times> patch_value) list \<Rightarrow> patch_error + string" where
  "ReplaceScalars doc edits =
     bindR (scalar_edits doc {} edits) (\<lambda>patches.
     bindR (apply_edits (do_Raw doc) (length (do_Raw doc)) (rev (sort_key be_start patches))) (\<lambda>output.
     bindR (parsePatchedBytes output) (\<lambda>_. Inr output)))"

section \<open>Structural edits\<close>

text \<open>\<open>json.MarshalIndent\<close> with two spaces.\<close>

definition line_indent :: "nat \<Rightarrow> string" where
  "line_indent depth = CHR 0x0A # replicate (2 * depth) CHR '' ''"

fun marshal_indent :: "nat \<Rightarrow> go_value \<Rightarrow> string" where
  "marshal_indent depth (GoArray vs) =
     (if vs = [] then ''[]''
      else CHR ''['' # comma_join (map (\<lambda>v. line_indent (Suc depth) @ marshal_indent (Suc depth) v) vs) @ line_indent depth @ '']'')"
| "marshal_indent depth (GoObject ms) =
     (if ms = [] then ''{}''
      else CHR ''{'' # comma_join (map (\<lambda>(k, v). line_indent (Suc depth) @ go_quote k @ '': '' @ marshal_indent (Suc depth) v) ms) @
             line_indent depth @ ''}'')"
| "marshal_indent depth v = encq go_quote v"

definition renderJSONFragment :: "patch_value \<Rightarrow> bool \<Rightarrow> string \<Rightarrow> string \<Rightarrow> patch_error + string" where
  "renderJSONFragment value multiline indent newline =
     (let v = encoded_value value in
      if \<not> multiline \<or> isScalarReplacement value then (case json_Marshal v of None \<Rightarrow> Inl EncodeFailure | Some s \<Rightarrow> Inr s)
      else if marshals v then Inr (replace_byte (CHR 0x0A) (newline @ indent) (marshal_indent 0 v))
      else Inl EncodeFailure)"

definition first_start :: "string \<Rightarrow> doc_value \<Rightarrow> nat option" where
  "first_start raw parent =
     (case parent of
        ValueObject r (m # ms) \<Rightarrow> Some (key_start raw parent (m # ms) 0)
      | ValueArray r (v # vs) \<Rightarrow> Some (start_of v)
      | _ \<Rightarrow> None)"

text \<open>Where something is added to a collection: on a line of its own when the closing bracket stands on one.\<close>

definition jsonCollectionInsertion :: "string \<Rightarrow> doc_value \<Rightarrow> nat \<Rightarrow> bool \<times> nat \<times> string" where
  "jsonCollectionInsertion raw parent closeOffset =
     (let lineStart = sourceLineStart raw closeOffset in
      if start_of parent < lineStart \<and> onlyHorizontalSpace (slice raw lineStart closeOffset)
      then (True, lineStart,
            case first_start raw parent of
              None \<Rightarrow> slice raw lineStart closeOffset @ ''  ''
            | Some first \<Rightarrow> slice raw (sourceLineStart raw first) first)
      else (False, closeOffset, []))"

text \<open>The text between what is there, or the opening bracket, and what is added.\<close>

definition item_separator :: "bool \<Rightarrow> bool \<Rightarrow> string \<Rightarrow> string \<Rightarrow> string" where
  "item_separator first multiline newline indent =
     (if first then (if multiline then indent else [])
      else if multiline then CHR '','' # newline @ indent
      else '', '')"

definition jsonAdd :: "document \<Rightarrow> doc_value \<Rightarrow> string \<Rightarrow> patch_value \<Rightarrow> patch_error + byte_edit" where
  "jsonAdd doc parent token value =
     (let newline = preferredNewline (newlineInfo (do_Raw doc)) in
      case parent of
        ValueObject r ms \<Rightarrow>
          if token \<in> fst ` set ms then Inl (ErrUnsupportedPatch ''source pointer already exists'')
          else
            (case Marshal (GoString token) of
               Inl e \<Rightarrow> Inl EncodeFailure
             | Inr key \<Rightarrow>
                 (case jsonCollectionInsertion (do_Raw doc) parent (end_of parent - 1) of (multiline, offset, indent) \<Rightarrow>
                  bindR (renderJSONFragment value multiline indent newline) (\<lambda>encoded.
                  Inr \<lparr>be_start = (if multiline \<and> ms \<noteq> [] then end_of (snd (List.last ms)) else offset), be_end = offset,
                       be_replacement = item_separator (ms = []) multiline newline indent @ key @ '': '' @ encoded @
                         (if multiline then newline else [])\<rparr>)))
      | ValueArray r vs \<Rightarrow>
          if token \<noteq> ''-'' then Inl (ErrUnsupportedPatch ''JSON array additions must use /-'')
          else
            (case jsonCollectionInsertion (do_Raw doc) parent (end_of parent - 1) of (multiline, offset, indent) \<Rightarrow>
             bindR (renderJSONFragment value multiline indent newline) (\<lambda>encoded.
             Inr \<lparr>be_start = (if multiline \<and> vs \<noteq> [] then end_of (List.last vs) else offset), be_end = offset,
                  be_replacement = item_separator (vs = []) multiline newline indent @ encoded @
                    (if multiline then newline else [])\<rparr>))
      | _ \<Rightarrow> Inl (ErrUnsupportedPatch ''patch parent is not a collection''))"

definition jsonRemove :: "document \<Rightarrow> doc_value \<Rightarrow> string \<Rightarrow> patch_error + byte_edit" where
  "jsonRemove doc parent token =
     (case parent of
        ValueObject r ms \<Rightarrow>
          (case find_index (\<lambda>m. fst m = token) ms of
             None \<Rightarrow> Inl (MissingPointer token)
           | Some index \<Rightarrow>
               let begin = key_start (do_Raw doc) parent ms index; stop = end_of (snd (ms ! index)) in
               if length ms = 1 then Inr \<lparr>be_start = begin, be_end = stop, be_replacement = []\<rparr>
               else if index < length ms - 1
               then Inr \<lparr>be_start = begin, be_end = key_start (do_Raw doc) parent ms (Suc index), be_replacement = []\<rparr>
               else Inr \<lparr>be_start = end_of (snd (ms ! (index - 1))), be_end = stop, be_replacement = []\<rparr>)
      | ValueArray r vs \<Rightarrow>
          bindR (patchArrayIndex token (length vs)) (\<lambda>index.
            let begin = start_of (vs ! index); stop = end_of (vs ! index) in
            if length vs = 1 then Inr \<lparr>be_start = begin, be_end = stop, be_replacement = []\<rparr>
            else if index < length vs - 1 then Inr \<lparr>be_start = begin, be_end = start_of (vs ! Suc index), be_replacement = []\<rparr>
            else Inr \<lparr>be_start = end_of (vs ! (index - 1)), be_end = stop, be_replacement = []\<rparr>)
      | _ \<Rightarrow> Inl (ErrUnsupportedPatch ''patch parent is not a collection''))"

definition jsonStructuralEdit :: "document \<Rightarrow> patch_operation \<Rightarrow> patch_error + byte_edit" where
  "jsonStructuralEdit doc operation =
     (if po_Kind operation = PatchReplace
      then
        bindR (lookupValue (do_Root doc) (po_Pointer operation)) (\<lambda>node.
        let raw = do_Raw doc; begin = start_of node; stop = end_of node;
            multiline = list_ex is_newline (slice raw begin stop) in
        bindR (renderJSONFragment (po_Value operation) multiline (jsonLineIndent raw begin)
                 (preferredNewline (newlineInfo raw))) (\<lambda>replacement.
        Inr \<lparr>be_start = begin, be_end = stop, be_replacement = replacement\<rparr>))
      else
        bindR (splitPatchPointer (po_Pointer operation)) (\<lambda>(parentPointer, token).
        bindR (lookupValue (do_Root doc) parentPointer) (\<lambda>parent.
        if po_Kind operation = PatchAdd then jsonAdd doc parent token (po_Value operation)
        else jsonRemove doc parent token)))"

definition replaces_scalar :: "document \<Rightarrow> patch_operation \<Rightarrow> go_value option" where
  "replaces_scalar doc operation =
     (case lookupValue (do_Root doc) (po_Pointer operation) of
        Inl e \<Rightarrow> None
      | Inr node \<Rightarrow>
          if po_Kind operation = PatchReplace \<and> \<not> is_collection node then scalarReplacementValue (po_Value operation) else None)"

definition applyOnePatch :: "document \<Rightarrow> patch_operation \<Rightarrow> patch_error + string" where
  "applyOnePatch doc operation =
     (if po_Pointer operation = [] then Inl (ErrUnsupportedPatch ''root replacement is not supported'')
      else
        (case replaces_scalar doc operation of
           Some scalar \<Rightarrow> ReplaceScalars doc [(po_Pointer operation, Direct scalar)]
         | None \<Rightarrow>
             bindR (jsonStructuralEdit doc operation) (\<lambda>edit.
             if be_end edit < be_start edit \<or> length (do_Raw doc) < be_end edit
             then Inl (ErrUnsupportedPatch ''patch source range is invalid'')
             else Inr (apply_edit (do_Raw doc) edit))))"

fun ApplyPatch :: "document \<Rightarrow> patch_operation list \<Rightarrow> patch_error + string" where
  "ApplyPatch doc [] = Inr (do_Raw doc)"
| "ApplyPatch doc (operation # operations) =
     bindR (applyOnePatch doc operation) (\<lambda>patched.
     bindR (parsePatchedBytes patched) (\<lambda>current. ApplyPatch current operations))"

end
