(* ===== verification/Ledger_Mutations.thy ===== *)
theory Ledger_Mutations
  imports Ledger_Decoding Semantic_Validation Sealed_Forecasts Forecast_Targets Document_Patching App_Errors
begin

text \<open>
  The operations that author a ledger, \<open>internal/service\<close>: \<open>builders.go\<close>, \<open>question_builder.go\<close>,
  \<open>question.go\<close>, \<open>forecast.go\<close>, \<open>sealed_forecast.go\<close>, \<open>sealed_builder.go\<close>, \<open>collections.go\<close> and
  the validation of \<open>ledger_validation.go\<close>.  Each takes a ledger and returns the prospective
  ledger with the patches of its document, or an error.  Copies through pointers are values here;
  a nil slice behind a pointer is the empty list and its \<open>null\<close> in the encoding is kept.
  The embedded JSON schema, the time zones, the reading of reveals and the cipher are parameters.
\<close>

section \<open>Errors, inputs and patches\<close>

datatype service_error =
    Refused error_code string
  | InvalidField string string

fun errorCodeOf :: "service_error \<Rightarrow> error_code" where
  "errorCodeOf (Refused c _) = c"
| "errorCodeOf (InvalidField _ _) = CodeInvalidData"

record 'a optional =
  ol_Set :: bool
  ol_Null :: bool
  ol_Value :: 'a

record service_env =
  se_Semantics :: env
  se_Schema :: "go_value \<Rightarrow> string + string list"
  se_AEAD :: aead

record mutation =
  mu_Ledger :: ledger
  mu_Patches :: "patch_operation list"

record question_mutation = mutation +
  mu_PriorStatus :: string

record revision_input =
  ri_ID :: slug
  ri_EffectiveAt :: timestamp
  ri_RecordedAt :: "timestamp option"
  ri_Title :: string
  ri_ResolutionCriteria :: string
  ri_ForecastingOpensAt :: "timestamp option"
  ri_ExpectedResolutionAt :: timestamp
  ri_OutcomeSpace :: outcome_space
  ri_Domain :: domain
  ri_Provenance :: "provenance option"

text \<open>The private part, the times and the links that all forecast inputs share.\<close>

record forecast_input =
  fn_ForecastedAt :: timestamp
  fn_RecordedAt :: "timestamp option"
  fn_Representations :: "forecast_representation list"
  fn_Rationale :: "string option"
  fn_KeyFactors :: "string list option"
  fn_Comment :: "string option"
  fn_PublicNote :: "string option"
  fn_Provenance :: "provenance option"
  fn_SupersedesForecastID :: "slug option"

record forecast_create_input = forecast_input +
  fn_QuestionRevisionID :: slug

record initial_forecast_input = forecast_input +
  fn_Visibility :: string
  fn_ID :: slug

record question_add_input =
  qi_CreatedAt :: "timestamp option"
  qi_Revision :: revision_input
  qi_Tags :: "slug list option"
  qi_Notes :: "string option"
  qi_InitialForecast :: "initial_forecast_input option"

record normalized_question_create =
  nq_ID :: slug
  nq_Input :: question_add_input

record question_patch_input =
  qi_PatchTags :: "slug list optional"
  qi_PatchNotes :: "string optional"
  qi_PatchStatus :: "string optional"

record evidence_source_input =
  ei_Title :: string
  ei_URL :: string
  ei_RetrievedAt :: timestamp
  ei_Publisher :: "string option"
  ei_PublishedAt :: "timestamp option"
  ei_ContentDigest :: "digest option"

record resolution_input =
  ro_QuestionRevisionID :: slug
  ro_Outcome :: scalar_value
  ro_OutcomeKnownAt :: timestamp
  ro_RecordedAt :: "timestamp option"
  ro_Sources :: "evidence_source_input list"
  ro_Notes :: "string option"

record unresolved_resolution_input =
  uo_Reason :: string
  uo_RecordedAt :: "timestamp option"
  uo_Sources :: "evidence_source_input list"

record not_applicable_input =
  no_RelationshipID :: slug
  no_Reason :: string
  no_RecordedAt :: "timestamp option"

record group_create_input =
  gi_Title :: string
  gi_Description :: "string option"

record group_patch_input =
  gi_PatchTitle :: "string optional"
  gi_PatchDescription :: "string optional"

record lifecycle_input =
  li_ID :: slug
  li_EffectiveAt :: timestamp
  li_RecordedAt :: "timestamp option"
  li_Reason :: "string option"
  li_Provenance :: "provenance option"

section \<open>Checks on fields\<close>

definition slugPattern :: regexp where
  "slugPattern =
     (let c = Class [(CHR ''a'', CHR ''z''), (CHR ''0'', CHR ''9'')];
          separator = Class [(CHR ''.'', CHR ''.''), (CHR ''_'', CHR ''_''), (CHR ''-'', CHR ''-'')]
      in Seq (Plus c) (Star (Seq separator (Plus c))))"

definition ValidateSlug :: "slug \<Rightarrow> string \<Rightarrow> service_error + unit" where
  "ValidateSlug value name =
     (if length value < 1 \<or> length value > 128 \<or> \<not> matches slugPattern value
      then Inl (InvalidField name
        ''ID must use lowercase letters, digits, dots, underscores, or hyphens without empty segments'')
      else Inr ())"

definition service_ParseTimestamp :: "timestamp \<Rightarrow> string \<Rightarrow> service_error + instant" where
  "service_ParseTimestamp value name =
     (if \<not> matches timestampPattern value
      then Inl (InvalidField name ''timestamp must be RFC 3339 with seconds and an explicit offset'')
      else
        (case time_Parse_RFC3339Nano value of
           Inl _ \<Rightarrow> Inl (InvalidField name ''timestamp is not a valid calendar time'')
         | Inr t \<Rightarrow> Inr t))"

definition ValidateChronology :: "timestamp \<Rightarrow> string \<Rightarrow> timestamp \<Rightarrow> string \<Rightarrow> bool \<Rightarrow> service_error + unit" where
  "ValidateChronology earlier earlierField later laterField allowEqual =
     bindR (service_ParseTimestamp earlier earlierField) (\<lambda>left.
     bindR (service_ParseTimestamp later laterField) (\<lambda>right.
       if left > right \<or> \<not> allowEqual \<and> left = right
       then Inl (InvalidField laterField
         (laterField @ (if allowEqual then '' must not be before '' else '' must be after '') @ earlierField))
       else Inr ()))"

text \<open>\<open>strings.TrimSpace\<close> leaves nothing: every character is a space of Unicode.\<close>

fun blank :: "string \<Rightarrow> bool" where
  "blank [] \<longleftrightarrow> True"
| "blank (a # s) \<longleftrightarrow>
     (if byte a \<in> {9, 10, 11, 12, 13, 32} then blank s
      else if byte a = 194 \<and> map byte (take 1 s) \<in> {[133], [160]} then blank (drop 1 s)
      else if byte a = 225 \<and> map byte (take 2 s) = [154, 128] then blank (drop 2 s)
      else if byte a = 226 \<and> length s \<ge> 2 \<and>
           (byte (s ! 0) = 128 \<and> (128 \<le> byte (s ! 1) \<and> byte (s ! 1) \<le> 138 \<or> byte (s ! 1) \<in> {168, 169, 175}) \<or>
            byte (s ! 0) = 129 \<and> byte (s ! 1) = 159)
      then blank (drop 2 s)
      else byte a = 227 \<and> map byte (take 2 s) = [128, 128] \<and> blank (drop 2 s))"

definition validateOptionalKeyFactors :: "string list option \<Rightarrow> service_error + unit" where
  "validateOptionalKeyFactors value =
     (case value of
        None \<Rightarrow> Inr ()
      | Some factors \<Rightarrow>
          if list_ex blank factors
          then Inl (InvalidField ''key_factors'' ''key factors must not contain an empty item'')
          else Inr ())"

definition validateForecastChronology :: "question_revision \<Rightarrow> timestamp \<Rightarrow> timestamp \<Rightarrow> service_error + unit" where
  "validateForecastChronology revision forecastedAt recordedAt =
     bindR (ValidateChronology forecastedAt ''forecasted_at'' recordedAt ''recorded_at'' True) (\<lambda>_.
       case qr_ForecastingOpensAt revision of
         None \<Rightarrow> Inr ()
       | Some opens \<Rightarrow> ValidateChronology opens ''forecasting_opens_at'' forecastedAt ''forecasted_at'' True)"

definition DefaultForecastTimes :: "timestamp \<Rightarrow> timestamp option \<Rightarrow> timestamp \<Rightarrow> timestamp \<times> timestamp" where
  "DefaultForecastTimes forecastedAt explicitRecordedAt observedAt =
     (if forecastedAt = [] then observedAt else forecastedAt,
      case explicitRecordedAt of None \<Rightarrow> observedAt | Some t \<Rightarrow> t)"

section \<open>Prospective validation\<close>

abbreviation "LedgerSchemaVersion \<equiv> ''2.2.0''"

definition unsupportedSchemaVersionError :: service_error where
  "unsupportedSchemaVersionError =
     Refused CodeUnsupportedSchemaVersion ''ledger schema version is not supported; only 2.2.0 is accepted''"

definition RequireSupportedSchemaVersion :: "go_value \<Rightarrow> service_error + unit" where
  "RequireSupportedSchemaVersion value =
     (case value of
        GoObject members \<Rightarrow>
          (case map_of members ''schema_version'' of
             Some (GoString version) \<Rightarrow> if version \<noteq> LedgerSchemaVersion then Inl unsupportedSchemaVersionError else Inr ()
           | _ \<Rightarrow> Inl unsupportedSchemaVersionError)
      | _ \<Rightarrow> Inl unsupportedSchemaVersionError)"

text \<open>The maps of \<open>Any\<close> are encoded with their keys in byte order.\<close>

fun sort_maps :: "go_value \<Rightarrow> go_value" where
  "sort_maps (GoArray vs) = GoArray (map sort_maps vs)"
| "sort_maps (GoObject ms) = GoObject (sort_key fst (map (\<lambda>(k, v). (k, sort_maps v)) ms))"
| "sort_maps v = v"

definition DecodeLedger :: "doc_value option \<Rightarrow> string + ledger" where
  "DecodeLedger source =
     (case source of
        None \<Rightarrow> Inl ''document has no root value''
      | Some value \<Rightarrow>
          (case json_Marshal (sort_maps (Any value)) of
             None \<Rightarrow> Inl ''encode parsed ledger''
           | Some encoded \<Rightarrow>
               (case Option.bind (json_Unmarshal encoded) (decode_Ledger zero_Ledger) of
                  None \<Rightarrow> Inl ''decode typed ledger''
                | Some result \<Rightarrow> Inr result)))"

definition ValidateLedgerDocument :: "service_env \<Rightarrow> doc_value \<Rightarrow> (string \<Rightarrow> string option) option \<Rightarrow> service_error + unit" where
  "ValidateLedgerDocument env parsed artifacts =
     bindR (RequireSupportedSchemaVersion (Any parsed)) (\<lambda>_.
       case se_Schema env (Any parsed) of
         Inl e \<Rightarrow> Inl (Refused CodeInternal (''run ledger schema validation: '' @ e))
       | Inr (issue # issues) \<Rightarrow> Inl (Refused CodeInvalidData ''ledger does not match Forecast Ledger v2'')
       | Inr [] \<Rightarrow>
           (case DecodeLedger (Some parsed) of
              Inl e \<Rightarrow> Inl (Refused CodeInternal (''decode schema-valid ledger: '' @ e))
            | Inr model \<Rightarrow>
                (case ValidateSemantics ((se_Semantics env)\<lparr>ev_Artifacts := artifacts\<rparr>) (Some model) of
                   Inl e \<Rightarrow> Inl (Refused CodeInternal (''run ledger semantic validation: '' @ e))
                 | Inr [] \<Rightarrow> Inr ()
                 | Inr (issue # issues) \<Rightarrow> Inl (Refused CodeInvalidData ''ledger has semantic validation errors''))))"

text \<open>The encoding of a model in which some pointers hold nil slices.\<close>

fun put_null :: "string list \<Rightarrow> go_value \<Rightarrow> go_value" where
  "put_null [] v = GoNull"
| "put_null (k # ks) (GoObject ms) = GoObject (map (\<lambda>(k', v). (k', if k' = k then put_null ks v else v)) ms)"
| "put_null (k # ks) (GoArray vs) = GoArray (map (\<lambda>i. if nat_string i = k then put_null ks (vs ! i) else vs ! i) [0..<length vs])"
| "put_null (k # ks) v = v"

definition ValidateProspectiveLedgerModel :: "service_env \<Rightarrow> string list list \<Rightarrow> ledger \<Rightarrow> service_error + unit" where
  "ValidateProspectiveLedgerModel env nils model =
     (case json_Marshal (fold put_null nils (json_Ledger model)) of
        None \<Rightarrow> Inl (Refused CodeInternal ''prospective ledger cannot be encoded'')
      | Some encoded \<Rightarrow>
          (case ParseJSON (Inr encoded) DefaultLimits of
             Inl _ \<Rightarrow> Inl (Refused CodeInvalidData ''prospective ledger cannot be parsed'')
           | Inr parsed \<Rightarrow>
               (case ValidateLedgerDocument env parsed None of
                  Inl _ \<Rightarrow> Inl (Refused CodeInvalidData ''prospective ledger is not valid'')
                | Inr _ \<Rightarrow> Inr ())))"

definition cloneLedger :: "ledger option \<Rightarrow> service_error + ledger" where
  "cloneLedger model =
     (case json_Marshal (case model of None \<Rightarrow> GoNull | Some m \<Rightarrow> json_Ledger m) of
        None \<Rightarrow> Inl (Refused CodeInternal ''ledger cannot be copied'')
      | Some encoded \<Rightarrow>
          (case Option.bind (json_Unmarshal encoded) (decode_Ledger zero_Ledger) of
             None \<Rightarrow> Inl (Refused CodeInternal ''ledger copy cannot be decoded'')
           | Some result \<Rightarrow> Inr result))"

definition jsonPatchValue :: "go_value \<Rightarrow> service_error + go_value" where
  "jsonPatchValue value =
     (case json_Marshal value of
        None \<Rightarrow> Inl (Refused CodeInternal ''metadata patch value cannot be encoded'')
      | Some encoded \<Rightarrow>
          (case ParseJSON (Inr encoded) DefaultLimits of
             Inl _ \<Rightarrow> Inl (Refused CodeInternal ''metadata patch value cannot be normalized'')
           | Inr parsed \<Rightarrow> Inr (Any parsed)))"

definition patch :: "patch_kind \<Rightarrow> string \<Rightarrow> go_value \<Rightarrow> patch_operation" where
  "patch kind pointer value = \<lparr>po_Kind = kind, po_Pointer = pointer, po_Value = Direct value\<rparr>"

text \<open>\<open>value, _ := jsonPatchValue(...)\<close>: an error leaves nil.\<close>

definition patch_value_or_nil :: "go_value \<Rightarrow> go_value" where
  "patch_value_or_nil v = (case jsonPatchValue v of Inl _ \<Rightarrow> GoNull | Inr w \<Rightarrow> w)"

definition replacePatch :: "string \<Rightarrow> go_value \<Rightarrow> patch_operation" where
  "replacePatch pointer value = patch PatchReplace pointer value"

text \<open>
  The value is an interface: \<open>None\<close> is the nil interface.  A caller that passes a nil pointer
  passes an interface that is not nil and is encoded as \<open>null\<close>.
\<close>

definition optionalFieldPatch :: "string \<Rightarrow> bool \<Rightarrow> patch_value option \<Rightarrow> patch_operation" where
  "optionalFieldPatch pointer existed value =
     (case value of
        None \<Rightarrow> patch PatchRemove pointer GoNull
      | Some v \<Rightarrow> \<lparr>po_Kind = if existed then PatchReplace else PatchAdd, po_Pointer = pointer, po_Value = v\<rparr>)"

definition pointer_interface :: "('a \<Rightarrow> go_value) \<Rightarrow> 'a option \<Rightarrow> patch_value option" where
  "pointer_interface f p = Some (Boxed (case p of None \<Rightarrow> GoNull | Some x \<Rightarrow> f x))"

definition questionForecastAppendPointer :: "nat \<Rightarrow> string" where
  "questionForecastAppendPointer position = ''/questions/'' @ nat_string position @ ''/forecasts/-''"

section \<open>Selection\<close>

definition selectQuestion :: "ledger option \<Rightarrow> slug \<Rightarrow> service_error + nat \<times> question" where
  "selectQuestion model i =
     (case model of
        None \<Rightarrow> Inl (Refused CodeInternal ''ledger is nil'')
      | Some m \<Rightarrow>
          (case BuildIndex (Some m) of
             Inl _ \<Rightarrow> Inl (Refused CodeInvalidData ''ledger indexes are invalid'')
           | Inr ix \<Rightarrow>
               (case Index_Question ix i of
                  None \<Rightarrow> Inl (Refused CodeNotFound ''question was not found'')
                | Some position \<Rightarrow> Inr (position, lg_Questions m ! position))))"

definition selectForecast :: "ledger option \<Rightarrow> slug \<Rightarrow> slug \<Rightarrow> service_error + nat \<times> question \<times> nat \<times> forecast" where
  "selectForecast model questionID forecastID =
     bindR (selectQuestion model questionID) (\<lambda>(questionPosition, question).
       case find_index (\<lambda>f. fo_ID f = forecastID) (qu_Forecasts question) of
         None \<Rightarrow> Inl (Refused CodeNotFound ''forecast was not found in the selected question'')
       | Some i \<Rightarrow> Inr (questionPosition, question, i, qu_Forecasts question ! i))"

text \<open>Changes of one question and of one forecast of a ledger.\<close>

definition at_question :: "nat \<Rightarrow> (question \<Rightarrow> question) \<Rightarrow> ledger \<Rightarrow> ledger" where
  "at_question i f m = m\<lparr>lg_Questions := (lg_Questions m)[i := f (lg_Questions m ! i)]\<rparr>"

definition at_forecast :: "nat \<Rightarrow> nat \<Rightarrow> (forecast \<Rightarrow> forecast) \<Rightarrow> ledger \<Rightarrow> ledger" where
  "at_forecast i j f = at_question i (\<lambda>q. q\<lparr>qu_Forecasts := (qu_Forecasts q)[j := f (qu_Forecasts q ! j)]\<rparr>)"

section \<open>Forecasts\<close>

definition prepareForecastAppend ::
  "ledger option \<Rightarrow> slug \<Rightarrow> slug \<Rightarrow> slug \<Rightarrow> timestamp \<Rightarrow> timestamp \<Rightarrow> slug option \<Rightarrow> service_error + nat \<times> question \<times> question_revision" where
  "prepareForecastAppend model questionID revisionID forecastID forecastedAt recordedAt supersedes =
     (case model of
        None \<Rightarrow> Inl (Refused CodeInternal ''ledger is nil'')
      | Some m \<Rightarrow>
     bindR (ValidateSlug questionID ''question'') (\<lambda>_.
     bindR (ValidateSlug revisionID ''question_revision_id'') (\<lambda>_.
     bindR (ValidateSlug forecastID ''forecast'') (\<lambda>_.
     case BuildIndex (Some m) of
       Inl _ \<Rightarrow> Inl (Refused CodeInvalidData ''ledger indexes are invalid'')
     | Inr ix \<Rightarrow>
     (case Index_Question ix questionID of
        None \<Rightarrow> Inl (Refused CodeNotFound ''question was not found'')
      | Some position \<Rightarrow>
     let question = lg_Questions m ! position in
     if qu_Status question \<noteq> QuestionOpen
     then Inl (Refused CodeConflict ''forecasts can be added only to an open question'')
     else
     (case find_revision revisionID (qu_Revisions question) of
        None \<Rightarrow> Inl (InvalidField ''question_revision_id'' ''revision does not belong to the selected question'')
      | Some revision \<Rightarrow>
     if Index_Forecast ix forecastID \<noteq> None then Inl (Refused CodeConflict ''forecast ID already exists'')
     else if qu_Forecasts question \<noteq> [] \<and>
        \<not> isOk (ValidateChronology (fo_RecordedAt (List.last (qu_Forecasts question))) ''previous.recorded_at'' recordedAt ''recorded_at'' True)
     then Inl (InvalidField ''recorded_at'' ''forecast records must remain ordered by recorded time'')
     else
     (case supersedes of
        None \<Rightarrow> Inr (position, question, revision)
      | Some earlier \<Rightarrow>
          (case Index_Forecast ix earlier of
             None \<Rightarrow> Inl (InvalidField ''supersedes_forecast_id'' ''supersedes must identify an earlier forecast in the same question'')
           | Some location \<Rightarrow>
               if fl_QuestionID location \<noteq> questionID
               then Inl (InvalidField ''supersedes_forecast_id'' ''supersedes must identify an earlier forecast in the same question'')
               else Inr (position, question, revision)))))))))"

definition unanchored :: integrity where
  "unanchored =
     \<lparr>in_Unanchored = Some \<lparr>ui_Status = IntegrityUnanchored, ui_Note = None\<rparr>,
      in_Retained = None, in_Pending = None, in_Verified = None, in_Failed = None\<rparr>"

definition public_forecast :: "slug \<Rightarrow> slug \<Rightarrow> timestamp \<Rightarrow> timestamp \<Rightarrow> slug option \<Rightarrow> ('b) forecast_input_scheme \<Rightarrow> forecast" where
  "public_forecast forecastID revisionID forecastedAt recordedAt supersedes input =
     \<lparr>fo_ID = forecastID, fo_QuestionRevisionID = revisionID, fo_ForecastedAt = forecastedAt, fo_RecordedAt = recordedAt,
      fo_Visibility = VisibilityPublic, fo_Representations = Some (fn_Representations input),
      fo_Rationale = fn_Rationale input, fo_KeyFactors = fn_KeyFactors input, fo_Comment = fn_Comment input,
      fo_PublicNote = fn_PublicNote input, fo_SupersedesForecastID = supersedes, fo_Provenance = fn_Provenance input,
      fo_LifecycleEvents = None, fo_ActivityCheckpoints = None, fo_Commitment = None, fo_Integrity = unanchored\<rparr>"

text \<open>The end that all appends of a forecast share: clone, append, validate, patch.\<close>

definition append_forecast :: "service_env \<Rightarrow> ledger option \<Rightarrow> nat \<Rightarrow> forecast \<Rightarrow> service_error + mutation" where
  "append_forecast env model position forecast =
     bindR (cloneLedger model) (\<lambda>prospective.
     let prospective = at_question position (\<lambda>q. q\<lparr>qu_Forecasts := qu_Forecasts q @ [forecast]\<rparr>) prospective in
     bindR (ValidateProspectiveLedgerModel env [] prospective) (\<lambda>_.
     bindR (jsonPatchValue (json_Forecast forecast)) (\<lambda>value.
     Inr \<lparr>mu_Ledger = prospective, mu_Patches = [patch PatchAdd (questionForecastAppendPointer position) value]\<rparr>)))"

definition BuildPublicForecastAppend ::
  "service_env \<Rightarrow> ledger option \<Rightarrow> slug \<Rightarrow> slug \<Rightarrow> forecast_create_input \<Rightarrow> timestamp \<Rightarrow> service_error + mutation" where
  "BuildPublicForecastAppend env model questionID forecastID input observedAt =
     (case DefaultForecastTimes (fn_ForecastedAt input) (fn_RecordedAt input) observedAt of (forecastedAt, recordedAt) \<Rightarrow>
     bindR (prepareForecastAppend model questionID (fn_QuestionRevisionID input) forecastID forecastedAt recordedAt
       (fn_SupersedesForecastID input)) (\<lambda>(position, question, revision).
     if fn_Representations input = []
     then Inl (InvalidField ''representations'' ''at least one forecast representation is required'')
     else
     bindR (validateOptionalKeyFactors (fn_KeyFactors input)) (\<lambda>_.
     bindR (validateForecastChronology revision forecastedAt recordedAt) (\<lambda>_.
     append_forecast env model position
       (public_forecast forecastID (qr_ID revision) forecastedAt recordedAt (fn_SupersedesForecastID input) input)))))"

definition privateBundle :: "('b) forecast_input_scheme \<Rightarrow> private_bundle" where
  "privateBundle input =
     \<lparr>bu_Representations = (if fn_Representations input = [] then None else Some (fn_Representations input)),
      bu_Rationale = fn_Rationale input, bu_KeyFactors = fn_KeyFactors input, bu_Comment = fn_Comment input\<rparr>"

text \<open>\<open>sealedAppendRecord\<close> and, without a superseded forecast, \<open>sealedForecastRecord\<close>.\<close>

definition sealed_record :: "slug \<Rightarrow> slug \<Rightarrow> timestamp \<Rightarrow> timestamp \<Rightarrow> slug option \<Rightarrow> ('b) forecast_input_scheme \<Rightarrow> sealed_commitment \<Rightarrow> forecast" where
  "sealed_record forecastID revisionID forecastedAt recordedAt supersedes input commitment =
     \<lparr>fo_ID = forecastID, fo_QuestionRevisionID = revisionID, fo_ForecastedAt = forecastedAt, fo_RecordedAt = recordedAt,
      fo_Visibility = VisibilitySealed, fo_Representations = None,
      fo_Rationale = None, fo_KeyFactors = None, fo_Comment = None,
      fo_PublicNote = fn_PublicNote input, fo_SupersedesForecastID = supersedes, fo_Provenance = fn_Provenance input,
      fo_LifecycleEvents = None, fo_ActivityCheckpoints = None,
      fo_Commitment = Some \<lparr>cm_Sealed = Some commitment, cm_Revealed = None\<rparr>, fo_Integrity = unanchored\<rparr>"

definition placeholderCommitment :: "slug \<Rightarrow> sealed_commitment" where
  "placeholderCommitment forecastID =
     \<lparr>sc_Scheme = SealScheme,
      sc_CommitmentHash = \<lparr>dg_Algorithm = ''sha-256'', dg_Value = replicate 64 CHR ''0''\<rparr>,
      sc_Encryption = \<lparr>en_Algorithm = EncryptionProfile, en_Nonce = replicate 16 CHR ''A'', en_Ciphertext = replicate 24 CHR ''A''\<rparr>,
      sc_KeyHint = ''forecast-key:'' @ forecastID\<rparr>"

definition prepareSealedForecastAppend ::
  "ledger option \<Rightarrow> slug \<Rightarrow> slug \<Rightarrow> forecast_create_input \<Rightarrow> timestamp \<Rightarrow>
     service_error + nat \<times> question_revision \<times> timestamp \<times> timestamp" where
  "prepareSealedForecastAppend model questionID forecastID input observedAt =
     (case DefaultForecastTimes (fn_ForecastedAt input) (fn_RecordedAt input) observedAt of (forecastedAt, recordedAt) \<Rightarrow>
     bindR (prepareForecastAppend model questionID (fn_QuestionRevisionID input) forecastID forecastedAt recordedAt
       (fn_SupersedesForecastID input)) (\<lambda>(position, question, revision).
     if fn_Representations input = []
     then Inl (InvalidField ''representations'' ''at least one forecast representation is required'')
     else
     bindR (validateOptionalKeyFactors (fn_KeyFactors input)) (\<lambda>_.
     bindR (validateForecastChronology revision forecastedAt recordedAt) (\<lambda>_.
     Inr (position, revision, forecastedAt, recordedAt)))))"

definition PlanSealedForecastAppend ::
  "service_env \<Rightarrow> ledger option \<Rightarrow> slug \<Rightarrow> slug \<Rightarrow> forecast_create_input \<Rightarrow> timestamp \<Rightarrow> service_error + mutation" where
  "PlanSealedForecastAppend env model questionID forecastID input observedAt =
     bindR (prepareSealedForecastAppend model questionID forecastID input observedAt)
       (\<lambda>(position, revision, forecastedAt, recordedAt).
     append_forecast env model position
       (sealed_record forecastID (qr_ID revision) forecastedAt recordedAt (fn_SupersedesForecastID input) input
          (placeholderCommitment forecastID)))"

text \<open>\<open>None\<close> is an entropy source that is not configured; \<open>Validate\<close> refuses it first.\<close>

definition BuildSealedForecastAppend ::
  "service_env \<Rightarrow> 'e entropy option \<Rightarrow> 'e \<Rightarrow> ledger option \<Rightarrow> slug \<Rightarrow> slug \<Rightarrow> forecast_create_input \<Rightarrow> timestamp \<Rightarrow>
     (service_error + mutation \<times> string) \<times> 'e" where
  "BuildSealedForecastAppend env source e model questionID forecastID input observedAt =
     (case source of
        None \<Rightarrow> (Inl (Refused CodeInternal ''sealing effects are not configured''), e)
      | Some _ \<Rightarrow>
        (case prepareSealedForecastAppend model questionID forecastID input observedAt of
           Inl err \<Rightarrow> (Inl err, e)
         | Inr (position, revision, forecastedAt, recordedAt) \<Rightarrow>
             (case Seal (se_AEAD env) source e questionID (qr_ID revision) forecastID (privateBundle input)
                     (''forecast-key:'' @ forecastID) of
                (Inl _, e') \<Rightarrow> (Inl (Refused CodeIO ''sealed forecast could not be created''), e')
              | (Inr result, e') \<Rightarrow>
                  (bindR (append_forecast env model position
                     (sealed_record forecastID (qr_ID revision) forecastedAt recordedAt (fn_SupersedesForecastID input) input
                        (sr_Commitment result))) (\<lambda>mutation.
                   Inr (mutation, sr_KeyFile result)), e'))))"

section \<open>Targets\<close>

text \<open>\<open>filepath.Join\<close> of relative paths, with its lexical cleaning.\<close>

fun clean_step :: "string list \<Rightarrow> string \<Rightarrow> string list" where
  "clean_step done e =
     (if e = [] \<or> e = ''.'' then done
      else if e = ''..'' then (case done of d # ds \<Rightarrow> if d = ''..'' then e # done else ds | [] \<Rightarrow> [e])
      else e # done)"

fun join_path :: "string list \<Rightarrow> string" where
  "join_path [] = []"
| "join_path [e] = e"
| "join_path (e # es) = e @ ''/'' @ join_path es"

definition DeterministicRelativePath :: "string \<Rightarrow> string \<Rightarrow> relative_path" where
  "DeterministicRelativePath directory base =
     (let elements = rev (foldl clean_step [] (split_on CHR ''/'' (directory @ ''/'' @ base)))
      in if elements = [] then ''.'' else join_path elements)"

record target_artifact =
  ta_QuestionID :: slug
  ta_ForecastID :: slug
  ta_HeadEventID :: slug
  ta_Scope :: string
  ta_RelativePath :: relative_path
  ta_SHA256 :: string
  ta_Size :: nat
  ta_Bytes :: string

definition BuildForecastTarget :: "ledger option \<Rightarrow> slug \<Rightarrow> slug \<Rightarrow> service_error + target_artifact" where
  "BuildForecastTarget model questionID forecastID =
     (case model of
        None \<Rightarrow> Inl (Refused CodeInternal ''ledger is nil'')
      | Some m \<Rightarrow>
          bindR (selectQuestion model questionID) (\<lambda>(_, question).
            case find_forecast forecastID (qu_Forecasts question) of
              None \<Rightarrow> Inl (Refused CodeNotFound ''forecast was not found in the selected question'')
            | Some forecast \<Rightarrow>
                (case Forecast question forecast of
                   Inl _ \<Rightarrow> Inl (Refused CodeInvalidData ''forecast target cannot be canonicalized'')
                 | Inr (content, digest) \<Rightarrow>
                     Inr \<lparr>ta_QuestionID = questionID, ta_ForecastID = forecastID, ta_HeadEventID = [],
                          ta_Scope = ForecastEnvelopeSchema,
                          ta_RelativePath = DeterministicRelativePath ''proofs/targets'' (forecastID @ ''.json''),
                          ta_SHA256 = digest, ta_Size = length content, ta_Bytes = content\<rparr>)))"

definition BuildLifecycleTarget :: "ledger option \<Rightarrow> slug \<Rightarrow> slug \<Rightarrow> slug \<Rightarrow> service_error + target_artifact" where
  "BuildLifecycleTarget model questionID forecastID headEventID =
     (case model of
        None \<Rightarrow> Inl (Refused CodeInternal ''ledger is nil'')
      | Some m \<Rightarrow>
          bindR (selectQuestion model questionID) (\<lambda>(_, question).
            case find_forecast forecastID (qu_Forecasts question) of
              None \<Rightarrow> Inl (Refused CodeNotFound ''forecast was not found in the selected question'')
            | Some forecast \<Rightarrow>
                (case fo_LifecycleEvents forecast of
                   None \<Rightarrow> Inl (Refused CodeNotFound ''forecast has no lifecycle events'')
                 | Some events \<Rightarrow>
                     if headEventID \<notin> le_ID ` set events
                     then Inl (Refused CodeNotFound ''lifecycle head was not found in the selected forecast'')
                     else
                       (case Lifecycle question forecast headEventID of
                          Inl _ \<Rightarrow> Inl (Refused CodeInvalidData ''lifecycle target cannot be canonicalized'')
                        | Inr (content, digest) \<Rightarrow>
                            Inr \<lparr>ta_QuestionID = questionID, ta_ForecastID = forecastID, ta_HeadEventID = headEventID,
                                 ta_Scope = LifecycleSchema,
                                 ta_RelativePath = DeterministicRelativePath ''proofs/targets''
                                   (forecastID @ ''.lifecycle.'' @ headEventID @ ''.json''),
                                 ta_SHA256 = digest, ta_Size = length content, ta_Bytes = content\<rparr>))))"

section \<open>Reveals and key hints\<close>

definition originalSealedCommitment :: "forecast \<Rightarrow> service_error + sealed_commitment \<times> bool" where
  "originalSealedCommitment forecast =
     (case fo_Commitment forecast of
        None \<Rightarrow> Inl (Refused CodeConflict ''forecast has no sealed commitment'')
      | Some c \<Rightarrow>
          (case (fo_Visibility forecast = VisibilitySealed, cm_Sealed c) of
             (True, Some sealed) \<Rightarrow> Inr (sealed, False)
           | _ \<Rightarrow>
               (case (fo_Visibility forecast = VisibilityRevealed, cm_Revealed c) of
                  (True, Some revealed) \<Rightarrow> Inr (sealed_commitment.truncate revealed, True)
                | _ \<Rightarrow> Inl (Refused CodeConflict ''forecast is not sealed or revealed''))))"

definition validateRevealedBundle :: "question \<Rightarrow> forecast \<Rightarrow> private_bundle \<Rightarrow> service_error + unit" where
  "validateRevealedBundle question forecast bundle =
     (case find_revision (fo_QuestionRevisionID forecast) (qu_Revisions question) of
        None \<Rightarrow> Inl (Refused CodeVerification ''bound question revision is missing'')
      | Some revision \<Rightarrow>
          if no_representations bundle then Inl (Refused CodeVerification ''authenticated forecast has no representations'')
          else
            bindR (validateOptionalKeyFactors (bu_KeyFactors bundle)) (\<lambda>_.
              validateForecastChronology revision (fo_ForecastedAt forecast) (fo_RecordedAt forecast)))"

definition revealedMirrorMatches :: "forecast \<Rightarrow> private_bundle \<Rightarrow> bool" where
  "revealedMirrorMatches forecast bundle \<longleftrightarrow>
     (case fo_Representations forecast of
        None \<Rightarrow> False
      | Some representations \<Rightarrow>
          json_Marshal (json_PrivateBundle
            \<lparr>bu_Representations = Some representations, bu_Rationale = fo_Rationale forecast,
             bu_KeyFactors = fo_KeyFactors forecast, bu_Comment = fo_Comment forecast\<rparr>) =
          json_Marshal (json_PrivateBundle bundle))"

definition forecast_pointer :: "nat \<Rightarrow> nat \<Rightarrow> string" where
  "forecast_pointer i j = ''/questions/'' @ nat_string i @ ''/forecasts/'' @ nat_string j"

text \<open>The forecast a reveal leaves; a bundle that reaches it has representations.\<close>

definition revealed_forecast :: "sealed_commitment \<Rightarrow> private_bundle \<Rightarrow> timestamp \<Rightarrow> string \<Rightarrow> forecast \<Rightarrow> forecast" where
  "revealed_forecast sealed bundle revealedAt keyHex f =
     f\<lparr>fo_Visibility := VisibilityRevealed,
       fo_Representations := Some (case bu_Representations bundle of None \<Rightarrow> [] | Some rs \<Rightarrow> rs),
       fo_Rationale := bu_Rationale bundle, fo_KeyFactors := bu_KeyFactors bundle, fo_Comment := bu_Comment bundle,
       fo_Commitment := Some \<lparr>cm_Sealed = None, cm_Revealed = Some
         (sealed_commitment.extend sealed (revealed_commitment.fields revealedAt keyHex))\<rparr>\<rparr>"

definition BuildForecastReveal :: "service_env \<Rightarrow> ledger option \<Rightarrow> slug \<Rightarrow> slug \<Rightarrow> string \<Rightarrow> timestamp \<Rightarrow> service_error + mutation" where
  "BuildForecastReveal env model questionID forecastID keyFile revealedAt =
     bindR (service_ParseTimestamp revealedAt ''revealed_at'') (\<lambda>_.
     bindR (selectForecast model questionID forecastID) (\<lambda>(questionPosition, question, forecastPosition, forecast).
     bindR (originalSealedCommitment forecast) (\<lambda>(sealed, alreadyRevealed).
     case Open (se_AEAD env) keyFile questionID (fo_QuestionRevisionID forecast) forecastID sealed of
       Inl _ \<Rightarrow> Inl (Refused CodeVerification ''sealed forecast could not be authenticated'')
     | Inr opened \<Rightarrow>
     if \<not> isOk (validateRevealedBundle question forecast (or_Bundle opened))
     then Inl (Refused CodeVerification ''authenticated bundle does not match the selected forecast'')
     else if alreadyRevealed then
       (if map_option rc_RevealedKey (Option.bind (fo_Commitment forecast) cm_Revealed) \<noteq> Some (or_KeyHex opened) \<or>
           \<not> revealedMirrorMatches forecast (or_Bundle opened)
        then Inl (Refused CodeVerification ''revealed forecast mirror or disclosed key does not match the authenticated seal'')
        else Inr \<lparr>mu_Ledger = the model, mu_Patches = []\<rparr>)
     else
     bindR (BuildForecastTarget model questionID forecastID) (\<lambda>originalTarget.
     bindR (cloneLedger model) (\<lambda>prospective.
     let prospective = at_forecast questionPosition forecastPosition
           (revealed_forecast sealed (or_Bundle opened) revealedAt (or_KeyHex opened)) prospective in
     bindR (ValidateProspectiveLedgerModel env [] prospective) (\<lambda>_.
     bindR (BuildForecastTarget (Some prospective) questionID forecastID) (\<lambda>revealedTarget.
     if ta_Bytes originalTarget \<noteq> ta_Bytes revealedTarget
     then Inl (Refused CodeVerification ''reveal would change the original sealed forecast target'')
     else
       let base = forecast_pointer questionPosition forecastPosition; bundle = or_Bundle opened in
       Inr \<lparr>mu_Ledger = prospective, mu_Patches =
         [replacePatch (base @ ''/visibility'') (GoString VisibilityRevealed),
          patch PatchAdd (base @ ''/representations'')
            (patch_value_or_nil (GoArray (map json_ForecastRepresentation
              (case bu_Representations bundle of None \<Rightarrow> [] | Some rs \<Rightarrow> rs))))] @
         (case bu_Rationale bundle of None \<Rightarrow> [] | Some s \<Rightarrow> [patch PatchAdd (base @ ''/rationale'') (GoString s)]) @
         (case bu_KeyFactors bundle of None \<Rightarrow> []
          | Some factors \<Rightarrow> [patch PatchAdd (base @ ''/key_factors'') (patch_value_or_nil (GoArray (map GoString factors)))]) @
         (case bu_Comment bundle of None \<Rightarrow> [] | Some s \<Rightarrow> [patch PatchAdd (base @ ''/comment'') (GoString s)]) @
         [patch PatchAdd (base @ ''/commitment/revealed_at'') (GoString revealedAt),
          patch PatchAdd (base @ ''/commitment/revealed_key'') (GoString (or_KeyHex opened))]\<rparr>)))))))"

definition keyHintPattern :: regexp where
  "keyHintPattern =
     (let lower = (CHR ''a'', CHR ''z''); upper = (CHR ''A'', CHR ''Z''); digit = (CHR ''0'', CHR ''9''); one = (\<lambda>c. (c, c))
      in Seq (Class [lower]) (Seq (Star (Class [lower, digit, one CHR ''+'', one CHR ''.'', one CHR ''-'']))
           (Seq (Lit CHR '':'') (Plus (Class
              [upper, lower, digit, one CHR ''.'', one CHR ''_'', one CHR ''~'', one CHR ''+'', one CHR ''-''])))))"

text \<open>The two groups of the pattern are what is before and after the only colon.\<close>

definition ValidateKeyHint :: "slug \<Rightarrow> string \<Rightarrow> service_error + unit" where
  "ValidateKeyHint forecastID keyHint =
     (let scheme = takeWhile (\<lambda>c. c \<noteq> CHR '':'') keyHint; opaque = drop (Suc (length scheme)) keyHint in
      if \<not> matches keyHintPattern keyHint \<or> scheme = ''file'' \<or> scheme = ''forecast-key'' \<and> opaque \<noteq> forecastID
      then Inl (InvalidField ''key_hint''
        ''key hint must be a non-location scheme:opaque value; forecast-key must name the selected forecast'')
      else Inr ())"

definition with_key_hint :: "string \<Rightarrow> forecast \<Rightarrow> forecast" where
  "with_key_hint keyHint f = f\<lparr>fo_Commitment := map_option (\<lambda>c.
     case cm_Sealed c of
       Some s \<Rightarrow> c\<lparr>cm_Sealed := Some (s\<lparr>sc_KeyHint := keyHint\<rparr>)\<rparr>
     | None \<Rightarrow> c\<lparr>cm_Revealed := map_option (\<lambda>r. r\<lparr>sc_KeyHint := keyHint\<rparr>) (cm_Revealed c)\<rparr>) (fo_Commitment f)\<rparr>"

definition BuildForecastKeyHintUpdate :: "service_env \<Rightarrow> ledger option \<Rightarrow> slug \<Rightarrow> slug \<Rightarrow> string \<Rightarrow> service_error + mutation" where
  "BuildForecastKeyHintUpdate env model questionID forecastID keyHint =
     bindR (selectForecast model questionID forecastID) (\<lambda>(questionPosition, _, forecastPosition, forecast).
     bindR (ValidateKeyHint forecastID keyHint) (\<lambda>_.
     let current = (case fo_Commitment forecast of
           None \<Rightarrow> None
         | Some c \<Rightarrow> (case cm_Sealed c of Some s \<Rightarrow> Some (sc_KeyHint s) | None \<Rightarrow> map_option sc_KeyHint (cm_Revealed c))) in
     if current = None then Inl (Refused CodeConflict ''key hint can be changed only on a sealed or revealed forecast'')
     else if current = Some keyHint then Inr \<lparr>mu_Ledger = the model, mu_Patches = []\<rparr>
     else
     bindR (BuildForecastTarget model questionID forecastID) (\<lambda>before.
     bindR (cloneLedger model) (\<lambda>prospective.
     let prospective = at_forecast questionPosition forecastPosition (with_key_hint keyHint) prospective in
     bindR (ValidateProspectiveLedgerModel env [] prospective) (\<lambda>_.
     if map_sum id ta_Bytes (BuildForecastTarget (Some prospective) questionID forecastID) \<noteq> Inr (ta_Bytes before)
     then Inl (Refused CodeInternal ''key hint update changed forecast target bytes'')
     else Inr \<lparr>mu_Ledger = prospective, mu_Patches =
       [replacePatch (forecast_pointer questionPosition forecastPosition @ ''/commitment/key_hint'') (GoString keyHint)]\<rparr>)))))"

section \<open>Lifecycle events\<close>

definition add_event :: "lifecycle_event \<Rightarrow> forecast \<Rightarrow> forecast" where
  "add_event event f =
     f\<lparr>fo_LifecycleEvents := Some (case fo_LifecycleEvents f of None \<Rightarrow> [event] | Some events \<Rightarrow> events @ [event])\<rparr>"

definition BuildForecastLifecycle ::
  "service_env \<Rightarrow> ledger option \<Rightarrow> slug \<Rightarrow> slug \<Rightarrow> string \<Rightarrow> lifecycle_input \<Rightarrow> timestamp \<Rightarrow> service_error + mutation" where
  "BuildForecastLifecycle env model questionID forecastID eventType input observedAt =
     bindR (selectForecast model questionID forecastID) (\<lambda>(questionPosition, _, forecastPosition, forecast).
     bindR (ValidateSlug (li_ID input) ''event.id'') (\<lambda>_.
     let effective = (if li_EffectiveAt input = [] then observedAt else li_EffectiveAt input);
         recorded = (case li_RecordedAt input of None \<Rightarrow> observedAt | Some t \<Rightarrow> t) in
     bindR (service_ParseTimestamp (fo_ForecastedAt forecast) ''forecast.forecasted_at'') (\<lambda>forecastedTime.
     bindR (service_ParseTimestamp (fo_RecordedAt forecast) ''forecast.recorded_at'') (\<lambda>forecastRecordedTime.
     bindR (service_ParseTimestamp effective ''effective_at'') (\<lambda>effectiveTime.
     bindR (service_ParseTimestamp recorded ''recorded_at'') (\<lambda>recordedTime.
     if effectiveTime < forecastedTime
     then Inl (InvalidField ''effective_at'' ''lifecycle effective time must not precede forecasted_at'')
     else if recordedTime < effectiveTime
     then Inl (InvalidField ''recorded_at'' ''lifecycle recorded time must not precede effective_at'')
     else if recordedTime < forecastRecordedTime
     then Inl (InvalidField ''recorded_at'' ''lifecycle recorded time must not precede forecast recorded_at'')
     else
     let event = \<lparr>le_ID = li_ID input, le_Type = eventType, le_EffectiveAt = effective, le_RecordedAt = recorded,
           le_Reason = li_Reason input, le_Provenance = li_Provenance input\<rparr> in
     bindR (cloneLedger model) (\<lambda>clone.
     let base = forecast_pointer questionPosition forecastPosition @ ''/lifecycle_events'';
         prospective = at_forecast questionPosition forecastPosition (add_event event) clone;
         change =
           (case fo_LifecycleEvents (qu_Forecasts (lg_Questions clone ! questionPosition) ! forecastPosition) of
              None \<Rightarrow> patch PatchAdd base (GoArray [json_LifecycleEvent event])
            | Some _ \<Rightarrow> patch PatchAdd (base @ ''/-'') (patch_value_or_nil (json_LifecycleEvent event))) in
     bindR (ValidateProspectiveLedgerModel env [] prospective) (\<lambda>_.
     Inr \<lparr>mu_Ledger = prospective, mu_Patches = [change]\<rparr>))))))))"

section \<open>Groups and relationships\<close>

definition ListGroups :: "ledger option \<Rightarrow> service_error + group list" where
  "ListGroups model =
     (case model of
        None \<Rightarrow> Inl (Refused CodeInternal ''ledger is nil'')
      | Some m \<Rightarrow> Inr (case lg_Groups m of None \<Rightarrow> [] | Some groups \<Rightarrow> groups))"

definition ShowGroup :: "ledger option \<Rightarrow> slug \<Rightarrow> service_error + group" where
  "ShowGroup model i =
     bindR (ListGroups model) (\<lambda>groups.
       case List.find (\<lambda>g. gr_ID g = i) groups of
         None \<Rightarrow> Inl (Refused CodeNotFound ''group was not found'')
       | Some g \<Rightarrow> Inr g)"

text \<open>\<open>app.ErrorCodeOf(err) != app.CodeNotFound\<close>, where no error has the empty code.\<close>

definition found_or_failed :: "service_error + 'a \<Rightarrow> bool" where
  "found_or_failed r = (case r of Inl e \<Rightarrow> errorCodeOf e \<noteq> CodeNotFound | Inr _ \<Rightarrow> True)"

text \<open>An optional list of the ledger with an element more, and with the element at a position less.\<close>

definition append_optional :: "'a \<Rightarrow> 'a list option \<Rightarrow> 'a list option" where
  "append_optional x xs = Some (case xs of None \<Rightarrow> [x] | Some ys \<Rightarrow> ys @ [x])"

definition remove_optional :: "nat \<Rightarrow> 'a list option \<Rightarrow> 'a list option" where
  "remove_optional i xs =
     (case xs of
        None \<Rightarrow> None
      | Some ys \<Rightarrow> (let zs = take i ys @ drop (Suc i) ys in if zs = [] then None else Some zs))"

definition BuildGroupAdd :: "service_env \<Rightarrow> ledger option \<Rightarrow> slug \<Rightarrow> group_create_input \<Rightarrow> service_error + mutation" where
  "BuildGroupAdd env model i input =
     bindR (ValidateSlug i ''group'') (\<lambda>_.
     if blank (gi_Title input) then Inl (InvalidField ''title'' ''group title must not be empty'')
     else if found_or_failed (ShowGroup model i) then Inl (Refused CodeConflict ''group ID already exists'')
     else
     bindR (cloneLedger model) (\<lambda>clone.
     let group = \<lparr>gr_ID = i, gr_Title = gi_Title input, gr_Description = gi_Description input\<rparr>;
         prospective = clone\<lparr>lg_Groups := append_optional group (lg_Groups clone)\<rparr>;
         change =
           (case lg_Groups clone of
              None \<Rightarrow> patch PatchAdd ''/groups'' (GoArray [json_Group group])
            | Some _ \<Rightarrow> patch PatchAdd ''/groups/-'' (patch_value_or_nil (json_Group group))) in
     bindR (ValidateProspectiveLedgerModel env [] prospective) (\<lambda>_.
     Inr \<lparr>mu_Ledger = prospective, mu_Patches = [change]\<rparr>)))"

definition BuildGroupUpdate :: "service_env \<Rightarrow> ledger option \<Rightarrow> slug \<Rightarrow> group_patch_input \<Rightarrow> service_error + mutation" where
  "BuildGroupUpdate env model i input =
     bindR (ListGroups model) (\<lambda>groups.
     case find_index (\<lambda>g. gr_ID g = i) groups of
       None \<Rightarrow> Inl (Refused CodeNotFound ''group was not found'')
     | Some position \<Rightarrow>
     bindR (cloneLedger model) (\<lambda>clone.
     let original = the (lg_Groups clone) ! position;
         base = ''/groups/'' @ nat_string position;
         title = gi_PatchTitle input; description = gi_PatchDescription input in
     if ol_Set title \<and> (ol_Null title \<or> blank (ol_Value title))
     then Inl (InvalidField ''title'' ''group title must not be empty'')
     else
     let retitled = ol_Set title \<and> gr_Title original \<noteq> ol_Value title;
         group1 = (if retitled then original\<lparr>gr_Title := ol_Value title\<rparr> else original);
         group2 = (if ol_Set description
           then group1\<lparr>gr_Description := if ol_Null description then None else Some (ol_Value description)\<rparr> else group1);
         patches = (if retitled then [replacePatch (base @ ''/title'') (GoString (ol_Value title))] else []) @
           (if ol_Set description
            then [optionalFieldPatch (base @ ''/description'') (gr_Description original \<noteq> None)
                    (pointer_interface GoString (gr_Description group2))]
            else []);
         prospective = clone\<lparr>lg_Groups := Some ((the (lg_Groups clone))[position := group2])\<rparr> in
     bindR (ValidateProspectiveLedgerModel env [] prospective) (\<lambda>_.
     Inr \<lparr>mu_Ledger = prospective, mu_Patches = patches\<rparr>)))"

definition BuildGroupRemove :: "service_env \<Rightarrow> ledger option \<Rightarrow> slug \<Rightarrow> service_error + mutation" where
  "BuildGroupRemove env model i =
     bindR (ListGroups model) (\<lambda>groups.
     case find_index (\<lambda>g. gr_ID g = i) groups of
       None \<Rightarrow> Inl (Refused CodeNotFound ''group was not found'')
     | Some position \<Rightarrow>
     if (case Option.bind model lg_Relationships of
           None \<Rightarrow> False
         | Some relationships \<Rightarrow> list_ex (\<lambda>r. case rl_GroupMembership r of None \<Rightarrow> False | Some g \<Rightarrow> gm_GroupID g = i) relationships)
     then Inl (Refused CodeConflict ''group is referenced by a relationship'')
     else
     bindR (cloneLedger model) (\<lambda>clone.
     let prospective = clone\<lparr>lg_Groups := remove_optional position (lg_Groups clone)\<rparr>;
         change = patch PatchRemove
           (if lg_Groups prospective = None then ''/groups'' else ''/groups/'' @ nat_string position) GoNull in
     bindR (ValidateProspectiveLedgerModel env [] prospective) (\<lambda>_.
     Inr \<lparr>mu_Ledger = prospective, mu_Patches = [change]\<rparr>)))"

definition ListRelationships :: "ledger option \<Rightarrow> service_error + relationship list" where
  "ListRelationships model =
     (case model of
        None \<Rightarrow> Inl (Refused CodeInternal ''ledger is nil'')
      | Some m \<Rightarrow> Inr (case lg_Relationships m of None \<Rightarrow> [] | Some relationships \<Rightarrow> relationships))"

definition ShowRelationship :: "ledger option \<Rightarrow> slug \<Rightarrow> service_error + relationship" where
  "ShowRelationship model i =
     bindR (ListRelationships model) (\<lambda>values.
       case List.find (\<lambda>r. relationshipID r = i) values of
         None \<Rightarrow> Inl (Refused CodeNotFound ''relationship was not found'')
       | Some r \<Rightarrow> Inr r)"

definition BuildRelationshipAdd :: "service_env \<Rightarrow> ledger option \<Rightarrow> relationship \<Rightarrow> service_error + mutation" where
  "BuildRelationshipAdd env model input =
     bindR (ValidateSlug (relationshipID input) ''relationship'') (\<lambda>_.
     if found_or_failed (ShowRelationship model (relationshipID input))
     then Inl (Refused CodeConflict ''relationship ID already exists'')
     else
     bindR (cloneLedger model) (\<lambda>clone.
     let prospective = clone\<lparr>lg_Relationships := append_optional input (lg_Relationships clone)\<rparr> in
     bindR (case lg_Relationships clone of
              None \<Rightarrow> bindR (jsonPatchValue (GoArray [json_Relationship input])) (\<lambda>v. Inr (patch PatchAdd ''/relationships'' v))
            | Some _ \<Rightarrow> bindR (jsonPatchValue (json_Relationship input)) (\<lambda>v. Inr (patch PatchAdd ''/relationships/-'' v))) (\<lambda>change.
     bindR (ValidateProspectiveLedgerModel env [] prospective) (\<lambda>_.
     Inr \<lparr>mu_Ledger = prospective, mu_Patches = [change]\<rparr>))))"

definition BuildRelationshipRemove :: "service_env \<Rightarrow> ledger option \<Rightarrow> slug \<Rightarrow> service_error + mutation" where
  "BuildRelationshipRemove env model i =
     bindR (ListRelationships model) (\<lambda>values.
     case find_index (\<lambda>r. relationshipID r = i) values of
       None \<Rightarrow> Inl (Refused CodeNotFound ''relationship was not found'')
     | Some position \<Rightarrow>
     if list_ex (\<lambda>q. case Option.bind (qu_Resolution q) rn_NotApplicable of None \<Rightarrow> False | Some n \<Rightarrow> na_RelationshipID n = i)
          (lg_Questions (the model))
     then Inl (Refused CodeConflict ''relationship is referenced by a not-applicable resolution'')
     else
     bindR (cloneLedger model) (\<lambda>clone.
     let prospective = clone\<lparr>lg_Relationships := remove_optional position (lg_Relationships clone)\<rparr>;
         change = patch PatchRemove
           (if lg_Relationships prospective = None then ''/relationships'' else ''/relationships/'' @ nat_string position) GoNull in
     bindR (ValidateProspectiveLedgerModel env [] prospective) (\<lambda>_.
     Inr \<lparr>mu_Ledger = prospective, mu_Patches = [change]\<rparr>)))"

section \<open>Questions\<close>

definition buildRevision :: "revision_input \<Rightarrow> timestamp \<Rightarrow> service_error + question_revision" where
  "buildRevision input observedAt =
     bindR (ValidateSlug (ri_ID input) ''revision.id'') (\<lambda>_.
     let effective = (if ri_EffectiveAt input = [] then observedAt else ri_EffectiveAt input);
         recorded = (case ri_RecordedAt input of None \<Rightarrow> observedAt | Some t \<Rightarrow> t) in
     bindR (ValidateChronology effective ''revision.effective_at'' recorded ''revision.recorded_at'' True) (\<lambda>_.
     bindR (service_ParseTimestamp (ri_ExpectedResolutionAt input) ''revision.expected_resolution_at'') (\<lambda>_.
     Inr \<lparr>qr_ID = ri_ID input, qr_EffectiveAt = effective, qr_RecordedAt = recorded, qr_Title = ri_Title input,
          qr_ResolutionCriteria = ri_ResolutionCriteria input, qr_ForecastingOpensAt = ri_ForecastingOpensAt input,
          qr_ExpectedResolutionAt = ri_ExpectedResolutionAt input, qr_OutcomeSpace = ri_OutcomeSpace input,
          qr_Domain = ri_Domain input, qr_Provenance = ri_Provenance input\<rparr>)))"

definition buildQuestionShell ::
  "ledger option \<Rightarrow> normalized_question_create \<Rightarrow> timestamp \<Rightarrow> service_error + question \<times> question_revision \<times> index" where
  "buildQuestionShell model input observedAt =
     (case model of
        None \<Rightarrow> Inl (Refused CodeInternal ''ledger is nil'')
      | Some m \<Rightarrow>
     bindR (ValidateSlug (nq_ID input) ''question'') (\<lambda>_.
     let createdAt = (case qi_CreatedAt (nq_Input input) of None \<Rightarrow> observedAt | Some t \<Rightarrow> t) in
     bindR (service_ParseTimestamp createdAt ''question.created_at'') (\<lambda>_.
     bindR (buildRevision (qi_Revision (nq_Input input)) observedAt) (\<lambda>revision.
     if blank (qr_Title revision) \<or> blank (qr_ResolutionCriteria revision)
     then Inl (InvalidField ''revision'' ''revision title and resolution criteria must not be empty'')
     else
     (case BuildIndex (Some m) of
        Inl _ \<Rightarrow> Inl (Refused CodeInvalidData ''existing ledger indexes are invalid'')
      | Inr ix \<Rightarrow>
          if Index_Question ix (nq_ID input) \<noteq> None then Inl (Refused CodeConflict ''question ID already exists'')
          else Inr (\<lparr>qu_ID = nq_ID input, qu_Status = QuestionOpen, qu_CreatedAt = createdAt,
               qu_CurrentRevisionID = qr_ID revision, qu_Revisions = [revision], qu_Tags = qi_Tags (nq_Input input),
               qu_Notes = qi_Notes (nq_Input input), qu_Forecasts = [], qu_Resolution = None\<rparr>, revision, ix))))))"

definition with_question :: "question \<Rightarrow> ledger \<Rightarrow> ledger" where
  "with_question question m = m\<lparr>lg_Questions := lg_Questions m @ [question]\<rparr>"

text \<open>The pointers to nil slices are those of the new question.\<close>

definition appendProspectiveQuestion :: "service_env \<Rightarrow> ledger option \<Rightarrow> string list list \<Rightarrow> question \<Rightarrow> service_error + ledger" where
  "appendProspectiveQuestion env model nils question =
     bindR (cloneLedger model) (\<lambda>clone.
     let prospective = with_question question clone;
         position = length (lg_Questions clone) in
     bindR (ValidateProspectiveLedgerModel env (map (\<lambda>p. ''questions'' # nat_string position # p) nils) prospective) (\<lambda>_.
     Inr prospective))"

definition question_patch :: "string list list \<Rightarrow> question \<Rightarrow> service_error + patch_operation list" where
  "question_patch nils question =
     bindR (jsonPatchValue (fold put_null nils (json_Question question))) (\<lambda>value.
     Inr [patch PatchAdd ''/questions/-'' value])"

definition question_mutation_of :: "ledger \<Rightarrow> patch_operation list \<Rightarrow> string \<Rightarrow> question_mutation" where
  "question_mutation_of m patches prior = \<lparr>mu_Ledger = m, mu_Patches = patches, mu_PriorStatus = prior\<rparr>"

definition BuildQuestionWithoutForecast ::
  "service_env \<Rightarrow> ledger option \<Rightarrow> normalized_question_create \<Rightarrow> timestamp \<Rightarrow> service_error + question_mutation" where
  "BuildQuestionWithoutForecast env model input observedAt =
     bindR (buildQuestionShell model input observedAt) (\<lambda>(question, _, _).
     bindR (appendProspectiveQuestion env model [] question) (\<lambda>prospective.
     bindR (question_patch [] question) (\<lambda>patches.
     Inr (question_mutation_of prospective patches []))))"

definition nil_representations :: "('b) forecast_input_scheme \<Rightarrow> string list list" where
  "nil_representations input =
     (if fn_Representations input = [] then [[''forecasts'', nat_string 0, ''representations'']] else [])"

definition buildInitialPublicForecast :: "initial_forecast_input \<Rightarrow> question_revision \<Rightarrow> timestamp \<Rightarrow> service_error + forecast" where
  "buildInitialPublicForecast input revision observedAt =
     (if fn_Visibility input \<noteq> VisibilityPublic
      then Inl (InvalidField ''initial_forecast.visibility'' ''this builder requires a public initial forecast'')
      else
     bindR (ValidateSlug (fn_ID input) ''initial_forecast.id'') (\<lambda>_.
     case DefaultForecastTimes (fn_ForecastedAt input) (fn_RecordedAt input) observedAt of (forecastedAt, recordedAt) \<Rightarrow>
     bindR (validateForecastChronology revision forecastedAt recordedAt) (\<lambda>_.
     Inr (public_forecast (fn_ID input) (qr_ID revision) forecastedAt recordedAt None input))))"

text \<open>\<open>BuildQuestionWithInitialPublicForecast\<close> returns the ledger, \<open>BuildQuestionAddPublic\<close> adds the patch.\<close>

definition BuildQuestionWithInitialPublicForecast ::
  "service_env \<Rightarrow> ledger option \<Rightarrow> normalized_question_create \<Rightarrow> timestamp \<Rightarrow> service_error + ledger" where
  "BuildQuestionWithInitialPublicForecast env model input observedAt =
     bindR (buildQuestionShell model input observedAt) (\<lambda>(question, revision, ix).
     case qi_InitialForecast (nq_Input input) of
       None \<Rightarrow> Inl (InvalidField ''initial_forecast'' ''this builder requires an initial forecast'')
     | Some initial \<Rightarrow>
     bindR (buildInitialPublicForecast initial revision observedAt) (\<lambda>forecast.
     if fn_SupersedesForecastID initial \<noteq> None
     then Inl (InvalidField ''initial_forecast.supersedes_forecast_id'' ''a question's first forecast cannot supersede another forecast'')
     else if Index_Forecast ix (fo_ID forecast) \<noteq> None then Inl (Refused CodeConflict ''forecast ID already exists'')
     else appendProspectiveQuestion env model (nil_representations initial) (question\<lparr>qu_Forecasts := [forecast]\<rparr>)))"

definition BuildQuestionAddPublic ::
  "service_env \<Rightarrow> ledger option \<Rightarrow> normalized_question_create \<Rightarrow> timestamp \<Rightarrow> service_error + question_mutation" where
  "BuildQuestionAddPublic env model input observedAt =
     bindR (BuildQuestionWithInitialPublicForecast env model input observedAt) (\<lambda>prospective.
     bindR (question_patch (case qi_InitialForecast (nq_Input input) of None \<Rightarrow> [] | Some initial \<Rightarrow> nil_representations initial)
       (List.last (lg_Questions prospective))) (\<lambda>patches.
     Inr (question_mutation_of prospective patches [])))"

definition validateInitialSealed ::
  "question_revision \<Rightarrow> index \<Rightarrow> initial_forecast_input \<Rightarrow> timestamp \<Rightarrow> service_error + timestamp \<times> timestamp" where
  "validateInitialSealed revision ix private observedAt =
     (if fn_Visibility private \<noteq> VisibilitySealed
      then Inl (InvalidField ''initial_forecast.visibility'' ''this builder requires a sealed initial forecast'')
      else
     bindR (ValidateSlug (fn_ID private) ''initial_forecast.id'') (\<lambda>_.
     if Index_Forecast ix (fn_ID private) \<noteq> None then Inl (Refused CodeConflict ''forecast ID already exists'')
     else if fn_SupersedesForecastID private \<noteq> None
     then Inl (InvalidField ''initial_forecast.supersedes_forecast_id'' ''a question's first forecast cannot supersede another forecast'')
     else if fn_Representations private = []
     then Inl (InvalidField ''initial_forecast.representations'' ''at least one forecast representation is required'')
     else
     (case find_index blank (case fn_KeyFactors private of None \<Rightarrow> [] | Some factors \<Rightarrow> factors) of
        Some i \<Rightarrow> Inl (InvalidField (''initial_forecast.key_factors.'' @ nat_string i) ''key factor must not be empty'')
      | None \<Rightarrow>
     (case DefaultForecastTimes (fn_ForecastedAt private) (fn_RecordedAt private) observedAt of (forecastedAt, recordedAt) \<Rightarrow>
     bindR (validateForecastChronology revision forecastedAt recordedAt) (\<lambda>_.
     Inr (forecastedAt, recordedAt))))))"

definition prepareQuestionAddSealed ::
  "ledger option \<Rightarrow> normalized_question_create \<Rightarrow> timestamp \<Rightarrow>
     service_error + question \<times> initial_forecast_input \<times> timestamp \<times> timestamp" where
  "prepareQuestionAddSealed model input observedAt =
     bindR (buildQuestionShell model input observedAt) (\<lambda>(question, revision, ix).
     case qi_InitialForecast (nq_Input input) of
       None \<Rightarrow> Inl (InvalidField ''initial_forecast'' ''this builder requires an initial forecast'')
     | Some initial \<Rightarrow>
     bindR (validateInitialSealed revision ix initial observedAt) (\<lambda>(forecastedAt, recordedAt).
     Inr (question, initial, forecastedAt, recordedAt)))"

definition sealed_question ::
  "service_env \<Rightarrow> ledger option \<Rightarrow> question \<Rightarrow> initial_forecast_input \<Rightarrow> timestamp \<Rightarrow> timestamp \<Rightarrow> sealed_commitment \<Rightarrow>
     service_error + question_mutation" where
  "sealed_question env model question private forecastedAt recordedAt commitment =
     (let question = question\<lparr>qu_Forecasts :=
            [sealed_record (fn_ID private) (qu_CurrentRevisionID question) forecastedAt recordedAt None private commitment]\<rparr> in
     bindR (appendProspectiveQuestion env model [] question) (\<lambda>prospective.
     bindR (question_patch [] question) (\<lambda>patches.
     Inr (question_mutation_of prospective patches []))))"

definition PlanQuestionAddSealed ::
  "service_env \<Rightarrow> ledger option \<Rightarrow> normalized_question_create \<Rightarrow> timestamp \<Rightarrow> service_error + question_mutation" where
  "PlanQuestionAddSealed env model input observedAt =
     bindR (prepareQuestionAddSealed model input observedAt) (\<lambda>(question, private, forecastedAt, recordedAt).
     sealed_question env model question private forecastedAt recordedAt (placeholderCommitment (fn_ID private)))"

definition BuildQuestionAddSealed ::
  "service_env \<Rightarrow> 'e entropy option \<Rightarrow> 'e \<Rightarrow> ledger option \<Rightarrow> normalized_question_create \<Rightarrow> timestamp \<Rightarrow>
     (service_error + question_mutation \<times> string) \<times> 'e" where
  "BuildQuestionAddSealed env source e model input observedAt =
     (case source of
        None \<Rightarrow> (Inl (Refused CodeInternal ''sealing effects are not configured''), e)
      | Some _ \<Rightarrow>
          (case prepareQuestionAddSealed model input observedAt of
             Inl err \<Rightarrow> (Inl err, e)
           | Inr (question, private, forecastedAt, recordedAt) \<Rightarrow>
               (case Seal (se_AEAD env) source e (qu_ID question) (qu_CurrentRevisionID question) (fn_ID private)
                       (privateBundle private) (''forecast-key:'' @ fn_ID private) of
                  (Inl _, e') \<Rightarrow> (Inl (Refused CodeIO ''sealed forecast could not be created''), e')
                | (Inr result, e') \<Rightarrow>
                    (bindR (sealed_question env model question private forecastedAt recordedAt (sr_Commitment result)) (\<lambda>mutation.
                     Inr (mutation, sr_KeyFile result)), e'))))"

section \<open>Changes of a question\<close>

definition isNonterminalStatus :: "string \<Rightarrow> bool" where
  "isNonterminalStatus status \<longleftrightarrow> status = QuestionOpen \<or> status = QuestionClosed \<or> status = QuestionAwaitingResolution"

definition question_pointer :: "nat \<Rightarrow> string" where
  "question_pointer i = ''/questions/'' @ nat_string i"

text \<open>The copy of an empty list of tags is a nil slice; so its pointer is encoded as \<open>null\<close>.\<close>

definition BuildQuestionUpdate :: "service_env \<Rightarrow> ledger option \<Rightarrow> slug \<Rightarrow> question_patch_input \<Rightarrow> service_error + question_mutation" where
  "BuildQuestionUpdate env model i input =
     bindR (selectQuestion model i) (\<lambda>(position, question).
     bindR (cloneLedger model) (\<lambda>clone.
     let base = question_pointer position;
         tags = qi_PatchTags input; notes = qi_PatchNotes input; status = qi_PatchStatus input;
         nil_tags = ol_Set tags \<and> \<not> ol_Null tags \<and> ol_Value tags = [];
         new_tags = (if ol_Null tags then None else Some (ol_Value tags));
         new_notes = (if ol_Null notes then None else Some (ol_Value notes));
         tag_patches = (if ol_Set tags
           then [optionalFieldPatch (base @ ''/tags'') (qu_Tags question \<noteq> None)
                   (if nil_tags then Some (Boxed GoNull) else pointer_interface (GoArray \<circ> map GoString) new_tags)]
           else []);
         note_patches = (if ol_Set notes
           then [optionalFieldPatch (base @ ''/notes'') (qu_Notes question \<noteq> None) (pointer_interface GoString new_notes)]
           else []) in
     if ol_Set status \<and> (ol_Null status \<or> \<not> isNonterminalStatus (ol_Value status))
     then Inl (InvalidField ''status'' ''question update accepts only open, closed, or awaiting_resolution'')
     else if ol_Set status \<and> (\<not> isNonterminalStatus (qu_Status question) \<or> qu_Resolution question \<noteq> None)
     then Inl (Refused CodeConflict ''terminal status must be set through a resolution operation'')
     else
     let new_status = ol_Set status \<and> ol_Value status \<noteq> qu_Status question;
         prospective = at_question position (\<lambda>q.
           q\<lparr>qu_Tags := if ol_Set tags then new_tags else qu_Tags q,
             qu_Notes := if ol_Set notes then new_notes else qu_Notes q,
             qu_Status := if new_status then ol_Value status else qu_Status q\<rparr>) clone;
         status_patches = (if new_status then [replacePatch (base @ ''/status'') (GoString (ol_Value status))] else []) in
     bindR (ValidateProspectiveLedgerModel env
       (if nil_tags then [[''questions'', nat_string position, ''tags'']] else []) prospective) (\<lambda>_.
     Inr (question_mutation_of prospective (tag_patches @ note_patches @ status_patches) (qu_Status question)))))"

definition resolutionSources :: "evidence_source_input list \<Rightarrow> resolution_source list" where
  "resolutionSources = map (\<lambda>s.
     \<lparr>rs_Title = ei_Title s, rs_Publisher = ei_Publisher s, rs_URL = ei_URL s, rs_PublishedAt = ei_PublishedAt s,
      rs_RetrievedAt = ei_RetrievedAt s, rs_ContentDigest = ei_ContentDigest s\<rparr>)"

definition buildQuestionTerminalMutation ::
  "service_env \<Rightarrow> ledger option \<Rightarrow> nat \<Rightarrow> question \<Rightarrow> string \<Rightarrow> resolution \<Rightarrow> service_error + question_mutation" where
  "buildQuestionTerminalMutation env model position question status resolution =
     bindR (cloneLedger model) (\<lambda>clone.
     let prospective = at_question position (\<lambda>q. q\<lparr>qu_Status := status, qu_Resolution := Some resolution\<rparr>) clone in
     bindR (ValidateProspectiveLedgerModel env [] prospective) (\<lambda>_.
     bindR (jsonPatchValue (json_Resolution resolution)) (\<lambda>value.
     let base = question_pointer position in
     Inr (question_mutation_of prospective
       [replacePatch (base @ ''/status'') (GoString status),
        patch (if qu_Resolution question = None then PatchAdd else PatchReplace) (base @ ''/resolution'') value]
       (qu_Status question)))))"

definition BuildQuestionResolve ::
  "service_env \<Rightarrow> ledger option \<Rightarrow> slug \<Rightarrow> resolution_input \<Rightarrow> timestamp \<Rightarrow> service_error + question_mutation" where
  "BuildQuestionResolve env model i input observedAt =
     bindR (selectQuestion model i) (\<lambda>(position, question).
     if qu_Status question \<noteq> QuestionClosed \<and> qu_Status question \<noteq> QuestionAwaitingResolution \<and> qu_Status question \<noteq> QuestionDisputed
     then Inl (Refused CodeConflict ''question must be closed, awaiting resolution, or disputed before resolution'')
     else if ro_Sources input = [] then Inl (InvalidField ''sources'' ''at least one resolution source is required'')
     else
       buildQuestionTerminalMutation env model position question QuestionResolved
         \<lparr>rn_Resolved = Some
            \<lparr>rr_Status = ''resolved'', rr_QuestionRevisionID = ro_QuestionRevisionID input, rr_Outcome = ro_Outcome input,
             rr_OutcomeKnownAt = ro_OutcomeKnownAt input,
             rr_RecordedAt = (case ro_RecordedAt input of None \<Rightarrow> observedAt | Some t \<Rightarrow> t),
             rr_Sources = resolutionSources (ro_Sources input), rr_Notes = ro_Notes input\<rparr>,
          rn_Unresolved = None, rn_NotApplicable = None\<rparr>)"

definition BuildQuestionUnresolved ::
  "service_env \<Rightarrow> ledger option \<Rightarrow> slug \<Rightarrow> string \<Rightarrow> unresolved_resolution_input \<Rightarrow> timestamp \<Rightarrow> service_error + question_mutation" where
  "BuildQuestionUnresolved env model i status input observedAt =
     bindR (selectQuestion model i) (\<lambda>(position, question).
     if blank (uo_Reason input) then Inl (InvalidField ''reason'' ''resolution reason must not be empty'')
     else if status \<notin> {''ambiguous'', ''void'', ''disputed''}
     then Inl (InvalidField ''status'' ''unsupported unresolved terminal status'')
     else if status \<noteq> ''disputed'' \<and> qu_Status question \<noteq> QuestionClosed \<and> qu_Status question \<noteq> QuestionAwaitingResolution
     then Inl (Refused CodeConflict ''question must be closed or awaiting resolution'')
     else if status = ''disputed'' \<and> isNonterminalStatus (qu_Status question)
     then Inl (Refused CodeConflict ''only a terminal question can be disputed'')
     else
       buildQuestionTerminalMutation env model position question status
         \<lparr>rn_Resolved = None,
          rn_Unresolved = Some
            \<lparr>ur_Status = status, ur_Reason = uo_Reason input,
             ur_RecordedAt = (case uo_RecordedAt input of None \<Rightarrow> observedAt | Some t \<Rightarrow> t),
             ur_Sources = (if uo_Sources input = [] then None else Some (resolutionSources (uo_Sources input)))\<rparr>,
          rn_NotApplicable = None\<rparr>)"

definition BuildQuestionNotApplicable ::
  "service_env \<Rightarrow> ledger option \<Rightarrow> slug \<Rightarrow> not_applicable_input \<Rightarrow> timestamp \<Rightarrow> service_error + question_mutation" where
  "BuildQuestionNotApplicable env model i input observedAt =
     bindR (selectQuestion model i) (\<lambda>(position, question).
       buildQuestionTerminalMutation env model position question QuestionNotApplicable
         \<lparr>rn_Resolved = None, rn_Unresolved = None,
          rn_NotApplicable = Some
            \<lparr>na_Status = ''not_applicable'', na_RelationshipID = no_RelationshipID input, na_Reason = no_Reason input,
             na_RecordedAt = (case no_RecordedAt input of None \<Rightarrow> observedAt | Some t \<Rightarrow> t)\<rparr>\<rparr>)"

end
