(* ===== verification/Time_Format.thy ===== *)
theory Time_Format
  imports Go_Time
begin

text \<open>
  \<open>time.Time.Format(time.RFC3339Nano)\<close>, which \<open>deriveRevisionDefaults\<close> of
  \<open>internal/service/question.go\<close> prints times with, and its round trip with the parser.  A
  location is the offset in seconds at each Unix time; the local zone is a parameter.
\<close>

section \<open>Printing times\<close>

text \<open>A \<open>time.Time\<close>: the instant and its location, as the offset at each Unix second.\<close>

type_synonym location = "int \<Rightarrow> int"

record go_time =
  tm_At :: instant
  tm_Location :: location

text \<open>The date of a day, counted from 1970-01-01, by cycles of 400, 100, 4 years and 1 year.\<close>

definition year_day :: "int \<Rightarrow> int \<times> int" where
  "year_day days =
     (let n = days + 719162;
          n400 = n div 146097; d = n mod 146097;
          n100 = min 3 (d div 36524); d = d - 36524 * n100;
          n4 = d div 1461; d = d mod 1461;
          n1 = min 3 (d div 365); d = d - 365 * n1
      in (400 * n400 + 100 * n100 + 4 * n4 + n1 + 1, d))"

definition month_day :: "nat \<Rightarrow> nat \<Rightarrow> nat \<times> nat" where
  "month_day y yd =
     (let m = List.last (filter (\<lambda>m. days_before_month m y \<le> yd) [1..<13])
      in (m, Suc (yd - days_before_month m y)))"

definition local_seconds :: "go_time \<Rightarrow> int" where
  "local_seconds t = Unix (tm_At t) + tm_Location t (Unix (tm_At t))"

definition time_Year :: "go_time \<Rightarrow> int" where
  "time_Year t = fst (year_day (local_seconds t div 86400))"

text \<open>\<open>appendInt\<close> and the fraction without its trailing zeros.\<close>

definition append_int :: "nat \<Rightarrow> int \<Rightarrow> string" where
  "append_int w v = (if v < 0 then CHR ''-'' # pad w (nat (- v)) else pad w (nat v))"

definition format_fraction :: "nat \<Rightarrow> string" where
  "format_fraction ns =
     (if ns = 0 then [] else CHR ''.'' # rev (dropWhile (\<lambda>c. c = CHR ''0'') (rev (pad 9 ns))))"

definition format_zone :: "int \<Rightarrow> string" where
  "format_zone offset =
     (if offset = 0 then ''Z''
      else let zone = offset sdiv 60 in
        (if zone < 0 then CHR ''-'' else CHR ''+'') # pad 2 (nat (\<bar>zone\<bar> div 60)) @ CHR '':'' # pad 2 (nat (\<bar>zone\<bar> mod 60)))"

definition Format_RFC3339Nano :: "go_time \<Rightarrow> string" where
  "Format_RFC3339Nano t =
     (let s = local_seconds t; (y, yd) = year_day (s div 86400); clock = nat (s mod 86400);
          (m, d) = month_day (nat (y mod 400 + 400)) (nat yd)
      in append_int 4 y @ ''-'' @ pad 2 m @ ''-'' @ pad 2 d @ CHR ''T'' #
         clock_string (clock div 3600) (clock div 60 mod 60) (clock mod 60) @
         format_fraction (nat (Nanosecond (tm_At t))) @ format_zone (tm_Location t (Unix (tm_At t))))"

text \<open>
  \<open>time.Parse\<close> gives \<open>Z\<close> the location UTC, and another offset the local zone when that has the
  offset at the instant, a fixed zone otherwise.
\<close>

definition location_of :: "location \<Rightarrow> string \<Rightarrow> instant \<Rightarrow> location" where
  "location_of local_zone value t =
     (let zone = ts_zone value in
      if zone \<noteq> [] \<and> hd zone = CHR ''Z'' then (\<lambda>_. 0)
      else
        (case zone_offset zone of
           Inl _ \<Rightarrow> (\<lambda>_. 0)
         | Inr offset \<Rightarrow> if local_zone (Unix t) = offset then local_zone else (\<lambda>_. offset)))"

section \<open>The printed date\<close>

definition leap_year :: "int \<Rightarrow> bool" where
  "leap_year y \<longleftrightarrow> y mod 4 = 0 \<and> (y mod 100 \<noteq> 0 \<or> y mod 400 = 0)"

lemma leap_year_int: "leap_year (int y) \<longleftrightarrow> is_leap y"
proof -
  have "int y mod 4 = int (y mod 4)" "int y mod 100 = int (y mod 100)" "int y mod 400 = int (y mod 400)"
    by (simp_all add: of_nat_mod)
  then show ?thesis by (simp add: leap_year_def is_leap_def)
qed

lemma capped_div:
  assumes "0 < k" "0 \<le> x" "x \<le> 4 * k" "b = min 3 (x div k)" "r = x - k * b"
  shows "0 \<le> b" "b \<le> 3" "0 \<le> r" "r < k \<or> b = 3 \<and> x = 4 * k \<and> r = (k :: int)"
proof -
  have x: "x = k * (x div k) + x mod k" "0 \<le> x mod k" "x mod k < k" "0 \<le> x div k" using assms(1,2) by (simp_all add: pos_imp_zdiv_nonneg_iff)
  show "0 \<le> b" "b \<le> 3" using x(4) by (simp_all add: assms(4))
  show "r < k \<or> b = 3 \<and> x = 4 * k \<and> r = k"
  proof (cases "x div k \<le> 3")
    case True
    then have "r = x mod k" by (simp add: assms(4,5) minus_mult_div_eq_mod)
    then show ?thesis using x by simp
  next
    case False
    then have "k * 4 \<le> k * (x div k)" using assms(1) by simp
    then have "x = 4 * k" using x assms(3) by linarith
    then show ?thesis using False by (simp add: assms(4,5))
  qed
  have "k * b \<le> k * (x div k)" using assms(1) by (simp add: assms(4))
  then show "0 \<le> r" using x(1,2) unfolding assms(5) by linarith
qed

lemma sorted_last: "sorted xs \<Longrightarrow> x \<in> set xs \<Longrightarrow> x \<le> List.last xs"
  by (induction xs) auto

lemma year_day_correct:
  assumes "year_day n = (y, d)"
  shows "n = 365 * (y - 1) + (y - 1) div 4 - (y - 1) div 100 + (y - 1) div 400 - 719162 + d"
    and "0 \<le> d" "d < (if leap_year y then 366 else 365)"
proof -
  define a d0 where "a = (n + 719162) div 146097" and "d0 = (n + 719162) mod 146097"
  define b where "b = min 3 (d0 div 36524)"
  define d1 where "d1 = d0 - 36524 * b"
  define c d2 where "c = d1 div 1461" and "d2 = d1 mod 1461"
  define e where "e = min 3 (d2 div 365)"
  have "year_day n = (400 * a + 100 * b + 4 * c + e + 1, d2 - 365 * e)"
    unfolding year_day_def Let_def a_def d0_def b_def d1_def c_def d2_def e_def ..
  with assms have yd: "y = 400 * a + 100 * b + 4 * c + e + 1" "d = d2 - 365 * e" by simp_all
  have n: "n + 719162 = 146097 * a + d0" "0 \<le> d0" "d0 < 146097" by (simp_all add: a_def d0_def)
  have b: "0 \<le> b" "b \<le> 3" "0 \<le> d1" "d1 < 36524 \<or> b = 3 \<and> d1 \<le> 36524"
    using capped_div [OF _ _ _ b_def d1_def] n(2,3) by auto
  have c: "d1 = 1461 * c + d2" "0 \<le> d2" "d2 < 1461" "0 \<le> c" "c \<le> 24"
    using b(3,4) unfolding c_def d2_def by auto
  have e: "0 \<le> e" "e \<le> 3" "0 \<le> d" "d < 365 \<or> e = 3 \<and> d2 = 1460 \<and> d = 365"
    using capped_div [OF _ _ _ e_def yd(2)] c(2,3) by auto
  have p4: "y - 1 = 4 * (100 * a + 25 * b + c) + e" by (simp add: yd(1))
  have p100: "y - 1 = 100 * (4 * a + b) + (4 * c + e)" by (simp add: yd(1))
  have p400: "y - 1 = 400 * a + (100 * b + 4 * c + e)" by (simp add: yd(1))
  have "(y - 1) div 4 = 100 * a + 25 * b + c" using e by (intro int_div_pos_eq [OF p4]) simp_all
  moreover have "(y - 1) div 100 = 4 * a + b" using c(4,5) e by (intro int_div_pos_eq [OF p100]) simp_all
  moreover have "(y - 1) div 400 = a" using b c(4,5) e by (intro int_div_pos_eq [OF p400]) simp_all
  ultimately show "n = 365 * (y - 1) + (y - 1) div 4 - (y - 1) div 100 + (y - 1) div 400 - 719162 + d"
    using n(1) c(1) yd d1_def by simp
  show "0 \<le> d" using e(3) .
  have "leap_year y" if "e = 3" "d2 = 1460"
  proof (cases "c = 24")
    case True
    then have "b = 3" using c(1) b(4) that by auto
    with True that have "y = 400 * (a + 1)" by (simp add: yd)
    then show ?thesis by (simp add: leap_year_def)
  next
    case False
    then have "y = 100 * (4 * a + b) + (4 * c + 4)" "0 \<le> 4 * c + 4" "4 * c + 4 < 100"
      using c(4,5) that by (simp_all add: yd(1))
    then have "y mod 100 = 4 * c + 4" by (metis int_mod_pos_eq)
    moreover have "y = 4 * (100 * a + 25 * b + c + 1)" using that by (simp add: yd(1))
    ultimately show ?thesis using c(4) by (simp add: leap_year_def)
  qed
  then show "d < (if leap_year y then 366 else 365)" using e(4) by auto
qed

lemma epoch_days_year_day:
  assumes "year_day n = (int y, d)" "month_day y (nat d) = (m, k)"
  shows "valid_date y m k" "epoch_days y m k = n"
proof -
  note yd = year_day_correct [OF assms(1)]
  let ?ms = "filter (\<lambda>m. days_before_month m y \<le> nat d) [1..<13]"
  have m: "m = List.last ?ms" "k = Suc (nat d - days_before_month m y)"
    using assms(2) by (auto simp: month_day_def Let_def)
  have "days_before_month 1 y = 0" by (simp add: days_before_month_def)
  then have "1 \<in> set ?ms" by simp
  then have in_ms: "m \<in> set ?ms" unfolding m(1) by (metis empty_iff empty_set last_in_set)
  have "sorted ?ms" by (simp add: sorted_wrt_filter del: upt_rec_numeral)
  then have largest: "m' \<le> m" if "m' \<in> set ?ms" for m'
    using sorted_last that unfolding m(1) by blast
  have bounds: "1 \<le> m" "m \<le> 12" "days_before_month m y \<le> nat d" using in_ms by auto
  have "nat d < days_before_month (Suc m) y"
  proof (cases "m = 12")
    case True
    have "nat d < (if is_leap y then 366 else 365)" using yd(2,3) leap_year_int [of y] by (auto split: if_splits)
    then show ?thesis using year_length [of y] by (simp add: True)
  next
    case False
    then have "Suc m \<notin> set ?ms" using largest [of "Suc m"] by auto
    then show ?thesis using False bounds by simp
  qed
  then show "valid_date y m k" using bounds days_before_month_Suc [OF bounds(1), of y] by (simp add: valid_date_def m(2))
  show "epoch_days y m k = n" using yd(1,2) bounds(3) by (simp add: epoch_days_def Let_def m(2))
qed

section \<open>Printing and parsing\<close>

definition printable :: "go_time \<Rightarrow> bool" where
  "printable t \<longleftrightarrow>
     (let offset = tm_Location t (Unix (tm_At t)) in
      60 dvd offset \<and> \<bar>offset\<bar> < 25 * 3600 \<and> 0 \<le> time_Year t \<and> time_Year t \<le> 9999)"

definition offset_zone :: "int \<Rightarrow> zone" where
  "offset_zone offset =
     (if offset = 0 then None else Some (offset < 0, nat (\<bar>offset\<bar> div 3600), nat (\<bar>offset\<bar> div 60 mod 60)))"

lemma offset_zone_valid:
  assumes "60 dvd offset" "\<bar>offset\<bar> < 25 * 3600"
  shows "valid_zone (offset_zone offset)" "zone_seconds (offset_zone offset) = offset"
    "format_zone offset = zone_string (offset_zone offset)"
proof -
  obtain k where k: "offset = 60 * k" using assms(1) by blast
  have abs: "\<bar>offset\<bar> = 60 * \<bar>k\<bar>" by (simp add: k abs_mult)
  have div: "\<bar>offset\<bar> div 60 = \<bar>k\<bar>" "\<bar>offset\<bar> div 3600 = \<bar>k\<bar> div 60" using abs by simp_all
  have small: "\<bar>k\<bar> div 60 \<le> 24" using assms(2) abs by linarith
  have "offset = 0 \<longleftrightarrow> k = 0" "offset < 0 \<longleftrightarrow> k < 0" "offset sdiv 60 = k" by (simp_all add: k signed_divide_int_def sgn_mult abs_mult mult_sgn_abs)
  then show "format_zone offset = zone_string (offset_zone offset)"
    by (simp add: format_zone_def zone_string_def offset_zone_def Let_def div)
  show "valid_zone (offset_zone offset)"
    using small pos_mod_bound [of 60 "\<bar>k\<bar>", THEN less_imp_le] by (simp add: valid_zone_def offset_zone_def div nat_le_iff)
  have "\<bar>k\<bar> div 60 * 3600 + \<bar>k\<bar> mod 60 * 60 = \<bar>offset\<bar>"
    using abs div_mult_mod_eq [of "\<bar>k\<bar>" 60] by linarith
  then show "zone_seconds (offset_zone offset) = offset"
    by (auto simp: zone_seconds_def offset_zone_def div)
qed

lemma format_fraction_nanos:
  assumes "ns < 10 ^ 9"
  obtains f where "format_fraction ns = fraction_string f" "list_all is_digit f" "fraction_nanos f = ns"
proof (cases "ns = 0")
  case True
  show ?thesis by (rule that [of "[]"]) (simp_all add: True format_fraction_def fraction_string_def fraction_nanos_def)
next
  case False
  define f where "f = rev (dropWhile (\<lambda>c. c = CHR ''0'') (rev (pad 9 ns)))"
  note pad = pad_digit [OF assms zero_less_numeral]
  define n where "n = length (takeWhile (\<lambda>c. c = CHR ''0'') (rev (pad 9 ns)))"
  have "takeWhile (\<lambda>c. c = CHR ''0'') (rev (pad 9 ns)) = replicate n CHR ''0''"
    unfolding n_def by (rule replicate_length_same [symmetric]) (auto dest: set_takeWhileD)
  then have split: "pad 9 ns = f @ replicate n CHR ''0''"
    unfolding f_def by (metis rev_append rev_replicate rev_rev_ident takeWhile_dropWhile_id)
  then have len: "length f + n = 9" using pad(1) by (metis length_append length_replicate)
  have "ns = digits_value f * 10 ^ n"
    using pad(3) unfolding split by (simp add: digits_value_append digits_value_zeros)
  moreover have "9 - length f = n" using len by simp
  ultimately have nanos: "fraction_nanos f = ns" using len by (simp add: fraction_nanos_def Let_def)
  have "f \<noteq> []" using \<open>ns = digits_value f * 10 ^ n\<close> False by auto
  then have "format_fraction ns = fraction_string f" using False by (simp add: format_fraction_def fraction_string_def f_def)
  moreover have "list_all is_digit f" using pad(2) unfolding split by simp
  ultimately show ?thesis using that nanos by blast
qed

lemma Format_string:
  assumes "printable t"
  obtains y m d h mi s f where
    "Format_RFC3339Nano t = timestamp_string y m d h mi s f (offset_zone (tm_Location t (Unix (tm_At t))))"
    "y < 10 ^ 4" "valid_date y m d" "h < 24" "mi < 60" "s < 60" "list_all is_digit f"
    "timestamp_value y m d h mi s f (offset_zone (tm_Location t (Unix (tm_At t)))) = tm_At t"
proof -
  define off s where "off = tm_Location t (Unix (tm_At t))" and "s = local_seconds t"
  have p: "60 dvd off" "\<bar>off\<bar> < 25 * 3600" "0 \<le> time_Year t" "time_Year t \<le> 9999"
    using assms by (simp_all add: printable_def off_def Let_def)
  obtain yd where yd: "year_day (s div 86400) = (time_Year t, yd)"
    by (cases "year_day (s div 86400)") (simp add: time_Year_def s_def)
  define y where "y = nat (time_Year t)"
  have y: "time_Year t = int y" "y < 10 ^ 4" using p(3,4) by (simp_all add: y_def)
  have "(int y mod 400 + 400) mod 4 = int y mod 4" "(int y mod 400 + 400) mod 100 = int y mod 100"
    using mod_mult_self1 [of "int y mod 400" 100 4] mod_mult_self1 [of "int y mod 400" 4 100]
    by (simp_all add: mod_mod_cancel)
  then have leap: "days_in m (nat (int y mod 400 + 400)) = days_in m y" for m
    using leap_year_int [of y] leap_year_int [of "nat (int y mod 400 + 400)"]
    by (simp add: days_in_def leap_year_def mod_simps)
  have month: "month_day (nat (int y mod 400 + 400)) k = month_day y k" for k
    by (simp add: month_day_def days_before_month_def leap)
  obtain m d where md: "month_day y (nat yd) = (m, d)" by force
  note date = epoch_days_year_day [OF yd [unfolded y(1)] md]
  define c where "c = nat (s mod 86400)"
  have c: "c < 86400" "s = s div 86400 * 86400 + int c" by (simp_all add: c_def nat_less_iff)
  have clock: "c div 3600 < 24" "c div 60 mod 60 < 60" "c mod 60 < 60" using c(1) by (simp_all add: less_mult_imp_div_less)
  have c_eq: "int c = int (c div 3600) * 3600 + int (c div 60 mod 60) * 60 + int (c mod 60)"
  proof -
    have "c = c div 60 div 60 * 3600 + c div 60 mod 60 * 60 + c mod 60"
      using div_mult_mod_eq [of c 60] div_mult_mod_eq [of "c div 60" 60] by linarith
    then have "c = c div 3600 * 3600 + c div 60 mod 60 * 60 + c mod 60" by (simp only: div_mult2_eq [symmetric]) simp
    then show ?thesis by linarith
  qed
  obtain f where f: "format_fraction (nat (Nanosecond (tm_At t))) = fraction_string f" "list_all is_digit f"
    "fraction_nanos f = nat (Nanosecond (tm_At t))"
    by (rule format_fraction_nanos [of "nat (Nanosecond (tm_At t))"]) (auto simp: Nanosecond_def nat_less_iff)
  note z = offset_zone_valid [OF p(1,2)]
  have "Format_RFC3339Nano t = timestamp_string y m d (c div 3600) (c div 60 mod 60) (c mod 60) f (offset_zone off)"
    using y md by (simp add: Format_RFC3339Nano_def timestamp_string_def format_date_def append_int_def Let_def
        flip: s_def off_def c_def f(1) z(3), simp add: yd month)
  moreover have "timestamp_value y m d (c div 3600) (c div 60 mod 60) (c mod 60) f (offset_zone off) = tm_At t"
  proof -
    have "epoch_days y m d * 86400 + int (c div 3600) * 3600 + int (c div 60 mod 60) * 60 + int (c mod 60) - off = Unix (tm_At t)"
      using c(2) c_eq date(2) by (simp add: s_def local_seconds_def off_def)
    then show ?thesis by (simp add: timestamp_value_def z(2) f(3) Unix_def Nanosecond_def)
  qed
  ultimately show ?thesis using that [OF _ y(2) date(1) clock f(2)] unfolding off_def by blast
qed

lemma offset_zone_bounds: "valid_zone z \<Longrightarrow> case z of None \<Rightarrow> True | Some (_, zh, zm) \<Rightarrow> zh < 100 \<and> zm < 100"
  by (auto simp: valid_zone_def split: option.splits)

lemma printable_zone: "printable t \<Longrightarrow> valid_zone (offset_zone (tm_Location t (Unix (tm_At t))))"
  by (simp add: printable_def Let_def offset_zone_valid(1))

lemma Format_parses:
  assumes "printable t"
  shows "ParseTimestamp (Format_RFC3339Nano t) = Inr (tm_At t)"
proof -
  note zone = printable_zone [OF assms]
  obtain y m d h mi s f where f: "Format_RFC3339Nano t = timestamp_string y m d h mi s f (offset_zone (tm_Location t (Unix (tm_At t))))"
    "y < 10 ^ 4" "valid_date y m d" "h < 24" "mi < 60" "s < 60" "list_all is_digit f"
    "timestamp_value y m d h mi s f (offset_zone (tm_Location t (Unix (tm_At t)))) = tm_At t"
    by (rule Format_string [OF assms])
  then show ?thesis
    using ParseTimestamp_string [OF f(2) _ _ _ _ _ f(7) offset_zone_bounds [OF zone], of m d h mi s]
      valid_date_bounds [OF f(3)] zone by simp
qed

text \<open>The parser gives a printed time a location with the printed offset.\<close>

lemma location_of_Format:
  assumes "printable t"
  shows "location_of z (Format_RFC3339Nano t) (tm_At t) (Unix (tm_At t)) = tm_Location t (Unix (tm_At t))"
proof -
  let ?off = "tm_Location t (Unix (tm_At t))"
  note zone = printable_zone [OF assms]
  obtain y m d h mi s f where f: "Format_RFC3339Nano t = timestamp_string y m d h mi s f (offset_zone ?off)"
    "y < 10 ^ 4" "valid_date y m d" "h < 24" "mi < 60" "s < 60" "list_all is_digit f"
    by (rule Format_string [OF assms])
  then have "ts_zone (Format_RFC3339Nano t) = zone_string (offset_zone ?off)"
    using valid_date_bounds [OF f(3)] by (intro timestamp_fields(8) [OF _ _ _ _ _ _ _ f(1) [unfolded timestamp_string_def]]) simp_all
  moreover have "zone_offset (zone_string (offset_zone ?off)) = Inr ?off"
    using zone_offset_string [OF offset_zone_bounds [OF zone]] zone assms
    by (simp add: printable_def Let_def offset_zone_valid(2))
  ultimately show ?thesis by (auto simp: location_of_def Let_def offset_zone_def zone_string_def)
qed

end
