(* ===== verification/Ledger_Acceptance.thy ===== *)
theory Ledger_Acceptance
  imports Question_Revisions Semantic_Properties Member_Order
begin

text \<open>
  What \<open>ValidateProspectiveLedgerModel\<close> accepts.  It encodes the prospective ledger, parses the
  bytes, validates them against the schema, decodes them into a ledger and checks the semantics of
  that; the theory shows that the decoded ledger is the prospective one, so acceptance is a
  statement about the ledger that is returned and written.
\<close>

section \<open>Reading back\<close>

text \<open>
  A ledger as the program holds it: unions agree with their discriminators, strings are valid text,
  the nesting is within the decoder's, and the platforms are the entries of a map.
\<close>

definition representable :: "ledger \<Rightarrow> bool" where
  "representable m \<longleftrightarrow> tagged_Ledger m \<and> supported (json_Ledger m) \<and> json_depth (json_Ledger m) \<le> 10000 \<and>
     distinct (map (fold_name \<circ> fst) (lg_Platforms m))"

lemma cloneLedger_representable [simp]: "representable m \<Longrightarrow> cloneLedger (Some m) = Inr m"
  using ledger_reads_back [of m] by (simp add: representable_def cloneLedger_def)

lemma struct_value_Ledger: "representable m \<Longrightarrow> struct_value (json_Ledger m)"
  using tidy_json_Ledger [of m]
  by (simp add: representable_def struct_value_def tidy_def tagged_Ledger_def strict_sorted_iff)

lemma shuffled_sort_maps: "well_keyed v \<Longrightarrow> shuffled v (sort_maps v)"
proof (induction v rule: sort_maps.induct)
  case (1 vs)
  then have "list_all2 shuffled vs (map sort_maps vs)" by (auto simp: list.rel_map intro!: list.rel_refl_strong)
  then show ?case by (simp add: shuffled_array)
next
  case (2 ms)
  then have "shuffled v (sort_maps v)" if "(k, v) \<in> set ms" for k v using that by fastforce
  then show ?case using 2 by (simp only: sort_maps.simps well_keyed.simps) (rule shuffled_objectI, simp_all)
qed (simp_all add: shuffled_same)

lemma set_sort_key_map: "set (sort_key f (map g xs)) = g ` set xs"
  by simp

lemma struct_value_sort_maps: "struct_value v \<Longrightarrow> struct_value (sort_maps v)"
proof (induction v rule: sort_maps.induct)
  case (2 ms)
  have "distinct (map fst (sort_key fst (map (\<lambda>(k, v). (k, sort_maps v)) ms)))"
  proof -
    have "mset (map fst (sort_key fst (map (\<lambda>(k, v). (k, sort_maps v)) ms))) = mset (map fst ms)"
      by (simp add: multiset.map_comp comp_def case_prod_unfold)
    moreover have "distinct (map fst ms)" using 2 by (simp add: struct_value_def)
    ultimately show ?thesis using mset_eq_imp_distinct_iff by blast
  qed
  with 2 show ?case by (fastforce simp: struct_value_def)
qed (auto simp: struct_value_def)

lemma foldr_max_le: "foldr (\<lambda>x. max (f x)) xs 0 \<le> (k :: nat) \<longleftrightarrow> (\<forall>x\<in>set xs. f x \<le> k)"
  by (induction xs) auto

lemma json_depth_sort_maps: "json_depth v \<le> k \<Longrightarrow> json_depth (sort_maps v) \<le> k"
proof (induction v arbitrary: k rule: sort_maps.induct)
  case (1 vs)
  then obtain l where "k = Suc l" by (cases k) auto
  with 1 show ?case by (auto simp: foldr_max_le foldr_map comp_def)
next
  case (2 ms)
  then obtain l where "k = Suc l" by (cases k) auto
  with 2 show ?case by (fastforce simp: foldr_max_le case_prod_unfold)
qed auto

lemma DecodeLedger_reads:
  assumes "representable m" "Any d = json_Ledger m"
  shows "DecodeLedger (Some d) = Inr m"
proof -
  let ?v = "json_Ledger m" and ?w = "sort_maps (json_Ledger m)"
  have m: "tagged_Ledger m" "json_depth ?v \<le> 10000" "distinct (map (fold_name \<circ> fst) (lg_Platforms m))"
    using assms(1) by (simp_all add: representable_def)
  have w: "struct_value ?w" by (rule struct_value_sort_maps [OF struct_value_Ledger [OF assms(1)]])
  then have "json_Marshal ?w = Some (encq go_quote ?w)"
    using supported_marshals [of ?w] by (simp add: json_Marshal_def struct_value_def)
  moreover have "json_Unmarshal (encq go_quote ?w) = Some ?w"
    by (rule json_Unmarshal_encoded [OF w json_depth_sort_maps [OF m(2)]])
  moreover have "decode_Ledger zero_Ledger ?w = Some m"
    using blind_toD [OF blind_Ledger shuffled_sort_maps [OF keyed_Ledger [OF m(3)]]] m(1) by (metis decode_json_Ledger)
  ultimately show ?thesis using assms(2) by (simp add: DecodeLedger_def)
qed

section \<open>Nulls\<close>

text \<open>
  The schema of a ledger types every location and knows no null, which the library that runs it
  enforces; so no accepted document holds the null of a nil slice.
\<close>

fun null_free :: "go_value \<Rightarrow> bool" where
  "null_free GoNull \<longleftrightarrow> False"
| "null_free (GoArray vs) \<longleftrightarrow> (\<forall>v\<in>set vs. null_free v)"
| "null_free (GoObject ms) \<longleftrightarrow> (\<forall>(k, v)\<in>set ms. null_free v)"
| "null_free v \<longleftrightarrow> True"

definition rejects_null :: "service_env \<Rightarrow> bool" where
  "rejects_null env \<longleftrightarrow> (\<forall>v. se_Schema env v = Inr [] \<longrightarrow> null_free v)"

lemma null_free_put_null: "null_free (put_null p v) \<Longrightarrow> put_null p v = v"
proof (induction p v rule: put_null.induct)
  case (2 k ks ms)
  then show ?case by (fastforce intro: map_idI)
next
  case (3 k ks vs)
  have "(if nat_string i = k then put_null ks (vs ! i) else vs ! i) = vs ! i" if "i < length vs" for i
    using 3 that by auto
  then have "map (\<lambda>i. if nat_string i = k then put_null ks (vs ! i) else vs ! i) [0..<length vs] = map ((!) vs) [0..<length vs]"
    by (intro map_cong) simp_all
  then show ?case by (simp add: map_nth)
qed auto

lemma null_free_put_nulls: "null_free (fold put_null nils v) \<Longrightarrow> fold put_null nils v = v"
proof (induction nils arbitrary: v)
  case (Cons p nils)
  then have "fold put_null nils (put_null p v) = put_null p v" by simp
  with Cons.prems null_free_put_null [of p v] show ?case by simp
qed simp

lemma struct_value_put_null: "struct_value v \<Longrightarrow> struct_value (put_null p v)"
  by (induction p v rule: put_null.induct) (fastforce simp: struct_value_def comp_def case_prod_unfold)+

lemma struct_value_put_nulls: "struct_value v \<Longrightarrow> struct_value (fold put_null nils v)"
  by (induction nils arbitrary: v) (simp_all add: struct_value_put_null)

section \<open>Acceptance\<close>

lemma RequireSupportedSchemaVersion_Ledger:
  "RequireSupportedSchemaVersion (json_Ledger m) = Inr () \<longleftrightarrow> lg_SchemaVersion m = LedgerSchemaVersion"
proof -
  obtain ms where ms: "json_Ledger m = GoObject ms" by (simp add: json_Ledger_def json_object_def)
  then have "map_of ms ''schema_version'' = Some (GoString (lg_SchemaVersion m))"
    by (cases "lg_Schema m") (auto simp: json_Ledger_def json_object_def json_members_Cons)
  then show ?thesis by (simp add: RequireSupportedSchemaVersion_def ms)
qed

definition valid_ledger :: "service_env \<Rightarrow> ledger \<Rightarrow> bool" where
  "valid_ledger env m \<longleftrightarrow> lg_SchemaVersion m = LedgerSchemaVersion \<and> se_Schema env (json_Ledger m) = Inr [] \<and>
     ValidateSemantics ((se_Semantics env)\<lparr>ev_Artifacts := None\<rparr>) (Some m) = Inr []"

lemma accepted_valid:
  assumes "ValidateProspectiveLedgerModel env nils m = Inr ()" "representable m" "rejects_null env"
  shows "valid_ledger env m"
proof -
  let ?v = "fold put_null nils (json_Ledger m)"
  have v: "struct_value ?v" by (rule struct_value_put_nulls [OF struct_value_Ledger [OF assms(2)]])
  then have "json_Marshal ?v = Some (encq go_quote ?v)"
    using supported_marshals [of ?v] by (simp add: json_Marshal_def struct_value_def)
  with assms(1) obtain d where d: "ParseJSON (Inr (encq go_quote ?v)) DefaultLimits = Inr d"
    "ValidateLedgerDocument env d None = Inr ()"
    by (auto simp: ValidateProspectiveLedgerModel_def split: sum.splits)
  have any: "Any d = ?v" by (rule parse_go_bytes [OF v d(1)])
  from d(2) have s: "RequireSupportedSchemaVersion (Any d) = Inr ()" "se_Schema env (Any d) = Inr []"
    and sem: "case DecodeLedger (Some d) of Inl _ \<Rightarrow> False
      | Inr m \<Rightarrow> ValidateSemantics ((se_Semantics env)\<lparr>ev_Artifacts := None\<rparr>) (Some m) = Inr []"
    by (auto simp: ValidateLedgerDocument_def bindR_eq_Inr_iff split: sum.splits list.splits)
  have "null_free ?v" using s(2) assms(3) by (simp add: rejects_null_def any)
  then have same: "Any d = json_Ledger m" using null_free_put_nulls any by metis
  have "lg_SchemaVersion m = LedgerSchemaVersion"
    using s(1) by (simp add: same RequireSupportedSchemaVersion_Ledger)
  then show ?thesis
    using s(2) sem by (simp add: valid_ledger_def same DecodeLedger_reads [OF assms(2) same])
qed

text \<open>A valid ledger within the parser's limits is accepted: the check refuses nothing else.\<close>

lemma valid_accepted:
  assumes "valid_ledger env m" "representable m" "fits_defaults (json_Ledger m)"
  shows "ValidateProspectiveLedgerModel env [] m = Inr ()"
proof -
  have v: "struct_value (json_Ledger m)" by (rule struct_value_Ledger [OF assms(2)])
  then obtain d where d: "ParseJSON (Inr (encq go_quote (json_Ledger m))) DefaultLimits = Inr d"
    using canonicalJSON_parsed canonicalJSON_ok [OF v assms(3)] by metis
  have any: "Any d = json_Ledger m" by (rule parse_go_bytes [OF v d])
  have "json_Marshal (json_Ledger m) = Some (encq go_quote (json_Ledger m))"
    using v supported_marshals [of "json_Ledger m"] by (simp add: json_Marshal_def struct_value_def)
  moreover have "RequireSupportedSchemaVersion (Any d) = Inr ()"
    using assms(1) by (simp add: any RequireSupportedSchemaVersion_Ledger valid_ledger_def)
  ultimately show ?thesis
    using assms(1) DecodeLedger_reads [OF assms(2) any] d
    by (simp add: ValidateProspectiveLedgerModel_def ValidateLedgerDocument_def any valid_ledger_def)
qed

end
