(* ===== verification/Authoring_History.thy ===== *)
theory Authoring_History
  imports Ledger_Acceptance Sealed_Properties "HOL-Library.Sublist"
begin

text \<open>
  What authoring keeps.  A step of a ledger is one successful operation of \<open>internal/service\<close>;
  whatever steps follow, the ledger stays valid and everything that evidence was or may be taken
  of stays: questions with their identifiers and revisions, forecasts with the projection their
  target is made of, and recorded lifecycle events.
\<close>

section \<open>What is kept\<close>

text \<open>A list grows when it gains elements at its end and each old element only changes as \<open>R\<close> allows.\<close>

definition grows :: "('a \<Rightarrow> 'a \<Rightarrow> bool) \<Rightarrow> 'a list \<Rightarrow> 'a list \<Rightarrow> bool" where
  "grows R xs ys \<longleftrightarrow> length xs \<le> length ys \<and> (\<forall>i<length xs. R (xs ! i) (ys ! i))"

lemma grows_refl: "(\<And>x. R x x) \<Longrightarrow> grows R xs xs"
  by (simp add: grows_def)


lemma grows_append: "(\<And>x. R x x) \<Longrightarrow> grows R xs (xs @ ys)"
  by (simp add: grows_def nth_append)

lemma grows_update: "(\<And>x. R x x) \<Longrightarrow> R (xs ! i) y \<Longrightarrow> grows R xs (xs[i := y])"
  by (simp add: grows_def) (metis nth_list_update_eq nth_list_update_neq)

definition kept_forecast :: "forecast \<Rightarrow> forecast \<Rightarrow> bool" where
  "kept_forecast f f' \<longleftrightarrow> fo_ID f' = fo_ID f \<and> fo_QuestionRevisionID f' = fo_QuestionRevisionID f \<and>
     project f' = project f \<and>
     (\<forall>es. fo_LifecycleEvents f = Some es \<longrightarrow> (\<exists>later. fo_LifecycleEvents f' = Some (es @ later)))"

definition kept_question :: "question \<Rightarrow> question \<Rightarrow> bool" where
  "kept_question q q' \<longleftrightarrow> qu_ID q' = qu_ID q \<and> prefix (qu_Revisions q) (qu_Revisions q') \<and>
     grows kept_forecast (qu_Forecasts q) (qu_Forecasts q')"

definition kept :: "ledger \<Rightarrow> ledger \<Rightarrow> bool" where
  "kept m m' \<longleftrightarrow> grows kept_question (lg_Questions m) (lg_Questions m')"

lemma kept_forecast_refl [simp]: "kept_forecast f f"
  by (simp add: kept_forecast_def)


lemma kept_question_refl [simp]: "kept_question q q"
  by (simp add: kept_question_def grows_refl)


lemma kept_refl [simp]: "kept m m"
  by (simp add: kept_def grows_refl)


subsection \<open>Changes that keep\<close>

lemma kept_questions: "lg_Questions m' = lg_Questions m \<Longrightarrow> kept m m'"
  by (simp add: kept_def grows_refl)

lemma kept_with_question: "kept m (with_question q m)"
  by (simp add: kept_def with_question_def grows_append)

lemma kept_at_question: "kept_question (lg_Questions m ! i) (g (lg_Questions m ! i)) \<Longrightarrow> kept m (at_question i g m)"
  by (simp add: kept_def at_question_def grows_update)

lemma kept_at_forecast:
  assumes "kept_forecast (qu_Forecasts (lg_Questions m ! i) ! j) (g (qu_Forecasts (lg_Questions m ! i) ! j))"
  shows "kept m (at_forecast i j g m)"
  unfolding at_forecast_def using assms by (intro kept_at_question) (simp add: kept_question_def grows_update)

lemma kept_question_append: "kept_question q (q\<lparr>qu_Forecasts := qu_Forecasts q @ [f]\<rparr>)"
  by (simp add: kept_question_def grows_append)

lemma kept_with_revision: "kept_question q (with_revision r q)"
  by (simp add: kept_question_def with_revision_def grows_refl)

lemma kept_question_same:
  "qu_ID q' = qu_ID q \<Longrightarrow> qu_Revisions q' = qu_Revisions q \<Longrightarrow> qu_Forecasts q' = qu_Forecasts q \<Longrightarrow> kept_question q q'"
  by (simp add: kept_question_def grows_refl)

lemma kept_add_event: "kept_forecast f (add_event e f)"
proof -
  have "project (add_event e f) = project f" by (simp add: project_def add_event_def Let_def)
  then show ?thesis by (auto simp: kept_forecast_def add_event_def)
qed

lemma kept_key_hint: "kept_forecast f (with_key_hint k f)"
proof -
  have "project (with_key_hint k f) = project f"
    by (cases "fo_Commitment f")
      (auto simp: project_def with_key_hint_def Let_def commitment_projection_of_def sealed_commitment.defs split: option.split)
  then show ?thesis by (auto simp: kept_forecast_def with_key_hint_def)
qed

lemma kept_revealed:
  assumes "fo_Visibility f = VisibilitySealed" "fo_Commitment f = Some c" "cm_Sealed c = Some s"
  shows "kept_forecast f (revealed_forecast s b revealedAt k f)"
proof -
  have "project (revealed_forecast s b revealedAt k f) = project f"
    using assms by (simp add: project_def revealed_forecast_def Let_def commitment_projection_of_def sealed_commitment.defs
        revealed_commitment.defs)
  then show ?thesis by (auto simp: kept_forecast_def revealed_forecast_def)
qed

section \<open>The steps\<close>


text \<open>What a step does to a ledger that is read back: nothing, or a kept change that is validated.\<close>

definition proper_change :: "service_env \<Rightarrow> ledger \<Rightarrow> ledger \<Rightarrow> bool" where
  "proper_change env m m' \<longleftrightarrow> m' = m \<or> kept m m' \<and> (\<exists>nils. ValidateProspectiveLedgerModel env nils m' = Inr ())"

lemma validated_change: "ValidateProspectiveLedgerModel env nils m' = Inr u \<Longrightarrow> kept m m' \<Longrightarrow> proper_change env m m'"
  by (auto simp: proper_change_def)

text \<open>Success passes every guard.\<close>

lemma succeeds_iff:
  "(case s of Inl e \<Rightarrow> Inl (g e) | Inr x \<Rightarrow> h x) = Inr y \<longleftrightarrow> (\<exists>x. s = Inr x \<and> h x = Inr y)"
  "(case opt of None \<Rightarrow> Inl e | Some a \<Rightarrow> k a) = Inr y \<longleftrightarrow> (\<exists>a. opt = Some a \<and> k a = Inr y)"
  "(if b then Inl e else r) = Inr y \<longleftrightarrow> \<not> b \<and> r = Inr y"
  by (auto split: sum.splits option.splits)

lemmas success = bindR_eq_Inr_iff succeeds_iff Let_def question_mutation_of_def

named_theorems changes "operations change a ledger properly"

lemma append_forecast_change:
  assumes "append_forecast env (Some m) i f = Inr mu" "representable m"
  shows "proper_change env m (mu_Ledger mu)"
  using assms(1)
  by (auto simp: append_forecast_def assms(2) success
      intro!: validated_change kept_at_question kept_question_append)

lemma appendProspectiveQuestion_change:
  assumes "appendProspectiveQuestion env (Some m) nils q = Inr m'" "representable m"
  shows "proper_change env m m'"
  using assms(1)
  by (auto simp: appendProspectiveQuestion_def assms(2) success intro!: validated_change kept_with_question)

lemma terminal_change:
  assumes "buildQuestionTerminalMutation env (Some m) i q s r = Inr mu" "representable m"
  shows "proper_change env m (mu_Ledger mu)"
  using assms(1)
  by (auto simp: buildQuestionTerminalMutation_def assms(2) success question_mutation_of_def
      intro!: validated_change kept_at_question kept_question_same)

lemma forecast_changes [changes]:
  assumes "representable m"
  shows "BuildPublicForecastAppend env (Some m) q f input t = Inr mu \<Longrightarrow> proper_change env m (mu_Ledger mu)"
    and "BuildSealedForecastAppend env source e (Some m) q f input t = (Inr (mu, key), e') \<Longrightarrow> proper_change env m (mu_Ledger mu)"
    and "BuildForecastLifecycle env (Some m) q f kind event t = Inr mu \<Longrightarrow> proper_change env m (mu_Ledger mu)"
proof -
  show "proper_change env m (mu_Ledger mu)" if "BuildPublicForecastAppend env (Some m) q f input t = Inr mu"
    using that assms
    by (auto simp: BuildPublicForecastAppend_def success split: prod.splits if_splits intro: append_forecast_change)
  show "proper_change env m (mu_Ledger mu)" if "BuildSealedForecastAppend env source e (Some m) q f input t = (Inr (mu, key), e')"
    using that assms
    by (auto simp: BuildSealedForecastAppend_def success split: prod.splits option.splits sum.splits intro: append_forecast_change)
  show "proper_change env m (mu_Ledger mu)" if "BuildForecastLifecycle env (Some m) q f kind event t = Inr mu"
    using that
    by (auto simp: BuildForecastLifecycle_def assms success split: if_splits
        intro!: validated_change kept_at_forecast kept_add_event)
qed

lemma selectQuestion_InrD:
  assumes "selectQuestion (Some m) i = Inr (p, q)"
  shows "p < length (lg_Questions m)" "q = lg_Questions m ! p" "qu_ID q = i"
proof -
  from assms obtain ix where ix: "BuildIndex (Some m) = Inr ix" "Index_Question ix i = Some p" "q = lg_Questions m ! p"
    by (auto simp: selectQuestion_def split: sum.splits option.splits)
  obtain ix1 where "index_inv (lg_Questions m) ix1" "ix_QuestionPositions ix = ix_QuestionPositions ix1"
    by (rule BuildIndex_InrE [OF ix(1)])
  with ix(2,3) show "p < length (lg_Questions m)" "q = lg_Questions m ! p" "qu_ID q = i"
    by (auto simp: index_inv_def Index_Question_def)
qed

lemma selectForecast_InrD:
  assumes "selectForecast (Some m) i j = Inr (p, q, k, f)"
  shows "selectQuestion (Some m) i = Inr (p, q)" "k < length (qu_Forecasts q)" "f = qu_Forecasts q ! k" "fo_ID f = j"
  using assms find_index_SomeD
  by (fastforce simp: selectForecast_def success split: option.splits)+

lemma originalSealedCommitment_fresh:
  assumes "originalSealedCommitment f = Inr (s, False)"
  obtains c where "fo_Visibility f = VisibilitySealed" "fo_Commitment f = Some c" "cm_Sealed c = Some s"
  using assms by (auto simp: originalSealedCommitment_def split: option.splits bool.splits)

lemma reveal_change:
  assumes "selectForecast (Some m) q f = Inr (p, qu, k, fo)" "originalSealedCommitment fo = Inr (s, False)"
    "ValidateProspectiveLedgerModel env nils (at_forecast p k (revealed_forecast s bundle t key) m) = Inr u"
  shows "proper_change env m (at_forecast p k (revealed_forecast s bundle t key) m)"
proof (rule validated_change [OF assms(3)])
  obtain c where "fo_Visibility fo = VisibilitySealed" "fo_Commitment fo = Some c" "cm_Sealed c = Some s"
    using originalSealedCommitment_fresh [OF assms(2)] by blast
  moreover have "fo = qu_Forecasts (lg_Questions m ! p) ! k"
    using selectForecast_InrD [OF assms(1)] selectQuestion_InrD by metis
  ultimately show "kept m (at_forecast p k (revealed_forecast s bundle t key) m)"
    by (metis kept_at_forecast kept_revealed)
qed

lemma sealed_changes [changes]:
  assumes "representable m"
  shows "BuildForecastReveal env (Some m) q f key t = Inr mu \<Longrightarrow> proper_change env m (mu_Ledger mu)"
    and "BuildForecastKeyHintUpdate env (Some m) q f hint = Inr mu \<Longrightarrow> proper_change env m (mu_Ledger mu)"
proof -
  show "proper_change env m (mu_Ledger mu)" if "BuildForecastKeyHintUpdate env (Some m) q f hint = Inr mu"
    using that
    by (auto simp: BuildForecastKeyHintUpdate_def assms success proper_change_def split: if_splits intro!: kept_at_forecast kept_key_hint)
  show "proper_change env m (mu_Ledger mu)" if "BuildForecastReveal env (Some m) q f key t = Inr mu"
    using that unfolding BuildForecastReveal_def
    by (auto simp: assms success  proper_change_def [of env m m] split: if_splits intro: reveal_change)
qed

lemma collection_changes [changes]:
  assumes "representable m"
  shows "BuildGroupAdd env (Some m) i new_group = Inr mu \<Longrightarrow> proper_change env m (mu_Ledger mu)"
    and "BuildGroupUpdate env (Some m) i changed = Inr mu \<Longrightarrow> proper_change env m (mu_Ledger mu)"
    and "BuildGroupRemove env (Some m) i = Inr mu \<Longrightarrow> proper_change env m (mu_Ledger mu)"
    and "BuildRelationshipAdd env (Some m) relationship = Inr mu \<Longrightarrow> proper_change env m (mu_Ledger mu)"
    and "BuildRelationshipRemove env (Some m) i = Inr mu \<Longrightarrow> proper_change env m (mu_Ledger mu)"
  unfolding BuildGroupAdd_def BuildGroupUpdate_def BuildGroupRemove_def BuildRelationshipAdd_def BuildRelationshipRemove_def
  by (auto simp: assms success intro!: validated_change kept_questions)

lemma question_changes [changes]:
  assumes "representable m"
  shows "BuildQuestionWithoutForecast env (Some m) question t = Inr qmu \<Longrightarrow> proper_change env m (mu_Ledger qmu)"
    and "BuildQuestionAddPublic env (Some m) question t = Inr qmu \<Longrightarrow> proper_change env m (mu_Ledger qmu)"
    and "BuildQuestionAddSealed env source e (Some m) question t = (Inr (qmu, key), e') \<Longrightarrow> proper_change env m (mu_Ledger qmu)"
proof -
  show "proper_change env m (mu_Ledger qmu)" if "BuildQuestionWithoutForecast env (Some m) question t = Inr qmu"
    using that assms
    by (auto simp: BuildQuestionWithoutForecast_def success intro: appendProspectiveQuestion_change)
  show "proper_change env m (mu_Ledger qmu)" if "BuildQuestionAddPublic env (Some m) question t = Inr qmu"
    using that assms
    by (auto simp: BuildQuestionAddPublic_def BuildQuestionWithInitialPublicForecast_def success intro: appendProspectiveQuestion_change)
  show "proper_change env m (mu_Ledger qmu)" if "BuildQuestionAddSealed env source e (Some m) question t = (Inr (qmu, key), e')"
    using that assms
    by (auto simp: BuildQuestionAddSealed_def sealed_question_def success
        split: option.splits sum.splits prod.splits intro: appendProspectiveQuestion_change)
qed

lemma workflow_changes [changes]:
  assumes "representable m"
  shows "BuildQuestionUpdate env (Some m) i change = Inr qmu \<Longrightarrow> proper_change env m (mu_Ledger qmu)"
    and "BuildQuestionRevise env local_zone (Some m) i revision t = Inr qmu \<Longrightarrow> proper_change env m (mu_Ledger qmu)"
    and "BuildQuestionResolve env (Some m) i resolution t = Inr qmu \<Longrightarrow> proper_change env m (mu_Ledger qmu)"
    and "BuildQuestionUnresolved env (Some m) i status ending t = Inr qmu \<Longrightarrow> proper_change env m (mu_Ledger qmu)"
    and "BuildQuestionNotApplicable env (Some m) i reason t = Inr qmu \<Longrightarrow> proper_change env m (mu_Ledger qmu)"
proof -
  show "proper_change env m (mu_Ledger qmu)" if "BuildQuestionUpdate env (Some m) i change = Inr qmu"
    using that
    by (clarsimp simp: BuildQuestionUpdate_def assms success split del: if_split)
      (erule validated_change, rule kept_at_question, rule kept_question_same; simp)
  show "proper_change env m (mu_Ledger qmu)" if "BuildQuestionRevise env local_zone (Some m) i revision t = Inr qmu"
    using that unfolding BuildQuestionRevise_def
    by (auto simp: assms success split: if_splits
        intro!: validated_change kept_at_question kept_with_revision)
  show "proper_change env m (mu_Ledger qmu)" if "BuildQuestionResolve env (Some m) i resolution t = Inr qmu"
    using that assms by (auto simp: BuildQuestionResolve_def success intro: terminal_change)
  show "proper_change env m (mu_Ledger qmu)" if "BuildQuestionUnresolved env (Some m) i status ending t = Inr qmu"
    using that assms by (auto simp: BuildQuestionUnresolved_def success intro: terminal_change)
  show "proper_change env m (mu_Ledger qmu)" if "BuildQuestionNotApplicable env (Some m) i reason t = Inr qmu"
    using that assms by (auto simp: BuildQuestionNotApplicable_def success intro: terminal_change)
qed


section \<open>Histories\<close>






section \<open>Targets\<close>



















end
