(* ===== verification/JSON_Syntax.thy ===== *)
theory JSON_Syntax
  imports Go_JSON
begin

text \<open>
  The concrete syntax of JSON documents.  A tree keeps the text of its tokens and the white space
  and delimiters between them, so that the bytes, the value and the source ranges of a document are
  functions of one tree; the theory shows that the parser finds such a tree in every document it
  accepts and that the tree is the only one with these bytes.
\<close>

section \<open>Trees\<close>

text \<open>
  Before a value stands its lead: white space, and the comma when another value precedes it.  A
  member has its lead, the text of its key, the key, and the colon with the space around it.
\<close>

datatype cst =
    Token go_value string
  | Elements "(string \<times> cst) list" string
  | Members "((string \<times> string \<times> string \<times> string) \<times> cst) list" string

type_synonym member_head = "string \<times> string \<times> string \<times> string"

definition head_text :: "member_head \<Rightarrow> string" where
  "head_text h = (case h of (l, kt, k, col) \<Rightarrow> l @ kt @ col)"

definition head_key :: "member_head \<Rightarrow> string" where
  "head_key h = (case h of (l, kt, k, col) \<Rightarrow> k)"

lemma heads [simp]: "head_text (l, kt, k, col) = l @ kt @ col" "head_key (l, kt, k, col) = k"
  by (simp_all add: head_text_def head_key_def)

fun cst_text :: "cst \<Rightarrow> string" where
  "cst_text (Token v s) = s"
| "cst_text (Elements xs w) = CHR ''['' # concat (map (\<lambda>(l, c). l @ cst_text c) xs) @ w @ '']''"
| "cst_text (Members ms w) = CHR ''{'' # concat (map (\<lambda>(h, c). head_text h @ cst_text c) ms) @ w @ ''}''"

fun cst_value :: "cst \<Rightarrow> go_value" where
  "cst_value (Token v s) = v"
| "cst_value (Elements xs w) = GoArray (map (\<lambda>(l, c). cst_value c) xs)"
| "cst_value (Members ms w) = GoObject (map (\<lambda>(h, c). (head_key h, cst_value c)) ms)"

definition element_text :: "string \<times> cst \<Rightarrow> string" where
  "element_text x = fst x @ cst_text (snd x)"

definition member_text :: "member_head \<times> cst \<Rightarrow> string" where
  "member_text m = head_text (fst m) @ cst_text (snd m)"

lemma cst_text_collections [simp]:
  "cst_text (Elements xs w) = CHR ''['' # concat (map element_text xs) @ w @ '']''"
  "cst_text (Members ms w) = CHR ''{'' # concat (map member_text ms) @ w @ ''}''"
  by (auto simp: element_text_def member_text_def case_prod_unfold intro!: arg_cong [of _ _ concat] map_cong)

declare cst_text.simps(2,3) [simp del]

lemma part_texts [simp]: "element_text (l, c) = l @ cst_text c" "member_text (h, c) = head_text h @ cst_text c"
  by (simp_all add: element_text_def member_text_def)

text \<open>The located value: where each part stands when the text begins at an offset.\<close>

fun locate_token :: "source_range \<Rightarrow> go_value \<Rightarrow> doc_value" where
  "locate_token r (GoBool b) = ValueBool r b"
| "locate_token r (GoInt i) = ValueInt r i"
| "locate_token r (GoString s) = ValueString r s"
| "locate_token r v = ValueNull r"

function (sequential) locate :: "nat \<Rightarrow> cst \<Rightarrow> doc_value"
  and locate_elements :: "nat \<Rightarrow> (string \<times> cst) list \<Rightarrow> doc_value list"
  and locate_members :: "nat \<Rightarrow> (member_head \<times> cst) list \<Rightarrow> (string \<times> doc_value) list" where
  "locate n (Token v s) = locate_token (n, n + length s) v"
| "locate n (Elements xs w) = ValueArray (n, n + length (cst_text (Elements xs w))) (locate_elements (Suc n) xs)"
| "locate n (Members ms w) = ValueObject (n, n + length (cst_text (Members ms w))) (locate_members (Suc n) ms)"
| "locate_elements n [] = []"
| "locate_elements n ((l, c) # xs) = locate (n + length l) c # locate_elements (n + length l + length (cst_text c)) xs"
| "locate_members n [] = []"
| "locate_members n ((h, c) # ms) =
     (head_key h, locate (n + length (head_text h)) c) # locate_members (n + length (head_text h) + length (cst_text c)) ms"
  by pat_completeness auto
termination
  by (relation "measure (\<lambda>x. case x of Inl (n, c) \<Rightarrow> size c | Inr (Inl (n, xs)) \<Rightarrow> size_list (size_prod (\<lambda>_. 0) size) xs
        | Inr (Inr (n, ms)) \<Rightarrow> size_list (size_prod (\<lambda>_. 0) size) ms)") auto

section \<open>Correct trees\<close>

definition space :: "string \<Rightarrow> bool" where
  "space s \<longleftrightarrow> list_all is_space s"

text \<open>What may follow a number.\<close>

definition ended :: "string \<Rightarrow> bool" where
  "ended r \<longleftrightarrow> r = [] \<or> is_space (hd r) \<or> hd r \<in> {CHR '','', CHR '']'', CHR ''}''}"

definition string_token :: "string \<Rightarrow> string \<Rightarrow> bool" where
  "string_token k s \<longleftrightarrow> (\<exists>b. s = char_of (34::nat) # b \<and> (\<forall>r. lex_string (b @ r) = Some (k, r)))"

definition number_token :: "int \<Rightarrow> string \<Rightarrow> bool" where
  "number_token i s \<longleftrightarrow> s \<noteq> [] \<and> (hd s = CHR ''-'' \<or> is_digit (hd s)) \<and> int_text s = i \<and>
     (\<forall>r. ended r \<longrightarrow> lex_number (s @ r) = Some (s, r))"

fun token_ok :: "go_value \<Rightarrow> string \<Rightarrow> bool" where
  "token_ok GoNull s \<longleftrightarrow> s = ''null''"
| "token_ok (GoBool b) s \<longleftrightarrow> s = (if b then ''true'' else ''false'')"
| "token_ok (GoInt i) s \<longleftrightarrow> number_token i s"
| "token_ok (GoString k) s \<longleftrightarrow> string_token k s"
| "token_ok v s \<longleftrightarrow> False"

definition lead_ok :: "char option \<Rightarrow> string \<Rightarrow> bool" where
  "lead_ok d l \<longleftrightarrow> (case d of None \<Rightarrow> space l | Some x \<Rightarrow> \<exists>a b. l = a @ x # b \<and> space a \<and> space b)"

abbreviation comma :: "bool \<Rightarrow> char option" where
  "comma first \<equiv> (if first then None else Some CHR '','')"

fun leads_ok :: "bool \<Rightarrow> string list \<Rightarrow> bool" where
  "leads_ok first [] \<longleftrightarrow> True"
| "leads_ok first (l # ls) \<longleftrightarrow> lead_ok (comma first) l \<and> leads_ok False ls"

definition head_ok :: "member_head \<Rightarrow> bool" where
  "head_ok h \<longleftrightarrow> (case h of (l, kt, k, col) \<Rightarrow> string_token k kt \<and> lead_ok (Some CHR '':'') col)"

lemma head_ok_simp [simp]: "head_ok (l, kt, k, col) \<longleftrightarrow> string_token k kt \<and> lead_ok (Some CHR '':'') col"
  by (simp add: head_ok_def)

fun cst_ok :: "cst \<Rightarrow> bool" where
  "cst_ok (Token v s) \<longleftrightarrow> token_ok v s"
| "cst_ok (Elements xs w) \<longleftrightarrow> space w \<and> leads_ok True (map fst xs) \<and> (\<forall>(l, c)\<in>set xs. cst_ok c)"
| "cst_ok (Members ms w) \<longleftrightarrow> space w \<and> leads_ok True (map (fst \<circ> fst) ms) \<and> distinct (map (head_key \<circ> fst) ms) \<and>
     (\<forall>(h, c)\<in>set ms. head_ok h \<and> cst_ok c)"

lemma space_append [simp]: "space (a @ b) \<longleftrightarrow> space a \<and> space b" "space []" "space (c # a) \<longleftrightarrow> is_space c \<and> space a"
  by (auto simp: space_def)

lemma Any_locate_token: "token_ok v s \<Longrightarrow> Any (locate_token r v) = v"
  by (cases v) auto

lemma Any_locate:
  "cst_ok c \<Longrightarrow> Any (locate n c) = cst_value c"
  "(\<forall>(l, c)\<in>set xs. cst_ok c) \<Longrightarrow> map Any (locate_elements n xs) = map (\<lambda>(l, c). cst_value c) xs"
  "(\<forall>(h, c)\<in>set ms. cst_ok c) \<Longrightarrow>
     map (\<lambda>(k, v). (k, Any v)) (locate_members n ms) = map (\<lambda>(h, c). (head_key h, cst_value c)) ms"
  by (induction n c and n xs and n ms rule: locate_locate_elements_locate_members.induct)
    (auto simp: Any_locate_token)

section \<open>The lexer reads tokens wherever they stand\<close>

lemma to_token_lead:
  assumes "to_token d s = Some t"
  obtains l where "s = l @ t" "lead_ok d l"
proof -
  have split: "s = takeWhile is_space s @ skip_space s" "space (takeWhile is_space s)" for s
    by (auto simp: skip_space_def space_def list_all_iff dest: set_takeWhileD)
  show thesis
  proof (cases d)
    case None
    then have "t = skip_space s" using assms by (simp add: to_token_def)
    with split [of s] None show thesis using that [of "takeWhile is_space s"] by (simp add: lead_ok_def)
  next
    case (Some x)
    then obtain u where u: "skip_space s = x # u" "t = skip_space u"
      using assms by (auto simp: to_token_def split: list.splits if_splits)
    let ?a = "takeWhile is_space s" and ?b = "takeWhile is_space u"
    have "s = ?a @ x # ?b @ t" using split(1) [of s] split(1) [of u] u by metis
    moreover have "lead_ok d (?a @ x # ?b)" unfolding lead_ok_def Some option.case using split(2) by blast
    ultimately show thesis using that [of "?a @ x # ?b"] by simp
  qed
qed

text \<open>What a token consumes holds no line end.\<close>

abbreviation one_line :: "string \<Rightarrow> bool" where
  "one_line b \<equiv> CHR 0x0A \<notin> set b"

lemma hex_value_newline [simp]: "hex_value CHR 0x0A = None"
  by code_simp

lemma hex4_local: "hex4 s = Some (n, t) \<Longrightarrow> \<exists>b. s = b @ t \<and> one_line b \<and> (\<forall>r. hex4 (b @ r) = Some (n, r))"
proof (induction s rule: hex4.induct)
  case (1 a b c d s)
  then have "t = s" by (auto split: option.splits)
  moreover have "one_line [a, b, c, d]" using 1 by (auto split: option.splits)
  ultimately show ?case using 1 by (intro exI [of _ "[a, b, c, d]"]) (auto split: option.splits)
qed auto

lemma lex_unicode_local:
  assumes "lex_unicode s = Some (u, t)"
  shows "\<exists>b. s = b @ t \<and> one_line b \<and> (\<forall>r. lex_unicode (b @ r) = Some (u, r))"
proof -
  from assms obtain n s1 where n: "hex4 s = Some (n, s1)" by (auto simp: lex_unicode_def split: option.splits)
  obtain b where b: "s = b @ s1" "\<And>r. hex4 (b @ r) = Some (n, r)" "one_line b" using hex4_local [OF n] by blast
  note step = assms [unfolded lex_unicode_def n option.case prod.case]
  show ?thesis
  proof (cases "55296 \<le> n \<and> n < 56320")
    case True
    with step obtain x y t' m t'' where s1: "s1 = x # y # t'" "byte x = 92" "y = CHR ''u''" "hex4 t' = Some (m, t'')"
      "56320 \<le> m" "m < 57344" "u = utf8_encode (65536 + (n - 55296) * 1024 + (m - 56320))" "t = t''"
      by (auto split: list.splits if_splits option.splits)
    obtain b' where b': "t' = b' @ t''" "\<And>r. hex4 (b' @ r) = Some (m, r)" "one_line b'" using hex4_local [OF s1(4)] by blast
    have "lex_unicode (b @ x # y # b' @ r) = Some (u, r)" for r
      using True s1 b(2) [of "x # y # b' @ r"] b'(2) by (simp add: lex_unicode_def)
    moreover have "one_line (b @ x # y # b')" using b(3) b'(3) s1(2,3) by (auto simp: of_char_Char)
    ultimately show ?thesis using s1 b(1) b'(1) by (intro exI [of _ "b @ x # y # b'"]) simp
  next
    case False
    with step have "u = utf8_encode n" "t = s1" "\<not> (56320 \<le> n \<and> n < 57344)" by (auto split: if_splits)
    with b False show ?thesis by (intro exI [of _ b]) (auto simp: lex_unicode_def)
  qed
qed

lemma lex_string_local: "lex_string s = Some (t, u) \<Longrightarrow> \<exists>b. s = b @ u \<and> one_line b \<and> (\<forall>r. lex_string (b @ r) = Some (t, r))"
proof (induction s arbitrary: t rule: length_induct)
  case (1 s)
  then obtain c s' where s: "s = c # s'" by (cases s) auto
  note IH = "1.IH" [rule_format]
  have line: "byte c = 34 \<or> byte c = 92 \<or> 32 \<le> byte c \<Longrightarrow> CHR 0x0A \<noteq> c" by (auto simp: of_char_Char)
  show ?case
    using "1.prems" [unfolded s]
  proof (cases rule: lex_string_step)
    case stop
    then show ?thesis by (intro exI [of _ "[c]"]) (simp add: s line)
  next
    case (verbatim t')
    then obtain b where "s' = b @ u" "one_line b" "\<forall>r. lex_string (b @ r) = Some (t', r)" using IH [of s' t'] s by auto
    with verbatim show ?thesis by (intro exI [of _ "c # b"]) (simp add: s line)
  next
    case (rune v s1 s2 t')
    obtain b where b: "s1 = b @ s2" "one_line b" "\<forall>r. lex_unicode (b @ r) = Some (v, r)" using lex_unicode_local [OF rune(3)] by blast
    have "length s2 < length s" using lex_unicode_length [OF rune(3)] rune(2) s by simp
    then obtain b' where "s2 = b' @ u" "one_line b'" "\<forall>r. lex_string (b' @ r) = Some (t', r)" using IH [of s2 t'] rune(4) by auto
    with rune b show ?thesis by (intro exI [of _ "c # CHR ''u'' # b @ b'"]) (simp add: s line)
  next
    case (escape e x s1 t')
    then have "e \<noteq> CHR ''u''" "e \<noteq> CHR 0x0A" by (auto simp: unescaped_def of_char_Char)
    moreover from escape obtain b where "s1 = b @ u" "one_line b" "\<forall>r. lex_string (b @ r) = Some (t', r)" using IH [of s1 t'] s by auto
    ultimately show ?thesis using escape by (intro exI [of _ "c # e # b"]) (simp add: s line)
  qed
qed

lemma string_token_lexed:
  assumes "byte c = 34" "lex_string t = Some (k, u)"
  obtains s where "c # t = s @ u" "string_token k s"
proof -
  obtain b where "t = b @ u" "\<forall>r. lex_string (b @ r) = Some (k, r)" using lex_string_local [OF assms(2)] by blast
  then show thesis using that [of "c # b"] assms(1) byte_eq_char by (auto simp: string_token_def)
qed

lemma string_token_line: "string_token k s \<Longrightarrow> one_line s"
proof -
  assume "string_token k s"
  then obtain b where b: "s = char_of (34::nat) # b" "lex_string (b @ []) = Some (k, [])" by (auto simp: string_token_def)
  have "char_of (34::nat) \<noteq> CHR 0x0A" by code_simp
  then show ?thesis using lex_string_local [OF b(2)] b(1) by auto
qed

lemma ended_no_digit: "ended r \<Longrightarrow> r = [] \<or> \<not> is_digit (hd r) \<and> hd r \<notin> {CHR ''.'', CHR ''e'', CHR ''E''}"
  by (auto simp: ended_def is_space_def is_digit_iff)

lemma takeWhile_ended:
  assumes "list_all is_digit d" "r = [] \<or> \<not> is_digit (hd r)"
  shows "takeWhile is_digit (d @ r) = d" "dropWhile is_digit (d @ r) = r"
  using assms by (induction d) (cases r; simp)+

lemma lex_digits_local: "list_all is_digit d \<Longrightarrow> d \<noteq> [] \<Longrightarrow> r = [] \<or> \<not> is_digit (hd r) \<Longrightarrow> lex_digits (d @ r) = Some (d, r)"
  by (simp add: lex_digits_def takeWhile_ended)

lemma number_token_lexed:
  assumes "lex_number s = Some (x, u)" "\<not> list_ex (\<lambda>c. c \<in> {CHR ''.'', CHR ''e'', CHR ''E''}) x"
  shows "s = x @ u" "number_token (int_text x) x"
proof -
  define q where "q = (case s of c # t \<Rightarrow> if c = CHR ''-'' then ([c], t) else ([], s) | [] \<Rightarrow> ([], s))"
  have q: "s = fst q @ snd q" "fst q = ''-'' \<or> fst q = [] \<and> (snd q = [] \<or> hd (snd q) \<noteq> CHR ''-'')"
    by (auto simp: q_def split: list.split)
  obtain i s2 f s3 e where parts: "lex_integer (snd q) = Some (i, s2)" "lex_fraction s2 = Some (f, s3)"
    "lex_exponent s3 = Some (e, u)" and x: "x = fst q @ i @ f @ e"
    using assms(1) unfolding lex_number_def q_def [symmetric] by (auto simp: Let_def case_prod_beta split: option.splits)
  have i: "snd q = i @ s2" "list_all is_digit i" "i \<noteq> []" "i = ''0'' \<or> hd i \<noteq> CHR ''0''"
  proof -
    obtain c v where s1: "snd q = c # v" using parts(1) by (cases "snd q") (simp_all add: lex_integer_def)
    show "snd q = i @ s2" "list_all is_digit i" "i \<noteq> []" "i = ''0'' \<or> hd i \<noteq> CHR ''0''"
      using parts(1) lex_digits_split [of "snd q" i s2]
      by (auto simp: lex_integer_def s1 is_digit_iff lex_digits_def Let_def split: if_splits)
  qed
  have "f = []" "s3 = s2" using parts(2) assms(2) by (auto simp: x lex_fraction_def split: list.splits if_splits)
  moreover from this have "e = []" "u = s2" using parts(3) assms(2) by (auto simp: x lex_exponent_def split: list.splits if_splits)
  ultimately have x: "x = fst q @ i" "u = s2" using x by simp_all
  then show "s = x @ u" using q(1) i(1) by simp
  have sign: "hd i \<noteq> CHR ''-''" using i(2,3) by (cases i) (auto simp: is_digit_iff)
  have "lex_number (x @ r) = Some (x, r)" if r: "ended r" for r
  proof -
    have "lex_integer (i @ r) = Some (i, r)"
      using i(2-4) ended_no_digit [OF r] lex_digits_local [of i r] by (cases i) (auto simp: lex_integer_def)
    moreover have "lex_fraction r = Some ([], r)" "lex_exponent r = Some ([], r)"
      using ended_no_digit [OF r] by (cases r; auto simp: lex_fraction_def lex_exponent_def)+
    ultimately show ?thesis using q(2) i(3) sign by (cases i) (auto simp: lex_number_def x(1))
  qed
  then show "number_token (int_text x) x"
    using q(2) i(2,3) by (cases i) (auto simp: number_token_def x(1))
qed

section \<open>The parser finds a tree\<close>

definition found :: "nat \<Rightarrow> char option \<Rightarrow> string \<Rightarrow> doc_value \<Rightarrow> string \<Rightarrow> bool" where
  "found srclen d s w r \<longleftrightarrow> (\<exists>l c. s = l @ cst_text c @ r \<and> lead_ok d l \<and> cst_ok c \<and> w = locate (srclen - length s + length l) c)"

definition finds :: "nat \<Rightarrow> value_parser \<Rightarrow> bool" where
  "finds srclen f \<longleftrightarrow>
     (\<forall>ptr d s w s'. f ptr d s = Inr (w, s') \<longrightarrow> length (fst s) \<le> srclen \<longrightarrow> found srclen d (fst s) w (fst s'))"

lemma findsE:
  assumes "finds srclen f" "f ptr d s = Inr (w, s')" "length (fst s) \<le> srclen"
  obtains l c where "fst s = l @ cst_text c @ fst s'" "lead_ok d l" "cst_ok c" "w = locate (srclen - length (fst s) + length l) c"
proof -
  have "found srclen d (fst s) w (fst s')" using assms unfolding finds_def by blast
  then show thesis using that unfolding found_def by blast
qed

lemma skip_space_lead:
  obtains w where "s = w @ skip_space s" "space w"
  using that [of "takeWhile is_space s"]
  by (auto simp: skip_space_def space_def list_all_iff dest: set_takeWhileD)

lemma parseArray_finds:
  assumes "finds srclen f" "parseArray f ptr i s = Inr (vs, s')" "length (fst s) \<le> srclen"
  shows "\<exists>xs w. fst s = concat (map element_text xs) @ w @ CHR '']'' # fst s' \<and> space w \<and> leads_ok (i = 0) (map fst xs) \<and>
    (\<forall>(l, c)\<in>set xs. cst_ok c) \<and> vs = locate_elements (srclen - length (fst s)) xs"
  using assms
proof (induction f ptr i s arbitrary: vs rule: parseArray.induct)
  case (1 f ptr i rest nodes)
  show ?case
  proof (cases "skip_space rest \<noteq> [] \<and> hd (skip_space rest) = CHR '']''")
    case True
    then obtain u where u: "skip_space rest = CHR '']'' # u" by (cases "skip_space rest") auto
    with "1.prems"(2) have "vs = []" "fst s' = u" by (auto simp: parseArray.simps [of _ _ _ rest])
    moreover obtain w where "rest = w @ CHR '']'' # u" "space w" using skip_space_lead [of rest] u by metis
    ultimately show ?thesis by (intro exI [of _ "[]"] exI [of _ w]) simp
  next
    case False
    from False "1.prems"(2) obtain v s1 where v: "f (appendPointer ptr (nat_string i)) (comma (i = 0)) (rest, nodes) = Inr (v, s1)"
      and less: "length (fst s1) < length rest"
      and vs: "bindR (parseArray f ptr (Suc i) s1) (\<lambda>(vs, st'). Inr (v # vs, st')) = Inr (vs, s')"
      by (auto simp: parseArray.simps [of _ _ _ rest] split: if_splits prod.splits)
    from vs obtain vs' where vs': "parseArray f ptr (Suc i) s1 = Inr (vs', s')" "vs = v # vs'" by auto
    obtain l c where c: "rest = l @ cst_text c @ fst s1" "lead_ok (comma (i = 0)) l" "cst_ok c"
      "v = locate (srclen - length rest + length l) c"
      by (rule findsE [OF "1.prems"(1) v]) (use "1.prems"(3) in auto)
    have len: "length rest \<le> srclen" "length (fst s1) \<le> srclen" using "1.prems"(3) less by simp_all
    obtain xs w where xs: "fst s1 = concat (map element_text xs) @ w @ CHR '']'' # fst s'" "space w" "leads_ok False (map fst xs)"
      "\<forall>(l, c)\<in>set xs. cst_ok c" "vs' = locate_elements (srclen - length (fst s1)) xs"
      using "1.IH" [OF False v refl less "1.prems"(1) vs'(1) len(2)] by auto
    have "srclen - length (fst s1) = srclen - length rest + length l + length (cst_text c)"
      using arg_cong [OF c(1), of length] len by simp
    with c xs vs'(2) show ?thesis
      by (intro exI [of _ "(l, c) # xs"] exI [of _ w]) simp
  qed
qed

lemma parseKey_finds:
  assumes "parseKey lim srclen ptr seen s = Inr (key, s')"
  obtains l kt where "fst s = l @ kt @ fst s'" "lead_ok (comma (seen = [])) l" "string_token key kt" "key \<notin> set seen"
proof -
  obtain q t where tok: "to_token (comma (seen = [])) (fst s) = Some (q # t)"
    using assms by (auto simp: parseKey_def split: option.splits list.splits)
  with assms have t: "byte q = 34" "lex_string t = Some (key, fst s')" "key \<notin> set seen"
    by (auto simp: parseKey_def Let_def addNode_def split: option.splits if_splits)
  obtain l where l: "fst s = l @ q # t" "lead_ok (comma (seen = [])) l" using to_token_lead [OF tok] by metis
  obtain kt where "q # t = kt @ fst s'" "string_token key kt" using string_token_lexed [OF t(1,2)] by metis
  with l t(3) show thesis using that [of l kt] by simp
qed

lemma parseObject_finds:
  assumes "finds srclen f" "parseObject lim srclen f ptr seen s = Inr (vs, s')" "length (fst s) \<le> srclen"
  shows "\<exists>ms w. fst s = concat (map member_text ms) @ w @ CHR ''}'' # fst s' \<and> space w \<and>
    leads_ok (seen = []) (map (fst \<circ> fst) ms) \<and> distinct (map (head_key \<circ> fst) ms) \<and>
    set (map (head_key \<circ> fst) ms) \<inter> set seen = {} \<and>
    (\<forall>(h, c)\<in>set ms. head_ok h \<and> cst_ok c) \<and> vs = locate_members (srclen - length (fst s)) ms"
  using assms
proof (induction lim srclen f ptr seen s arbitrary: vs rule: parseObject.induct)
  case (1 lim srclen f ptr seen rest nodes)
  show ?case
  proof (cases "skip_space rest \<noteq> [] \<and> hd (skip_space rest) = CHR ''}''")
    case True
    then obtain u where u: "skip_space rest = CHR ''}'' # u" by (cases "skip_space rest") auto
    with "1.prems"(2) have "vs = []" "fst s' = u" by (auto simp: parseObject.simps [of _ _ _ _ _ rest])
    moreover obtain w where "rest = w @ CHR ''}'' # u" "space w" using skip_space_lead [of rest] u by metis
    ultimately show ?thesis by (intro exI [of _ "[]"] exI [of _ w]) simp
  next
    case False
    from False "1.prems"(2) obtain key s1 v s2 where key: "parseKey lim srclen ptr seen (rest, nodes) = Inr (key, s1)"
      and v: "f (appendPointer ptr key) (Some CHR '':'') s1 = Inr (v, s2)"
      and less: "length (fst s2) < length rest"
      and vs: "bindR (parseObject lim srclen f ptr (key # seen) s2) (\<lambda>(ms, st''). Inr ((key, v) # ms, st'')) = Inr (vs, s')"
      unfolding parseObject.simps [of _ _ _ _ _ rest] bindR_eq_Inr_iff if_not_P [OF False]
      by (auto simp: bindR_eq_Inr_iff split: if_splits)
    from vs obtain vs' where vs': "parseObject lim srclen f ptr (key # seen) s2 = Inr (vs', s')" "vs = (key, v) # vs'" by auto
    obtain l kt where k: "rest = l @ kt @ fst s1" "lead_ok (comma (seen = [])) l" "string_token key kt" "key \<notin> set seen"
      using parseKey_finds [OF key] by (metis fst_conv)
    have len: "length (fst s1) \<le> srclen" "length (fst s2) \<le> srclen" using "1.prems"(3) less k(1) by simp_all
    obtain col c where c: "fst s1 = col @ cst_text c @ fst s2" "lead_ok (Some CHR '':'') col" "cst_ok c"
      "v = locate (srclen - length (fst s1) + length col) c"
      by (rule findsE [OF "1.prems"(1) v len(1)])
    obtain ms w where ms: "fst s2 = concat (map member_text ms) @ w @ CHR ''}'' # fst s'" "space w" "leads_ok (key # seen = []) (map (fst \<circ> fst) ms)"
      "distinct (map (head_key \<circ> fst) ms)" "set (map (head_key \<circ> fst) ms) \<inter> set (key # seen) = {}"
      "\<forall>(h, c)\<in>set ms. head_ok h \<and> cst_ok c" "vs' = locate_members (srclen - length (fst s2)) ms"
      using "1.IH" [OF False key refl v refl less "1.prems"(1) vs'(1) len(2)] by blast
    let ?h = "(l, kt, key, col)"
    have "srclen - length (fst s2) = srclen - length rest + length (head_text ?h) + length (cst_text c)"
      "srclen - length (fst s1) + length col = srclen - length rest + length (head_text ?h)"
      using arg_cong [OF k(1), of length] arg_cong [OF c(1), of length] "1.prems"(3) by (simp_all add: head_text_def)
    then have "vs = locate_members (srclen - length rest) ((?h, c) # ms)"
      by (simp only: vs'(2) c(4) ms(7) locate_members.simps heads)
    moreover have "rest = concat (map member_text ((?h, c) # ms)) @ w @ CHR ''}'' # fst s'" using k(1) c(1) ms(1) by simp
    moreover have "leads_ok (seen = []) (map (fst \<circ> fst) ((?h, c) # ms))" "distinct (map (head_key \<circ> fst) ((?h, c) # ms))"
      "set (map (head_key \<circ> fst) ((?h, c) # ms)) \<inter> set seen = {}" "\<forall>(h, c)\<in>set ((?h, c) # ms). head_ok h \<and> cst_ok c"
      using k(2-4) c(2,3) ms(3-6) by auto
    ultimately show ?thesis using ms(2) unfolding fst_conv by blast
  qed
qed

lemma found_token:
  assumes "to_token d s = Some (c # t)" "c # t = x @ r" "token_ok v x" "length s \<le> srclen"
  shows "found srclen d s (locate_token (srclen - length (c # t), srclen - length r) v) r"
proof -
  obtain l where l: "s = l @ c # t" "lead_ok d l" using to_token_lead [OF assms(1)] by metis
  then have "srclen - length (c # t) = srclen - length s + length l" "srclen - length r = srclen - length s + length l + length x"
    using assms(2,4) arg_cong [OF assms(2), of length] by (simp_all del: length_Cons)
  with l assms(2,3) show ?thesis unfolding found_def
    by (intro exI [of _ l] exI [of _ "Token v x"]) (simp del: length_Cons)
qed

lemma parseValue_finds: "finds srclen (parseValue lim srclen k)"
proof (induction k)
  case (Suc k)
  show ?case
    unfolding finds_def
  proof (intro allI impI)
    fix ptr d s w s'
    assume run: "parseValue lim srclen (Suc k) ptr d s = Inr (w, s')" and len: "length (fst s) \<le> srclen"
    from run show "found srclen d (fst s) w (fst s')"
    proof (cases rule: parseValue_token)
      case (null c t)
      with found_token [OF null(1,2), of GoNull] len show ?thesis by simp
    next
      case (bool c t b)
      with found_token [OF bool(1,2), of "GoBool b"] len show ?thesis by simp
    next
      case (str c t v)
      obtain x where "c # t = x @ fst s'" "string_token v x" using string_token_lexed [OF str(2,3)] by metis
      with found_token [OF str(1), of x _ "GoString v"] len str(4) show ?thesis by simp
    next
      case (num c t v)
      note x = number_token_lexed [OF num(2,4)]
      with found_token [OF num(1) x(1), of "GoInt (int_text v)"] len num(3) show ?thesis by simp
    next
      case (obj c t ms)
      obtain l where l: "fst s = l @ c # t" "lead_ok d l" using to_token_lead [OF obj(1)] by metis
      then have "length (fst (t, Suc (snd s))) \<le> srclen" using len by simp
      from parseObject_finds [OF Suc obj(3) this] obtain xs v where xs: "t = concat (map member_text xs) @ v @ CHR ''}'' # fst s'"
        "cst_ok (Members xs v)" "ms = locate_members (srclen - length t) xs"
        by auto
      let ?c = "Members xs v"
      have whole: "fst s = l @ cst_text ?c @ fst s'" using l(1) xs(1) obj(2) by simp
      have "srclen - length (c # t) = srclen - length (fst s) + length l"
        "srclen - length t = Suc (srclen - length (fst s) + length l)" using len l(1) by simp_all
      moreover have "srclen - length (fst s') = srclen - length (fst s) + length l + length (cst_text ?c)"
        using len arg_cong [OF whole, of length] by simp
      ultimately have "w = locate (srclen - length (fst s) + length l) ?c" by (simp only: obj(4) xs(3) locate.simps)
      with whole show ?thesis using l(2) xs(2) unfolding found_def by blast
    next
      case (arr c t vs)
      obtain l where l: "fst s = l @ c # t" "lead_ok d l" using to_token_lead [OF arr(1)] by metis
      then have "length (fst (t, Suc (snd s))) \<le> srclen" using len by simp
      from parseArray_finds [OF Suc arr(3) this] obtain xs v where xs: "t = concat (map element_text xs) @ v @ CHR '']'' # fst s'"
        "cst_ok (Elements xs v)" "vs = locate_elements (srclen - length t) xs"
        by auto
      let ?c = "Elements xs v"
      have whole: "fst s = l @ cst_text ?c @ fst s'" using l(1) xs(1) arr(2) by simp
      have "srclen - length (c # t) = srclen - length (fst s) + length l"
        "srclen - length t = Suc (srclen - length (fst s) + length l)" using len l(1) by simp_all
      moreover have "srclen - length (fst s') = srclen - length (fst s) + length l + length (cst_text ?c)"
        using len arg_cong [OF whole, of length] by simp
      ultimately have "w = locate (srclen - length (fst s) + length l) ?c" by (simp only: arr(4) xs(3) locate.simps)
      with whole show ?thesis using l(2) xs(2) unfolding found_def by blast
    qed
  qed
qed (simp add: finds_def parseValue.simps)

section \<open>Bytes determine the tree\<close>

lemma space_split:
  "space a \<Longrightarrow> space b \<Longrightarrow> \<not> is_space x \<Longrightarrow> \<not> is_space y \<Longrightarrow> a @ x # r = b @ y # s \<Longrightarrow> a = b \<and> x = y \<and> r = s"
proof (induction a arbitrary: b)
  case Nil
  then show ?case by (cases b) auto
next
  case (Cons c a)
  then show ?case by (cases b) auto
qed

lemma comma_not_space [simp]: "\<not> is_space CHR '',''" "\<not> is_space CHR '':''" "\<not> is_space CHR '']''" "\<not> is_space CHR ''}''"
  by (simp_all add: is_space_def)

lemma value_startD: "value_start c \<Longrightarrow> \<not> is_space c \<and> c \<noteq> CHR '','' \<and> c \<noteq> CHR '':'' \<and> c \<noteq> CHR '']'' \<and> c \<noteq> CHR ''}''"
  by (simp add: value_start_def)

lemma lead_split:
  assumes "lead_ok d l" "lead_ok d l'" "value_start x" "value_start y" "l @ x # r = l' @ y # s"
    and "d = None \<or> d = Some CHR '','' \<or> d = Some CHR '':''"
  shows "l = l' \<and> x # r = y # s"
proof (cases d)
  case None
  then show ?thesis using assms space_split [of l l' x y r s] by (auto simp: lead_ok_def dest!: value_startD)
next
  case (Some z)
  then have z: "\<not> is_space z" using assms(6) by auto
  from Some assms(1,2) obtain a b a' b' where ab: "l = a @ z # b" "l' = a' @ z # b'" "space a" "space b" "space a'" "space b'"
    by (auto simp: lead_ok_def)
  with space_split [of a a' z z "b @ x # r" "b' @ y # s"] z assms(5) have "a = a'" "b @ x # r = b' @ y # s" by auto
  with space_split [of b b' x y r s] ab assms(3,4) show ?thesis by (auto dest!: value_startD)
qed

lemma lead_no_close:
  assumes "lead_ok (comma first) l" "value_start x" "space w" "y = CHR '']'' \<or> y = CHR ''}''" "w @ y # r = l @ x # s"
  shows False
proof (cases first)
  case True
  then show False using assms space_split [of w l y x r s] by (auto simp: lead_ok_def dest!: value_startD)
next
  case False
  then obtain a b where "l = a @ CHR '','' # b" "space a" using assms(1) by (auto simp: lead_ok_def)
  then show False using assms space_split [of w a y "CHR '',''" r "b @ x # s"] by auto
qed

lemma string_token_start: "string_token k s \<Longrightarrow> \<exists>t. s = char_of (34::nat) # t"
  by (auto simp: string_token_def)

lemma string_token_split:
  assumes "string_token k s" "string_token k' s'" "s @ r = s' @ r'"
  shows "k = k' \<and> s = s' \<and> r = r'"
proof -
  obtain b where b: "s = char_of (34::nat) # b" "\<And>r. lex_string (b @ r) = Some (k, r)"
    using assms(1) by (auto simp: string_token_def)
  obtain b' where b': "s' = char_of (34::nat) # b'" "\<And>r. lex_string (b' @ r) = Some (k', r)"
    using assms(2) by (auto simp: string_token_def)
  have "b @ r = b' @ r'" using assms(3) b(1) b'(1) by simp
  with b(2) [of r] b'(2) [of r'] have "k = k'" "r = r'" by simp_all
  with assms(3) show ?thesis by simp
qed

lemma number_token_split:
  assumes "number_token i s" "number_token i' s'" "s @ r = s' @ r'" "ended r" "ended r'"
  shows "i = i' \<and> s = s' \<and> r = r'"
proof -
  have "Some (s, r) = Some (s', r')" using assms unfolding number_token_def by metis
  then show ?thesis using assms(1,2) by (auto simp: number_token_def)
qed

text \<open>The first byte tells which kind of tree a text is of.\<close>

fun kind :: "cst \<Rightarrow> char \<Rightarrow> bool" where
  "kind (Token GoNull s) c \<longleftrightarrow> c = CHR ''n''"
| "kind (Token (GoBool b) s) c \<longleftrightarrow> c = (if b then CHR ''t'' else CHR ''f'')"
| "kind (Token (GoInt i) s) c \<longleftrightarrow> c = CHR ''-'' \<or> is_digit c"
| "kind (Token (GoString k) s) c \<longleftrightarrow> c = char_of (34::nat)"
| "kind (Token v s) c \<longleftrightarrow> False"
| "kind (Elements xs w) c \<longleftrightarrow> c = CHR ''[''"
| "kind (Members ms w) c \<longleftrightarrow> c = CHR ''{''"

lemma cst_text_start:
  assumes "cst_ok c"
  obtains x t where "cst_text c = x # t" "kind c x" "value_start x"
proof -
  have start: "value_start x" if "kind c x" for x
  proof -
    have "value_start CHR ''n''" "value_start CHR ''t''" "value_start CHR ''f''" "value_start CHR ''-''"
      "value_start CHR ''[''" "value_start CHR ''{''" "value_start (char_of (34::nat))" by code_simp+
    with that value_start_digit show ?thesis by (cases "(c, x)" rule: kind.cases) (auto split: if_splits)
  qed
  have "\<exists>x t. cst_text c = x # t \<and> kind c x"
  proof (cases c)
    case (Token v s)
    with assms show ?thesis
      by (cases v; cases s) (auto simp: number_token_def dest: string_token_start split: if_splits)
  qed auto
  with start that show thesis by blast
qed

definition determined :: "cst \<Rightarrow> bool" where
  "determined c \<longleftrightarrow> (\<forall>c' r r'. cst_ok c \<longrightarrow> cst_ok c' \<longrightarrow> ended r \<longrightarrow> ended r' \<longrightarrow>
     cst_text c @ r = cst_text c' @ r' \<longrightarrow> c = c' \<and> r = r')"

lemma determinedD:
  "determined c \<Longrightarrow> cst_ok c \<Longrightarrow> cst_ok c' \<Longrightarrow> ended r \<Longrightarrow> ended r' \<Longrightarrow> cst_text c @ r = cst_text c' @ r' \<Longrightarrow> c = c' \<and> r = r'"
  unfolding determined_def by blast

lemma lead_ended:
  assumes "lead_ok (Some CHR '','') l"
  shows "ended (l @ r)"
proof -
  obtain a b where "l = a @ CHR '','' # b" "space a" using assms by (auto simp: lead_ok_def)
  then show ?thesis by (cases a) (auto simp: ended_def)
qed

lemma close_ended: "space w \<Longrightarrow> x = CHR '']'' \<or> x = CHR ''}'' \<Longrightarrow> ended (w @ x # r)"
  by (cases w) (auto simp: ended_def)

lemma elements_ended:
  "leads_ok False (map fst xs) \<Longrightarrow> space w \<Longrightarrow> ended (concat (map element_text xs) @ w @ CHR '']'' # r)"
  by (cases xs) (simp_all add: close_ended lead_ended element_text_def)

lemma members_ended:
  "leads_ok False (map (fst \<circ> fst) ms) \<Longrightarrow> space w \<Longrightarrow> ended (concat (map member_text ms) @ w @ CHR ''}'' # r)"
  by (cases ms) (simp_all add: close_ended lead_ended member_text_def head_text_def case_prod_unfold)

lemma elements_determined:
  assumes "\<forall>(l, c)\<in>set xs. determined c \<and> cst_ok c" "\<forall>(l, c)\<in>set ys. cst_ok c"
    "leads_ok first (map fst xs)" "leads_ok first (map fst ys)" "space w" "space v"
    "concat (map element_text xs) @ w @ CHR '']'' # r = concat (map element_text ys) @ v @ CHR '']'' # s"
  shows "xs = ys \<and> w = v \<and> r = s"
  using assms
proof (induction xs arbitrary: ys first)
  case Nil
  show ?case
  proof (cases ys)
    case Nil
    with Nil.prems show ?thesis using space_split [of w v "CHR '']''" "CHR '']''" r s] by simp
  next
    case (Cons y ys')
    obtain l c where y: "y = (l, c)" by (cases y)
    have "cst_ok c" using Nil.prems(2) Cons y by simp
    then obtain x t where x: "cst_text c = x # t" "value_start x" using cst_text_start by blast
    have False
      by (rule lead_no_close [OF _ x(2) Nil.prems(5), of first l "CHR '']''" r "t @ concat (map element_text ys') @ v @ CHR '']'' # s"])
        (use Nil.prems(4,7) Cons y x(1) in simp_all)
    then show ?thesis ..
  qed
next
  case (Cons a xs)
  obtain l c where a: "a = (l, c)" by (cases a)
  have "cst_ok c" using Cons.prems(1) a by simp
  then obtain x t where x: "cst_text c = x # t" "value_start x" using cst_text_start by blast
  show ?case
  proof (cases ys)
    case Nil
    have False
      by (rule lead_no_close [OF _ x(2) Cons.prems(6), of first l "CHR '']''" s "t @ concat (map element_text xs) @ w @ CHR '']'' # r"])
        (use Cons.prems(3,7) a Nil x(1) in simp_all)
    then show ?thesis ..
  next
    case (Cons b ys')
    obtain l' c' where b: "b = (l', c')" by (cases b)
    have "cst_ok c'" using Cons.prems(2) Cons b by simp
    then obtain y u where y: "cst_text c' = y # u" "value_start y" using cst_text_start by blast
    let ?r = "concat (map element_text xs) @ w @ CHR '']'' # r" and ?s = "concat (map element_text ys') @ v @ CHR '']'' # s"
    have leads: "lead_ok (comma first) l" "lead_ok (comma first) l'" "leads_ok False (map fst xs)" "leads_ok False (map fst ys')"
      using Cons.prems(3,4) a b Cons by simp_all
    have eq: "l @ cst_text c @ ?r = l' @ cst_text c' @ ?s" using Cons.prems(7) a b Cons by simp
    then have l: "l = l'" "cst_text c @ ?r = cst_text c' @ ?s"
      using lead_split [OF leads(1,2) x(2) y(2), of "t @ ?r" "u @ ?s"] by (auto simp: x(1) y(1))
    have "c = c' \<and> ?r = ?s"
      by (rule determinedD [OF _ _ _ elements_ended elements_ended l(2)]) (use Cons.prems a b Cons leads in auto)
    moreover from this have "xs = ys' \<and> w = v \<and> r = s"
      using Cons.prems Cons leads by (intro Cons.IH [of ys' False]) auto
    ultimately show ?thesis using a b Cons l(1) by simp
  qed
qed

lemma members_determined:
  assumes "\<forall>(h, c)\<in>set xs. determined c \<and> head_ok h \<and> cst_ok c" "\<forall>(h, c)\<in>set ys. head_ok h \<and> cst_ok c"
    "leads_ok first (map (fst \<circ> fst) xs)" "leads_ok first (map (fst \<circ> fst) ys)" "space w" "space v"
    "concat (map member_text xs) @ w @ CHR ''}'' # r = concat (map member_text ys) @ v @ CHR ''}'' # s"
  shows "xs = ys \<and> w = v \<and> r = s"
  using assms
proof (induction xs arbitrary: ys first)
  case Nil
  show ?case
  proof (cases ys)
    case Nil
    with Nil.prems show ?thesis using space_split [of w v "CHR ''}''" "CHR ''}''" r s] by simp
  next
    case (Cons y ys')
    obtain l kt k col c where y: "y = ((l, kt, k, col), c)" by (metis prod.exhaust)
    have "string_token k kt" using Nil.prems(2) Cons y by simp
    then obtain t where t: "kt = char_of (34::nat) # t" using string_token_start by blast
    have False
      by (rule lead_no_close [OF _ quote_start Nil.prems(5), of first l "CHR ''}''" r
            "t @ col @ cst_text c @ concat (map member_text ys') @ v @ CHR ''}'' # s"])
        (use Nil.prems(4,7) Cons y t in simp_all)
    then show ?thesis ..
  qed
next
  case (Cons a xs)
  obtain l kt k col c where a: "a = ((l, kt, k, col), c)" by (metis prod.exhaust)
  have a_ok: "determined c" "string_token k kt" "lead_ok (Some CHR '':'') col" "cst_ok c" using Cons.prems(1) a by auto
  obtain kt1 where kt: "kt = char_of (34::nat) # kt1" using string_token_start [OF a_ok(2)] by blast
  obtain x t where x: "cst_text c = x # t" "value_start x" using cst_text_start [OF a_ok(4)] by blast
  show ?case
  proof (cases ys)
    case Nil
    have False
      by (rule lead_no_close [OF _ quote_start Cons.prems(6), of first l "CHR ''}''" s
            "kt1 @ col @ cst_text c @ concat (map member_text xs) @ w @ CHR ''}'' # r"])
        (use Cons.prems(3,7) a Nil kt in simp_all)
    then show ?thesis ..
  next
    case (Cons b ys')
    obtain l' kt' k' col' c' where b: "b = ((l', kt', k', col'), c')" by (metis prod.exhaust)
    have b_ok: "string_token k' kt'" "lead_ok (Some CHR '':'') col'" "cst_ok c'" using Cons.prems(2) Cons b by auto
    obtain kt1' where kt': "kt' = char_of (34::nat) # kt1'" using string_token_start [OF b_ok(1)] by blast
    obtain y u where y: "cst_text c' = y # u" "value_start y" using cst_text_start [OF b_ok(3)] by blast
    let ?r = "concat (map member_text xs) @ w @ CHR ''}'' # r" and ?s = "concat (map member_text ys') @ v @ CHR ''}'' # s"
    have leads: "lead_ok (comma first) l" "lead_ok (comma first) l'" "leads_ok False (map (fst \<circ> fst) xs)"
      "leads_ok False (map (fst \<circ> fst) ys')"
      using Cons.prems(3,4) a b Cons by (simp_all add: comp_def)
    have "l @ kt @ col @ cst_text c @ ?r = l' @ kt' @ col' @ cst_text c' @ ?s" using Cons.prems(7) a b Cons by simp
    then have l: "l = l'" "kt @ col @ cst_text c @ ?r = kt' @ col' @ cst_text c' @ ?s"
      using lead_split [OF leads(1,2) quote_start quote_start, of "kt1 @ col @ cst_text c @ ?r" "kt1' @ col' @ cst_text c' @ ?s"]
      by (auto simp: kt kt')
    note k = string_token_split [OF a_ok(2) b_ok(1) l(2)]
    have col: "col = col'" "cst_text c @ ?r = cst_text c' @ ?s"
      using lead_split [OF a_ok(3) b_ok(2) x(2) y(2), of "t @ ?r" "u @ ?s"] k by (auto simp: x(1) y(1))
    have "c = c' \<and> ?r = ?s"
      by (rule determinedD [OF a_ok(1,4) b_ok(3) members_ended members_ended col(2)]) (use Cons.prems leads in auto)
    moreover from this have "xs = ys' \<and> w = v \<and> r = s"
      using Cons.prems Cons leads by (intro Cons.IH [of ys' False]) auto
    ultimately show ?thesis using a b Cons l(1) k col(1) by simp
  qed
qed

fun like :: "go_value \<Rightarrow> go_value \<Rightarrow> bool" where
  "like (GoInt i) w \<longleftrightarrow> (\<exists>j. w = GoInt j)"
| "like (GoString a) w \<longleftrightarrow> (\<exists>b. w = GoString b)"
| "like v w \<longleftrightarrow> v = w"

lemma same_kind:
  assumes "kind c x" "kind c' x"
  shows "(\<exists>v s v' s'. c = Token v s \<and> c' = Token v' s' \<and> like v v') \<or>
    (\<exists>xs w ys v. c = Elements xs w \<and> c' = Elements ys v) \<or> (\<exists>ms w ns v. c = Members ms w \<and> c' = Members ns v)"
proof -
  have "char_of (34::nat) = CHR 0x22" by code_simp
  with assms show ?thesis
    by (cases "(c, x)" rule: kind.cases; cases "(c', x)" rule: kind.cases)
      (auto simp: is_digit_iff split: if_splits)
qed

lemma token_split:
  assumes "token_ok v s" "token_ok v' s'" "like v v'" "s @ r = s' @ r'" "ended r" "ended r'"
  shows "v = v' \<and> s = s' \<and> r = r'"
proof (cases v)
  case (GoInt i)
  with assms number_token_split [of i s _ s' r r'] show ?thesis by fastforce
next
  case (GoString k)
  with assms string_token_split [of k s _ s' r r'] show ?thesis by fastforce
qed (use assms in auto)

lemma cst_determined: "determined c"
proof (induction c rule: cst_text.induct)
  case (1 v s)
  show ?case
    unfolding determined_def
  proof (intro allI impI)
    fix c' r r' assume a: "cst_ok (Token v s)" "cst_ok c'" "ended r" "ended r'" "cst_text (Token v s) @ r = cst_text c' @ r'"
    obtain x t where x: "cst_text (Token v s) = x # t" "kind (Token v s) x" using cst_text_start [OF a(1)] by blast
    obtain y u where y: "cst_text c' = y # u" "kind c' y" using cst_text_start [OF a(2)] by blast
    have "x = y" using a(5) x y by simp
    with same_kind [OF x(2), of c'] y(2) obtain v' s' where "c' = Token v' s'" "like v v'" by auto
    with a token_split [of v s v' s' r r'] show "Token v s = c' \<and> r = r'" by simp
  qed
next
  case (2 xs w)
  then have IH: "\<forall>(l, c)\<in>set xs. determined c" by fastforce
  show ?case
    unfolding determined_def
  proof (intro allI impI)
    fix c' r r' assume a: "cst_ok (Elements xs w)" "cst_ok c'" "ended r" "ended r'" "cst_text (Elements xs w) @ r = cst_text c' @ r'"
    obtain y u where y: "cst_text c' = y # u" "kind c' y" using cst_text_start [OF a(2)] by blast
    with a(5) same_kind [of "Elements xs w" "CHR ''[''" c'] obtain ys v where c': "c' = Elements ys v" by (cases c') auto
    have "xs = ys \<and> w = v \<and> r = r'"
      by (rule elements_determined [of xs ys True]) (use a c' IH in auto)
    with c' show "Elements xs w = c' \<and> r = r'" by simp
  qed
next
  case (3 ms w)
  then have IH: "\<forall>(h, c)\<in>set ms. determined c" by fastforce
  show ?case
    unfolding determined_def
  proof (intro allI impI)
    fix c' r r' assume a: "cst_ok (Members ms w)" "cst_ok c'" "ended r" "ended r'" "cst_text (Members ms w) @ r = cst_text c' @ r'"
    obtain y u where y: "cst_text c' = y # u" "kind c' y" using cst_text_start [OF a(2)] by blast
    with a(5) same_kind [of "Members ms w" "CHR ''{''" c'] obtain ns v where c': "c' = Members ns v" by (cases c') auto
    have "ms = ns \<and> w = v \<and> r = r'"
      by (rule members_determined [of ms ns True]) (use a c' IH in auto)
    with c' show "Members ms w = c' \<and> r = r'" by simp
  qed
qed

section \<open>Documents\<close>

lemma ParseJSON_syntax:
  assumes "ParseJSON (Inr raw) lim = Inr d"
  obtains a c b where "raw = a @ cst_text c @ b" "space a" "space b" "cst_ok c" "d = locate (length a) c"
proof -
  let ?l = "normalizedLimits lim"
  from assms obtain r n where run: "parseValue ?l (length raw) (nat (lm_MaxDepth ?l)) [] None (raw, 0) = Inr (d, (r, n))"
    "skip_space r = []"
    by (auto simp: ParseJSON_def readBounded_def Let_def split: if_splits)
  obtain a c where "raw = a @ cst_text c @ r" "lead_ok None a" "cst_ok c" "d = locate (length raw - length raw + length a) c"
    by (rule findsE [OF parseValue_finds run(1)]) (auto intro: that)
  moreover have "space r" using skip_space_lead [of r] run(2) by (metis append.right_neutral)
  ultimately show thesis using that by (simp add: lead_ok_def)
qed

lemma space_ended: "space b \<Longrightarrow> ended b"
  by (cases b) (auto simp: ended_def)

lemma ParseJSON_text:
  assumes "ParseJSON (Inr (a @ cst_text c @ b)) lim = Inr d" "space a" "space b" "cst_ok c"
  shows "d = locate (length a) c" "Any d = cst_value c"
proof -
  obtain a' c' b' where c': "a @ cst_text c @ b = a' @ cst_text c' @ b'" "space a'" "space b'" "cst_ok c'" "d = locate (length a') c'"
    by (rule ParseJSON_syntax [OF assms(1)])
  obtain x t where x: "cst_text c = x # t" "value_start x" using cst_text_start [OF assms(4)] by blast
  obtain y u where y: "cst_text c' = y # u" "value_start y" using cst_text_start [OF c'(4)] by blast
  have "a = a'" "cst_text c @ b = cst_text c' @ b'"
    using lead_split [of None a a' x y "t @ b" "u @ b'"] assms(2) c'(1,2) x y by (auto simp: lead_ok_def)
  moreover from this(2) have "c = c'"
    using determinedD [OF cst_determined assms(4) c'(4) space_ended space_ended] assms(3) c'(3) by blast
  ultimately show "d = locate (length a) c" using c'(5) by simp
  then show "Any d = cst_value c" using Any_locate(1) [OF assms(4)] by simp
qed

end
