(* ===== verification/Patch_Properties.thy ===== *)
theory Patch_Properties
  imports Document_Patching JSON_Syntax
begin

text \<open>
  Patches of a document and patches of its value.  The abstract operations act on the parsed value;
  the theory shows that the byte edits implement them, and where they do not.
\<close>

section \<open>Patches of values\<close>

fun update_at :: "string list \<Rightarrow> (go_value \<Rightarrow> go_value option) \<Rightarrow> go_value \<Rightarrow> go_value option" where
  "update_at [] f v = f v"
| "update_at (t # ts) f (GoObject ms) =
     (case find_index (\<lambda>m. fst m = t) ms of
        None \<Rightarrow> None
      | Some i \<Rightarrow> map_option (\<lambda>w. GoObject (ms[i := (t, w)])) (update_at ts f (snd (ms ! i))))"
| "update_at (t # ts) f (GoArray vs) =
     (case patchArrayIndex t (length vs) of
        Inl _ \<Rightarrow> None
      | Inr i \<Rightarrow> map_option (\<lambda>w. GoArray (vs[i := w])) (update_at ts f (vs ! i)))"
| "update_at (t # ts) f v = None"

definition add_part :: "string \<Rightarrow> go_value \<Rightarrow> go_value \<Rightarrow> go_value option" where
  "add_part token w v =
     (case v of
        GoObject ms \<Rightarrow> if token \<in> fst ` set ms then None else Some (GoObject (ms @ [(token, w)]))
      | GoArray vs \<Rightarrow> if token = ''-'' then Some (GoArray (vs @ [w])) else None
      | _ \<Rightarrow> None)"

definition remove_part :: "string \<Rightarrow> go_value \<Rightarrow> go_value option" where
  "remove_part token v =
     (case v of
        GoObject ms \<Rightarrow> if token \<in> fst ` set ms then Some (GoObject (filter (\<lambda>m. fst m \<noteq> token) ms)) else None
      | GoArray vs \<Rightarrow>
          (case patchArrayIndex token (length vs) of
             Inl _ \<Rightarrow> None
           | Inr i \<Rightarrow> Some (GoArray (take i vs @ drop (Suc i) vs)))
      | _ \<Rightarrow> None)"

definition patched_value :: "patch_operation \<Rightarrow> go_value \<Rightarrow> go_value option" where
  "patched_value operation v =
     (let tokens = pointerTokens (po_Pointer operation); w = encoded_value (po_Value operation) in
      case po_Kind operation of
        PatchReplace \<Rightarrow> update_at tokens (\<lambda>_. Some w) v
      | PatchAdd \<Rightarrow> update_at (butlast tokens) (add_part (List.last tokens) w) v
      | PatchRemove \<Rightarrow> update_at (butlast tokens) (remove_part (List.last tokens)) v)"

fun patched_values :: "patch_operation list \<Rightarrow> go_value \<Rightarrow> go_value option" where
  "patched_values [] v = Some v"
| "patched_values (operation # operations) v = Option.bind (patched_value operation v) (patched_values operations)"

section \<open>Pointers\<close>

lemma split_slash_nonempty [simp]: "split_slash s \<noteq> []"
  by (cases s) (auto split: list.split)

lemma split_slash_append: "split_slash (a @ CHR ''/'' # b) = split_slash a @ split_slash b"
  by (induction a) (auto split: list.split simp: Cons_eq_append_conv)

lemma split_slash_plain: "CHR ''/'' \<notin> set b \<Longrightarrow> split_slash b = [b]"
  by (induction b) auto

lemma dropWhile_until: "x \<notin> set b \<Longrightarrow> dropWhile (\<lambda>c. c \<noteq> x) (b @ x # a) = x # a"
  by (induction b) auto

lemma splitPatchPointer_tokens:
  assumes "splitPatchPointer pointer = Inr (parent, token)"
  shows "pointerTokens parent = butlast (pointerTokens pointer)" "token = List.last (pointerTokens pointer)"
proof -
  show "token = List.last (pointerTokens pointer)" using assms by (auto simp: splitPatchPointer_def Let_def split: if_splits)
  have start: "pointer \<noteq> []" "hd pointer = CHR ''/''"
    using assms by (auto simp: splitPatchPointer_def pointerTokens_def Let_def split: if_splits)
  then have "CHR ''/'' \<in> set pointer" by (metis hd_in_set)
  then obtain a b where ab: "pointer = a @ CHR ''/'' # b" "CHR ''/'' \<notin> set b" by (metis split_list_last)
  have "dropWhile (\<lambda>c. c \<noteq> CHR ''/'') (rev pointer) = CHR ''/'' # rev a"
    using dropWhile_until [of "CHR ''/''" "rev b" "rev a"] ab by simp
  then have parent: "parent = a" using assms by (simp add: splitPatchPointer_def Let_def split: if_splits)
  show "pointerTokens parent = butlast (pointerTokens pointer)"
  proof (cases a)
    case Nil
    with ab start parent show ?thesis by (simp add: pointerTokens_def split_slash_plain)
  next
    case (Cons c a')
    then have "c = CHR ''/''" using ab(1) start(2) by simp
    then show ?thesis using ab Cons start parent
      by (simp add: pointerTokens_def split_slash_append split_slash_plain map_butlast butlast_append)
  qed
qed

section \<open>A part of a document\<close>

lemma length_locate [simp]:
  "length (locate_elements n xs) = length xs" "length (locate_members n ms) = length ms"
proof -
  show "length (locate_elements n xs) = length xs" by (induction xs arbitrary: n) auto
  show "length (locate_members n ms) = length ms" by (induction ms arbitrary: n) auto
qed

abbreviation elements_text :: "(string \<times> cst) list \<Rightarrow> string" where "elements_text xs \<equiv> concat (map element_text xs)"
abbreviation members_text :: "(member_head \<times> cst) list \<Rightarrow> string" where "members_text ms \<equiv> concat (map member_text ms)"

lemma nth_locate_elements:
  "i < length xs \<Longrightarrow> locate_elements n xs ! i = locate (n + length (elements_text (take i xs)) + length (fst (xs ! i))) (snd (xs ! i))"
  by (induction xs arbitrary: n i) (auto simp: nth_Cons add.assoc split: nat.split)

lemma nth_locate_members:
  "i < length ms \<Longrightarrow> locate_members n ms ! i =
     (head_key (fst (ms ! i)), locate (n + length (members_text (take i ms)) + length (head_text (fst (ms ! i)))) (snd (ms ! i)))"
  by (induction ms arbitrary: n i) (auto simp: nth_Cons add.assoc split: nat.split)

lemma keys_locate [simp]: "map fst (locate_members n ms) = map (head_key \<circ> fst) ms"
  by (induction ms arbitrary: n) auto

lemma map_of_find_index: "map_of ms k = Some v \<Longrightarrow> \<exists>i. find_index (\<lambda>m. fst m = k) ms = Some i \<and> snd (ms ! i) = v"
  by (induction ms) (auto split: if_splits)

lemma find_index_map: "find_index P (map f xs) = find_index (P \<circ> f) xs"
  by (induction xs) auto

lemma find_located: "find_index (\<lambda>m. fst m = t) (locate_members n ms) = find_index (\<lambda>m. head_key (fst m) = t) ms"
proof -
  have "find_index ((=) t) (map fst (locate_members n ms)) = find_index ((=) t) (map (head_key \<circ> fst) ms)" by simp
  then show ?thesis by (simp add: find_index_map comp_def eq_commute del: keys_locate)
qed

lemma take_nth_drop: "i < length xs \<Longrightarrow> concat (map f xs) = concat (map f (take i xs)) @ f (xs ! i) @ concat (map f (drop (Suc i) xs))"
  by (metis append_take_drop_id concat.simps(2) concat_append Cons_nth_drop_Suc list.simps(9) map_append)

lemma update_nth_text:
  "i < length xs \<Longrightarrow> concat (map f (xs[i := y])) = concat (map f (take i xs)) @ f y @ concat (map f (drop (Suc i) xs))"
  by (simp add: upd_conv_take_nth_drop)

lemma all_update: "\<forall>x\<in>set xs. P x \<Longrightarrow> P y \<Longrightarrow> \<forall>x\<in>set (xs[i := y]). P x"
  using set_update_subset_insert [of xs i y] by auto

text \<open>
  The part that a pointer leads to stands in the text of the document between two texts that do
  not depend on it, and putting another tree in its place updates the value there.
\<close>

definition part_of :: "string list \<Rightarrow> cst \<Rightarrow> cst \<Rightarrow> string \<Rightarrow> string \<Rightarrow> bool" where
  "part_of ts c p a b \<longleftrightarrow> cst_ok p \<and> cst_text c = a @ cst_text p @ b \<and>
     (\<forall>x. cst_ok x \<longrightarrow> (\<exists>y. cst_ok y \<and> cst_text y = a @ cst_text x @ b \<and>
        (\<forall>f. f (cst_value p) = Some (cst_value x) \<longrightarrow> update_at ts f (cst_value c) = Some (cst_value y))))"

lemma part_of_whole: "cst_ok c \<Longrightarrow> part_of [] c c [] []"
  by (auto simp: part_of_def)

lemma part_of_element:
  assumes "cst_ok (Elements xs w)" "patchArrayIndex t (length xs) = Inr i" "i < length xs" "xs ! i = (l, c)" "part_of ts c p a b"
  shows "part_of (t # ts) (Elements xs w) p
    (CHR ''['' # elements_text (take i xs) @ l @ a) (b @ elements_text (drop (Suc i) xs) @ w @ '']'')"
  unfolding part_of_def
proof (intro conjI allI impI)
  show "cst_ok p" using assms(5) by (simp add: part_of_def)
  show "cst_text (Elements xs w) =
    (CHR ''['' # elements_text (take i xs) @ l @ a) @ cst_text p @ b @ elements_text (drop (Suc i) xs) @ w @ '']''"
    using take_nth_drop [OF assms(3), of element_text] assms(4,5) by (simp add: part_of_def)
  fix x assume "cst_ok x"
  then obtain y where y: "cst_ok y" "cst_text y = a @ cst_text x @ b"
    "\<And>f. f (cst_value p) = Some (cst_value x) \<Longrightarrow> update_at ts f (cst_value c) = Some (cst_value y)"
    using assms(5) unfolding part_of_def by blast
  let ?y = "Elements (xs[i := (l, y)]) w"
  have "map fst (xs[i := (l, y)]) = map fst xs" using assms(4) by (simp add: map_update) (metis fst_conv list_update_id map_update)
  then have "cst_ok ?y" using assms(1) y(1) all_update [of xs "\<lambda>(l, c). cst_ok c" "(l, y)" i] by simp
  moreover have "cst_text ?y = (CHR ''['' # elements_text (take i xs) @ l @ a) @ cst_text x @ b @ elements_text (drop (Suc i) xs) @ w @ '']''"
    using update_nth_text [OF assms(3), of element_text] y(2) by simp
  moreover have "update_at (t # ts) f (cst_value (Elements xs w)) = Some (cst_value ?y)"
    if "f (cst_value p) = Some (cst_value x)" for f
    using assms(2-4) y(3) [of f] that by (simp add: map_update)
  ultimately show "\<exists>y. cst_ok y \<and>
      cst_text y = (CHR ''['' # elements_text (take i xs) @ l @ a) @ cst_text x @ b @ elements_text (drop (Suc i) xs) @ w @ '']'' \<and>
      (\<forall>f. f (cst_value p) = Some (cst_value x) \<longrightarrow> update_at (t # ts) f (cst_value (Elements xs w)) = Some (cst_value y))"
    by blast
qed

lemma part_of_member:
  assumes "cst_ok (Members ms w)" "find_index (\<lambda>m. head_key (fst m) = t) ms = Some i" "i < length ms" "ms ! i = (h, c)" "part_of ts c p a b"
  shows "part_of (t # ts) (Members ms w) p
    (CHR ''{'' # members_text (take i ms) @ head_text h @ a) (b @ members_text (drop (Suc i) ms) @ w @ ''}'')"
  unfolding part_of_def
proof (intro conjI allI impI)
  show "cst_ok p" using assms(5) by (simp add: part_of_def)
  show "cst_text (Members ms w) =
    (CHR ''{'' # members_text (take i ms) @ head_text h @ a) @ cst_text p @ b @ members_text (drop (Suc i) ms) @ w @ ''}''"
    using take_nth_drop [OF assms(3), of member_text] assms(4,5) by (simp add: part_of_def)
  fix x assume "cst_ok x"
  then obtain y where y: "cst_ok y" "cst_text y = a @ cst_text x @ b"
    "\<And>f. f (cst_value p) = Some (cst_value x) \<Longrightarrow> update_at ts f (cst_value c) = Some (cst_value y)"
    using assms(5) unfolding part_of_def by blast
  let ?y = "Members (ms[i := (h, y)]) w"
  have "map fst (ms[i := (h, y)]) = map fst ms" using assms(4) by (simp add: map_update) (metis fst_conv list_update_id map_update)
  then have "map (g \<circ> fst) (ms[i := (h, y)]) = map (g \<circ> fst) ms" for g :: "member_head \<Rightarrow> string" by (metis map_map)
  moreover have "head_ok h" using assms(1,4) nth_mem [OF assms(3)] by auto
  ultimately have "cst_ok ?y" using assms(1) y(1) all_update [of ms "\<lambda>(h, c). head_ok h \<and> cst_ok c" "(h, y)" i] by simp
  moreover have "cst_text ?y = (CHR ''{'' # members_text (take i ms) @ head_text h @ a) @ cst_text x @ b @ members_text (drop (Suc i) ms) @ w @ ''}''"
    using update_nth_text [OF assms(3), of member_text] y(2) by simp
  moreover have "update_at (t # ts) f (cst_value (Members ms w)) = Some (cst_value ?y)"
    if "f (cst_value p) = Some (cst_value x)" for f
  proof -
    have "find_index (\<lambda>m. fst m = t) (map (\<lambda>(h, c). (head_key h, cst_value c)) ms) = Some i"
      using assms(2) by (simp add: find_index_map comp_def case_prod_unfold)
    moreover have "head_key h = t" using find_index_SomeD [OF assms(2)] assms(4) by simp
    ultimately show ?thesis using assms(3,4) y(3) [of f] that by (simp add: map_update)
  qed
  ultimately show "\<exists>y. cst_ok y \<and>
      cst_text y = (CHR ''{'' # members_text (take i ms) @ head_text h @ a) @ cst_text x @ b @ members_text (drop (Suc i) ms) @ w @ ''}'' \<and>
      (\<forall>f. f (cst_value p) = Some (cst_value x) \<longrightarrow> update_at (t # ts) f (cst_value (Members ms w)) = Some (cst_value y))"
    by blast
qed

lemma lookup_part:
  "lookup_tokens pointer ts (locate n c) = Inr u \<Longrightarrow> cst_ok c \<Longrightarrow>
    \<exists>p a b. part_of ts c p a b \<and> u = locate (n + length a) p"
proof (induction ts arbitrary: n c)
  case Nil
  then show ?case using part_of_whole by fastforce
next
  case (Cons t ts)
  show ?case
  proof (cases c)
    case (Token v s)
    with Cons.prems(1) show ?thesis by (cases v) auto
  next
    case (Elements xs w)
    with Cons.prems(1) obtain i where i: "patchArrayIndex t (length xs) = Inr i" "i < length xs"
      "lookup_tokens pointer ts (locate_elements (Suc n) xs ! i) = Inr u"
      by (auto simp: patchArrayIndex_def split: option.splits if_splits)
    obtain l d where d: "xs ! i = (l, d)" by (cases "xs ! i")
    have "cst_ok d" using Cons.prems(2) Elements nth_mem [OF i(2)] d by auto
    from Cons.IH [OF i(3) [unfolded nth_locate_elements [OF i(2)] d fst_conv snd_conv] this]
    obtain p a b where p: "part_of ts d p a b" "u = locate (Suc n + length (elements_text (take i xs)) + length l + length a) p" by blast
    from part_of_element [OF _ i(1,2) d p(1), of w] Cons.prems(2) Elements p(2) show ?thesis
      by (intro exI [of _ p] exI conjI) (auto simp: add.assoc)
  next
    case (Members ms w)
    with Cons.prems(1) obtain v where v: "map_of (locate_members (Suc n) ms) t = Some v" "lookup_tokens pointer ts v = Inr u"
      by (auto split: option.splits)
    obtain i where i: "find_index (\<lambda>m. fst m = t) (locate_members (Suc n) ms) = Some i" "snd (locate_members (Suc n) ms ! i) = v"
      using map_of_find_index [OF v(1)] by blast
    have ix: "find_index (\<lambda>m. head_key (fst m) = t) ms = Some i" using i(1) by (simp add: find_located)
    have len: "i < length ms" using find_index_SomeD [OF ix] by simp
    obtain h d where d: "ms ! i = (h, d)" by (cases "ms ! i")
    have "cst_ok d" using Cons.prems(2) Members nth_mem [OF len] d by auto
    moreover have "lookup_tokens pointer ts (locate (Suc n + length (members_text (take i ms)) + length (head_text h)) d) = Inr u"
      using v(2) i(2) by (simp add: nth_locate_members [OF len] d)
    ultimately obtain p a b where p: "part_of ts d p a b"
      "u = locate (Suc n + length (members_text (take i ms)) + length (head_text h) + length a) p"
      using Cons.IH by blast
    from part_of_member [OF _ ix len d p(1), of w] Cons.prems(2) Members p(2) show ?thesis
      by (intro exI [of _ p] exI conjI) (auto simp: add.assoc)
  qed
qed

section \<open>What is written\<close>

text \<open>A value laid out: white space before the parts at each depth, and the text of a colon.\<close>

definition leads :: "string \<Rightarrow> nat \<Rightarrow> string list" where
  "leads l n = (case n of 0 \<Rightarrow> [] | Suc m \<Rightarrow> l # replicate m (CHR '','' # l))"

fun layout :: "(nat \<Rightarrow> string) \<Rightarrow> string \<Rightarrow> nat \<Rightarrow> go_value \<Rightarrow> cst" where
  "layout g col d (GoArray vs) = Elements (zip (leads (g (Suc d)) (length vs)) (map (layout g col (Suc d)) vs)) (if vs = [] then [] else g d)"
| "layout g col d (GoObject ms) =
     Members (map (\<lambda>(l, k, c). ((l, go_quote k, k, col), c))
         (zip (leads (g (Suc d)) (length ms)) (map (\<lambda>(k, v). (k, layout g col (Suc d) v)) ms)))
       (if ms = [] then [] else g d)"
| "layout g col d v = Token v (encq go_quote v)"

lemma length_leads [simp]: "length (leads l n) = n"
  by (simp add: leads_def split: nat.split)

lemma leads_ok_leads: "space l \<Longrightarrow> leads_ok True (leads l n)"
proof -
  assume "space l"
  then have "lead_ok (Some CHR '','') (CHR '','' # l)"
    unfolding lead_ok_def option.case by (intro exI [of _ "[]"] exI [of _ l]) simp
  then have "leads_ok False (replicate m (CHR '','' # l))" for m by (induction m) simp_all
  with \<open>space l\<close> show ?thesis by (simp add: leads_def lead_ok_def split: nat.split)
qed

lemma leads_text: "concat (map (\<lambda>(l, t). l @ t) (zip (leads l (length xs)) xs)) = comma_join (map ((@) l) xs)"
proof (cases xs)
  case (Cons x ys)
  have "concat (map (\<lambda>(l, t). l @ t) (zip (replicate (length ys) (CHR '','' # l)) ys)) = concat (map ((#) CHR '','') (map ((@) l) ys))" for ys
    by (induction ys) simp_all
  then show ?thesis using Cons by (simp add: leads_def comma_join_Cons)
qed (simp add: leads_def)

definition layout_text :: "(nat \<Rightarrow> string) \<Rightarrow> string \<Rightarrow> nat \<Rightarrow> go_value \<Rightarrow> string" where
  "layout_text g col d v = cst_text (layout g col d v)"

lemma layout_text_array:
  "layout_text g col d (GoArray vs) =
     CHR ''['' # comma_join (map (\<lambda>v. g (Suc d) @ layout_text g col (Suc d) v) vs) @ (if vs = [] then [] else g d) @ '']''"
proof -
  have "map element_text (zip ls cs) = map (\<lambda>(l, t). l @ t) (zip ls (map cst_text cs))" for ls cs
    by (induction ls cs rule: list_induct2') auto
  then show ?thesis
    using leads_text [of "g (Suc d)" "map (\<lambda>v. layout_text g col (Suc d) v) vs"] by (simp add: layout_text_def comp_def)
qed

lemma layout_text_object:
  "layout_text g col d (GoObject ms) =
     CHR ''{'' # comma_join (map (\<lambda>(k, v). g (Suc d) @ go_quote k @ col @ layout_text g col (Suc d) v) ms) @
       (if ms = [] then [] else g d) @ ''}''"
proof -
  let ?parts = "map (\<lambda>(k, v). go_quote k @ col @ layout_text g col (Suc d) v) ms"
  have "map member_text (map (\<lambda>(l, k, c). ((l, go_quote k, k, col), c)) (zip ls (map (\<lambda>(k, v). (k, layout g col (Suc d) v)) ms))) =
      map (\<lambda>(l, t). l @ t) (zip ls ?parts)" for ls
    by (induction ls ms rule: list_induct2') (auto simp: layout_text_def)
  then have "members_text (map (\<lambda>(l, k, c). ((l, go_quote k, k, col), c))
      (zip (leads (g (Suc d)) (length ms)) (map (\<lambda>(k, v). (k, layout g col (Suc d) v)) ms))) = comma_join (map ((@) (g (Suc d))) ?parts)"
    using leads_text [of "g (Suc d)" ?parts] by (simp only: length_map)
  moreover have "map ((@) (g (Suc d))) ?parts = map (\<lambda>(k, v). g (Suc d) @ go_quote k @ col @ layout_text g col (Suc d) v) ms" by auto
  ultimately show ?thesis
    by (simp only: layout_text_def [of g col d "GoObject ms"] layout.simps cst_text_collections)
qed

lemma go_quote_token: "validIJSONString s \<Longrightarrow> string_token s (go_quote s)"
  using lex_string_go_escaped [of s] by (auto simp: string_token_def go_quote_def validIJSON_decode)

lemma int_string_token: "number_token i (int_string i)"
proof -
  have "list_all is_digit (nat_string n)" for n by (rule nat_string_digits)
  then have "\<not> list_ex (\<lambda>c. c \<in> {CHR ''.'', CHR ''e'', CHR ''E''}) (nat_string n)" for n
    by (fastforce simp: list_ex_iff list_all_iff is_digit_iff)
  then have plain: "\<not> list_ex (\<lambda>c. c \<in> {CHR ''.'', CHR ''e'', CHR ''E''}) (int_string i)" by (simp add: int_string_def)
  have "lex_number (int_string i) = Some (int_string i, [])"
    using lex_number_int [of "[]" i] by (simp add: json_delim_def)
  from number_token_lexed(2) [OF this plain] show ?thesis by simp
qed

lemma layout_ok:
  assumes "\<And>d. space (g d)" "lead_ok (Some CHR '':'') col"
  shows "supported v \<Longrightarrow> plain v \<Longrightarrow> go_maps v \<Longrightarrow> cst_ok (layout g col d v) \<and> cst_value (layout g col d v) = v"
  using assms
proof (induction g col d v rule: layout.induct)
  case (1 g col d vs)
  let ?ls = "leads (g (Suc d)) (length vs)" and ?cs = "map (layout g col (Suc d)) vs"
  have IH: "\<forall>v\<in>set vs. cst_ok (layout g col (Suc d) v) \<and> cst_value (layout g col (Suc d) v) = v" using 1 by auto
  then have "\<forall>(l, c)\<in>set (zip ?ls ?cs). cst_ok c" by (auto dest!: set_zip_rightD)
  moreover have "map (\<lambda>(l, c). cst_value c) (zip ?ls ?cs) = vs"
  proof -
    have "map (\<lambda>(l, c). cst_value c) z = map cst_value (map snd z)" for z :: "(string \<times> cst) list"
      by (simp add: case_prod_unfold)
    then have "map (\<lambda>(l, c). cst_value c) (zip ?ls ?cs) = map cst_value (map snd (zip ?ls ?cs))" .
    also have "\<dots> = vs" using IH by (simp add: map_idI)
    finally show ?thesis .
  qed
  ultimately show ?case using leads_ok_leads [of "g (Suc d)"] 1(5) by simp
next
  case (2 g col d ms)
  let ?ls = "leads (g (Suc d)) (length ms)" and ?cs = "map (\<lambda>(k, v). (k, layout g col (Suc d) v)) ms"
  let ?ms = "map (\<lambda>(l, k, c). ((l, go_quote k, k, col), c)) (zip ?ls ?cs)"
  have IH: "\<forall>(k, v)\<in>set ms. validIJSONString k \<and> cst_ok (layout g col (Suc d) v) \<and> cst_value (layout g col (Suc d) v) = v" using 2 by fastforce
  have z: "map (fst \<circ> fst) (map (\<lambda>(l, k, c). ((l, go_quote k, k, col), c)) z) = map fst z"
    "map (head_key \<circ> fst) (map (\<lambda>(l, k, c). ((l, go_quote k, k, col), c)) z) = map fst (map snd z)"
    "map (\<lambda>(h, c). (head_key h, cst_value c)) (map (\<lambda>(l, k, c). ((l, go_quote k, k, col), c)) z) =
       map (map_prod id cst_value) (map snd z)" for z :: "(string \<times> string \<times> cst) list"
    by (simp_all add: case_prod_unfold map_prod_def)
  have l: "map (fst \<circ> fst) ?ms = ?ls" unfolding z(1) by simp
  have "map snd (zip ?ls ?cs) = ?cs" by simp
  then have k: "map (head_key \<circ> fst) ?ms = map fst ms" unfolding z(2) by (simp add: comp_def case_prod_unfold)
  have "map (\<lambda>(h, c). (head_key h, cst_value c)) ?ms = map (map_prod id cst_value) (map snd (zip ?ls ?cs))" by (rule z(3))
  also have "\<dots> = map (map_prod id cst_value) ?cs" by simp
  also have "\<dots> = ms" using IH by (auto intro!: map_idI)
  finally have v: "map (\<lambda>(h, c). (head_key h, cst_value c)) ?ms = ms" .
  have "\<forall>(h, c)\<in>set ?ms. head_ok h \<and> cst_ok c"
  proof -
    have "\<forall>(k, v)\<in>set ms. string_token k (go_quote k) \<and> cst_ok (layout g col (Suc d) v)" using IH go_quote_token by blast
    then show ?thesis using 2(6) by (auto dest!: set_zip_rightD)
  qed
  with l k v leads_ok_leads [of "g (Suc d)"] 2(4,5) show ?case by simp
qed (auto simp: go_quote_token int_string_token)

lemma layout_compact: "layout_text (\<lambda>_. []) '':'' d v = encq go_quote v"
proof (induction v arbitrary: d rule: json_depth.induct)
  case (1 vs)
  then have "map (layout_text (\<lambda>_. []) '':'' (Suc d)) vs = map (encq go_quote) vs" by simp
  then show ?case by (simp add: layout_text_array del: map_eq_conv)
next
  case (2 ms)
  then have "map (\<lambda>(k, v). go_quote k @ '':'' @ layout_text (\<lambda>_. []) '':'' (Suc d) v) ms = map (\<lambda>(k, v). go_quote k @ '':'' @ encq go_quote v) ms"
    by (intro map_cong) auto
  then show ?case by (simp add: layout_text_object del: map_eq_conv)
qed (simp_all add: layout_text_def)

lemma replace_byte_simps [simp]:
  "replace_byte c w [] = []" "replace_byte c w (x # s) = (if x = c then w else [x]) @ replace_byte c w s"
  "replace_byte c w (s @ t) = replace_byte c w s @ replace_byte c w t"
  by (simp_all add: replace_byte_def)

lemma replace_byte_absent: "c \<notin> set s \<Longrightarrow> replace_byte c w s = s"
  by (induction s) auto

lemma replace_byte_join: "c \<noteq> CHR '','' \<Longrightarrow> replace_byte c w (comma_join xs) = comma_join (map (replace_byte c w) xs)"
  by (induction xs rule: comma_join.induct) auto

lemma replace_line_indent: "replace_byte (CHR 0x0A) w (line_indent d) = w @ replicate (2 * d) CHR '' ''"
  by (simp add: line_indent_def replace_byte_absent)

lemma scalar_line: "one_line (nat_string n)" "one_line (int_string i)" "validIJSONString s \<Longrightarrow> one_line (go_quote s)"
proof -
  have "list_all is_digit (nat_string n)" for n by (rule nat_string_digits)
  then show "one_line (nat_string n)" for n by (fastforce simp: list_all_iff is_digit_iff)
  then show "one_line (int_string i)" by (simp add: int_string_def)
  show "validIJSONString s \<Longrightarrow> one_line (go_quote s)" by (rule string_token_line [OF go_quote_token])
qed

definition line_lead :: "string \<Rightarrow> nat \<Rightarrow> string" where
  "line_lead w d = w @ replicate (2 * d) CHR '' ''"

lemma layout_pretty:
  "supported v \<Longrightarrow> replace_byte (CHR 0x0A) w (marshal_indent d v) = layout_text (line_lead w) '': '' d v"
proof (induction v arbitrary: d rule: json_depth.induct)
  case (1 vs)
  note line_leads = line_lead_def [of w d] line_lead_def [of w "Suc d"]
  let ?r = "replace_byte (CHR 0x0A) w" and ?t = "layout_text (line_lead w) '': '' (Suc d)"
  have "map (\<lambda>v. ?r (line_indent (Suc d) @ marshal_indent (Suc d) v)) vs = map (\<lambda>v. line_lead w (Suc d) @ ?t v) vs"
    using 1 by (intro map_cong) (simp_all add: replace_line_indent line_leads)
  then show ?case
    by (simp add: layout_text_array replace_byte_join replace_line_indent line_leads comp_def del: map_eq_conv)
next
  case (2 ms)
  note line_leads = line_lead_def [of w d] line_lead_def [of w "Suc d"]
  let ?r = "replace_byte (CHR 0x0A) w" and ?t = "layout_text (line_lead w) '': '' (Suc d)"
  have "?r (line_indent (Suc d) @ go_quote k @ '': '' @ marshal_indent (Suc d) v) = line_lead w (Suc d) @ go_quote k @ '': '' @ ?t v"
    if "(k, v) \<in> set ms" for k v
  proof -
    have "one_line (go_quote k)" "supported v" using 2(2) that string_token_line go_quote_token by fastforce+
    with 2(1) that show ?thesis by (simp add: replace_line_indent line_leads replace_byte_absent)
  qed
  then have "map (\<lambda>m. ?r (case m of (k, v) \<Rightarrow> line_indent (Suc d) @ go_quote k @ '': '' @ marshal_indent (Suc d) v)) ms =
      map (\<lambda>(k, v). line_lead w (Suc d) @ go_quote k @ '': '' @ ?t v) ms"
    by (intro map_cong) auto
  then show ?case
    by (simp add: layout_text_object replace_byte_join replace_line_indent line_leads comp_def del: map_eq_conv)
qed (simp_all add: layout_text_def replace_byte_absent scalar_line)

text \<open>What is written for a value is a tree of that value.\<close>

lemma preferredNewline_space [simp]: "space (preferredNewline info)"
  by (simp add: preferredNewline_def is_space_def)

lemma space_replicate [simp]: "space (replicate n CHR '' '')"
  by (induction n) (simp_all add: is_space_def)

lemma renderJSONFragment_tree:
  assumes "renderJSONFragment value multiline indent newline = Inr s" "struct_value (encoded_value value)"
    "space indent" "space newline"
  obtains x where "cst_ok x" "cst_text x = s" "cst_value x = encoded_value value"
proof -
  let ?v = "encoded_value value"
  have v: "supported ?v" "plain ?v" "go_maps ?v" using assms(2) by (simp_all add: struct_value_def)
  have colon: "lead_ok (Some CHR '':'') '':''" "lead_ok (Some CHR '':'') '': ''"
  proof -
    show "lead_ok (Some CHR '':'') '':''" unfolding lead_ok_def option.case by (intro exI [of _ "[]"]) simp
    show "lead_ok (Some CHR '':'') '': ''" unfolding lead_ok_def option.case
      by (intro exI [of _ "[]"] exI [of _ "'' ''"]) (simp add: is_space_def)
  qed
  consider "s = encq go_quote ?v" | "s = replace_byte (CHR 0x0A) (newline @ indent) (marshal_indent 0 ?v)"
    using assms(1) by (auto simp: renderJSONFragment_def json_Marshal_def Let_def split: if_splits option.splits)
  then show thesis
  proof cases
    case 1
    then show thesis
      using that [of "layout (\<lambda>_. []) '':'' 0 ?v"] layout_ok [of "\<lambda>_. []" "'':''" ?v 0] v colon(1) layout_compact [of 0 ?v]
      by (simp add: layout_text_def)
  next
    case 2
    have "space (line_lead (newline @ indent) d)" for d using assms(3,4) by (simp add: line_lead_def)
    with 2 show thesis
      using that [of "layout (line_lead (newline @ indent)) '': '' 0 ?v"] layout_ok [of "line_lead (newline @ indent)" "'': ''" ?v 0]
        v colon(2) layout_pretty [OF v(1), of "newline @ indent" 0]
      by (simp add: layout_text_def)
  qed
qed

section \<open>Additions\<close>

text \<open>
  The indentation that an addition copies is everything before the first part on its line.  It
  is white space when the first part begins its line.
\<close>

definition clear_line :: "string \<Rightarrow> doc_value \<Rightarrow> bool" where
  "clear_line raw parent \<longleftrightarrow>
     (case jsonCollectionInsertion raw parent (end_of parent - 1) of (multiline, _, indent) \<Rightarrow> multiline \<longrightarrow> space indent)"

lemma sourceLineStart_le: "sourceLineStart raw n \<le> n"
  by (induction n) auto

lemma split_at: "raw = p @ q \<Longrightarrow> n = length p \<Longrightarrow> take n raw = p \<and> drop n raw = q"
  by simp

lemma space_take_drop: "space w \<Longrightarrow> space (take n w) \<and> space (drop n w)"
  by (auto simp: space_def list_all_iff dest: in_set_takeD in_set_dropD)

lemma insertion:
  assumes raw: "raw = a @ x # body @ w @ y # b"
    and ins: "jsonCollectionInsertion raw parent (length a + 1 + length body + length w) = (multiline, offset, indent)"
    and parent: "start_of parent = length a"
    and st: "st = (if multiline \<and> \<not> first then length a + 1 + length body else offset)" "st \<le> offset"
    and first: "first \<Longrightarrow> body = []"
    and space: "space w" "space newline" "multiline \<Longrightarrow> space indent"
  shows "\<exists>l v. lead_ok (comma first) l \<and> space v \<and>
    (\<forall>z. apply_edit raw \<lparr>be_start = st, be_end = offset,
             be_replacement = item_separator first multiline newline indent @ z @ (if multiline then newline else [])\<rparr> =
       a @ x # body @ l @ z @ v @ y # b)"
proof (cases multiline)
  case False
  then have off: "offset = length (a @ x # body @ w)" "st = offset"
    using ins st by (auto simp: jsonCollectionInsertion_def Let_def split: if_splits)
  have cut: "take offset raw = a @ x # body @ w" "drop offset raw = y # b"
    using split_at [of raw "a @ x # body @ w" "y # b" offset] off raw by simp_all
  let ?l = "w @ (if first then [] else '', '')"
  have "lead_ok (Some CHR '','') (w @ '', '')"
    unfolding lead_ok_def option.case using space(1) by (intro exI [of _ w] exI [of _ "'' ''"]) (simp add: is_space_def)
  then have "lead_ok (comma first) ?l" using space(1) by (cases first) (simp_all add: lead_ok_def [of None])
  then show ?thesis
    using cut off(2) False by (intro exI [of _ ?l] exI [of _ "[]"]) (simp add: apply_edit_def item_separator_def)
next
  case True
  let ?q = "length (a @ x # body)"
  define ls where "ls = sourceLineStart raw (length a + 1 + length body + length w)"
  have ls: "offset = ls" "length a < ls" "ls \<le> ?q + length w"
    using ins parent True sourceLineStart_le [of raw "length a + 1 + length body + length w"]
    by (auto simp: jsonCollectionInsertion_def Let_def ls_def split: if_splits)
  have "?q \<le> ls" using st ls(1,2) first True by (cases first) auto
  define u v where "u = take (ls - ?q) w" and "v = drop (ls - ?q) w"
  have w: "w = u @ v" "space u" "space v" using space_take_drop [OF space(1)] by (simp_all add: u_def v_def)
  have len: "length (a @ x # body @ u) = ls" using \<open>?q \<le> ls\<close> ls(3) by (simp add: u_def)
  have "raw = (a @ x # body @ u) @ v @ y # b" "raw = (a @ x # body) @ w @ y # b" using raw w(1) by simp_all
  note split_at [OF this(1) len [symmetric]] split_at [OF this(2) refl]
  then have cut: "take ls raw = a @ x # body @ u" "drop ls raw = v @ y # b" and cut': "take ?q raw = a @ x # body"
    by blast+
  show ?thesis
  proof (cases first)
    case t: True
    then show ?thesis
      using cut st ls(1) True first w space by (intro exI [of _ "u @ indent"] exI [of _ "newline @ v"]) (simp add: apply_edit_def item_separator_def lead_ok_def)
  next
    case f: False
    have "lead_ok (Some CHR '','') (CHR '','' # newline @ indent)"
      unfolding lead_ok_def option.case using space(2,3) True by (intro exI [of _ "[]"] exI [of _ "newline @ indent"]) simp
    with f show ?thesis
      using cut cut' st ls(1) True w space by (intro exI [of _ "CHR '','' # newline @ indent"] exI [of _ "newline @ v"]) (simp add: apply_edit_def item_separator_def)
  qed
qed

lemma leads_ok_append: "leads_ok first (ls @ [l]) \<longleftrightarrow> leads_ok first ls \<and> lead_ok (comma (first \<and> ls = [])) l"
  by (induction ls arbitrary: first) auto

lemma range_of_locate [simp]: "range_of (locate n c) = (n, n + length (cst_text c))"
proof (cases c)
  case (Token v s)
  then show ?thesis by (cases v) simp_all
qed simp_all

lemma end_of_nth:
  "i < length xs \<Longrightarrow> end_of (locate_elements n xs ! i) = n + length (elements_text (take (Suc i) xs))"
  "i < length ms \<Longrightarrow> end_of (snd (locate_members n ms ! i)) = n + length (members_text (take (Suc i) ms))"
  by (simp_all add: nth_locate_elements nth_locate_members take_Suc_conv_app_nth element_text_def member_text_def)

lemma locate_Nil [simp]: "locate_elements n xs = [] \<longleftrightarrow> xs = []" "locate_members n ms = [] \<longleftrightarrow> ms = []"
  by (simp_all flip: length_0_conv)

lemma end_of_last:
  "xs \<noteq> [] \<Longrightarrow> end_of (List.last (locate_elements n xs)) = n + length (elements_text xs)"
  "ms \<noteq> [] \<Longrightarrow> end_of (snd (List.last (locate_members n ms))) = n + length (members_text ms)"
proof -
  show "end_of (List.last (locate_elements n xs)) = n + length (elements_text xs)" if "xs \<noteq> []"
    using end_of_nth(1) [of "length xs - 1" xs n] that by (simp add: last_conv_nth del: range_of_locate)
  show "end_of (snd (List.last (locate_members n ms))) = n + length (members_text ms)" if "ms \<noteq> []"
    using end_of_nth(2) [of "length ms - 1" ms n] that by (simp add: last_conv_nth del: range_of_locate)
qed

lemma jsonAdd_array:
  assumes "jsonAdd doc (ValueArray r vs) token value = Inr edit"
    "jsonCollectionInsertion (do_Raw doc) (ValueArray r vs) (snd r - 1) = (multiline, offset, indent)"
  obtains encoded where "token = ''-''" "renderJSONFragment value multiline indent (preferredNewline (newlineInfo (do_Raw doc))) = Inr encoded"
    "edit = \<lparr>be_start = (if multiline \<and> vs \<noteq> [] then end_of (List.last vs) else offset), be_end = offset,
       be_replacement = item_separator (vs = []) multiline (preferredNewline (newlineInfo (do_Raw doc))) indent @ encoded @
         (if multiline then preferredNewline (newlineInfo (do_Raw doc)) else [])\<rparr>"
  using assms by (cases "token = ''-''") (simp_all add: jsonAdd_def bindR_eq_Inr_iff Let_def, blast)

lemma jsonAdd_object:
  assumes "jsonAdd doc (ValueObject r ms) token value = Inr edit"
    "jsonCollectionInsertion (do_Raw doc) (ValueObject r ms) (snd r - 1) = (multiline, offset, indent)"
  obtains key encoded where "token \<notin> fst ` set ms" "Marshal (GoString token) = Inr key"
    "renderJSONFragment value multiline indent (preferredNewline (newlineInfo (do_Raw doc))) = Inr encoded"
    "edit = \<lparr>be_start = (if multiline \<and> ms \<noteq> [] then end_of (snd (List.last ms)) else offset), be_end = offset,
       be_replacement = item_separator (ms = []) multiline (preferredNewline (newlineInfo (do_Raw doc))) indent @ key @ '': '' @ encoded @
         (if multiline then preferredNewline (newlineInfo (do_Raw doc)) else [])\<rparr>"
  using assms
  by (cases "token \<in> fst ` set ms"; cases "Marshal (GoString token)")
    (simp_all add: jsonAdd_def bindR_eq_Inr_iff Let_def, blast)

lemma Marshal_string_token: "Marshal (GoString k) = Inr s \<Longrightarrow> string_token k s"
proof -
  assume s: "Marshal (GoString k) = Inr s"
  then have "supported (GoString k)" by (simp add: Marshal_ok_iff [symmetric] del: supported.simps)
  with s have "s = json_quote k" by (simp add: Marshal_enc)
  then show ?thesis using lex_string_quoted [of k] by (simp add: string_token_def json_quote_def)
qed

lemma jsonAdd_elements:
  assumes raw: "do_Raw doc = a @ cst_text (Elements xs w) @ b" and ok: "cst_ok (Elements xs w)"
    and run: "jsonAdd doc (locate (length a) (Elements xs w)) token value = Inr edit" "be_start edit \<le> be_end edit"
    and v: "struct_value (encoded_value value)" and clear: "clear_line (do_Raw doc) (locate (length a) (Elements xs w))"
  shows "\<exists>x. cst_ok x \<and> apply_edit (do_Raw doc) edit = a @ cst_text x @ b \<and>
    add_part token (encoded_value value) (cst_value (Elements xs w)) = Some (cst_value x)"
proof -
  let ?newline = "preferredNewline (newlineInfo (do_Raw doc))" and ?body = "elements_text xs"
  let ?vs = "locate_elements (Suc (length a)) xs"
  define r where "r = (length a, length a + length (cst_text (Elements xs w)))"
  have loc: "locate (length a) (Elements xs w) = ValueArray r ?vs" by (simp add: r_def)
  have close: "snd r - 1 = length a + 1 + length ?body + length w" by (simp add: r_def)
  obtain multiline offset indent where ins: "jsonCollectionInsertion (do_Raw doc) (ValueArray r ?vs) (snd r - 1) = (multiline, offset, indent)"
    by (metis prod_cases3)
  obtain encoded where run': "token = ''-''" "renderJSONFragment value multiline indent ?newline = Inr encoded"
    "edit = \<lparr>be_start = (if multiline \<and> ?vs \<noteq> [] then end_of (List.last ?vs) else offset),
       be_end = offset, be_replacement = item_separator (?vs = []) multiline ?newline indent @ encoded @ (if multiline then ?newline else [])\<rparr>"
    using jsonAdd_array [OF run(1) [unfolded loc] ins] by metis
  define st where "st = (if multiline \<and> \<not> xs = [] then length a + 1 + length ?body else offset)"
  have edit: "edit = \<lparr>be_start = st, be_end = offset,
      be_replacement = item_separator (xs = []) multiline ?newline indent @ encoded @ (if multiline then ?newline else [])\<rparr>"
    using run'(3) end_of_last(1) [of xs "Suc (length a)"] by (simp add: st_def del: range_of_locate)
  have indent: "multiline \<Longrightarrow> space indent" using clear [unfolded clear_line_def loc] ins by simp
  have indent': "space (if multiline then indent else [])" using indent by simp
  have "renderJSONFragment value multiline (if multiline then indent else []) ?newline = Inr encoded"
    using run'(2) by (cases multiline) (simp_all add: renderJSONFragment_def)
  then obtain x where x: "cst_ok x" "cst_text x = encoded" "cst_value x = encoded_value value"
    using renderJSONFragment_tree [OF _ v indent' preferredNewline_space] by metis
  have raw': "do_Raw doc = a @ CHR ''['' # ?body @ w @ CHR '']'' # b" using raw by simp
  have "\<exists>l v. lead_ok (comma (xs = [])) l \<and> space v \<and>
    (\<forall>z. apply_edit (do_Raw doc) \<lparr>be_start = st, be_end = offset,
             be_replacement = item_separator (xs = []) multiline ?newline indent @ z @ (if multiline then ?newline else [])\<rparr> =
       a @ CHR ''['' # ?body @ l @ z @ v @ CHR '']'' # b)"
    by (rule insertion [OF raw' ins [unfolded close] _ st_def _ _ _ preferredNewline_space indent])
      (use run(2) ok in \<open>simp_all add: edit r_def\<close>)
  then obtain l u where l: "lead_ok (comma (xs = [])) l" "space u"
    "apply_edit (do_Raw doc) edit = a @ CHR ''['' # ?body @ l @ encoded @ u @ CHR '']'' # b"
    unfolding edit by blast
  let ?x = "Elements (xs @ [(l, x)]) u"
  have "cst_ok ?x" using ok l(1,2) x(1) by (simp add: leads_ok_append)
  moreover have "apply_edit (do_Raw doc) edit = a @ cst_text ?x @ b" using l(3) x(2) by simp
  moreover have "add_part token (encoded_value value) (cst_value (Elements xs w)) = Some (cst_value ?x)"
    using run'(1) x(3) by (simp add: add_part_def)
  ultimately show ?thesis by blast
qed

lemma keys_of_value:
  "fst ` set (map (\<lambda>(h, c). (head_key h, cst_value c)) ms) = set (map (head_key \<circ> fst) ms)"
proof -
  have "map fst (map (\<lambda>(h, c). (head_key h, cst_value c)) ms) = map (head_key \<circ> fst) ms" by auto
  then show ?thesis by (metis list.set_map)
qed

lemma jsonAdd_members:
  assumes raw: "do_Raw doc = a @ cst_text (Members ms w) @ b" and ok: "cst_ok (Members ms w)"
    and run: "jsonAdd doc (locate (length a) (Members ms w)) token value = Inr edit" "be_start edit \<le> be_end edit"
    and v: "struct_value (encoded_value value)" and clear: "clear_line (do_Raw doc) (locate (length a) (Members ms w))"
  shows "\<exists>x. cst_ok x \<and> apply_edit (do_Raw doc) edit = a @ cst_text x @ b \<and>
    add_part token (encoded_value value) (cst_value (Members ms w)) = Some (cst_value x)"
proof -
  let ?newline = "preferredNewline (newlineInfo (do_Raw doc))" and ?body = "members_text ms"
  let ?vs = "locate_members (Suc (length a)) ms"
  define r where "r = (length a, length a + length (cst_text (Members ms w)))"
  have loc: "locate (length a) (Members ms w) = ValueObject r ?vs" by (simp add: r_def)
  have close: "snd r - 1 = length a + 1 + length ?body + length w" by (simp add: r_def)
  obtain multiline offset indent where ins: "jsonCollectionInsertion (do_Raw doc) (ValueObject r ?vs) (snd r - 1) = (multiline, offset, indent)"
    by (metis prod_cases3)
  obtain key encoded where run': "token \<notin> fst ` set ?vs" "Marshal (GoString token) = Inr key"
    "renderJSONFragment value multiline indent ?newline = Inr encoded"
    "edit = \<lparr>be_start = (if multiline \<and> ?vs \<noteq> [] then end_of (snd (List.last ?vs)) else offset),
       be_end = offset, be_replacement = item_separator (?vs = []) multiline ?newline indent @ key @ '': '' @ encoded @ (if multiline then ?newline else [])\<rparr>"
    using jsonAdd_object [OF run(1) [unfolded loc] ins] by metis
  define st where "st = (if multiline \<and> \<not> ms = [] then length a + 1 + length ?body else offset)"
  have edit: "edit = \<lparr>be_start = st, be_end = offset,
      be_replacement = item_separator (ms = []) multiline ?newline indent @ (key @ '': '' @ encoded) @ (if multiline then ?newline else [])\<rparr>"
    using run'(4) end_of_last(2) [of ms "Suc (length a)"] by (simp add: st_def del: range_of_locate)
  have indent: "multiline \<Longrightarrow> space indent" using clear [unfolded clear_line_def loc] ins by simp
  have indent': "space (if multiline then indent else [])" using indent by simp
  have "renderJSONFragment value multiline (if multiline then indent else []) ?newline = Inr encoded"
    using run'(3) by (cases multiline) (simp_all add: renderJSONFragment_def)
  then obtain x where x: "cst_ok x" "cst_text x = encoded" "cst_value x = encoded_value value"
    using renderJSONFragment_tree [OF _ v indent' preferredNewline_space] by metis
  have key: "string_token token key" using Marshal_string_token [OF run'(2)] .
  have raw': "do_Raw doc = a @ CHR ''{'' # ?body @ w @ CHR ''}'' # b" using raw by simp
  have "\<exists>l v. lead_ok (comma (ms = [])) l \<and> space v \<and>
    (\<forall>z. apply_edit (do_Raw doc) \<lparr>be_start = st, be_end = offset,
             be_replacement = item_separator (ms = []) multiline ?newline indent @ z @ (if multiline then ?newline else [])\<rparr> =
       a @ CHR ''{'' # ?body @ l @ z @ v @ CHR ''}'' # b)"
    by (rule insertion [OF raw' ins [unfolded close] _ st_def _ _ _ preferredNewline_space indent])
      (use run(2) ok in \<open>simp_all add: edit r_def\<close>)
  then obtain l u where l: "lead_ok (comma (ms = [])) l" "space u"
    "apply_edit (do_Raw doc) edit = a @ CHR ''{'' # ?body @ l @ (key @ '': '' @ encoded) @ u @ CHR ''}'' # b"
    unfolding edit by blast
  let ?x = "Members (ms @ [((l, key, token, '': ''), x)]) u"
  have colon: "lead_ok (Some CHR '':'') '': ''" unfolding lead_ok_def option.case
    by (intro exI [of _ "[]"] exI [of _ "'' ''"]) (simp add: is_space_def)
  have fresh: "token \<notin> set (map (head_key \<circ> fst) ms)" using run'(1) keys_locate [of "Suc (length a)" ms] by (metis list.set_map)
  then have "cst_ok ?x" using ok l(1,2) x(1) key colon by (simp add: leads_ok_append)
  moreover have "apply_edit (do_Raw doc) edit = a @ cst_text ?x @ b" using l(3) x(2) by simp
  moreover have "add_part token (encoded_value value) (cst_value (Members ms w)) = Some (cst_value ?x)"
    using fresh x(3) keys_of_value [of ms] by (simp add: add_part_def del: set_map)
  ultimately show ?thesis by blast
qed

section \<open>Removals\<close>

text \<open>
  Removing one of several parts: a part that has a successor gives its lead to it, the last part
  goes with its lead.  The bytes that go are those from the part's own text to the next one's, or
  from the end of the part before.
\<close>

fun remove_lead :: "nat \<Rightarrow> (string \<times> 'a) list \<Rightarrow> (string \<times> 'a) list" where
  "remove_lead 0 ((l, x) # (m, y) # xs) = (l, y) # xs"
| "remove_lead (Suc i) (x # xs) = x # remove_lead i xs"
| "remove_lead i xs = []"

lemma remove_lead_text:
  "i < length xs \<Longrightarrow> concat (map (\<lambda>(l, t). l @ f t) (remove_lead i xs)) =
     (if Suc i < length xs
      then concat (map (\<lambda>(l, t). l @ f t) (take i xs)) @ fst (xs ! i) @ f (snd (xs ! Suc i)) @
        concat (map (\<lambda>(l, t). l @ f t) (drop (Suc (Suc i)) xs))
      else concat (map (\<lambda>(l, t). l @ f t) (take i xs)))"
  by (induction i xs rule: remove_lead.induct) auto

lemma remove_lead_parts:
  "i < length xs \<Longrightarrow> map snd (remove_lead i xs) = take i (map snd xs) @ drop (Suc i) (map snd xs)"
  by (induction i xs rule: remove_lead.induct) (auto simp: take_map drop_map)

lemma element_text_eq: "element_text = (\<lambda>(l, c). l @ cst_text c)"
  by auto

lemma leads_ok_remove: "leads_ok first (map fst xs) \<Longrightarrow> leads_ok first (map fst (remove_lead i xs))"
  by (induction i xs arbitrary: first rule: remove_lead.induct) auto

lemma splice_out: "raw = p @ q @ r \<Longrightarrow> st = length p \<Longrightarrow> stop = length p + length q \<Longrightarrow>
  apply_edit raw \<lparr>be_start = st, be_end = stop, be_replacement = []\<rparr> = p @ r"
  by (simp add: apply_edit_def)

lemma jsonRemove_array:
  assumes "jsonRemove doc (ValueArray r vs) token = Inr edit"
  obtains i where "patchArrayIndex token (length vs) = Inr i"
    "edit = (if length vs = 1 then \<lparr>be_start = start_of (vs ! i), be_end = end_of (vs ! i), be_replacement = []\<rparr>
      else if i < length vs - 1 then \<lparr>be_start = start_of (vs ! i), be_end = start_of (vs ! Suc i), be_replacement = []\<rparr>
      else \<lparr>be_start = end_of (vs ! (i - 1)), be_end = end_of (vs ! i), be_replacement = []\<rparr>)"
proof -
  from assms obtain i where i: "patchArrayIndex token (length vs) = Inr i" by (auto simp: jsonRemove_def bindR_eq_Inr_iff)
  show thesis
    by (rule that [OF i]) (use assms i in \<open>simp add: jsonRemove_def Let_def split: if_splits\<close>)
qed

lemma jsonRemove_object:
  assumes "jsonRemove doc (ValueObject r ms) token = Inr edit"
  obtains i where "find_index (\<lambda>m. fst m = token) ms = Some i"
    "edit = (if length ms = 1
      then \<lparr>be_start = key_start (do_Raw doc) (ValueObject r ms) ms i, be_end = end_of (snd (ms ! i)), be_replacement = []\<rparr>
      else if i < length ms - 1
      then \<lparr>be_start = key_start (do_Raw doc) (ValueObject r ms) ms i, be_end = key_start (do_Raw doc) (ValueObject r ms) ms (Suc i),
             be_replacement = []\<rparr>
      else \<lparr>be_start = end_of (snd (ms ! (i - 1))), be_end = end_of (snd (ms ! i)), be_replacement = []\<rparr>)"
proof -
  from assms obtain i where i: "find_index (\<lambda>m. fst m = token) ms = Some i" by (auto simp: jsonRemove_def split: option.splits)
  show thesis
    by (rule that [OF i]) (use assms i in \<open>simp add: jsonRemove_def Let_def split: if_splits\<close>)
qed

lemma jsonRemove_elements:
  assumes raw: "do_Raw doc = a @ cst_text (Elements xs w) @ b" and ok: "cst_ok (Elements xs w)"
    and run: "jsonRemove doc (locate (length a) (Elements xs w)) token = Inr edit"
  shows "\<exists>x. cst_ok x \<and> apply_edit (do_Raw doc) edit = a @ cst_text x @ b \<and>
    remove_part token (cst_value (Elements xs w)) = Some (cst_value x)"
proof -
  let ?n = "Suc (length a)" and ?t = elements_text
  let ?vs = "locate_elements ?n xs"
  define r where "r = (length a, length a + length (cst_text (Elements xs w)))"
  have "locate (length a) (Elements xs w) = ValueArray r ?vs" by (simp add: r_def)
  from jsonRemove_array [OF run [unfolded this]] obtain i where i: "patchArrayIndex token (length xs) = Inr i"
    and edit: "edit = (if length xs = 1 then \<lparr>be_start = start_of (?vs ! i), be_end = end_of (?vs ! i), be_replacement = []\<rparr>
      else if i < length xs - 1 then \<lparr>be_start = start_of (?vs ! i), be_end = start_of (?vs ! Suc i), be_replacement = []\<rparr>
      else \<lparr>be_start = end_of (?vs ! (i - 1)), be_end = end_of (?vs ! i), be_replacement = []\<rparr>)"
    unfolding length_locate by metis
  then have len: "i < length xs" by (auto simp: patchArrayIndex_def split: option.splits if_splits)
  obtain l c where lc: "xs ! i = (l, c)" by (cases "xs ! i")
  have whole: "do_Raw doc = (a @ CHR ''['' # ?t (take i xs)) @ l @ cst_text c @ ?t (drop (Suc i) xs) @ w @ CHR '']'' # b"
    using raw take_nth_drop [OF len, of element_text] lc by simp
  have start: "start_of (?vs ! i) = ?n + length (?t (take i xs)) + length l" "end_of (?vs ! i) = ?n + length (?t (take i xs)) + length l + length (cst_text c)"
    using nth_locate_elements [OF len, of ?n] lc by simp_all
  let ?vals = "map (\<lambda>(l, c). cst_value c) xs"
  have removed: "remove_part token (cst_value (Elements xs w)) = Some (GoArray (take i ?vals @ drop (Suc i) ?vals))"
    using i by (simp add: remove_part_def)
  show ?thesis
  proof (cases "length xs = 1")
    case True
    then have xs: "xs = [(l, c)]" "i = 0" using len lc by (cases xs; simp)+
    have "apply_edit (do_Raw doc) edit = (a @ CHR ''['' # l) @ w @ CHR '']'' # b"
      unfolding edit if_P [OF True] start by (rule splice_out [of _ _ "cst_text c"]) (simp_all add: whole xs)
    moreover have "cst_ok (Elements [] (l @ w))" using ok xs by (simp add: lead_ok_def)
    ultimately show ?thesis using removed xs by (intro exI [of _ "Elements [] (l @ w)"]) simp
  next
    case False
    let ?x = "Elements (remove_lead i xs) w"
    have "apply_edit (do_Raw doc) edit = a @ cst_text ?x @ b"
    proof (cases "Suc i < length xs")
      case True
      then have e: "edit = \<lparr>be_start = start_of (?vs ! i), be_end = start_of (?vs ! Suc i), be_replacement = []\<rparr>"
        using edit False by (simp add: less_diff_conv)
      obtain m d where md: "xs ! Suc i = (m, d)" by (cases "xs ! Suc i")
      have drop: "drop (Suc i) xs = (m, d) # drop (Suc (Suc i)) xs" using Cons_nth_drop_Suc [OF True] md by simp
      have stop: "start_of (?vs ! Suc i) = start_of (?vs ! i) + length (cst_text c @ m)"
        using nth_locate_elements [OF True, of ?n] md start(1) lc len by (simp add: take_Suc_conv_app_nth)
      have "apply_edit (do_Raw doc) edit = (a @ CHR ''['' # ?t (take i xs) @ l) @ cst_text d @ ?t (drop (Suc (Suc i)) xs) @ w @ CHR '']'' # b"
        unfolding e stop by (rule splice_out [of _ _ "cst_text c @ m"]) (simp_all add: whole drop start(1))
      moreover have "?t (remove_lead i xs) = ?t (take i xs) @ l @ cst_text d @ ?t (drop (Suc (Suc i)) xs)"
        using remove_lead_text [OF len, of cst_text] True lc md by (simp add: element_text_eq)
      ultimately show ?thesis by simp
    next
      case last: False
      then have i': "0 < i" "i = length xs - 1" using False len by linarith+
      then have e: "edit = \<lparr>be_start = end_of (?vs ! (i - 1)), be_end = end_of (?vs ! i), be_replacement = []\<rparr>"
        using edit False by simp
      have drop: "drop (Suc i) xs = []" using last by simp
      have first: "end_of (?vs ! (i - 1)) = ?n + length (?t (take i xs))" using end_of_nth(1) [of "i - 1" xs ?n] len i'(1) by simp
      have "apply_edit (do_Raw doc) edit = (a @ CHR ''['' # ?t (take i xs)) @ w @ CHR '']'' # b"
        unfolding e start first by (rule splice_out [of _ _ "l @ cst_text c"]) (simp_all add: whole drop)
      moreover have "?t (remove_lead i xs) = ?t (take i xs)"
        using remove_lead_text [OF len, of cst_text] last by (simp add: element_text_eq)
      ultimately show ?thesis by simp
    qed
    moreover have "cst_ok ?x"
    proof -
      have "set (map snd (remove_lead i xs)) \<subseteq> set (map snd xs)"
        unfolding remove_lead_parts [OF len] using set_take_subset set_drop_subset by fastforce
      then have "\<forall>(l, c)\<in>set (remove_lead i xs). cst_ok c" using ok by fastforce
      then show ?thesis using ok leads_ok_remove [of True xs i] by simp
    qed
    moreover have "map (\<lambda>(l, c). cst_value c) (remove_lead i xs) = take i ?vals @ drop (Suc i) ?vals"
    proof -
      have "map (\<lambda>(l, c). cst_value c) z = map cst_value (map snd z)" for z :: "(string \<times> cst) list" by (simp add: case_prod_unfold)
      then show ?thesis by (simp only: remove_lead_parts [OF len] map_append take_map drop_map)
    qed
    ultimately show ?thesis using removed by (intro exI [of _ ?x]) simp
  qed
qed

text \<open>Members are removed with the same view: the lead, and the rest of the member.\<close>

definition lead_view :: "member_head \<times> cst \<Rightarrow> string \<times> string \<times> string \<times> string \<times> cst" where
  "lead_view m = (case m of ((l, kt, k, col), c) \<Rightarrow> (l, kt, k, col, c))"

definition unview :: "string \<times> string \<times> string \<times> string \<times> cst \<Rightarrow> member_head \<times> cst" where
  "unview v = (case v of (l, kt, k, col, c) \<Rightarrow> ((l, kt, k, col), c))"

definition payload :: "string \<times> string \<times> string \<times> cst \<Rightarrow> string" where
  "payload p = (case p of (kt, k, col, c) \<Rightarrow> kt @ col @ cst_text c)"

lemma views [simp]: "unview (lead_view m) = m" "lead_view (unview v) = v" "fst (lead_view m) = fst (fst m)" "fst (fst (unview v)) = fst v"
  by (auto simp: lead_view_def unview_def case_prod_unfold)

lemma member_text_view: "member_text m = fst (lead_view m) @ payload (snd (lead_view m))"
  by (auto simp: lead_view_def payload_def member_text_def case_prod_unfold head_text_def)

lemma members_text_view: "members_text ms = concat (map (\<lambda>(l, t). l @ payload t) (map lead_view ms))"
  by (simp add: comp_def case_prod_unfold member_text_view [abs_def])

definition remove_member :: "nat \<Rightarrow> (member_head \<times> cst) list \<Rightarrow> (member_head \<times> cst) list" where
  "remove_member i ms = map unview (remove_lead i (map lead_view ms))"

lemma remove_member_text:
  assumes "i < length ms"
  shows "members_text (remove_member i ms) =
    (if Suc i < length ms
     then members_text (take i ms) @ fst (fst (ms ! i)) @ payload (snd (lead_view (ms ! Suc i))) @ members_text (drop (Suc (Suc i)) ms)
     else members_text (take i ms))"
proof -
  have v: "map lead_view (remove_member i ms) = remove_lead i (map lead_view ms)" by (simp add: remove_member_def comp_def)
  have "i < length (map lead_view ms)" using assms by simp
  from remove_lead_text [OF this, of payload] show ?thesis
    using assms by (cases "Suc i < length ms")
      (simp_all only: members_text_view v length_map take_map drop_map nth_map views if_True if_False)
qed

lemma remove_member_parts:
  assumes "i < length ms"
  shows "map (snd \<circ> lead_view) (remove_member i ms) = take i (map (snd \<circ> lead_view) ms) @ drop (Suc i) (map (snd \<circ> lead_view) ms)"
  using remove_lead_parts [of i "map lead_view ms"] assms by (simp add: remove_member_def comp_def)

lemma lead_spaces: "lead_ok (comma first) l \<Longrightarrow> \<forall>c\<in>set l. is_space c \<or> c = CHR '','' \<or> c = CHR '':''"
  by (auto simp: lead_ok_def space_def list_all_iff split: if_splits)

lemma leads_ok_nth: "leads_ok first ls \<Longrightarrow> i < length ls \<Longrightarrow> \<exists>f. lead_ok (comma f) (ls ! i)"
proof (induction ls arbitrary: first i)
  case (Cons l ls)
  show ?case
  proof (cases i)
    case 0
    with Cons.prems show ?thesis by (intro exI [of _ first]) simp
  next
    case (Suc j)
    with Cons.prems Cons.IH [of False j] show ?thesis by simp
  qed
qed simp

lemma tokenStart_lead:
  assumes "raw = p @ l @ s @ r" "\<forall>c\<in>set l. is_space c \<or> c = CHR '','' \<or> c = CHR '':''" "string_token k s" "n = length p"
  shows "tokenStart raw n = n + length l"
proof -
  obtain t where "s = char_of (34::nat) # t" using string_token_start [OF assms(3)] by blast
  moreover have "\<not> is_space (char_of (34::nat))" "char_of (34::nat) \<noteq> CHR '',''" "char_of (34::nat) \<noteq> CHR '':''" by code_simp+
  ultimately have "takeWhile (\<lambda>c. is_space c \<or> c = CHR '','' \<or> c = CHR '':'') (l @ s @ r) = l" using assms(2) by (simp add: takeWhile_append)
  then show ?thesis using assms(1,4) by (simp add: tokenStart_def)
qed

lemma key_start_locate:
  assumes raw: "raw = a @ cst_text (Members ms w) @ b" and ok: "cst_ok (Members ms w)" and i: "i < length ms" and p: "start_of parent = length a"
  shows "key_start raw parent (locate_members (Suc (length a)) ms) i = Suc (length a) + length (members_text (take i ms)) + length (fst (fst (ms ! i)))"
proof -
  let ?n = "Suc (length a)"
  obtain l kt k col c where m: "ms ! i = ((l, kt, k, col), c)" by (metis prod.exhaust)
  have "\<exists>f. lead_ok (comma f) l" using leads_ok_nth [of True "map (fst \<circ> fst) ms" i] ok i m by simp
  then have l: "\<forall>c\<in>set l. is_space c \<or> c = CHR '','' \<or> c = CHR '':''" using lead_spaces by blast
  have kt: "string_token k kt" using ok nth_mem [OF i] m by auto
  have "(if i = 0 then Suc (start_of parent) else end_of (snd (locate_members ?n ms ! (i - 1)))) = ?n + length (members_text (take i ms))"
    using p end_of_nth(2) [of "i - 1" ms ?n] i by (cases i) simp_all
  moreover have "tokenStart raw (?n + length (members_text (take i ms))) = ?n + length (members_text (take i ms)) + length l"
    by (rule tokenStart_lead [OF _ l kt, of _ "a @ CHR ''{'' # members_text (take i ms)" "col @ cst_text c @ members_text (drop (Suc i) ms) @ w @ ''}'' @ b"])
      (use raw take_nth_drop [OF i, of member_text] m in simp_all)
  ultimately show ?thesis unfolding key_start_def m by simp
qed

lemma filter_distinct_index:
  "distinct (map fst ms) \<Longrightarrow> find_index (\<lambda>m. fst m = t) ms = Some i \<Longrightarrow> filter (\<lambda>m. fst m \<noteq> t) ms = take i ms @ drop (Suc i) ms"
proof (induction ms arbitrary: i)
  case (Cons m ms)
  show ?case
  proof (cases "fst m = t")
    case True
    then have "filter (\<lambda>m. fst m \<noteq> t) ms = ms" using Cons.prems(1) by (intro filter_True) (metis distinct.simps(2) image_eqI list.set_map list.simps(9))
    then show ?thesis using True Cons.prems(2) by simp
  next
    case False
    with Cons show ?thesis by auto
  qed
qed simp

lemma jsonRemove_members:
  assumes raw: "do_Raw doc = a @ cst_text (Members ms w) @ b" and ok: "cst_ok (Members ms w)"
    and run: "jsonRemove doc (locate (length a) (Members ms w)) token = Inr edit"
  shows "\<exists>x. cst_ok x \<and> apply_edit (do_Raw doc) edit = a @ cst_text x @ b \<and>
    remove_part token (cst_value (Members ms w)) = Some (cst_value x)"
proof -
  let ?n = "Suc (length a)" and ?t = members_text
  let ?vs = "locate_members ?n ms"
  define r where "r = (length a, length a + length (cst_text (Members ms w)))"
  let ?p = "ValueObject r ?vs" and ?raw = "do_Raw doc"
  have "locate (length a) (Members ms w) = ?p" by (simp add: r_def)
  from jsonRemove_object [OF run [unfolded this]] obtain i where i: "find_index (\<lambda>m. head_key (fst m) = token) ms = Some i"
    and edit: "edit = (if length ms = 1
      then \<lparr>be_start = key_start ?raw ?p ?vs i, be_end = end_of (snd (?vs ! i)), be_replacement = []\<rparr>
      else if i < length ms - 1
      then \<lparr>be_start = key_start ?raw ?p ?vs i, be_end = key_start ?raw ?p ?vs (Suc i), be_replacement = []\<rparr>
      else \<lparr>be_start = end_of (snd (?vs ! (i - 1))), be_end = end_of (snd (?vs ! i)), be_replacement = []\<rparr>)"
    unfolding length_locate find_located by metis
  have len: "i < length ms" using find_index_SomeD [OF i] by simp
  obtain l kt k col c where m: "ms ! i = ((l, kt, k, col), c)" by (metis prod.exhaust)
  let ?part = "kt @ col @ cst_text c"
  have whole: "?raw = (a @ CHR ''{'' # ?t (take i ms)) @ l @ ?part @ ?t (drop (Suc i) ms) @ w @ CHR ''}'' # b"
    using raw take_nth_drop [OF len, of member_text] m by simp
  have "start_of ?p = length a" by (simp add: r_def)
  note keys = key_start_locate [OF raw ok _ this]
  have start: "key_start ?raw ?p ?vs i = ?n + length (?t (take i ms)) + length l"
    "end_of (snd (?vs ! i)) = ?n + length (?t (take i ms)) + length l + length ?part"
    using keys [OF len] nth_locate_members [OF len, of ?n] m by simp_all
  let ?vals = "map (\<lambda>(h, c). (head_key h, cst_value c)) ms"
  have d: "distinct (map fst ?vals)" "find_index (\<lambda>m. fst m = token) ?vals = Some i"
    using ok i by (simp_all add: find_index_map comp_def case_prod_unfold)
  have at: "i < length ?vals" "fst (?vals ! i) = token" using find_index_SomeD [OF d(2)] by blast+
  have "token \<in> fst ` set ?vals" by (rule image_eqI [where f = fst and x = "?vals ! i"]) (use at in \<open>simp_all only: nth_mem\<close>)
  then have removed: "remove_part token (cst_value (Members ms w)) = Some (GoObject (take i ?vals @ drop (Suc i) ?vals))"
    using filter_distinct_index [OF d] by (simp add: remove_part_def del: set_map)
  show ?thesis
  proof (cases "length ms = 1")
    case True
    then have ms: "ms = [((l, kt, k, col), c)]" "i = 0" using len m by (cases ms; simp)+
    have "apply_edit ?raw edit = (a @ CHR ''{'' # l) @ w @ CHR ''}'' # b"
      unfolding edit if_P [OF True] start by (rule splice_out [of _ _ ?part]) (simp_all add: whole ms)
    moreover have "cst_ok (Members [] (l @ w))" using ok ms by (simp add: lead_ok_def)
    ultimately show ?thesis using removed ms by (intro exI [of _ "Members [] (l @ w)"]) simp
  next
    case False
    let ?x = "Members (remove_member i ms) w"
    have "apply_edit ?raw edit = a @ cst_text ?x @ b"
    proof (cases "Suc i < length ms")
      case True
      then have e: "edit = \<lparr>be_start = key_start ?raw ?p ?vs i, be_end = key_start ?raw ?p ?vs (Suc i), be_replacement = []\<rparr>"
        using edit False by (simp add: less_diff_conv)
      obtain l' kt' k' col' c' where m': "ms ! Suc i = ((l', kt', k', col'), c')" by (metis prod.exhaust)
      have drop: "drop (Suc i) ms = ((l', kt', k', col'), c') # drop (Suc (Suc i)) ms" using Cons_nth_drop_Suc [OF True] m' by simp
      have stop: "key_start ?raw ?p ?vs (Suc i) = key_start ?raw ?p ?vs i + length (?part @ l')"
        using keys [OF True] start(1) m m' len by (simp add: take_Suc_conv_app_nth)
      have "apply_edit ?raw edit = (a @ CHR ''{'' # ?t (take i ms) @ l) @ kt' @ col' @ cst_text c' @ ?t (drop (Suc (Suc i)) ms) @ w @ CHR ''}'' # b"
        unfolding e stop start(1) by (rule splice_out [of _ _ "?part @ l'"]) (simp_all add: whole drop)
      moreover have "?t (remove_member i ms) = ?t (take i ms) @ l @ kt' @ col' @ cst_text c' @ ?t (drop (Suc (Suc i)) ms)"
        using remove_member_text [OF len] True m m' by (simp add: payload_def lead_view_def)
      ultimately show ?thesis by simp
    next
      case last: False
      then have i': "0 < i" "i = length ms - 1" using False len by linarith+
      then have e: "edit = \<lparr>be_start = end_of (snd (?vs ! (i - 1))), be_end = end_of (snd (?vs ! i)), be_replacement = []\<rparr>"
        using edit False by simp
      have drop: "drop (Suc i) ms = []" using last by simp
      have first: "end_of (snd (?vs ! (i - 1))) = ?n + length (?t (take i ms))" using end_of_nth(2) [of "i - 1" ms ?n] len i'(1) by simp
      have "apply_edit ?raw edit = (a @ CHR ''{'' # ?t (take i ms)) @ w @ CHR ''}'' # b"
        unfolding e start first by (rule splice_out [of _ _ "l @ ?part"]) (simp_all add: whole drop)
      moreover have "?t (remove_member i ms) = ?t (take i ms)" using remove_member_text [OF len] last by simp
      ultimately show ?thesis by simp
    qed
    moreover have parts: "map (g \<circ> (snd \<circ> lead_view)) (remove_member i ms) = take i (map (g \<circ> (snd \<circ> lead_view)) ms) @ drop (Suc i) (map (g \<circ> (snd \<circ> lead_view)) ms)"
      for g :: "string \<times> string \<times> string \<times> cst \<Rightarrow> 'z"
      using arg_cong [OF remove_member_parts [OF len], of "map g"] by (simp add: take_map drop_map comp_assoc)
    have keys': "(\<lambda>(kt, k, col, c). k) \<circ> (snd \<circ> lead_view) = head_key \<circ> fst"
      "(\<lambda>(kt, k, col, c). (k, cst_value c)) \<circ> (snd \<circ> lead_view) = (\<lambda>(h, c). (head_key h, cst_value c))"
      by (auto simp: fun_eq_iff lead_view_def head_key_def)
    have vals: "map (\<lambda>(h, c). (head_key h, cst_value c)) (remove_member i ms) = take i ?vals @ drop (Suc i) ?vals"
      using parts [of "\<lambda>(kt, k, col, c). (k, cst_value c)"] by (simp only: keys')
    have "cst_ok ?x"
    proof -
      have "map (fst \<circ> fst) z = map fst (map lead_view z)" for z :: "(member_head \<times> cst) list" by simp
      then have "leads_ok True (map (fst \<circ> fst) (remove_member i ms))"
        using ok leads_ok_remove [of True "map lead_view ms" i] by (simp add: remove_member_def comp_def)
      moreover have "map (head_key \<circ> fst) (remove_member i ms) = take i (map (head_key \<circ> fst) ms) @ drop (Suc i) (map (head_key \<circ> fst) ms)"
        using parts [of "\<lambda>(kt, k, col, c). k"] by (simp only: keys')
      then have "distinct (map (head_key \<circ> fst) (remove_member i ms))"
        using ok by (simp add: set_take_disj_set_drop_if_distinct)
      moreover have "\<forall>(h, c)\<in>set (remove_member i ms). head_ok h \<and> cst_ok c"
      proof -
        define ok_rest where "ok_rest = (\<lambda>(kt, k, col, c). string_token k kt \<and> lead_ok (Some CHR '':'') col \<and> cst_ok c)"
        have ok_rest: "head_ok (fst m) \<and> cst_ok (snd m) \<longleftrightarrow> (ok_rest \<circ> (snd \<circ> lead_view)) m" for m
          by (auto simp: ok_rest_def lead_view_def head_ok_def case_prod_unfold)
        have "list_all id (map (ok_rest \<circ> (snd \<circ> lead_view)) ms)"
          using ok ok_rest by (auto simp: list_all_iff)
        then have "list_all id (map (ok_rest \<circ> (snd \<circ> lead_view)) (remove_member i ms))"
          unfolding parts by (auto simp: list_all_iff dest: in_set_takeD in_set_dropD)
        then show ?thesis using ok_rest by (auto simp: list_all_iff)
      qed
      ultimately show ?thesis using ok by simp
    qed
    ultimately show ?thesis using removed vals by (intro exI [of _ ?x]) simp
  qed
qed

section \<open>One patch\<close>

text \<open>The condition on an addition: the indentation it copies is white space.\<close>

definition keeps_lines :: "document \<Rightarrow> patch_operation \<Rightarrow> bool" where
  "keeps_lines doc operation \<longleftrightarrow>
     (po_Kind operation = PatchAdd \<longrightarrow>
       (case bindR (splitPatchPointer (po_Pointer operation)) (\<lambda>(parent, _). lookupValue (do_Root doc) parent) of
          Inl _ \<Rightarrow> True
        | Inr parent \<Rightarrow> clear_line (do_Raw doc) parent))"

lemma is_blank_space: "list_all is_blank s \<Longrightarrow> space s"
  by (induction s) (auto simp: is_blank_def is_space_def)

lemma jsonLineIndent_space [simp]: "space (jsonLineIndent raw n)"
proof -
  have "list_all is_blank (jsonLineIndent raw n)"
    by (auto simp: jsonLineIndent_def list_all_iff dest: set_takeWhileD)
  then show ?thesis by (rule is_blank_space)
qed

lemma apply_edit_part:
  "raw = p @ q @ r \<Longrightarrow> st = length p \<Longrightarrow> stop = length p + length q \<Longrightarrow>
     apply_edit raw \<lparr>be_start = st, be_end = stop, be_replacement = s\<rparr> = p @ s @ r"
  by (simp add: apply_edit_def)

lemma scalarReplacementValue_encoded:
  "scalarReplacementValue u = Some v \<Longrightarrow> encoded_value u = v \<and> scalarReplacementValue (Direct v) = Some v"
  by (induction u rule: scalarReplacementValue.induct) auto

lemma Marshal_scalar_tree:
  assumes "Marshal v = Inr s" "scalarReplacementValue (Direct v) = Some v" "plain v"
  shows "token_ok v s"
proof -
  have v: "supported v" using assms(1) by (simp add: Marshal_ok_iff [symmetric] del: supported.simps)
  then have "s = enc (canon v)" using assms(1) by (simp add: Marshal_enc)
  then show ?thesis
    using assms v Marshal_string_token int_string_token by (cases v) auto
qed

text \<open>What an operation does to the bytes, for the tree of the document and any place in it.\<close>

lemma applyOnePatch_tree:
  assumes raw: "do_Raw doc = a @ cst_text c @ b" "do_Root doc = locate (length a) c" and ok: "cst_ok c"
    and run: "applyOnePatch doc operation = Inr out"
    and v: "struct_value (encoded_value (po_Value operation))" and lines: "keeps_lines doc operation"
  shows "\<exists>y. cst_ok y \<and> out = a @ cst_text y @ b \<and> patched_value operation (cst_value c) = Some (cst_value y)"
proof -
  let ?w = "encoded_value (po_Value operation)" and ?tokens = "pointerTokens (po_Pointer operation)"
  have put: "\<exists>y. cst_ok y \<and> (a @ d) @ cst_text x @ e @ b = a @ cst_text y @ b \<and> update_at ts f (cst_value c) = Some (cst_value y)"
    if "part_of ts c p d e" "cst_ok x" "f (cst_value p) = Some (cst_value x)" for ts p d e x f
    using that unfolding part_of_def by (metis append.assoc)
  have part: "\<exists>p d e. part_of (pointerTokens pointer) c p d e \<and> u = locate (length (a @ d)) p \<and> do_Raw doc = (a @ d) @ cst_text p @ e @ b \<and> cst_ok p"
    if found: "lookupValue (do_Root doc) pointer = Inr u" for pointer u
  proof -
    obtain p d e where "part_of (pointerTokens pointer) c p d e" "u = locate (length a + length d) p"
      using lookup_part [OF found [unfolded lookupValue_def raw(2)] ok] by blast
    then show ?thesis using raw(1) by (intro exI [of _ p] exI [of _ d] exI [of _ e]) (simp add: part_of_def)
  qed
  show ?thesis
  proof (cases "replaces_scalar doc operation")
    case (Some scalar)
    then obtain u where u: "lookupValue (do_Root doc) (po_Pointer operation) = Inr u" "po_Kind operation = PatchReplace"
      "\<not> is_collection u" "scalarReplacementValue (po_Value operation) = Some scalar"
      by (auto simp: replaces_scalar_def split: sum.splits if_splits)
    note scalar = scalarReplacementValue_encoded [OF u(4)]
    obtain p d e where p: "part_of ?tokens c p d e" "u = locate (length (a @ d)) p" "do_Raw doc = (a @ d) @ cst_text p @ e @ b"
      using part [OF u(1)] by blast
    from run Some have "ReplaceScalars doc [(po_Pointer operation, Direct scalar)] = Inr out"
      by (auto simp: applyOnePatch_def split: if_splits)
    then obtain s where s: "Marshal scalar = Inr s"
      "out = apply_edit (do_Raw doc) \<lparr>be_start = start_of u, be_end = end_of u, be_replacement = s\<rparr>"
      using u(1,3) by (auto simp: ReplaceScalars_def scalar_edit_def bindR_eq_Inr_iff split: sum.splits if_splits)
    have "token_ok scalar s" using Marshal_scalar_tree [OF s(1)] scalar v by (simp add: struct_value_def)
    moreover have "out = (a @ d) @ cst_text (Token scalar s) @ e @ b"
      using apply_edit_part [OF p(3), of "start_of u" "end_of u" s] p(2) s(2) by simp
    ultimately show ?thesis
      using put [OF p(1), of "Token scalar s" "\<lambda>_. Some ?w"] scalar u(2) by (auto simp: patched_value_def Let_def)
  next
    case None
    from run None obtain edit where edit: "jsonStructuralEdit doc operation = Inr edit" "be_start edit \<le> be_end edit"
      "out = apply_edit (do_Raw doc) edit"
      by (auto simp: applyOnePatch_def bindR_eq_Inr_iff split: if_splits)
    show ?thesis
    proof (cases "po_Kind operation = PatchReplace")
      case True
      then obtain u multiline indent s where u: "lookupValue (do_Root doc) (po_Pointer operation) = Inr u"
        "renderJSONFragment (po_Value operation) multiline indent (preferredNewline (newlineInfo (do_Raw doc))) = Inr s" "space indent"
        "edit = \<lparr>be_start = start_of u, be_end = end_of u, be_replacement = s\<rparr>"
        using edit(1) by (auto simp: jsonStructuralEdit_def bindR_eq_Inr_iff Let_def)
      obtain p d e where p: "part_of ?tokens c p d e" "u = locate (length (a @ d)) p" "do_Raw doc = (a @ d) @ cst_text p @ e @ b"
        using part [OF u(1)] by blast
      obtain x where x: "cst_ok x" "cst_text x = s" "cst_value x = ?w"
        using renderJSONFragment_tree [OF u(2) v u(3) preferredNewline_space] by blast
      have "out = (a @ d) @ cst_text x @ e @ b"
        using apply_edit_part [OF p(3), of "start_of u" "end_of u" s] p(2) edit(3) u(4) x(2) by simp
      then show ?thesis using put [OF p(1) x(1), of "\<lambda>_. Some ?w"] x(3) True by (auto simp: patched_value_def Let_def)
    next
      case False
      with edit(1) obtain pointer token u where u: "splitPatchPointer (po_Pointer operation) = Inr (pointer, token)"
        "lookupValue (do_Root doc) pointer = Inr u"
        "(if po_Kind operation = PatchAdd then jsonAdd doc u token (po_Value operation) else jsonRemove doc u token) = Inr edit"
        by (auto simp: jsonStructuralEdit_def bindR_eq_Inr_iff)
      obtain p d e where p: "part_of (pointerTokens pointer) c p d e" "u = locate (length (a @ d)) p"
        "do_Raw doc = (a @ d) @ cst_text p @ e @ b" "cst_ok p"
        using part [OF u(2)] by blast
      define f where "f = (if po_Kind operation = PatchAdd then add_part token ?w else remove_part token)"
      have "\<exists>x. cst_ok x \<and> apply_edit (do_Raw doc) edit = (a @ d) @ cst_text x @ e @ b \<and> f (cst_value p) = Some (cst_value x)"
      proof (cases "po_Kind operation = PatchAdd")
        case True
        then have clear: "clear_line (do_Raw doc) (locate (length (a @ d)) p)" using lines u(1,2) p(2) by (simp add: keeps_lines_def)
        have add: "jsonAdd doc (locate (length (a @ d)) p) token (po_Value operation) = Inr edit" using u(3) True p(2) by simp
        show ?thesis
        proof (cases p)
          case (Token t s)
          with add show ?thesis by (cases t) (simp_all add: jsonAdd_def Let_def)
        next
          case (Elements xs w)
          with jsonAdd_elements [of doc "a @ d" xs w "e @ b" token "po_Value operation" edit] p add edit(2) v clear True
          show ?thesis by (simp add: f_def)
        next
          case (Members ms w)
          with jsonAdd_members [of doc "a @ d" ms w "e @ b" token "po_Value operation" edit] p add edit(2) v clear True
          show ?thesis by (simp add: f_def)
        qed
      next
        case False
        then have remove: "jsonRemove doc (locate (length (a @ d)) p) token = Inr edit" using u(3) p(2) by simp
        show ?thesis
        proof (cases p)
          case (Token t s)
          with remove show ?thesis by (cases t) (simp_all add: jsonRemove_def)
        next
          case (Elements xs w)
          with jsonRemove_elements [of doc "a @ d" xs w "e @ b" token edit] p remove False show ?thesis by (simp add: f_def)
        next
          case (Members ms w)
          with jsonRemove_members [of doc "a @ d" ms w "e @ b" token edit] p remove False show ?thesis by (simp add: f_def)
        qed
      qed
      then obtain x where x: "cst_ok x" "apply_edit (do_Raw doc) edit = (a @ d) @ cst_text x @ e @ b" "f (cst_value p) = Some (cst_value x)"
        by blast
      have "patched_value operation = update_at (pointerTokens pointer) f"
        using False splitPatchPointer_tokens [OF u(1)]
        by (cases "po_Kind operation") (simp_all add: fun_eq_iff patched_value_def f_def Let_def)
      then show ?thesis using put [OF p(1) x(1), of f] x(3) edit(3) x(2) by simp
    qed
  qed
qed


section \<open>Sequences of patches\<close>

fun lines_kept :: "document \<Rightarrow> patch_operation list \<Rightarrow> bool" where
  "lines_kept doc [] = True"
| "lines_kept doc (operation # operations) \<longleftrightarrow>
     keeps_lines doc operation \<and>
     (case bindR (applyOnePatch doc operation) parsePatchedBytes of
        Inl _ \<Rightarrow> True
      | Inr current \<Rightarrow> lines_kept current operations)"

lemma parsePatchedBytes_Inr:
  "parsePatchedBytes raw = Inr d \<longleftrightarrow> ParseJSON (Inr raw) DefaultLimits = Inr (do_Root d) \<and> do_Raw d = raw"
  by (cases d) (auto simp: parsePatchedBytes_def split: sum.splits)

lemma ApplyPatch_tree:
  "ApplyPatch doc operations = Inr out \<Longrightarrow> ParseJSON (Inr (do_Raw doc)) DefaultLimits = Inr (do_Root doc) \<Longrightarrow>
     list_all (\<lambda>operation. struct_value (encoded_value (po_Value operation))) operations \<Longrightarrow> lines_kept doc operations \<Longrightarrow>
     \<exists>d. ParseJSON (Inr out) DefaultLimits = Inr d \<and> patched_values operations (Any (do_Root doc)) = Some (Any d)"
proof (induction operations arbitrary: doc)
  case Nil
  then show ?case by auto
next
  case (Cons operation operations)
  from Cons.prems(1) obtain patched current where run: "applyOnePatch doc operation = Inr patched"
    "parsePatchedBytes patched = Inr current" "ApplyPatch current operations = Inr out"
    by (auto simp: bindR_eq_Inr_iff)
  obtain a c b where c: "do_Raw doc = a @ cst_text c @ b" "space a" "space b" "cst_ok c" "do_Root doc = locate (length a) c"
    by (rule ParseJSON_syntax [OF Cons.prems(2)])
  obtain y where y: "cst_ok y" "patched = a @ cst_text y @ b" "patched_value operation (cst_value c) = Some (cst_value y)"
    using applyOnePatch_tree [OF c(1,5,4) run(1)] Cons.prems(3,4) by auto
  have next_doc: "ParseJSON (Inr (do_Raw current)) DefaultLimits = Inr (do_Root current)" "do_Raw current = patched"
    using run(2) by (simp_all add: parsePatchedBytes_Inr)
  have "Any (do_Root current) = cst_value y"
    using ParseJSON_text(2) [OF next_doc(1) [unfolded next_doc(2) y(2)] c(2,3) y(1)] .
  moreover have "Any (do_Root doc) = cst_value c"
    using ParseJSON_text(2) [OF Cons.prems(2) [unfolded c(1)] c(2,3,4)] .
  moreover obtain d where "ParseJSON (Inr out) DefaultLimits = Inr d" "patched_values operations (Any (do_Root current)) = Some (Any d)"
    using Cons.IH [OF run(3) next_doc(1)] Cons.prems(3,4) run(1,2) by auto
  ultimately show ?case using y(3) by auto
qed

text \<open>
  C7: The byte edits of a JSON document implement the patches of its value: when the edits succeed on
  a parsed document, the values written are those of encoded structures, and no element is added
  after a bracket that follows text on its line, then the bytes that come out parse, within the same
  limits, and the value they parse to is the value of the document with the operations applied to
  it, members in their order.
\<close>

theorem ApplyPatch_refines:
  assumes "ApplyPatch doc operations = Inr out" "ParseJSON (Inr (do_Raw doc)) DefaultLimits = Inr (do_Root doc)"
    and "list_all (\<lambda>operation. struct_value (encoded_value (po_Value operation))) operations" "lines_kept doc operations"
  shows "\<exists>d. ParseJSON (Inr out) DefaultLimits = Inr d \<and> patched_values operations (Any (do_Root doc)) = Some (Any d)"
  using ApplyPatch_tree [OF assms] .

definition quoted_lines :: "string \<Rightarrow> string" where
  "quoted_lines s = map (\<lambda>c. if c = CHR ''%'' then CHR 0x22 else if c = CHR ''|'' then CHR 0x0A else c) s"

definition small_document :: document where
  "small_document =
     (case parsePatchedBytes (quoted_lines ''{|  %a%: [|    1,|    true|  ],|  %b%: {}|}'') of
        Inr doc \<Rightarrow> doc
      | Inl _ \<Rightarrow> \<lparr>do_Raw = [], do_Root = ValueNull (0, 0)\<rparr>)"

definition small_operations :: "patch_operation list" where
  "small_operations =
     [\<lparr>po_Kind = PatchAdd, po_Pointer = ''/a/-'', po_Value = Direct (GoArray [GoBool False])\<rparr>,
      \<lparr>po_Kind = PatchReplace, po_Pointer = ''/a/1'', po_Value = Direct (GoString ''x'')\<rparr>,
      \<lparr>po_Kind = PatchRemove, po_Pointer = ''/b'', po_Value = Direct GoNull\<rparr>]"

lemma small_document_parsed:
  "ParseJSON (Inr (do_Raw small_document)) DefaultLimits = Inr (do_Root small_document)"
proof -
  have "isOk (parsePatchedBytes (quoted_lines ''{|  %a%: [|    1,|    true|  ],|  %b%: {}|}''))" by code_simp
  then obtain d where d: "parsePatchedBytes (quoted_lines ''{|  %a%: [|    1,|    true|  ],|  %b%: {}|}'') = Inr d"
    by (auto simp: isOk_iff)
  moreover have "small_document = d" by (simp add: small_document_def d)
  ultimately show ?thesis by (simp add: parsePatchedBytes_Inr)
qed

theorem ApplyPatch_refines_witness:
  "\<exists>out d. ApplyPatch small_document small_operations = Inr out \<and>
     out = quoted_lines ''{|  %a%: [|    1,|    %x%,|    [|      false|    ]|  ]|}'' \<and>
     ParseJSON (Inr out) DefaultLimits = Inr d \<and> patched_values small_operations (Any (do_Root small_document)) = Some (Any d)"
proof -
  have run: "ApplyPatch small_document small_operations = Inr (quoted_lines ''{|  %a%: [|    1,|    %x%,|    [|      false|    ]|  ]|}'')"
    by code_simp
  have kept: "lines_kept small_document small_operations" by code_simp
  have "list_all (\<lambda>operation. struct_value (encoded_value (po_Value operation))) small_operations"
    by (simp add: small_operations_def struct_value_def) code_simp
  then show ?thesis using ApplyPatch_refines [OF run small_document_parsed _ kept] run by blast
qed




end
