(* ===== verification/Spec2Isabelle.thy ===== *)
theory Spec2Isabelle
  imports App_Errors Bin_Partitions Chronology_Properties Semantic_Properties Forecast_Targets Ledger_Decoding Sealed_Properties Transaction_Properties Authoring_History Patch_Properties
begin

text \<open>
  Verification of forecast-ledger, a program that keeps a ledger of questions and forecasts in one
  JSON or YAML file.

  The program.  A command reads the file (\<open>src/internal/document\<close>), checks it (\<open>validation\<close>, over
  the data model of \<open>ledger\<close> and the exact numbers of \<open>exact\<close>), builds a prospective ledger together
  with patches of the document (\<open>service\<close>), validates the prospective ledger, applies the patches to
  the bytes (\<open>document\<close> again) and replaces the file in a journaled transaction (\<open>storage\<close>).  A
  forecast may be sealed: its private part is encrypted and the ledger holds a commitment
  (\<open>forecastcrypto\<close>).  A target (\<open>target\<close>) is the canonical JSON (\<open>canonical\<close>) of a forecast or of
  its lifecycle up to an event, and its SHA-256 digest is what timestamps are taken of.

  Conventions.  A Go string or slice of bytes is a \<open>string\<close>, a list of bytes.  A pointer or a field
  with \<open>omitempty\<close> is an option, a struct a record whose fields carry the initials of its type
  (\<open>qu_ID\<close> is the field \<open>ID\<close> of \<open>Question\<close>), a tagged union a record of options or a datatype.  A
  function that returns an error returns a sum, \<open>Inl\<close> the error.  Integers of Go that the code bounds
  before it computes are \<open>int\<close> or \<open>nat\<close>; the words of SHA-256 are 32-bit words.  Each definition
  bears the name it has in the source where there is one.

  Foundations.  \<open>Ledger_Prelude\<close> has results, lists and decimal printing; \<open>Go_Regexp\<close>, \<open>Go_Bytes\<close>,
  \<open>Go_Crypto\<close>, \<open>Time_Format\<close> and \<open>Go_JSON\<close> write out the part of Go's library that the code uses:
  anchored regular expressions by derivatives, hexadecimal, UTF-8 and base64url, SHA-256, the layout
  of RFC 3339, and \<open>json.Marshal\<close>.

  Numbers, dates and domains.  \<open>Exact_Decimal\<close> is \<open>exact/decimal.go\<close>; its arithmetic is shown
  exact and its printed form the only spelling of a number.  \<open>Go_Time\<close> reads dates and timestamps
  (\<open>ledger/domain_semantics.go\<close>), and \<open>Domain_Semantics\<close> has scalars in domains: the comparison is a
  total order, and membership is refined to an abstract predicate.

  The model and its index.  \<open>Ledger_Model\<close> has the records of \<open>ledger/model.go\<close>, \<open>domain.go\<close>,
  \<open>question.go\<close>, \<open>forecast.go\<close> and \<open>evidence.go\<close>; \<open>Ledger_Index\<close> is \<open>index.go\<close>, which succeeds
  just when identifiers are unique and links lead to known revisions and forecasts.
  \<open>Example_Ledger\<close> is the ledger the witnesses compute with.

  JSON.  \<open>Canonical_JSON\<close> is \<open>canonical/jcs.go\<close> and \<open>JSON_Parser\<close> the strict parser of
  \<open>document/json.go\<close> with its limits on bytes, depth, nodes and scalars.  The recursion of the
  parser has the number of bytes as its measure and the depth as a bound; no fuel is chosen.
  \<open>JSON_Roundtrip\<close> shows that the parser reads what the encoder writes, that the encoder is faithful
  up to the order of members, and that the limits hold of what is accepted; \<open>JSON_Canonicalization\<close>
  shows that canonicalisation is total and idempotent on what the parser accepts.
  \<open>Struct_Encoding\<close>, \<open>Ledger_Encoding\<close>, \<open>Struct_Decoding\<close> and \<open>Ledger_Decoding\<close> encode and
  decode every struct as its tags and methods say; decoding inverts encoding, and \<open>Clone\<close> is the
  identity on ledgers nested at most 10000 deep, the bound of Go's decoder.  \<open>Member_Order\<close> shows that
  decoding does not depend on the order of members.

  Validation.  \<open>Representation_Checks\<close>, \<open>Conditional_Graph\<close> and \<open>Semantic_Validation\<close> are
  \<open>validation/semantic.go\<close> with every issue it can report.  \<open>Semantic_Properties\<close>,
  \<open>Chronology_Properties\<close> and \<open>Bin_Partitions\<close> say what an accepted ledger satisfies:
  probabilities that add to one, ordered quantiles, bins that partition the line, histories in order
  of time, conditional relationships without a cycle, resolutions that fit their question.

  Authoring.  \<open>Ledger_Mutations\<close> and \<open>Question_Revisions\<close> have every operation of \<open>service\<close> that
  changes questions, revisions, forecasts, groups and relationships, from ledger and input to
  prospective ledger and patches.  \<open>Ledger_Acceptance\<close> characterises the prospective validation, and
  \<open>Authoring_History\<close> is the step relation of these operations: whatever steps follow, the ledger
  stays valid, and no target that a timestamp was or may be taken of changes.

  Patching.  \<open>Document_Patching\<close> is \<open>document/patch.go\<close> and \<open>structural_patch.go\<close> on JSON
  documents, byte edits by source offset.  \<open>JSON_Syntax\<close> has the syntax trees of documents, white
  space included: the parser finds one and the bytes determine it.  \<open>Patch_Properties\<close> refines
  patches of values by these edits, and shows a layout of the document for which the edits corrupt it.

  Sealing and targets.  \<open>Sealed_Forecasts\<close> is \<open>forecastcrypto\<close>, and \<open>Sealed_Properties\<close> shows that
  sealed forecasts open, that a key file and a commitment open to one bundle only, and that a reveal
  agrees with opening.  \<open>Forecast_Targets\<close> is \<open>target/target.go\<close>; equal bytes of a target mean equal
  projections.

  Storage.  \<open>Ledger_Storage\<close> is \<open>storage/transaction.go\<close>.  A transaction is a tree of system calls on
  a directory; an oracle chooses which call fails and after which call the process stops.
  \<open>Storage_Recovery\<close> computes weakest preconditions of such runs, and \<open>Transaction_Properties\<close> has the
  results: the visible ledger is valid in every reachable directory, a transaction is atomic, and
  recovery completes an interrupted one.  \<open>App_Errors\<close> is \<open>app/errors.go\<close>.

  Parameters.  What the code takes from outside the repository is an argument: the authenticated
  cipher (a function that opens what it seals), the source of random bytes, the run of the
  embedded JSON schema, the data base of time zones and the local zone, the parse of a YAML document,
  the answers of the system calls and the digits in names of temporary files.

  Not modelled.  Edits of YAML documents, which work on the nodes of the YAML library; the creation of
  ledgers, platforms and root metadata, which check addresses with \<open>net/url\<close> and \<open>net/mail\<close>; read-only
  listings and views; the reading of inputs by reflection; the layered verification reports, timestamps
  and publication, which rest on certificates, the network and directory trees; the command line
  and the MCP server; locking by polling a clock; files other than the ledger and its journal.
\<close>

end
